(* ===== verification/Js_Prelude.thy ===== *)
theory Js_Prelude
  imports Main "HOL-Library.AList" "HOL-Library.Char_ord" "HOL-Library.List_Lexorder"
    "HOL-Library.Product_Lexorder"
begin

text \<open>
  The part of JavaScript the sources rely on, and the generic lemmas the components share.

  \<^item> Numbers: \<open>jnum\<close> is an integer or \<open>NaN\<close>. Every number the engine computes with (wall clock
    milliseconds, counters, generations, sizes) is an integer below \<open>2 ^ 53\<close>, where a double is
    exact; \<open>NaN\<close> is what \<open>parseInt\<close> answers on text that is no number, and it spreads
    through arithmetic and answers False to every comparison, as in the language.
  \<^item> Strings: \<open>string\<close>, one \<open>char\<close> per code unit, ordered lexicographically by code unit
    (the order of \<open><\<close> on strings). \<open>slice\<close>, \<open>indexOf\<close>, \<open>lastIndexOf\<close>,
    \<open>padStart\<close>, \<open>toString(radix)\<close> and \<open>parseInt(text, radix)\<close> are written out.
  \<^item> Objects and \<open>Map\<close>s: association lists with distinct keys. \<open>AList.update\<close> keeps the
    place of a key that is present and appends a new one, which is the iteration order of a
    JavaScript \<open>Map\<close> and of an object with non-numeric keys.
  \<^item> Exceptions: a result is \<open>js_error + 'a\<close>, \<open>Inl\<close> for a throw.
\<close>

named_theorems stamp_simps \<open>comparisons of clock stamps as comparisons of keys\<close>
named_theorems crdt_simps \<open>equations of the merge engine\<close>

section \<open>Errors and results\<close>

datatype remote_access_kind = Unauthenticated | Forbidden | NotFoundAccess | RateLimited | PolicyUnavailable

datatype credential_failure = Unavailable | Unreadable

datatype js_error =
    Error string
  | RangeError string
  | TypeError string
  | RemoteAccessError int remote_access_kind "int option"
  | MeshEncryptionMismatchError bool bool
  | MeshCredentialMismatchError string string string
  | CredentialReplacementRequiredError string
  | CredentialPersistenceError string string js_error
  | MeshKeySourceContractError
  | MeshCredentialAccessError credential_failure "string option"
  | CredentialAccessError credential_failure string
  | FileIntegrityError string

type_synonym 'a result = "js_error + 'a"

fun bind_result :: "'a result \<Rightarrow> ('a \<Rightarrow> 'b result) \<Rightarrow> 'b result" where
  "bind_result (Inl e) f = Inl e"
| "bind_result (Inr x) f = f x"

lemma bind_result_Inr_iff:
  "bind_result r f = Inr y \<longleftrightarrow> (\<exists>x. r = Inr x \<and> f x = Inr y)"
  by (cases r) auto

lemma bind_result_Inl_iff:
  "bind_result r f = Inl e \<longleftrightarrow> r = Inl e \<or> (\<exists>x. r = Inr x \<and> f x = Inl e)"
  by (cases r) auto

fun isOk :: "'a result \<Rightarrow> bool" where
  "isOk (Inl e) = False"
| "isOk (Inr x) = True"

section \<open>Numbers\<close>

datatype jnum = NaN | Num int

fun jadd :: "jnum \<Rightarrow> jnum \<Rightarrow> jnum" where
  "jadd (Num a) (Num b) = Num (a + b)"
| "jadd _ _ = NaN"

fun jsub :: "jnum \<Rightarrow> jnum \<Rightarrow> jnum" where
  "jsub (Num a) (Num b) = Num (a - b)"
| "jsub _ _ = NaN"

fun jmax :: "jnum \<Rightarrow> jnum \<Rightarrow> jnum" where
  "jmax (Num a) (Num b) = Num (max a b)"
| "jmax _ _ = NaN"

fun jmin :: "jnum \<Rightarrow> jnum \<Rightarrow> jnum" where
  "jmin (Num a) (Num b) = Num (min a b)"
| "jmin _ _ = NaN"

text \<open>\<open>===\<close> on numbers: \<open>NaN\<close> is not equal to itself.\<close>

fun jeq :: "jnum \<Rightarrow> jnum \<Rightarrow> bool" where
  "jeq (Num a) (Num b) = (a = b)"
| "jeq _ _ = False"

fun jgt :: "jnum \<Rightarrow> jnum \<Rightarrow> bool" where
  "jgt (Num a) (Num b) = (a > b)"
| "jgt _ _ = False"

definition jlt :: "jnum \<Rightarrow> jnum \<Rightarrow> bool" where
  "jlt a b = jgt b a"

fun jge :: "jnum \<Rightarrow> jnum \<Rightarrow> bool" where
  "jge (Num a) (Num b) = (a \<ge> b)"
| "jge _ _ = False"

definition jle :: "jnum \<Rightarrow> jnum \<Rightarrow> bool" where
  "jle a b = jge b a"

fun isFinite :: "jnum \<Rightarrow> bool" where
  "isFinite (Num _) = True"
| "isFinite NaN = False"

lemma jlt_Num [simp]: "jlt (Num a) (Num b) = (a < b)"
  by (simp add: jlt_def)

lemma jle_Num [simp]: "jle (Num a) (Num b) = (a \<le> b)"
  by (simp add: jle_def)

lemma jcmp_NaN [simp]: "\<not> jlt NaN x" "\<not> jlt x NaN" "\<not> jle NaN x" "\<not> jle x NaN" "\<not> jeq x NaN" "\<not> jgt x NaN"
  by (cases x; simp add: jlt_def jle_def)+

text \<open>The sign of a comparator's answer, the only thing its callers read.\<close>

fun jsgn :: "jnum \<Rightarrow> jnum" where
  "jsgn (Num a) = Num (sgn a)"
| "jsgn NaN = NaN"

lemma jsgn_Num_iff: "jsgn x = Num s \<longleftrightarrow> (\<exists>a. x = Num a \<and> sgn a = s)"
  by (cases x) auto

lemma jgt0_jsgn: "jgt x (Num 0) \<longleftrightarrow> jsgn x = Num 1"
  by (cases x) (auto simp: sgn_if)

lemma jle0_jsgn: "jle x (Num 0) \<longleftrightarrow> jsgn x = Num (- 1) \<or> jsgn x = Num 0"
  by (cases x) (auto simp: sgn_if)

lemma jlt0_jsgn: "jlt x (Num 0) \<longleftrightarrow> jsgn x = Num (- 1)"
  by (cases x) (auto simp: sgn_if)

lemma jge0_jsgn: "jge x (Num 0) \<longleftrightarrow> jsgn x = Num 1 \<or> jsgn x = Num 0"
  by (cases x) (auto simp: sgn_if)

section \<open>Strings\<close>

definition clampIndex :: "string \<Rightarrow> int \<Rightarrow> nat" where
  "clampIndex s i =
     (if i < 0 then nat (int (length s) + i) else min (nat i) (length s))"

text \<open>\<open>s.slice(from, to)\<close>: negative positions count from the end.\<close>

definition jslice :: "string \<Rightarrow> int \<Rightarrow> int \<Rightarrow> string" where
  "jslice s from to = take (clampIndex s to - clampIndex s from) (drop (clampIndex s from) s)"

definition jsliceFrom :: "string \<Rightarrow> int \<Rightarrow> string" where
  "jsliceFrom s from = drop (clampIndex s from) s"

definition startsAt :: "string \<Rightarrow> string \<Rightarrow> nat \<Rightarrow> bool" where
  "startsAt p s i = (take (length p) (drop i s) = p)"

text \<open>\<open>s.indexOf(p, from)\<close> and \<open>s.lastIndexOf(p)\<close>: \<open>-1\<close> when absent.\<close>

definition indexOf :: "string \<Rightarrow> string \<Rightarrow> int \<Rightarrow> int" where
  "indexOf s p from =
     (case filter (startsAt p s) [min (nat from) (length s)..<Suc (length s)] of
        [] \<Rightarrow> - 1 | i # _ \<Rightarrow> int i)"

definition lastIndexOf :: "string \<Rightarrow> string \<Rightarrow> int" where
  "lastIndexOf s p =
     (case rev (filter (startsAt p s) [0..<Suc (length s)]) of
        [] \<Rightarrow> - 1 | i # _ \<Rightarrow> int i)"

definition startsWith :: "string \<Rightarrow> string \<Rightarrow> bool" where
  "startsWith s p = startsAt p s 0"

definition endsWith :: "string \<Rightarrow> string \<Rightarrow> bool" where
  "endsWith s p = (length p \<le> length s \<and> drop (length s - length p) s = p)"

definition charAt :: "string \<Rightarrow> nat \<Rightarrow> char option" where
  "charAt s i = (if i < length s then Some (s ! i) else None)"

definition padStart :: "nat \<Rightarrow> char \<Rightarrow> string \<Rightarrow> string" where
  "padStart n c s = replicate (n - length s) c @ s"

fun jjoin :: "string \<Rightarrow> string list \<Rightarrow> string" where
  "jjoin sep [] = ''''"
| "jjoin sep [x] = x"
| "jjoin sep (x # y # ys) = x @ sep @ jjoin sep (y # ys)"

text \<open>\<open>s.split(c)\<close> for a one-character separator.\<close>

fun jsplit :: "char \<Rightarrow> string \<Rightarrow> string list" where
  "jsplit c [] = [[]]"
| "jsplit c (x # xs) =
     (if x = c then [] # jsplit c xs
      else (case jsplit c xs of [] \<Rightarrow> [[x]] | y # ys \<Rightarrow> (x # y) # ys))"


section \<open>Digits\<close>

definition digitChar :: "nat \<Rightarrow> char" where
  "digitChar d = (if d < 10 then char_of (48 + d) else char_of (87 + d))"

definition digitVal :: "char \<Rightarrow> nat option" where
  "digitVal c =
     (let n = of_char c :: nat in
      if 48 \<le> n \<and> n \<le> 57 then Some (n - 48)
      else if 97 \<le> n \<and> n \<le> 122 then Some (n - 87)
      else if 65 \<le> n \<and> n \<le> 90 then Some (n - 55)
      else None)"

definition isDigit :: "nat \<Rightarrow> char \<Rightarrow> bool" where
  "isDigit b c = (case digitVal c of None \<Rightarrow> False | Some d \<Rightarrow> d < b)"

fun digitsOf :: "nat \<Rightarrow> nat \<Rightarrow> nat list" where
  "digitsOf b n = (if b < 2 \<or> n < b then [n] else digitsOf b (n div b) @ [n mod b])"

declare digitsOf.simps [simp del]

definition horner :: "nat \<Rightarrow> nat list \<Rightarrow> nat" where
  "horner b ds = foldl (\<lambda>a d. a * b + d) 0 ds"

text \<open>\<open>n.toString(radix)\<close>; the default radix is 10.\<close>

fun toStringRadix :: "nat \<Rightarrow> jnum \<Rightarrow> string" where
  "toStringRadix b NaN = ''NaN''"
| "toStringRadix b (Num n) =
     (if n < 0 then ''-'' @ map digitChar (digitsOf b (nat (- n)))
      else map digitChar (digitsOf b (nat n)))"

definition isJsSpace :: "char \<Rightarrow> bool" where
  "isJsSpace c = (let n = of_char c :: nat in n = 32 \<or> (9 \<le> n \<and> n \<le> 13) \<or> n = 160)"

definition parseDigits :: "nat \<Rightarrow> string \<Rightarrow> jnum" where
  "parseDigits b s =
     (let ds = takeWhile (isDigit b) s
      in if ds = [] then NaN else Num (int (horner b (map (the \<circ> digitVal) ds))))"

definition stripHexPrefix :: "nat \<Rightarrow> string \<Rightarrow> string" where
  "stripHexPrefix b s =
     (if b = 16 \<and> (startsWith s ''0x'' \<or> startsWith s ''0X'') then drop 2 s else s)"

text \<open>
  \<open>parseInt(text, radix)\<close>: leading white space, an optional sign, for radix 16 an optional
  \<open>0x\<close>, then the longest run of digits; \<open>NaN\<close> when there is none.
\<close>

definition parseInt :: "string \<Rightarrow> nat \<Rightarrow> jnum" where
  "parseInt text b =
     (case dropWhile isJsSpace text of
        [] \<Rightarrow> NaN
      | c # cs \<Rightarrow>
          if c = CHR ''-'' then jsub (Num 0) (parseDigits b (stripHexPrefix b cs))
          else if c = CHR ''+'' then parseDigits b (stripHexPrefix b cs)
          else parseDigits b (stripHexPrefix b (c # cs)))"

lemma of_char_digitChar:
  "d < 36 \<Longrightarrow> (of_char (digitChar d) :: nat) = (if d < 10 then 48 + d else 87 + d)"
  by (simp add: digitChar_def)

lemma digitVal_digitChar [simp]: "d < 36 \<Longrightarrow> digitVal (digitChar d) = Some d"
  by (simp add: digitVal_def of_char_digitChar Let_def)

lemma isDigit_digitChar [simp]: "b \<le> 36 \<Longrightarrow> d < b \<Longrightarrow> isDigit b (digitChar d)"
  by (simp add: isDigit_def)

lemma digitChar_less: "d < 36 \<Longrightarrow> e < 36 \<Longrightarrow> digitChar d < digitChar e \<longleftrightarrow> d < e"
  by (auto simp: less_char_def of_char_digitChar)

lemma digitChar_inject: "d < 36 \<Longrightarrow> e < 36 \<Longrightarrow> digitChar d = digitChar e \<longleftrightarrow> d = e"
  by (metis digitVal_digitChar option.inject)

lemma digitChar_not_sign [simp]: "d < 36 \<Longrightarrow> digitChar d \<noteq> CHR ''-''" "d < 36 \<Longrightarrow> digitChar d \<noteq> CHR ''+''"
  using of_char_digitChar [of d] by (auto split: if_splits)

lemma digitChar_not_x: "d < 16 \<Longrightarrow> digitChar d \<noteq> CHR ''x''" "d < 16 \<Longrightarrow> digitChar d \<noteq> CHR ''X''"
  using of_char_digitChar [of d] by (auto split: if_splits)

lemma not_space_digitChar: "d < 36 \<Longrightarrow> \<not> isJsSpace (digitChar d)"
  by (simp add: isJsSpace_def of_char_digitChar Let_def)

lemma horner_append: "horner b (ds @ es) = horner b ds * b ^ length es + horner b es"
proof (induction es rule: rev_induct)
  case Nil
  then show ?case by (simp add: horner_def)
next
  case (snoc e es)
  have "horner b (ds @ es @ [e]) = horner b (ds @ es) * b + e"
    by (simp add: horner_def)
  moreover have "horner b (es @ [e]) = horner b es * b + e"
    by (simp add: horner_def)
  ultimately show ?case using snoc by (simp add: algebra_simps)
qed

lemma horner_Nil [simp]: "horner b [] = 0"
  by (simp add: horner_def)

lemma horner_Cons: "horner b (d # ds) = d * b ^ length ds + horner b ds"
  using horner_append [of b "[d]" ds] by (simp add: horner_def)

lemma horner_digitsOf: "2 \<le> b \<Longrightarrow> horner b (digitsOf b n) = n"
proof (induction b n rule: digitsOf.induct)
  case (1 b n)
  show ?case
  proof (cases "n < b")
    case True
    with 1 show ?thesis by (simp add: digitsOf.simps [of b n] horner_def)
  next
    case False
    with 1 have "horner b (digitsOf b (n div b)) = n div b" by simp
    with 1 False show ?thesis
      by (simp add: digitsOf.simps [of b n] horner_append) (simp add: horner_def)
  qed
qed

lemma digitsOf_less: "2 \<le> b \<Longrightarrow> d \<in> set (digitsOf b n) \<Longrightarrow> d < b"
proof (induction b n rule: digitsOf.induct)
  case (1 b n)
  then show ?case by (subst (asm) (2) digitsOf.simps) (auto split: if_splits)
qed

lemma digitsOf_not_Nil [simp]: "digitsOf b n \<noteq> []"
  by (subst digitsOf.simps) simp

lemma horner_replicate_0 [simp]: "horner b (replicate k 0 @ ds) = horner b ds"
  by (induction k) (simp_all add: horner_Cons)

lemma horner_bound: "(\<And>d. d \<in> set ds \<Longrightarrow> d < b) \<Longrightarrow> horner b ds < b ^ length ds"
proof (induction ds)
  case Nil
  then show ?case by simp
next
  case (Cons d ds)
  then have "horner b ds < b ^ length ds" and "Suc d \<le> b" by (auto intro: Suc_leI)
  then have "d * b ^ length ds + horner b ds < Suc d * b ^ length ds" by simp
  also have "\<dots> \<le> b * b ^ length ds" using \<open>Suc d \<le> b\<close> by (rule mult_le_mono1)
  finally show ?case by (simp add: horner_Cons)
qed

lemma length_digitsOf_le:
  assumes "2 \<le> b" and "n < b ^ k" and "0 < k"
  shows "length (digitsOf b n) \<le> k"
  using assms
proof (induction b n arbitrary: k rule: digitsOf.induct)
  case (1 b n)
  show ?case
  proof (cases "n < b")
    case True
    with 1 show ?thesis by (simp add: digitsOf.simps [of b n])
  next
    case False
    from False 1 obtain j where j: "k = Suc j" "0 < j"
      by (cases k) (auto, metis Suc_pred less_one nat_neq_iff power_0 not_less_zero power_one_right gr0I mult.right_neutral)
    with 1 have "n div b < b ^ j"
      by (simp add: less_mult_imp_div_less mult.commute)
    with 1 False j have "length (digitsOf b (n div b)) \<le> j" by simp
    with False 1 j show ?thesis by (simp add: digitsOf.simps [of b n])
  qed
qed

lemma length_digitsOf_gt:
  assumes "2 \<le> b" and "b ^ k \<le> n"
  shows "k < length (digitsOf b n)"
proof (rule ccontr)
  assume "\<not> k < length (digitsOf b n)"
  then have "b ^ length (digitsOf b n) \<le> b ^ k"
    using assms(1) by (simp add: power_increasing)
  moreover have "n < b ^ length (digitsOf b n)"
    using horner_bound [of "digitsOf b n" b] horner_digitsOf [OF assms(1), of n]
      digitsOf_less [OF assms(1)] by auto
  ultimately show False using assms(2) by simp
qed

text \<open>Digit strings of one width are ordered as the numbers they denote.\<close>

lemma digits_lex_less:
  assumes "length ds = length es" and "b \<le> 36"
    and "\<And>d. d \<in> set ds \<Longrightarrow> d < b" and "\<And>d. d \<in> set es \<Longrightarrow> d < b"
  shows "map digitChar ds < map digitChar es \<longleftrightarrow> horner b ds < horner b es"
  using assms
proof (induction ds es rule: list_induct2)
  case Nil
  then show ?case by simp
next
  case (Cons d ds e es)
  then have IH: "map digitChar ds < map digitChar es \<longleftrightarrow> horner b ds < horner b es" by simp
  have bd: "horner b ds < b ^ length ds" and be: "horner b es < b ^ length ds"
    using Cons horner_bound [of ds b] horner_bound [of es b] by simp_all
  have d36: "d < 36" "e < 36"
    using Cons.prems by (meson list.set_intros(1) order_less_le_trans)+
  have lt: "x * b ^ length ds + u < y * b ^ length ds + v"
    if "x < y" "u < b ^ length ds" for x y u v
  proof -
    from that have "x * b ^ length ds + u < Suc x * b ^ length ds" by simp
    also have "\<dots> \<le> y * b ^ length ds" using that by (intro mult_le_mono1) simp
    finally show ?thesis by simp
  qed
  consider "d < e" | "d = e" | "e < d" by linarith
  then show ?case
  proof cases
    case 1
    with lt [OF 1 bd] d36 show ?thesis by (simp add: horner_Cons digitChar_less Cons.hyps)
  next
    case 2
    with IH show ?thesis by (simp add: horner_Cons Cons.hyps)
  next
    case 3
    then have "\<not> digitChar d < digitChar e" "digitChar d \<noteq> digitChar e"
      using d36 by (simp_all add: digitChar_less digitChar_inject)
    with lt [OF 3 be] show ?thesis
      using Cons.hyps by (simp add: horner_Cons) (meson less_asym less_imp_le not_less)
  qed
qed

lemma append_less_append:
  fixes xs ys :: "'a::order list"
  assumes "length xs = length ys"
  shows "xs @ us < ys @ vs \<longleftrightarrow> xs < ys \<or> xs = ys \<and> us < vs"
  using assms by (induction xs ys rule: list_induct2) auto

text \<open>A zero-padded digit string parses to its number, whatever non-digit follows it.\<close>

lemma takeWhile_digits:
  assumes "b \<le> 36" and "\<And>d. d \<in> set ds \<Longrightarrow> d < b" and "rest = [] \<or> \<not> isDigit b (hd rest)"
  shows "takeWhile (isDigit b) (map digitChar ds @ rest) = map digitChar ds"
  using assms by (induction ds) (auto simp: takeWhile_eq_Nil_iff)

lemma map_digitVal_digitChar:
  assumes "\<And>d. d \<in> set ds \<Longrightarrow> d < 36"
  shows "map (the \<circ> digitVal) (map digitChar ds) = ds"
  using assms by (induction ds) auto

lemma parseInt_digits:
  assumes b: "2 \<le> b" "b \<le> 16" and ds: "\<And>d. d \<in> set ds \<Longrightarrow> d < b" "ds \<noteq> []"
  shows "parseInt (map digitChar ds) b = Num (int (horner b ds))"
proof -
  obtain d es where ds': "ds = d # es" using ds(2) by (cases ds) auto
  have "d < b" using ds(1) ds' by simp
  with b have d: "d < b" "d < 16" "d < 36" by simp_all
  have e: "\<And>x. x \<in> set es \<Longrightarrow> x < 16" using ds b ds' by fastforce
  have nospace: "dropWhile isJsSpace (map digitChar ds) = map digitChar ds"
    using d not_space_digitChar by (simp add: ds')
  have noprefix: "stripHexPrefix b (map digitChar ds) = map digitChar ds"
    using e digitChar_not_x by (cases es) (auto simp: stripHexPrefix_def startsWith_def startsAt_def ds')
  have vals: "map (the \<circ> digitVal) (map digitChar ds) = ds"
    using ds b by (intro map_digitVal_digitChar) fastforce
  have digs: "takeWhile (isDigit b) (map digitChar ds) = map digitChar ds"
    using takeWhile_digits [of b ds "[]"] b ds by simp
  have "parseDigits b (map digitChar ds) = Num (int (horner b ds))"
    unfolding parseDigits_def Let_def digs vals using ds(2) by simp
  then show ?thesis
    using nospace noprefix d by (simp add: parseInt_def ds' split: list.split)
qed

definition padDigits :: "nat \<Rightarrow> nat \<Rightarrow> nat \<Rightarrow> nat list" where
  "padDigits b w n = replicate (w - length (digitsOf b n)) 0 @ digitsOf b n"

lemma padStart_toStringRadix:
  assumes "0 \<le> n"
  shows "padStart w (CHR ''0'') (toStringRadix b (Num n)) = map digitChar (padDigits b w (nat n))"
proof -
  have "digitChar 0 = CHR ''0''" by code_simp
  then show ?thesis using assms by (simp add: padStart_def padDigits_def)
qed

lemma padDigits_less: "2 \<le> b \<Longrightarrow> d \<in> set (padDigits b w n) \<Longrightarrow> d < b"
  by (auto simp: padDigits_def dest: digitsOf_less)

lemma padDigits_not_Nil [simp]: "padDigits b w n \<noteq> []"
  by (simp add: padDigits_def)

lemma horner_padDigits [simp]: "2 \<le> b \<Longrightarrow> horner b (padDigits b w n) = n"
  by (simp add: padDigits_def horner_digitsOf)

lemma length_padDigits:
  assumes "2 \<le> b" "0 < w"
  shows "n < b ^ w \<Longrightarrow> length (padDigits b w n) = w"
    and "b ^ w \<le> n \<Longrightarrow> w < length (padDigits b w n)"
  using length_digitsOf_le [OF assms(1), of n w] length_digitsOf_gt [OF assms(1), of w n] assms(2)
  by (simp_all add: padDigits_def)

lemma parseInt_padded:
  assumes "2 \<le> b" "b \<le> 16" "0 \<le> n"
  shows "parseInt (padStart w (CHR ''0'') (toStringRadix b (Num n))) b = Num n"
  using assms padDigits_less [of b _ w "nat n"]
  by (simp add: padStart_toStringRadix parseInt_digits del: toStringRadix.simps)

lemma padDigits_lex_less:
  assumes "2 \<le> b" "b \<le> 36" "0 < w" "m < b ^ w" "n < b ^ w"
  shows "map digitChar (padDigits b w m) < map digitChar (padDigits b w n) \<longleftrightarrow> m < n"
  using digits_lex_less [of "padDigits b w m" "padDigits b w n" b] assms
  by (simp add: length_padDigits padDigits_less)

section \<open>Searching and slicing\<close>

lemma startsAt_char: "startsAt [c] s i \<longleftrightarrow> i < length s \<and> s ! i = c"
proof -
  have "take (Suc 0) (drop i s) = (if i < length s then [s ! i] else [])"
    by (simp add: take_Suc hd_drop_conv_nth)
  then show ?thesis by (simp add: startsAt_def)
qed

lemma indexOf_char:
  assumes "c \<notin> set xs"
  shows "indexOf (ps @ xs @ c # ys) [c] (int (length ps)) = int (length ps + length xs)"
proof -
  let ?s = "ps @ xs @ c # ys" and ?n = "length ps + length xs"
  have "[length ps..<Suc (length ?s)] = [length ps..<?n] @ [?n..<Suc (length ?s)]"
    using upt_add_eq_append [of "length ps" ?n "Suc (Suc (length ys))"] by (simp add: add.assoc)
  also have "[?n..<Suc (length ?s)] = ?n # [Suc ?n..<Suc (length ?s)]"
    by (rule upt_conv_Cons) simp
  finally have "[length ps..<Suc (length ?s)] = [length ps..<?n] @ ?n # [Suc ?n..<Suc (length ?s)]" .
  moreover have "filter (startsAt [c] ?s) [length ps..<?n] = []"
    using assms by (auto simp: filter_empty_conv startsAt_char nth_append in_set_conv_nth)
  moreover have "startsAt [c] ?s ?n"
    by (simp add: startsAt_char nth_append)
  ultimately show ?thesis
    by (simp add: indexOf_def del: upt_Suc)
qed

lemma upt_split: "i < n \<Longrightarrow> [0..<n] = [0..<i] @ i # [Suc i..<n]"
  using upt_add_eq_append [of 0 i "n - i"] by (simp add: upt_conv_Cons)

lemma jslice_mid: "jslice (ps @ xs @ ys) (int (length ps)) (int (length ps + length xs)) = xs"
  by (simp add: jslice_def clampIndex_def)

lemma jsliceFrom_append: "jsliceFrom (ps @ xs) (int (length ps)) = xs"
  by (simp add: jsliceFrom_def clampIndex_def)

text \<open>A text splits in one way at its first separator.\<close>

lemma first_separator:
  "c \<notin> set xs \<Longrightarrow> c \<notin> set xs' \<Longrightarrow> xs @ c # ys = xs' @ c # ys' \<longleftrightarrow> xs = xs' \<and> ys = ys'"
proof (induction xs arbitrary: xs')
  case Nil
  then show ?case by (cases xs') auto
next
  case (Cons x xs)
  then show ?case by (cases xs') auto
qed

section \<open>Objects as association lists\<close>

lemma map_of_update [simp]: "map_of (AList.update k v al) = (map_of al)(k \<mapsto> v)"
  by (rule update_conv')

lemma set_alist_update: "set (AList.update k v al) \<subseteq> insert (k, v) (set al)"
  by (induction al) auto

text \<open>The members of a JavaScript \<open>Set\<close> built from a list, in insertion order.\<close>

definition jsetOf :: "'a list \<Rightarrow> 'a list" where
  "jsetOf xs = rev (remdups (rev xs))"

lemma set_jsetOf [simp]: "set (jsetOf xs) = set xs"
  by (simp add: jsetOf_def)

lemma distinct_jsetOf [simp]: "distinct (jsetOf xs)"
  by (simp add: jsetOf_def)

lemma jsetOf_distinct: "distinct xs \<Longrightarrow> jsetOf xs = xs"
  by (simp add: jsetOf_def distinct_remdups_id)

definition jsetAdd :: "'a \<Rightarrow> 'a list \<Rightarrow> 'a list" where
  "jsetAdd x xs = (if x \<in> set xs then xs else xs @ [x])"

lemma set_jsetAdd [simp]: "set (jsetAdd x xs) = insert x (set xs)"
  by (auto simp: jsetAdd_def)

lemma distinct_jsetAdd [simp]: "distinct (jsetAdd x xs) \<longleftrightarrow> distinct xs"
  by (auto simp: jsetAdd_def)

lemma set_fold_jsetAdd [simp]: "set (fold jsetAdd xs ys) = set xs \<union> set ys"
  by (induction xs arbitrary: ys) auto

lemma distinct_fold_jsetAdd [simp]: "distinct (fold jsetAdd xs ys) \<longleftrightarrow> distinct ys"
  by (induction xs arbitrary: ys) auto

lemma in_set_map_filter: "y \<in> set (List.map_filter f xs) \<longleftrightarrow> (\<exists>x \<in> set xs. f x = Some y)"
  by (induction xs) (auto simp: List.map_filter_simps split: option.splits)

lemma update_fresh: "k \<notin> fst ` set al \<Longrightarrow> AList.update k v al = al @ [(k, v)]"
  by (induction al) auto

section \<open>Comparators and \<open>Array.prototype.sort\<close>\<close>

definition cmpSign :: "'k::linorder \<Rightarrow> 'k \<Rightarrow> int" where
  "cmpSign a b = (if a < b then - 1 else if b < a then 1 else 0)"

text \<open>
  The stable sort with a comparator. An answer that is not positive (\<open>NaN\<close> counts as 0)
  leaves the two elements in their order.
\<close>

fun jinsert :: "('a \<Rightarrow> 'a \<Rightarrow> jnum) \<Rightarrow> 'a \<Rightarrow> 'a list \<Rightarrow> 'a list" where
  "jinsert cmp x [] = [x]"
| "jinsert cmp x (y # ys) = (if jgt (cmp x y) (Num 0) then y # jinsert cmp x ys else x # y # ys)"

fun jsort :: "('a \<Rightarrow> 'a \<Rightarrow> jnum) \<Rightarrow> 'a list \<Rightarrow> 'a list" where
  "jsort cmp [] = []"
| "jsort cmp (x # xs) = jinsert cmp x (jsort cmp xs)"

lemma set_jinsert [simp]: "set (jinsert cmp x xs) = insert x (set xs)"
  by (induction xs) auto

lemma set_jsort [simp]: "set (jsort cmp xs) = set xs"
  by (induction xs) auto

lemma distinct_jinsert: "distinct (jinsert cmp x xs) \<longleftrightarrow> x \<notin> set xs \<and> distinct xs"
  by (induction xs) auto

lemma distinct_jsort [simp]: "distinct (jsort cmp xs) \<longleftrightarrow> distinct xs"
  by (induction xs) (auto simp: distinct_jinsert)

lemma length_jinsert [simp]: "length (jinsert cmp x xs) = Suc (length xs)"
  by (induction xs) auto

lemma length_jsort [simp]: "length (jsort cmp xs) = length xs"
  by (induction xs) auto

text \<open>
  What a caller of a comparator relies on: on the values it is meant for, the answer's sign is
  the order of a key, and the key determines the value.
\<close>

locale js_comparator =
  fixes ok :: "'a \<Rightarrow> bool" and key :: "'a \<Rightarrow> 'k::linorder" and cmp :: "'a \<Rightarrow> 'a \<Rightarrow> jnum"
  assumes sign: "ok a \<Longrightarrow> ok b \<Longrightarrow> jsgn (cmp a b) = Num (cmpSign (key a) (key b))"
    and key_inject: "ok a \<Longrightarrow> ok b \<Longrightarrow> key a = key b \<Longrightarrow> a = b"
begin

lemma gt0: "ok a \<Longrightarrow> ok b \<Longrightarrow> jgt (cmp a b) (Num 0) \<longleftrightarrow> key b < key a"
  by (auto simp: jgt0_jsgn sign cmpSign_def)

lemma lt0: "ok a \<Longrightarrow> ok b \<Longrightarrow> jlt (cmp a b) (Num 0) \<longleftrightarrow> key a < key b"
  by (auto simp: jlt0_jsgn sign cmpSign_def)

lemma le0: "ok a \<Longrightarrow> ok b \<Longrightarrow> jle (cmp a b) (Num 0) \<longleftrightarrow> key a \<le> key b"
  by (auto simp: jle0_jsgn sign cmpSign_def)

lemma ge0: "ok a \<Longrightarrow> ok b \<Longrightarrow> jge (cmp a b) (Num 0) \<longleftrightarrow> key b \<le> key a"
  by (auto simp: jge0_jsgn sign cmpSign_def)

lemma zero_iff_eq: "ok a \<Longrightarrow> ok b \<Longrightarrow> cmp a b = Num 0 \<longleftrightarrow> a = b"
  using sign [of a b] key_inject [of a b]
  by (cases "cmp a b") (auto simp: cmpSign_def sgn_if split: if_splits)

lemma sorted_jinsert:
  assumes "ok x" "\<forall>y \<in> set ys. ok y" "sorted (map key ys)"
  shows "sorted (map key (jinsert cmp x ys))"
  using assms by (induction ys) (auto simp: gt0)

lemma sorted_jsort: "\<forall>x \<in> set xs. ok x \<Longrightarrow> sorted (map key (jsort cmp xs))"
  by (induction xs) (auto simp: sorted_jinsert)

text \<open>Sorting is canonical: two listings of the same files sort to the same sequence.\<close>

lemma jsort_unique:
  assumes "\<forall>x \<in> set xs. ok x" "distinct xs" "distinct ys" "set xs = set ys"
  shows "jsort cmp xs = jsort cmp ys"
proof -
  have inj: "inj_on key (set xs \<union> set ys)"
    using assms key_inject by (auto simp: inj_on_def)
  have "map key (jsort cmp xs) = map key (jsort cmp ys)"
  proof (rule sorted_distinct_set_unique)
    show "sorted (map key (jsort cmp xs))" "sorted (map key (jsort cmp ys))"
      using assms sorted_jsort by auto
    show "distinct (map key (jsort cmp xs))" "distinct (map key (jsort cmp ys))"
      using assms inj by (auto simp: distinct_map inj_on_def)
    show "set (map key (jsort cmp xs)) = set (map key (jsort cmp ys))"
      using assms by simp
  qed
  then show ?thesis using inj by (simp add: inj_on_map_eq_map)
qed

end

end
