(* ===== verification/Store_Lock.thy ===== *)
theory Store_Lock
  imports Js_Prelude
begin

text \<open>
  The named lock of the local store (\<open>withLock\<close> of \<open>packages/core/src/storage/memory-store.ts\<close>)
  as a state machine. A call up to its first \<open>await\<close>, the resumption after \<open>previous\<close> settled,
  and the \<open>finally\<close> block are one step each; these are the points at which the event loop can
  interleave callers. A ticket stands for a call's \<open>current\<close> promise, \<open>lkPrevious\<close> for the
  promise it awaits. The operation may succeed or throw: both end in \<open>lockRelease\<close>.
\<close>

section \<open>State and steps\<close>

record lock_state =
  lkTails :: "(string \<times> nat) list"
  lkCalls :: "(nat \<times> string) list"
  lkPrevious :: "(nat \<times> nat option) list"
  lkEntered :: "nat list"
  lkReleased :: "nat list"

definition noLocks :: lock_state where
  "noLocks = \<lparr>lkTails = [], lkCalls = [], lkPrevious = [], lkEntered = [], lkReleased = []\<rparr>"

definition lockCall :: "string \<Rightarrow> lock_state \<Rightarrow> lock_state" where
  "lockCall name s =
     (let current = length (lkCalls s) in
      s\<lparr>lkPrevious := (current, map_of (lkTails s) name) # lkPrevious s,
        lkTails := AList.update name current (lkTails s),
        lkCalls := (current, name) # lkCalls s\<rparr>)"

definition canEnter :: "lock_state \<Rightarrow> nat \<Rightarrow> bool" where
  "canEnter s n =
     (n \<notin> set (lkEntered s) \<and>
      (case map_of (lkPrevious s) n of
         None \<Rightarrow> False
       | Some None \<Rightarrow> True
       | Some (Some p) \<Rightarrow> p \<in> set (lkReleased s)))"

definition lockEnter :: "nat \<Rightarrow> lock_state \<Rightarrow> lock_state" where
  "lockEnter n s = s\<lparr>lkEntered := n # lkEntered s\<rparr>"

definition canRelease :: "lock_state \<Rightarrow> nat \<Rightarrow> bool" where
  "canRelease s n = (n \<in> set (lkEntered s) \<and> n \<notin> set (lkReleased s))"

definition lockRelease :: "nat \<Rightarrow> lock_state \<Rightarrow> lock_state" where
  "lockRelease n s =
     s\<lparr>lkReleased := n # lkReleased s,
       lkTails := filter (\<lambda>(name, tail). \<not> (map_of (lkCalls s) n = Some name \<and> tail = n)) (lkTails s)\<rparr>"

inductive lock_step :: "lock_state \<Rightarrow> lock_state \<Rightarrow> bool" where
  call: "lock_step s (lockCall name s)"
| enter: "canEnter s n \<Longrightarrow> lock_step s (lockEnter n s)"
| release: "canRelease s n \<Longrightarrow> lock_step s (lockRelease n s)"

inductive lock_reachable :: "lock_state \<Rightarrow> bool" where
  init: "lock_reachable noLocks"
| step: "lock_reachable s \<Longrightarrow> lock_step s s' \<Longrightarrow> lock_reachable s'"

inductive_cases lock_stepE: "lock_step s s'"

section \<open>The invariant\<close>

definition named :: "lock_state \<Rightarrow> string \<Rightarrow> nat \<Rightarrow> bool" where
  "named s name n = (map_of (lkCalls s) n = Some name)"

definition earlierDone :: "lock_state \<Rightarrow> string \<Rightarrow> nat \<Rightarrow> bool" where
  "earlierDone s name n = (\<forall>m < n. named s name m \<longrightarrow> m \<in> set (lkReleased s))"

text \<open>A call awaits the call of the same name just before it, or nothing when all are done.\<close>

definition waitsRight :: "lock_state \<Rightarrow> string \<Rightarrow> nat \<Rightarrow> bool" where
  "waitsRight s name n =
     (case map_of (lkPrevious s) n of
        None \<Rightarrow> False
      | Some None \<Rightarrow> earlierDone s name n
      | Some (Some p) \<Rightarrow> p < n \<and> named s name p \<and> (\<forall>m. named s name m \<and> m < n \<longrightarrow> m \<le> p))"

definition tailRight :: "lock_state \<Rightarrow> string \<Rightarrow> bool" where
  "tailRight s name =
     (case map_of (lkTails s) name of
        None \<Rightarrow> (\<forall>m. named s name m \<longrightarrow> m \<in> set (lkReleased s))
      | Some n \<Rightarrow> named s name n \<and> (\<forall>m. named s name m \<longrightarrow> m \<le> n))"

definition lockInv :: "lock_state \<Rightarrow> bool" where
  "lockInv s =
     ((\<forall>n. (\<exists>name. named s name n) \<longleftrightarrow> n < length (lkCalls s))
      \<and> set (lkReleased s) \<subseteq> set (lkEntered s)
      \<and> distinct (map fst (lkTails s))
      \<and> (\<forall>n \<in> set (lkEntered s). \<exists>name. named s name n)
      \<and> (\<forall>name n. named s name n \<longrightarrow> waitsRight s name n)
      \<and> (\<forall>name n. named s name n \<and> n \<in> set (lkEntered s) \<longrightarrow> earlierDone s name n)
      \<and> (\<forall>name. tailRight s name)
      \<and> (\<forall>n. map_of (lkPrevious s) n \<noteq> None \<longrightarrow> n < length (lkCalls s)))"

lemma lockInv_init: "lockInv noLocks"
  by (simp add: lockInv_def noLocks_def named_def tailRight_def)

lemma named_lockCall:
  "lockInv s \<Longrightarrow> named (lockCall name s) nm n \<longleftrightarrow> (if n = length (lkCalls s) then nm = name else named s nm n)"
  by (auto simp: named_def lockCall_def Let_def)

lemma named_less: "lockInv s \<Longrightarrow> named s name n \<Longrightarrow> n < length (lkCalls s)"
  by (auto simp: lockInv_def)

lemma lockInv_parts:
  assumes "lockInv s"
  shows "named s name n \<Longrightarrow> waitsRight s name n"
    and "named s name n \<Longrightarrow> n \<in> set (lkEntered s) \<Longrightarrow> earlierDone s name n"
    and "tailRight s name"
    and "set (lkReleased s) \<subseteq> set (lkEntered s)"
    and "n \<in> set (lkEntered s) \<Longrightarrow> \<exists>name. named s name n"
    and "distinct (map fst (lkTails s))"
    and "(\<exists>name. named s name n) \<longleftrightarrow> n < length (lkCalls s)"
    and "map_of (lkPrevious s) n \<noteq> None \<Longrightarrow> n < length (lkCalls s)"
  using assms by (auto simp: lockInv_def)

lemma lockCall_fields [simp]:
  "lkEntered (lockCall name s) = lkEntered s" "lkReleased (lockCall name s) = lkReleased s"
  "length (lkCalls (lockCall name s)) = Suc (length (lkCalls s))"
  "map_of (lkTails (lockCall name s)) = (map_of (lkTails s))(name \<mapsto> length (lkCalls s))"
  "map_of (lkPrevious (lockCall name s)) = (map_of (lkPrevious s))(length (lkCalls s) \<mapsto> map_of (lkTails s) name)"
  by (simp_all add: lockCall_def Let_def)

lemma lockInv_call:
  assumes inv: "lockInv s"
  shows "lockInv (lockCall name s)"
proof -
  let ?s = "lockCall name s" and ?c = "length (lkCalls s)"
  note nm = named_lockCall [OF inv] and less = named_less [OF inv] and parts = lockInv_parts [OF inv]
  have dn: "earlierDone ?s nm n \<longleftrightarrow> earlierDone s nm n" if "n \<le> ?c" for nm n
    using that by (auto simp: earlierDone_def nm)
  have waits: "waitsRight ?s nm n" if "named ?s nm n" for nm n
  proof (cases "n = ?c")
    case True
    with that nm have "nm = name" by simp
    with True parts(3) [of name] less show ?thesis
      by (auto simp: waitsRight_def tailRight_def nm dn earlierDone_def split: option.splits dest: less)
  next
    case False
    with that have old: "named s nm n" by (simp add: nm)
    with False parts(1) [OF old] less [OF old] show ?thesis
      by (auto simp: waitsRight_def nm dn split: option.splits)
  qed
  have tail: "tailRight ?s nm" for nm
    using parts(3) [of nm] less by (auto simp: tailRight_def nm split: option.splits) (meson less less_imp_le)+
  have entered: "earlierDone ?s nm n" if "named ?s nm n" "n \<in> set (lkEntered s)" for nm n
  proof -
    have "n < ?c" using parts(5,7) that(2) by blast
    with that parts(2) [of nm n] show ?thesis by (simp add: nm dn)
  qed
  have ids: "(\<exists>nm. named ?s nm n) \<longleftrightarrow> n < Suc ?c" for n
    using parts(7) [of n] by (auto simp: nm less_Suc_eq)
  have known: "\<exists>nm. named ?s nm n" if "n \<in> set (lkEntered s)" for n
    using parts(5) [OF that] parts(7) [of n] ids [of n] by auto
  have "distinct (map fst (lkTails ?s))"
    using parts(6) by (simp add: lockCall_def Let_def distinct_update)
  then show ?thesis
    unfolding lockInv_def using waits tail entered ids known parts(4) parts(8) by (auto simp: less_Suc_eq)
qed

lemma lockInv_enter:
  assumes inv: "lockInv s" and can: "canEnter s n"
  shows "lockInv (lockEnter n s)"
proof -
  let ?s = "lockEnter n s"
  note parts = lockInv_parts [OF inv]
  have same: "named ?s = named s" "earlierDone ?s = earlierDone s" "waitsRight ?s = waitsRight s" "tailRight ?s = tailRight s"
    by (auto simp: fun_eq_iff named_def earlierDone_def waitsRight_def tailRight_def lockEnter_def split: option.split)
  have "n < length (lkCalls s)" using can parts(8) by (auto simp: canEnter_def split: option.splits)
  with parts(7) obtain name where name: "named s name n" by blast
  have "earlierDone s nm n" if "named s nm n" for nm
  proof -
    from parts(1) [OF that] can consider "earlierDone s nm n"
      | p where "p < n" "named s nm p" "\<forall>m. named s nm m \<and> m < n \<longrightarrow> m \<le> p" "p \<in> set (lkReleased s)"
      by (auto simp: waitsRight_def canEnter_def split: option.splits)
    then show ?thesis
    proof cases
      case 2
      with parts(4) parts(2) [of nm p] have "earlierDone s nm p" by blast
      with 2 show ?thesis by (auto simp: earlierDone_def) (metis le_neq_implies_less)
    qed
  qed
  with inv name show ?thesis
    unfolding lockInv_def same by (auto simp: lockEnter_def)
qed

lemma map_of_lockRelease_tails:
  assumes "distinct (map fst (lkTails s))"
  shows "map_of (lkTails (lockRelease n s)) name =
    (if map_of (lkTails s) name = Some n \<and> named s name n then None else map_of (lkTails s) name)"
proof -
  have "distinct (map fst al) \<Longrightarrow> map_of (filter (\<lambda>(k, v). \<not> P k v) al) k =
      (case map_of al k of None \<Rightarrow> None | Some v \<Rightarrow> if P k v then None else Some v)" for al k and P :: "string \<Rightarrow> nat \<Rightarrow> bool"
    by (induction al) (auto split: option.splits simp: map_of_eq_None_iff)
  from this [OF assms, of "\<lambda>name tail. map_of (lkCalls s) n = Some name \<and> tail = n" name] show ?thesis
    by (auto simp: lockRelease_def named_def split: option.splits)
qed

lemma lockInv_release:
  assumes inv: "lockInv s" and can: "canRelease s n"
  shows "lockInv (lockRelease n s)"
proof -
  let ?s = "lockRelease n s"
  note parts = lockInv_parts [OF inv]
  have flds: "lkReleased ?s = n # lkReleased s" "lkEntered ?s = lkEntered s" "lkCalls ?s = lkCalls s"
    "lkPrevious ?s = lkPrevious s"
    by (simp_all add: lockRelease_def)
  have same: "named ?s = named s" by (simp add: fun_eq_iff named_def flds)
  have dn: "earlierDone s nm m \<Longrightarrow> earlierDone ?s nm m" for nm m
    by (auto simp: earlierDone_def same flds)
  have waits: "waitsRight ?s nm m" if "named s nm m" for nm m
    using parts(1) [OF that] dn by (auto simp: waitsRight_def flds same split: option.splits)
  have tail: "tailRight ?s nm" for nm
    using parts(3) [of nm] parts(2) [of nm n] can
    by (auto simp: tailRight_def map_of_lockRelease_tails [OF parts(6)] flds same canRelease_def earlierDone_def
        split: option.splits) (metis le_neq_implies_less)
  have "distinct (map fst (lkTails ?s))"
    using parts(6) by (auto simp: lockRelease_def distinct_map_filter)
  then show ?thesis
    unfolding lockInv_def same using waits tail dn parts can by (auto simp: flds canRelease_def)
qed

lemma lock_reachable_inv: "lock_reachable s \<Longrightarrow> lockInv s"
  by (induction rule: lock_reachable.induct)
     (auto elim!: lock_stepE intro: lockInv_init lockInv_call lockInv_enter lockInv_release)

text \<open>C17: In every interleaving of callers of the store's named lock, two operations under one name
  never run at the same time, they run in the order of their calls, and no call is stuck:
  while some call of a name has not finished, one of that name can be entered or is running.\<close>

theorem lock_mutual_exclusion:
  assumes "lock_reachable s" "named s name m" "named s name n"
  shows "(canRelease s m \<and> canRelease s n \<longrightarrow> m = n)
    \<and> (m < n \<and> n \<in> set (lkEntered s) \<longrightarrow> m \<in> set (lkReleased s))
    \<and> (n \<notin> set (lkReleased s) \<longrightarrow> (\<exists>k. named s name k \<and> (canEnter s k \<or> canRelease s k)))"
proof (intro conjI impI)
  note parts = lockInv_parts [OF lock_reachable_inv [OF assms(1)]]
  show order: "m < n \<and> n \<in> set (lkEntered s) \<Longrightarrow> m \<in> set (lkReleased s)"
    using parts(2) [OF assms(3)] assms(2) by (auto simp: earlierDone_def)
  show "canRelease s m \<and> canRelease s n \<Longrightarrow> m = n"
    using parts(2) [OF assms(3)] parts(2) [OF assms(2)] assms(2,3)
    by (cases m n rule: linorder_cases) (auto simp: canRelease_def earlierDone_def)
  assume "n \<notin> set (lkReleased s)"
  then obtain k where k: "named s name k" "k \<notin> set (lkReleased s)"
    and least: "\<And>j. j < k \<Longrightarrow> \<not> (named s name j \<and> j \<notin> set (lkReleased s))"
    using assms(3) exists_least_iff [of "\<lambda>j. named s name j \<and> j \<notin> set (lkReleased s)"] by blast
  show "\<exists>k. named s name k \<and> (canEnter s k \<or> canRelease s k)"
    using k least parts(1) [OF k(1)]
    by (intro exI [of _ k]) (auto simp: canEnter_def canRelease_def waitsRight_def split: option.splits)
qed

text \<open>Two callers of one lock, the first one running.\<close>

theorem lock_mutual_exclusion_witness:
  "\<exists>k. named (lockEnter 0 (lockCall ''outbox'' (lockCall ''outbox'' noLocks))) ''outbox'' k
     \<and> (canEnter (lockEnter 0 (lockCall ''outbox'' (lockCall ''outbox'' noLocks))) k
        \<or> canRelease (lockEnter 0 (lockCall ''outbox'' (lockCall ''outbox'' noLocks))) k)"
proof -
  let ?s2 = "lockCall ''outbox'' (lockCall ''outbox'' noLocks)"
  have "canEnter ?s2 0" by code_simp
  then have "lock_reachable (lockEnter 0 ?s2)"
    by (intro lock_reachable.intros(2) [OF _ lock_step.enter] lock_reachable.intros(2) [OF _ lock_step.call]
        lock_reachable.init)
  moreover have "named (lockEnter 0 ?s2) ''outbox'' 0" "named (lockEnter 0 ?s2) ''outbox'' 1" by code_simp+
  moreover have "1 \<notin> set (lkReleased (lockEnter 0 ?s2))" by code_simp
  ultimately show ?thesis using lock_mutual_exclusion [of "lockEnter 0 ?s2" "''outbox''" 0 1] by blast
qed

end
