(* ===== verification/Compact_Flight.thy ===== *)
theory Compact_Flight
  imports Main
begin

text \<open>
  The promises behind \<open>compact\<close> and \<open>maybeAutoCompact\<close>
  (\<open>packages/core/src/core/sync-engine.ts\<close>). Both share the field \<open>compactInFlight\<close>. A call of
  \<open>compact\<close> first awaits readiness, so it gives way before it looks at the field; the caller
  continues meanwhile. The state says which promise the field holds, how far each call is, and which
  promises are settled; a step is one turn of the event loop.
\<close>

section \<open>The event loop\<close>

datatype promise = CallOf nat | RunOf nat | AutoOf nat

datatype call_phase = NotCalled | AwaitingReady | Joined promise | Running

record flight =
  flInFlight :: "promise option"
  flPhase :: "nat \<Rightarrow> call_phase"
  flAutos :: "nat set"
  flSettled :: "promise set"

definition idleFlight :: flight where
  "idleFlight = \<lparr>flInFlight = None, flPhase = (\<lambda>_. NotCalled), flAutos = {}, flSettled = {}\<rparr>"

text \<open>A user calls \<open>compact\<close>: it runs up to the first await.\<close>

definition callCompact :: "nat \<Rightarrow> flight \<Rightarrow> flight" where
  "callCompact i s = s\<lparr>flPhase := (flPhase s)(i := AwaitingReady)\<rparr>"

text \<open>\<open>maybeAutoCompact\<close> past its guards: it calls \<open>compact\<close> and stores its own promise.\<close>

definition startAuto :: "nat \<Rightarrow> flight \<Rightarrow> flight" where
  "startAuto i s = (callCompact i s)\<lparr>flInFlight := Some (AutoOf i), flAutos := insert i (flAutos s)\<rparr>"

text \<open>\<open>compact\<close> after the await: it returns the promise in flight, or starts a run and stores it.\<close>

definition resumeCompact :: "nat \<Rightarrow> flight \<Rightarrow> flight" where
  "resumeCompact i s =
     (case flInFlight s of
        Some p \<Rightarrow> s\<lparr>flPhase := (flPhase s)(i := Joined p)\<rparr>
      | None \<Rightarrow> s\<lparr>flPhase := (flPhase s)(i := Running), flInFlight := Some (RunOf i)\<rparr>)"

definition finishRun :: "nat \<Rightarrow> flight \<Rightarrow> flight" where
  "finishRun i s = s\<lparr>flSettled := insert (RunOf i) (flSettled s),
     flInFlight := (if flInFlight s = Some (RunOf i) then None else flInFlight s)\<rparr>"

definition awaited :: "nat \<Rightarrow> flight \<Rightarrow> promise option" where
  "awaited i s = (case flPhase s i of Joined p \<Rightarrow> Some p | Running \<Rightarrow> Some (RunOf i) | _ \<Rightarrow> None)"

definition settleCall :: "nat \<Rightarrow> flight \<Rightarrow> flight" where
  "settleCall i s = s\<lparr>flSettled := insert (CallOf i) (flSettled s)\<rparr>"

definition settleAuto :: "nat \<Rightarrow> flight \<Rightarrow> flight" where
  "settleAuto i s = s\<lparr>flSettled := insert (AutoOf i) (flSettled s),
     flInFlight := (if flInFlight s = Some (AutoOf i) then None else flInFlight s)\<rparr>"

datatype flight_label = UserCalls nat | AutoStarts nat | Resumes nat | RunEnds nat | CallSettles nat | AutoSettles nat

inductive flight_step :: "flight \<Rightarrow> flight_label \<Rightarrow> flight \<Rightarrow> bool" where
  user: "flPhase s i = NotCalled \<Longrightarrow> flight_step s (UserCalls i) (callCompact i s)"
| auto: "flPhase s i = NotCalled \<Longrightarrow> flInFlight s = None \<Longrightarrow> flight_step s (AutoStarts i) (startAuto i s)"
| resume: "flPhase s i = AwaitingReady \<Longrightarrow> flight_step s (Resumes i) (resumeCompact i s)"
| run: "flPhase s i = Running \<Longrightarrow> RunOf i \<notin> flSettled s \<Longrightarrow> flight_step s (RunEnds i) (finishRun i s)"
| call: "awaited i s = Some p \<Longrightarrow> p \<in> flSettled s \<Longrightarrow> CallOf i \<notin> flSettled s \<Longrightarrow> flight_step s (CallSettles i) (settleCall i s)"
| done_auto: "i \<in> flAutos s \<Longrightarrow> CallOf i \<in> flSettled s \<Longrightarrow> AutoOf i \<notin> flSettled s \<Longrightarrow> flight_step s (AutoSettles i) (settleAuto i s)"

inductive_cases flight_stepE: "flight_step s l s'"

inductive flight_reach :: "(flight_label \<Rightarrow> bool) \<Rightarrow> flight \<Rightarrow> flight \<Rightarrow> bool" for allowed s where
  here: "flight_reach allowed s s"
| more: "flight_reach allowed s s1 \<Longrightarrow> flight_step s1 l s2 \<Longrightarrow> allowed l \<Longrightarrow> flight_reach allowed s s2"

lemmas flight_defs = callCompact_def startAuto_def resumeCompact_def finishRun_def settleCall_def settleAuto_def awaited_def

section \<open>User calls\<close>

definition userLabel :: "flight_label \<Rightarrow> bool" where
  "userLabel l = (case l of AutoStarts _ \<Rightarrow> False | AutoSettles _ \<Rightarrow> False | _ \<Rightarrow> True)"

lemma userLabel_simps [simp]:
  "userLabel (UserCalls i)" "userLabel (Resumes i)" "userLabel (RunEnds i)" "userLabel (CallSettles i)"
  "\<not> userLabel (AutoStarts i)" "\<not> userLabel (AutoSettles i)"
  by (simp_all add: userLabel_def)

definition unfinished :: "flight \<Rightarrow> nat \<Rightarrow> bool" where
  "unfinished s i \<longleftrightarrow> flPhase s i = Running \<and> RunOf i \<notin> flSettled s"

definition runPromise :: "flight \<Rightarrow> promise \<Rightarrow> bool" where
  "runPromise s p = (case p of RunOf j \<Rightarrow> flPhase s j = Running | _ \<Rightarrow> False)"

definition callInv :: "flight \<Rightarrow> nat \<Rightarrow> bool" where
  "callInv s i \<longleftrightarrow> (unfinished s i \<longleftrightarrow> flInFlight s = Some (RunOf i))
     \<and> (RunOf i \<in> flSettled s \<longrightarrow> flPhase s i = Running)
     \<and> (case flPhase s i of Joined p \<Rightarrow> runPromise s p | _ \<Rightarrow> True)"

definition userInv :: "flight \<Rightarrow> bool" where
  "userInv s \<longleftrightarrow> (\<forall>i. callInv s i) \<and> (case flInFlight s of Some p \<Rightarrow> runPromise s p | None \<Rightarrow> True)"

lemma userInvD: "userInv s \<Longrightarrow> callInv s i"
  by (simp add: userInv_def)

lemma userInv_flight: "userInv s \<Longrightarrow> flInFlight s = Some p \<Longrightarrow> runPromise s p"
  by (simp add: userInv_def)

text \<open>Phases only leave \<open>NotCalled\<close> and \<open>AwaitingReady\<close>, so a promise of a run stays one.\<close>

lemma runPromise_upd:
  "runPromise s p \<Longrightarrow> flPhase s i \<noteq> Running \<Longrightarrow> flPhase s' = (flPhase s)(i := c) \<Longrightarrow> runPromise s' p"
  "runPromise s p \<Longrightarrow> flPhase s' = flPhase s \<Longrightarrow> runPromise s' p"
  by (auto simp: runPromise_def split: promise.splits)

lemma call_keeps_userInv:
  assumes ph: "flPhase s i = NotCalled" and inv: "userInv s"
  shows "userInv (callCompact i s)"
proof -
  note keep = runPromise_upd(1) [of s _ i "callCompact i s" AwaitingReady]
  have "callInv (callCompact i s) k" for k
    using userInvD [OF inv, of k] userInvD [OF inv, of i] ph keep
    by (cases "flPhase s k"; cases "k = i") (simp_all add: callInv_def unfinished_def callCompact_def)
  with userInv_flight [OF inv] keep ph show ?thesis
    by (auto simp: userInv_def callCompact_def split: option.splits)
qed

lemma resume_keeps_userInv:
  assumes aw: "flPhase s i = AwaitingReady" and inv: "userInv s"
  shows "userInv (resumeCompact i s)"
proof (cases "flInFlight s")
  case None
  note keep = runPromise_upd(1) [of s _ i "resumeCompact i s" Running]
  have "callInv (resumeCompact i s) k" for k
    using userInvD [OF inv, of k] userInvD [OF inv, of i] aw None keep
    by (cases "flPhase s k"; cases "k = i") (simp_all add: callInv_def unfinished_def resumeCompact_def)
  with None show ?thesis by (simp add: userInv_def resumeCompact_def runPromise_def)
next
  case (Some p)
  note keep = runPromise_upd(1) [of s _ i "resumeCompact i s" "Joined p"]
  have p: "runPromise (resumeCompact i s) p"
    using userInv_flight [OF inv Some] keep aw Some by (simp add: resumeCompact_def)
  have "callInv (resumeCompact i s) k" for k
    using userInvD [OF inv, of k] userInvD [OF inv, of i] aw Some keep p
    by (cases "flPhase s k"; cases "k = i") (simp_all add: callInv_def unfinished_def resumeCompact_def)
  with Some p show ?thesis by (simp add: userInv_def resumeCompact_def)
qed

lemma run_keeps_userInv:
  assumes ph: "flPhase s i = Running" and inv: "userInv s"
  shows "userInv (finishRun i s)"
proof -
  note keep = runPromise_upd(2) [of s _ "finishRun i s"]
  have "callInv (finishRun i s) k" for k
    using userInvD [OF inv, of k] ph keep
    by (cases "flPhase s k"; cases "k = i") (auto simp: callInv_def unfinished_def finishRun_def)
  with userInv_flight [OF inv] keep show ?thesis
    by (auto simp: userInv_def finishRun_def split: option.splits)
qed

lemma settle_keeps_userInv:
  assumes inv: "userInv s"
  shows "userInv (settleCall i s)"
proof -
  note keep = runPromise_upd(2) [of s _ "settleCall i s"]
  have "callInv (settleCall i s) k" for k
    using userInvD [OF inv, of k] keep
    by (cases "flPhase s k") (auto simp: callInv_def unfinished_def settleCall_def)
  with userInv_flight [OF inv] keep show ?thesis
    by (auto simp: userInv_def settleCall_def split: option.splits)
qed

lemma userInv_step:
  assumes "flight_step s l s'" and "userLabel l" and "userInv s"
  shows "userInv s'"
  using assms(1)
proof cases
  case (user i)
  with assms(3) show ?thesis by (simp add: call_keeps_userInv)
next
  case (auto i)
  with assms(2) show ?thesis by simp
next
  case (resume i)
  with assms(3) show ?thesis by (simp add: resume_keeps_userInv)
next
  case (run i)
  with assms(3) show ?thesis by (simp add: run_keeps_userInv)
next
  case (call i p)
  with assms(3) show ?thesis by (simp add: settle_keeps_userInv)
next
  case (done_auto i)
  with assms(2) show ?thesis by simp
qed

lemma userInv_idle: "userInv idleFlight"
  by (simp add: userInv_def callInv_def unfinished_def idleFlight_def)

lemma userInv_reach: "flight_reach userLabel idleFlight s \<Longrightarrow> userInv s"
proof (induction rule: flight_reach.induct)
  case here
  show ?case by (rule userInv_idle)
next
  case (more s1 l s2)
  then show ?case by (blast intro: userInv_step)
qed

text \<open>Turns that need no further call: readiness arrives, a run ends, a promise settles.\<close>

definition progressLabel :: "flight_label \<Rightarrow> bool" where
  "progressLabel l = (case l of UserCalls _ \<Rightarrow> False | AutoStarts _ \<Rightarrow> False | _ \<Rightarrow> True)"

lemma progressLabel_simps [simp]:
  "progressLabel (Resumes i)" "progressLabel (RunEnds i)" "progressLabel (CallSettles i)" "progressLabel (AutoSettles i)"
  by (simp_all add: progressLabel_def)

lemma flight_reach_trans:
  "flight_reach ok s1 s2 \<Longrightarrow> flight_reach ok s s1 \<Longrightarrow> flight_reach ok s s2"
  by (induction rule: flight_reach.induct) (auto intro: flight_reach.more)

lemma flight_reach_one: "flight_step s l s' \<Longrightarrow> ok l \<Longrightarrow> flight_reach ok s s'"
  by (blast intro: flight_reach.intros)

lemma awaiting_run_settles:
  assumes aw: "awaited i s = Some (RunOf j)" and run: "flPhase s j = Running"
  shows "\<exists>s'. flight_reach progressLabel s s' \<and> CallOf i \<in> flSettled s'"
proof -
  define s1 where "s1 = (if RunOf j \<in> flSettled s then s else finishRun j s)"
  have r1: "flight_reach progressLabel s s1"
    using run by (auto simp: s1_def intro: flight_reach.here flight_reach_one flight_step.run)
  have a1: "awaited i s1 = Some (RunOf j)" and d1: "RunOf j \<in> flSettled s1"
    using aw by (simp_all add: s1_def finishRun_def awaited_def split: call_phase.splits)
  show ?thesis
  proof (cases "CallOf i \<in> flSettled s1")
    case True
    with r1 show ?thesis by blast
  next
    case False
    have "flight_step s1 (CallSettles i) (settleCall i s1)" using a1 d1 False by (rule flight_step.call)
    then have "flight_reach progressLabel s1 (settleCall i s1)" by (rule flight_reach_one) simp
    then have "flight_reach progressLabel s (settleCall i s1)" using r1 by (rule flight_reach_trans)
    then show ?thesis by (auto simp: settleCall_def)
  qed
qed

lemma joined_or_running_settles:
  assumes inv: "userInv s" and ph: "flPhase s i = Running \<or> (\<exists>p. flPhase s i = Joined p)"
  shows "\<exists>s'. flight_reach progressLabel s s' \<and> CallOf i \<in> flSettled s'"
proof -
  obtain j where "awaited i s = Some (RunOf j)" and "flPhase s j = Running"
    using userInvD [OF inv, of i] ph by (auto simp: callInv_def runPromise_def awaited_def split: promise.splits)
  then show ?thesis by (rule awaiting_run_settles)
qed

lemma called_settles:
  assumes inv: "userInv s" and ph: "flPhase s i \<noteq> NotCalled"
  shows "\<exists>s'. flight_reach progressLabel s s' \<and> CallOf i \<in> flSettled s'"
proof (cases "flPhase s i = AwaitingReady")
  case False
  then have "flPhase s i = Running \<or> (\<exists>p. flPhase s i = Joined p)" using ph by (cases "flPhase s i") auto
  with inv show ?thesis by (rule joined_or_running_settles)
next
  case True
  let ?s = "resumeCompact i s"
  have r: "flight_reach progressLabel s ?s"
    using flight_step.resume [OF True] by (rule flight_reach_one) simp
  have "flPhase ?s i = Running \<or> (\<exists>p. flPhase ?s i = Joined p)"
    by (simp add: resumeCompact_def split: option.splits)
  with resume_keeps_userInv [OF True inv] obtain s' where "flight_reach progressLabel ?s s'" "CallOf i \<in> flSettled s'"
    using joined_or_running_settles by blast
  with flight_reach_trans [OF _ r] show ?thesis by blast
qed

text \<open>C20: While only users call \<open>compact\<close> and no automatic compaction has started, calls share runs: in every
  interleaving of such calls at most one compaction runs, and every call that was made can be settled by letting the event
  loop go on, without any further call. With an automatic compaction this fails, as \<open>auto_compact_deadlocks\<close> shows.\<close>

theorem user_compacts_share_a_run:
  assumes "flight_reach userLabel idleFlight s"
  shows "(\<forall>i j. unfinished s i \<longrightarrow> unfinished s j \<longrightarrow> i = j)
    \<and> (\<forall>i. flPhase s i \<noteq> NotCalled \<longrightarrow> (\<exists>s'. flight_reach progressLabel s s' \<and> CallOf i \<in> flSettled s'))"
proof -
  have inv: "userInv s" using assms by (rule userInv_reach)
  have "i = j" if "unfinished s i" and "unfinished s j" for i j
    using that userInvD [OF inv, of i] userInvD [OF inv, of j] by (auto simp: callInv_def)
  with called_settles [OF inv] show ?thesis by blast
qed

definition twoCalls :: flight where
  "twoCalls = resumeCompact 1 (resumeCompact 0 (callCompact 1 (callCompact 0 idleFlight)))"

theorem user_compacts_share_a_run_witness:
  "flight_reach userLabel idleFlight twoCalls \<and> flPhase twoCalls 1 = Joined (RunOf 0)
   \<and> (\<exists>s'. flight_reach progressLabel twoCalls s' \<and> CallOf 1 \<in> flSettled s')"
proof -
  let ?a = "callCompact 0 idleFlight"
  let ?b = "callCompact 1 ?a"
  let ?c = "resumeCompact 0 ?b"
  have "flight_step idleFlight (UserCalls 0) ?a" "flight_step ?a (UserCalls 1) ?b"
    "flight_step ?b (Resumes 0) ?c" "flight_step ?c (Resumes 1) twoCalls"
    unfolding twoCalls_def by (rule flight_step.intros; simp add: idleFlight_def flight_defs)+
  then have r: "flight_reach userLabel idleFlight twoCalls"
    by (meson flight_reach.intros userLabel_simps)
  have p: "flPhase twoCalls 1 = Joined (RunOf 0)" by (simp add: twoCalls_def idleFlight_def flight_defs)
  from user_compacts_share_a_run [OF r] p have "\<exists>s'. flight_reach progressLabel twoCalls s' \<and> CallOf 1 \<in> flSettled s'"
    by auto
  with r p show ?thesis by blast
qed

section \<open>The automatic compaction\<close>

definition stuckOn :: "nat \<Rightarrow> flight \<Rightarrow> bool" where
  "stuckOn i s \<longleftrightarrow> flInFlight s = Some (AutoOf i)
     \<and> (flPhase s i = AwaitingReady \<or> flPhase s i = Joined (AutoOf i))
     \<and> AutoOf i \<notin> flSettled s \<and> CallOf i \<notin> flSettled s"

lemma stuckOn_step:
  assumes st: "flight_step s l s'" and stuck: "stuckOn i s"
  shows "stuckOn i s'"
  using st
proof cases
  case (user j)
  with stuck show ?thesis by (auto simp: stuckOn_def callCompact_def)
next
  case (auto j)
  with stuck show ?thesis by (simp add: stuckOn_def)
next
  case (resume j)
  with stuck show ?thesis by (auto simp: stuckOn_def resumeCompact_def)
next
  case (run j)
  with stuck show ?thesis by (auto simp: stuckOn_def finishRun_def)
next
  case (call j p)
  with stuck show ?thesis by (auto simp: stuckOn_def settleCall_def awaited_def)
next
  case (done_auto j)
  with stuck show ?thesis by (auto simp: stuckOn_def settleAuto_def)
qed

text \<open>Every call made from then on waits for the same promise.\<close>

definition hangsOn :: "nat \<Rightarrow> nat \<Rightarrow> flight \<Rightarrow> bool" where
  "hangsOn i k s \<longleftrightarrow> stuckOn i s \<and> flPhase s k \<in> {NotCalled, AwaitingReady, Joined (AutoOf i)} \<and> CallOf k \<notin> flSettled s"

lemma hangsOn_step:
  assumes st: "flight_step s l s'" and hang: "hangsOn i k s"
  shows "hangsOn i k s'"
proof -
  have "stuckOn i s'" using stuckOn_step [OF st] hang by (simp add: hangsOn_def)
  moreover from st have "flPhase s' k \<in> {NotCalled, AwaitingReady, Joined (AutoOf i)} \<and> CallOf k \<notin> flSettled s'"
  proof cases
    case (auto j)
    with hang show ?thesis by (simp add: hangsOn_def stuckOn_def)
  next
    case (call j p)
    with hang show ?thesis by (auto simp: hangsOn_def stuckOn_def settleCall_def awaited_def)
  qed (use hang in \<open>auto simp: hangsOn_def stuckOn_def callCompact_def resumeCompact_def finishRun_def settleAuto_def\<close>)
  ultimately show ?thesis by (simp add: hangsOn_def)
qed

lemma hangsOn_reach: "flight_reach ok s s' \<Longrightarrow> hangsOn i k s \<Longrightarrow> hangsOn i k s'"
  by (induction rule: flight_reach.induct) (auto intro: hangsOn_step)

text \<open>An automatic compaction waits for itself. From any state in which \<open>maybeAutoCompact\<close> passes its guards,
  whatever happens afterwards, neither its promise nor the inner call of \<open>compact\<close> settles, and no
  call of \<open>compact\<close> made later settles.\<close>

theorem auto_compact_deadlocks:
  assumes idle: "flInFlight s = None" and fresh: "flPhase s i = NotCalled"
    and new: "AutoOf i \<notin> flSettled s" "CallOf i \<notin> flSettled s"
    and reach: "flight_reach (\<lambda>_. True) (startAuto i s) s'"
  shows "AutoOf i \<notin> flSettled s' \<and> CallOf i \<notin> flSettled s'
    \<and> (flPhase s k = NotCalled \<and> CallOf k \<notin> flSettled s \<longrightarrow> CallOf k \<notin> flSettled s')"
proof -
  have start: "hangsOn i j (startAuto i s)" if "flPhase s j = NotCalled" "CallOf j \<notin> flSettled s" for j
    using that new fresh by (auto simp: hangsOn_def stuckOn_def startAuto_def callCompact_def)
  have "hangsOn i i s'" using start [OF fresh new(2)] reach by (blast intro: hangsOn_reach)
  moreover have "hangsOn i k s'" if "flPhase s k = NotCalled \<and> CallOf k \<notin> flSettled s"
    using start that reach by (blast intro: hangsOn_reach)
  ultimately show ?thesis by (auto simp: hangsOn_def stuckOn_def)
qed

theorem auto_compact_deadlocks_witness:
  "AutoOf 0 \<notin> flSettled (resumeCompact 1 (callCompact 1 (resumeCompact 0 (startAuto 0 idleFlight))))
   \<and> flPhase (resumeCompact 1 (callCompact 1 (resumeCompact 0 (startAuto 0 idleFlight)))) 1 = Joined (AutoOf 0)"
proof -
  let ?a = "startAuto 0 idleFlight"
  let ?b = "resumeCompact 0 ?a"
  let ?c = "callCompact 1 ?b"
  let ?d = "resumeCompact 1 ?c"
  have "flight_step ?a (Resumes 0) ?b" "flight_step ?b (UserCalls 1) ?c" "flight_step ?c (Resumes 1) ?d"
    by (rule flight_step.intros; simp add: idleFlight_def flight_defs)+
  then have r: "flight_reach (\<lambda>_. True) ?a ?d" by (blast intro: flight_reach.intros)
  have "AutoOf 0 \<notin> flSettled ?d"
    using auto_compact_deadlocks [OF _ _ _ _ r] by (simp add: idleFlight_def)
  then show ?thesis by (simp add: idleFlight_def flight_defs)
qed

end
