(* ===== verification/Mesh_Key.thy ===== *)
theory Mesh_Key
  imports Js_Prelude "HOL-Library.Word"
begin

text \<open>
  The portable forms of a mesh key (\<open>packages/core/src/crypto/encryption.ts\<close> and
  \<open>base64.ts\<close>): base58 for a key that is copied by hand, base64url for a share link. Bytes are
  \<open>8 word\<close>s; the \<open>BigInt\<close> of the conversion is a \<open>nat\<close>. A key that enters Web Crypto is
  represented by its raw bytes. The runtime's own base64 codec and the fallback over \<open>btoa\<close>
  and \<open>atob\<close> produce the same text; the model writes out that text.
\<close>

type_synonym bytes = "8 word list"

section \<open>Base58\<close>

definition BASE58_ALPHABET :: string where
  "BASE58_ALPHABET = ''123456789ABCDEFGHJKLMNPQRSTUVWXYZabcdefghijkmnopqrstuvwxyz''"

definition KEY_BYTES :: nat where
  "KEY_BYTES = 32"

definition bytesToNum :: "bytes \<Rightarrow> nat" where
  "bytesToNum bs = fold (\<lambda>b num. num * 256 + unat b) bs 0"

fun base58Digits :: "nat \<Rightarrow> string \<Rightarrow> string" where
  "base58Digits num result =
     (if num = 0 then result else base58Digits (num div 58) (BASE58_ALPHABET ! (num mod 58) # result))"

declare base58Digits.simps [simp del]

fun leadingOnes :: "bytes \<Rightarrow> string \<Rightarrow> string" where
  "leadingOnes [] result = result"
| "leadingOnes (b # bs) result = (if b = 0 then leadingOnes bs (CHR ''1'' # result) else result)"

definition base58Encode :: "bytes \<Rightarrow> string" where
  "base58Encode bs = leadingOnes bs (base58Digits (bytesToNum bs) [])"

text \<open>\<open>BASE58_ALPHABET.indexOf(char)\<close>, with \<open>None\<close> for \<open>-1\<close>.\<close>

fun positionIn :: "string \<Rightarrow> char \<Rightarrow> nat option" where
  "positionIn [] c = None"
| "positionIn (x # xs) c = (if x = c then Some 0 else map_option Suc (positionIn xs c))"

fun base58Value :: "string \<Rightarrow> nat \<Rightarrow> nat result" where
  "base58Value [] num = Inr num"
| "base58Value (c # cs) num =
     (case positionIn BASE58_ALPHABET c of
        None \<Rightarrow> Inl (Error (''Invalid base58 character: '' @ [c]))
      | Some idx \<Rightarrow> base58Value cs (num * 58 + idx))"

text \<open>The loop that fills the array from the last byte; it answers what is left of the number.\<close>

fun fixedBytes :: "nat \<Rightarrow> nat \<Rightarrow> bytes \<Rightarrow> nat \<times> bytes" where
  "fixedBytes 0 num bs = (num, bs)"
| "fixedBytes (Suc i) num bs = fixedBytes i (num div 256) (word_of_nat (num mod 256) # bs)"

definition base58Decode :: "string \<Rightarrow> bytes result" where
  "base58Decode str =
     bind_result (base58Value str 0) (\<lambda>num.
       case fixedBytes KEY_BYTES num [] of
         (rest, bs) \<Rightarrow> if rest > 0 then Inl (Error ''Invalid mesh key: decodes to more than 32 bytes'') else Inr bs)"

text \<open>\<open>String.prototype.trim\<close>: white space and line terminators of the first 256 code units.\<close>

definition isWhite :: "char \<Rightarrow> bool" where
  "isWhite c = (of_char c \<in> {9, 10, 11, 12, 13, 32, 160 :: nat})"

definition jsTrim :: "string \<Rightarrow> string" where
  "jsTrim s = rev (dropWhile isWhite (rev (dropWhile isWhite s)))"

definition passphraseToKey :: "string \<Rightarrow> bytes result" where
  "passphraseToKey passphrase =
     (let trimmed = jsTrim passphrase in
      if trimmed = '''' then Inl (Error ''Invalid mesh key: empty'')
      else
        bind_result (base58Decode trimmed) (\<lambda>raw.
          if base58Encode raw \<noteq> trimmed
          then Inl (Error ''Invalid mesh key: expected the canonical base58 encoding of 32 bytes'')
          else Inr raw))"

definition keyToPassphrase :: "bytes \<Rightarrow> string" where
  "keyToPassphrase raw = base58Encode raw"

text \<open>A fresh key and its portable form, from the random bytes.\<close>

definition generateMeshKeyMaterial :: "bytes \<Rightarrow> bytes \<times> string" where
  "generateMeshKeyMaterial raw = (raw, base58Encode raw)"

section \<open>The base58 round trip\<close>

lemma alphabet_length [simp]: "length BASE58_ALPHABET = 58"
  by (simp add: BASE58_ALPHABET_def)

lemma alphabet_distinct: "distinct BASE58_ALPHABET"
  by code_simp

lemma positionIn_nth: "distinct xs \<Longrightarrow> i < length xs \<Longrightarrow> positionIn xs (xs ! i) = Some i"
  by (induction xs arbitrary: i) (auto simp: nth_Cons split: nat.splits)

lemma positionIn_Some: "positionIn xs c = Some i \<Longrightarrow> i < length xs \<and> xs ! i = c"
  by (induction xs arbitrary: i) (auto split: if_splits)

lemma alphabet_position [simp]: "d < 58 \<Longrightarrow> positionIn BASE58_ALPHABET (BASE58_ALPHABET ! d) = Some d"
  using positionIn_nth [OF alphabet_distinct] by simp

lemma alphabet_one [simp]: "positionIn BASE58_ALPHABET (CHR ''1'') = Some 0"
  by (simp add: BASE58_ALPHABET_def)

lemma base58Digits_append: "base58Digits n acc = base58Digits n [] @ acc"
proof (induction n arbitrary: acc rule: less_induct)
  case (less n)
  show ?case
  proof (cases "n = 0")
    case True
    then show ?thesis by (simp add: base58Digits.simps)
  next
    case False
    then have lt: "n div 58 < n" by simp
    let ?d = "BASE58_ALPHABET ! (n mod 58)"
    have step: "base58Digits n s = base58Digits (n div 58) (?d # s)" for s
      using False by (subst base58Digits.simps) simp
    show ?thesis by (simp add: step less [OF lt, of "?d # acc"] less [OF lt, of "[?d]"])
  qed
qed

lemma base58Digits_snoc:
  "n \<noteq> 0 \<Longrightarrow> base58Digits n [] = base58Digits (n div 58) [] @ [BASE58_ALPHABET ! (n mod 58)]"
  by (subst base58Digits.simps) (simp add: base58Digits_append [of "n div 58" "[BASE58_ALPHABET ! (n mod 58)]"])

lemma base58Value_append:
  "base58Value (xs @ ys) n = bind_result (base58Value xs n) (base58Value ys)"
  by (induction xs arbitrary: n) (simp_all split: option.split)

lemma base58Value_digits: "base58Value (base58Digits n []) 0 = Inr n"
proof (induction n rule: less_induct)
  case (less n)
  show ?case
  proof (cases "n = 0")
    case True
    then show ?thesis by (simp add: base58Digits.simps)
  next
    case False
    note base58Digits_snoc [OF False]
    moreover have "base58Value (base58Digits (n div 58) []) 0 = Inr (n div 58)"
      using False by (intro less) simp
    moreover have "n div 58 * 58 + n mod 58 = n" by simp
    ultimately show ?thesis by (simp add: base58Value_append)
  qed
qed

lemma leadingOnes_eq: "leadingOnes bs s = replicate (length (takeWhile (\<lambda>b. b = 0) bs)) (CHR ''1'') @ s"
  by (induction bs arbitrary: s) (auto simp: replicate_app_Cons_same)

lemma base58Value_ones: "base58Value (replicate k (CHR ''1'') @ s) 0 = base58Value s 0"
  by (induction k) simp_all

lemma base58Value_encode: "base58Value (base58Encode bs) 0 = Inr (bytesToNum bs)"
  by (simp add: base58Encode_def leadingOnes_eq base58Value_ones base58Value_digits)

text \<open>The number of a byte string and its bytes.\<close>

lemma bytesToNum_snoc [simp]: "bytesToNum (bs @ [b]) = bytesToNum bs * 256 + unat b"
  by (simp add: bytesToNum_def)

lemma bytesToNum_Nil [simp]: "bytesToNum [] = 0"
  by (simp add: bytesToNum_def)

lemma fixedBytes_bytesToNum: "fixedBytes (length bs) (bytesToNum bs) acc = (0, bs @ acc)"
proof (induction bs arbitrary: acc rule: rev_induct)
  case Nil
  show ?case by simp
next
  case (snoc b bs)
  have b: "unat b < 256" using unsigned_less [of b, where 'a = nat] by simp
  have "(bytesToNum bs * 256 + unat b) div 256 = bytesToNum bs" using b by simp
  moreover have "(bytesToNum bs * 256 + unat b) mod 256 = unat b" using b by simp
  ultimately show ?case by (simp add: snoc)
qed

lemma base58Decode_encode: "length bs = KEY_BYTES \<Longrightarrow> base58Decode (base58Encode bs) = Inr bs"
  using fixedBytes_bytesToNum [of bs "[]"] by (simp add: base58Decode_def base58Value_encode)

lemma length_fixedBytes: "length (snd (fixedBytes k n bs)) = k + length bs"
  by (induction k arbitrary: n bs) simp_all

lemma base58Decode_length: "base58Decode s = Inr bs \<Longrightarrow> length bs = KEY_BYTES"
proof -
  assume "base58Decode s = Inr bs"
  then obtain n where "fixedBytes KEY_BYTES n [] = (0, bs)"
    by (cases "fixedBytes KEY_BYTES (projr (base58Value s 0)) []")
      (auto simp: base58Decode_def bind_result_Inr_iff split: if_splits)
  with length_fixedBytes [of KEY_BYTES n "[]"] show ?thesis by simp
qed

text \<open>An encoded key holds nothing that trimming would remove, and is not empty.\<close>

lemma alphabet_no_white: "c \<in> set BASE58_ALPHABET \<Longrightarrow> \<not> isWhite c"
proof -
  have "list_all (\<lambda>c. \<not> isWhite c) BASE58_ALPHABET" by code_simp
  then show "c \<in> set BASE58_ALPHABET \<Longrightarrow> \<not> isWhite c" by (simp add: list_all_iff)
qed

lemma set_base58Digits: "set (base58Digits n []) \<subseteq> set BASE58_ALPHABET"
proof (induction n rule: less_induct)
  case (less n)
  show ?case
  proof (cases "n = 0")
    case True
    then show ?thesis by (simp add: base58Digits.simps)
  next
    case False
    note base58Digits_snoc [OF False]
    moreover have "set (base58Digits (n div 58) []) \<subseteq> set BASE58_ALPHABET" using False by (intro less) simp
    ultimately show ?thesis by simp
  qed
qed

lemma set_base58Encode: "set (base58Encode bs) \<subseteq> set BASE58_ALPHABET"
proof -
  have "CHR ''1'' \<in> set BASE58_ALPHABET" by (simp add: BASE58_ALPHABET_def)
  then show ?thesis using set_base58Digits by (auto simp: base58Encode_def leadingOnes_eq)
qed

lemma jsTrim_id: "(\<And>c. c \<in> set s \<Longrightarrow> \<not> isWhite c) \<Longrightarrow> jsTrim s = s"
proof -
  assume no: "\<And>c. c \<in> set s \<Longrightarrow> \<not> isWhite c"
  have "dropWhile isWhite xs = xs" if "set xs \<subseteq> set s" for xs
    using that no by (cases xs) auto
  then show ?thesis by (simp add: jsTrim_def)
qed

lemma jsTrim_encode [simp]: "jsTrim (base58Encode bs) = base58Encode bs"
  using set_base58Encode alphabet_no_white by (intro jsTrim_id) blast

lemma base58Encode_nonempty: "bs \<noteq> [] \<Longrightarrow> base58Encode bs \<noteq> []"
proof
  assume bs: "bs \<noteq> []" and e: "base58Encode bs = []"
  then have z: "takeWhile (\<lambda>b. b = 0) bs = []" and d: "base58Digits (bytesToNum bs) [] = []"
    by (auto simp: base58Encode_def leadingOnes_eq)
  from d have "bytesToNum bs = 0" using base58Value_digits [of "bytesToNum bs"] by simp
  moreover have "base58Value (base58Encode bs) 0 = Inr (bytesToNum bs)" by (rule base58Value_encode)
  moreover have "fixedBytes (length bs) 0 [] = (0, bs)" using fixedBytes_bytesToNum [of bs "[]"] calculation by simp
  moreover have "fixedBytes k 0 acc = (0, replicate k 0 @ acc)" for k acc
    by (induction k arbitrary: acc) (simp_all add: replicate_app_Cons_same)
  ultimately have "bs = replicate (length bs) 0" by simp
  then have "hd bs = 0" using bs by (metis hd_replicate length_0_conv)
  with z bs show False by (cases bs) auto
qed

text \<open>C23: The portable form of a mesh key is canonical. A key that is exported and entered again, with white space
  around it, is the same key; and a text that is accepted as a key is, apart from surrounding white space, the export
  of that key, which has 32 bytes. So two texts that are accepted name the same key only if they are the same text.\<close>

theorem mesh_key_canonical:
  "passphraseToKey s = Inr raw \<longleftrightarrow> length raw = KEY_BYTES \<and> jsTrim s = keyToPassphrase raw"
proof
  assume "length raw = KEY_BYTES \<and> jsTrim s = keyToPassphrase raw"
  then have len: "length raw = KEY_BYTES" and s: "jsTrim s = keyToPassphrase raw" by auto
  then have "raw \<noteq> []" by (auto simp: KEY_BYTES_def)
  with len s show "passphraseToKey s = Inr raw"
    by (simp add: passphraseToKey_def keyToPassphrase_def base58Decode_encode base58Encode_nonempty)
next
  assume "passphraseToKey s = Inr raw"
  then have "base58Decode (jsTrim s) = Inr raw" "base58Encode raw = jsTrim s"
    by (auto simp: passphraseToKey_def Let_def bind_result_Inr_iff split: if_splits)
  then show "length raw = KEY_BYTES \<and> jsTrim s = keyToPassphrase raw"
    by (simp add: base58Decode_length keyToPassphrase_def)
qed

section \<open>Base64\<close>

definition BASE64_ALPHABET :: string where
  "BASE64_ALPHABET = ''ABCDEFGHIJKLMNOPQRSTUVWXYZabcdefghijklmnopqrstuvwxyz0123456789+/''"

text \<open>Three bytes are four digits of six bits; a shorter last group has two or three.\<close>

fun sextets :: "bytes \<Rightarrow> nat list" where
  "sextets [] = []"
| "sextets [a] = [unat a div 4, unat a mod 4 * 16]"
| "sextets [a, b] = [unat a div 4, unat a mod 4 * 16 + unat b div 16, unat b mod 16 * 4]"
| "sextets (a # b # c # bs) =
     [unat a div 4, unat a mod 4 * 16 + unat b div 16, unat b mod 16 * 4 + unat c div 64, unat c mod 64] @ sextets bs"

fun fromSextets :: "nat list \<Rightarrow> bytes" where
  "fromSextets (p # q # r # s # ds) =
     [word_of_nat (p * 4 + q div 16), word_of_nat (q mod 16 * 16 + r div 4), word_of_nat (r mod 4 * 64 + s)] @ fromSextets ds"
| "fromSextets [p, q, r] = [word_of_nat (p * 4 + q div 16), word_of_nat (q mod 16 * 16 + r div 4)]"
| "fromSextets [p, q] = [word_of_nat (p * 4 + q div 16)]"
| "fromSextets _ = []"

definition padding :: "nat \<Rightarrow> string" where
  "padding n = replicate ((4 - n mod 4) mod 4) (CHR ''='')"

text \<open>\<open>btoa\<close> of the bytes.\<close>

definition bytesToBase64 :: "bytes \<Rightarrow> string" where
  "bytesToBase64 bs = map (\<lambda>d. BASE64_ALPHABET ! d) (sextets bs) @ padding (length (sextets bs))"

text \<open>\<open>atob\<close>: white space is dropped, at most two pad signs end a full group, a single digit cannot be left.\<close>

definition dropPadding :: "string \<Rightarrow> string" where
  "dropPadding s =
     (if length s mod 4 \<noteq> 0 then s
      else if endsWith s ''=='' then take (length s - 2) s
      else if endsWith s ''='' then take (length s - 1) s else s)"

fun digitsOf :: "string \<Rightarrow> nat list option" where
  "digitsOf [] = Some []"
| "digitsOf (c # cs) =
     (case positionIn BASE64_ALPHABET c of None \<Rightarrow> None | Some d \<Rightarrow> map_option (\<lambda>ds. d # ds) (digitsOf cs))"

definition base64ToBytes :: "string \<Rightarrow> bytes result" where
  "base64ToBytes s =
     (let t = dropPadding (filter (\<lambda>c. of_char c \<notin> {9, 10, 12, 13, 32 :: nat}) s) in
      if length t mod 4 = 1 then Inl (Error ''InvalidCharacterError'')
      else (case digitsOf t of None \<Rightarrow> Inl (Error ''InvalidCharacterError'') | Some ds \<Rightarrow> Inr (fromSextets ds)))"

definition toUrlChar :: "char \<Rightarrow> char" where
  "toUrlChar c = (if c = CHR ''+'' then CHR ''-'' else if c = CHR ''/'' then CHR ''_'' else c)"

definition fromUrlChar :: "char \<Rightarrow> char" where
  "fromUrlChar c = (if c = CHR ''-'' then CHR ''+'' else if c = CHR ''_'' then CHR ''/'' else c)"

definition bytesToBase64Url :: "bytes \<Rightarrow> string" where
  "bytesToBase64Url bs = rev (dropWhile (\<lambda>c. c = CHR ''='') (rev (map toUrlChar (bytesToBase64 bs))))"

definition base64UrlToBytes :: "string \<Rightarrow> bytes result" where
  "base64UrlToBytes s = (let standard = map fromUrlChar s in base64ToBytes (standard @ padding (length standard)))"

section \<open>Share links\<close>

definition isUrlKeyChar :: "char \<Rightarrow> bool" where
  "isUrlKeyChar c = (c \<in> set ''ABCDEFGHIJKLMNOPQRSTUVWXYZabcdefghijklmnopqrstuvwxyz0123456789_-'')"

definition keyToShareUrl :: "bytes \<Rightarrow> string \<Rightarrow> string" where
  "keyToShareUrl raw baseUrl = baseUrl @ ''#key='' @ bytesToBase64Url raw"

text \<open>The leftmost match of \<open>key=([A-Za-z0-9_-]+)\<close>.\<close>

fun matchKey :: "string \<Rightarrow> string option" where
  "matchKey [] = None"
| "matchKey (c # cs) =
     (if startsWith (c # cs) ''key='' \<and> takeWhile isUrlKeyChar (drop 4 (c # cs)) \<noteq> []
      then Some (takeWhile isUrlKeyChar (drop 4 (c # cs))) else matchKey cs)"

definition keyFromFragment :: "string \<Rightarrow> bytes option result" where
  "keyFromFragment hash =
     (case matchKey hash of None \<Rightarrow> Inr None | Some key \<Rightarrow> bind_result (base64UrlToBytes key) (\<lambda>raw. Inr (Some raw)))"

lemma base64_length [simp]: "length BASE64_ALPHABET = 64"
  by (simp add: BASE64_ALPHABET_def)

lemma base64_distinct: "distinct BASE64_ALPHABET"
  by code_simp

lemma base64_position [simp]: "d < 64 \<Longrightarrow> positionIn BASE64_ALPHABET (BASE64_ALPHABET ! d) = Some d"
  using positionIn_nth [OF base64_distinct] by simp

lemma unat_byte: "unat (b :: 8 word) < 256"
  using unsigned_less [of b, where 'a = nat] by simp

lemma word_nat_cancel: "word_of_nat (unat (b :: 8 word)) = b"
  by simp

lemma sextets_range: "d \<in> set (sextets bs) \<Longrightarrow> d < 64"
proof (induction bs rule: sextets.induct)
  case (2 a)
  then show ?case using unat_byte [of a] by auto
next
  case (3 a b)
  then show ?case using unat_byte [of a] unat_byte [of b] by auto
next
  case (4 a b c bs)
  then show ?case using unat_byte [of a] unat_byte [of b] unat_byte [of c] by auto
qed simp

lemma sextet_join1:
  assumes "y < 16"
  shows "word_of_nat (unat a div 4 * 4 + (unat a mod 4 * 16 + y) div 16) = (a :: 8 word)"
proof -
  have "unat a div 4 * 4 + (unat a mod 4 * 16 + y) div 16 = unat a" using assms by simp
  then show ?thesis by (simp only: word_nat_cancel)
qed

lemma sextet_join2:
  assumes "z < 4"
  shows "word_of_nat ((x * 16 + unat b div 16) mod 16 * 16 + (unat b mod 16 * 4 + z) div 4) = (b :: 8 word)"
proof -
  have "unat b div 16 < 16" using unat_byte [of b] by simp
  then have "(x * 16 + unat b div 16) mod 16 * 16 + (unat b mod 16 * 4 + z) div 4 = unat b" using assms by simp
  then show ?thesis by (simp only: word_nat_cancel)
qed

lemma sextet_join3: "word_of_nat ((w * 4 + unat c div 64) mod 4 * 64 + unat c mod 64) = (c :: 8 word)"
proof -
  have "unat c div 64 < 4" using unat_byte [of c] by simp
  then have "(w * 4 + unat c div 64) mod 4 * 64 + unat c mod 64 = unat c" by simp
  then show ?thesis by (simp only: word_nat_cancel)
qed

lemma fromSextets_sextets: "fromSextets (sextets bs) = bs"
proof (induction bs rule: sextets.induct)
  case (2 a)
  show ?case using sextet_join1 [of 0 a] by simp
next
  case (3 a b)
  have "unat b div 16 < 16" using unat_byte [of b] by simp
  then show ?case using sextet_join1 [of "unat b div 16" a] sextet_join2 [of 0 "unat a mod 4" b] by simp
next
  case (4 a b c bs)
  have "unat b div 16 < 16" "unat c div 64 < 4" using unat_byte [of b] unat_byte [of c] by simp_all
  then show ?case
    using sextet_join1 [of "unat b div 16" a] sextet_join2 [of "unat c div 64" "unat a mod 4" b]
      sextet_join3 [of "unat b mod 16" c] 4
    by simp
qed simp

lemma sextets_length: "length (sextets bs) mod 4 \<noteq> 1"
  by (induction bs rule: sextets.induct) auto

lemma base64_no_special:
  "c \<in> set BASE64_ALPHABET \<Longrightarrow> c \<noteq> CHR ''='' \<and> of_char c \<notin> {9, 10, 12, 13, 32 :: nat}
     \<and> fromUrlChar (toUrlChar c) = c \<and> isUrlKeyChar (toUrlChar c) \<and> toUrlChar c \<noteq> CHR ''=''"
proof -
  have "list_all (\<lambda>c. c \<noteq> CHR ''='' \<and> of_char c \<notin> {9, 10, 12, 13, 32 :: nat}
     \<and> fromUrlChar (toUrlChar c) = c \<and> isUrlKeyChar (toUrlChar c) \<and> toUrlChar c \<noteq> CHR ''='') BASE64_ALPHABET"
    by code_simp
  then show "c \<in> set BASE64_ALPHABET \<Longrightarrow> c \<noteq> CHR ''='' \<and> of_char c \<notin> {9, 10, 12, 13, 32 :: nat}
     \<and> fromUrlChar (toUrlChar c) = c \<and> isUrlKeyChar (toUrlChar c) \<and> toUrlChar c \<noteq> CHR ''=''"
    by (simp add: list_all_iff)
qed

definition plain64 :: "bytes \<Rightarrow> string" where
  "plain64 bs = map (\<lambda>d. BASE64_ALPHABET ! d) (sextets bs)"

lemma plain64_alphabet: "set (plain64 bs) \<subseteq> set BASE64_ALPHABET"
  using sextets_range by (auto simp: plain64_def)

lemma digitsOf_alphabet: "(\<And>d. d \<in> set ds \<Longrightarrow> d < 64) \<Longrightarrow> digitsOf (map (\<lambda>d. BASE64_ALPHABET ! d) ds) = Some ds"
  by (induction ds) simp_all

lemma digitsOf_plain64: "digitsOf (plain64 bs) = Some (sextets bs)"
  using sextets_range unfolding plain64_def by (intro digitsOf_alphabet) blast

lemma endsWith_free: "c \<notin> set s \<Longrightarrow> c \<in> set p \<Longrightarrow> \<not> endsWith s p"
  unfolding endsWith_def by (metis in_set_dropD)

lemma dropPadding_plain:
  assumes s: "CHR ''='' \<notin> set s" and len: "length s mod 4 \<noteq> 1"
  shows "dropPadding (s @ padding (length s)) = s"
proof -
  have free: "\<not> endsWith s p" if "CHR ''='' \<in> set p" for p using s that by (rule endsWith_free)
  define m where "m = length s mod 4"
  have "m < 4" "m \<noteq> 1" using len by (simp_all add: m_def)
  then have "m = 0 \<or> m = 2 \<or> m = 3" by (auto simp: less_Suc_eq numeral_eq_Suc)
  then consider (zero) "length s mod 4 = 0" | (two) "length s mod 4 = 2" | (three) "length s mod 4 = 3"
    unfolding m_def by (elim disjE)
  then show ?thesis
  proof cases
    case zero
    then show ?thesis using free by (simp add: dropPadding_def padding_def)
  next
    case two
    have "replicate 2 (CHR ''='') = ''==''" by (simp add: numeral_2_eq_2)
    with two have "padding (length s) = ''==''" by (simp add: padding_def)
    moreover have "(length s + 2) mod 4 = 0" using two by presburger
    ultimately show ?thesis by (simp add: dropPadding_def endsWith_def)
  next
    case three
    then have p: "padding (length s) = ''=''" by (simp add: padding_def)
    have l: "(length s + 1) mod 4 = 0" using three by presburger
    have "\<not> endsWith (s @ ''='') ''==''"
    proof
      assume e: "endsWith (s @ ''='') ''==''"
      have "s \<noteq> []" using three by auto
      then have "drop (length s - 1) s @ ''='' = ''==''" using e by (simp add: endsWith_def)
      then have "CHR ''='' \<in> set (drop (length s - 1) s)" by (cases "drop (length s - 1) s") auto
      with s show False by (meson in_set_dropD)
    qed
    then show ?thesis using l p by (auto simp: dropPadding_def endsWith_def)
  qed
qed

lemma base64_decodes: "base64ToBytes (plain64 bs @ padding (length (sextets bs))) = Inr bs"
proof -
  let ?s = "plain64 bs"
  have sub: "set ?s \<subseteq> set BASE64_ALPHABET" by (rule plain64_alphabet)
  have keep: "filter (\<lambda>c. of_char c \<notin> {9, 10, 12, 13, 32 :: nat}) (?s @ padding n) = ?s @ padding n" for n
    using sub base64_no_special by (auto simp: padding_def intro!: filter_True)
  have len: "length ?s = length (sextets bs)" by (simp add: plain64_def)
  have "CHR ''='' \<notin> set ?s" using sub base64_no_special by blast
  then have "dropPadding (?s @ padding (length (sextets bs))) = ?s"
    using dropPadding_plain [of ?s] sextets_length [of bs] len by simp
  then show ?thesis
    using sextets_length [of bs] len
    by (simp only: base64ToBytes_def keep Let_def digitsOf_plain64 option.case fromSextets_sextets if_False)
qed

lemma bytesToBase64_plain: "bytesToBase64 bs = plain64 bs @ padding (length (sextets bs))"
  by (simp add: bytesToBase64_def plain64_def)

lemma bytesToBase64Url_plain: "bytesToBase64Url bs = map toUrlChar (plain64 bs)"
proof -
  have eq: "toUrlChar (CHR ''='') = CHR ''=''" by (simp add: toUrlChar_def)
  have pad: "dropWhile (\<lambda>c. c = CHR ''='') (rev (map toUrlChar (padding n)) @ xs) = dropWhile (\<lambda>c. c = CHR ''='') xs" for n xs
    by (rule dropWhile_append2) (auto simp: padding_def eq)
  have "c \<noteq> CHR ''=''" if "c \<in> set (rev (map toUrlChar (plain64 bs)))" for c
    using that plain64_alphabet [of bs] base64_no_special by auto
  then have "dropWhile (\<lambda>c. c = CHR ''='') (rev (map toUrlChar (plain64 bs))) = rev (map toUrlChar (plain64 bs))"
    by (simp add: dropWhile_eq_self_iff del: set_rev)
  then show ?thesis unfolding bytesToBase64Url_def bytesToBase64_plain map_append rev_append pad by simp
qed

lemma base64Url_roundtrip: "base64UrlToBytes (bytesToBase64Url bs) = Inr bs"
proof -
  have "map fromUrlChar (map toUrlChar (plain64 bs)) = plain64 bs"
    unfolding map_map using plain64_alphabet [of bs] base64_no_special by (intro map_idI) (auto simp: comp_def)
  moreover have "length (plain64 bs) = length (sextets bs)" by (simp add: plain64_def)
  ultimately show ?thesis
    unfolding base64UrlToBytes_def bytesToBase64Url_plain Let_def using base64_decodes by simp
qed

lemma bytesToBase64Url_chars: "takeWhile isUrlKeyChar (bytesToBase64Url bs) = bytesToBase64Url bs"
  using plain64_alphabet [of bs] base64_no_special unfolding bytesToBase64Url_plain
  by (intro takeWhile_eq_all_conv [THEN iffD2]) auto

lemma bytesToBase64Url_nonempty: "bs \<noteq> [] \<Longrightarrow> bytesToBase64Url bs \<noteq> []"
  by (cases bs rule: sextets.cases) (auto simp: bytesToBase64Url_plain plain64_def)

text \<open>A share link gives the key back: the key read from the fragment of the link is the key it was made from, whatever
  the base address is.\<close>

theorem share_link_roundtrip:
  assumes "raw \<noteq> []" and "CHR ''#'' \<notin> set baseUrl"
  shows "keyFromFragment (dropWhile (\<lambda>c. c \<noteq> CHR ''#'') (keyToShareUrl raw baseUrl)) = Inr (Some raw)"
proof -
  have "dropWhile (\<lambda>c. c \<noteq> CHR ''#'') (keyToShareUrl raw baseUrl) = ''#key='' @ bytesToBase64Url raw"
    unfolding keyToShareUrl_def using assms(2) by (subst dropWhile_append2) auto
  moreover have "matchKey (''#key='' @ bytesToBase64Url raw) = Some (bytesToBase64Url raw)"
    using bytesToBase64Url_nonempty [OF assms(1)] by (simp add: startsWith_def startsAt_def bytesToBase64Url_chars)
  ultimately show ?thesis by (simp add: keyFromFragment_def base64Url_roundtrip)
qed

theorem share_link_roundtrip_witness:
  "keyFromFragment (dropWhile (\<lambda>c. c \<noteq> CHR ''#'') (keyToShareUrl [251, 255, 190, 7] ''https://a.app/join'')) = Inr (Some [251, 255, 190, 7])
   \<and> keyToShareUrl [251, 255, 190, 7] ''https://a.app/join'' = ''https://a.app/join#key=-_--Bw''"
proof -
  have "keyToShareUrl [251, 255, 190, 7] ''https://a.app/join'' = ''https://a.app/join#key=-_--Bw''" by code_simp
  moreover have "keyFromFragment (dropWhile (\<lambda>c. c \<noteq> CHR ''#'') (keyToShareUrl [251, 255, 190, 7] ''https://a.app/join'')) = Inr (Some [251, 255, 190, 7])"
    by (rule share_link_roundtrip) simp_all
  ultimately show ?thesis by simp
qed

end
