(* ===== verification/Key_Source.thy ===== *)
theory Key_Source
  imports Mesh_Key
begin

text \<open>
  Where an engine gets its mesh key from (\<open>packages/core/src/crypto/key-source.ts\<close>). A credential
  store belongs to the application: it is the record \<open>credential_store\<close> of its methods over a
  state \<open>'c\<close>; what \<open>storage/credential-store.ts\<close> promises of it is the locale \<open>keeps_credentials\<close> of
  \<open>Identity_Safety\<close>. \<open>readCredentialState\<close> reads a store without ever taking
  a failure for absence; the two classes of key sources are built on it. The state of a key source is
  its cached portable key and the state of its store. A derived key that sets its own status keeps it.
\<close>

record stored_credentials =
  skPortableKey :: string
  skDeviceId :: string
  skMeshId :: "string option"

record load_result =
  lrStatus :: string
  lrCredentials :: "stored_credentials option"

record 'c credential_store =
  cstSave :: "stored_credentials \<Rightarrow> 'c \<Rightarrow> 'c \<times> unit result"
  cstLoad :: "'c \<Rightarrow> stored_credentials option result"
  cstClear :: "'c \<Rightarrow> 'c \<times> unit result"
  cstLoadState :: "('c \<Rightarrow> load_result result) option"

definition CREDENTIAL_STATUSES :: "string list" where
  "CREDENTIAL_STATUSES = [''present'', ''absent'', ''unavailable'', ''unreadable'']"

definition usable :: "stored_credentials option \<Rightarrow> bool" where
  "usable c = (case c of None \<Rightarrow> False | Some sk \<Rightarrow> skPortableKey sk \<noteq> '''')"

text \<open>The answer is the credentials (status \<open>present\<close>) or \<open>None\<close> (status \<open>absent\<close>).\<close>

definition readCredentialState ::
  "'c credential_store option \<Rightarrow> string option \<Rightarrow> 'c \<Rightarrow> stored_credentials option result"
where
  "readCredentialState store dbName c =
     (case store of
        None \<Rightarrow> Inr None
      | Some st \<Rightarrow>
          (case cstLoadState st of
             None \<Rightarrow> bind_result (cstLoad st c) (\<lambda>credentials. Inr (if usable credentials then credentials else None))
           | Some richLoad \<Rightarrow>
               (case richLoad c of
                  Inl cause \<Rightarrow> Inl (MeshCredentialAccessError Unavailable dbName)
                | Inr res \<Rightarrow>
                    if lrStatus res \<notin> set CREDENTIAL_STATUSES then Inl (MeshCredentialAccessError Unreadable dbName)
                    else if lrStatus res = ''unavailable'' then Inl (MeshCredentialAccessError Unavailable dbName)
                    else if lrStatus res = ''unreadable'' then Inl (MeshCredentialAccessError Unreadable dbName)
                    else if lrStatus res = ''present'' \<and> \<not> usable (lrCredentials res)
                    then Inl (MeshCredentialAccessError Unreadable dbName)
                    else Inr (if lrStatus res = ''present'' then lrCredentials res else None))))"

section \<open>Key sources\<close>

record key_context =
  kcDbName :: string
  kcRemotePath :: "string option"
  kcMeshId :: "string option"
  kcDeviceId :: string

record key_material =
  kmEncrypted :: bool
  kmKey :: "bytes option"
  kmPortableKey :: "string option"
  kmCredentialStatus :: "string option"

record 'k key_source =
  ksCredentialPersistence :: string
  ksLoad :: "key_context \<Rightarrow> 'k \<Rightarrow> 'k \<times> key_material result"
  ksPersist :: "key_context \<Rightarrow> stored_credentials \<Rightarrow> 'k \<Rightarrow> 'k \<times> unit result"
  ksClear :: "'k \<Rightarrow> 'k \<times> unit result"
  ksLoadPersisted :: "('k \<Rightarrow> stored_credentials option result) option"

record 'c source_state =
  srPortableKey :: "string option"
  srStore :: 'c

definition cachedKey :: "'c source_state \<Rightarrow> string option" where
  "cachedKey s = (case srPortableKey s of None \<Rightarrow> None | Some k \<Rightarrow> if k = '''' then None else Some k)"

definition persistenceOf :: "'c credential_store option \<Rightarrow> string" where
  "persistenceOf store = (case store of None \<Rightarrow> ''none'' | Some _ \<Rightarrow> ''durable'')"

definition sourceLoadPersisted :: "'c credential_store option \<Rightarrow> 'c source_state \<Rightarrow> stored_credentials option result" where
  "sourceLoadPersisted store s = readCredentialState store None (srStore s)"

definition sourcePersist ::
  "'c credential_store option \<Rightarrow> key_context \<Rightarrow> stored_credentials \<Rightarrow> 'c source_state \<Rightarrow> 'c source_state \<times> unit result"
where
  "sourcePersist store ctx creds s =
     (let s1 = s\<lparr>srPortableKey := Some (skPortableKey creds)\<rparr> in
      case store of
        None \<Rightarrow> (s1, Inr ())
      | Some st \<Rightarrow> (case cstSave st creds (srStore s1) of (c1, res) \<Rightarrow> (s1\<lparr>srStore := c1\<rparr>, res)))"

definition sourceClear :: "'c credential_store option \<Rightarrow> 'c source_state \<Rightarrow> 'c source_state \<times> unit result" where
  "sourceClear store s =
     (let s1 = s\<lparr>srPortableKey := None\<rparr> in
      case store of
        None \<Rightarrow> (s1, Inr ())
      | Some st \<Rightarrow> (case cstClear st (srStore s1) of (c1, res) \<Rightarrow> (s1\<lparr>srStore := c1\<rparr>, res)))"

definition passphraseLoad ::
  "bool \<Rightarrow> 'c credential_store option \<Rightarrow> key_context \<Rightarrow> 'c source_state \<Rightarrow> 'c source_state \<times> key_material result"
where
  "passphraseLoad generateIfMissing store ctx s =
     (case cachedKey s of
        Some k \<Rightarrow> (s, Inr \<lparr>kmEncrypted = True, kmKey = None, kmPortableKey = Some k, kmCredentialStatus = Some ''present''\<rparr>)
      | None \<Rightarrow>
          (case readCredentialState store (Some (kcDbName ctx)) (srStore s) of
             Inl e \<Rightarrow> (s, Inl e)
           | Inr stored \<Rightarrow>
               if usable stored
               then (s\<lparr>srPortableKey := Some (skPortableKey (the stored))\<rparr>,
                     Inr \<lparr>kmEncrypted = True, kmKey = None, kmPortableKey = Some (skPortableKey (the stored)),
                          kmCredentialStatus = Some ''present''\<rparr>)
               else (s, Inr \<lparr>kmEncrypted = generateIfMissing, kmKey = None, kmPortableKey = None,
                             kmCredentialStatus = Some ''absent''\<rparr>)))"

definition boundLoad ::
  "(key_context \<Rightarrow> string \<Rightarrow> key_material result) \<Rightarrow> 'c credential_store option \<Rightarrow> key_context \<Rightarrow> 'c source_state \<Rightarrow>
     'c source_state \<times> key_material result"
where
  "boundLoad derive store ctx s =
     (case (case cachedKey s of
              Some k \<Rightarrow> Inr (Some \<lparr>skPortableKey = k, skDeviceId = kcDeviceId ctx, skMeshId = None\<rparr>)
            | None \<Rightarrow> readCredentialState store (Some (kcDbName ctx)) (srStore s)) of
        Inl e \<Rightarrow> (s, Inl e)
      | Inr stored \<Rightarrow>
          if \<not> usable stored
          then (s, Inr \<lparr>kmEncrypted = True, kmKey = None, kmPortableKey = None, kmCredentialStatus = Some ''absent''\<rparr>)
          else
            (let k = skPortableKey (the stored) in
             (s\<lparr>srPortableKey := Some k\<rparr>,
              bind_result (derive ctx k) (\<lambda>m. Inr (m\<lparr>kmCredentialStatus :=
                 (case kmCredentialStatus m of None \<Rightarrow> Some ''present'' | status \<Rightarrow> status)\<rparr>)))))"

definition PortablePassphraseKeySource :: "bool \<Rightarrow> 'c credential_store option \<Rightarrow> 'c source_state key_source" where
  "PortablePassphraseKeySource generateIfMissing store =
     \<lparr>ksCredentialPersistence = persistenceOf store, ksLoad = passphraseLoad generateIfMissing store,
      ksPersist = sourcePersist store, ksClear = sourceClear store, ksLoadPersisted = Some (sourceLoadPersisted store)\<rparr>"

definition BoundSharedKeySource ::
  "(key_context \<Rightarrow> string \<Rightarrow> key_material result) \<Rightarrow> 'c credential_store option \<Rightarrow> 'c source_state key_source"
where
  "BoundSharedKeySource derive store =
     \<lparr>ksCredentialPersistence = persistenceOf store, ksLoad = boundLoad derive store,
      ksPersist = sourcePersist store, ksClear = sourceClear store, ksLoadPersisted = Some (sourceLoadPersisted store)\<rparr>"

section \<open>Reading never takes a failure for absence\<close>

lemma readCredentialState_usable: "readCredentialState store db c = Inr (Some sk) \<Longrightarrow> usable (Some sk)"
  by (auto simp: readCredentialState_def bind_result_Inr_iff split: option.splits sum.splits if_splits)

text \<open>A store says that it holds nothing: the plain contract by answering no usable record, the richer one
  by the status \<open>absent\<close>.\<close>

definition reportsAbsent :: "'c credential_store \<Rightarrow> 'c \<Rightarrow> bool" where
  "reportsAbsent st c =
     (case cstLoadState st of
        None \<Rightarrow> (case cstLoad st c of Inr credentials \<Rightarrow> \<not> usable credentials | Inl _ \<Rightarrow> False)
      | Some richLoad \<Rightarrow> (case richLoad c of Inr res \<Rightarrow> lrStatus res = ''absent'' | Inl _ \<Rightarrow> False))"

lemma readCredentialState_absent:
  "readCredentialState (Some st) db c = Inr None \<longleftrightarrow> reportsAbsent st c"
proof (cases "cstLoadState st")
  case None
  then show ?thesis
    by (cases "cstLoad st c") (auto simp: readCredentialState_def reportsAbsent_def usable_def split: option.splits)
next
  case (Some richLoad)
  show ?thesis
  proof (cases "richLoad c")
    case (Inl e)
    with Some show ?thesis by (simp add: readCredentialState_def reportsAbsent_def)
  next
    case (Inr res)
    with Some show ?thesis
      by (cases "lrCredentials res") (auto simp: readCredentialState_def reportsAbsent_def CREDENTIAL_STATUSES_def usable_def)
  qed
qed

end
