(* ===== verification/Hlc.thy ===== *)
theory Hlc
  imports Js_Prelude
begin

text \<open>
  The hybrid logical clock (\<open>packages/core/src/core/hlc.ts\<close>): the clock record, ticking it,
  receiving a remote clock, comparing two clocks and two serialized clocks, and the serialized
  form. The wall clock \<open>Date.now()\<close> is an argument. A clock's numbers are \<open>jnum\<close>, since
  \<open>hlcParse\<close> of malformed text answers \<open>NaN\<close>; a stamp is a serialized clock.

  Numbers of the model are exact integers. A JavaScript number is one as long as it stays below
  \<open>2 ^ 53\<close> (\<open>safeHlc\<close>): sums, comparisons, \<open>toString\<close> and \<open>parseInt\<close> are exact there, so on safe
  clocks the definitions compute what the code computes. The theorems on the order and the progress of
  clocks are stated for safe clocks and show that the results are safe again. Outside, the code
  rounds: a counter of \<open>2 ^ 53\<close> in the stamp of a peer does not grow by adding one, and a time from
  \<open>10 ^ 21\<close> on is printed with an exponent.
\<close>

section \<open>The clock\<close>

record hlc =
  ts :: jnum
  counter :: jnum
  nodeId :: string

definition HLC_MAX_FUTURE_SKEW_MS :: int where
  "HLC_MAX_FUTURE_SKEW_MS = 5 * 60 * 1000"

definition hlcInit :: "int \<Rightarrow> string \<Rightarrow> hlc" where
  "hlcInit wall node = \<lparr>ts = Num wall, counter = Num 0, nodeId = node\<rparr>"

definition hlcNow :: "int \<Rightarrow> hlc \<Rightarrow> hlc" where
  "hlcNow wall loc =
     (if jgt (Num wall) (ts loc) then \<lparr>ts = Num wall, counter = Num 0, nodeId = nodeId loc\<rparr>
      else \<lparr>ts = ts loc, counter = jadd (counter loc) (Num 1), nodeId = nodeId loc\<rparr>)"

definition hlcReceive :: "int \<Rightarrow> hlc \<Rightarrow> hlc \<Rightarrow> hlc" where
  "hlcReceive wall loc remote =
     (let safeRemoteTs = jmin (ts remote) (Num (wall + HLC_MAX_FUTURE_SKEW_MS));
          maxTs = jmax (jmax (Num wall) (ts loc)) safeRemoteTs;
          cnt =
            (if jeq maxTs (ts loc) \<and> jeq maxTs (ts remote) then
               jadd (jmax (counter loc) (counter remote)) (Num 1)
             else if jeq maxTs (ts loc) then jadd (counter loc) (Num 1)
             else if jeq maxTs safeRemoteTs then jadd (counter remote) (Num 1)
             else Num 0)
      in \<lparr>ts = maxTs, counter = cnt, nodeId = nodeId loc\<rparr>)"

definition hlcCompare :: "hlc \<Rightarrow> hlc \<Rightarrow> jnum" where
  "hlcCompare a b =
     (if \<not> jeq (ts a) (ts b) then jsub (ts a) (ts b)
      else if \<not> jeq (counter a) (counter b) then jsub (counter a) (counter b)
      else if nodeId a < nodeId b then Num (- 1)
      else if nodeId a > nodeId b then Num 1
      else Num 0)"

section \<open>The serialized form\<close>

definition hlcSerialize :: "hlc \<Rightarrow> string" where
  "hlcSerialize h =
     (let t = padStart 15 (CHR ''0'') (toStringRadix 10 (ts h));
          c = padStart 4 (CHR ''0'') (toStringRadix 16 (counter h))
      in t @ ''-'' @ c @ ''-'' @ nodeId h)"

definition hlcParse :: "string \<Rightarrow> hlc" where
  "hlcParse s =
     (let firstDash = indexOf s ''-'' 0;
          secondDash = indexOf s ''-'' (firstDash + 1)
      in \<lparr>ts = parseInt (jslice s 0 firstDash) 10,
          counter = parseInt (jslice s (firstDash + 1) secondDash) 16,
          nodeId = jsliceFrom s (secondDash + 1)\<rparr>)"

definition hasDashes :: "string \<Rightarrow> bool" where
  "hasDashes s = (charAt s 15 = Some (CHR ''-'') \<and> charAt s 20 = Some (CHR ''-''))"

definition hlcCompareStr :: "string \<Rightarrow> string \<Rightarrow> jnum" where
  "hlcCompareStr a b =
     (if hasDashes a \<and> hasDashes b then (if a < b then Num (- 1) else if a > b then Num 1 else Num 0)
      else hlcCompare (hlcParse a) (hlcParse b))"

section \<open>Well-formed clocks and stamps\<close>

text \<open>A clock as the engine makes it: two non-negative integers.\<close>

fun nonNeg :: "jnum \<Rightarrow> bool" where
  "nonNeg (Num n) = (0 \<le> n)"
| "nonNeg NaN = False"

definition validHlc :: "hlc \<Rightarrow> bool" where
  "validHlc h = (nonNeg (ts h) \<and> nonNeg (counter h))"

text \<open>A clock whose numbers JavaScript holds exactly.\<close>

fun safeNum :: "jnum \<Rightarrow> bool" where
  "safeNum (Num n) = (0 \<le> n \<and> n < 2 ^ 53)"
| "safeNum NaN = False"

definition safeHlc :: "hlc \<Rightarrow> bool" where
  "safeHlc h = (safeNum (ts h) \<and> safeNum (counter h))"

fun jint :: "jnum \<Rightarrow> int" where
  "jint (Num n) = n"
| "jint NaN = 0"

definition hlcKey :: "hlc \<Rightarrow> int \<times> int \<times> string" where
  "hlcKey h = (jint (ts h), jint (counter h), nodeId h)"

text \<open>A stamp is the serialized form of a well-formed clock.\<close>

definition stampOk :: "string \<Rightarrow> bool" where
  "stampOk s = (validHlc (hlcParse s) \<and> hlcSerialize (hlcParse s) = s)"

definition stampKey :: "string \<Rightarrow> int \<times> int \<times> string" where
  "stampKey s = hlcKey (hlcParse s)"

lemma nonNeg_iff: "nonNeg x \<longleftrightarrow> (\<exists>n\<ge>0. x = Num n)"
  by (cases x) auto

lemma validHlcE:
  assumes "validHlc h"
  obtains t c n where "h = \<lparr>ts = Num t, counter = Num c, nodeId = n\<rparr>" "0 \<le> t" "0 \<le> c"
  using assms by (cases h) (auto simp: validHlc_def nonNeg_iff)

lemma safeNum_iff: "safeNum x \<longleftrightarrow> (\<exists>n. x = Num n \<and> 0 \<le> n \<and> n < 2 ^ 53)"
  by (cases x) auto

lemma safeHlc_valid: "safeHlc h \<Longrightarrow> validHlc h"
  by (auto simp: safeHlc_def validHlc_def safeNum_iff)

lemma safeHlcE:
  assumes "safeHlc h"
  obtains t c n where "h = \<lparr>ts = Num t, counter = Num c, nodeId = n\<rparr>" "0 \<le> t" "t < 2 ^ 53" "0 \<le> c" "c < 2 ^ 53"
  using assms by (cases h) (auto simp: safeHlc_def safeNum_iff)

section \<open>Round trip\<close>

lemma hlcSerialize_digits:
  assumes "0 \<le> t" "0 \<le> c"
  shows "hlcSerialize \<lparr>ts = Num t, counter = Num c, nodeId = n\<rparr> =
    map digitChar (padDigits 10 15 (nat t)) @ ''-'' @ map digitChar (padDigits 16 4 (nat c)) @ ''-'' @ n"
  using assms by (simp add: hlcSerialize_def padStart_toStringRadix Let_def del: toStringRadix.simps)

lemma no_dash_digits: "b \<le> 36 \<Longrightarrow> 2 \<le> b \<Longrightarrow> CHR ''-'' \<notin> set (map digitChar (padDigits b w n))"
  by (auto dest!: padDigits_less [rotated])
     (metis digitChar_not_sign(1) order_less_le_trans)

lemma hlcParse_dashes:
  assumes "CHR ''-'' \<notin> set t" "CHR ''-'' \<notin> set c"
  shows "hlcParse (t @ ''-'' @ c @ ''-'' @ n) = \<lparr>ts = parseInt t 10, counter = parseInt c 16, nodeId = n\<rparr>"
proof -
  let ?s = "t @ ''-'' @ c @ ''-'' @ n"
  have d1: "indexOf ?s ''-'' 0 = int (length t)"
    using indexOf_char [OF assms(1), of "[]"] by simp
  have d2: "indexOf ?s ''-'' (int (length t) + 1) = int (length t + 1 + length c)"
    using indexOf_char [OF assms(2), of "t @ ''-''"] by (simp add: add.commute)
  have s1: "jslice ?s 0 (int (length t)) = t"
    using jslice_mid [of "[]" t] by simp
  have s2: "jslice ?s (int (length t) + 1) (int (length t + 1 + length c)) = c"
    using jslice_mid [of "t @ ''-''" c] by (simp add: add.commute)
  have s3: "jsliceFrom ?s (int (length t + 1 + length c) + 1) = n"
    using jsliceFrom_append [of "t @ ''-'' @ c @ ''-''" n] by (simp add: add.commute add.left_commute)
  show ?thesis unfolding hlcParse_def Let_def d1 d2 s1 s2 s3 by simp
qed

lemma hlcParse_hlcSerialize: "validHlc h \<Longrightarrow> hlcParse (hlcSerialize h) = h"
proof (erule validHlcE)
  fix t c n
  assume h: "h = \<lparr>ts = Num t, counter = Num c, nodeId = n\<rparr>" and nn: "0 \<le> t" "0 \<le> c"
  show ?thesis
    unfolding h hlcSerialize_digits [OF nn]
    using nn by (subst hlcParse_dashes) (simp_all add: no_dash_digits parseInt_digits padDigits_less del: set_map)
qed

lemma stampOk_hlcSerialize [simp, intro]: "validHlc h \<Longrightarrow> stampOk (hlcSerialize h)"
  by (simp add: stampOk_def hlcParse_hlcSerialize)

lemma stampKey_hlcSerialize [simp]: "validHlc h \<Longrightarrow> stampKey (hlcSerialize h) = hlcKey h"
  by (simp add: stampKey_def hlcParse_hlcSerialize)

lemma stampOkE:
  assumes "stampOk s"
  obtains h where "validHlc h" "s = hlcSerialize h"
  using assms by (metis stampOk_def)

lemma stampOk_not_Nil [simp]: "stampOk s \<Longrightarrow> s \<noteq> []"
  by (erule stampOkE) (simp add: hlcSerialize_def Let_def)

section \<open>Order\<close>

lemma hlcCompare_sign:
  "validHlc a \<Longrightarrow> validHlc b \<Longrightarrow> jsgn (hlcCompare a b) = Num (cmpSign (hlcKey a) (hlcKey b))"
  by (elim validHlcE) (auto simp: hlcCompare_def hlcKey_def cmpSign_def less_prod_simp)

lemma hlcKey_inject: "validHlc a \<Longrightarrow> validHlc b \<Longrightarrow> hlcKey a = hlcKey b \<Longrightarrow> a = b"
  by (elim validHlcE) (simp add: hlcKey_def)

interpretation clock: js_comparator validHlc hlcKey hlcCompare
  by unfold_locales (simp_all add: hlcCompare_sign hlcKey_inject)

text \<open>
  The fast path of \<open>hlcCompareStr\<close> is taken exactly when both numbers fit their padded width.
\<close>

lemma hasDashes_hlcSerialize:
  assumes "0 \<le> t" "0 \<le> c"
  shows "hasDashes (hlcSerialize \<lparr>ts = Num t, counter = Num c, nodeId = n\<rparr>)
    \<longleftrightarrow> nat t < 10 ^ 15 \<and> nat c < 16 ^ 4"
proof -
  let ?T = "padDigits 10 15 (nat t)" and ?C = "padDigits 16 4 (nat c)"
  let ?s = "map digitChar ?T @ ''-'' @ map digitChar ?C @ ''-'' @ n"
  have digT: "digitChar (?T ! i) \<noteq> CHR ''-''" if "i < length ?T" for i
    using padDigits_less [of 10 "?T ! i" 15 "nat t"] that by simp
  have digC: "digitChar (?C ! i) \<noteq> CHR ''-''" if "i < length ?C" for i
    using padDigits_less [of 16 "?C ! i" 4 "nat c"] that by simp
  show ?thesis
  proof (cases "nat t < 10 ^ 15")
    case False
    then have "15 < length ?T" using length_padDigits(2) [of 10 15 "nat t"] by simp
    then have "charAt ?s 15 \<noteq> Some (CHR ''-'')"
      using digT [of 15] by (simp add: charAt_def nth_append)
    with False show ?thesis by (simp add: hasDashes_def hlcSerialize_digits assms)
  next
    case True
    then have lT: "length ?T = 15" using length_padDigits(1) [of 10 15 "nat t"] by simp
    show ?thesis
    proof (cases "nat c < 16 ^ 4")
      case True
      then have "length ?C = 4" using length_padDigits(1) [of 16 4 "nat c"] by simp
      with lT True \<open>nat t < 10 ^ 15\<close> show ?thesis
        by (simp add: hasDashes_def hlcSerialize_digits assms charAt_def nth_append)
    next
      case False
      then have "4 < length ?C" using length_padDigits(2) [of 16 4 "nat c"] by simp
      then have "charAt ?s 20 \<noteq> Some (CHR ''-'')"
        using digC [of 4] lT by (simp add: charAt_def nth_append)
      with False show ?thesis by (simp add: hasDashes_def hlcSerialize_digits assms)
    qed
  qed
qed

lemma serialized_lex:
  assumes "0 \<le> t" "0 \<le> c" "0 \<le> t'" "0 \<le> c'"
    and "nat t < 10 ^ 15" "nat c < 16 ^ 4" "nat t' < 10 ^ 15" "nat c' < 16 ^ 4"
  shows "hlcSerialize \<lparr>ts = Num t, counter = Num c, nodeId = n\<rparr>
       < hlcSerialize \<lparr>ts = Num t', counter = Num c', nodeId = n'\<rparr> \<longleftrightarrow> (t, c, n) < (t', c', n')"
proof -
  let ?T = "\<lambda>t. map digitChar (padDigits 10 15 (nat t))"
  let ?C = "\<lambda>c. map digitChar (padDigits 16 4 (nat c))"
  have lens: "length (?T t) = 15" "length (?T t') = 15" "length (?C c) = 4" "length (?C c') = 4"
    using assms length_padDigits(1) [of 10 15] length_padDigits(1) [of 16 4] by simp_all
  have ltT: "?T x < ?T y \<longleftrightarrow> x < y" if "0 \<le> x" "0 \<le> y" "nat x < 10 ^ 15" "nat y < 10 ^ 15" for x y
    using that padDigits_lex_less [of 10 15 "nat x" "nat y"] by (auto simp: nat_less_iff)
  have ltC: "?C x < ?C y \<longleftrightarrow> x < y" if "0 \<le> x" "0 \<le> y" "nat x < 16 ^ 4" "nat y < 16 ^ 4" for x y
    using that padDigits_lex_less [of 16 4 "nat x" "nat y"] by (auto simp: nat_less_iff)
  have eqT: "?T t = ?T t' \<longleftrightarrow> t = t'"
    using ltT [of t t'] ltT [of t' t] assms by (metis less_irrefl neqE)
  have eqC: "?C c = ?C c' \<longleftrightarrow> c = c'"
    using ltC [of c c'] ltC [of c' c] assms by (metis less_irrefl neqE)
  show ?thesis
    unfolding hlcSerialize_digits [OF assms(1,2)] hlcSerialize_digits [OF assms(3,4)]
    using lens assms ltT ltC eqT eqC
    by (simp only: append_less_append length_map) (auto simp: less_prod_simp)
qed

lemma hlcCompareStr_hlcSerialize:
  assumes "validHlc a" "validHlc b"
  shows "jsgn (hlcCompareStr (hlcSerialize a) (hlcSerialize b)) = Num (cmpSign (hlcKey a) (hlcKey b))"
proof (cases "hasDashes (hlcSerialize a) \<and> hasDashes (hlcSerialize b)")
  case False
  then show ?thesis
    using assms by (auto simp: hlcCompareStr_def hlcParse_hlcSerialize hlcCompare_sign)
next
  case True
  from assms obtain t c n t' c' n'
    where a: "a = \<lparr>ts = Num t, counter = Num c, nodeId = n\<rparr>" "0 \<le> t" "0 \<le> c"
      and b: "b = \<lparr>ts = Num t', counter = Num c', nodeId = n'\<rparr>" "0 \<le> t'" "0 \<le> c'"
    by (elim validHlcE)
  then have fits: "nat t < 10 ^ 15" "nat c < 16 ^ 4" "nat t' < 10 ^ 15" "nat c' < 16 ^ 4"
    using True by (simp_all only: hasDashes_hlcSerialize)
  have "hlcSerialize a < hlcSerialize b \<longleftrightarrow> hlcKey a < hlcKey b"
    and "hlcSerialize b < hlcSerialize a \<longleftrightarrow> hlcKey b < hlcKey a"
    using serialized_lex [of t c t' c' n n'] serialized_lex [of t' c' t c n' n] a b fits
    by (simp_all add: hlcKey_def)
  with True show ?thesis by (simp add: hlcCompareStr_def cmpSign_def)
qed

interpretation stamp: js_comparator stampOk stampKey hlcCompareStr
proof
  fix a b
  assume "stampOk a" "stampOk b"
  then obtain g h where g: "validHlc g" "a = hlcSerialize g" and h: "validHlc h" "b = hlcSerialize h"
    by (auto elim!: stampOkE)
  then show "jsgn (hlcCompareStr a b) = Num (cmpSign (stampKey a) (stampKey b))"
    by (simp add: hlcCompareStr_hlcSerialize)
  show "stampKey a = stampKey b \<Longrightarrow> a = b"
    using g h hlcKey_inject [of g h] by simp
qed

lemmas stamp_order [stamp_simps] = stamp.gt0 stamp.lt0 stamp.le0 stamp.ge0

section \<open>Progress of the clock\<close>

lemma validHlc_hlcInit: "0 \<le> wall \<Longrightarrow> validHlc (hlcInit wall node)"
  by (simp add: validHlc_def hlcInit_def)

lemma validHlc_hlcNow: "validHlc h \<Longrightarrow> 0 \<le> wall \<Longrightarrow> validHlc (hlcNow wall h)"
  by (elim validHlcE) (simp add: validHlc_def hlcNow_def)

lemma hlcKey_hlcNow: "validHlc h \<Longrightarrow> hlcKey h < hlcKey (hlcNow wall h)"
  by (elim validHlcE) (simp add: hlcKey_def hlcNow_def less_prod_simp)

lemma validHlc_hlcReceive:
  "validHlc loc \<Longrightarrow> validHlc rem \<Longrightarrow> 0 \<le> wall \<Longrightarrow> validHlc (hlcReceive wall loc rem)"
  by (elim validHlcE) (auto simp: validHlc_def hlcReceive_def Let_def)

lemma hlcKey_hlcReceive_local:
  "validHlc loc \<Longrightarrow> validHlc rem \<Longrightarrow> hlcKey loc < hlcKey (hlcReceive wall loc rem)"
  by (elim validHlcE) (auto simp: hlcKey_def hlcReceive_def Let_def less_prod_simp)

lemma hlcKey_hlcReceive_remote:
  "validHlc loc \<Longrightarrow> validHlc rem \<Longrightarrow> jint (ts rem) \<le> wall + HLC_MAX_FUTURE_SKEW_MS \<Longrightarrow>
    hlcKey rem < hlcKey (hlcReceive wall loc rem)"
  by (elim validHlcE) (auto simp: hlcKey_def hlcReceive_def Let_def less_prod_simp)

lemma hlc_skew_limit:
  "validHlc loc \<Longrightarrow> validHlc rem \<Longrightarrow>
    jint (ts (hlcReceive wall loc rem)) \<le> max (wall + HLC_MAX_FUTURE_SKEW_MS) (jint (ts loc))"
  by (elim validHlcE) (auto simp: hlcReceive_def Let_def HLC_MAX_FUTURE_SKEW_MS_def)

lemma nodeId_clock [simp]:
  "nodeId (hlcNow wall h) = nodeId h" "nodeId (hlcReceive wall h rem) = nodeId h"
  by (simp_all add: hlcNow_def hlcReceive_def Let_def)

text \<open>Serializing a clock and parsing it back gives the clock: for every clock with
  non-negative numbers and any node id, dashes in the id included.\<close>

theorem hlc_roundtrip: "validHlc h \<Longrightarrow> hlcParse (hlcSerialize h) = h"
  by (rule hlcParse_hlcSerialize)

definition sampleClock :: hlc where
  "sampleClock = \<lparr>ts = Num 1711785600000, counter = Num 10, nodeId = ''dev-x1''\<rparr>"

lemma validHlc_sampleClock [simp]: "validHlc sampleClock"
  by (simp add: validHlc_def sampleClock_def)

theorem hlc_roundtrip_witness: "hlcParse (hlcSerialize sampleClock) = sampleClock"
  using hlc_roundtrip [of sampleClock] by simp

lemma safe_difference:
  "safeHlc a \<Longrightarrow> safeHlc b \<Longrightarrow> \<exists>d. hlcCompare a b = Num d \<and> \<bar>d\<bar> < 2 ^ 53"
  by (elim safeHlcE) (auto simp: hlcCompare_def)

text \<open>C33: On clocks whose numbers JavaScript holds exactly, comparing two serialized clocks, by the
  string fast path or by parsing, orders them exactly as comparing the clocks does, also when a number
  outgrew its padded width; parsing a stamp gives its clock back, the comparison is zero only for the
  same stamp, and the difference it is taken from is exact as well.\<close>

theorem hlc_string_order:
  assumes "safeHlc a" "safeHlc b"
  shows "jsgn (hlcCompareStr (hlcSerialize a) (hlcSerialize b)) = jsgn (hlcCompare a b)
    \<and> hlcParse (hlcSerialize a) = a
    \<and> (hlcCompareStr (hlcSerialize a) (hlcSerialize b) = Num 0 \<longleftrightarrow> hlcSerialize a = hlcSerialize b)
    \<and> (\<exists>d. hlcCompare a b = Num d \<and> \<bar>d\<bar> < 2 ^ 53)"
proof -
  have v: "validHlc a" "validHlc b" using assms by (simp_all add: safeHlc_valid)
  have same: "hlcSerialize a = hlcSerialize b \<longleftrightarrow> hlcKey a = hlcKey b"
    using v hlcKey_inject [OF v] by (metis hlcParse_hlcSerialize)
  have "jsgn (hlcCompareStr (hlcSerialize a) (hlcSerialize b)) = Num 0 \<longleftrightarrow> hlcSerialize a = hlcSerialize b"
    unfolding hlcCompareStr_hlcSerialize [OF v] same by (auto simp: cmpSign_def)
  then have "hlcCompareStr (hlcSerialize a) (hlcSerialize b) = Num 0 \<longleftrightarrow> hlcSerialize a = hlcSerialize b"
    by (cases "hlcCompareStr (hlcSerialize a) (hlcSerialize b)") (auto simp: sgn_if split: if_splits)
  then show ?thesis
    using v safe_difference [OF assms] by (simp add: hlcCompareStr_hlcSerialize hlcCompare_sign hlcParse_hlcSerialize)
qed

theorem hlc_string_order_witness:
  "jsgn (hlcCompareStr (hlcSerialize sampleClock) (hlcSerialize (sampleClock\<lparr>counter := Num 70000\<rparr>)))
     = Num (- 1)"
proof -
  have "safeHlc sampleClock" "safeHlc (sampleClock\<lparr>counter := Num 70000\<rparr>)"
    by (simp_all add: safeHlc_def sampleClock_def)
  from hlc_string_order [OF this] show ?thesis
    by (simp add: hlcCompare_def sampleClock_def)
qed

lemma safeHlc_hlcNow:
  "safeHlc loc \<Longrightarrow> jint (counter loc) + 1 < 2 ^ 53 \<Longrightarrow> 0 \<le> wall \<Longrightarrow> wall < 2 ^ 53 \<Longrightarrow> safeHlc (hlcNow wall loc)"
  by (elim safeHlcE) (simp add: safeHlc_def hlcNow_def)

lemma safeHlc_hlcReceive:
  "safeHlc loc \<Longrightarrow> safeHlc rem \<Longrightarrow> jint (counter loc) + 1 < 2 ^ 53 \<Longrightarrow> jint (counter rem) + 1 < 2 ^ 53 \<Longrightarrow>
    0 \<le> wall \<Longrightarrow> wall + HLC_MAX_FUTURE_SKEW_MS < 2 ^ 53 \<Longrightarrow> safeHlc (hlcReceive wall loc rem)"
  by (elim safeHlcE) (auto simp: safeHlc_def hlcReceive_def Let_def HLC_MAX_FUTURE_SKEW_MS_def)

text \<open>C32: The clock makes progress while its numbers are safe: with a wall clock, a local and a remote
  clock below \<open>2 ^ 53\<close> and counters that have room for one more tick, a tick is later than the clock, and
  receiving a remote clock gives one later than the local clock and, unless the remote is further ahead
  of the wall clock than the accepted skew, later than the remote one; a remote that is further ahead
  never lifts the time above the wall clock plus the skew or the local time. The node id stays and the
  numbers stay safe, so they are computed exactly.\<close>

theorem hlc_progress:
  assumes "safeHlc loc" "safeHlc rem" "0 \<le> wall" "wall + HLC_MAX_FUTURE_SKEW_MS < 2 ^ 53"
    and "jint (counter loc) + 1 < 2 ^ 53" "jint (counter rem) + 1 < 2 ^ 53"
  shows "hlcKey loc < hlcKey (hlcNow wall loc)
    \<and> hlcKey loc < hlcKey (hlcReceive wall loc rem)
    \<and> (jint (ts rem) \<le> wall + HLC_MAX_FUTURE_SKEW_MS \<longrightarrow> hlcKey rem < hlcKey (hlcReceive wall loc rem))
    \<and> jint (ts (hlcReceive wall loc rem)) \<le> max (wall + HLC_MAX_FUTURE_SKEW_MS) (jint (ts loc))
    \<and> safeHlc (hlcNow wall loc) \<and> safeHlc (hlcReceive wall loc rem)
    \<and> nodeId (hlcNow wall loc) = nodeId loc \<and> nodeId (hlcReceive wall loc rem) = nodeId loc"
proof -
  have v: "validHlc loc" "validHlc rem" using assms by (simp_all add: safeHlc_valid)
  have "safeHlc (hlcNow wall loc)"
    using assms by (intro safeHlc_hlcNow) (simp_all add: HLC_MAX_FUTURE_SKEW_MS_def)
  then show ?thesis
    using v assms hlc_skew_limit [OF v, of wall]
    by (simp add: hlcKey_hlcNow hlcKey_hlcReceive_local hlcKey_hlcReceive_remote safeHlc_hlcReceive)
qed

theorem hlc_progress_witness:
  "hlcKey sampleClock < hlcKey (hlcReceive 1711785600500 sampleClock (hlcInit 1711785600900 ''peer''))
   \<and> safeHlc (hlcReceive 1711785600500 sampleClock (hlcInit 1711785600900 ''peer''))"
proof -
  have "safeHlc sampleClock" "safeHlc (hlcInit 1711785600900 ''peer'')"
    by (simp_all add: safeHlc_def sampleClock_def hlcInit_def)
  from hlc_progress [OF this, of 1711785600500] show ?thesis
    by (simp add: HLC_MAX_FUTURE_SKEW_MS_def hlcInit_def sampleClock_def)
qed

text \<open>The skew guard does not cover a remote stamp whose time is no number: receiving it
  turns the local time into \<open>NaN\<close>, and no later tick or receipt brings the clock back.\<close>

theorem hlc_nan_poisons:
  assumes "ts (hlcParse s) = NaN"
  shows "ts (hlcReceive wall loc (hlcParse s)) = NaN
    \<and> ts (hlcNow wall' (hlcReceive wall loc (hlcParse s))) = NaN
    \<and> ts (hlcReceive wall' (hlcReceive wall loc (hlcParse s)) rem) = NaN"
  using assms by (cases "ts loc") (simp_all add: hlcReceive_def hlcNow_def Let_def)

theorem hlc_nan_poisons_witness: "ts (hlcNow 5 (hlcReceive 4 sampleClock (hlcParse ''bogus''))) = NaN"
proof -
  have "ts (hlcParse ''bogus'') = NaN" by code_simp
  from hlc_nan_poisons [OF this] show ?thesis by simp
qed

end
