(* ===== verification/Js_Value.thy ===== *)
theory Js_Value
  imports Js_Prelude
begin

text \<open>
  The values a column, a metadata record or a JSON document can hold, and the structural
  equality the merge engine uses on them (\<open>columnValuesEqual\<close> of
  \<open>packages/core/src/core/crdt.ts\<close>). A date is its \<open>getTime()\<close>; an object is the list of its
  own enumerable properties in order. \<open>canonValue\<close> sorts every object's keys; on values with
  distinct keys the equality of the code is equality of canonical forms, so it is an equivalence.
\<close>

datatype jsval =
    JUndefined
  | JNull
  | JBool bool
  | JNum jnum
  | JStr string
  | JDate int
  | JArr "jsval list"
  | JObj "(string \<times> jsval) list"

fun truthy :: "jsval \<Rightarrow> bool" where
  "truthy JUndefined = False"
| "truthy JNull = False"
| "truthy (JBool b) = b"
| "truthy (JNum NaN) = False"
| "truthy (JNum (Num n)) = (n \<noteq> 0)"
| "truthy (JStr s) = (s \<noteq> '''')"
| "truthy _ = True"

text \<open>The two \<open>every\<close> loops are the auxiliary functions.\<close>

fun columnValuesEqual :: "jsval \<Rightarrow> jsval \<Rightarrow> bool"
  and arrayValuesEqual :: "jsval list \<Rightarrow> jsval list \<Rightarrow> bool"
  and recordValuesEqual :: "(string \<times> jsval) list \<Rightarrow> (string \<times> jsval) list \<Rightarrow> bool"
where
  "columnValuesEqual (JDate a) r = (case r of JDate b \<Rightarrow> a = b | _ \<Rightarrow> False)"
| "columnValuesEqual (JArr xs) r =
     (case r of JArr ys \<Rightarrow> length xs = length ys \<and> arrayValuesEqual xs ys | _ \<Rightarrow> False)"
| "columnValuesEqual (JObj fs) r =
     (case r of JObj gs \<Rightarrow> sort (map fst fs) = sort (map fst gs) \<and> recordValuesEqual fs gs | _ \<Rightarrow> False)"
| "columnValuesEqual l r = (l = r)"
| "arrayValuesEqual [] ys = True"
| "arrayValuesEqual (x # xs) ys =
     (case ys of [] \<Rightarrow> False | y # ys' \<Rightarrow> columnValuesEqual x y \<and> arrayValuesEqual xs ys')"
| "recordValuesEqual [] gs = True"
| "recordValuesEqual ((k, v) # fs) gs =
     ((case map_of gs k of None \<Rightarrow> False | Some w \<Rightarrow> columnValuesEqual v w) \<and> recordValuesEqual fs gs)"

text \<open>Objects have distinct keys, at every depth.\<close>

fun wfValue :: "jsval \<Rightarrow> bool" and wfValues :: "jsval list \<Rightarrow> bool"
  and wfFields :: "(string \<times> jsval) list \<Rightarrow> bool" where
  "wfValue (JArr xs) = wfValues xs"
| "wfValue (JObj fs) = (distinct (map fst fs) \<and> wfFields fs)"
| "wfValue _ = True"
| "wfValues [] = True"
| "wfValues (x # xs) = (wfValue x \<and> wfValues xs)"
| "wfFields [] = True"
| "wfFields ((k, v) # fs) = (wfValue v \<and> wfFields fs)"

fun canonValue :: "jsval \<Rightarrow> jsval" and canonValues :: "jsval list \<Rightarrow> jsval list"
  and canonFields :: "(string \<times> jsval) list \<Rightarrow> (string \<times> jsval) list" where
  "canonValue (JArr xs) = JArr (canonValues xs)"
| "canonValue (JObj fs) = JObj (sort_key fst (canonFields fs))"
| "canonValue v = v"
| "canonValues [] = []"
| "canonValues (x # xs) = canonValue x # canonValues xs"
| "canonFields [] = []"
| "canonFields ((k, v) # fs) = (k, canonValue v) # canonFields fs"

lemma map_fst_canonFields [simp]: "map fst (canonFields fs) = map fst fs"
  by (induction fs) auto

lemma map_of_canonFields: "map_of (canonFields fs) k = map_option canonValue (map_of fs k)"
  by (induction fs) auto

lemma length_canonValues [simp]: "length (canonValues xs) = length xs"
  by (induction xs) auto

lemma wfFields_map_of: "wfFields fs \<Longrightarrow> map_of fs k = Some v \<Longrightarrow> wfValue v"
  by (induction fs) (auto split: if_splits)

lemma sort_key_fst_eq_iff:
  fixes xs ys :: "(string \<times> 'a) list"
  assumes "distinct (map fst xs)" "distinct (map fst ys)"
  shows "sort_key fst xs = sort_key fst ys \<longleftrightarrow> map_of xs = map_of ys"
proof
  assume "sort_key fst xs = sort_key fst ys"
  then have "set xs = set ys" by (metis set_sort)
  then show "map_of xs = map_of ys" using assms by (simp add: map_of_inject_set)
next
  assume "map_of xs = map_of ys"
  then have eq: "set xs = set ys" using assms by (simp add: map_of_inject_set)
  have inj: "inj_on fst (set xs \<union> set ys)" using assms eq by (simp add: distinct_map)
  have "map fst (sort_key fst xs) = map fst (sort_key fst ys)"
    using assms eq
    by (intro sorted_distinct_set_unique) (auto simp: distinct_map)
  then show "sort_key fst xs = sort_key fst ys"
    using inj by (simp add: inj_on_map_eq_map)
qed

lemma recordValuesEqual_iff:
  assumes "\<And>k v w. (k, v) \<in> set fs \<Longrightarrow> map_of gs k = Some w \<Longrightarrow>
      columnValuesEqual v w \<longleftrightarrow> canonValue v = canonValue w"
  shows "recordValuesEqual fs gs \<longleftrightarrow>
    (\<forall>(k, v) \<in> set fs. \<exists>w. map_of gs k = Some w \<and> canonValue v = canonValue w)"
  using assms
proof (induction fs)
  case Nil
  then show ?case by simp
next
  case (Cons f fs)
  obtain k v where f: "f = (k, v)" by (cases f)
  have "recordValuesEqual fs gs \<longleftrightarrow>
      (\<forall>(k, v) \<in> set fs. \<exists>w. map_of gs k = Some w \<and> canonValue v = canonValue w)"
    by (rule Cons.IH) (meson Cons.prems list.set_intros(2))
  moreover have "columnValuesEqual v w \<longleftrightarrow> canonValue v = canonValue w" if "map_of gs k = Some w" for w
    using Cons.prems [of k v w] that f by simp
  ultimately show ?case by (simp add: f split: option.split)
qed

lemma records_equal_iff:
  assumes d: "distinct (map fst fs)" "distinct (map fst gs)"
    and keys: "set (map fst fs) = set (map fst gs)"
  shows "(\<forall>(k, v) \<in> set fs. \<exists>w. map_of gs k = Some w \<and> canonValue v = canonValue w)
    \<longleftrightarrow> map_of (canonFields fs) = map_of (canonFields gs)" (is "?L \<longleftrightarrow> ?R")
proof
  assume L: ?L
  show ?R
  proof
    fix k
    show "map_of (canonFields fs) k = map_of (canonFields gs) k"
    proof (cases "map_of fs k")
      case None
      then have "map_of gs k = None" using keys by (simp add: map_of_eq_None_iff)
      with None show ?thesis by (simp add: map_of_canonFields)
    next
      case (Some v)
      with L map_of_SomeD [OF Some] show ?thesis by (auto simp: map_of_canonFields)
    qed
  qed
next
  assume R: ?R
  show ?L
  proof (clarify)
    fix k v
    assume "(k, v) \<in> set fs"
    then have "map_of fs k = Some v" using d by simp
    then show "\<exists>w. map_of gs k = Some w \<and> canonValue v = canonValue w"
      using fun_cong [OF R, of k] by (cases "map_of gs k") (auto simp: map_of_canonFields)
  qed
qed

lemma columnValuesEqual_object:
  assumes d: "distinct (map fst fs)" "distinct (map fst gs)"
    and IH: "\<And>k v w. (k, v) \<in> set fs \<Longrightarrow> map_of gs k = Some w \<Longrightarrow>
      columnValuesEqual v w \<longleftrightarrow> canonValue v = canonValue w"
  shows "columnValuesEqual (JObj fs) (JObj gs) \<longleftrightarrow> canonValue (JObj fs) = canonValue (JObj gs)"
proof (cases "sort (map fst fs) = sort (map fst gs)")
  case True
  then have keys: "set (map fst fs) = set (map fst gs)" by (metis set_sort)
  show ?thesis
    using True d recordValuesEqual_iff [of fs gs, OF IH] records_equal_iff [OF d keys]
    by (simp add: sort_key_fst_eq_iff)
next
  case False
  have "sort_key fst (canonFields fs) \<noteq> sort_key fst (canonFields gs)"
  proof
    assume "sort_key fst (canonFields fs) = sort_key fst (canonFields gs)"
    then have "set (map fst (canonFields fs)) = set (map fst (canonFields gs))"
      by (metis set_map set_sort)
    then have "set (map fst fs) = set (map fst gs)" by simp
    with d have "sort (map fst fs) = sort (map fst gs)"
      by (intro sorted_distinct_set_unique) simp_all
    with False show False by simp
  qed
  with False show ?thesis by simp
qed

lemma canonValue_atom [simp]:
  "JUndefined = canonValue r \<longleftrightarrow> r = JUndefined" "JNull = canonValue r \<longleftrightarrow> r = JNull"
  "JBool b = canonValue r \<longleftrightarrow> r = JBool b" "JNum n = canonValue r \<longleftrightarrow> r = JNum n"
  "JStr s = canonValue r \<longleftrightarrow> r = JStr s" "JDate d = canonValue r \<longleftrightarrow> r = JDate d"
  by (cases r; auto)+

lemma columnValuesEqual_canon:
  "wfValue l \<Longrightarrow> wfValue r \<Longrightarrow> columnValuesEqual l r \<longleftrightarrow> canonValue l = canonValue r"
proof (induction l arbitrary: r)
  case (JArr xs)
  have "length xs = length ys \<Longrightarrow> wfValues xs \<Longrightarrow> wfValues ys \<Longrightarrow>
      (\<forall>x \<in> set xs. \<forall>r. wfValue x \<longrightarrow> wfValue r \<longrightarrow>
        columnValuesEqual x r \<longleftrightarrow> canonValue x = canonValue r) \<Longrightarrow>
      arrayValuesEqual xs ys \<longleftrightarrow> canonValues xs = canonValues ys" for ys
    by (induction xs ys rule: list_induct2) auto
  with JArr.IH have eq: "length xs = length ys \<Longrightarrow> wfValues xs \<Longrightarrow> wfValues ys \<Longrightarrow>
      arrayValuesEqual xs ys \<longleftrightarrow> canonValues xs = canonValues ys" for ys by blast
  show ?case
  proof (cases r)
    case r: (JArr ys)
    have "canonValues xs = canonValues ys \<Longrightarrow> length xs = length ys"
      by (metis length_canonValues)
    with r JArr.prems eq [of ys] show ?thesis by auto
  qed simp_all
next
  case (JObj fs)
  show ?case
  proof (cases r)
    case r: (JObj gs)
    have "columnValuesEqual v w \<longleftrightarrow> canonValue v = canonValue w"
      if "(k, v) \<in> set fs" "map_of gs k = Some w" for k v w
    proof -
      have "wfFields fs" "wfFields gs" "distinct (map fst fs)" using JObj.prems r by simp_all
      then have "wfValue v" "wfValue w" using that wfFields_map_of by (metis map_of_eq_Some_iff)+
      then show ?thesis using JObj.IH [of "(k, v)" v w] that by (simp add: snds.simps)
    qed
    with JObj.prems r show ?thesis using columnValuesEqual_object [of fs gs] by simp
  qed simp_all
qed (auto split: jsval.splits)

lemma columnValuesEqual_refl [simp]: "wfValue v \<Longrightarrow> columnValuesEqual v v"
  by (simp add: columnValuesEqual_canon)

text \<open>The merge engine's value equality is equality up to the order of object keys, at
  every depth; so it is an equivalence and never depends on which replica wrote first.\<close>

theorem value_equality:
  assumes "wfValue u" "wfValue v" "wfValue w"
  shows "(columnValuesEqual u v \<longleftrightarrow> canonValue u = canonValue v)
    \<and> columnValuesEqual u u \<and> (columnValuesEqual u v \<longrightarrow> columnValuesEqual v u)
    \<and> (columnValuesEqual u v \<longrightarrow> columnValuesEqual v w \<longrightarrow> columnValuesEqual u w)"
  using assms by (simp add: columnValuesEqual_canon)

theorem value_equality_witness:
  "columnValuesEqual (JObj [(''a'', JNum (Num 1)), (''b'', JArr [JNull])])
     (JObj [(''b'', JArr [JNull]), (''a'', JNum (Num 1))])"
proof -
  let ?u = "JObj [(''a'', JNum (Num 1)), (''b'', JArr [JNull])]"
  let ?v = "JObj [(''b'', JArr [JNull]), (''a'', JNum (Num 1))]"
  have wf: "wfValue ?u" "wfValue ?v" by simp_all
  have "canonValue ?u = canonValue ?v" by code_simp
  with value_equality [OF wf wf(1)] show ?thesis by blast
qed

end
