(* ===== verification/Crdt.thy ===== *)
theory Crdt
  imports Hlc Js_Value
begin

text \<open>
  The row model and the merge engine (\<open>packages/core/src/core/types.ts\<close> and
  \<open>packages/core/src/core/crdt.ts\<close>): column entries, operations, change entries, rows, the
  resolution of a column's merge strategy, \<open>mergeColumn\<close>, \<open>applyOp\<close> and
  \<open>applyChangeEntry\<close>. The in-memory tables are mutated in place by the code, also when it then
  throws, so every operation returns the tables next to its result. Error values carry the constant
  part of the message.
\<close>

section \<open>Data\<close>

record column_entry =
  colValue :: jsval
  colHlc :: string

type_synonym columns = "(string \<times> column_entry) list"

datatype op =
    Upsert (opTable: string) (opRowId: string) (opColumns: columns)
  | Delete (opTable: string) (opRowId: string) (opHlc: string)

record change_entry =
  ceId :: string
  ceTs :: int
  ceDevice :: string
  ceUser :: "string option"
  ceHlc :: string
  ceOps :: "op list"

record row_meta =
  rmTable :: string
  rmRowId :: string
  rmDeleted :: bool
  rmDeletedHlc :: "string option"
  rmSchemaVersion :: int
  rmOwner :: "string option"
  rmKey :: "string option"

record row =
  meta :: row_meta
  payload :: columns

type_synonym tables = "(string \<times> (string \<times> row) list) list"

record merge_context =
  mcTable :: string
  mcRowId :: string
  mcField :: string

datatype merge_strategy =
    Lww
  | Custom "column_entry \<Rightarrow> column_entry \<Rightarrow> merge_context \<Rightarrow> column_entry"
  | OtherStrategy string

datatype table_merge =
    TableStrategy merge_strategy
  | TableConfig "merge_strategy option" "(string \<times> merge_strategy) list option"

record table_schema =
  tsMerge :: "table_merge option"

record db_schema =
  dsVersion :: "int option"
  dsTables :: "(string \<times> table_schema) list"
  dsMergeStrategy :: "merge_strategy option"

section \<open>Choosing a column's strategy\<close>

fun strategyTruthy :: "merge_strategy \<Rightarrow> bool" where
  "strategyTruthy (OtherStrategy s) = (s \<noteq> '''')"
| "strategyTruthy _ = True"

fun requireConvergentStrategy :: "merge_strategy \<Rightarrow> merge_strategy result" where
  "requireConvergentStrategy (OtherStrategy s) = Inl (Error ''Unsupported replicated merge strategy'')"
| "requireConvergentStrategy st = Inr st"

definition databaseStrategy :: "db_schema option \<Rightarrow> merge_strategy result" where
  "databaseStrategy schema =
     (case Option.bind schema dsMergeStrategy of
        None \<Rightarrow> Inr Lww
      | Some st \<Rightarrow> if strategyTruthy st then requireConvergentStrategy st else Inr Lww)"

definition tableMerge :: "db_schema option \<Rightarrow> string \<Rightarrow> table_merge option" where
  "tableMerge schema table =
     (case Option.bind schema (\<lambda>s. map_of (dsTables s) table) of
        None \<Rightarrow> None
      | Some def \<Rightarrow>
          (case tsMerge def of
             Some (TableStrategy st) \<Rightarrow> if strategyTruthy st then Some (TableStrategy st) else None
           | m \<Rightarrow> m))"

definition resolveStrategy :: "db_schema option \<Rightarrow> string \<Rightarrow> string \<Rightarrow> merge_strategy result" where
  "resolveStrategy schema table field =
     (case tableMerge schema table of
        None \<Rightarrow> databaseStrategy schema
      | Some (TableStrategy st) \<Rightarrow> requireConvergentStrategy st
      | Some (TableConfig None None) \<Rightarrow> Inl (Error ''Unsupported replicated merge strategy'')
      | Some (TableConfig strategy byField) \<Rightarrow>
          (case Option.bind byField (\<lambda>fs. map_of fs field) of
             Some st \<Rightarrow>
               if strategyTruthy st then requireConvergentStrategy st
               else (case strategy of
                       Some st' \<Rightarrow> if strategyTruthy st' then requireConvergentStrategy st'
                                   else databaseStrategy schema
                     | None \<Rightarrow> databaseStrategy schema)
           | None \<Rightarrow>
               (case strategy of
                  Some st' \<Rightarrow> if strategyTruthy st' then requireConvergentStrategy st'
                              else databaseStrategy schema
                | None \<Rightarrow> databaseStrategy schema)))"

section \<open>Merging one column\<close>

definition mergeColumn ::
  "column_entry option \<Rightarrow> column_entry \<Rightarrow> merge_strategy \<Rightarrow> merge_context \<Rightarrow> column_entry option result"
where
  "mergeColumn existing incoming strategy ctx =
     (case existing of
        None \<Rightarrow> Inr (Some incoming)
      | Some ex \<Rightarrow>
          if colHlc ex = '''' then Inr (Some incoming)
          else
            (case strategy of
               Custom f \<Rightarrow>
                 (let r = f ex incoming ctx in
                  if colHlc r \<noteq> colHlc ex \<or> \<not> columnValuesEqual (colValue r) (colValue ex)
                  then Inr (Some r) else Inr None)
             | _ \<Rightarrow>
                 (let comparison = hlcCompareStr (colHlc incoming) (colHlc ex) in
                  if jgt comparison (Num 0) then Inr (Some incoming)
                  else if jlt comparison (Num 0) then Inr None
                  else if \<not> columnValuesEqual (colValue ex) (colValue incoming)
                  then Inl (Error ''Conflicting values share HLC'')
                  else Inr None)))"

definition blankRow :: "string \<Rightarrow> string \<Rightarrow> int \<Rightarrow> bool \<Rightarrow> string option \<Rightarrow> row" where
  "blankRow table rowId schemaVersion deleted deletedHlc =
     \<lparr>meta = \<lparr>rmTable = table, rmRowId = rowId, rmDeleted = deleted, rmDeletedHlc = deletedHlc,
              rmSchemaVersion = schemaVersion, rmOwner = None, rmKey = None\<rparr>,
      payload = []\<rparr>"

section \<open>Applying operations\<close>

definition getTable :: "tables \<Rightarrow> string \<Rightarrow> (string \<times> row) list" where
  "getTable tbls t = (case map_of tbls t of None \<Rightarrow> [] | Some tb \<Rightarrow> tb)"

definition getRow :: "tables \<Rightarrow> string \<Rightarrow> string \<Rightarrow> row option" where
  "getRow tbls t r = map_of (getTable tbls t) r"

definition setRow :: "tables \<Rightarrow> string \<Rightarrow> string \<Rightarrow> row \<Rightarrow> tables" where
  "setRow tbls t r x = AList.update t (AList.update r x (getTable tbls t)) tbls"

definition ensureTable :: "tables \<Rightarrow> string \<Rightarrow> tables" where
  "ensureTable tbls t = (case map_of tbls t of None \<Rightarrow> AList.update t [] tbls | Some _ \<Rightarrow> tbls)"

definition truthyHlc :: "string option \<Rightarrow> string option" where
  "truthyHlc h = (case h of Some s \<Rightarrow> if s = '''' then None else Some s | None \<Rightarrow> None)"

definition hasNewerColumn :: "columns \<Rightarrow> string \<Rightarrow> bool" where
  "hasNewerColumn cols h =
     list_ex (\<lambda>(_, e). colHlc e \<noteq> '''' \<and> jgt (hlcCompareStr (colHlc e) h) (Num 0)) cols"

definition applyDelete :: "row \<Rightarrow> string \<Rightarrow> row option" where
  "applyDelete x h =
     (if (case truthyHlc (rmDeletedHlc (meta x)) of
            Some d \<Rightarrow> jle (hlcCompareStr h d) (Num 0) | None \<Rightarrow> False) then None
      else if hasNewerColumn (payload x) h then None
      else Some (x\<lparr>meta := (meta x)\<lparr>rmDeleted := True, rmDeletedHlc := Some h\<rparr>, payload := []\<rparr>))"

text \<open>The column loop: it stops at the first throw and keeps what it wrote.\<close>

fun applyColumns ::
  "db_schema option \<Rightarrow> string \<Rightarrow> string \<Rightarrow> row \<Rightarrow> bool \<Rightarrow> columns \<Rightarrow> row \<times> bool result"
where
  "applyColumns schema t r x changed [] = (x, Inr changed)"
| "applyColumns schema t r x changed ((col, entry) # rest) =
     (case bind_result (resolveStrategy schema t col)
             (\<lambda>st. mergeColumn (map_of (payload x) col) entry st \<lparr>mcTable = t, mcRowId = r, mcField = col\<rparr>) of
        Inl e \<Rightarrow> (x, Inl e)
      | Inr None \<Rightarrow> applyColumns schema t r x changed rest
      | Inr (Some winner) \<Rightarrow>
          applyColumns schema t r (x\<lparr>payload := AList.update col winner (payload x)\<rparr>) True rest)"

text \<open>
  The upsert on the row it found or made: the tombstone filter first, then the column loop. The
  flag says whether the row is new.
\<close>

definition applyUpsert ::
  "db_schema option \<Rightarrow> string \<Rightarrow> string \<Rightarrow> row \<Rightarrow> bool \<Rightarrow> columns \<Rightarrow> row \<times> bool result"
where
  "applyUpsert schema t r x fresh cols =
     (case (if rmDeleted (meta x) then truthyHlc (rmDeletedHlc (meta x)) else None) of
        None \<Rightarrow> applyColumns schema t r x fresh cols
      | Some deletedHlc \<Rightarrow>
          (let kept = filter (\<lambda>(_, e). jgt (hlcCompareStr (colHlc e) deletedHlc) (Num 0)) cols in
           if kept = [] then (x, Inr False)
           else applyColumns schema t r
                  (x\<lparr>meta := (meta x)\<lparr>rmDeleted := False, rmDeletedHlc := None\<rparr>, payload := []\<rparr>) True kept))"

fun applyOp :: "tables \<Rightarrow> op \<Rightarrow> int \<Rightarrow> db_schema option \<Rightarrow> tables \<times> row option result" where
  "applyOp tbls (Delete t r h) sv schema =
     (let tbls' = ensureTable tbls t in
      case getRow tbls' t r of
        Some existing \<Rightarrow>
          (case applyDelete existing h of
             None \<Rightarrow> (tbls', Inr None)
           | Some x \<Rightarrow> (setRow tbls' t r x, Inr (Some x)))
      | None \<Rightarrow>
          (let x = blankRow t r sv True (Some h) in (setRow tbls' t r x, Inr (Some x))))"
| "applyOp tbls (Upsert t r cols) sv schema =
     (let tbls' = ensureTable tbls t;
          found = getRow tbls' t r;
          x0 = (case found of Some x \<Rightarrow> x | None \<Rightarrow> blankRow t r sv False None)
      in case applyUpsert schema t r x0 (found = None) cols of
           (x, Inl e) \<Rightarrow> (setRow tbls' t r x, Inl e)
         | (x, Inr changed) \<Rightarrow> (setRow tbls' t r x, Inr (if changed then Some x else None)))"

text \<open>
  The loop over the operations collects which rows were affected. The code collects references
  into the tables, so a row two operations touched is listed twice in its final state.
\<close>

fun applyOps :: "tables \<Rightarrow> op list \<Rightarrow> int \<Rightarrow> db_schema option \<Rightarrow> tables \<times> (string \<times> string) list result" where
  "applyOps tbls [] sv schema = (tbls, Inr [])"
| "applyOps tbls (o1 # os) sv schema =
     (case applyOp tbls o1 sv schema of
        (tbls', Inl e) \<Rightarrow> (tbls', Inl e)
      | (tbls', Inr a) \<Rightarrow>
          (case applyOps tbls' os sv schema of
             (tbls'', Inl e) \<Rightarrow> (tbls'', Inl e)
           | (tbls'', Inr refs) \<Rightarrow>
               (tbls'', Inr (if a = None then refs else (opTable o1, opRowId o1) # refs))))"

definition applyChangeEntry ::
  "tables \<Rightarrow> change_entry \<Rightarrow> int \<Rightarrow> db_schema option \<Rightarrow> tables \<times> row list result"
where
  "applyChangeEntry tbls entry sv schema =
     (case applyOps tbls (ceOps entry) sv schema of
        (tbls', Inl e) \<Rightarrow> (tbls', Inl e)
      | (tbls', Inr refs) \<Rightarrow> (tbls', Inr (List.map_filter (\<lambda>(t, r). getRow tbls' t r) refs)))"

section \<open>Reading rows\<close>

definition readColumn :: "row \<Rightarrow> string \<Rightarrow> jsval" where
  "readColumn x col = (case map_of (payload x) col of None \<Rightarrow> JUndefined | Some e \<Rightarrow> colValue e)"

definition rowToPlain :: "row \<Rightarrow> (string \<times> jsval) list" where
  "rowToPlain x =
     fold (\<lambda>(k, e) acc. AList.update k (colValue e) acc) (payload x)
       [(''_table'', JStr (rmTable (meta x))), (''_rowId'', JStr (rmRowId (meta x))),
        (''_deleted'', JBool (rmDeleted (meta x)))]"

end
