(* ===== verification/Crdt_Convergence.thy ===== *)
theory Crdt_Convergence
  imports Crdt
begin

text \<open>
  What replicas that applied the same operations agree on. The library part relates
  \<open>applyOp\<close> to its effect on one row, and one row's history to an invariant that depends only on
  the set of operations applied, never on their order or repetition: a row is a tombstone exactly
  when its newest delete is not older than any column ever written, and a live row holds, for every
  column with an entry newer than all deletes, the entry with the greatest clock.
\<close>

section \<open>Reading and writing rows of the tables\<close>

lemma getRow_setRow [crdt_simps]:
  "getRow (setRow tbls t r x) t' r' = (if t' = t \<and> r' = r then Some x else getRow tbls t' r')"
  by (auto simp: getRow_def setRow_def getTable_def split: option.split)

lemma getRow_ensureTable [crdt_simps]: "getRow (ensureTable tbls t) t' r' = getRow tbls t' r'"
  by (auto simp: getRow_def ensureTable_def getTable_def split: option.split)

lemma getRow_empty [simp]: "getRow [] t r = None"
  by (simp add: getRow_def getTable_def)

section \<open>The effect of an operation on its row\<close>

definition rowBefore :: "int \<Rightarrow> op \<Rightarrow> row option \<Rightarrow> row" where
  "rowBefore sv o1 found =
     (case found of Some x \<Rightarrow> x | None \<Rightarrow> blankRow (opTable o1) (opRowId o1) sv False None)"

fun rowAfter :: "int \<Rightarrow> db_schema option \<Rightarrow> op \<Rightarrow> row option \<Rightarrow> row" where
  "rowAfter sv schema (Delete t r h) found =
     (case found of None \<Rightarrow> blankRow t r sv True (Some h)
      | Some x \<Rightarrow> (case applyDelete x h of None \<Rightarrow> x | Some y \<Rightarrow> y))"
| "rowAfter sv schema (Upsert t r cols) found =
     fst (applyUpsert schema t r (rowBefore sv (Upsert t r cols) found) (found = None) cols)"

lemma getRow_applyOp:
  "getRow (fst (applyOp tbls o1 sv schema)) t r =
     (if opTable o1 = t \<and> opRowId o1 = r then Some (rowAfter sv schema o1 (getRow tbls t r))
      else getRow tbls t r)"
  by (cases o1)
     (auto simp: Let_def crdt_simps rowBefore_def split: option.splits sum.splits prod.splits)

section \<open>Last writer wins on one column\<close>

definition wfEntry :: "column_entry \<Rightarrow> bool" where
  "wfEntry e = (stampOk (colHlc e) \<and> wfValue (colValue e))"

definition lwwMax :: "column_entry \<Rightarrow> column_entry \<Rightarrow> column_entry" where
  "lwwMax a b = (if stampKey (colHlc a) < stampKey (colHlc b) then b else a)"

text \<open>Two entries of one column never share a stamp with different values.\<close>

definition compatible :: "(string \<times> column_entry) set \<Rightarrow> bool" where
  "compatible C = (\<forall>c a b. (c, a) \<in> C \<longrightarrow> (c, b) \<in> C \<longrightarrow> colHlc a = colHlc b \<longrightarrow> a = b)"

lemma compatible_mono: "compatible D \<Longrightarrow> C \<subseteq> D \<Longrightarrow> compatible C"
  unfolding compatible_def by blast

lemma compatible_key:
  assumes "compatible C" "(c, a) \<in> C" "(c, b) \<in> C" "wfEntry a" "wfEntry b"
    and "stampKey (colHlc a) = stampKey (colHlc b)"
  shows "a = b"
  using assms stamp.key_inject unfolding compatible_def wfEntry_def by blast

lemma mergeColumn_lww:
  assumes "wfEntry a" "wfEntry b" "colHlc a = colHlc b \<Longrightarrow> a = b"
  shows "mergeColumn (Some a) b Lww ctx =
    Inr (if stampKey (colHlc a) < stampKey (colHlc b) then Some b else None)"
proof -
  have ok: "stampOk (colHlc a)" "stampOk (colHlc b)" "wfValue (colValue a)"
    using assms by (simp_all add: wfEntry_def)
  have "a = b" if "stampKey (colHlc a) = stampKey (colHlc b)"
    using that ok assms(3) stamp.key_inject by blast
  with ok show ?thesis
    by (auto simp: mergeColumn_def Let_def stamp_simps)
qed

definition lwwSchema :: "db_schema option \<Rightarrow> bool" where
  "lwwSchema schema \<longleftrightarrow> (\<forall>t c. resolveStrategy schema t c = Inr Lww)"

lemma lwwSchema_None [simp]: "lwwSchema None"
  by (simp add: lwwSchema_def resolveStrategy_def tableMerge_def databaseStrategy_def)

definition joinColumn :: "column_entry option \<Rightarrow> column_entry option \<Rightarrow> column_entry option" where
  "joinColumn old new =
     (case new of None \<Rightarrow> old | Some e \<Rightarrow> (case old of None \<Rightarrow> Some e | Some e0 \<Rightarrow> Some (lwwMax e0 e)))"

lemma applyColumns_lww:
  assumes "lwwSchema schema" "distinct (map fst cols)" "distinct (map fst (payload x))"
    and "compatible (set (payload x) \<union> set cols)"
    and "\<forall>(c, e) \<in> set (payload x) \<union> set cols. wfEntry e"
  shows "\<exists>y ch'. applyColumns schema t r x ch cols = (y, Inr ch') \<and> meta y = meta x
    \<and> distinct (map fst (payload y)) \<and> set (payload y) \<subseteq> set (payload x) \<union> set cols
    \<and> (\<forall>c. map_of (payload y) c = joinColumn (map_of (payload x) c) (map_of cols c))"
  using assms
proof (induction cols arbitrary: x ch)
  case Nil
  then show ?case by (simp add: joinColumn_def)
next
  case (Cons f cols)
  obtain c e where f: "f = (c, e)" by (cases f)
  have lww: "resolveStrategy schema t c = Inr Lww" using Cons.prems(1) by (simp add: lwwSchema_def)
  have fresh: "map_of cols c = None" using Cons.prems(2) by (simp add: f map_of_eq_None_iff)
  define x' where "x' = x\<lparr>payload := AList.update c e (payload x)\<rparr>"
  have sub': "set (payload x') \<subseteq> set (payload x) \<union> set (f # cols)"
    using set_alist_update [of c e "payload x"] by (auto simp: x'_def f)
  have IH': "\<exists>y ch'. applyColumns schema t r x' True cols = (y, Inr ch') \<and> meta y = meta x'
      \<and> distinct (map fst (payload y)) \<and> set (payload y) \<subseteq> set (payload x') \<union> set cols
      \<and> (\<forall>c. map_of (payload y) c = joinColumn (map_of (payload x') c) (map_of cols c))"
  proof (rule Cons.IH)
    show "distinct (map fst (payload x'))"
      using Cons.prems(3) by (simp add: x'_def distinct_update)
    show "compatible (set (payload x') \<union> set cols)"
      using Cons.prems(4) by (rule compatible_mono) (use sub' in auto)
    show "\<forall>(c, e) \<in> set (payload x') \<union> set cols. wfEntry e"
      using Cons.prems(5) sub' by auto
  qed (use Cons.prems in \<open>auto simp: f\<close>)
  have IH: "\<exists>y ch'. applyColumns schema t r x ch cols = (y, Inr ch') \<and> meta y = meta x
      \<and> distinct (map fst (payload y)) \<and> set (payload y) \<subseteq> set (payload x) \<union> set cols
      \<and> (\<forall>c. map_of (payload y) c = joinColumn (map_of (payload x) c) (map_of cols c))"
    by (rule Cons.IH) (use Cons.prems in \<open>auto simp: f elim: compatible_mono\<close>)
  show ?case
  proof (cases "map_of (payload x) c")
    case None
    then have "applyColumns schema t r x ch (f # cols) = applyColumns schema t r x' True cols"
      by (simp add: f lww mergeColumn_def x'_def)
    with IH' sub' None fresh show ?thesis by (fastforce simp: x'_def f joinColumn_def)
  next
    case (Some a)
    have mem: "(c, a) \<in> set (payload x) \<union> set (f # cols)" "(c, e) \<in> set (payload x) \<union> set (f # cols)"
      using map_of_SomeD [OF Some] by (auto simp: f)
    then have "wfEntry a" "wfEntry e" "colHlc a = colHlc e \<Longrightarrow> a = e"
      using Cons.prems(4,5) unfolding compatible_def by blast+
    note merge = mergeColumn_lww [OF this]
    show ?thesis
    proof (cases "stampKey (colHlc a) < stampKey (colHlc e)")
      case True
      then have "applyColumns schema t r x ch (f # cols) = applyColumns schema t r x' True cols"
        by (simp add: f lww Some merge x'_def)
      with IH' sub' Some fresh True show ?thesis
        by (fastforce simp: x'_def f joinColumn_def lwwMax_def)
    next
      case False
      then have "applyColumns schema t r x ch (f # cols) = applyColumns schema t r x ch cols"
        by (simp add: f lww Some merge)
      with IH Some fresh False show ?thesis by (fastforce simp: f joinColumn_def lwwMax_def)
    qed
  qed
qed

section \<open>The history of a row\<close>

fun opCols :: "op \<Rightarrow> (string \<times> column_entry) set" where
  "opCols (Upsert t r cols) = set cols"
| "opCols (Delete t r h) = {}"

fun opDels :: "op \<Rightarrow> string set" where
  "opDels (Upsert t r cols) = {}"
| "opDels (Delete t r h) = {h}"

fun wfOp :: "op \<Rightarrow> bool" where
  "wfOp (Upsert t r cols) = (distinct (map fst cols) \<and> list_all (\<lambda>(c, e). wfEntry e) cols)"
| "wfOp (Delete t r h) = stampOk h"

definition onRow :: "string \<Rightarrow> string \<Rightarrow> op \<Rightarrow> bool" where
  "onRow t r o1 = (opTable o1 = t \<and> opRowId o1 = r)"

definition rowCols :: "string \<Rightarrow> string \<Rightarrow> op list \<Rightarrow> (string \<times> column_entry) set" where
  "rowCols t r ops = (\<Union>o1 \<in> set (filter (onRow t r) ops). opCols o1)"

definition rowDels :: "string \<Rightarrow> string \<Rightarrow> op list \<Rightarrow> string set" where
  "rowDels t r ops = (\<Union>o1 \<in> set (filter (onRow t r) ops). opDels o1)"

abbreviation stampLt :: "string \<Rightarrow> string \<Rightarrow> bool" where
  "stampLt a b \<equiv> stampKey a < stampKey b"

abbreviation stampLe :: "string \<Rightarrow> string \<Rightarrow> bool" where
  "stampLe a b \<equiv> stampKey a \<le> stampKey b"

text \<open>An entry no delete of the history covers.\<close>

definition survives :: "string set \<Rightarrow> column_entry \<Rightarrow> bool" where
  "survives D e \<longleftrightarrow> (\<forall>d \<in> D. stampLt d (colHlc e))"

definition tombInv :: "(string \<times> column_entry) set \<Rightarrow> string set \<Rightarrow> row \<Rightarrow> bool" where
  "tombInv C D x \<longleftrightarrow> payload x = []
     \<and> (\<exists>d \<in> D. rmDeletedHlc (meta x) = Some d \<and> (\<forall>d' \<in> D. stampLe d' d)
          \<and> (\<forall>(c, e) \<in> C. stampLe (colHlc e) d))"

definition liveInv :: "(string \<times> column_entry) set \<Rightarrow> string set \<Rightarrow> row \<Rightarrow> bool" where
  "liveInv C D x \<longleftrightarrow> rmDeletedHlc (meta x) = None \<and> distinct (map fst (payload x)) \<and> set (payload x) \<subseteq> C
     \<and> (\<forall>(c, e) \<in> C. survives D e \<longrightarrow>
          (\<exists>e'. map_of (payload x) c = Some e' \<and> stampLe (colHlc e) (colHlc e')))
     \<and> (D = {} \<or> (\<exists>(c, e) \<in> C. survives D e))"

definition rowInv :: "(string \<times> column_entry) set \<Rightarrow> string set \<Rightarrow> row option \<Rightarrow> bool" where
  "rowInv C D st =
     (case st of None \<Rightarrow> C = {} \<and> D = {}
      | Some x \<Rightarrow> if rmDeleted (meta x) then tombInv C D x else liveInv C D x)"

definition wfHistory :: "(string \<times> column_entry) set \<Rightarrow> string set \<Rightarrow> bool" where
  "wfHistory C D \<longleftrightarrow> compatible C \<and> (\<forall>(c, e) \<in> C. wfEntry e) \<and> (\<forall>d \<in> D. stampOk d)"

lemma survives_insert [simp]: "survives (insert d D) e \<longleftrightarrow> stampLt d (colHlc e) \<and> survives D e"
  by (auto simp: survives_def)

lemma truthyHlc_stamp [simp]: "stampOk d \<Longrightarrow> truthyHlc (Some d) = Some d"
  by (auto simp: truthyHlc_def)

lemma hasNewerColumn_iff:
  assumes "\<forall>(c, e) \<in> set cols. wfEntry e" "stampOk h"
  shows "hasNewerColumn cols h \<longleftrightarrow> (\<exists>(c, e) \<in> set cols. stampLt h (colHlc e))"
  unfolding hasNewerColumn_def list_ex_iff using assms
  by (intro bex_cong refl) (auto simp: wfEntry_def stamp_simps)

subsection \<open>A delete keeps the invariant\<close>

lemma applyDelete_tomb:
  assumes "tombInv C D x" "wfHistory C (insert h D)"
  shows "tombInv C (insert h D) (case applyDelete x h of None \<Rightarrow> x | Some y \<Rightarrow> y)
    \<and> (rmDeleted (meta x) \<longrightarrow> rmDeleted (meta (case applyDelete x h of None \<Rightarrow> x | Some y \<Rightarrow> y)))"
proof -
  from assms obtain d where d: "d \<in> D" "rmDeletedHlc (meta x) = Some d" "payload x = []"
    "\<forall>d' \<in> D. stampLe d' d" "\<forall>(c, e) \<in> C. stampLe (colHlc e) d"
    by (auto simp: tombInv_def)
  have ok: "stampOk d" "stampOk h" using assms d by (auto simp: wfHistory_def)
  show ?thesis
  proof (cases "stampLe h d")
    case True
    with d ok show ?thesis by (auto simp: applyDelete_def stamp_simps tombInv_def)
  next
    case False
    then have "stampLe d h" by simp
    with False d ok show ?thesis
      by (auto simp: applyDelete_def stamp_simps tombInv_def hasNewerColumn_def
          intro: order_trans [OF _ \<open>stampLe d h\<close>])
  qed
qed

lemma liveInv_covered:
  assumes "liveInv C D x" and "\<forall>(c, e) \<in> set (payload x). stampLe (colHlc e) h"
  shows "(\<forall>d' \<in> D. stampLe d' h) \<and> (\<forall>(c, e) \<in> C. stampLe (colHlc e) h)"
proof -
  have top: "stampLe (colHlc e) h" if "(c, e) \<in> C" "survives D e" for c e
  proof -
    from assms(1) that obtain e' where "map_of (payload x) c = Some e'" "stampLe (colHlc e) (colHlc e')"
      by (fastforce simp: liveInv_def)
    then show ?thesis using assms(2) map_of_SomeD by (fastforce intro: order_trans)
  qed
  have dels: "stampLe d' h" if "d' \<in> D" for d'
    using assms(1) that top by (fastforce simp: liveInv_def survives_def)
  have "stampLe (colHlc e) h" if "(c, e) \<in> C" for c e
  proof (cases "survives D e")
    case True
    with that show ?thesis by (rule top)
  next
    case False
    then show ?thesis using dels by (fastforce simp: survives_def not_less intro: order_trans)
  qed
  with dels show ?thesis by blast
qed

lemma applyDelete_live:
  assumes inv: "liveInv C D x" and wf: "wfHistory C (insert h D)" and nd: "\<not> rmDeleted (meta x)"
  shows "rowInv C (insert h D) (Some (case applyDelete x h of None \<Rightarrow> x | Some y \<Rightarrow> y))"
proof -
  have wfp: "\<forall>(c, e) \<in> set (payload x). wfEntry e" and ok: "stampOk h" and nh: "rmDeletedHlc (meta x) = None"
    using inv wf by (auto simp: liveInv_def wfHistory_def)
  note newer = hasNewerColumn_iff [OF wfp ok]
  show ?thesis
  proof (cases "hasNewerColumn (payload x) h")
    case True
    then obtain c e where e: "(c, e) \<in> set (payload x)" "stampLt h (colHlc e)" using newer by auto
    have "\<exists>(c, e) \<in> C. survives (insert h D) e"
    proof (cases "D = {}")
      case True
      with e inv show ?thesis by (force simp: liveInv_def survives_def)
    next
      case False
      then obtain c0 e0 where e0: "(c0, e0) \<in> C" "survives D e0" using inv by (auto simp: liveInv_def)
      show ?thesis
      proof (cases "stampLt h (colHlc e0)")
        case True
        with e0 show ?thesis by auto
      next
        case False
        with e have "stampLt (colHlc e0) (colHlc e)" by simp
        then have "survives D e" using e0 by (fastforce simp: survives_def intro: less_trans)
        with e inv show ?thesis by (force simp: liveInv_def)
      qed
    qed
    moreover have "applyDelete x h = None"
      using True nh by (simp add: applyDelete_def truthyHlc_def)
    ultimately show ?thesis
      using inv nd by (fastforce simp: rowInv_def liveInv_def)
  next
    case False
    then have "\<forall>(c, e) \<in> set (payload x). stampLe (colHlc e) h" using newer by (fastforce simp: not_less)
    from liveInv_covered [OF inv this] False nh show ?thesis
      by (auto simp: rowInv_def applyDelete_def truthyHlc_def tombInv_def)
  qed
qed

subsection \<open>An upsert keeps the invariant\<close>

lemma joinColumn_ge:
  assumes "joinColumn old new = Some e"
  shows "old = Some a \<Longrightarrow> stampLe (colHlc a) (colHlc e)" "new = Some a \<Longrightarrow> stampLe (colHlc a) (colHlc e)"
  using assms by (auto simp: joinColumn_def lwwMax_def split: option.splits if_splits)

lemma applyColumns_live:
  assumes lww: "lwwSchema schema" and wf: "wfHistory (C \<union> set cols) D" and d: "distinct (map fst cols)"
    and inv: "liveInv C D x" and nd: "\<not> rmDeleted (meta x)"
  shows "\<exists>y ch'. applyColumns schema t r x ch cols = (y, Inr ch') \<and> rowInv (C \<union> set cols) D (Some y)"
proof -
  have sub: "set (payload x) \<subseteq> C" and dp: "distinct (map fst (payload x))"
    using inv by (auto simp: liveInv_def)
  have "\<exists>y ch'. applyColumns schema t r x ch cols = (y, Inr ch') \<and> meta y = meta x
    \<and> distinct (map fst (payload y)) \<and> set (payload y) \<subseteq> set (payload x) \<union> set cols
    \<and> (\<forall>c. map_of (payload y) c = joinColumn (map_of (payload x) c) (map_of cols c))"
    using wf sub by (intro applyColumns_lww lww d dp)
      (auto simp: wfHistory_def elim: compatible_mono)
  then obtain y ch' where y: "applyColumns schema t r x ch cols = (y, Inr ch')" "meta y = meta x"
    "distinct (map fst (payload y))" "set (payload y) \<subseteq> set (payload x) \<union> set cols"
    and m: "\<And>c. map_of (payload y) c = joinColumn (map_of (payload x) c) (map_of cols c)"
    by blast
  have top: "\<exists>e'. map_of (payload y) c = Some e' \<and> stampLe (colHlc e) (colHlc e')"
    if "(c, e) \<in> C \<union> set cols" "survives D e" for c e
  proof (cases "(c, e) \<in> set cols")
    case True
    then have new: "map_of cols c = Some e" using d by simp
    then obtain e' where e': "map_of (payload y) c = Some e'"
      using m [of c] by (cases "map_of (payload x) c") (auto simp: joinColumn_def)
    then have "stampLe (colHlc e) (colHlc e')" using m [of c] new by (auto dest: joinColumn_ge(2))
    with e' show ?thesis by blast
  next
    case False
    with that inv obtain a where a: "map_of (payload x) c = Some a" "stampLe (colHlc e) (colHlc a)"
      by (fastforce simp: liveInv_def)
    then obtain e' where e': "map_of (payload y) c = Some e'"
      using m [of c] by (cases "map_of cols c") (auto simp: joinColumn_def)
    then have "stampLe (colHlc a) (colHlc e')" using m [of c] a(1) by (auto dest: joinColumn_ge(1))
    with e' a(2) show ?thesis by (blast intro: order_trans)
  qed
  have "liveInv (C \<union> set cols) D y"
    unfolding liveInv_def
  proof (intro conjI)
    show "rmDeletedHlc (meta y) = None" using inv y by (simp add: liveInv_def)
    show "set (payload y) \<subseteq> C \<union> set cols" using y sub by auto
    show "D = {} \<or> (\<exists>(c, e) \<in> C \<union> set cols. survives D e)" using inv by (auto simp: liveInv_def)
  qed (use y top in auto)
  then show ?thesis using y nd by (auto simp: rowInv_def)
qed

lemma applyUpsert_tomb:
  assumes lww: "lwwSchema schema" and wf: "wfHistory (C \<union> set cols) D" and d: "distinct (map fst cols)"
    and inv: "tombInv C D x" and del: "rmDeleted (meta x)"
  shows "\<exists>y ch'. applyUpsert schema t r x fresh cols = (y, Inr ch') \<and> rowInv (C \<union> set cols) D (Some y)"
proof -
  from inv obtain h where h: "h \<in> D" "rmDeletedHlc (meta x) = Some h" "payload x = []"
    "\<forall>d' \<in> D. stampLe d' h" "\<forall>(c, e) \<in> C. stampLe (colHlc e) h"
    by (auto simp: tombInv_def)
  have okh: "stampOk h" using wf h by (auto simp: wfHistory_def)
  define kept where "kept = filter (\<lambda>(_, e). jgt (hlcCompareStr (colHlc e) h) (Num 0)) cols"
  have kept: "set kept = {(c, e) \<in> set cols. stampLt h (colHlc e)}"
  proof -
    have "jgt (hlcCompareStr (colHlc e) h) (Num 0) \<longleftrightarrow> stampLt h (colHlc e)" if "(c, e) \<in> set cols" for c e
      using that wf okh by (intro stamp.gt0) (auto simp: wfHistory_def wfEntry_def)
    then show ?thesis by (auto simp: kept_def)
  qed
  show ?thesis
  proof (cases "kept = []")
    case True
    then have old: "\<forall>(c, e) \<in> set cols. stampLe (colHlc e) h" using kept by (auto simp: not_less)
    have "applyUpsert schema t r x fresh cols = (x, Inr False)"
      using True h okh del by (simp add: applyUpsert_def kept_def)
    moreover have "tombInv (C \<union> set cols) D x"
      using h old by (fastforce simp: tombInv_def)
    ultimately show ?thesis
      using del by (intro exI [of _ x] exI [of _ False]) (simp add: rowInv_def)
  next
    case False
    let ?x = "x\<lparr>meta := (meta x)\<lparr>rmDeleted := False, rmDeletedHlc := None\<rparr>, payload := []\<rparr>"
    have surv: "survives D e \<longleftrightarrow> stampLt h (colHlc e)" for e
      using h by (force simp: survives_def intro: order_le_less_trans)
    have dk: "distinct (map fst kept)" using d by (simp add: kept_def distinct_map_filter)
    have "liveInv {} {} ?x" by (simp add: liveInv_def)
    then have "\<exists>y ch'. applyColumns schema t r ?x True kept = (y, Inr ch') \<and> rowInv ({} \<union> set kept) {} (Some y)"
      using wf kept by (intro applyColumns_live lww dk) (auto simp: wfHistory_def elim: compatible_mono)
    then obtain y ch' where y: "applyColumns schema t r ?x True kept = (y, Inr ch')" "rowInv (set kept) {} (Some y)"
      by auto
    have eq: "applyUpsert schema t r x fresh cols = (y, Inr ch')"
      using False h okh del y by (simp add: applyUpsert_def kept_def [symmetric] Let_def)
    have live: "\<not> rmDeleted (meta y)" "liveInv (set kept) {} y"
      using y(2) by (auto simp: rowInv_def tombInv_def split: if_splits)
    have kept_of: "(c, e) \<in> set kept" if "(c, e) \<in> C \<union> set cols" "survives D e" for c e
      using that h surv kept by fastforce
    obtain c0 e0 where "(c0, e0) \<in> set kept" using False by (cases kept) auto
    then have "(c0, e0) \<in> C \<union> set cols" "survives D e0" using kept surv by auto
    then have ex: "\<exists>(c, e) \<in> C \<union> set cols. survives D e" by blast
    have "liveInv (C \<union> set cols) D y"
      unfolding liveInv_def
    proof (intro conjI)
      show "rmDeletedHlc (meta y) = None" "distinct (map fst (payload y))" "set (payload y) \<subseteq> C \<union> set cols"
        using live(2) kept by (auto simp: liveInv_def)
      have "survives {} e" for e by (simp add: survives_def)
      then show "\<forall>(c, e) \<in> C \<union> set cols. survives D e \<longrightarrow>
          (\<exists>e'. map_of (payload y) c = Some e' \<and> stampLe (colHlc e) (colHlc e'))"
        using live(2) kept_of unfolding liveInv_def by blast
    qed (use ex in blast)
    with live eq show ?thesis by (auto simp: rowInv_def)
  qed
qed

subsection \<open>Whole histories\<close>

lemma wfOp_opCols: "wfOp o1 \<Longrightarrow> (c, e) \<in> opCols o1 \<Longrightarrow> wfEntry e"
  by (cases o1) (auto simp: list_all_iff)

lemma applyUpsert_inv:
  assumes "lwwSchema schema" "wfHistory (C \<union> set cols) D" "distinct (map fst cols)" "rowInv C D found"
  shows "\<exists>y ch'. applyUpsert schema t r (rowBefore sv (Upsert t r cols) found) (found = None) cols = (y, Inr ch')
    \<and> rowInv (C \<union> set cols) D (Some y)"
proof (cases found)
  case None
  let ?x = "rowBefore sv (Upsert t r cols) None"
  have "C = {}" "D = {}" using assms(4) None by (simp_all add: rowInv_def)
  moreover have "liveInv {} {} ?x" "\<not> rmDeleted (meta ?x)"
    by (simp_all add: liveInv_def rowBefore_def blankRow_def)
  moreover have "applyUpsert schema t r ?x True cols = applyColumns schema t r ?x True cols"
    by (simp add: applyUpsert_def rowBefore_def blankRow_def)
  ultimately show ?thesis using applyColumns_live [of schema "{}" cols "{}" ?x] assms None by simp
next
  case (Some x)
  show ?thesis
  proof (cases "rmDeleted (meta x)")
    case True
    then show ?thesis
      using applyUpsert_tomb [OF assms(1-3), of x] assms(4) Some by (simp add: rowInv_def rowBefore_def)
  next
    case False
    then have "applyUpsert schema t r x fresh cols = applyColumns schema t r x fresh cols" for fresh
      by (simp add: applyUpsert_def)
    then show ?thesis
      using applyColumns_live [OF assms(1-3), of x] assms(4) Some False
      by (simp add: rowInv_def rowBefore_def)
  qed
qed

lemma rowAfter_inv:
  assumes "lwwSchema schema" "wfOp o1" "rowInv C D found" "wfHistory (C \<union> opCols o1) (D \<union> opDels o1)"
  shows "rowInv (C \<union> opCols o1) (D \<union> opDels o1) (Some (rowAfter sv schema o1 found))"
proof (cases o1)
  case (Upsert t r cols)
  have "wfHistory (C \<union> set cols) D" "distinct (map fst cols)" using assms(2,4) Upsert by simp_all
  from applyUpsert_inv [OF assms(1) this assms(3), of t r sv] show ?thesis using Upsert by auto
next
  case (Delete t r h)
  have wf: "wfHistory C (insert h D)" using assms(4) Delete by simp
  show ?thesis
  proof (cases found)
    case None
    then show ?thesis using assms(3) Delete by (simp add: rowInv_def tombInv_def blankRow_def)
  next
    case (Some x)
    show ?thesis
    proof (cases "rmDeleted (meta x)")
      case True
      then show ?thesis
        using applyDelete_tomb [OF _ wf, of x] assms(3) Some Delete by (simp add: rowInv_def)
    next
      case False
      then show ?thesis
        using applyDelete_live [OF _ wf, of x] assms(3) Some Delete by (simp add: rowInv_def [of C D])
    qed
  qed
qed

lemma applyOp_ok:
  assumes "lwwSchema schema" "wfOp o1" "rowInv C D (getRow tbls (opTable o1) (opRowId o1))"
    "wfHistory (C \<union> opCols o1) (D \<union> opDels o1)"
  shows "isOk (snd (applyOp tbls o1 sv schema))"
proof (cases o1)
  case (Upsert t r cols)
  have "wfHistory (C \<union> set cols) D" "distinct (map fst cols)" using assms(2,4) Upsert by simp_all
  from applyUpsert_inv [OF assms(1) this assms(3), of t r sv] Upsert show ?thesis
    by (auto simp: Let_def crdt_simps rowBefore_def split: option.splits)
next
  case (Delete t r h)
  then show ?thesis by (auto simp: Let_def split: option.splits)
qed

lemma rowCols_Cons:
  "rowCols t r (o1 # ops) = (if onRow t r o1 then opCols o1 \<union> rowCols t r ops else rowCols t r ops)"
  "rowDels t r (o1 # ops) = (if onRow t r o1 then opDels o1 \<union> rowDels t r ops else rowDels t r ops)"
  by (simp_all add: rowCols_def rowDels_def)

text \<open>Well-formed operations whose column entries never conflict, row by row.\<close>

definition wfOps :: "op list \<Rightarrow> bool" where
  "wfOps ops \<longleftrightarrow> (\<forall>o1 \<in> set ops. wfOp o1) \<and> (\<forall>t r. compatible (rowCols t r ops))"

lemma wfHistory_ops: "wfOps ops \<Longrightarrow> wfHistory (rowCols t r ops) (rowDels t r ops)"
proof -
  assume "wfOps ops"
  moreover have "stampOk d" if "wfOp o1" "d \<in> opDels o1" for o1 d using that by (cases o1) auto
  ultimately show ?thesis
    by (fastforce simp: wfHistory_def wfOps_def rowCols_def rowDels_def intro: wfOp_opCols)
qed

text \<open>Only the rows the operations are about have to satisfy the invariant.\<close>

lemma applyOps_inv_on:
  assumes "lwwSchema schema" "\<forall>o1 \<in> set ops. wfOp o1 \<and> P (opTable o1) (opRowId o1)"
    "\<And>t r. P t r \<Longrightarrow> rowInv (C t r) (D t r) (getRow tbls t r)"
    "\<And>t r. wfHistory (C t r \<union> rowCols t r ops) (D t r \<union> rowDels t r ops)"
  shows "isOk (snd (applyOps tbls ops sv schema))
    \<and> (P t r \<longrightarrow> rowInv (C t r \<union> rowCols t r ops) (D t r \<union> rowDels t r ops)
        (getRow (fst (applyOps tbls ops sv schema)) t r))"
  using assms
proof (induction ops arbitrary: tbls C D)
  case Nil
  then show ?case by (simp add: rowCols_def rowDels_def)
next
  case (Cons o1 ops)
  let ?C = "\<lambda>t r. if onRow t r o1 then C t r \<union> opCols o1 else C t r"
  let ?D = "\<lambda>t r. if onRow t r o1 then D t r \<union> opDels o1 else D t r"
  have unions: "?C t r \<union> rowCols t r ops = C t r \<union> rowCols t r (o1 # ops)"
    "?D t r \<union> rowDels t r ops = D t r \<union> rowDels t r (o1 # ops)" for t r
    by (auto simp: rowCols_Cons)
  have wf1: "wfHistory (C t r \<union> opCols o1) (D t r \<union> opDels o1)" if "onRow t r o1" for t r
    using Cons.prems(4) [of t r] that
    by (auto simp: rowCols_Cons wfHistory_def elim: compatible_mono)
  have self: "onRow (opTable o1) (opRowId o1) o1" "P (opTable o1) (opRowId o1)" "wfOp o1"
    using Cons.prems(2) by (simp_all add: onRow_def)
  obtain tbls1 res where step: "applyOp tbls o1 sv schema = (tbls1, res)" by (cases "applyOp tbls o1 sv schema")
  have "isOk res"
    using applyOp_ok [OF Cons.prems(1) self(3) Cons.prems(3) [OF self(2)] wf1 [OF self(1)], of sv] step by simp
  then obtain a where a: "res = Inr a" by (cases res) auto
  have inv1: "rowInv (?C t r) (?D t r) (getRow tbls1 t r)" if "P t r" for t r
    using getRow_applyOp [of tbls o1 sv schema t r] step Cons.prems(3) [OF that]
      rowAfter_inv [OF Cons.prems(1) self(3) Cons.prems(3) [OF that] wf1, of sv]
    by (auto simp: onRow_def)
  have "isOk (snd (applyOps tbls1 ops sv schema))
    \<and> (P t r \<longrightarrow> rowInv (?C t r \<union> rowCols t r ops) (?D t r \<union> rowDels t r ops)
        (getRow (fst (applyOps tbls1 ops sv schema)) t r))"
    by (rule Cons.IH [OF Cons.prems(1) _ inv1]) (use Cons.prems(2,4) in \<open>simp_all only: unions list.set_intros Ball_def, auto\<close>)
  then show ?case
    unfolding unions by (auto simp: step a split: prod.split sum.split)
qed

lemma applyOps_inv:
  assumes "lwwSchema schema" "\<forall>o1 \<in> set ops. wfOp o1"
    "\<And>t r. rowInv (C t r) (D t r) (getRow tbls t r)"
    "\<And>t r. wfHistory (C t r \<union> rowCols t r ops) (D t r \<union> rowDels t r ops)"
  shows "isOk (snd (applyOps tbls ops sv schema))
    \<and> rowInv (C t r \<union> rowCols t r ops) (D t r \<union> rowDels t r ops)
        (getRow (fst (applyOps tbls ops sv schema)) t r)"
  using applyOps_inv_on [of schema ops "\<lambda>_ _. True" C D tbls sv t r] assms by simp

section \<open>What the invariant determines\<close>

lemma applyOps_touched:
  "isOk (snd (applyOps tbls ops sv schema)) \<Longrightarrow>
    getRow (fst (applyOps tbls ops sv schema)) t r = None
      \<longleftrightarrow> getRow tbls t r = None \<and> (\<forall>o1 \<in> set ops. \<not> onRow t r o1)"
proof (induction ops arbitrary: tbls)
  case Nil
  then show ?case by simp
next
  case (Cons o1 ops)
  obtain tbls1 a where step: "applyOp tbls o1 sv schema = (tbls1, Inr a)"
    using Cons.prems by (auto split: prod.splits sum.splits)
  have "isOk (snd (applyOps tbls1 ops sv schema))"
    and eq: "fst (applyOps tbls (o1 # ops) sv schema) = fst (applyOps tbls1 ops sv schema)"
    using Cons.prems step by (auto split: prod.splits sum.splits)
  note IH = Cons.IH [OF this(1)]
  show ?case
    using getRow_applyOp [of tbls o1 sv schema t r] step unfolding eq IH by (auto simp: onRow_def)
qed

lemma applyOps_history:
  assumes "lwwSchema schema" "wfOps ops"
  shows "isOk (snd (applyOps [] ops sv schema))"
    and "rowInv (rowCols t r ops) (rowDels t r ops) (getRow (fst (applyOps [] ops sv schema)) t r)"
  using applyOps_inv [of schema ops "\<lambda>_ _. {}" "\<lambda>_ _. {}" "[]" sv t r] assms
    wfHistory_ops [OF assms(2)]
  by (simp_all add: wfOps_def rowInv_def)

lemma same_history:
  assumes "set ops' = set ops"
  shows "rowCols t r ops' = rowCols t r ops" "rowDels t r ops' = rowDels t r ops" "wfOps ops' \<longleftrightarrow> wfOps ops"
  using assms by (simp_all add: rowCols_def rowDels_def wfOps_def)

lemma wfOps_subset: "wfOps ops \<Longrightarrow> set ops' \<subseteq> set ops \<Longrightarrow> wfOps ops'"
proof -
  assume wf: "wfOps ops" and sub: "set ops' \<subseteq> set ops"
  have "rowCols t r ops' \<subseteq> rowCols t r ops" for t r using sub by (auto simp: rowCols_def)
  with wf sub show ?thesis unfolding wfOps_def by (meson compatible_mono subsetD)
qed

lemma tomb_excludes_live:
  assumes "tombInv C D x" "liveInv C D y" shows False
proof -
  from assms(1) obtain d where d: "d \<in> D" "\<forall>(c, e) \<in> C. stampLe (colHlc e) d"
    by (auto simp: tombInv_def)
  with assms(2) obtain c e where "(c, e) \<in> C" "survives D e" by (auto simp: liveInv_def)
  with d show False by (fastforce simp: survives_def)
qed

lemma tomb_unique:
  assumes "tombInv C D x" "tombInv C D y" "\<forall>d \<in> D. stampOk d"
  shows "rmDeletedHlc (meta x) = rmDeletedHlc (meta y) \<and> payload x = payload y"
proof -
  from assms(1,2) obtain d d' where d: "d \<in> D" "rmDeletedHlc (meta x) = Some d" "\<forall>b \<in> D. stampLe b d"
    and d': "d' \<in> D" "rmDeletedHlc (meta y) = Some d'" "\<forall>b \<in> D. stampLe b d'"
    and p: "payload x = []" "payload y = []"
    by (auto simp: tombInv_def)
  have "stampKey d = stampKey d'" using d d' by (intro antisym) auto
  then have "d = d'" using d d' assms(3) by (intro stamp.key_inject) auto
  with d d' p show ?thesis by simp
qed

lemma live_winner:
  assumes inv: "liveInv C D x" and "(c, e) \<in> C" "survives D e"
  obtains w where "map_of (payload x) c = Some w" "(c, w) \<in> C"
    "\<forall>e'. (c, e') \<in> C \<longrightarrow> stampLe (colHlc e') (colHlc w)"
proof -
  from assms obtain w where w: "map_of (payload x) c = Some w" "stampLe (colHlc e) (colHlc w)"
    by (fastforce simp: liveInv_def)
  have mem: "(c, w) \<in> C" using map_of_SomeD [OF w(1)] inv by (auto simp: liveInv_def)
  have "stampLe (colHlc e') (colHlc w)" if e': "(c, e') \<in> C" for e'
  proof (cases "survives D e'")
    case True
    with e' inv obtain w' where "map_of (payload x) c = Some w'" "stampLe (colHlc e') (colHlc w')"
      by (fastforce simp: liveInv_def)
    with w show ?thesis by simp
  next
    case False
    then obtain d where "d \<in> D" "stampLe (colHlc e') d" by (auto simp: survives_def not_less)
    moreover have "stampLt d (colHlc e)" using assms(3) \<open>d \<in> D\<close> by (simp add: survives_def)
    ultimately have "stampLe (colHlc e') (colHlc e)" by (meson order.trans less_imp_le)
    then show ?thesis using w(2) by (rule order.trans)
  qed
  with w mem that show thesis by blast
qed

lemma live_agree:
  assumes "liveInv C D x" "liveInv C D y" "wfHistory C D" "(c, e) \<in> C" "survives D e"
  shows "map_of (payload x) c = map_of (payload y) c"
proof -
  obtain w where w: "map_of (payload x) c = Some w" "(c, w) \<in> C"
    "\<forall>e'. (c, e') \<in> C \<longrightarrow> stampLe (colHlc e') (colHlc w)"
    by (rule live_winner [OF assms(1,4,5)])
  obtain v where v: "map_of (payload y) c = Some v" "(c, v) \<in> C"
    "\<forall>e'. (c, e') \<in> C \<longrightarrow> stampLe (colHlc e') (colHlc v)"
    by (rule live_winner [OF assms(2,4,5)])
  have "stampKey (colHlc w) = stampKey (colHlc v)"
    using v w by (intro antisym) blast+
  then have "w = v"
    using assms(3) w v by (intro compatible_key [of C c]) (auto simp: wfHistory_def)
  with w v show ?thesis by simp
qed

lemma live_outside: "liveInv C D x \<Longrightarrow> (\<And>e. (c, e) \<notin> C) \<Longrightarrow> map_of (payload x) c = None"
  by (cases "map_of (payload x) c") (auto simp: liveInv_def dest: map_of_SomeD)

text \<open>Two replicas' views of a row, compared on some of its columns.\<close>

definition agreeOn :: "(string \<Rightarrow> bool) \<Rightarrow> row option \<Rightarrow> row option \<Rightarrow> bool" where
  "agreeOn P a b =
     (case a of
        None \<Rightarrow> b = None
      | Some x \<Rightarrow>
          (case b of
             None \<Rightarrow> False
           | Some y \<Rightarrow> rmDeleted (meta x) = rmDeleted (meta y) \<and> rmDeletedHlc (meta x) = rmDeletedHlc (meta y)
               \<and> (\<forall>c. P c \<longrightarrow> map_of (payload x) c = map_of (payload y) c)))"

definition settledColumn :: "op list \<Rightarrow> string \<Rightarrow> string \<Rightarrow> string \<Rightarrow> bool" where
  "settledColumn ops t r c \<longleftrightarrow>
     (\<exists>e. (c, e) \<in> rowCols t r ops \<and> survives (rowDels t r ops) e) \<or> rowDels t r ops = {}
     \<or> (\<exists>d \<in> rowDels t r ops. \<forall>(c, e) \<in> rowCols t r ops. stampLe (colHlc e) d)"

lemma rowInv_agree:
  assumes "rowInv C D (Some x)" "rowInv C D (Some y)" "wfHistory C D"
    and P: "\<And>c. P c \<Longrightarrow> (\<exists>e. (c, e) \<in> C \<and> survives D e) \<or> D = {} \<or> (\<exists>d \<in> D. \<forall>(c, e) \<in> C. stampLe (colHlc e) d)"
  shows "agreeOn P (Some x) (Some y)"
proof (cases "rmDeleted (meta x)")
  case True
  then have x: "tombInv C D x" using assms by (simp add: rowInv_def)
  then have "rmDeleted (meta y)"
    using tomb_excludes_live [OF x, of y] assms(2) by (auto simp: rowInv_def split: if_splits)
  then show ?thesis
    using x True assms tomb_unique [of C D x y] by (auto simp: rowInv_def agreeOn_def wfHistory_def)
next
  case False
  then have x: "liveInv C D x" using assms by (simp add: rowInv_def)
  have ny: "\<not> rmDeleted (meta y)"
    using tomb_excludes_live [OF _ x, of y] assms(2) by (auto simp: rowInv_def split: if_splits)
  then have y: "liveInv C D y" using assms by (simp add: rowInv_def)
  have "map_of (payload x) c = map_of (payload y) c" if "P c" for c
    using P [OF that]
  proof (elim disjE)
    assume "\<exists>e. (c, e) \<in> C \<and> survives D e"
    then show ?thesis using live_agree [OF x y assms(3)] by blast
  next
    assume "D = {}"
    then show ?thesis
      using live_agree [OF x y assms(3), of c] live_outside [OF x, of c] live_outside [OF y, of c]
      by (auto simp: survives_def) (metis)
  next
    assume "\<exists>d \<in> D. \<forall>(c, e) \<in> C. stampLe (colHlc e) d"
    then have False using x by (fastforce simp: liveInv_def survives_def)
    then show ?thesis ..
  qed
  then show ?thesis using False ny x y by (simp add: agreeOn_def liveInv_def)
qed

section \<open>Convergence\<close>

text \<open>C1: Replicas that applied the same operations, in any order and however often repeated,
  under last-writer-wins, never fail and agree on every row: whether it exists, whether it is
  deleted and since when, and on every settled column. A column is settled when it has an
  entry newer than all deletes of its row, when the row was never deleted, or when some delete is
  not older than anything written to the row.\<close>

theorem replicas_converge:
  assumes "lwwSchema schema" "wfOps ops" "set ops' = set ops"
  shows "isOk (snd (applyOps [] ops sv schema)) \<and> isOk (snd (applyOps [] ops' sv schema))
    \<and> agreeOn (settledColumn ops t r)
        (getRow (fst (applyOps [] ops sv schema)) t r) (getRow (fst (applyOps [] ops' sv schema)) t r)"
proof -
  let ?A = "getRow (fst (applyOps [] ops sv schema)) t r"
  let ?B = "getRow (fst (applyOps [] ops' sv schema)) t r"
  have wf': "wfOps ops'" using assms(2) same_history(3) [OF assms(3)] by simp
  have A: "isOk (snd (applyOps [] ops sv schema))" "rowInv (rowCols t r ops) (rowDels t r ops) ?A"
    using applyOps_history [OF assms(1,2)] by auto
  have B: "isOk (snd (applyOps [] ops' sv schema))" "rowInv (rowCols t r ops) (rowDels t r ops) ?B"
    using applyOps_history [OF assms(1) wf'] same_history [OF assms(3)] by auto
  have none: "?A = None \<longleftrightarrow> ?B = None"
    using applyOps_touched [OF A(1)] applyOps_touched [OF B(1)] assms(3) by simp
  have "agreeOn (settledColumn ops t r) ?A ?B"
  proof (cases ?A)
    case None
    with none show ?thesis by (simp add: agreeOn_def)
  next
    case (Some x)
    with none obtain y where y: "?B = Some y" by auto
    show ?thesis
      using A(2) B(2) wfHistory_ops [OF assms(2)] unfolding Some y
      by (rule rowInv_agree) (drule settledColumn_def [THEN iffD1])
  qed
  with A B show ?thesis by simp
qed

text \<open>
  The scenario used by the witnesses: a row is created with column \<open>a\<close>; one device deletes it
  while another, not knowing, adds column \<open>b\<close> and publishes the whole row.
\<close>

definition demoStamp :: "int \<Rightarrow> string \<Rightarrow> string" where
  "demoStamp n node = hlcSerialize \<lparr>ts = Num n, counter = Num 0, nodeId = node\<rparr>"

definition demoEntry :: "int \<Rightarrow> string \<Rightarrow> column_entry" where
  "demoEntry n node = \<lparr>colValue = JNum (Num n), colHlc = demoStamp n node\<rparr>"

definition demoCreate :: op where
  "demoCreate = Upsert ''t'' ''r'' [(''a'', demoEntry 1 ''A'')]"

definition demoDelete :: op where
  "demoDelete = Delete ''t'' ''r'' (demoStamp 2 ''B'')"

definition demoUpdate :: op where
  "demoUpdate = Upsert ''t'' ''r'' [(''a'', demoEntry 1 ''A''), (''b'', demoEntry 3 ''C'')]"

lemmas demo_defs = demoCreate_def demoDelete_def demoUpdate_def

lemma demoStamp_ok [simp]: "0 \<le> n \<Longrightarrow> stampOk (demoStamp n node)"
  by (simp add: demoStamp_def validHlc_def)

lemma demoEntry_wf [simp]: "0 \<le> n \<Longrightarrow> wfEntry (demoEntry n node)"
  by (simp add: wfEntry_def demoEntry_def)

lemma demo_wfOps: "wfOps [demoCreate, demoDelete, demoUpdate]"
proof -
  have "compatible (rowCols t r [demoCreate, demoDelete, demoUpdate])" for t r
    by (auto simp: compatible_def rowCols_Cons demo_defs rowCols_def [of _ _ "[]"])
  then show ?thesis by (simp add: wfOps_def demo_defs)
qed

theorem replicas_converge_witness:
  "agreeOn (settledColumn [demoCreate, demoDelete, demoUpdate] ''t'' ''r'')
     (getRow (fst (applyOps [] [demoCreate, demoDelete, demoUpdate] 1 None)) ''t'' ''r'')
     (getRow (fst (applyOps [] [demoUpdate, demoDelete, demoCreate, demoUpdate] 1 None)) ''t'' ''r'')
   \<and> settledColumn [demoCreate, demoDelete, demoUpdate] ''t'' ''r'' ''b''"
proof -
  have "set [demoUpdate, demoDelete, demoCreate, demoUpdate] = set [demoCreate, demoDelete, demoUpdate]"
    by auto
  note conv = replicas_converge [OF lwwSchema_None demo_wfOps this, of 1 "''t''" "''r''"]
  have "stampLt (demoStamp 2 ''B'') (demoStamp 3 ''C'')"
    by (simp add: demoStamp_def validHlc_def hlcKey_def less_prod_simp)
  then have "settledColumn [demoCreate, demoDelete, demoUpdate] ''t'' ''r'' ''b''"
    unfolding settledColumn_def
    by (intro disjI1 exI [of _ "demoEntry 3 ''C''"])
       (simp add: rowCols_Cons demo_defs onRow_def survives_def demoEntry_def
          rowCols_def [of _ _ "[]"] rowDels_def [of _ _ "[]"])
  with conv show ?thesis by blast
qed

text \<open>On an unsettled column replicas can disagree for good: applying the same three
  operations of one row in two orders leaves column \<open>a\<close> on one replica and drops it on the
  other, although both hold the whole history.\<close>

theorem late_delete_diverges:
  "wfOps [demoCreate, demoDelete, demoUpdate] \<and> set [demoCreate, demoUpdate, demoDelete] = set [demoCreate, demoDelete, demoUpdate]
   \<and> map_option (map fst \<circ> payload) (getRow (fst (applyOps [] [demoCreate, demoDelete, demoUpdate] 1 None)) ''t'' ''r'')
       = Some [''b'']
   \<and> map_option (map fst \<circ> payload) (getRow (fst (applyOps [] [demoCreate, demoUpdate, demoDelete] 1 None)) ''t'' ''r'')
       = Some [''a'', ''b'']"
proof -
  have "map_option (map fst \<circ> payload) (getRow (fst (applyOps [] [demoCreate, demoDelete, demoUpdate] 1 None)) ''t'' ''r'')
       = Some [''b'']" by code_simp
  moreover have "map_option (map fst \<circ> payload) (getRow (fst (applyOps [] [demoCreate, demoUpdate, demoDelete] 1 None)) ''t'' ''r'')
       = Some [''a'', ''b'']" by code_simp
  moreover have "set [demoCreate, demoUpdate, demoDelete] = set [demoCreate, demoDelete, demoUpdate]" by auto
  ultimately show ?thesis using demo_wfOps by blast
qed

text \<open>C6: The outcome of a row's history: it is a tombstone exactly when some delete is not
  older than any column entry and any other delete, and then it carries the newest delete and
  no column; otherwise each column with an entry newer than all deletes holds the entry with the
  greatest clock.\<close>

theorem row_outcome:
  assumes "lwwSchema schema" "wfOps ops" "getRow (fst (applyOps [] ops sv schema)) t r = Some x"
  shows "(rmDeleted (meta x) \<longleftrightarrow>
      (\<exists>d \<in> rowDels t r ops. (\<forall>d' \<in> rowDels t r ops. stampLe d' d)
         \<and> (\<forall>(c, e) \<in> rowCols t r ops. stampLe (colHlc e) d)))
    \<and> (rmDeleted (meta x) \<longrightarrow> payload x = [])
    \<and> (\<not> rmDeleted (meta x) \<longrightarrow> (\<forall>(c, e) \<in> rowCols t r ops. survives (rowDels t r ops) e \<longrightarrow>
        (\<exists>w. map_of (payload x) c = Some w \<and> (c, w) \<in> rowCols t r ops
          \<and> (\<forall>e'. (c, e') \<in> rowCols t r ops \<longrightarrow> stampLe (colHlc e') (colHlc w)))))"
proof -
  let ?C = "rowCols t r ops" and ?D = "rowDels t r ops"
  have inv: "rowInv ?C ?D (Some x)" using applyOps_history(2) [OF assms(1,2), of t r sv] assms(3) by simp
  show ?thesis
  proof (cases "rmDeleted (meta x)")
    case True
    then show ?thesis using inv by (auto simp: rowInv_def tombInv_def)
  next
    case False
    then have live: "liveInv ?C ?D x" using inv by (simp add: rowInv_def)
    have "\<not> (\<exists>d \<in> ?D. \<forall>(c, e) \<in> ?C. stampLe (colHlc e) d)"
      using live by (fastforce simp: liveInv_def survives_def)
    moreover have "\<exists>w. map_of (payload x) c = Some w \<and> (c, w) \<in> ?C
        \<and> (\<forall>e'. (c, e') \<in> ?C \<longrightarrow> stampLe (colHlc e') (colHlc w))" if "(c, e) \<in> ?C" "survives ?D e" for c e
      by (rule live_winner [OF live that]) blast
    ultimately show ?thesis using False by blast
  qed
qed

theorem row_outcome_witness:
  "\<exists>x. getRow (fst (applyOps [] [demoCreate, demoDelete] 1 None)) ''t'' ''r'' = Some x
     \<and> rmDeleted (meta x) \<and> payload x = []"
proof -
  have "wfOps [demoCreate, demoDelete]"
    by (rule wfOps_subset [OF demo_wfOps]) simp
  moreover have "map_option (\<lambda>x. rmDeleted (meta x)) (getRow (fst (applyOps [] [demoCreate, demoDelete] 1 None)) ''t'' ''r'') = Some True"
    by code_simp
  then obtain x where "getRow (fst (applyOps [] [demoCreate, demoDelete] 1 None)) ''t'' ''r'' = Some x"
    "rmDeleted (meta x)" by auto
  ultimately show ?thesis using row_outcome [OF lwwSchema_None] by blast
qed

end
