(* ===== verification/Memory_Store.thy ===== *)
theory Memory_Store
  imports Crdt_Convergence "HOL-Library.Sublist"
begin

text \<open>
  The local store: the contract of \<open>packages/core/src/storage/local-store.ts\<close> as the locale
  \<open>local_store\<close>, and its in-memory implementation (\<open>packages/core/src/storage/memory-store.ts\<close>)
  as a record with one definition per method, on which the locale is interpreted. Methods that only
  read return a value, methods that write return the next store.

  Values in comparisons follow the language's rules: two strings compare by code unit, anything
  else as numbers, after objects and arrays became text. The text of a date inside an array depends
  on the time zone and is the argument \<open>dateText\<close>. Text that is a number with a fraction or an
  exponent is outside the model, whose numbers are integers.
\<close>

section \<open>Comparing values\<close>

fun jsToStr :: "(int \<Rightarrow> string) \<Rightarrow> jsval \<Rightarrow> string" and jsElements :: "(int \<Rightarrow> string) \<Rightarrow> jsval list \<Rightarrow> string list" where
  "jsToStr dateText JUndefined = ''undefined''"
| "jsToStr dateText JNull = ''null''"
| "jsToStr dateText (JBool b) = (if b then ''true'' else ''false'')"
| "jsToStr dateText (JNum n) = toStringRadix 10 n"
| "jsToStr dateText (JStr s) = s"
| "jsToStr dateText (JDate d) = dateText d"
| "jsToStr dateText (JArr xs) = jjoin '','' (jsElements dateText xs)"
| "jsToStr dateText (JObj fs) = ''[object Object]''"
| "jsElements dateText [] = []"
| "jsElements dateText (x # xs) =
     (if x = JUndefined \<or> x = JNull then '''' else jsToStr dateText x) # jsElements dateText xs"

definition jtrim :: "string \<Rightarrow> string" where
  "jtrim s = rev (dropWhile isJsSpace (rev (dropWhile isJsSpace s)))"

definition allDigits :: "nat \<Rightarrow> string \<Rightarrow> jnum" where
  "allDigits b s = (if s \<noteq> [] \<and> list_all (isDigit b) s then parseDigits b s else NaN)"

text \<open>\<open>Number(text)\<close>.\<close>

definition stringToNumber :: "string \<Rightarrow> jnum" where
  "stringToNumber text =
     (let s = jtrim text in
      if s = [] then Num 0
      else if startsWith s ''0x'' \<or> startsWith s ''0X'' then allDigits 16 (drop 2 s)
      else if startsWith s ''0o'' \<or> startsWith s ''0O'' then allDigits 8 (drop 2 s)
      else if startsWith s ''0b'' \<or> startsWith s ''0B'' then allDigits 2 (drop 2 s)
      else if hd s = CHR ''-'' then jsub (Num 0) (allDigits 10 (tl s))
      else if hd s = CHR ''+'' then allDigits 10 (tl s)
      else allDigits 10 s)"

text \<open>The primitive the comparison operators see.\<close>

fun toPrimitive :: "(int \<Rightarrow> string) \<Rightarrow> jsval \<Rightarrow> jsval" where
  "toPrimitive dateText (JArr xs) = JStr (jsToStr dateText (JArr xs))"
| "toPrimitive dateText (JObj fs) = JStr (jsToStr dateText (JObj fs))"
| "toPrimitive dateText v = v"

fun toNumber :: "jsval \<Rightarrow> jnum" where
  "toNumber JNull = Num 0"
| "toNumber (JBool b) = Num (if b then 1 else 0)"
| "toNumber (JNum n) = n"
| "toNumber (JStr s) = stringToNumber s"
| "toNumber (JDate d) = Num d"
| "toNumber _ = NaN"

definition jsLess :: "(int \<Rightarrow> string) \<Rightarrow> jsval \<Rightarrow> jsval \<Rightarrow> bool" where
  "jsLess dateText a b =
     (case (toPrimitive dateText a, toPrimitive dateText b) of
        (JStr s, JStr t) \<Rightarrow> s < t
      | (p, q) \<Rightarrow> jlt (toNumber p) (toNumber q))"

fun dateToTime :: "jsval \<Rightarrow> jsval" where
  "dateToTime (JDate d) = JNum (Num d)"
| "dateToTime v = v"

definition compareWhere :: "(int \<Rightarrow> string) \<Rightarrow> jsval \<Rightarrow> jsval \<Rightarrow> int" where
  "compareWhere dateText a b =
     (let av = dateToTime a; bv = dateToTime b in
      if jsLess dateText av bv then - 1 else if jsLess dateText bv av then 1 else 0)"

section \<open>Where clauses\<close>

datatype where_operator =
    WEquals | WAbove | WAboveOrEqual | WBelow | WBelowOrEqual | WBetween | WStartsWith | WAnyOf
  | WOther string

text \<open>An absent optional member is \<open>JUndefined\<close>, the empty option or False.\<close>

record where_clause =
  wcField :: string
  wcOp :: where_operator
  wcValue :: jsval
  wcValues :: "jsval list option"
  wcLower :: jsval
  wcUpper :: jsval
  wcLowerOpen :: bool
  wcUpperOpen :: bool

definition readColumnValue :: "row \<Rightarrow> string \<Rightarrow> jsval" where
  "readColumnValue x field = (case map_of (payload x) field of None \<Rightarrow> JUndefined | Some e \<Rightarrow> colValue e)"

definition matchesClause :: "(int \<Rightarrow> string) \<Rightarrow> jsval \<Rightarrow> where_clause \<Rightarrow> bool" where
  "matchesClause dateText v c =
     (if v = JUndefined \<or> v = JNull then False
      else (case wcOp c of
         WEquals \<Rightarrow> compareWhere dateText v (wcValue c) = 0
       | WAbove \<Rightarrow> compareWhere dateText v (wcValue c) > 0
       | WAboveOrEqual \<Rightarrow> compareWhere dateText v (wcValue c) \<ge> 0
       | WBelow \<Rightarrow> compareWhere dateText v (wcValue c) < 0
       | WBelowOrEqual \<Rightarrow> compareWhere dateText v (wcValue c) \<le> 0
       | WBetween \<Rightarrow>
           (let lowerCmp = compareWhere dateText v (wcLower c);
                upperCmp = compareWhere dateText v (wcUpper c);
                lowerOk = (if wcLowerOpen c then lowerCmp > 0 else lowerCmp \<ge> 0);
                upperOk = (if wcUpperOpen c then upperCmp < 0 else upperCmp \<le> 0)
            in lowerOk \<and> upperOk)
       | WStartsWith \<Rightarrow>
           (case v of JStr s \<Rightarrow> startsWith s (jsToStr dateText (wcValue c)) | _ \<Rightarrow> False)
       | WAnyOf \<Rightarrow>
           list_ex (\<lambda>w. compareWhere dateText v w = 0) (case wcValues c of None \<Rightarrow> [] | Some vs \<Rightarrow> vs)
       | WOther _ \<Rightarrow> False))"

section \<open>The store\<close>

definition rowKey :: "string \<Rightarrow> string \<Rightarrow> string" where
  "rowKey table rowId = table @ ''/'' @ rowId"

record memory_store =
  msRows :: "(string \<times> row) list"
  msOutbox :: "change_entry list"
  msPendingBatch :: "change_entry option"
  msCursors :: "(string \<times> int) list"
  msMeta :: "(string \<times> jsval) list"

definition newMemoryStore :: memory_store where
  "newMemoryStore = \<lparr>msRows = [], msOutbox = [], msPendingBatch = None, msCursors = [], msMeta = []\<rparr>"

definition closeStore :: "memory_store \<Rightarrow> memory_store" where
  "closeStore s = s\<lparr>msRows := [], msOutbox := [], msPendingBatch := None, msCursors := [], msMeta := []\<rparr>"

definition storeGetRow :: "memory_store \<Rightarrow> string \<Rightarrow> string \<Rightarrow> row option" where
  "storeGetRow s table rowId = map_of (msRows s) (rowKey table rowId)"

definition storeGetRows :: "memory_store \<Rightarrow> (string \<times> string) list \<Rightarrow> row option list" where
  "storeGetRows s refs = map (\<lambda>(t, r). map_of (msRows s) (rowKey t r)) refs"

definition storePutRow :: "row \<Rightarrow> memory_store \<Rightarrow> memory_store" where
  "storePutRow x s =
     (let key = rowKey (rmTable (meta x)) (rmRowId (meta x)) in
      s\<lparr>msRows := AList.update key (x\<lparr>meta := (meta x)\<lparr>rmKey := Some key\<rparr>\<rparr>) (msRows s)\<rparr>)"

fun storePutRows :: "row list \<Rightarrow> memory_store \<Rightarrow> memory_store" where
  "storePutRows [] s = s"
| "storePutRows (x # xs) s = storePutRows xs (storePutRow x s)"

definition storeGetTable :: "memory_store \<Rightarrow> string \<Rightarrow> row list" where
  "storeGetTable s table =
     filter (\<lambda>x. rmTable (meta x) = table \<and> \<not> rmDeleted (meta x)) (map snd (msRows s))"

definition storeQueryWhere :: "(int \<Rightarrow> string) \<Rightarrow> memory_store \<Rightarrow> string \<Rightarrow> where_clause \<Rightarrow> row list" where
  "storeQueryWhere dateText s table c =
     filter (\<lambda>x. matchesClause dateText (readColumnValue x (wcField c)) c) (storeGetTable s table)"

definition storeGetTableNames :: "memory_store \<Rightarrow> string list" where
  "storeGetTableNames s = jsetOf (filter (\<lambda>t. t \<noteq> '''') (map (\<lambda>(_, x). rmTable (meta x)) (msRows s)))"

definition storeGetAllRows :: "memory_store \<Rightarrow> row list" where
  "storeGetAllRows s = map snd (msRows s)"

definition storeClearRows :: "memory_store \<Rightarrow> memory_store" where
  "storeClearRows s = s\<lparr>msRows := []\<rparr>"

definition storeCommitLocalMutation :: "row \<Rightarrow> change_entry \<Rightarrow> memory_store \<Rightarrow> memory_store" where
  "storeCommitLocalMutation x change s =
     (let batch =
        (case msPendingBatch s of
           Some p \<Rightarrow> p\<lparr>ceHlc := (if ceHlc p < ceHlc change then ceHlc change else ceHlc p),
                        ceOps := ceOps p @ ceOps change\<rparr>
         | None \<Rightarrow> change)
      in s\<lparr>msPendingBatch := Some batch,
           msRows := AList.update (rowKey (rmTable (meta x)) (rmRowId (meta x))) x (msRows s),
           msMeta := AList.update ''hlc'' (JStr (ceHlc batch)) (msMeta s)\<rparr>)"

definition storePeekPendingBatch :: "memory_store \<Rightarrow> change_entry option" where
  "storePeekPendingBatch s = msPendingBatch s"

definition storePromotePendingBatch :: "memory_store \<Rightarrow> memory_store \<times> change_entry option" where
  "storePromotePendingBatch s =
     (case msPendingBatch s of
        None \<Rightarrow> (s, None)
      | Some p \<Rightarrow> (s\<lparr>msOutbox := msOutbox s @ [p], msPendingBatch := None\<rparr>, Some p))"

definition storePushOutbox :: "change_entry \<Rightarrow> memory_store \<Rightarrow> memory_store" where
  "storePushOutbox e s = s\<lparr>msOutbox := msOutbox s @ [e]\<rparr>"

definition storePushOutboxEntries :: "change_entry list \<Rightarrow> memory_store \<Rightarrow> memory_store" where
  "storePushOutboxEntries es s = (if es = [] then s else s\<lparr>msOutbox := msOutbox s @ es\<rparr>)"

definition storePeekOutbox :: "memory_store \<Rightarrow> change_entry list" where
  "storePeekOutbox s = msOutbox s"

definition storeAcknowledgeOutbox :: "string list \<Rightarrow> memory_store \<Rightarrow> memory_store" where
  "storeAcknowledgeOutbox ids s =
     (if ids = [] then s else s\<lparr>msOutbox := filter (\<lambda>e. ceId e \<notin> set ids) (msOutbox s)\<rparr>)"

definition storeDrainOutbox :: "memory_store \<Rightarrow> memory_store \<times> change_entry list" where
  "storeDrainOutbox s = (s\<lparr>msOutbox := []\<rparr>, msOutbox s)"

definition storeOutboxSize :: "memory_store \<Rightarrow> nat" where
  "storeOutboxSize s = length (msOutbox s)"

definition storeGetCursor :: "memory_store \<Rightarrow> string \<Rightarrow> int" where
  "storeGetCursor s deviceId = (case map_of (msCursors s) deviceId of None \<Rightarrow> 0 | Some n \<Rightarrow> n)"

definition storeSetCursor :: "string \<Rightarrow> int \<Rightarrow> memory_store \<Rightarrow> memory_store" where
  "storeSetCursor deviceId offset s = s\<lparr>msCursors := AList.update deviceId offset (msCursors s)\<rparr>"

definition storeGetAllCursors :: "memory_store \<Rightarrow> (string \<times> int) list" where
  "storeGetAllCursors s = msCursors s"

definition storeGetMeta :: "memory_store \<Rightarrow> string \<Rightarrow> jsval" where
  "storeGetMeta s key = (case map_of (msMeta s) key of None \<Rightarrow> JUndefined | Some v \<Rightarrow> v)"

definition storeSetMeta :: "string \<Rightarrow> jsval \<Rightarrow> memory_store \<Rightarrow> memory_store" where
  "storeSetMeta key v s = s\<lparr>msMeta := AList.update key v (msMeta s)\<rparr>"

definition storeClearAll :: "memory_store \<Rightarrow> memory_store" where
  "storeClearAll s = s\<lparr>msRows := [], msOutbox := [], msPendingBatch := None, msCursors := [], msMeta := []\<rparr>"

section \<open>The contract\<close>

text \<open>
  What the engine relies on. \<open>queued\<close> is everything written and not yet acknowledged: the
  outbox in order, then the pending batch.
\<close>

definition optList :: "'a option \<Rightarrow> 'a list" where
  "optList m = (case m of None \<Rightarrow> [] | Some x \<Rightarrow> [x])"

lemma optList_simps [simp]: "optList None = []" "optList (Some x) = [x]" "x \<in> set (optList m) \<longleftrightarrow> m = Some x"
  by (auto simp: optList_def split: option.split)

locale local_store =
  fixes lookupRow :: "'s \<Rightarrow> string \<Rightarrow> string \<Rightarrow> row option"
    and putRow :: "row \<Rightarrow> 's \<Rightarrow> 's"
    and commit :: "row \<Rightarrow> change_entry \<Rightarrow> 's \<Rightarrow> 's"
    and pending :: "'s \<Rightarrow> change_entry option"
    and promote :: "'s \<Rightarrow> 's \<times> change_entry option"
    and outbox :: "'s \<Rightarrow> change_entry list"
    and push :: "change_entry list \<Rightarrow> 's \<Rightarrow> 's"
    and acknowledge :: "string list \<Rightarrow> 's \<Rightarrow> 's"
    and okTable :: "string \<Rightarrow> bool"
  assumes commit_row: "okTable t \<Longrightarrow> okTable (rmTable (meta x)) \<Longrightarrow>
      lookupRow (commit x ch s) t r =
        (if t = rmTable (meta x) \<and> r = rmRowId (meta x) then Some x else lookupRow s t r)"
    and put_row: "okTable t \<Longrightarrow> okTable (rmTable (meta x)) \<Longrightarrow>
      map_option payload (lookupRow (putRow x s) t r) =
        (if t = rmTable (meta x) \<and> r = rmRowId (meta x) then Some (payload x)
         else map_option payload (lookupRow s t r))"
    and commit_first: "pending s = None \<Longrightarrow> pending (commit x ch s) = Some ch"
    and commit_later: "pending s = Some p \<Longrightarrow>
      \<exists>h. pending (commit x ch s) = Some (p\<lparr>ceHlc := h, ceOps := ceOps p @ ceOps ch\<rparr>)"
    and commit_outbox: "outbox (commit x ch s) = outbox s"
    and put_queue: "pending (putRow x s) = pending s" "outbox (putRow x s) = outbox s"
    and promote_outbox: "outbox (fst (promote s)) = outbox s @ optList (pending s)"
    and promote_pending: "pending (fst (promote s)) = None"
    and promote_result: "snd (promote s) = pending s"
    and push_outbox: "outbox (push es s) = outbox s @ es"
    and push_pending: "pending (push es s) = pending s"
    and acknowledge_outbox: "outbox (acknowledge ids s) = filter (\<lambda>e. ceId e \<notin> set ids) (outbox s)"
    and acknowledge_pending: "pending (acknowledge ids s) = pending s"
begin

definition queued :: "'s \<Rightarrow> change_entry list" where
  "queued s = outbox s @ optList (pending s)"

definition holds :: "string \<Rightarrow> op list \<Rightarrow> 's \<Rightarrow> bool" where
  "holds i ops s = (\<exists>e \<in> set (queued s). ceId e = i \<and> prefix ops (ceOps e))"

lemma queuedOps_commit:
  "concat (map ceOps (queued (commit x ch s))) = concat (map ceOps (queued s)) @ ceOps ch"
  using commit_first [of s x ch] commit_later [of s _ x ch]
  by (cases "pending s") (auto simp: queued_def commit_outbox)

lemma queued_promote: "queued (fst (promote s)) = queued s"
  by (simp add: queued_def promote_outbox promote_pending)

lemma holds_commit: "holds i ops s \<Longrightarrow> holds i ops (commit x ch s)"
proof -
  assume "holds i ops s"
  then obtain e where e: "e \<in> set (queued s)" "ceId e = i" "prefix ops (ceOps e)" by (auto simp: holds_def)
  show ?thesis
  proof (cases "e \<in> set (outbox s)")
    case True
    with e show ?thesis by (auto simp: holds_def queued_def commit_outbox)
  next
    case False
    with e have p: "pending s = Some e" by (auto simp: queued_def)
    from commit_later [OF p, of x ch] obtain h where
      "pending (commit x ch s) = Some (e\<lparr>ceHlc := h, ceOps := ceOps e @ ceOps ch\<rparr>)" by blast
    with e show ?thesis
      by (auto simp: holds_def queued_def intro!: bexI [of _ "e\<lparr>ceHlc := h, ceOps := ceOps e @ ceOps ch\<rparr>"])
  qed
qed

lemma holds_promote: "holds i ops s \<Longrightarrow> holds i ops (fst (promote s))"
  by (simp add: holds_def queued_promote)

lemma holds_push: "holds i ops s \<Longrightarrow> holds i ops (push es s)"
  by (auto simp: holds_def queued_def push_outbox push_pending)

lemma holds_put: "holds i ops s \<Longrightarrow> holds i ops (putRow x s)"
  by (simp add: holds_def queued_def put_queue)

lemma holds_acknowledge: "holds i ops s \<Longrightarrow> i \<notin> set ids \<Longrightarrow> holds i ops (acknowledge ids s)"
  by (auto simp: holds_def queued_def acknowledge_outbox acknowledge_pending)

lemmas holds_steps = holds_commit holds_promote holds_push holds_put holds_acknowledge

end

section \<open>The in-memory store keeps the contract\<close>

definition okTableName :: "string \<Rightarrow> bool" where
  "okTableName t = (CHR ''/'' \<notin> set t)"

lemma rowKey_inject:
  assumes "okTableName t" "okTableName t'"
  shows "rowKey t r = rowKey t' r' \<longleftrightarrow> t = t' \<and> r = r'"
  using assms by (auto simp: rowKey_def okTableName_def first_separator)

lemma keep_hlc: "\<exists>h. p\<lparr>ceOps := os\<rparr> = p\<lparr>ceHlc := h, ceOps := os\<rparr>"
  by (rule exI [of _ "ceHlc p"]) simp

interpretation ms: local_store storeGetRow storePutRow storeCommitLocalMutation storePeekPendingBatch
  storePromotePendingBatch storePeekOutbox storePushOutboxEntries storeAcknowledgeOutbox okTableName
  by unfold_locales
     (auto simp: storeGetRow_def storePutRow_def storeCommitLocalMutation_def storePeekPendingBatch_def
       storePromotePendingBatch_def storePeekOutbox_def storePushOutboxEntries_def
       storeAcknowledgeOutbox_def rowKey_inject Let_def keep_hlc split: option.split)

text \<open>The calls that change the store.\<close>

datatype store_call =
    CallPutRow row
  | CallPutRows "row list"
  | CallClearRows
  | CallCommit row change_entry
  | CallPromote
  | CallPush "change_entry list"
  | CallPushOne change_entry
  | CallAcknowledge "string list"
  | CallDrain
  | CallSetCursor string int
  | CallSetMeta string jsval
  | CallClearAll
  | CallClose

text \<open>A call answers the store and the entries that it hands out and takes off the queue.\<close>

fun runStoreCall :: "store_call \<Rightarrow> memory_store \<Rightarrow> memory_store \<times> change_entry list" where
  "runStoreCall (CallPutRow x) s = (storePutRow x s, [])"
| "runStoreCall (CallPutRows xs) s = (storePutRows xs s, [])"
| "runStoreCall CallClearRows s = (storeClearRows s, [])"
| "runStoreCall (CallCommit x ch) s = (storeCommitLocalMutation x ch s, [])"
| "runStoreCall CallPromote s = (fst (storePromotePendingBatch s), [])"
| "runStoreCall (CallPush es) s = (storePushOutboxEntries es s, [])"
| "runStoreCall (CallPushOne e) s = (storePushOutbox e s, [])"
| "runStoreCall (CallAcknowledge ids) s = (storeAcknowledgeOutbox ids s, [])"
| "runStoreCall CallDrain s = storeDrainOutbox s"
| "runStoreCall (CallSetCursor d n) s = (storeSetCursor d n s, [])"
| "runStoreCall (CallSetMeta k v) s = (storeSetMeta k v s, [])"
| "runStoreCall CallClearAll s = (storeClearAll s, [])"
| "runStoreCall CallClose s = (closeStore s, [])"

fun runStoreCalls :: "store_call list \<Rightarrow> memory_store \<Rightarrow> memory_store \<times> change_entry list" where
  "runStoreCalls [] s = (s, [])"
| "runStoreCalls (c # cs) s =
     (let (s1, out) = runStoreCall c s; (s2, outs) = runStoreCalls cs s1 in (s2, out @ outs))"

definition queuedEntries :: "memory_store \<Rightarrow> change_entry list" where
  "queuedEntries s = storePeekOutbox s @ optList (storePeekPendingBatch s)"

lemma queuedEntries_ms: "queuedEntries = ms.queued"
  by (simp add: fun_eq_iff queuedEntries_def ms.queued_def)

text \<open>The calls that give up an entry: acknowledging its id, clearing the store, closing it.\<close>

fun givesUp :: "string \<Rightarrow> store_call \<Rightarrow> bool" where
  "givesUp i (CallAcknowledge ids) = (i \<in> set ids)"
| "givesUp i CallClearAll = True"
| "givesUp i CallClose = True"
| "givesUp i _ = False"

text \<open>An entry with the id is among some, and begins with the operations.\<close>

definition carries :: "string \<Rightarrow> op list \<Rightarrow> change_entry list \<Rightarrow> bool" where
  "carries i ops es = (\<exists>e \<in> set es. ceId e = i \<and> prefix ops (ceOps e))"

lemma carries_append [simp]: "carries i ops (xs @ ys) \<longleftrightarrow> carries i ops xs \<or> carries i ops ys"
  by (auto simp: carries_def)

lemma carries_queued: "carries i ops (queuedEntries s) \<longleftrightarrow> ms.holds i ops s"
  by (auto simp: carries_def ms.holds_def queuedEntries_ms)

lemma holds_storePutRows: "ms.holds i ops s \<Longrightarrow> ms.holds i ops (storePutRows xs s)"
  by (induction xs arbitrary: s) (auto intro: ms.holds_put)

lemma holds_same_queue:
  "msOutbox s' = msOutbox s \<Longrightarrow> msPendingBatch s' = msPendingBatch s \<Longrightarrow> ms.holds i ops s' \<longleftrightarrow> ms.holds i ops s"
  by (simp add: ms.holds_def ms.queued_def storePeekOutbox_def storePeekPendingBatch_def)

lemma holds_other [simp]:
  "ms.holds i ops (storeClearRows s) \<longleftrightarrow> ms.holds i ops s"
  "ms.holds i ops (storeSetCursor d n s) \<longleftrightarrow> ms.holds i ops s"
  "ms.holds i ops (storeSetMeta k v s) \<longleftrightarrow> ms.holds i ops s"
  by (rule holds_same_queue; simp add: storeClearRows_def storeSetCursor_def storeSetMeta_def)+

lemma runStoreCall_keeps:
  assumes "carries i ops (queuedEntries s)" "\<not> givesUp i c" "runStoreCall c s = (s', out)"
  shows "carries i ops (queuedEntries s' @ out)"
proof (cases "c = CallDrain")
  case True
  then show ?thesis
    using assms by (auto simp: storeDrainOutbox_def queuedEntries_def storePeekOutbox_def storePeekPendingBatch_def)
next
  case False
  have "storePushOutbox e s = storePushOutboxEntries [e] s" for e
    by (simp add: storePushOutbox_def storePushOutboxEntries_def)
  then show ?thesis
    using assms False
    by (cases c) (auto simp: carries_queued ms.holds_steps holds_storePutRows)
qed

lemma runStoreCalls_keep:
  assumes "carries i ops (queuedEntries s)" "\<forall>c \<in> set calls. \<not> givesUp i c" "runStoreCalls calls s = (s', out)"
  shows "carries i ops (queuedEntries s' @ out)"
  using assms
proof (induction calls arbitrary: s out)
  case (Cons c calls)
  obtain s1 o1 where c: "runStoreCall c s = (s1, o1)" by fastforce
  obtain o2 where r: "runStoreCalls calls s1 = (s', o2)" "out = o1 @ o2"
    using Cons.prems(3) by (auto simp: c split: prod.splits)
  have "carries i ops (queuedEntries s1 @ o1)" using runStoreCall_keeps [OF _ _ c] Cons.prems by simp
  then show ?case using Cons.IH [OF _ _ r(1)] Cons.prems(2) r(2) by auto
qed simp

lemma no_drain_no_out: "CallDrain \<notin> set calls \<Longrightarrow> snd (runStoreCalls calls s) = []"
proof (induction calls arbitrary: s)
  case (Cons c calls)
  then have "snd (runStoreCall c s) = []" by (cases c) auto
  then show ?case using Cons.IH [of "fst (runStoreCall c s)"] Cons.prems by (simp add: Let_def split_beta)
qed simp

text \<open>A committed mutation is durable in one step: the row is the one written and every other
  row is as before; the queue's operations are the old ones followed by the new ones; the batch
  keeps the id, time and device of its first change and never moves its clock text back; and the
  persisted clock is the batch's.\<close>

theorem commit_is_atomic:
  assumes "okTableName t" "okTableName (rmTable (meta x))" and "s' = storeCommitLocalMutation x change s"
  shows "storeGetRow s' t r = (if t = rmTable (meta x) \<and> r = rmRowId (meta x) then Some x else storeGetRow s t r)
    \<and> concat (map ceOps (queuedEntries s')) = concat (map ceOps (queuedEntries s)) @ ceOps change
    \<and> storePeekOutbox s' = storePeekOutbox s
    \<and> (\<exists>b. storePeekPendingBatch s' = Some b \<and> storeGetMeta s' ''hlc'' = JStr (ceHlc b) \<and> ceHlc change \<le> ceHlc b
        \<and> (case storePeekPendingBatch s of
             None \<Rightarrow> b = change
           | Some p \<Rightarrow> ceId b = ceId p \<and> ceTs b = ceTs p \<and> ceDevice b = ceDevice p \<and> ceHlc p \<le> ceHlc b))"
  using assms ms.commit_row [of t x change s r] ms.queuedOps_commit [of x change s] ms.commit_outbox [of x change s]
  by (auto simp: queuedEntries_ms storePeekPendingBatch_def storeCommitLocalMutation_def storeGetMeta_def Let_def
      split: option.split)

text \<open>C18: Nothing queued is lost: through any sequence of calls of the store's methods that change
  it, an entry in the outbox or in the pending batch either stays queued under its id, with its
  operations as a prefix, or is handed to a caller that drained the outbox, as long as no call
  acknowledges its id, clears the whole store or closes it. When no call drains, it is still queued.\<close>

theorem queued_until_acknowledged:
  assumes "e \<in> set (queuedEntries s)" "\<forall>c \<in> set calls. \<not> givesUp (ceId e) c"
    and "runStoreCalls calls s = (s', out)"
  shows "(\<exists>e' \<in> set (queuedEntries s' @ out). ceId e' = ceId e \<and> prefix (ceOps e) (ceOps e'))
    \<and> (CallDrain \<notin> set calls \<longrightarrow>
        (\<exists>e' \<in> set (queuedEntries s'). ceId e' = ceId e \<and> prefix (ceOps e) (ceOps e')))"
proof -
  have "carries (ceId e) (ceOps e) (queuedEntries s)" using assms(1) by (auto simp: carries_def)
  from runStoreCalls_keep [OF this assms(2,3)] show ?thesis
    using no_drain_no_out [of calls s] assms(3) by (auto simp: carries_def)
qed

text \<open>Two different rows share a key when a table name holds a slash: storing the second one
  replaces the first.\<close>

theorem row_key_collision:
  "\<exists>x y s. (rmTable (meta x), rmRowId (meta x)) \<noteq> (rmTable (meta y), rmRowId (meta y))
     \<and> map_option (\<lambda>z. (rmTable (meta z), rmRowId (meta z)))
         (storeGetRow (storePutRow y (storePutRow x s)) (rmTable (meta x)) (rmRowId (meta x)))
        = Some (rmTable (meta y), rmRowId (meta y))"
  by (intro exI [of _ "blankRow ''a/b'' ''c'' 1 False None"] exI [of _ "blankRow ''a'' ''b/c'' 1 False None"]
      exI [of _ newMemoryStore]) code_simp

text \<open>A first write of a row, and the entry it queues.\<close>

definition demoChange :: change_entry where
  "demoChange = \<lparr>ceId = ''e1'', ceTs = 1, ceDevice = ''A'', ceUser = None, ceHlc = demoStamp 1 ''A'',
     ceOps = [demoCreate]\<rparr>"

definition demoRow :: row where
  "demoRow = (blankRow ''t'' ''r'' 1 False None)\<lparr>payload := [(''a'', demoEntry 1 ''A'')]\<rparr>"

theorem commit_is_atomic_witness:
  "storeGetRow (storeCommitLocalMutation demoRow demoChange newMemoryStore) ''t'' ''r'' = Some demoRow"
proof -
  have "okTableName ''t''" "okTableName (rmTable (meta demoRow))"
    "rmTable (meta demoRow) = ''t''" "rmRowId (meta demoRow) = ''r''"
    by (simp_all add: okTableName_def demoRow_def blankRow_def)
  with commit_is_atomic [OF this(1,2) refl, of demoChange newMemoryStore "''r''"] show ?thesis by simp
qed

definition demoCalls :: "store_call list" where
  "demoCalls = [CallCommit demoRow demoChange, CallPromote, CallAcknowledge [''other''], CallClearRows]"

theorem queued_until_acknowledged_witness:
  "\<exists>e' \<in> set (queuedEntries (fst (runStoreCalls demoCalls (storeCommitLocalMutation demoRow demoChange newMemoryStore)))).
     ceId e' = ''e1''"
proof -
  let ?s = "storeCommitLocalMutation demoRow demoChange newMemoryStore"
  have "demoChange \<in> set (queuedEntries ?s)"
    by (simp add: queuedEntries_def storePeekOutbox_def storePeekPendingBatch_def storeCommitLocalMutation_def
        newMemoryStore_def Let_def)
  moreover have "\<forall>c \<in> set demoCalls. \<not> givesUp (ceId demoChange) c"
    by (simp add: demoChange_def demoCalls_def)
  ultimately have "CallDrain \<notin> set demoCalls \<longrightarrow>
      (\<exists>e' \<in> set (queuedEntries (fst (runStoreCalls demoCalls ?s))).
         ceId e' = ceId demoChange \<and> prefix (ceOps demoChange) (ceOps e'))"
    using queued_until_acknowledged by (metis surjective_pairing)
  then show ?thesis by (auto simp: demoChange_def demoCalls_def)
qed

end
