(* ===== verification/Observation.thy ===== *)
theory Observation
  imports Memory_Store
begin

text \<open>
  The change observation ledger (\<open>packages/core/src/core/change-observation.ts\<close>): which immutable
  change files were processed, kept in the local store's metadata. A ledger is loaded, records
  files, and is persisted under the store's lock; other ledgers may persist in between, and a reset
  or a snapshot restore starts a new generation. Each locked section is one step of the model.
\<close>

section \<open>Stored state\<close>

definition OBSERVATION_META_KEY :: string where
  "OBSERVATION_META_KEY = ''changeObservation''"

record observation_state =
  obsGeneration :: int
  obsHighWater :: string
  obsSeen :: "string list"
  obsFrontiers :: "(string \<times> string) list"

record late_change =
  lateWriterId :: string
  lateChangeHlc :: string
  lateFileName :: string
  lateBehindWriter :: bool
  lateWriterFrontier :: "string option"
  lateGlobalHighWater :: "string option"

fun getProp :: "jsval \<Rightarrow> string \<Rightarrow> jsval" where
  "getProp (JObj fs) k = (case map_of fs k of None \<Rightarrow> JUndefined | Some v \<Rightarrow> v)"
| "getProp _ k = JUndefined"

fun asString :: "jsval \<Rightarrow> string option" where
  "asString (JStr s) = Some s"
| "asString _ = None"

fun parseSeenChangeFiles :: "jsval \<Rightarrow> string list option" where
  "parseSeenChangeFiles (JArr vs) =
     (if list_ex (\<lambda>v. asString v = None) vs then None else Some (jsetOf (List.map_filter asString vs)))"
| "parseSeenChangeFiles _ = None"

fun parseWriterFrontiers :: "jsval \<Rightarrow> (string \<times> string) list" where
  "parseWriterFrontiers (JObj fs) =
     List.map_filter (\<lambda>(w, v). case asString v of Some h \<Rightarrow> if h \<noteq> '''' then Some (w, h) else None | None \<Rightarrow> None) fs"
| "parseWriterFrontiers _ = []"

definition parseObservationState :: "jsval \<Rightarrow> observation_state option" where
  "parseObservationState v =
     (case parseSeenChangeFiles (getProp v ''seenChangeFiles'') of
        None \<Rightarrow> None
      | Some seen \<Rightarrow>
          Some \<lparr>obsGeneration = (case getProp v ''generation'' of JNum (Num n) \<Rightarrow> n | _ \<Rightarrow> 0),
                obsHighWater = (case getProp v ''globalHighWaterHlc'' of JStr h \<Rightarrow> h | _ \<Rightarrow> ''''),
                obsSeen = seen,
                obsFrontiers = parseWriterFrontiers (getProp v ''writerFrontiers'')\<rparr>)"

definition observationValue :: "observation_state \<Rightarrow> jsval" where
  "observationValue st =
     JObj [(''generation'', JNum (Num (obsGeneration st))),
           (''globalHighWaterHlc'', JStr (obsHighWater st)),
           (''seenChangeFiles'', JArr (map JStr (obsSeen st))),
           (''writerFrontiers'', JObj (map (\<lambda>(w, h). (w, JStr h)) (obsFrontiers st)))]"

definition readObservationState :: "memory_store \<Rightarrow> observation_state option" where
  "readObservationState local = parseObservationState (storeGetMeta local OBSERVATION_META_KEY)"

definition observationGeneration :: "memory_store \<Rightarrow> int" where
  "observationGeneration local =
     (case readObservationState local of None \<Rightarrow> 0 | Some st \<Rightarrow> obsGeneration st)"

section \<open>Change files\<close>

definition changeFileName :: "string \<Rightarrow> string \<Rightarrow> string" where
  "changeFileName h i = h @ ''-'' @ i @ ''.json''"

definition changeFileHlc :: "string \<Rightarrow> string option" where
  "changeFileHlc name =
     (let marker = lastIndexOf name ''-chg_'' in
      if marker = - 1 then None else Some (jslice name 0 marker))"

definition compareChangeFiles :: "string \<Rightarrow> string \<Rightarrow> jnum" where
  "compareChangeFiles left right =
     (let byName = (if left < right then Num (- 1) else if left > right then Num 1 else Num 0) in
      case (truthyHlc (changeFileHlc left), truthyHlc (changeFileHlc right)) of
        (Some leftHlc, Some rightHlc) \<Rightarrow>
          (let compared = hlcCompareStr leftHlc rightHlc in
           if isFinite compared \<and> compared \<noteq> Num 0 then compared else byName)
      | _ \<Rightarrow> byName)"

section \<open>The ledger\<close>

record ledger =
  ldHighWater :: string
  ldSeen :: "string list"
  ldFrontiers :: "(string \<times> string) list"
  ldExact :: bool
  ldGeneration :: int

definition loadUnlocked :: "memory_store \<Rightarrow> ledger" where
  "loadUnlocked local =
     (case readObservationState local of
        None \<Rightarrow> \<lparr>ldHighWater = '''', ldSeen = [], ldFrontiers = [], ldExact = False, ldGeneration = 0\<rparr>
      | Some st \<Rightarrow> \<lparr>ldHighWater = obsHighWater st, ldSeen = obsSeen st, ldFrontiers = obsFrontiers st,
                   ldExact = True, ldGeneration = obsGeneration st\<rparr>)"

definition loadLedger :: "memory_store \<Rightarrow> ledger" where
  "loadLedger local = loadUnlocked local"

definition emptyObservation :: "int \<Rightarrow> observation_state" where
  "emptyObservation generation =
     \<lparr>obsGeneration = generation, obsHighWater = '''', obsSeen = [], obsFrontiers = []\<rparr>"

definition resetObservation :: "memory_store \<Rightarrow> memory_store" where
  "resetObservation local =
     (let generation = observationGeneration local + 1 in
      storeSetMeta OBSERVATION_META_KEY (observationValue (emptyObservation generation)) local)"

definition clearAllObservation :: "memory_store \<Rightarrow> memory_store" where
  "clearAllObservation local =
     (let generation = observationGeneration local + 1;
          cleared = storeClearAll local
      in storeSetMeta OBSERVATION_META_KEY (observationValue (emptyObservation generation)) cleared)"

definition hasSeen :: "ledger \<Rightarrow> string \<Rightarrow> bool" where
  "hasSeen l fileName = (fileName \<in> set (ldSeen l))"

definition isUnseenChange :: "ledger \<Rightarrow> string \<Rightarrow> bool" where
  "isUnseenChange l fileName = (changeFileHlc fileName \<noteq> None \<and> fileName \<notin> set (ldSeen l))"

definition hasUnseenChange :: "ledger \<Rightarrow> string list \<Rightarrow> bool" where
  "hasUnseenChange l files = list_ex (isUnseenChange l) files"

definition capturedChangeFileNames :: "ledger \<Rightarrow> string list" where
  "capturedChangeFileNames l = sort (ldSeen l)"

definition observe :: "string \<Rightarrow> string \<Rightarrow> ledger \<Rightarrow> (ledger \<times> late_change option) result" where
  "observe fileName changeHlc l =
     (case changeFileHlc fileName of
        None \<Rightarrow> Inl (Error ''Invalid change filename'')
      | Some fileHlc \<Rightarrow>
          (let writerId = nodeId (hlcParse fileHlc);
               writerFrontierHlc = map_of (ldFrontiers l) writerId;
               behindWriter = (case truthyHlc writerFrontierHlc of
                   Some f \<Rightarrow> jle (hlcCompareStr fileHlc f) (Num 0) | None \<Rightarrow> False);
               behindGlobal = (if ldHighWater l \<noteq> ''''
                   then jle (hlcCompareStr fileHlc (ldHighWater l)) (Num 0) else False);
               late = (if ldExact l \<and> (behindWriter \<or> behindGlobal)
                   then Some \<lparr>lateWriterId = writerId, lateChangeHlc = fileHlc, lateFileName = fileName,
                          lateBehindWriter = behindWriter, lateWriterFrontier = writerFrontierHlc,
                          lateGlobalHighWater = truthyHlc (Some (ldHighWater l))\<rparr>
                   else None);
               frontiers = (if (case truthyHlc writerFrontierHlc of
                      None \<Rightarrow> True | Some f \<Rightarrow> jgt (hlcCompareStr fileHlc f) (Num 0))
                   then AList.update writerId fileHlc (ldFrontiers l) else ldFrontiers l);
               highWater = (if ldHighWater l = '''' \<or> jgt (hlcCompareStr changeHlc (ldHighWater l)) (Num 0)
                   then changeHlc else ldHighWater l)
           in Inr (l\<lparr>ldFrontiers := frontiers, ldHighWater := highWater,
                     ldSeen := jsetAdd fileName (ldSeen l)\<rparr>, late)))"

fun mergeFrontiers :: "(string \<times> string) list \<Rightarrow> (string \<times> string) list \<Rightarrow> (string \<times> string) list" where
  "mergeFrontiers mine [] = mine"
| "mergeFrontiers mine ((w, frontier) # rest) =
     mergeFrontiers
       (if (case truthyHlc (map_of mine w) of
              None \<Rightarrow> True | Some candidate \<Rightarrow> jgt (hlcCompareStr frontier candidate) (Num 0))
        then AList.update w frontier mine else mine) rest"

definition mergeDurable :: "ledger \<Rightarrow> ledger \<Rightarrow> ledger" where
  "mergeDurable durable l =
     l\<lparr>ldSeen := fold jsetAdd (ldSeen durable) (ldSeen l),
       ldFrontiers := mergeFrontiers (ldFrontiers l) (ldFrontiers durable),
       ldHighWater :=
         (if ldHighWater durable \<noteq> '''' \<and>
             (ldHighWater l = '''' \<or> jgt (hlcCompareStr (ldHighWater durable) (ldHighWater l)) (Num 0))
          then ldHighWater durable else ldHighWater l)\<rparr>"

definition ledgerState :: "ledger \<Rightarrow> observation_state" where
  "ledgerState l =
     \<lparr>obsGeneration = ldGeneration l, obsHighWater = ldHighWater l,
      obsSeen = capturedChangeFileNames l, obsFrontiers = ldFrontiers l\<rparr>"

definition persistLedger :: "ledger \<Rightarrow> memory_store \<Rightarrow> memory_store \<times> ledger \<times> bool" where
  "persistLedger l local =
     (if ldGeneration l \<noteq> observationGeneration local then (local, l, False)
      else
        (let merged = mergeDurable (loadUnlocked local) l in
         (storeSetMeta OBSERVATION_META_KEY (observationValue (ledgerState merged)) local, merged, True)))"

fun observeCovered :: "string list \<Rightarrow> ledger \<Rightarrow> ledger result" where
  "observeCovered [] l = Inr l"
| "observeCovered (fileName # rest) l =
     (case changeFileHlc fileName of
        None \<Rightarrow> Inl (Error ''Invalid snapshot change filename'')
      | Some fileHlc \<Rightarrow>
          bind_result (observe fileName fileHlc l) (\<lambda>(l', _). observeCovered rest l'))"

text \<open>
  The callback that replaces the local rows runs before the files are checked, so the store it
  returned is kept also when a covered name is invalid.
\<close>

definition restoreSnapshot ::
  "string \<Rightarrow> string list \<Rightarrow> (memory_store \<Rightarrow> memory_store \<times> unit result) \<Rightarrow> memory_store \<Rightarrow> memory_store \<times> unit result"
where
  "restoreSnapshot snapshotHlc covered replaceLocalState local =
     (let generation = observationGeneration local + 1 in
      case replaceLocalState local of
        (local', Inl e) \<Rightarrow> (local', Inl e)
      | (local', Inr _) \<Rightarrow>
          (case observeCovered covered
                  \<lparr>ldHighWater = snapshotHlc, ldSeen = [], ldFrontiers = [], ldExact = True, ldGeneration = generation\<rparr> of
             Inl e \<Rightarrow> (local', Inl e)
           | Inr l \<Rightarrow>
               (let l' = (if snapshotHlc \<noteq> '''' \<and> jgt (hlcCompareStr snapshotHlc (ldHighWater l)) (Num 0)
                          then l\<lparr>ldHighWater := snapshotHlc\<rparr> else l)
                in (storeSetMeta OBSERVATION_META_KEY (observationValue (ledgerState l')) local', Inr ()))))"

fun observeEntries :: "change_entry list \<Rightarrow> ledger \<Rightarrow> ledger result" where
  "observeEntries [] l = Inr l"
| "observeEntries (e # es) l =
     (if ceHlc e = '''' then observeEntries es l
      else bind_result (observe (changeFileName (ceHlc e) (ceId e)) (ceHlc e) l)
             (\<lambda>(l', _). observeEntries es l'))"

definition recordFlushedChanges :: "change_entry list \<Rightarrow> memory_store \<Rightarrow> memory_store \<times> unit result" where
  "recordFlushedChanges entries local =
     (case observeEntries entries (loadLedger local) of
        Inl e \<Rightarrow> (local, Inl e)
      | Inr l \<Rightarrow>
          (case persistLedger l local of
             (local', _, True) \<Rightarrow> (local', Inr ())
           | (local', _, False) \<Rightarrow>
               (local', Inl (Error ''Observation state changed before publication; retry the flush''))))"

section \<open>File names\<close>

definition noMarker :: "string \<Rightarrow> bool" where
  "noMarker s = (\<forall>i \<le> length s. \<not> startsAt ''-chg_'' s i)"

lemma marker_not_inside:
  assumes "noMarker rest" "length h < i"
  shows "\<not> startsAt ''-chg_'' (h @ ''-chg_'' @ rest) i"
proof
  assume at: "startsAt ''-chg_'' (h @ ''-chg_'' @ rest) i"
  obtain j where j: "i = length h + j" "0 < j" using assms(2) by (metis less_imp_add_positive)
  from at have "take 5 (drop j (''-chg_'' @ rest)) = ''-chg_''" by (simp add: startsAt_def j numeral_eq_Suc)
  then have "5 \<le> j" using j(2)
    by (cases "j = 1 \<or> j = 2 \<or> j = 3 \<or> j = 4") (auto simp: numeral_eq_Suc take_Cons' split: if_splits)
  then obtain k where k: "j = 5 + k" by (metis le_Suc_ex)
  from at have r: "startsAt ''-chg_'' rest k" by (simp add: startsAt_def j k numeral_eq_Suc)
  moreover have "k \<le> length rest" using r by (rule contrapos_pp) (simp add: startsAt_def)
  ultimately show False using assms(1) by (simp add: noMarker_def)
qed

lemma changeFileHlc_marker:
  assumes "noMarker rest"
  shows "changeFileHlc (h @ ''-chg_'' @ rest) = Some h"
proof -
  let ?s = "h @ ''-chg_'' @ rest"
  have split: "[0..<Suc (length ?s)] = [0..<length h] @ length h # [Suc (length h)..<Suc (length ?s)]"
    by (rule upt_split) simp
  have later: "filter (startsAt ''-chg_'' ?s) [Suc (length h)..<Suc (length ?s)] = []"
    using marker_not_inside [OF assms] by (auto simp: filter_empty_conv simp del: upt_Suc)
  have here: "startsAt ''-chg_'' ?s (length h)" by (simp add: startsAt_def)
  have "lastIndexOf ?s ''-chg_'' = int (length h)"
    unfolding lastIndexOf_def split filter_append filter.simps(2) later using here by simp
  then show ?thesis by (simp add: changeFileHlc_def jslice_def clampIndex_def)
qed

text \<open>An entry id is \<open>chg_\<close> and a tail without another marker.\<close>

definition changeIdOk :: "string \<Rightarrow> bool" where
  "changeIdOk i = (take 4 i = ''chg_'' \<and> noMarker (drop 4 i @ ''.json''))"

lemma changeFileHlc_changeFileName: "changeIdOk i \<Longrightarrow> changeFileHlc (changeFileName h i) = Some h"
proof -
  assume ok: "changeIdOk i"
  then obtain t where t: "i = ''chg_'' @ t" by (metis append_take_drop_id changeIdOk_def)
  with ok have "noMarker (t @ ''.json'')" by (simp add: changeIdOk_def)
  from changeFileHlc_marker [OF this, of h] show ?thesis by (simp add: changeFileName_def t)
qed

definition changeFileOk :: "string \<Rightarrow> bool" where
  "changeFileOk name = (case changeFileHlc name of None \<Rightarrow> False | Some h \<Rightarrow> stampOk h)"

definition changeFileKey :: "string \<Rightarrow> (int \<times> int \<times> string) \<times> string" where
  "changeFileKey name = (stampKey (the (changeFileHlc name)), name)"

interpretation chgfile: js_comparator changeFileOk changeFileKey compareChangeFiles
proof
  fix a b
  assume "changeFileOk a" "changeFileOk b"
  then obtain g h where g: "changeFileHlc a = Some g" "stampOk g" and h: "changeFileHlc b = Some h" "stampOk h"
    by (auto simp: changeFileOk_def split: option.splits)
  have sg: "jsgn (hlcCompareStr g h) = Num (cmpSign (stampKey g) (stampKey h))" using g h stamp.sign by blast
  then obtain n where n: "hlcCompareStr g h = Num n" "sgn n = cmpSign (stampKey g) (stampKey h)"
    by (auto simp: jsgn_Num_iff)
  have tr: "truthyHlc (Some g) = Some g" "truthyHlc (Some h) = Some h"
    using g h by (auto simp: truthyHlc_def)
  have zero: "n = 0 \<longleftrightarrow> stampKey g = stampKey h" using n(2) by (auto simp: cmpSign_def sgn_if split: if_splits)
  show "jsgn (compareChangeFiles a b) = Num (cmpSign (changeFileKey a) (changeFileKey b))"
  proof (cases "n = 0")
    case True
    with zero show ?thesis
      by (simp add: compareChangeFiles_def g h tr n(1) Let_def changeFileKey_def cmpSign_def less_prod_simp)
  next
    case False
    with zero n(2) show ?thesis
      by (auto simp: compareChangeFiles_def g h tr n(1) Let_def changeFileKey_def cmpSign_def less_prod_simp)
  qed
qed (simp add: changeFileKey_def)

section \<open>Stored receipts\<close>

lemma storeGetMeta_set [simp]:
  "storeGetMeta (storeSetMeta k v s) k' = (if k' = k then v else storeGetMeta s k')"
  by (simp add: storeGetMeta_def storeSetMeta_def)

lemma map_filter_asString [simp]: "List.map_filter asString (map JStr xs) = xs"
  by (induction xs) (simp_all add: List.map_filter_simps)

lemma read_written:
  assumes "distinct (obsSeen st)"
  shows "\<exists>st'. readObservationState (storeSetMeta OBSERVATION_META_KEY (observationValue st) s) = Some st'
    \<and> obsGeneration st' = obsGeneration st \<and> obsHighWater st' = obsHighWater st \<and> obsSeen st' = obsSeen st"
proof -
  have "\<not> list_ex (\<lambda>v. asString v = None) (map JStr (obsSeen st))" by (auto simp: list_ex_iff)
  with assms show ?thesis
    by (simp add: readObservationState_def observationValue_def parseObservationState_def jsetOf_distinct)
qed

lemma loadLedger_written:
  assumes "distinct (obsSeen st)" "s' = storeSetMeta OBSERVATION_META_KEY (observationValue st) s"
  shows "ldSeen (loadLedger s') = obsSeen st" "ldExact (loadLedger s')"
    "ldGeneration (loadLedger s') = obsGeneration st" "observationGeneration s' = obsGeneration st"
    "ldHighWater (loadLedger s') = obsHighWater st"
  using read_written [OF assms(1), of s] assms(2)
  by (auto simp: loadLedger_def loadUnlocked_def observationGeneration_def)

lemma distinct_loadLedger: "distinct (ldSeen (loadLedger s))"
proof -
  have "parseSeenChangeFiles v = Some xs \<Longrightarrow> distinct xs" for v xs
    by (cases v) (auto split: if_splits)
  then show ?thesis
    by (auto simp: loadLedger_def loadUnlocked_def readObservationState_def parseObservationState_def
        split: option.split)
qed

lemma ledger_generation: "ldGeneration (loadLedger s) = observationGeneration s"
  by (simp add: loadLedger_def loadUnlocked_def observationGeneration_def split: option.split)

lemma persist_stale: "ldGeneration l \<noteq> observationGeneration s \<Longrightarrow> persistLedger l s = (s, l, False)"
  by (simp add: persistLedger_def)

lemma persist_current:
  assumes "ldGeneration l = observationGeneration s" "distinct (ldSeen l)"
  obtains s' l' where "persistLedger l s = (s', l', True)"
    "set (ldSeen (loadLedger s')) = set (ldSeen (loadLedger s)) \<union> set (ldSeen l)"
    "observationGeneration s' = observationGeneration s"
proof -
  let ?m = "mergeDurable (loadUnlocked s) l"
  let ?s = "storeSetMeta OBSERVATION_META_KEY (observationValue (ledgerState ?m)) s"
  have seen: "obsSeen (ledgerState ?m) = sort (fold jsetAdd (ldSeen (loadLedger s)) (ldSeen l))"
    by (simp add: ledgerState_def capturedChangeFileNames_def mergeDurable_def loadLedger_def)
  with assms(2) have "distinct (obsSeen (ledgerState ?m))" by simp
  note loaded = loadLedger_written [OF this refl, of s]
  have "obsGeneration (ledgerState ?m) = observationGeneration s"
    using assms(1) by (simp add: ledgerState_def mergeDurable_def)
  with loaded seen show thesis
    using assms(1) by (intro that [of ?s ?m]) (auto simp: persistLedger_def Let_def)
qed

lemma observe_seen:
  assumes "observe f h l = Inr (l', late)"
  shows "ldSeen l' = jsetAdd f (ldSeen l)" "ldGeneration l' = ldGeneration l" "ldExact l' = ldExact l"
    "changeFileHlc f \<noteq> None"
  using assms by (auto simp: observe_def Let_def split: option.splits)

lemma observeCovered_seen:
  "observeCovered fs l = Inr l' \<Longrightarrow> ldSeen l' = fold jsetAdd fs (ldSeen l) \<and> ldGeneration l' = ldGeneration l"
  by (induction fs arbitrary: l)
     (fastforce simp: bind_result_Inr_iff dest: observe_seen split: option.splits)+

lemma observeEntries_seen:
  "observeEntries es l = Inr l' \<Longrightarrow>
     ldSeen l' = fold jsetAdd (map (\<lambda>e. changeFileName (ceHlc e) (ceId e)) (filter (\<lambda>e. ceHlc e \<noteq> '''') es)) (ldSeen l)
     \<and> ldGeneration l' = ldGeneration l"
  by (induction es arbitrary: l)
     (fastforce simp: bind_result_Inr_iff dest: observe_seen split: if_splits)+

section \<open>Properties\<close>

definition persistAll :: "ledger list \<Rightarrow> memory_store \<Rightarrow> memory_store" where
  "persistAll ls s = fold (\<lambda>l s. fst (persistLedger l s)) ls s"

text \<open>C16: Receipts are exact under any interleaving of ledgers: after any sequence of persists by
  any ledgers, loaded at any time, the files recorded as seen are those recorded before and those
  of the ledgers of the current generation, whatever their clocks. No persist erases another's
  receipts.\<close>

theorem receipts_exact:
  assumes "\<forall>l \<in> set ls. distinct (ldSeen l)"
  shows "hasSeen (loadLedger (persistAll ls s)) f \<longleftrightarrow>
    hasSeen (loadLedger s) f \<or> (\<exists>l \<in> set ls. ldGeneration l = observationGeneration s \<and> hasSeen l f)"
  using assms
proof (induction ls arbitrary: s)
  case Nil
  then show ?case by (simp add: persistAll_def)
next
  case (Cons l ls)
  let ?s = "fst (persistLedger l s)"
  have step: "persistAll (l # ls) s = persistAll ls ?s" by (simp add: persistAll_def)
  have IH: "hasSeen (loadLedger (persistAll ls ?s)) f \<longleftrightarrow>
      hasSeen (loadLedger ?s) f \<or> (\<exists>l \<in> set ls. ldGeneration l = observationGeneration ?s \<and> hasSeen l f)"
    using Cons by simp
  show ?case
  proof (cases "ldGeneration l = observationGeneration s")
    case True
    moreover have "distinct (ldSeen l)" using Cons.prems by simp
    ultimately obtain s' l' where "persistLedger l s = (s', l', True)"
      "set (ldSeen (loadLedger s')) = set (ldSeen (loadLedger s)) \<union> set (ldSeen l)"
      "observationGeneration s' = observationGeneration s" by (rule persist_current)
    with True IH show ?thesis unfolding step by (auto simp: hasSeen_def)
  next
    case False
    with IH show ?thesis unfolding step by (simp add: persist_stale)
  qed
qed

lemma restoreSnapshot_ok:
  assumes "restoreSnapshot snap covered replaceState s = (s', Inr ())"
  shows "set (ldSeen (loadLedger s')) = set covered \<and> observationGeneration s' = observationGeneration s + 1"
proof -
  let ?l0 = "\<lparr>ldHighWater = snap, ldSeen = [], ldFrontiers = [], ldExact = True, ldGeneration = observationGeneration s + 1\<rparr>"
  obtain s1 l where l: "observeCovered covered ?l0 = Inr l"
    and s': "s' = storeSetMeta OBSERVATION_META_KEY (observationValue (ledgerState
      (if snap \<noteq> '''' \<and> jgt (hlcCompareStr snap (ldHighWater l)) (Num 0) then l\<lparr>ldHighWater := snap\<rparr> else l))) s1"
    using assms by (auto simp: restoreSnapshot_def Let_def split: prod.splits sum.splits)
  let ?st = "ledgerState (if snap \<noteq> '''' \<and> jgt (hlcCompareStr snap (ldHighWater l)) (Num 0) then l\<lparr>ldHighWater := snap\<rparr> else l)"
  have "obsSeen ?st = sort (fold jsetAdd covered [])" "obsGeneration ?st = observationGeneration s + 1"
    using observeCovered_seen [OF l] by (simp_all add: ledgerState_def capturedChangeFileNames_def)
  with loadLedger_written [of ?st s' s1] s' show ?thesis by simp
qed

text \<open>A reset, a clearing of the store and a snapshot restore each start a new generation whose
  receipts are exactly none, none, and the snapshot's covered files; a ledger of the generation
  before can no longer persist anything.\<close>

theorem new_generation:
  assumes "ldGeneration l = observationGeneration s"
    and "(s', files) = (resetObservation s, []) \<or> (s', files) = (clearAllObservation s, [])
      \<or> restoreSnapshot snap files replaceState s = (s', Inr ())"
  shows "observationGeneration s' = observationGeneration s + 1
    \<and> (\<forall>f. hasSeen (loadLedger s') f \<longleftrightarrow> f \<in> set files)
    \<and> persistLedger l s' = (s', l, False)"
proof -
  let ?e = "emptyObservation (observationGeneration s + 1)"
  have "set (ldSeen (loadLedger s')) = set files \<and> observationGeneration s' = observationGeneration s + 1"
    using assms(2) restoreSnapshot_ok [of snap files replaceState s s'] loadLedger_written [of ?e s']
    by (elim disjE) (simp_all add: resetObservation_def clearAllObservation_def Let_def emptyObservation_def)
  with assms(1) show ?thesis by (simp add: hasSeen_def persist_stale)
qed

definition stampMax :: "string option \<Rightarrow> string \<Rightarrow> string" where
  "stampMax old new = (case truthyHlc old of None \<Rightarrow> new | Some h \<Rightarrow> if stampKey h < stampKey new then new else h)"

definition notAfter :: "string \<Rightarrow> string option \<Rightarrow> bool" where
  "notAfter h bound = (case truthyHlc bound of None \<Rightarrow> False | Some b \<Rightarrow> stampKey h \<le> stampKey b)"

text \<open>Recording a change file makes exactly that file seen; whether a file is still to be read
  never depends on clocks. The clocks only feed the diagnosis: a file is reported late exactly when
  the history is exact and its clock is not after its writer's newest file or not after the newest
  change, and both bounds become the maximum.\<close>

theorem observe_exact:
  assumes "changeFileHlc f = Some fh" "stampOk fh" "stampOk h"
    and "ldHighWater l = '''' \<or> stampOk (ldHighWater l)" "list_all (\<lambda>(_, x). stampOk x) (ldFrontiers l)"
    and "writer = nodeId (hlcParse fh)"
  shows "\<exists>l' late. observe f h l = Inr (l', late)
    \<and> (\<forall>g. isUnseenChange l' g \<longleftrightarrow> isUnseenChange l g \<and> g \<noteq> f)
    \<and> (late \<noteq> None \<longleftrightarrow> ldExact l \<and> (notAfter fh (map_of (ldFrontiers l) writer) \<or> notAfter fh (Some (ldHighWater l))))
    \<and> map_of (ldFrontiers l') = (map_of (ldFrontiers l))(writer \<mapsto> stampMax (map_of (ldFrontiers l) writer) fh)
    \<and> ldHighWater l' = stampMax (Some (ldHighWater l)) h"
proof -
  have front: "stampOk x" if "map_of (ldFrontiers l) writer = Some x" for x
    using assms(5) map_of_SomeD [OF that] by (auto simp: list_all_iff)
  have hw: "truthyHlc (Some (ldHighWater l)) = (if ldHighWater l = '''' then None else Some (ldHighWater l))"
    by (simp add: truthyHlc_def)
  have fr: "truthyHlc (map_of (ldFrontiers l) writer) = map_of (ldFrontiers l) writer"
    using front by (auto simp: truthyHlc_def split: option.splits)
  show ?thesis
    using assms front
    by (cases "map_of (ldFrontiers l) writer")
       (auto simp: observe_def Let_def isUnseenChange_def notAfter_def stampMax_def hw fr stamp_simps truthyHlc_def
         simp del: assms(6) split: option.splits)
qed

text \<open>Change files have one order: whatever order a folder lists the files of a set of entries
  in, sorting them gives the same sequence, and it goes by clock.\<close>

theorem change_file_order:
  assumes "\<forall>f \<in> set xs. changeFileOk f" "distinct xs" "distinct ys" "set xs = set ys"
  shows "jsort compareChangeFiles xs = jsort compareChangeFiles ys
    \<and> sorted (map (\<lambda>f. stampKey (the (changeFileHlc f))) (jsort compareChangeFiles xs))"
proof
  show "jsort compareChangeFiles xs = jsort compareChangeFiles ys"
    by (rule chgfile.jsort_unique) (use assms in auto)
  have le: "stampKey (the (changeFileHlc a)) \<le> stampKey (the (changeFileHlc b))"
    if "changeFileKey a \<le> changeFileKey b" for a b
    using that unfolding changeFileKey_def less_eq_prod_simp by (auto intro: less_imp_le)
  have "sorted (map changeFileKey (jsort compareChangeFiles xs))"
    by (rule chgfile.sorted_jsort [OF assms(1)])
  then show "sorted (map (\<lambda>f. stampKey (the (changeFileHlc f))) (jsort compareChangeFiles xs))"
    unfolding sorted_map by (rule sorted_wrt_mono_rel [rotated]) (blast intro: le)
qed

text \<open>The witnesses use files of two writers.\<close>

definition demoFile :: "int \<Rightarrow> string \<Rightarrow> string" where
  "demoFile n node = changeFileName (demoStamp n node) ''chg_1''"

lemma demoFile_hlc: "changeFileHlc (demoFile n node) = Some (demoStamp n node)"
proof -
  have "noMarker ''1.json''" by (auto simp: noMarker_def startsAt_def numeral_eq_Suc le_Suc_eq)
  then have "changeIdOk ''chg_1''" by (simp add: changeIdOk_def)
  then show ?thesis unfolding demoFile_def by (rule changeFileHlc_changeFileName)
qed

definition demoLedger :: "string list \<Rightarrow> ledger" where
  "demoLedger fs = \<lparr>ldHighWater = '''', ldSeen = fs, ldFrontiers = [], ldExact = True, ldGeneration = 0\<rparr>"

theorem receipts_exact_witness:
  "hasSeen (loadLedger (persistAll [demoLedger [''a''], demoLedger [''b'']] newMemoryStore)) ''a''"
proof -
  have "\<forall>l \<in> set [demoLedger [''a''], demoLedger [''b'']]. distinct (ldSeen l)" by (simp add: demoLedger_def)
  moreover have "observationGeneration newMemoryStore = 0" by code_simp
  ultimately show ?thesis
    by (subst receipts_exact) (simp_all add: demoLedger_def hasSeen_def)
qed

theorem new_generation_witness:
  "persistLedger (demoLedger [''a'']) (resetObservation newMemoryStore)
     = (resetObservation newMemoryStore, demoLedger [''a''], False)"
proof -
  have "ldGeneration (demoLedger [''a'']) = observationGeneration newMemoryStore" by code_simp
  from new_generation [OF this, of "resetObservation newMemoryStore" "[]"] show ?thesis by simp
qed

theorem observe_exact_witness:
  "\<exists>l' late. observe (demoFile 1 ''A'') (demoStamp 1 ''A'') ((demoLedger [])\<lparr>ldHighWater := demoStamp 2 ''B''\<rparr>) = Inr (l', late)
     \<and> late \<noteq> None \<and> hasSeen l' (demoFile 1 ''A'')"
proof -
  let ?l = "(demoLedger [])\<lparr>ldHighWater := demoStamp 2 ''B''\<rparr>"
  have "notAfter (demoStamp 1 ''A'') (Some (ldHighWater ?l))"
    by (simp add: notAfter_def truthyHlc_stamp) (simp add: demoStamp_def validHlc_def hlcKey_def less_eq_prod_simp)
  moreover have "\<exists>l' late. observe (demoFile 1 ''A'') (demoStamp 1 ''A'') ?l = Inr (l', late)
    \<and> (\<forall>g. isUnseenChange l' g \<longleftrightarrow> isUnseenChange ?l g \<and> g \<noteq> demoFile 1 ''A'')
    \<and> (late \<noteq> None \<longleftrightarrow> ldExact ?l \<and> (notAfter (demoStamp 1 ''A'') (map_of (ldFrontiers ?l) (nodeId (hlcParse (demoStamp 1 ''A''))))
        \<or> notAfter (demoStamp 1 ''A'') (Some (ldHighWater ?l))))
    \<and> map_of (ldFrontiers l') = (map_of (ldFrontiers ?l))(nodeId (hlcParse (demoStamp 1 ''A''))
         \<mapsto> stampMax (map_of (ldFrontiers ?l) (nodeId (hlcParse (demoStamp 1 ''A'')))) (demoStamp 1 ''A''))
    \<and> ldHighWater l' = stampMax (Some (ldHighWater ?l)) (demoStamp 1 ''A'')"
    by (rule observe_exact [OF demoFile_hlc]) (simp_all add: demoLedger_def)
  moreover have "ldExact ?l" by (simp add: demoLedger_def)
  ultimately show ?thesis using demoFile_hlc by (auto simp: hasSeen_def isUnseenChange_def)
qed

theorem change_file_order_witness:
  "jsort compareChangeFiles [demoFile 2 ''B'', demoFile 1 ''A''] = jsort compareChangeFiles [demoFile 1 ''A'', demoFile 2 ''B'']"
proof -
  have "demoFile 1 ''A'' \<noteq> demoFile 2 ''B''" by code_simp
  moreover have "\<forall>f \<in> set [demoFile 2 ''B'', demoFile 1 ''A'']. changeFileOk f"
    by (simp add: changeFileOk_def demoFile_hlc)
  ultimately show ?thesis
    by (intro conjunct1 [OF change_file_order]) auto
qed

end
