(* ===== verification/Storage_Adapter.thy ===== *)
theory Storage_Adapter
  imports Js_Prelude "HOL-Library.AList"
begin

text \<open>
  The remote: the \<open>StorageAdapter\<close> interface of \<open>packages/core/src/core/types.ts\<close> as a
  record of operations on an adapter state, with the contract the engine relies on as the locale
  \<open>storage_adapter\<close>, and the reference implementation (\<open>packages/core/src/adapters/memory.ts\<close>)
  with one definition per method. The bytes of a file are a type parameter whose \<open>size\<close> stands
  for \<open>byteLength\<close>. The current time is an argument, as the text \<open>toISOString()\<close> gives.
\<close>

section \<open>Interface\<close>

record file_entry =
  feName :: string
  fePath :: string
  feSize :: nat
  feModifiedTime :: string

record ('r, 'b) adapter_ops =
  opEnsureFolder :: "string \<Rightarrow> 'r \<Rightarrow> 'r \<times> unit result"
  opListFiles :: "string \<Rightarrow> 'r \<Rightarrow> file_entry list result"
  opReadFile :: "string \<Rightarrow> 'r \<Rightarrow> 'b result"
  opWriteFile :: "string \<Rightarrow> 'b \<Rightarrow> 'r \<Rightarrow> 'r \<times> unit result"
  opDeleteFile :: "string \<Rightarrow> 'r \<Rightarrow> 'r \<times> unit result"
  opResetFolderCache :: "'r \<Rightarrow> 'r"

text \<open>
  What the engine relies on when operations succeed: a file reads as it was last written, a deleted
  file is gone, no operation touches another file, and a folder's listing names exactly the files
  directly below it. Any operation may fail; a failed one may not change a file.
\<close>

definition directChild :: "string \<Rightarrow> string \<Rightarrow> string \<Rightarrow> bool" where
  "directChild folder name path = (path = folder @ ''/'' @ name \<and> CHR ''/'' \<notin> set name)"

locale storage_adapter =
  fixes ops :: "('r, 'b) adapter_ops"
    and contents :: "'r \<Rightarrow> string \<Rightarrow> 'b option"
    and okFolder :: "string \<Rightarrow> bool"
  assumes read_ok: "opReadFile ops p r = Inr d \<Longrightarrow> contents r p = Some d"
    and write_ok: "opWriteFile ops p d r = (r', Inr ()) \<Longrightarrow> contents r' = (contents r)(p \<mapsto> d)"
    and write_fail: "opWriteFile ops p d r = (r', Inl e) \<Longrightarrow> contents r' = contents r"
    and delete_ok: "opDeleteFile ops p r = (r', Inr ()) \<Longrightarrow> contents r' = (contents r)(p := None)"
    and delete_fail: "opDeleteFile ops p r = (r', Inl e) \<Longrightarrow> contents r' = contents r"
    and reset_any: "contents (opResetFolderCache ops r) = contents r"
    and ensure_any: "opEnsureFolder ops p r = (r', res) \<Longrightarrow> contents r' = contents r"
    and list_ok: "okFolder f \<Longrightarrow> opListFiles ops f r = Inr es \<Longrightarrow>
      (\<exists>d. contents r p = Some d \<and> directChild f n p) \<longleftrightarrow> (\<exists>e \<in> set es. feName e = n \<and> fePath e = p)"
begin

lemma write_file:
  "opWriteFile ops p d r = (r', res) \<Longrightarrow> contents r' = (if isOk res then (contents r)(p \<mapsto> d) else contents r)"
  using write_ok [of p d r r'] write_fail [of p d r r'] by (cases res) auto

lemma delete_file:
  "opDeleteFile ops p r = (r', res) \<Longrightarrow> contents r' = (if isOk res then (contents r)(p := None) else contents r)"
  using delete_ok [of p r r'] delete_fail [of p r r'] by (cases res) auto

lemma read_after_write:
  "opWriteFile ops p d r = (r', Inr ()) \<Longrightarrow> opReadFile ops p r' = Inr d' \<Longrightarrow> d' = d"
  using write_ok read_ok by fastforce

end

section \<open>The in-memory adapter\<close>

record stored_file_metadata =
  sfName :: string
  sfPath :: string
  sfSize :: nat
  sfModifiedTime :: string
  sfUploadedAt :: "string option"
  sfUploadedByDeviceId :: "string option"
  sfStoredSize :: "nat option"
  sfLastAccessedAt :: "string option"
  sfUseCount :: "nat option"

record 'b memory_adapter =
  maFiles :: "(string \<times> ('b \<times> string)) list"
  maStoredFileMetadata :: "(string \<times> stored_file_metadata) list"
  maSealGuards :: "(string \<times> string) list"
  maFolders :: "string list"
  maAuthenticated :: bool
  maEnsuredFolders :: "string list"

definition newMemoryAdapter :: "'b memory_adapter" where
  "newMemoryAdapter = \<lparr>maFiles = [], maStoredFileMetadata = [], maSealGuards = [], maFolders = [],
     maAuthenticated = False, maEnsuredFolders = []\<rparr>"

definition memAuthenticate :: "'b memory_adapter \<Rightarrow> 'b memory_adapter" where
  "memAuthenticate r = r\<lparr>maAuthenticated := True\<rparr>"

definition memIsAuthenticated :: "'b memory_adapter \<Rightarrow> bool" where
  "memIsAuthenticated r = maAuthenticated r"

definition memEnsureFolder :: "string \<Rightarrow> 'b memory_adapter \<Rightarrow> 'b memory_adapter" where
  "memEnsureFolder path r =
     (if path \<in> set (maEnsuredFolders r) then r
      else r\<lparr>maFolders := jsetAdd path (maFolders r), maEnsuredFolders := jsetAdd path (maEnsuredFolders r)\<rparr>)"

definition memResetFolderCache :: "'b memory_adapter \<Rightarrow> 'b memory_adapter" where
  "memResetFolderCache r = r\<lparr>maEnsuredFolders := []\<rparr>"

definition folderPrefix :: "string \<Rightarrow> string" where
  "folderPrefix folderPath = (if endsWith folderPath ''/'' then folderPath else folderPath @ ''/'')"

definition memListFiles :: "string \<Rightarrow> 'b::size memory_adapter \<Rightarrow> file_entry list" where
  "memListFiles folderPath r =
     (let prefix = folderPrefix folderPath in
      List.map_filter
        (\<lambda>(path, data, modified).
           if startsWith path prefix then
             (let remaining = jsliceFrom path (int (length prefix)) in
              if CHR ''/'' \<notin> set remaining
              then Some \<lparr>feName = remaining, fePath = path, feSize = size data, feModifiedTime = modified\<rparr>
              else None)
           else None)
        (maFiles r))"

definition memListFolders :: "string \<Rightarrow> 'b memory_adapter \<Rightarrow> string list" where
  "memListFolders folderPath r =
     (let prefix = folderPrefix folderPath;
          fromFiles = List.map_filter
            (\<lambda>path. if startsWith path prefix then
                (let remaining = jsliceFrom path (int (length prefix));
                     slash = indexOf remaining ''/'' 0
                 in if slash > 0 then Some (jslice remaining 0 slash) else None)
              else None) (map fst (maFiles r));
          fromFolders = List.map_filter
            (\<lambda>folder. if startsWith folder prefix then
                (let remaining = jsliceFrom folder (int (length prefix)) in
                 if remaining \<noteq> '''' \<and> CHR ''/'' \<notin> set remaining then Some remaining else None)
              else None) (maFolders r)
      in jsetOf (fromFiles @ fromFolders))"

definition memReadFile :: "string \<Rightarrow> 'b memory_adapter \<Rightarrow> 'b result" where
  "memReadFile path r =
     (case map_of (maFiles r) path of
        None \<Rightarrow> Inl (Error ''Object not found'')
      | Some (data, _) \<Rightarrow> Inr data)"

definition memWriteFile :: "string \<Rightarrow> string \<Rightarrow> 'b \<Rightarrow> 'b memory_adapter \<Rightarrow> 'b memory_adapter" where
  "memWriteFile now path data r = r\<lparr>maFiles := AList.update path (data, now) (maFiles r)\<rparr>"

definition memDeleteFile :: "string \<Rightarrow> 'b memory_adapter \<Rightarrow> 'b memory_adapter" where
  "memDeleteFile path r = r\<lparr>maFiles := AList.delete path (maFiles r)\<rparr>"

text \<open>\<open>path.split("/").pop() || path\<close>.\<close>

definition baseName :: "string \<Rightarrow> string" where
  "baseName path = (let name = last (jsplit (CHR ''/'') path) in if name = '''' then path else name)"

definition memGetFileMetadata :: "string \<Rightarrow> 'b::size memory_adapter \<Rightarrow> file_entry option" where
  "memGetFileMetadata path r =
     (case map_of (maFiles r) path of
        None \<Rightarrow> None
      | Some (data, modified) \<Rightarrow>
          Some \<lparr>feName = baseName path, fePath = path, feSize = size data, feModifiedTime = modified\<rparr>)"

definition requireSealGuard :: "string \<Rightarrow> string option \<Rightarrow> 'b memory_adapter \<Rightarrow> unit result" where
  "requireSealGuard path presented r =
     (case map_of (maSealGuards r) path of
        Some expected \<Rightarrow>
          if expected \<noteq> '''' \<and> presented \<noteq> Some expected
          then Inl (Error ''Stored file is sealed; its key is required to overwrite or delete it'')
          else Inr ()
      | None \<Rightarrow> Inr ())"

definition memPutStoredFile ::
  "string \<Rightarrow> string \<Rightarrow> 'b::size \<Rightarrow> string option \<Rightarrow> string option \<Rightarrow> 'b memory_adapter \<Rightarrow>
     'b memory_adapter \<times> stored_file_metadata result"
where
  "memPutStoredFile now path data sealGuard device r =
     (case requireSealGuard path sealGuard r of
        Inl e \<Rightarrow> (r, Inl e)
      | Inr _ \<Rightarrow>
          (let r1 = memWriteFile now path data r;
               r2 = (case sealGuard of
                       Some g \<Rightarrow> if g \<noteq> '''' then r1\<lparr>maSealGuards := AList.update path g (maSealGuards r1)\<rparr>
                                 else r1\<lparr>maSealGuards := AList.delete path (maSealGuards r1)\<rparr>
                     | None \<Rightarrow> r1\<lparr>maSealGuards := AList.delete path (maSealGuards r1)\<rparr>);
               m = \<lparr>sfName = baseName path, sfPath = path, sfSize = size data, sfModifiedTime = now,
                    sfUploadedAt = Some now, sfUploadedByDeviceId = device, sfStoredSize = Some (size data),
                    sfLastAccessedAt = None, sfUseCount = Some 0\<rparr>
           in (r2\<lparr>maStoredFileMetadata := AList.update path m (maStoredFileMetadata r2)\<rparr>, Inr m)))"

definition memGetStoredFile :: "string \<Rightarrow> string \<Rightarrow> 'b memory_adapter \<Rightarrow> 'b memory_adapter \<times> 'b result" where
  "memGetStoredFile now path r =
     (case memReadFile path r of
        Inl e \<Rightarrow> (r, Inl e)
      | Inr data \<Rightarrow>
          (case map_of (maStoredFileMetadata r) path of
             None \<Rightarrow> (r, Inr data)
           | Some m \<Rightarrow>
               (r\<lparr>maStoredFileMetadata := AList.update path
                    (m\<lparr>sfLastAccessedAt := Some now,
                       sfUseCount := Some ((case sfUseCount m of None \<Rightarrow> 0 | Some n \<Rightarrow> n) + 1)\<rparr>)
                    (maStoredFileMetadata r)\<rparr>, Inr data)))"

definition memDeleteStoredFile ::
  "string \<Rightarrow> string option \<Rightarrow> 'b memory_adapter \<Rightarrow> 'b memory_adapter \<times> unit result"
where
  "memDeleteStoredFile path sealGuard r =
     (case requireSealGuard path sealGuard r of
        Inl e \<Rightarrow> (r, Inl e)
      | Inr _ \<Rightarrow>
          (let r1 = memDeleteFile path r in
           (r1\<lparr>maStoredFileMetadata := AList.delete path (maStoredFileMetadata r1),
               maSealGuards := AList.delete path (maSealGuards r1)\<rparr>, Inr ())))"

definition memGetStoredFileMetadata :: "string \<Rightarrow> 'b::size memory_adapter \<Rightarrow> stored_file_metadata option" where
  "memGetStoredFileMetadata path r =
     (case map_of (maStoredFileMetadata r) path of
        Some m \<Rightarrow> Some m
      | None \<Rightarrow>
          (case memGetFileMetadata path r of
             None \<Rightarrow> None
           | Some f \<Rightarrow>
               Some \<lparr>sfName = feName f, sfPath = fePath f, sfSize = feSize f, sfModifiedTime = feModifiedTime f,
                     sfUploadedAt = None, sfUploadedByDeviceId = None, sfStoredSize = Some (feSize f),
                     sfLastAccessedAt = None, sfUseCount = None\<rparr>))"

definition memReset :: "'b memory_adapter \<Rightarrow> 'b memory_adapter" where
  "memReset r = r\<lparr>maFiles := [], maStoredFileMetadata := [], maFolders := []\<rparr>"

text \<open>The methods the engine calls, at a given time.\<close>

definition memoryOps :: "string \<Rightarrow> ('b::size memory_adapter, 'b) adapter_ops" where
  "memoryOps now =
     \<lparr>opEnsureFolder = \<lambda>path r. (memEnsureFolder path r, Inr ()),
      opListFiles = \<lambda>path r. Inr (memListFiles path r),
      opReadFile = memReadFile,
      opWriteFile = \<lambda>path data r. (memWriteFile now path data r, Inr ()),
      opDeleteFile = \<lambda>path r. (memDeleteFile path r, Inr ()),
      opResetFolderCache = memResetFolderCache\<rparr>"

definition memFile :: "'b memory_adapter \<Rightarrow> string \<Rightarrow> 'b option" where
  "memFile r path = map_option fst (map_of (maFiles r) path)"

section \<open>The contract holds\<close>

lemma startsWith_iff: "startsWith s p \<longleftrightarrow> (\<exists>t. s = p @ t)"
  by (auto simp: startsWith_def startsAt_def) (metis append_take_drop_id)

lemma memFile_simps [simp]:
  "memFile (memWriteFile now p d r) = (memFile r)(p \<mapsto> d)"
  "memFile (memDeleteFile p r) = (memFile r)(p := None)"
  "memFile (memEnsureFolder p r) = memFile r"
  "memFile (memResetFolderCache r) = memFile r"
  by (auto simp: fun_eq_iff memFile_def memWriteFile_def memDeleteFile_def memEnsureFolder_def memResetFolderCache_def
      delete_conv')

lemma memListFiles_iff:
  assumes "\<not> endsWith f ''/''"
  shows "(\<exists>e \<in> set (memListFiles f r). feName e = n \<and> fePath e = p)
    \<longleftrightarrow> (\<exists>d. memFile r p = Some d \<and> directChild f n p)"
proof -
  have pre: "folderPrefix f = f @ ''/''" using assms by (simp add: folderPrefix_def)
  have dom: "(\<exists>d. memFile r p = Some d) \<longleftrightarrow> (\<exists>d m. (p, d, m) \<in> set (maFiles r))"
    by (auto simp: memFile_def map_of_eq_None_iff dest: map_of_SomeD)
       (metis (no_types, opaque_lifting) fst_conv image_eqI map_of_eq_None_iff not_None_eq prod.exhaust)+
  have slice: "jsliceFrom (f @ CHR ''/'' # t) (1 + int (length f)) = t" for t
    using jsliceFrom_append [of "f @ ''/''" t] by simp
  show ?thesis
  proof
    assume "\<exists>e \<in> set (memListFiles f r). feName e = n \<and> fePath e = p"
    then obtain d m t where "(p, d, m) \<in> set (maFiles r)" "p = f @ ''/'' @ t" "CHR ''/'' \<notin> set t" "n = t"
      by (auto simp: memListFiles_def Let_def pre List.map_filter_def startsWith_iff slice split: if_splits)
    with dom show "\<exists>d. memFile r p = Some d \<and> directChild f n p" by (auto simp: directChild_def)
  next
    assume "\<exists>d. memFile r p = Some d \<and> directChild f n p"
    with dom obtain d m where m: "(p, d, m) \<in> set (maFiles r)" and c: "p = f @ ''/'' @ n" "CHR ''/'' \<notin> set n"
      by (auto simp: directChild_def)
    let ?e = "\<lparr>feName = n, fePath = p, feSize = size d, feModifiedTime = m\<rparr>"
    have "?e \<in> set (memListFiles f r)"
      unfolding memListFiles_def Let_def in_set_map_filter pre
      by (rule bexI [OF _ m]) (use c slice in \<open>auto simp: startsWith_iff\<close>)
    then show "\<exists>e \<in> set (memListFiles f r). feName e = n \<and> fePath e = p" by force
  qed
qed

interpretation mem: storage_adapter "memoryOps now" memFile "\<lambda>f. \<not> endsWith f ''/''"
proof unfold_locales
  fix f :: string and r :: "'a memory_adapter" and es p n
  assume "\<not> endsWith f ''/''" "opListFiles (memoryOps now) f r = Inr es"
  then show "(\<exists>d. memFile r p = Some d \<and> directChild f n p) \<longleftrightarrow> (\<exists>e \<in> set es. feName e = n \<and> fePath e = p)"
    using memListFiles_iff [of f r n p] by (simp add: memoryOps_def)
qed (auto simp: memoryOps_def memReadFile_def memFile_def split: option.splits)

section \<open>Sealed files\<close>

datatype 'b stored_call =
    PutStored string string 'b "string option" "string option"
  | GetStored string string
  | DeleteStored string "string option"

fun runStoredCall :: "'b::size stored_call \<Rightarrow> 'b memory_adapter \<Rightarrow> 'b memory_adapter" where
  "runStoredCall (PutStored now path data guard device) r = fst (memPutStoredFile now path data guard device r)"
| "runStoredCall (GetStored now path) r = fst (memGetStoredFile now path r)"
| "runStoredCall (DeleteStored path guard) r = fst (memDeleteStoredFile path guard r)"

fun presents :: "string \<Rightarrow> string \<Rightarrow> 'b stored_call \<Rightarrow> bool" where
  "presents path g (PutStored _ path' _ guard _) = (path' = path \<and> guard = Some g)"
| "presents path g (GetStored _ _) = False"
| "presents path g (DeleteStored path' guard) = (path' = path \<and> guard = Some g)"

lemma sealed_step:
  assumes "map_of (maSealGuards r) path = Some g" "g \<noteq> ''''" "\<not> presents path g c"
  shows "map_of (maSealGuards (runStoredCall c r)) path = Some g \<and> memFile (runStoredCall c r) path = memFile r path"
  using assms
  by (cases c)
     (auto simp: memPutStoredFile_def memGetStoredFile_def memDeleteStoredFile_def requireSealGuard_def memReadFile_def
        memFile_def memWriteFile_def memDeleteFile_def Let_def delete_conv' split: option.splits)

text \<open>A sealed file is replaced or removed only with its guard: through any sequence of
  stored-file calls, on any paths, none of which presents the guard of a sealed path for that path,
  the file keeps its bytes and stays sealed.\<close>

theorem sealed_file_protected:
  assumes "map_of (maSealGuards r) path = Some g" "g \<noteq> ''''" "\<forall>c \<in> set calls. \<not> presents path g c"
  shows "memFile (fold runStoredCall calls r) path = memFile r path
    \<and> map_of (maSealGuards (fold runStoredCall calls r)) path = Some g"
  using assms
proof (induction calls arbitrary: r)
  case (Cons c calls)
  then have "map_of (maSealGuards (runStoredCall c r)) path = Some g" "memFile (runStoredCall c r) path = memFile r path"
    using sealed_step [of r path g c] by auto
  with Cons.IH [of "runStoredCall c r"] Cons.prems show ?case by simp
qed simp

definition demoSealed :: "char list memory_adapter" where
  "demoSealed = fst (memPutStoredFile ''now'' ''f'' ''bytes'' (Some ''guard'') None newMemoryAdapter)"

theorem sealed_file_protected_witness:
  "memFile (fold runStoredCall [PutStored ''now'' ''f'' ''other'' None None, DeleteStored ''f'' (Some ''wrong'')] demoSealed) ''f''
     = Some ''bytes''"
proof -
  have g: "map_of (maSealGuards demoSealed) ''f'' = Some ''guard''" by code_simp
  have ne: "''guard'' \<noteq> ''''" by simp
  have nop: "\<forall>c \<in> set [PutStored ''now'' ''f'' ''other'' None None, DeleteStored ''f'' (Some ''wrong'')].
      \<not> presents ''f'' ''guard'' c" by simp
  have "memFile (fold runStoredCall
      [PutStored ''now'' ''f'' ''other'' None None, DeleteStored ''f'' (Some ''wrong'')] demoSealed) ''f'' = memFile demoSealed ''f''"
    by (rule conjunct1 [OF sealed_file_protected [OF g ne nop]])
  moreover have "memFile demoSealed ''f'' = Some ''bytes''" by code_simp
  ultimately show ?thesis by (rule trans)
qed

text \<open>Resetting the adapter does not reset all state: a path sealed before still refuses a
  first write without the old guard, and folders ensured before are not recorded again.\<close>

theorem reset_keeps_seals:
  assumes "map_of (maSealGuards r) path = Some g" "g \<noteq> ''''" "folder \<in> set (maEnsuredFolders r)"
  shows "(\<exists>e. snd (memPutStoredFile now path data None device (memReset r)) = Inl e)
    \<and> memFile (memReset r) path = None
    \<and> folder \<notin> set (maFolders (memEnsureFolder folder (memReset r)))"
  using assms by (simp add: memPutStoredFile_def requireSealGuard_def memReset_def memFile_def memEnsureFolder_def)

theorem reset_keeps_seals_witness:
  "\<exists>e. snd (memPutStoredFile ''now'' ''f'' ''new'' None None (memReset (memEnsureFolder ''d'' demoSealed))) = Inl e"
proof -
  have "map_of (maSealGuards (memEnsureFolder ''d'' demoSealed)) ''f'' = Some ''guard''"
    "''d'' \<in> set (maEnsuredFolders (memEnsureFolder ''d'' demoSealed))" by code_simp+
  from reset_keeps_seals [OF this(1) _ this(2)] show ?thesis by simp
qed

end
