(* ===== verification/Codec.thy ===== *)
theory Codec
  imports Observation Storage_Adapter
begin

text \<open>
  The documents a mesh keeps on its remote (the snapshot, manifest and device types of
  \<open>packages/core/src/core/types.ts\<close>), their paths (\<open>internals.ts\<close>) and the codec of change and
  snapshot payloads (\<open>codec.ts\<close>).

  The bytes of a remote file are \<open>cloud_data\<close>: the JSON text of a document, bytes that are no JSON
  text, or an envelope sealing a document's text under a key. \<open>JSON.parse\<close> of the text
  \<open>JSON.stringify\<close> wrote is the document; a member that may be missing from a document is an
  option. Keys are named by numbers, and an envelope opens with its own key only: that is the
  authenticity AES-GCM gives to \<open>encryptEntry\<close> and \<open>decryptEntry\<close>. The same codec on bytes, with the JSON
  text and the cipher in between, is in \<open>Payload_Bytes\<close>.
\<close>

section \<open>Documents\<close>

record snapshot =
  snSnapshotId :: string
  snTimestamp :: string
  snHlc :: string
  snEpoch :: int
  snSchemaVersion :: int
  snCoveredChangeFiles :: "string list option"
  snTables :: tables

record server_config =
  scManaged :: bool
  scRelayUrl :: "string option"
  scServerId :: string

record manifest_pointer =
  ptCurrentGeneration :: int
  ptFile :: string

record retention_policy =
  rpCompactAfterMs :: int
  rpMaxOfflineDurationMs :: int

record retention_input =
  riCompactAfterMs :: "jnum option"
  riMaxOfflineDurationMs :: "jnum option"

text \<open>
  The manifest is its payload and the content hash. \<open>mfEncrypted\<close> is empty when the member is no
  boolean; \<open>mfLineage\<close> is any value.
\<close>

record manifest_payload =
  mfGeneration :: int
  mfParentGeneration :: int
  mfWrittenBy :: string
  mfWrittenAt :: string
  mfVersion :: int
  mfMeshId :: string
  mfSchema :: int
  mfEncrypted :: "bool option"
  mfServer :: server_config
  mfCreatedAt :: string
  mfEpoch :: int
  mfWatermarkHlc :: string
  mfSnapshotPath :: "string option"
  mfDeltaPath :: "string option"
  mfRetention :: "retention_input option"
  mfLineage :: jsval

record manifest = manifest_payload +
  mfContentHash :: string

record device_metadata =
  dmDeviceId :: string
  dmUserId :: "string option"
  dmName :: "string option"
  dmRegisteredAt :: "string option"
  dmLastSeenAt :: "string option"
  dmDisplayName :: "string option"
  dmDeviceType :: "string option"
  dmRetired :: "bool option"
  dmObservedManifestGeneration :: "int option"
  dmObservedEpoch :: "int option"
  dmObservedWatermarkHlc :: "string option"
  dmObservedAt :: "string option"
  dmCutOffAt :: "string option"
  dmCutOffReason :: "string option"

record changes_head =
  hdLatestHlc :: "string option"

record mesh_payload =
  mpHasMesh :: bool
  mpMeshId :: "string option"
  mpKind :: "string option"
  mpEntry :: "change_entry option"
  mpSnapshot :: "snapshot option"

datatype document =
    DPayload mesh_payload
  | DPointer manifest_pointer
  | DManifest manifest
  | DDevice device_metadata
  | DHead changes_head
  | DOther jsval

datatype cloud_data =
    JsonText document
  | NoJson
  | Envelope nat document

section \<open>Paths\<close>

definition manifestPointer :: "string \<Rightarrow> string" where
  "manifestPointer root = root @ ''/manifest.json''"

definition manifestFileName :: "int \<Rightarrow> string" where
  "manifestFileName generation = ''manifest-'' @ toStringRadix 10 (Num generation) @ ''.json''"

definition manifestFile :: "string \<Rightarrow> int \<Rightarrow> string" where
  "manifestFile root generation = root @ ''/'' @ manifestFileName generation"

definition deviceFile :: "string \<Rightarrow> string \<Rightarrow> string" where
  "deviceFile root deviceId = root @ ''/devices/'' @ deviceId @ ''.json''"

definition mainlineFolder :: "string \<Rightarrow> string" where
  "mainlineFolder root = root @ ''/mainline''"

definition changesFolder :: "string \<Rightarrow> string" where
  "changesFolder root = root @ ''/changes''"

definition changesHead :: "string \<Rightarrow> string" where
  "changesHead root = changesFolder root @ ''/head.json''"

definition changeFile :: "string \<Rightarrow> string \<Rightarrow> string" where
  "changeFile root fileName = changesFolder root @ ''/'' @ fileName"

lemmas path_defs = manifestPointer_def manifestFileName_def manifestFile_def deviceFile_def mainlineFolder_def
  changesFolder_def changesHead_def changeFile_def

section \<open>The codec\<close>

record codec_state =
  csEncryptionKey :: "nat option"
  csEncrypted :: bool
  csManifest :: "manifest option"

definition encodeForCloud :: "codec_state \<Rightarrow> document \<Rightarrow> cloud_data" where
  "encodeForCloud state d =
     (if \<not> csEncrypted state then JsonText d
      else (case csEncryptionKey state of None \<Rightarrow> JsonText d | Some key \<Rightarrow> Envelope key d))"

definition jsonParse :: "cloud_data \<Rightarrow> document result" where
  "jsonParse data = (case data of JsonText d \<Rightarrow> Inr d | _ \<Rightarrow> Inl (Error ''SyntaxError''))"

text \<open>\<open>decodeFromCloud\<close> followed by \<open>JSON.parse\<close>, as its two callers use it.\<close>

definition decodeFromCloud :: "codec_state \<Rightarrow> cloud_data \<Rightarrow> document result" where
  "decodeFromCloud state data =
     (if \<not> csEncrypted state \<or> csEncryptionKey state = None then jsonParse data
      else (case data of
              Envelope key d \<Rightarrow>
                if csEncryptionKey state = Some key then Inr d
                else Inl (Error ''Decryption failed: payload not decryptable with the active mesh key'')
            | _ \<Rightarrow> Inl (Error ''Decryption failed: payload not decryptable with the active mesh key'')))"

definition assertExpectedMeshId ::
  "manifest option \<Rightarrow> string \<Rightarrow> memory_store \<Rightarrow> memory_store \<times> unit result"
where
  "assertExpectedMeshId m meshId local =
     (if meshId = '''' then (local, Inl (Error ''Remote mesh is missing meshId''))
      else if (case m of Some mf \<Rightarrow> mfMeshId mf \<noteq> '''' \<and> mfMeshId mf \<noteq> meshId | None \<Rightarrow> False)
      then (local, Inl (Error ''Remote mesh mismatch''))
      else if (case storeGetMeta local ''meshId'' of JStr stored \<Rightarrow> stored \<noteq> '''' \<and> stored \<noteq> meshId | _ \<Rightarrow> False)
      then (local, Inl (Error ''Remote mesh mismatch''))
      else (storeSetMeta ''meshId'' (JStr meshId) local, Inr ()))"

definition encodeChangePayload :: "codec_state \<Rightarrow> change_entry \<Rightarrow> cloud_data result" where
  "encodeChangePayload state entry =
     (case csManifest state of
        Some mf \<Rightarrow>
          if mfMeshId mf = '''' then Inl (Error ''Cannot encode change payload before manifest is loaded'')
          else Inr (encodeForCloud state (DPayload \<lparr>mpHasMesh = False, mpMeshId = Some (mfMeshId mf),
                 mpKind = Some ''change'', mpEntry = Some entry, mpSnapshot = None\<rparr>))
      | None \<Rightarrow> Inl (Error ''Cannot encode change payload before manifest is loaded''))"

definition payloadOf :: "document \<Rightarrow> mesh_payload" where
  "payloadOf d =
     (case d of
        DPayload p \<Rightarrow> p
      | _ \<Rightarrow> \<lparr>mpHasMesh = False, mpMeshId = None, mpKind = None, mpEntry = None, mpSnapshot = None\<rparr>)"

definition decodeChangePayload ::
  "codec_state \<Rightarrow> cloud_data \<Rightarrow> memory_store \<Rightarrow> memory_store \<times> change_entry result"
where
  "decodeChangePayload state data local =
     (case decodeFromCloud state data of
        Inl e \<Rightarrow> (local, Inl e)
      | Inr d \<Rightarrow>
          (let p = payloadOf d in
           if mpHasMesh p \<and> mpMeshId p = None
           then (local, Inl (Error ''Remote change payload has invalid shape''))
           else if mpKind p \<noteq> Some ''change'' then (local, Inl (Error ''Remote change payload has invalid shape''))
           else (case mpEntry p of
              None \<Rightarrow> (local, Inl (Error ''Remote change payload has invalid shape''))
            | Some entry \<Rightarrow>
                (case assertExpectedMeshId (csManifest state)
                        (case mpMeshId p of None \<Rightarrow> '''' | Some i \<Rightarrow> i) local of
                   (local', Inl e) \<Rightarrow> (local', Inl e)
                 | (local', Inr _) \<Rightarrow> (local', Inr entry)))))"

definition encodeSnapshotPayload :: "codec_state \<Rightarrow> snapshot \<Rightarrow> cloud_data result" where
  "encodeSnapshotPayload state snap =
     (case csManifest state of
        Some mf \<Rightarrow>
          if mfMeshId mf = '''' then Inl (Error ''Cannot encode snapshot payload before manifest is loaded'')
          else Inr (encodeForCloud state (DPayload \<lparr>mpHasMesh = False, mpMeshId = Some (mfMeshId mf),
                 mpKind = Some ''snapshot'', mpEntry = None, mpSnapshot = Some snap\<rparr>))
      | None \<Rightarrow> Inl (Error ''Cannot encode snapshot payload before manifest is loaded''))"

definition decodeSnapshotPayload ::
  "codec_state \<Rightarrow> cloud_data \<Rightarrow> memory_store \<Rightarrow> memory_store \<times> snapshot result"
where
  "decodeSnapshotPayload state data local =
     (case decodeFromCloud state data of
        Inl e \<Rightarrow> (local, Inl e)
      | Inr d \<Rightarrow>
          (let p = payloadOf d in
           if mpHasMesh p \<and> mpMeshId p = None
           then (local, Inl (Error ''Remote snapshot payload has invalid shape''))
           else if mpKind p \<noteq> Some ''snapshot'' then (local, Inl (Error ''Remote snapshot payload has invalid shape''))
           else (case mpSnapshot p of
              None \<Rightarrow> (local, Inl (Error ''Remote snapshot payload has invalid shape''))
            | Some snap \<Rightarrow>
                (case assertExpectedMeshId (csManifest state)
                        (case mpMeshId p of None \<Rightarrow> '''' | Some i \<Rightarrow> i) local of
                   (local', Inl e) \<Rightarrow> (local', Inl e)
                 | (local', Inr _) \<Rightarrow> (local', Inr snap)))))"

section \<open>Round trip and refusal\<close>

text \<open>Two engines share a mesh: the same mode, the same key, and manifests of one mesh.\<close>

definition sameMesh :: "codec_state \<Rightarrow> codec_state \<Rightarrow> bool" where
  "sameMesh a b =
     (csEncrypted a = csEncrypted b \<and> csEncryptionKey a = csEncryptionKey b
      \<and> map_option mfMeshId (csManifest a) = map_option mfMeshId (csManifest b))"

text \<open>The store is bound to no mesh yet, or to this one.\<close>

definition boundTo :: "string \<Rightarrow> memory_store \<Rightarrow> bool" where
  "boundTo meshId local =
     (case storeGetMeta local ''meshId'' of JStr stored \<Rightarrow> stored = '''' \<or> stored = meshId | _ \<Rightarrow> True)"

lemma decode_encode: "csEncrypted a = csEncrypted b \<Longrightarrow> csEncryptionKey a = csEncryptionKey b \<Longrightarrow>
    decodeFromCloud b (encodeForCloud a d) = Inr d"
  by (auto simp: decodeFromCloud_def encodeForCloud_def jsonParse_def split: option.split)

lemma assertExpectedMeshId_ok:
  assumes "meshId \<noteq> ''''" "\<And>mf. m = Some mf \<Longrightarrow> mfMeshId mf = meshId" "boundTo meshId local"
  shows "assertExpectedMeshId m meshId local = (storeSetMeta ''meshId'' (JStr meshId) local, Inr ())"
  using assms by (auto simp: assertExpectedMeshId_def boundTo_def split: option.split jsval.splits)

lemma decodeChangePayload_encode:
  assumes "sameMesh a b" "csManifest a = Some mf" "mfMeshId mf \<noteq> ''''" "boundTo (mfMeshId mf) local"
  obtains data where "encodeChangePayload a entry = Inr data"
    "decodeChangePayload b data local = (storeSetMeta ''meshId'' (JStr (mfMeshId mf)) local, Inr entry)"
proof -
  have "assertExpectedMeshId (csManifest b) (mfMeshId mf) local
      = (storeSetMeta ''meshId'' (JStr (mfMeshId mf)) local, Inr ())"
    by (rule assertExpectedMeshId_ok) (use assms in \<open>auto simp: sameMesh_def\<close>)
  moreover have "decodeFromCloud b (encodeForCloud a d) = Inr d" for d
    by (rule decode_encode) (use assms(1) in \<open>auto simp: sameMesh_def\<close>)
  ultimately show thesis
    by - (rule that, simp add: encodeChangePayload_def assms(2,3), simp add: decodeChangePayload_def payloadOf_def)
qed

lemma decodeSnapshotPayload_encode:
  assumes "sameMesh a b" "csManifest a = Some mf" "mfMeshId mf \<noteq> ''''" "boundTo (mfMeshId mf) local"
  obtains data where "encodeSnapshotPayload a snap = Inr data"
    "decodeSnapshotPayload b data local = (storeSetMeta ''meshId'' (JStr (mfMeshId mf)) local, Inr snap)"
proof -
  have "assertExpectedMeshId (csManifest b) (mfMeshId mf) local
      = (storeSetMeta ''meshId'' (JStr (mfMeshId mf)) local, Inr ())"
    by (rule assertExpectedMeshId_ok) (use assms in \<open>auto simp: sameMesh_def\<close>)
  moreover have "decodeFromCloud b (encodeForCloud a d) = Inr d" for d
    by (rule decode_encode) (use assms(1) in \<open>auto simp: sameMesh_def\<close>)
  ultimately show thesis
    by - (rule that, simp add: encodeSnapshotPayload_def assms(2,3), simp add: decodeSnapshotPayload_def payloadOf_def)
qed

lemma assertExpectedMeshId_iff:
  "snd (assertExpectedMeshId m i local) = Inr () \<longleftrightarrow>
     i \<noteq> '''' \<and> (\<forall>mf. m = Some mf \<longrightarrow> mfMeshId mf = '''' \<or> mfMeshId mf = i) \<and> boundTo i local"
  by (auto simp: assertExpectedMeshId_def boundTo_def split: option.split jsval.splits)

lemma assertExpectedMeshId_fail: "assertExpectedMeshId m i local = (local', Inl e) \<Longrightarrow> local' = local"
  by (auto simp: assertExpectedMeshId_def split: if_splits)

text \<open>A mesh with a key, and a change encoded by one device and decoded by another.\<close>

definition demoManifest :: manifest where
  "demoManifest = \<lparr>mfGeneration = 1, mfParentGeneration = 0, mfWrittenBy = ''server'', mfWrittenAt = ''now'',
     mfVersion = 3, mfMeshId = ''mesh_1'', mfSchema = 1, mfEncrypted = Some True,
     mfServer = \<lparr>scManaged = False, scRelayUrl = None, scServerId = ''server''\<rparr>, mfCreatedAt = ''now'', mfEpoch = 0,
     mfWatermarkHlc = '''', mfSnapshotPath = None, mfDeltaPath = None, mfRetention = None,
     mfLineage = JNum (Num 1), mfContentHash = ''''\<rparr>"

definition demoCodec :: codec_state where
  "demoCodec = \<lparr>csEncryptionKey = Some 7, csEncrypted = True, csManifest = Some demoManifest\<rparr>"

definition demoSnapshot :: snapshot where
  "demoSnapshot = \<lparr>snSnapshotId = ''snap_1'', snTimestamp = ''now'', snHlc = demoStamp 1 ''A'', snEpoch = 1,
     snSchemaVersion = 1, snCoveredChangeFiles = Some [demoFile 1 ''A''], snTables = []\<rparr>"

lemma demoCodec_ok:
  "sameMesh demoCodec demoCodec" "csManifest demoCodec = Some demoManifest" "mfMeshId demoManifest \<noteq> ''''"
  "boundTo (mfMeshId demoManifest) newMemoryStore"
  by (simp_all add: sameMesh_def demoCodec_def demoManifest_def boundTo_def storeGetMeta_def newMemoryStore_def)

end
