(* ===== verification/Manifest.thy ===== *)
theory Manifest
  imports Codec
begin

text \<open>
  The mesh manifest (\<open>packages/core/src/core/manifest.ts\<close>, \<open>retention.ts\<close> and the hashing of
  \<open>internals.ts\<close>): loading it through the pointer or creating the first one, validating it, and
  the device records. Arguments stand for what the code takes from outside: \<open>sha\<close> for the hex
  SHA-256 of a payload's JSON text, \<open>fresh\<close> for the id \<open>generateId\<close> makes, \<open>now\<close> for the
  current time, \<open>ops\<close> for the adapter, \<open>poison\<close> for the callback \<open>poisonRemote\<close>. Events
  that only trace are left out. Fields of a JSON document of another kind read as missing.
\<close>

section \<open>Retention\<close>

definition DAY_MS :: int where "DAY_MS = 24 * 60 * 60 * 1000"
definition DEFAULT_COMPACT_AFTER_MS :: int where "DEFAULT_COMPACT_AFTER_MS = 7 * DAY_MS"
definition DEFAULT_MAX_OFFLINE_DURATION_MS :: int where "DEFAULT_MAX_OFFLINE_DURATION_MS = 30 * DAY_MS"

fun finitePositiveDuration :: "string \<Rightarrow> jnum \<Rightarrow> int result" where
  "finitePositiveDuration name (Num n) =
     (if n \<le> 0 then Inl (RangeError (name @ '' must be a positive finite duration in milliseconds'')) else Inr n)"
| "finitePositiveDuration name NaN =
     Inl (RangeError (name @ '' must be a positive finite duration in milliseconds''))"

definition resolveRetentionPolicy :: "retention_input option \<Rightarrow> retention_policy result" where
  "resolveRetentionPolicy input =
     bind_result (finitePositiveDuration ''retention.compactAfterMs''
         (case Option.bind input riCompactAfterMs of None \<Rightarrow> Num DEFAULT_COMPACT_AFTER_MS | Some v \<Rightarrow> v))
       (\<lambda>compactAfter.
         bind_result (finitePositiveDuration ''retention.maxOfflineDurationMs''
             (case Option.bind input riMaxOfflineDurationMs of None \<Rightarrow> Num DEFAULT_MAX_OFFLINE_DURATION_MS | Some v \<Rightarrow> v))
           (\<lambda>maxOffline. Inr \<lparr>rpCompactAfterMs = compactAfter, rpMaxOfflineDurationMs = maxOffline\<rparr>))"

definition policyInput :: "retention_policy \<Rightarrow> retention_input" where
  "policyInput p = \<lparr>riCompactAfterMs = Some (Num (rpCompactAfterMs p)),
                    riMaxOfflineDurationMs = Some (Num (rpMaxOfflineDurationMs p))\<rparr>"

section \<open>Reading and writing documents\<close>

definition readJson :: "('r, cloud_data) adapter_ops \<Rightarrow> string \<Rightarrow> 'r \<Rightarrow> document result" where
  "readJson ops path r = bind_result (opReadFile ops path r) jsonParse"

definition readJsonIfExists :: "('r, cloud_data) adapter_ops \<Rightarrow> string \<Rightarrow> 'r \<Rightarrow> document option" where
  "readJsonIfExists ops path r = (case readJson ops path r of Inl _ \<Rightarrow> None | Inr d \<Rightarrow> Some d)"

definition writeJson :: "('r, cloud_data) adapter_ops \<Rightarrow> string \<Rightarrow> document \<Rightarrow> 'r \<Rightarrow> 'r \<times> unit result" where
  "writeJson ops path d r = opWriteFile ops path (JsonText d) r"

text \<open>A parsed document seen as a pointer, a manifest, a device record: empty when it is falsy.\<close>

fun asPointer :: "document \<Rightarrow> manifest_pointer option" where
  "asPointer (DPointer p) = Some p"
| "asPointer (DOther v) = (if truthy v then Some \<lparr>ptCurrentGeneration = 0, ptFile = ''undefined''\<rparr> else None)"
| "asPointer _ = Some \<lparr>ptCurrentGeneration = 0, ptFile = ''undefined''\<rparr>"

fun asManifest :: "document \<Rightarrow> manifest option" where
  "asManifest (DManifest m) = Some m"
| "asManifest _ = None"

section \<open>Hash, lineage, authority\<close>

definition MESH_LINEAGE_META :: string where "MESH_LINEAGE_META = ''meshLineage''"

definition computeContentHash :: "(manifest_payload \<Rightarrow> string) \<Rightarrow> manifest_payload \<Rightarrow> string" where
  "computeContentHash sha p = ''sha256:'' @ sha p"

fun resolveManifestLineage :: "jsval \<Rightarrow> int" where
  "resolveManifestLineage (JNum (Num n)) = (if n > 0 then n else 1)"
| "resolveManifestLineage _ = 1"

definition assertServerAuth :: "manifest \<Rightarrow> string \<Rightarrow> unit result" where
  "assertServerAuth m serverId =
     (if mfWrittenBy m \<noteq> serverId then Inl (Error ''Unauthorized manifest writer'') else Inr ())"

definition validateManifestHash :: "(manifest_payload \<Rightarrow> string) \<Rightarrow> manifest \<Rightarrow> unit result" where
  "validateManifestHash sha m =
     (if mfContentHash m \<noteq> computeContentHash sha (manifest_payload.truncate m)
      then Inl (Error ''Manifest content hash mismatch'') else Inr ())"

definition withHash :: "(manifest_payload \<Rightarrow> string) \<Rightarrow> manifest_payload \<Rightarrow> manifest" where
  "withHash sha p = manifest_payload.extend p (manifest.fields (computeContentHash sha p))"

section \<open>Creating and loading\<close>

record manifest_context =
  cxRemotePath :: string
  cxServerId :: string
  cxServerManaged :: bool
  cxDeviceId :: string
  cxEncrypted :: bool
  cxSchemaVersion :: "int option"
  cxRetention :: retention_policy

definition bootstrapPayload :: "manifest_context \<Rightarrow> string \<Rightarrow> string \<Rightarrow> string option \<Rightarrow> int \<Rightarrow> manifest_payload" where
  "bootstrapPayload ctx fresh now meshId lineage =
     \<lparr>mfGeneration = 1, mfParentGeneration = 0, mfWrittenBy = cxServerId ctx, mfWrittenAt = now, mfVersion = 3,
      mfMeshId = (case meshId of Some i \<Rightarrow> if i \<noteq> '''' then i else ''mesh_'' @ fresh | None \<Rightarrow> ''mesh_'' @ fresh),
      mfSchema = (case cxSchemaVersion ctx of None \<Rightarrow> 1 | Some v \<Rightarrow> v),
      mfEncrypted = Some (cxEncrypted ctx),
      mfServer = \<lparr>scManaged = cxServerManaged ctx, scRelayUrl = None, scServerId = cxServerId ctx\<rparr>,
      mfCreatedAt = now, mfEpoch = 0, mfWatermarkHlc = '''', mfSnapshotPath = None, mfDeltaPath = None,
      mfRetention = Some (policyInput (cxRetention ctx)), mfLineage = JNum (Num lineage)\<rparr>"

definition createBootstrapManifest ::
  "(manifest_payload \<Rightarrow> string) \<Rightarrow> string \<Rightarrow> string \<Rightarrow> ('r, cloud_data) adapter_ops \<Rightarrow> manifest_context \<Rightarrow>
     string option \<Rightarrow> int \<Rightarrow> 'r \<Rightarrow> 'r \<times> (manifest_pointer \<times> manifest) result"
where
  "createBootstrapManifest sha fresh now ops ctx meshId lineage r =
     (let m = withHash sha (bootstrapPayload ctx fresh now meshId lineage);
          pointer = \<lparr>ptCurrentGeneration = mfGeneration m, ptFile = manifestFileName (mfGeneration m)\<rparr>
      in case writeJson ops (manifestFile (cxRemotePath ctx) (mfGeneration m)) (DManifest m) r of
           (r1, Inl e) \<Rightarrow> (r1, Inl e)
         | (r1, Inr _) \<Rightarrow>
             (case writeJson ops (manifestPointer (cxRemotePath ctx)) (DPointer pointer) r1 of
                (r2, Inl e) \<Rightarrow> (r2, Inl e)
              | (r2, Inr _) \<Rightarrow> (r2, Inr (pointer, m))))"

record load_options =
  loAssertLocalMeshId :: bool
  loCreateIfMissing :: bool

definition defaultLoad :: load_options where
  "defaultLoad = \<lparr>loAssertLocalMeshId = True, loCreateIfMissing = True\<rparr>"

text \<open>The pointer: a read that fails counts as missing, unless creating is not allowed.\<close>

definition readPointer ::
  "('r, cloud_data) adapter_ops \<Rightarrow> manifest_context \<Rightarrow> load_options \<Rightarrow> 'r \<Rightarrow> manifest_pointer option result"
where
  "readPointer ops ctx opts r =
     (if loCreateIfMissing opts
      then Inr (Option.bind (readJsonIfExists ops (manifestPointer (cxRemotePath ctx)) r) asPointer)
      else bind_result (readJson ops (manifestPointer (cxRemotePath ctx)) r) (\<lambda>d. Inr (asPointer d)))"

definition nextLineage :: "memory_store \<Rightarrow> int" where
  "nextLineage local =
     (case storeGetMeta local ''meshId'' of
        JStr i \<Rightarrow> if i \<noteq> '''' then resolveManifestLineage (storeGetMeta local MESH_LINEAGE_META) + 1 else 1
      | _ \<Rightarrow> 1)"

definition fetchManifest ::
  "(manifest_payload \<Rightarrow> string) \<Rightarrow> string \<Rightarrow> string \<Rightarrow> ('r, cloud_data) adapter_ops \<Rightarrow> manifest_context \<Rightarrow>
     load_options \<Rightarrow> memory_store \<Rightarrow> 'r \<Rightarrow> 'r \<times> (manifest_pointer \<times> manifest option \<times> bool) result"
where
  "fetchManifest sha fresh now ops ctx opts local r =
     (case readPointer ops ctx opts r of
        Inl e \<Rightarrow> (r, Inl e)
      | Inr (Some pointer) \<Rightarrow>
          (case readJson ops (cxRemotePath ctx @ ''/'' @ ptFile pointer) r of
             Inl e \<Rightarrow> (r, Inl e)
           | Inr d \<Rightarrow> (r, Inr (pointer, asManifest d, False)))
      | Inr None \<Rightarrow>
          (case createBootstrapManifest sha fresh now ops ctx (asString (storeGetMeta local ''meshId''))
                  (nextLineage local) r of
             (r', Inl e) \<Rightarrow> (r', Inl e)
           | (r', Inr (pointer, m)) \<Rightarrow> (r', Inr (pointer, Some m, True))))"

text \<open>The checks after the mesh id was accepted, in the order of the code.\<close>

definition checkManifest :: "manifest_context \<Rightarrow> manifest \<Rightarrow> unit result" where
  "checkManifest ctx m =
     (if mfVersion m \<noteq> 3 then Inl (Error ''Unsupported manifest version'')
      else if (case cxSchemaVersion ctx of Some v \<Rightarrow> mfSchema m \<noteq> v | None \<Rightarrow> False)
      then Inl (Error ''Schema version mismatch'')
      else
        bind_result (if scManaged (mfServer m) then assertServerAuth m (cxServerId ctx) else Inr ())
          (\<lambda>_. case mfEncrypted m of
             Some mode \<Rightarrow> if mode \<noteq> cxEncrypted ctx
                          then Inl (MeshEncryptionMismatchError mode (cxEncrypted ctx)) else Inr ()
           | None \<Rightarrow> Inr ()))"

definition resolveManifest :: "(manifest_payload \<Rightarrow> string) \<Rightarrow> manifest option \<Rightarrow> manifest result" where
  "resolveManifest sha found =
     (case found of
        None \<Rightarrow> Inl (Error ''Manifest content hash mismatch'')
      | Some m \<Rightarrow>
          bind_result (validateManifestHash sha m)
            (\<lambda>_. bind_result (resolveRetentionPolicy (mfRetention m))
              (\<lambda>retention. Inr (m\<lparr>mfRetention := Some (policyInput retention),
                                 mfLineage := JNum (Num (resolveManifestLineage (mfLineage m)))\<rparr>))))"

text \<open>The load up to the call of \<open>poisonRemote\<close>: an error comes with the path to poison, if it is one
  that poisons.\<close>

definition loadManifestFrom ::
  "(manifest_payload \<Rightarrow> string) \<Rightarrow> string \<Rightarrow> string \<Rightarrow> ('r, cloud_data) adapter_ops \<Rightarrow> manifest_context \<Rightarrow>
     codec_state \<Rightarrow> load_options \<Rightarrow> memory_store \<Rightarrow> 'r \<Rightarrow>
     (memory_store \<times> 'r) \<times> (string option \<times> js_error + manifest \<times> bool)"
where
  "loadManifestFrom sha fresh now ops ctx codec opts local r =
     (case fetchManifest sha fresh now ops ctx opts local r of
        (r1, Inl e) \<Rightarrow> ((local, r1), Inl (None, e))
      | (r1, Inr (pointer, found, bootstrapped)) \<Rightarrow>
          (case resolveManifest sha found of
             Inl e \<Rightarrow> ((local, r1), Inl (None, e))
           | Inr m \<Rightarrow>
               (case (if loAssertLocalMeshId opts then assertExpectedMeshId (csManifest codec) (mfMeshId m) local
                      else (local, Inr ())) of
                  (local1, Inl e) \<Rightarrow> ((local1, r1), Inl (Some (cxRemotePath ctx @ ''/'' @ ptFile pointer), e))
                | (local1, Inr _) \<Rightarrow>
                    (case checkManifest ctx m of
                       Inl e \<Rightarrow> ((local1, r1), Inl (None, e))
                     | Inr _ \<Rightarrow> ((local1, r1), Inr (m, bootstrapped))))))"

definition loadOrCreateManifest ::
  "(manifest_payload \<Rightarrow> string) \<Rightarrow> string \<Rightarrow> string \<Rightarrow> ('r, cloud_data) adapter_ops \<Rightarrow> manifest_context \<Rightarrow>
     codec_state \<Rightarrow> load_options \<Rightarrow> (js_error \<Rightarrow> string \<Rightarrow> memory_store \<times> 'r \<Rightarrow> (memory_store \<times> 'r) \<times> js_error) \<Rightarrow>
     memory_store \<times> 'r \<Rightarrow> (memory_store \<times> 'r) \<times> (manifest \<times> bool) result"
where
  "loadOrCreateManifest sha fresh now ops ctx codec opts poison st =
     (case loadManifestFrom sha fresh now ops ctx codec opts (fst st) (snd st) of
        (st1, Inr x) \<Rightarrow> (st1, Inr x)
      | (st1, Inl (None, e)) \<Rightarrow> (st1, Inl e)
      | (st1, Inl (Some path, e)) \<Rightarrow> (case poison e path st1 of (st2, e') \<Rightarrow> (st2, Inl e')))"

section \<open>Hash and payload\<close>

lemma withHash_simps [simp]:
  "manifest_payload.truncate (withHash sha p) = p"
  "mfContentHash (withHash sha p) = computeContentHash sha p"
  "mfGeneration (withHash sha p) = mfGeneration p" "mfWrittenBy (withHash sha p) = mfWrittenBy p"
  "mfVersion (withHash sha p) = mfVersion p" "mfMeshId (withHash sha p) = mfMeshId p"
  "mfSchema (withHash sha p) = mfSchema p" "mfEncrypted (withHash sha p) = mfEncrypted p"
  "mfServer (withHash sha p) = mfServer p" "mfRetention (withHash sha p) = mfRetention p"
  "mfLineage (withHash sha p) = mfLineage p" "mfEpoch (withHash sha p) = mfEpoch p"
  "mfSnapshotPath (withHash sha p) = mfSnapshotPath p" "mfParentGeneration (withHash sha p) = mfParentGeneration p"
  "mfWatermarkHlc (withHash sha p) = mfWatermarkHlc p"
  by (cases p; simp add: withHash_def manifest_payload.defs manifest.defs)+

lemma validate_withHash [simp]: "validateManifestHash sha (withHash sha p) = Inr ()"
  by (simp add: validateManifestHash_def)

definition policyOk :: "retention_policy \<Rightarrow> bool" where
  "policyOk p = (rpCompactAfterMs p > 0 \<and> rpMaxOfflineDurationMs p > 0)"

lemma resolve_policyInput: "policyOk p \<Longrightarrow> resolveRetentionPolicy (Some (policyInput p)) = Inr p"
  by (cases p) (simp add: resolveRetentionPolicy_def policyInput_def policyOk_def)

lemma resolveRetentionPolicy_ok: "resolveRetentionPolicy i = Inr p \<Longrightarrow> policyOk p"
proof -
  have "finitePositiveDuration n v = Inr x \<Longrightarrow> x > 0" for n v x
    by (cases v) (auto split: if_splits)
  then show "resolveRetentionPolicy i = Inr p \<Longrightarrow> policyOk p"
    by (auto simp: resolveRetentionPolicy_def bind_result_Inr_iff policyOk_def)
qed

lemma resolveManifestLineage_pos: "resolveManifestLineage v > 0"
  by (cases v rule: resolveManifestLineage.cases) auto

lemma resolveManifest_ok:
  assumes "resolveManifest sha found = Inr m"
  obtains m0 p where "found = Some m0" "mfContentHash m0 = computeContentHash sha (manifest_payload.truncate m0)"
    "policyOk p" "m = m0\<lparr>mfRetention := Some (policyInput p),
      mfLineage := JNum (Num (resolveManifestLineage (mfLineage m0)))\<rparr>"
  using assms resolveRetentionPolicy_ok
  by (auto simp: resolveManifest_def bind_result_Inr_iff validateManifestHash_def split: option.splits if_splits)

lemma resolveManifest_withHash:
  assumes "mfRetention p = Some (policyInput q)" "policyOk q" "mfLineage p = JNum (Num n)" "n > 0"
  shows "resolveManifest sha (Some (withHash sha p)) = Inr (withHash sha p)"
  using assms
  by (cases p) (simp add: resolveManifest_def resolve_policyInput withHash_def manifest_payload.defs manifest.defs
      validateManifestHash_def)

section \<open>Properties of loading\<close>

definition lineageOf :: "manifest \<Rightarrow> int" where
  "lineageOf m = resolveManifestLineage (mfLineage m)"

text \<open>A manifest that loads passed every check: it is version 3, its hash is that of its content
  as stored, it has the local schema version when one is set, a managed one was written by the
  server, it has the engine's encryption mode, its mesh id is the one the store is bound to, its
  retention durations are positive and its lineage is positive.\<close>

theorem loaded_manifest_valid:
  assumes "loadOrCreateManifest sha fresh now ops ctx codec opts poison (local, r) = ((local', r'), Inr (m, b))"
  shows "mfVersion m = 3
    \<and> (\<exists>m0. mfContentHash m0 = computeContentHash sha (manifest_payload.truncate m0)
         \<and> (\<exists>p. m = m0\<lparr>mfRetention := Some (policyInput p), mfLineage := JNum (Num (lineageOf m0))\<rparr>
              \<and> rpCompactAfterMs p > 0 \<and> rpMaxOfflineDurationMs p > 0))
    \<and> lineageOf m > 0
    \<and> (\<forall>v. cxSchemaVersion ctx = Some v \<longrightarrow> mfSchema m = v)
    \<and> (scManaged (mfServer m) \<longrightarrow> mfWrittenBy m = cxServerId ctx)
    \<and> (mfEncrypted m = None \<or> mfEncrypted m = Some (cxEncrypted ctx))
    \<and> (loAssertLocalMeshId opts \<longrightarrow> mfMeshId m \<noteq> '''' \<and> boundTo (mfMeshId m) local
         \<and> storeGetMeta local' ''meshId'' = JStr (mfMeshId m))"
proof -
  obtain r1 pointer found where
    f: "fetchManifest sha fresh now ops ctx opts local r = (r1, Inr (pointer, found, b))"
    and res: "resolveManifest sha found = Inr m"
    and bind: "(if loAssertLocalMeshId opts then assertExpectedMeshId (csManifest codec) (mfMeshId m) local
        else (local, Inr ())) = (local', Inr ())"
    and chk: "checkManifest ctx m = Inr ()"
    using assms by (auto simp: loadOrCreateManifest_def loadManifestFrom_def split: sum.splits prod.splits)
  obtain m0 p where m0: "mfContentHash m0 = computeContentHash sha (manifest_payload.truncate m0)" "policyOk p"
    "m = m0\<lparr>mfRetention := Some (policyInput p), mfLineage := JNum (Num (resolveManifestLineage (mfLineage m0)))\<rparr>"
    by (rule resolveManifest_ok [OF res])
  have mesh: "loAssertLocalMeshId opts \<longrightarrow> mfMeshId m \<noteq> '''' \<and> boundTo (mfMeshId m) local
         \<and> storeGetMeta local' ''meshId'' = JStr (mfMeshId m)"
  proof
    assume "loAssertLocalMeshId opts"
    with bind have a: "assertExpectedMeshId (csManifest codec) (mfMeshId m) local = (local', Inr ())" by simp
    then have "local' = storeSetMeta ''meshId'' (JStr (mfMeshId m)) local"
      by (auto simp: assertExpectedMeshId_def split: if_splits)
    with a assertExpectedMeshId_iff [of "csManifest codec" "mfMeshId m" local]
    show "mfMeshId m \<noteq> '''' \<and> boundTo (mfMeshId m) local \<and> storeGetMeta local' ''meshId'' = JStr (mfMeshId m)" by simp
  qed
  have "mfVersion m = 3 \<and> (\<forall>v. cxSchemaVersion ctx = Some v \<longrightarrow> mfSchema m = v)
    \<and> (scManaged (mfServer m) \<longrightarrow> mfWrittenBy m = cxServerId ctx)
    \<and> (mfEncrypted m = None \<or> mfEncrypted m = Some (cxEncrypted ctx))"
    using chk by (auto simp: checkManifest_def assertServerAuth_def bind_result_Inr_iff split: if_splits option.splits)
  moreover have "lineageOf m > 0" by (simp add: lineageOf_def resolveManifestLineage_pos)
  ultimately show ?thesis using m0 mesh unfolding policyOk_def lineageOf_def by blast
qed

definition meshIdFor :: "memory_store \<Rightarrow> string \<Rightarrow> string" where
  "meshIdFor local fresh =
     (case storeGetMeta local ''meshId'' of JStr i \<Rightarrow> if i \<noteq> '''' then i else ''mesh_'' @ fresh | _ \<Rightarrow> ''mesh_'' @ fresh)"

lemma manifestFileName_1: "manifestFileName 1 = ''manifest-1.json''"
  by code_simp

lemma manifestFile_1: "manifestFile root 1 = root @ ''/manifest-1.json''"
  by (simp add: manifestFile_def manifestFileName_1)

lemma defaultLoad_simps [simp]: "loAssertLocalMeshId defaultLoad" "loCreateIfMissing defaultLoad"
  by (simp_all add: defaultLoad_def)

lemma nextLineage_pos: "nextLineage local > 0"
  using resolveManifestLineage_pos [of "storeGetMeta local MESH_LINEAGE_META"]
  by (simp add: nextLineage_def split: jsval.split)

lemma bootstrapPayload_simps [simp]:
  "mfGeneration (bootstrapPayload ctx fresh now i n) = 1" "mfVersion (bootstrapPayload ctx fresh now i n) = 3"
  "mfEncrypted (bootstrapPayload ctx fresh now i n) = Some (cxEncrypted ctx)"
  "mfSchema (bootstrapPayload ctx fresh now i n) = (case cxSchemaVersion ctx of None \<Rightarrow> 1 | Some v \<Rightarrow> v)"
  "scManaged (mfServer (bootstrapPayload ctx fresh now i n)) = cxServerManaged ctx"
  "mfWrittenBy (bootstrapPayload ctx fresh now i n) = cxServerId ctx"
  "mfRetention (bootstrapPayload ctx fresh now i n) = Some (policyInput (cxRetention ctx))"
  "mfLineage (bootstrapPayload ctx fresh now i n) = JNum (Num n)"
  by (simp_all add: bootstrapPayload_def)

lemma bootstrap_meshId:
  "mfMeshId (bootstrapPayload ctx fresh now (asString (storeGetMeta local ''meshId'')) n) = meshIdFor local fresh"
  by (simp add: bootstrapPayload_def meshIdFor_def split: jsval.split)

lemma meshIdFor_ok: "meshIdFor local fresh \<noteq> ''''" "boundTo (meshIdFor local fresh) local"
  by (simp_all add: meshIdFor_def boundTo_def split: jsval.split)

definition acceptsMesh :: "codec_state \<Rightarrow> string \<Rightarrow> bool" where
  "acceptsMesh codec i = (case csManifest codec of None \<Rightarrow> True | Some mf \<Rightarrow> mfMeshId mf = '''' \<or> mfMeshId mf = i)"

lemma assertExpectedMeshId_accepts:
  "acceptsMesh codec i \<Longrightarrow> i \<noteq> '''' \<Longrightarrow> boundTo i local \<Longrightarrow>
     assertExpectedMeshId (csManifest codec) i local = (storeSetMeta ''meshId'' (JStr i) local, Inr ())"
  by (auto simp: acceptsMesh_def assertExpectedMeshId_def boundTo_def split: option.splits jsval.splits)

text \<open>What \<open>fetchManifest\<close> finds on the in-memory remote.\<close>

lemma memRead [simp]:
  "memFile r p = Some d \<Longrightarrow> memReadFile p r = Inr d" "memFile r p = None \<Longrightarrow> memReadFile p r = Inl (Error ''Object not found'')"
  by (auto simp: memFile_def memReadFile_def)

lemma memoryOps_simps [simp]:
  "opResetFolderCache (memoryOps now) = memResetFolderCache"
  "opReadFile (memoryOps now) = memReadFile"
  "opWriteFile (memoryOps now) p d r = (memWriteFile now p d r, Inr ())"
  "opDeleteFile (memoryOps now) p r = (memDeleteFile p r, Inr ())"
  "opListFiles (memoryOps now) p r = Inr (memListFiles p r)"
  "opEnsureFolder (memoryOps now) p r = (memEnsureFolder p r, Inr ())"
  by (simp_all add: memoryOps_def)

lemma fetch_present:
  assumes "memFile r (manifestPointer (cxRemotePath ctx)) = Some (JsonText (DPointer pointer))"
    and "memFile r (cxRemotePath ctx @ ''/'' @ ptFile pointer) = Some (JsonText (DManifest m))"
  shows "fetchManifest sha fresh now (memoryOps now) ctx opts local r = (r, Inr (pointer, Some m, False))"
  using assms by (simp add: fetchManifest_def readPointer_def readJsonIfExists_def readJson_def jsonParse_def)

lemma fetch_absent:
  assumes "memFile r (manifestPointer (cxRemotePath ctx)) = None" "loCreateIfMissing opts"
    and "m = withHash sha (bootstrapPayload ctx fresh now (asString (storeGetMeta local ''meshId'')) (nextLineage local))"
    and "pointer = \<lparr>ptCurrentGeneration = 1, ptFile = ''manifest-1.json''\<rparr>"
    and "r' = memWriteFile now (manifestPointer (cxRemotePath ctx)) (JsonText (DPointer pointer))
           (memWriteFile now (manifestFile (cxRemotePath ctx) 1) (JsonText (DManifest m)) r)"
  shows "fetchManifest sha fresh now (memoryOps now) ctx opts local r = (r', Inr (pointer, Some m, True))"
  using assms
  by (simp add: fetchManifest_def readPointer_def readJsonIfExists_def readJson_def createBootstrapManifest_def
      writeJson_def manifestFileName_1 Let_def)

lemma fetch_again:
  assumes "cxRemotePath ctx = root" "pointer = \<lparr>ptCurrentGeneration = 1, ptFile = ''manifest-1.json''\<rparr>"
    and "r' = memWriteFile t (manifestPointer root) (JsonText (DPointer pointer))
           (memWriteFile t (manifestFile root 1) (JsonText (DManifest m)) r)"
  shows "fetchManifest sha fresh now (memoryOps now) ctx opts local r' = (r', Inr (pointer, Some m, False))"
  by (rule fetch_present) (simp_all add: assms manifestPointer_def manifestFile_1)

text \<open>Engines of one mesh agree on mode, schema and server.\<close>

definition compatibleContexts :: "manifest_context \<Rightarrow> manifest_context \<Rightarrow> bool" where
  "compatibleContexts a b =
     (cxRemotePath b = cxRemotePath a \<and> cxEncrypted b = cxEncrypted a
      \<and> (cxServerManaged a \<longrightarrow> cxServerId b = cxServerId a)
      \<and> (\<forall>v. cxSchemaVersion b = Some v \<longrightarrow> v = (case cxSchemaVersion a of None \<Rightarrow> 1 | Some w \<Rightarrow> w)))"

lemma check_bootstrap:
  "compatibleContexts a b \<Longrightarrow> checkManifest b (withHash sha (bootstrapPayload a fresh now i n)) = Inr ()"
  by (auto simp: checkManifest_def compatibleContexts_def assertServerAuth_def split: option.split)

text \<open>The first engine to reach an empty remote creates generation 1 of the manifest; every
  later engine of the mesh, with any local store not bound to another mesh, loads that same
  manifest and does not create one. The mesh id is the one the creator's store already knew, if
  any, and then the lineage is one more than the one it remembers; otherwise it is new and the
  lineage is 1.\<close>

theorem bootstrap_shared:
  assumes "memFile r (manifestPointer (cxRemotePath a)) = None" "policyOk (cxRetention a)"
    and "acceptsMesh codec (meshIdFor local fresh)" "compatibleContexts a b"
  shows "\<exists>m local' r'. loadOrCreateManifest sha fresh now (memoryOps now) a codec defaultLoad poison (local, r)
        = ((local', r'), Inr (m, True))
    \<and> mfGeneration m = 1 \<and> mfMeshId m = meshIdFor local fresh \<and> lineageOf m = nextLineage local
    \<and> (\<forall>fresh2 now2 poison2 codec2 local2. acceptsMesh codec2 (mfMeshId m) \<and> boundTo (mfMeshId m) local2 \<longrightarrow>
         loadOrCreateManifest sha fresh2 now2 (memoryOps now2) b codec2 defaultLoad poison2 (local2, r')
           = ((storeSetMeta ''meshId'' (JStr (mfMeshId m)) local2, r'), Inr (m, False)))"
proof -
  define m where "m = withHash sha (bootstrapPayload a fresh now (asString (storeGetMeta local ''meshId'')) (nextLineage local))"
  define pointer where "pointer = \<lparr>ptCurrentGeneration = 1, ptFile = ''manifest-1.json''\<rparr>"
  define r' where "r' = memWriteFile now (manifestPointer (cxRemotePath a)) (JsonText (DPointer pointer))
           (memWriteFile now (manifestFile (cxRemotePath a) 1) (JsonText (DManifest m)) r)"
  have create: "fetchManifest sha fresh now (memoryOps now) a defaultLoad local r = (r', Inr (pointer, Some m, True))"
    by (rule fetch_absent) (simp_all add: assms(1) m_def pointer_def r'_def)
  have res: "resolveManifest sha (Some m) = Inr m"
    unfolding m_def by (rule resolveManifest_withHash [OF _ assms(2) _ nextLineage_pos]) simp_all
  have mesh: "mfMeshId m = meshIdFor local fresh" by (simp add: m_def bootstrap_meshId)
  have load: "loadOrCreateManifest sha fresh now (memoryOps now) a codec defaultLoad poison (local, r)
      = ((storeSetMeta ''meshId'' (JStr (mfMeshId m)) local, r'), Inr (m, True))"
    using check_bootstrap [of a a sha fresh now "asString (storeGetMeta local ''meshId'')" "nextLineage local"] assms(3)
      meshIdFor_ok [of local fresh]
    by (simp add: loadOrCreateManifest_def loadManifestFrom_def create res mesh assertExpectedMeshId_accepts
        compatibleContexts_def m_def [symmetric])
  have again: "loadOrCreateManifest sha fresh2 now2 (memoryOps now2) b codec2 defaultLoad poison2 (local2, r')
      = ((storeSetMeta ''meshId'' (JStr (mfMeshId m)) local2, r'), Inr (m, False))"
    if "acceptsMesh codec2 (mfMeshId m)" "boundTo (mfMeshId m) local2" for fresh2 now2 poison2 codec2 local2
  proof -
    have path: "cxRemotePath b = cxRemotePath a" using assms(4) by (simp add: compatibleContexts_def)
    have fetch: "fetchManifest sha fresh2 now2 (memoryOps now2) b defaultLoad local2 r' = (r', Inr (pointer, Some m, False))"
      by (rule fetch_again [OF path pointer_def r'_def])
    show ?thesis
      using that check_bootstrap [OF assms(4), of sha fresh now "asString (storeGetMeta local ''meshId'')" "nextLineage local"]
        meshIdFor_ok [of local fresh]
      by (simp add: loadOrCreateManifest_def loadManifestFrom_def fetch res assertExpectedMeshId_accepts mesh m_def [symmetric])
  qed
  have "mfGeneration m = 1" "lineageOf m = nextLineage local"
    using nextLineage_pos [of local] by (simp_all add: m_def lineageOf_def)
  with load mesh again show ?thesis by blast
qed

text \<open>An engine configured for the wrong encryption mode is told so before anything is decoded:
  it gets the mismatch error, the remote is not touched and \<open>poisonRemote\<close> is not called.\<close>

theorem encryption_mismatch_not_poisoned:
  assumes "memFile r (manifestPointer (cxRemotePath a)) = None" "policyOk (cxRetention a)"
    and "acceptsMesh codec (meshIdFor local fresh)"
    and "loadOrCreateManifest sha fresh now (memoryOps now) a codec defaultLoad poison (local, r) = ((local', r'), Inr (m, True))"
    and "compatibleContexts a (b\<lparr>cxEncrypted := cxEncrypted a\<rparr>)" "cxEncrypted b \<noteq> cxEncrypted a"
    and "acceptsMesh codec2 (mfMeshId m)" "boundTo (mfMeshId m) local2"
  shows "loadOrCreateManifest sha fresh2 now2 (memoryOps now2) b codec2 defaultLoad poison2 (local2, r')
    = ((storeSetMeta ''meshId'' (JStr (mfMeshId m)) local2, r'),
       Inl (MeshEncryptionMismatchError (cxEncrypted a) (cxEncrypted b)))"
proof -
  let ?i = "asString (storeGetMeta local ''meshId'')"
  define m1 where "m1 = withHash sha (bootstrapPayload a fresh now ?i (nextLineage local))"
  define pointer where "pointer = \<lparr>ptCurrentGeneration = 1, ptFile = ''manifest-1.json''\<rparr>"
  define r1 where "r1 = memWriteFile now (manifestPointer (cxRemotePath a)) (JsonText (DPointer pointer))
           (memWriteFile now (manifestFile (cxRemotePath a) 1) (JsonText (DManifest m1)) r)"
  have create: "fetchManifest sha fresh now (memoryOps now) a defaultLoad local r = (r1, Inr (pointer, Some m1, True))"
    by (rule fetch_absent) (simp_all add: assms(1) m1_def pointer_def r1_def)
  have res: "resolveManifest sha (Some m1) = Inr m1"
    unfolding m1_def by (rule resolveManifest_withHash [OF _ assms(2) _ nextLineage_pos]) simp_all
  have eqs: "m = m1" "r' = r1"
    using assms(4) by (auto simp: loadOrCreateManifest_def loadManifestFrom_def create res split: prod.splits sum.splits)
  have path: "cxRemotePath b = cxRemotePath a" using assms(5) by (simp add: compatibleContexts_def)
  have fetch: "fetchManifest sha fresh2 now2 (memoryOps now2) b defaultLoad local2 r1 = (r1, Inr (pointer, Some m1, False))"
    by (rule fetch_again [OF path pointer_def r1_def])
  have chk: "checkManifest b m1 = Inl (MeshEncryptionMismatchError (cxEncrypted a) (cxEncrypted b))"
    using assms(5,6)
    by (auto simp: checkManifest_def compatibleContexts_def assertServerAuth_def m1_def split: option.split)
  have ne: "mfMeshId m1 \<noteq> ''''" using meshIdFor_ok(1) [of local fresh] by (simp add: m1_def bootstrap_meshId)
  from assms(7,8) ne show ?thesis
    by (simp add: eqs loadOrCreateManifest_def loadManifestFrom_def fetch res chk assertExpectedMeshId_accepts)
qed

section \<open>Device records\<close>

record upsert_options =
  uoDisplayName :: "string option"
  uoDeviceType :: "string option"
  uoObservedManifestGeneration :: "int option"
  uoObservedEpoch :: "int option"
  uoObservedWatermarkHlc :: "string option"
  uoBootstrap :: bool
  uoSkipTouchIfUnchanged :: bool

definition noUpsertOptions :: upsert_options where
  "noUpsertOptions = \<lparr>uoDisplayName = None, uoDeviceType = None, uoObservedManifestGeneration = None,
     uoObservedEpoch = None, uoObservedWatermarkHlc = None, uoBootstrap = False, uoSkipTouchIfUnchanged = False\<rparr>"

definition emptyDevice :: device_metadata where
  "emptyDevice = \<lparr>dmDeviceId = '''', dmUserId = None, dmName = None, dmRegisteredAt = None, dmLastSeenAt = None,
     dmDisplayName = None, dmDeviceType = None, dmRetired = None, dmObservedManifestGeneration = None,
     dmObservedEpoch = None, dmObservedWatermarkHlc = None, dmObservedAt = None, dmCutOffAt = None,
     dmCutOffReason = None\<rparr>"

fun asDevice :: "document \<Rightarrow> device_metadata option" where
  "asDevice (DDevice d) = Some d"
| "asDevice (DOther v) = (if truthy v then Some emptyDevice else None)"
| "asDevice _ = Some emptyDevice"

text \<open>\<open>a ?? b\<close>.\<close>

definition orElse :: "'a option \<Rightarrow> 'a option \<Rightarrow> 'a option" where
  "orElse a b = (case a of None \<Rightarrow> b | Some x \<Rightarrow> Some x)"

definition nextDevice :: "string \<Rightarrow> string \<Rightarrow> upsert_options \<Rightarrow> device_metadata option \<Rightarrow> device_metadata" where
  "nextDevice now deviceId opts existing =
     (let old = (case existing of None \<Rightarrow> emptyDevice | Some d \<Rightarrow> d);
          touchedObserved = (uoObservedManifestGeneration opts \<noteq> None \<or> uoObservedEpoch opts \<noteq> None
                             \<or> uoObservedWatermarkHlc opts \<noteq> None)
      in \<lparr>dmDeviceId = deviceId, dmUserId = dmUserId old, dmName = dmName old,
          dmRegisteredAt = orElse (dmRegisteredAt old) (Some now),
          dmLastSeenAt = (if uoSkipTouchIfUnchanged opts then orElse (dmLastSeenAt old) (Some now) else Some now),
          dmDisplayName = orElse (uoDisplayName opts) (dmDisplayName old),
          dmDeviceType = orElse (uoDeviceType opts) (dmDeviceType old),
          dmRetired = dmRetired old,
          dmObservedManifestGeneration = orElse (uoObservedManifestGeneration opts) (dmObservedManifestGeneration old),
          dmObservedEpoch = orElse (uoObservedEpoch opts) (dmObservedEpoch old),
          dmObservedWatermarkHlc = orElse (uoObservedWatermarkHlc opts) (dmObservedWatermarkHlc old),
          dmObservedAt = (if touchedObserved
             then (if uoSkipTouchIfUnchanged opts then orElse (dmObservedAt old) (Some now) else Some now)
             else dmObservedAt old),
          dmCutOffAt = dmCutOffAt old, dmCutOffReason = dmCutOffReason old\<rparr>)"

definition observedChanged :: "device_metadata \<Rightarrow> device_metadata \<Rightarrow> bool" where
  "observedChanged existing next =
     (dmObservedManifestGeneration existing \<noteq> dmObservedManifestGeneration next
      \<or> dmObservedEpoch existing \<noteq> dmObservedEpoch next
      \<or> dmObservedWatermarkHlc existing \<noteq> dmObservedWatermarkHlc next
      \<or> dmDisplayName existing \<noteq> dmDisplayName next
      \<or> dmDeviceType existing \<noteq> dmDeviceType next
      \<or> dmRetired existing \<noteq> dmRetired next
      \<or> dmCutOffAt existing \<noteq> dmCutOffAt next
      \<or> dmCutOffReason existing \<noteq> dmCutOffReason next
      \<or> dmUserId existing \<noteq> dmUserId next
      \<or> dmName existing \<noteq> dmName next)"

text \<open>The record to write, or nothing when the write is skipped.\<close>

definition deviceToWrite :: "string \<Rightarrow> string \<Rightarrow> upsert_options \<Rightarrow> device_metadata option \<Rightarrow> device_metadata option" where
  "deviceToWrite now deviceId opts existing =
     (let next = nextDevice now deviceId opts existing;
          touchedObserved = (uoObservedManifestGeneration opts \<noteq> None \<or> uoObservedEpoch opts \<noteq> None
                             \<or> uoObservedWatermarkHlc opts \<noteq> None)
      in case (if uoSkipTouchIfUnchanged opts then existing else None) of
           None \<Rightarrow> Some next
         | Some old \<Rightarrow>
             if old = next then None
             else if touchedObserved \<and> \<not> observedChanged old next then None
             else
               (let next1 = (if touchedObserved
                     then next\<lparr>dmLastSeenAt := dmLastSeenAt old, dmObservedAt := dmObservedAt old\<rparr> else next);
                    next2 = next1\<lparr>dmLastSeenAt := dmLastSeenAt old\<rparr>
                in Some (if \<not> touchedObserved then next2\<lparr>dmObservedAt := dmObservedAt old\<rparr> else next2)))"

definition upsertDeviceMetadata ::
  "string \<Rightarrow> ('r, cloud_data) adapter_ops \<Rightarrow> string \<Rightarrow> string \<Rightarrow> upsert_options \<Rightarrow> 'r \<Rightarrow> 'r \<times> unit result"
where
  "upsertDeviceMetadata now ops remotePath deviceId opts r =
     (let existing = (if uoBootstrap opts then None
            else Option.bind (readJsonIfExists ops (deviceFile remotePath deviceId) r) asDevice)
      in case deviceToWrite now deviceId opts existing of
           None \<Rightarrow> (r, Inr ())
         | Some next \<Rightarrow> writeJson ops (deviceFile remotePath deviceId) (DDevice next) r)"

definition wfDevice :: "device_metadata \<Rightarrow> bool" where
  "wfDevice d = (dmRegisteredAt d \<noteq> None \<and> dmLastSeenAt d \<noteq> None)"

lemma orElse_simps [simp]: "orElse None b = b" "orElse (Some x) b = Some x" "orElse a (orElse a b) = orElse a b"
  by (simp_all add: orElse_def split: option.split)

lemma orElse_Some: "orElse a b = (case a of None \<Rightarrow> b | Some x \<Rightarrow> Some x)"
  by (simp add: orElse_def)

lemma deviceToWrite_again:
  assumes "deviceToWrite now d opts existing = Some next" "uoSkipTouchIfUnchanged opts"
    and "\<And>old. existing = Some old \<Longrightarrow> wfDevice old"
  shows "deviceToWrite now' d opts (Some next) = None"
proof (cases existing)
  case None
  with assms(1,2) have "next = nextDevice now d opts None" by (simp add: deviceToWrite_def Let_def)
  then have "nextDevice now' d opts (Some next) = next"
    using assms(2) by (auto simp: nextDevice_def Let_def emptyDevice_def orElse_Some split: option.split)
  then show ?thesis using assms(2) by (simp add: deviceToWrite_def Let_def)
next
  case (Some old)
  with assms(3) have wf: "dmRegisteredAt old \<noteq> None" "dmLastSeenAt old \<noteq> None" by (auto simp: wfDevice_def)
  let ?t = "uoObservedManifestGeneration opts \<noteq> None \<or> uoObservedEpoch opts \<noteq> None \<or> uoObservedWatermarkHlc opts \<noteq> None"
  have nxt: "next = (nextDevice now d opts (Some old))\<lparr>dmLastSeenAt := dmLastSeenAt old, dmObservedAt := dmObservedAt old\<rparr>"
    using assms(1,2) Some by (auto simp: deviceToWrite_def Let_def split: if_splits)
  show ?thesis
  proof (cases ?t)
    case True
    have "\<not> observedChanged next (nextDevice now' d opts (Some next))"
      by (simp add: observedChanged_def nxt nextDevice_def Let_def)
    with True assms(2) show ?thesis by (auto simp: deviceToWrite_def Let_def)
  next
    case False
    then have "nextDevice now' d opts (Some next) = next"
      using assms(2) wf by (auto simp: nxt nextDevice_def Let_def orElse_Some split: option.split)
    then show ?thesis using assms(2) by (simp add: deviceToWrite_def Let_def)
  qed
qed

definition touchesObserved :: "upsert_options \<Rightarrow> bool" where
  "touchesObserved opts =
     (uoObservedManifestGeneration opts \<noteq> None \<or> uoObservedEpoch opts \<noteq> None \<or> uoObservedWatermarkHlc opts \<noteq> None)"

lemma deviceToWrite_None_iff:
  "deviceToWrite now d opts (Some old) = None \<longleftrightarrow>
     uoSkipTouchIfUnchanged opts \<and>
     (old = nextDevice now d opts (Some old) \<or> touchesObserved opts \<and> \<not> observedChanged old (nextDevice now d opts (Some old)))"
  by (simp add: deviceToWrite_def touchesObserved_def Let_def)

lemma observedChanged_any_time:
  "observedChanged old (nextDevice now d opts x) = observedChanged old (nextDevice now' d opts x)"
  by (simp add: observedChanged_def nextDevice_def Let_def)

lemma nextDevice_any_time:
  assumes "\<not> touchesObserved opts" "uoSkipTouchIfUnchanged opts" "wfDevice old"
  shows "nextDevice now d opts (Some old) = nextDevice now' d opts (Some old)"
  using assms by (auto simp: touchesObserved_def nextDevice_def Let_def wfDevice_def)

lemma observedChanged_refl: "old = next \<Longrightarrow> \<not> observedChanged old next"
  by (simp add: observedChanged_def)

lemma deviceToWrite_None_any_time:
  assumes "deviceToWrite now d opts (Some old) = None" "wfDevice old"
  shows "deviceToWrite now' d opts (Some old) = None"
proof (cases "touchesObserved opts")
  case True
  with assms(1) show ?thesis
    unfolding deviceToWrite_None_iff observedChanged_any_time [of old now' d opts "Some old" now]
    using observedChanged_refl by blast
next
  case False
  with assms show ?thesis
    unfolding deviceToWrite_None_iff using nextDevice_any_time [of opts old now' d now] by simp
qed

lemma deviceToWrite_keeps:
  assumes "deviceToWrite now d opts (Some old) = Some next"
  shows "dmDeviceId next = d \<and> dmUserId next = dmUserId old \<and> dmName next = dmName old \<and> dmRetired next = dmRetired old
    \<and> dmCutOffAt next = dmCutOffAt old \<and> dmCutOffReason next = dmCutOffReason old
    \<and> (dmRegisteredAt old \<noteq> None \<longrightarrow> dmRegisteredAt next = dmRegisteredAt old)"
  using assms by (auto simp: deviceToWrite_def nextDevice_def Let_def split: if_splits)

text \<open>A device record is updated, never recreated: the registration time, user, name, retirement
  and cut-off of the record on the remote survive every upsert; and acknowledging the same
  observation twice writes nothing the second time.\<close>

theorem device_upsert:
  assumes "memFile r (deviceFile root d) = Some (JsonText (DDevice old))" "wfDevice old" "\<not> uoBootstrap opts"
    and "upsertDeviceMetadata now (memoryOps now) root d opts r = (r', res)"
  shows "(\<exists>next. memFile r' (deviceFile root d) = Some (JsonText (DDevice next))
        \<and> dmRegisteredAt next = dmRegisteredAt old \<and> dmUserId next = dmUserId old \<and> dmName next = dmName old
        \<and> dmRetired next = dmRetired old \<and> dmCutOffAt next = dmCutOffAt old \<and> dmCutOffReason next = dmCutOffReason old)
    \<and> (uoSkipTouchIfUnchanged opts \<longrightarrow> upsertDeviceMetadata now' (memoryOps now') root d opts r' = (r', Inr ()))"
proof -
  have step: "upsertDeviceMetadata n (memoryOps n) root d opts q =
      (case deviceToWrite n d opts (Some x) of None \<Rightarrow> (q, Inr ())
       | Some next \<Rightarrow> (memWriteFile n (deviceFile root d) (JsonText (DDevice next)) q, Inr ()))"
    if "memFile q (deviceFile root d) = Some (JsonText (DDevice x))" for n q x
    using that assms(3)
    by (simp add: upsertDeviceMetadata_def readJsonIfExists_def readJson_def jsonParse_def writeJson_def
        split: option.split)
  show ?thesis
  proof (cases "deviceToWrite now d opts (Some old)")
    case None
    with step [OF assms(1)] assms(4) have r': "r' = r" by simp
    have "deviceToWrite now' d opts (Some old) = None" by (rule deviceToWrite_None_any_time [OF None assms(2)])
    with r' assms(1) step [OF assms(1), of now'] show ?thesis by auto
  next
    case (Some nx)
    with step [OF assms(1), of now] assms(4)
    have r': "r' = memWriteFile now (deviceFile root d) (JsonText (DDevice nx)) r" by simp
    then have f: "memFile r' (deviceFile root d) = Some (JsonText (DDevice nx))" by simp
    have "deviceToWrite now' d opts (Some nx) = None" if "uoSkipTouchIfUnchanged opts"
      by (rule deviceToWrite_again [OF Some that]) (use assms(2) in simp)
    with f deviceToWrite_keeps [OF Some] assms(2) step [OF f, of now'] show ?thesis by (auto simp: wfDevice_def)
  qed
qed

section \<open>Witnesses\<close>

definition demoContext :: "string \<Rightarrow> bool \<Rightarrow> manifest_context" where
  "demoContext device encrypted = \<lparr>cxRemotePath = ''/Demo'', cxServerId = ''server'', cxServerManaged = False,
     cxDeviceId = device, cxEncrypted = encrypted, cxSchemaVersion = Some 2,
     cxRetention = \<lparr>rpCompactAfterMs = DEFAULT_COMPACT_AFTER_MS, rpMaxOfflineDurationMs = DEFAULT_MAX_OFFLINE_DURATION_MS\<rparr>\<rparr>"

definition freshCodec :: codec_state where
  "freshCodec = \<lparr>csEncryptionKey = None, csEncrypted = False, csManifest = None\<rparr>"

definition noPoison :: "js_error \<Rightarrow> string \<Rightarrow> memory_store \<times> 'r \<Rightarrow> (memory_store \<times> 'r) \<times> js_error" where
  "noPoison e path st = (st, e)"

lemma demoContext_ok:
  "policyOk (cxRetention (demoContext dev enc))" "acceptsMesh freshCodec i"
  "compatibleContexts (demoContext dev enc) (demoContext dev' enc)"
  by (simp_all add: demoContext_def policyOk_def acceptsMesh_def freshCodec_def compatibleContexts_def
      DEFAULT_COMPACT_AFTER_MS_def DEFAULT_MAX_OFFLINE_DURATION_MS_def DAY_MS_def)

lemma empty_remote: "memFile newMemoryAdapter p = None"
  by (simp add: memFile_def newMemoryAdapter_def)

lemma empty_store: "boundTo i newMemoryStore"
  by (simp add: boundTo_def storeGetMeta_def newMemoryStore_def)

lemma demoLoad_runs:
  "\<exists>m local' r'. loadOrCreateManifest (\<lambda>_. ''h'') ''1'' ''t0'' (memoryOps ''t0'') (demoContext ''A'' False) freshCodec
     defaultLoad noPoison (newMemoryStore, newMemoryAdapter) = ((local', r'), Inr (m, True))"
proof -
  let ?run = "loadOrCreateManifest (\<lambda>_. ''h'') ''1'' ''t0'' (memoryOps ''t0'') (demoContext ''A'' False) freshCodec
     defaultLoad noPoison (newMemoryStore, newMemoryAdapter)"
  have "(case snd ?run of Inl _ \<Rightarrow> False | Inr (_, b) \<Rightarrow> b)" by code_simp
  then obtain m where "snd ?run = Inr (m, True)" by (auto split: sum.splits prod.splits)
  then show ?thesis by (metis prod.collapse)
qed

theorem loaded_manifest_valid_witness:
  "\<exists>m local' r'. loadOrCreateManifest (\<lambda>_. ''h'') ''1'' ''t0'' (memoryOps ''t0'') (demoContext ''A'' False) freshCodec
     defaultLoad noPoison (newMemoryStore, newMemoryAdapter) = ((local', r'), Inr (m, True))
   \<and> mfVersion m = 3 \<and> mfSchema m = 2 \<and> lineageOf m > 0"
proof -
  from demoLoad_runs obtain m local' r' where
    run: "loadOrCreateManifest (\<lambda>_. ''h'') ''1'' ''t0'' (memoryOps ''t0'') (demoContext ''A'' False) freshCodec
      defaultLoad noPoison (newMemoryStore, newMemoryAdapter) = ((local', r'), Inr (m, True))" by blast
  with loaded_manifest_valid [OF run] show ?thesis by (auto simp: demoContext_def)
qed

theorem bootstrap_shared_witness:
  "\<exists>m local' r'. loadOrCreateManifest (\<lambda>_. ''h'') ''1'' ''t0'' (memoryOps ''t0'') (demoContext ''A'' False) freshCodec
      defaultLoad noPoison (newMemoryStore, newMemoryAdapter) = ((local', r'), Inr (m, True))
    \<and> snd (loadOrCreateManifest (\<lambda>_. ''h'') ''2'' ''t1'' (memoryOps ''t1'') (demoContext ''B'' False) freshCodec
        defaultLoad noPoison (newMemoryStore, r')) = Inr (m, False)"
proof -
  let ?a = "demoContext ''A'' False" and ?b = "demoContext ''B'' False"
  obtain m local' r' where load: "loadOrCreateManifest (\<lambda>_. ''h'') ''1'' ''t0'' (memoryOps ''t0'') ?a freshCodec defaultLoad noPoison
        (newMemoryStore, newMemoryAdapter) = ((local', r'), Inr (m, True))"
    and again: "\<forall>fresh2 now2 poison2 codec2 local2. acceptsMesh codec2 (mfMeshId m) \<and> boundTo (mfMeshId m) local2 \<longrightarrow>
         loadOrCreateManifest (\<lambda>_. ''h'') fresh2 now2 (memoryOps now2) ?b codec2 defaultLoad poison2 (local2, r')
           = ((storeSetMeta ''meshId'' (JStr (mfMeshId m)) local2, r'), Inr (m, False))"
    using bootstrap_shared [where sha = "\<lambda>_. ''h''" and fresh = "''1''" and now = "''t0''" and a = ?a and b = ?b
        and codec = freshCodec and poison = noPoison and local = newMemoryStore and r = newMemoryAdapter,
        OF empty_remote demoContext_ok(1) demoContext_ok(2) demoContext_ok(3)] by blast
  from again [rule_format, of freshCodec newMemoryStore "''2''" "''t1''" noPoison] demoContext_ok(2) empty_store
  have "snd (loadOrCreateManifest (\<lambda>_. ''h'') ''2'' ''t1'' (memoryOps ''t1'') ?b freshCodec defaultLoad noPoison
      (newMemoryStore, r')) = Inr (m, False)" by simp
  with load show ?thesis by blast
qed

theorem encryption_mismatch_not_poisoned_witness:
  "\<exists>r'. snd (loadOrCreateManifest (\<lambda>_. ''h'') ''2'' ''t1'' (memoryOps ''t1'') (demoContext ''B'' True) freshCodec
        defaultLoad noPoison (newMemoryStore, r')) = Inl (MeshEncryptionMismatchError False True)"
proof -
  from demoLoad_runs obtain m local' r' where
    run: "loadOrCreateManifest (\<lambda>_. ''h'') ''1'' ''t0'' (memoryOps ''t0'') (demoContext ''A'' False) freshCodec
      defaultLoad noPoison (newMemoryStore, newMemoryAdapter) = ((local', r'), Inr (m, True))" by blast
  have "compatibleContexts (demoContext ''A'' False) ((demoContext ''B'' True)\<lparr>cxEncrypted := cxEncrypted (demoContext ''A'' False)\<rparr>)"
    by (simp add: compatibleContexts_def demoContext_def)
  from encryption_mismatch_not_poisoned [OF empty_remote demoContext_ok(1) demoContext_ok(2) run this _ demoContext_ok(2) empty_store]
  show ?thesis by (intro exI [of _ r']) (simp add: demoContext_def)
qed

definition demoDevice :: device_metadata where
  "demoDevice = emptyDevice\<lparr>dmDeviceId := ''A'', dmRegisteredAt := Some ''t0'', dmLastSeenAt := Some ''t0''\<rparr>"

theorem device_upsert_witness:
  "\<exists>next. memFile (fst (upsertDeviceMetadata ''t1'' (memoryOps ''t1'') ''/Demo'' ''A''
       (noUpsertOptions\<lparr>uoObservedEpoch := Some 4, uoSkipTouchIfUnchanged := True\<rparr>)
       (memWriteFile ''t0'' (deviceFile ''/Demo'' ''A'') (JsonText (DDevice demoDevice)) newMemoryAdapter)))
     (deviceFile ''/Demo'' ''A'') = Some (JsonText (DDevice next)) \<and> dmRegisteredAt next = Some ''t0''"
proof -
  let ?o = "noUpsertOptions\<lparr>uoObservedEpoch := Some 4, uoSkipTouchIfUnchanged := True\<rparr>"
  let ?r = "memWriteFile ''t0'' (deviceFile ''/Demo'' ''A'') (JsonText (DDevice demoDevice)) newMemoryAdapter"
  have "memFile ?r (deviceFile ''/Demo'' ''A'') = Some (JsonText (DDevice demoDevice))" by simp
  moreover have "wfDevice demoDevice" "\<not> uoBootstrap ?o" "dmRegisteredAt demoDevice = Some ''t0''"
    by (simp_all add: wfDevice_def demoDevice_def noUpsertOptions_def)
  ultimately show ?thesis
    using device_upsert [of ?r "''/Demo''" "''A''" demoDevice ?o "''t1''" _ _ "''t2''"] by (metis prod.collapse)
qed

end
