(* ===== verification/Flush.thy ===== *)
theory Flush
  imports Manifest
begin

text \<open>
  Publishing queued entries (\<open>packages/core/src/core/flush.ts\<close>): the receipts are recorded first,
  then every entry is written as an immutable change file, then the head hint is advanced, then the
  device record is touched; replicas mirror the files. The events about the head are the second
  component of a run. Logging is left out.
\<close>

datatype head_event =
    HeadSkip "string option" "string option"
  | HeadRead "string option"
  | HeadWrite "string option" string bool

fun writeEntries ::
  "('r, cloud_data) adapter_ops \<Rightarrow> string \<Rightarrow> codec_state \<Rightarrow> change_entry list \<Rightarrow> string \<Rightarrow> 'r \<Rightarrow> 'r \<times> string result"
where
  "writeEntries ops root codec [] lastWritten r = (r, Inr lastWritten)"
| "writeEntries ops root codec (entry # rest) lastWritten r =
     (case encodeChangePayload codec entry of
        Inl e \<Rightarrow> (r, Inl e)
      | Inr data \<Rightarrow>
          (case opWriteFile ops (changeFile root (changeFileName (ceHlc entry) (ceId entry))) data r of
             (r1, Inl e) \<Rightarrow> (r1, Inl e)
           | (r1, Inr _) \<Rightarrow>
               writeEntries ops root codec rest
                 (if lastWritten = '''' \<or> jgt (hlcCompareStr (ceHlc entry) lastWritten) (Num 0)
                  then ceHlc entry else lastWritten) r1))"

fun asHead :: "document \<Rightarrow> string option" where
  "asHead (DHead h) = hdLatestHlc h"
| "asHead _ = None"

definition readHead :: "('r, cloud_data) adapter_ops \<Rightarrow> string \<Rightarrow> 'r \<Rightarrow> string option" where
  "readHead ops root r = Option.bind (readJsonIfExists ops (changesHead root) r) asHead"

text \<open>The device record after the head step; only the primary remote has one.\<close>

definition touchDevice ::
  "string \<Rightarrow> ('r, cloud_data) adapter_ops \<Rightarrow> string \<Rightarrow> bool \<Rightarrow> string \<Rightarrow> 'r \<Rightarrow> 'r \<times> unit result"
where
  "touchDevice now ops root isPrimary deviceId r =
     (if isPrimary then upsertDeviceMetadata now ops root deviceId noUpsertOptions r else (r, Inr ()))"

definition advanceHead ::
  "string \<Rightarrow> ('r, cloud_data) adapter_ops \<Rightarrow> string \<Rightarrow> bool \<Rightarrow> string \<Rightarrow> string \<Rightarrow> 'r \<Rightarrow> 'r \<times> head_event list \<times> unit result"
where
  "advanceHead now ops root isPrimary deviceId lastWritten r =
     (if lastWritten = '''' then
        (case touchDevice now ops root isPrimary deviceId r of (r1, res) \<Rightarrow> (r1, [HeadSkip None None], res))
      else
        (let priorHlc = readHead ops root r in
         if (case truthyHlc priorHlc of Some p \<Rightarrow> jge (hlcCompareStr p lastWritten) (Num 0) | None \<Rightarrow> False) then
           (case touchDevice now ops root isPrimary deviceId r of
              (r1, res) \<Rightarrow> (r1, [HeadRead priorHlc, HeadSkip priorHlc (Some lastWritten)], res))
         else
           (let regressed = (case priorHlc of Some p \<Rightarrow> jgt (hlcCompareStr p lastWritten) (Num 0) | None \<Rightarrow> False);
                bestHlc = (if regressed then the priorHlc else lastWritten);
                events = [HeadRead priorHlc, HeadWrite priorHlc bestHlc regressed]
            in case (if regressed then (r, Inr ())
                     else writeJson ops (changesHead root) (DHead \<lparr>hdLatestHlc = Some bestHlc\<rparr>) r) of
                 (r1, Inl e) \<Rightarrow> (r1, events, Inl e)
               | (r1, Inr _) \<Rightarrow>
                   (case touchDevice now ops root isPrimary deviceId r1 of (r2, res) \<Rightarrow> (r2, events, res)))))"

definition flushToAdapter ::
  "string \<Rightarrow> ('r, cloud_data) adapter_ops \<Rightarrow> string \<Rightarrow> change_entry list \<Rightarrow> bool \<Rightarrow> codec_state \<Rightarrow> string \<Rightarrow>
     'r \<Rightarrow> 'r \<times> head_event list \<times> unit result"
where
  "flushToAdapter now ops root entries isPrimary codec deviceId r =
     (case opEnsureFolder ops (changesFolder root) r of
        (r0, Inl e) \<Rightarrow> (r0, [], Inl e)
      | (r0, Inr _) \<Rightarrow>
          (case writeEntries ops root codec entries '''' r0 of
             (r1, Inl e) \<Rightarrow> (r1, [], Inl e)
           | (r1, Inr lastWritten) \<Rightarrow> advanceHead now ops root isPrimary deviceId lastWritten r1))"

text \<open>A replica: its own adapter and state.\<close>

record 'r replica =
  repOps :: "('r, cloud_data) adapter_ops"
  repRemotePath :: string
  repState :: 'r
  repIsAuthenticated :: "'r \<Rightarrow> bool"
  repAuthenticate :: "'r \<Rightarrow> 'r \<times> unit result"

definition flushReplica :: "string \<Rightarrow> change_entry list \<Rightarrow> codec_state \<Rightarrow> string \<Rightarrow> 'r replica \<Rightarrow> 'r replica \<times> unit result" where
  "flushReplica now entries codec deviceId rep =
     (case (if repIsAuthenticated rep (repState rep) then (repState rep, Inr ()) else repAuthenticate rep (repState rep)) of
        (r0, Inl e) \<Rightarrow> (rep\<lparr>repState := r0\<rparr>, Inl e)
      | (r0, Inr _) \<Rightarrow>
          (case flushToAdapter now (repOps rep) (repRemotePath rep) entries False codec deviceId r0 of
             (r1, _, res) \<Rightarrow> (rep\<lparr>repState := r1\<rparr>, res)))"

text \<open>The loop over the replicas; a failure is reported and the loop goes on.\<close>

fun flushReplicas ::
  "string \<Rightarrow> change_entry list \<Rightarrow> codec_state \<Rightarrow> string \<Rightarrow> 'r replica list \<Rightarrow> 'r replica list \<times> js_error list"
where
  "flushReplicas now entries codec deviceId [] = ([], [])"
| "flushReplicas now entries codec deviceId (rep # reps) =
     (case flushReplica now entries codec deviceId rep of
        (rep1, res) \<Rightarrow>
          (case flushReplicas now entries codec deviceId reps of
             (reps1, errs) \<Rightarrow> (rep1 # reps1, (case res of Inl e \<Rightarrow> e # errs | Inr _ \<Rightarrow> errs))))"

record 'r flush_outcome =
  foLocal :: memory_store
  foRemote :: 'r
  foReplicas :: "'r replica list"
  foReplicaErrors :: "js_error list"
  foHeadEvents :: "head_event list"
  foResult :: "unit result"

definition flushPrimary ::
  "string \<Rightarrow> ('r, cloud_data) adapter_ops \<Rightarrow> string \<Rightarrow> change_entry list \<Rightarrow> codec_state \<Rightarrow> string \<Rightarrow> 'r replica list \<Rightarrow>
     memory_store \<Rightarrow> 'r \<Rightarrow> 'r flush_outcome"
where
  "flushPrimary now ops root entries codec deviceId replicas local r =
     (case recordFlushedChanges entries local of
        (local1, Inl e) \<Rightarrow>
          \<lparr>foLocal = local1, foRemote = r, foReplicas = replicas, foReplicaErrors = [], foHeadEvents = [], foResult = Inl e\<rparr>
      | (local1, Inr _) \<Rightarrow>
          (case flushToAdapter now ops root entries True codec deviceId r of
             (r1, events, Inl e) \<Rightarrow>
               \<lparr>foLocal = local1, foRemote = r1, foReplicas = replicas, foReplicaErrors = [], foHeadEvents = events,
                foResult = Inl e\<rparr>
           | (r1, events, Inr _) \<Rightarrow>
               (case flushReplicas now entries codec deviceId replicas of
                  (reps, errs) \<Rightarrow>
                    \<lparr>foLocal = local1, foRemote = r1, foReplicas = reps, foReplicaErrors = errs, foHeadEvents = events,
                     foResult = Inr ()\<rparr>)))"

section \<open>The head never moves back\<close>

definition headStamp :: "('r \<Rightarrow> string \<Rightarrow> cloud_data option) \<Rightarrow> string \<Rightarrow> 'r \<Rightarrow> string option" where
  "headStamp contents root r =
     (case contents r (changesHead root) of Some (JsonText (DHead h)) \<Rightarrow> hdLatestHlc h | _ \<Rightarrow> None)"

definition notBehind :: "string option \<Rightarrow> string option \<Rightarrow> bool" where
  "notBehind old new = (case old of None \<Rightarrow> True | Some h \<Rightarrow> (\<exists>h'. new = Some h' \<and> stampKey h \<le> stampKey h'))"

lemma paths_distinct:
  "changeFile root (changeFileName h i) \<noteq> changesHead root \<longleftrightarrow> changeFileName h i \<noteq> ''head.json''"
  "deviceFile root d \<noteq> changesHead root" "deviceFile root d \<noteq> changeFile root f"
  "changeFile root f = changeFile root f' \<longleftrightarrow> f = f'" "changesHead root = changeFile root ''head.json''"
  by (auto simp: path_defs)

definition entryFile :: "string \<Rightarrow> change_entry \<Rightarrow> string" where
  "entryFile root e = changeFile root (changeFileName (ceHlc e) (ceId e))"

lemma entryFile_not_head [simp]: "entryFile root e \<noteq> changesHead root"
proof
  assume "entryFile root e = changesHead root"
  then have "changeFileName (ceHlc e) (ceId e) = ''head.json''"
    by (simp add: entryFile_def changeFile_def changesHead_def)
  then have "CHR ''-'' \<in> set ''head.json''" by (metis changeFileName_def in_set_conv_decomp append_Cons)
  then show False by simp
qed

lemma entryFile_not_device [simp]: "deviceFile root d \<noteq> entryFile root e"
  by (simp add: entryFile_def path_defs)

lemma device_not_head [simp]: "deviceFile root d \<noteq> changesHead root"
  by (simp add: path_defs)

text \<open>The highest stamp written so far.\<close>

definition coversAll :: "change_entry list \<Rightarrow> string \<Rightarrow> bool" where
  "coversAll es h = (\<forall>e \<in> set es. stampKey (ceHlc e) \<le> stampKey h)"

text \<open>
  An adapter whose remote answers: a file that exists can be read. Writes may still fail.
\<close>

locale cloud_adapter = storage_adapter ops contents okFolder
  for ops :: "('r, cloud_data) adapter_ops" and contents :: "'r \<Rightarrow> string \<Rightarrow> cloud_data option"
    and okFolder :: "string \<Rightarrow> bool" +
  assumes reads: "contents r p = Some d \<Longrightarrow> opReadFile ops p r = Inr d"
begin

lemma readHead_headStamp: "readHead ops root r = headStamp contents root r"
proof (cases "contents r (changesHead root)")
  case None
  then have "\<exists>e. opReadFile ops (changesHead root) r = Inl e"
    using read_ok [of "changesHead root" r] by (cases "opReadFile ops (changesHead root) r") auto
  then show ?thesis using None by (auto simp: readHead_def headStamp_def readJsonIfExists_def readJson_def)
next
  case (Some d)
  have "asHead doc = (case doc of DHead h \<Rightarrow> hdLatestHlc h | _ \<Rightarrow> None)" for doc by (cases doc) auto
  with Some reads [OF Some] show ?thesis
    by (simp add: readHead_def headStamp_def readJsonIfExists_def readJson_def jsonParse_def
        split: cloud_data.split document.split)
qed

lemma writeEntries_other:
  "writeEntries ops root codec es lw r = (r', res) \<Longrightarrow> p \<notin> entryFile root ` set es \<Longrightarrow> contents r' p = contents r p"
proof (induction es arbitrary: lw r)
  case (Cons e es)
  show ?case
  proof (cases "encodeChangePayload codec e")
    case (Inl err)
    with Cons.prems show ?thesis by simp
  next
    case (Inr d)
    obtain r1 w where w: "opWriteFile ops (entryFile root e) d r = (r1, w)" by force
    have "contents r1 p = contents r p" using write_file [OF w] Cons.prems(2) by simp
    with Cons Inr w show ?thesis by (cases w) (auto simp: entryFile_def)
  qed
qed simp

lemma writeEntries_written:
  "writeEntries ops root codec es lw r = (r', Inr lw') \<Longrightarrow> distinct (map (entryFile root) es) \<Longrightarrow> e \<in> set es \<Longrightarrow>
     \<exists>d. encodeChangePayload codec e = Inr d \<and> contents r' (entryFile root e) = Some d"
proof (induction es arbitrary: lw r)
  case (Cons x es)
  obtain d where d: "encodeChangePayload codec x = Inr d" using Cons.prems(1) by (auto split: sum.splits)
  obtain r1 where w: "opWriteFile ops (entryFile root x) d r = (r1, Inr ())"
    using Cons.prems(1) d by (auto simp: entryFile_def split: sum.splits prod.splits)
  obtain lw1 where rest: "writeEntries ops root codec es lw1 r1 = (r', Inr lw')"
    using Cons.prems(1) d w by (auto simp: entryFile_def)
  show ?case
  proof (cases "e = x")
    case True
    have "contents r1 (entryFile root x) = Some d" using write_ok [OF w] by simp
    moreover have "contents r' (entryFile root x) = contents r1 (entryFile root x)"
      by (rule writeEntries_other [OF rest]) (use Cons.prems(2) in auto)
    ultimately show ?thesis using True d by simp
  next
    case False
    with Cons.IH [OF rest] Cons.prems show ?thesis by auto
  qed
qed simp

lemma writeEntries_last:
  "writeEntries ops root codec es lw r = (r', Inr lw') \<Longrightarrow> \<forall>e \<in> set es. stampOk (ceHlc e) \<Longrightarrow> lw = '''' \<or> stampOk lw \<Longrightarrow>
     (lw' = '''' \<or> stampOk lw') \<and> coversAll es lw' \<and> (lw \<noteq> '''' \<longrightarrow> lw' \<noteq> '''' \<and> stampKey lw \<le> stampKey lw')
     \<and> (es \<noteq> [] \<longrightarrow> lw' \<noteq> '''')"
proof (induction es arbitrary: lw r)
  case (Cons e es)
  let ?l = "if lw = '''' \<or> jgt (hlcCompareStr (ceHlc e) lw) (Num 0) then ceHlc e else lw"
  obtain r1 where rest: "writeEntries ops root codec es ?l r1 = (r', Inr lw')"
    using Cons.prems(1) by (auto split: sum.splits prod.splits)
  have ok: "stampOk (ceHlc e)" "\<forall>e \<in> set es. stampOk (ceHlc e)" using Cons.prems by auto
  then have l: "stampOk ?l" "?l \<noteq> ''''" "stampKey (ceHlc e) \<le> stampKey ?l" "lw \<noteq> '''' \<longrightarrow> stampKey lw \<le> stampKey ?l"
    using Cons.prems(3) by (auto simp: stamp_simps)
  from Cons.IH [OF rest ok(2)] l show ?case by (auto simp: coversAll_def intro: order_trans)
qed (auto simp: coversAll_def)

lemma upsert_other:
  "upsertDeviceMetadata now ops root d opts r = (r', res) \<Longrightarrow> p \<noteq> deviceFile root d \<Longrightarrow> contents r' p = contents r p"
  using write_file [of "deviceFile root d" _ r r'] 
  by (fastforce simp: upsertDeviceMetadata_def writeJson_def Let_def split: option.splits if_splits)

lemma touchDevice_other:
  "touchDevice now ops root prim d r = (r', res) \<Longrightarrow> p \<noteq> deviceFile root d \<Longrightarrow> contents r' p = contents r p"
  using upsert_other by (auto simp: touchDevice_def split: if_splits)

lemma headStamp_cong: "contents r' (changesHead root) = contents r (changesHead root) \<Longrightarrow>
    headStamp contents root r' = headStamp contents root r"
  by (simp add: headStamp_def)

lemma advanceHead_cases:
  assumes run: "advanceHead now ops root prim d lw r = (r', evs, res)"
    and lw: "lw = '''' \<or> stampOk lw" and hdok: "\<And>h. headStamp contents root r = Some h \<Longrightarrow> stampOk h"
  shows "headStamp contents root r' = headStamp contents root r
      \<and> (lw \<noteq> '''' \<and> res = Inr () \<longrightarrow> notBehind (Some lw) (headStamp contents root r))
    \<or> lw \<noteq> '''' \<and> headStamp contents root r' = Some lw \<and> notBehind (headStamp contents root r) (Some lw)"
proof -
  have touch: "headStamp contents root r2 = headStamp contents root r1"
    if "touchDevice now ops root prim d r1 = (r2, x)" for r1 r2 x
    by (rule headStamp_cong, rule touchDevice_other [OF that]) (metis device_not_head)
  let ?prior = "headStamp contents root r"
  consider (empty) "lw = ''''"
    | (ahead) h where "stampOk lw" "?prior = Some h" "stampOk h" "stampKey lw \<le> stampKey h"
    | (behind) "stampOk lw" "\<And>h. ?prior = Some h \<Longrightarrow> stampOk h \<and> stampKey h < stampKey lw"
    using lw hdok by (cases ?prior) (auto, meson not_le)
  then show ?thesis
  proof cases
    case empty
    with run touch show ?thesis by (auto simp: advanceHead_def split: prod.splits)
  next
    case ahead
    then have "truthyHlc ?prior = Some h" "jge (hlcCompareStr h lw) (Num 0)" "lw \<noteq> ''''"
      by (auto simp: stamp_simps truthyHlc_def)
    with run touch ahead show ?thesis
      by (auto simp: advanceHead_def readHead_headStamp Let_def notBehind_def split: prod.splits)
  next
    case behind
    then have nb: "notBehind ?prior (Some lw)" by (auto simp: notBehind_def split: option.split)
    have "\<not> (case truthyHlc ?prior of Some p \<Rightarrow> jge (hlcCompareStr p lw) (Num 0) | None \<Rightarrow> False)"
      "\<not> (case ?prior of Some p \<Rightarrow> jgt (hlcCompareStr p lw) (Num 0) | None \<Rightarrow> False)" "lw \<noteq> ''''"
      using behind by (auto simp: stamp_simps truthyHlc_def not_le not_less less_imp_le split: option.splits)
    then obtain r1 w where w: "opWriteFile ops (changesHead root) (JsonText (DHead \<lparr>hdLatestHlc = Some lw\<rparr>)) r = (r1, w)"
      and rest: "(case w of Inl e \<Rightarrow> r' = r1 \<and> res = Inl e | Inr _ \<Rightarrow> touchDevice now ops root prim d r1 = (r', res))"
      using run by (auto simp: advanceHead_def readHead_headStamp Let_def writeJson_def split: prod.splits sum.splits)
    show ?thesis
    proof (cases w)
      case (Inl e)
      with w write_fail have "contents r1 = contents r" by metis
      with rest Inl show ?thesis by (auto simp: headStamp_def)
    next
      case (Inr u)
      with w write_ok have "headStamp contents root r1 = Some lw" by (auto simp: headStamp_def)
      with rest Inr touch [of r1 r' res] nb behind show ?thesis by simp
    qed
  qed
qed

lemma advanceHead_other:
  assumes "advanceHead now ops root prim d lw r = (r', evs, res)" "p \<noteq> changesHead root" "p \<noteq> deviceFile root d"
  shows "contents r' p = contents r p"
proof -
  have touch: "contents r2 p = contents r1 p" if "touchDevice now ops root prim d r1 = (r2, x)" for r1 r2 x
    by (rule touchDevice_other [OF that assms(3)])
  have wr: "contents r2 p = contents r1 p" if "writeJson ops (changesHead root) doc r1 = (r2, x)" for r1 r2 x doc
    using write_file [OF that [unfolded writeJson_def]] assms(2) by simp
  show ?thesis
    using assms(1) touch wr
    by (auto simp: advanceHead_def Let_def split: prod.splits sum.splits if_splits option.splits)
qed

lemma flushToAdapter_head:
  assumes run: "flushToAdapter now ops root es prim codec d r = (r', evs, res)"
    and ok: "\<forall>e \<in> set es. stampOk (ceHlc e)" and hdok: "\<And>h. headStamp contents root r = Some h \<Longrightarrow> stampOk h"
  shows "notBehind (headStamp contents root r) (headStamp contents root r')"
    and "res = Inr () \<Longrightarrow> e \<in> set es \<Longrightarrow> notBehind (Some (ceHlc e)) (headStamp contents root r')"
proof -
  have "headStamp contents root r0 = headStamp contents root r" if "opEnsureFolder ops (changesFolder root) r = (r0, x)" for r0 x
    using ensure_any [OF that] by (simp add: headStamp_def)
  moreover have "headStamp contents root r1 = headStamp contents root r0" if "writeEntries ops root codec es '''' r0 = (r1, x)" for r0 r1 x
    by (rule headStamp_cong, rule writeEntries_other [OF that]) (metis entryFile_not_head imageE)
  ultimately consider "headStamp contents root r' = headStamp contents root r" "\<exists>err. res = Inl err"
    | r0 r1 lw where "writeEntries ops root codec es '''' r0 = (r1, Inr lw)"
        "headStamp contents root r1 = headStamp contents root r" "advanceHead now ops root prim d lw r1 = (r', evs, res)"
    using run by (auto simp: flushToAdapter_def split: prod.splits sum.splits)
  then have "notBehind (headStamp contents root r) (headStamp contents root r')
    \<and> (res = Inr () \<longrightarrow> e \<in> set es \<longrightarrow> notBehind (Some (ceHlc e)) (headStamp contents root r'))"
  proof cases
    case 1
    then show ?thesis by (auto simp: notBehind_def split: option.split)
  next
    case 2
    have lw: "lw = '''' \<or> stampOk lw" "coversAll es lw" "es \<noteq> [] \<longrightarrow> lw \<noteq> ''''"
      using writeEntries_last [OF 2(1) ok] by auto
    from advanceHead_cases [OF 2(3) lw(1)] 2(2) hdok lw(2,3) show ?thesis
      by (auto simp: notBehind_def coversAll_def split: option.splits intro: order_trans)
  qed
  then show "notBehind (headStamp contents root r) (headStamp contents root r')"
    "res = Inr () \<Longrightarrow> e \<in> set es \<Longrightarrow> notBehind (Some (ceHlc e)) (headStamp contents root r')" by auto
qed

end

interpretation memcloud: cloud_adapter "memoryOps now" memFile "\<lambda>f. \<not> endsWith f ''/''"
  by unfold_locales simp

section \<open>Receipts\<close>

definition entryName :: "change_entry \<Rightarrow> string" where
  "entryName e = changeFileName (ceHlc e) (ceId e)"

lemma queued_setMeta [simp]: "queuedEntries (storeSetMeta k v s) = queuedEntries s"
  by (simp add: queuedEntries_def storeSetMeta_def storePeekOutbox_def storePeekPendingBatch_def)

lemma queued_persist: "queuedEntries (fst (persistLedger l s)) = queuedEntries s"
  by (simp add: persistLedger_def Let_def)

lemma queued_record: "queuedEntries (fst (recordFlushedChanges es s)) = queuedEntries s"
proof (cases "observeEntries es (loadLedger s)")
  case (Inr l)
  obtain s' l' b where p: "persistLedger l s = (s', l', b)" by (cases "persistLedger l s") auto
  with queued_persist [of l s] Inr show ?thesis by (cases b) (simp_all add: recordFlushedChanges_def)
qed (simp add: recordFlushedChanges_def)

lemma observeEntries_ok:
  "\<forall>e \<in> set es. changeIdOk (ceId e) \<Longrightarrow> \<exists>l'. observeEntries es l = Inr l'"
proof (induction es arbitrary: l)
  case (Cons e es)
  then have "\<exists>l1 late. observe (changeFileName (ceHlc e) (ceId e)) (ceHlc e) l = Inr (l1, late)"
    by (simp add: observe_def changeFileHlc_changeFileName Let_def)
  with Cons show ?case by (auto simp: bind_result_Inr_iff)
qed simp

lemma recordFlushedChanges_seen:
  assumes "recordFlushedChanges es s = (s', Inr ())"
  shows "set (ldSeen (loadLedger s')) = set (ldSeen (loadLedger s)) \<union> entryName ` {e \<in> set es. ceHlc e \<noteq> ''''}"
proof -
  obtain l where l: "observeEntries es (loadLedger s) = Inr l"
    using assms by (auto simp: recordFlushedChanges_def split: sum.splits)
  let ?names = "map (\<lambda>e. changeFileName (ceHlc e) (ceId e)) (filter (\<lambda>e. ceHlc e \<noteq> '''') es)"
  have seen: "ldSeen l = fold jsetAdd ?names (ldSeen (loadLedger s))" and gen: "ldGeneration l = observationGeneration s"
    using observeEntries_seen [OF l] by (simp_all add: ledger_generation)
  have "distinct (ldSeen l)" using distinct_loadLedger [of s] by (simp add: seen)
  then obtain s1 l1 where p: "persistLedger l s = (s1, l1, True)"
    and u: "set (ldSeen (loadLedger s1)) = set (ldSeen (loadLedger s)) \<union> set (ldSeen l)"
    using persist_current [OF gen] by metis
  have "s1 = s'" using assms l p by (simp add: recordFlushedChanges_def)
  with u show ?thesis by (auto simp: seen entryName_def image_iff)
qed

lemma recordFlushedChanges_ok:
  assumes "\<forall>e \<in> set es. changeIdOk (ceId e)"
  shows "\<exists>s'. recordFlushedChanges es s = (s', Inr ())"
proof -
  obtain l where l: "observeEntries es (loadLedger s) = Inr l" using observeEntries_ok [OF assms] by blast
  have gen: "ldGeneration l = observationGeneration s" and d: "distinct (ldSeen l)"
    using observeEntries_seen [OF l] distinct_loadLedger [of s] by (simp_all add: ledger_generation)
  obtain s1 l1 where "persistLedger l s = (s1, l1, True)" using persist_current [OF gen d] by metis
  with l show ?thesis by (simp add: recordFlushedChanges_def)
qed

section \<open>Properties\<close>

text \<open>Publication never outruns the receipts: over any adapter, whatever fails, when a flush has
  changed the remote or a replica, the local store has recorded every entry's file as seen; and a
  flush never removes an entry from the local queue, so a failed one can be retried.\<close>

theorem receipts_before_publication:
  assumes "out = flushPrimary now ops root entries codec deviceId replicas local r"
  shows "(foRemote out \<noteq> r \<or> foReplicas out \<noteq> replicas \<or> foResult out = Inr () \<longrightarrow>
      (\<forall>e \<in> set entries. ceHlc e \<noteq> '''' \<longrightarrow> hasSeen (loadLedger (foLocal out)) (entryName e)))
    \<and> queuedEntries (foLocal out) = queuedEntries local"
proof (cases "recordFlushedChanges entries local")
  case (Pair local1 res)
  show ?thesis
  proof (cases res)
    case (Inl e)
    with Pair assms queued_record [of entries local] show ?thesis by (simp add: flushPrimary_def)
  next
    case (Inr u)
    with Pair have rec: "recordFlushedChanges entries local = (local1, Inr ())" by simp
    have loc: "foLocal out = local1"
      using assms by (simp add: flushPrimary_def rec split: prod.split sum.split)
    from recordFlushedChanges_seen [OF rec] queued_record [of entries local] rec show ?thesis
      by (auto simp: loc hasSeen_def)
  qed
qed

text \<open>The head hint is monotone: over any adapter that answers reads, whether writes fail or not,
  a flush leaves the head at the clock it had or a later one, and after a successful flush it is
  not before any entry flushed.\<close>

theorem head_monotone:
  assumes "cloud_adapter ops contents okFolder"
    and "flushToAdapter now ops root entries isPrimary codec deviceId r = (r', events, res)"
    and "\<forall>e \<in> set entries. stampOk (ceHlc e)" "\<forall>h. headStamp contents root r = Some h \<longrightarrow> stampOk h"
  shows "notBehind (headStamp contents root r) (headStamp contents root r')
    \<and> (res = Inr () \<longrightarrow> (\<forall>e \<in> set entries. notBehind (Some (ceHlc e)) (headStamp contents root r')))"
  using cloud_adapter.flushToAdapter_head [OF assms(1,2,3)] assms(4) by blast

text \<open>A remote that takes every write and every folder.\<close>

definition takesWrites :: "('r, cloud_data) adapter_ops \<Rightarrow> bool" where
  "takesWrites ops \<longleftrightarrow> (\<forall>p d r. snd (opWriteFile ops p d r) = Inr ()) \<and> (\<forall>p r. snd (opEnsureFolder ops p r) = Inr ())"

lemma takesWrites_write: "takesWrites ops \<Longrightarrow> \<exists>r'. opWriteFile ops p d r = (r', Inr ())"
  unfolding takesWrites_def by (metis prod.collapse)

lemma writeEntries_taken:
  assumes "takesWrites ops" "csManifest codec = Some mf" "mfMeshId mf \<noteq> ''''"
  shows "\<exists>r' lw'. writeEntries ops root codec es lw r = (r', Inr lw')"
proof (induction es arbitrary: lw r)
  case (Cons e es)
  obtain d where "encodeChangePayload codec e = Inr d" using assms(2,3) by (simp add: encodeChangePayload_def)
  moreover obtain r1 where "opWriteFile ops (changeFile root (changeFileName (ceHlc e) (ceId e))) d r = (r1, Inr ())"
    using takesWrites_write [OF assms(1)] by blast
  ultimately show ?case using Cons.IH by simp
qed simp

lemma touchDevice_taken: "takesWrites ops \<Longrightarrow> snd (touchDevice now ops root prim d r) = Inr ()"
  by (auto simp: touchDevice_def upsertDeviceMetadata_def writeJson_def Let_def takesWrites_def split: option.split)

lemma advanceHead_taken:
  assumes "takesWrites ops" "advanceHead now ops root prim d lw r = (r', evs, res)"
  shows "res = Inr ()"
proof -
  have touch: "touchDevice now ops root prim d q = (q', x) \<Longrightarrow> x = Inr ()" for q q' x
    using touchDevice_taken [OF assms(1)] by (metis snd_conv)
  have wr: "writeJson ops path doc q = (q', x) \<Longrightarrow> x = Inr ()" for path doc q q' x
    using assms(1) unfolding takesWrites_def writeJson_def by (metis snd_conv)
  show ?thesis
    using assms(2) by (auto simp: advanceHead_def Let_def split: prod.splits sum.splits if_splits dest: touch wr)
qed

lemma flushToAdapter_taken:
  assumes "takesWrites ops" "csManifest codec = Some mf" "mfMeshId mf \<noteq> ''''"
    and "flushToAdapter now ops root es prim codec d r = (r', evs, res)"
  shows "res = Inr ()"
proof -
  obtain r0 where r0: "opEnsureFolder ops (changesFolder root) r = (r0, Inr ())"
    using assms(1) unfolding takesWrites_def by (metis prod.collapse)
  obtain r1 lw where "writeEntries ops root codec es '''' r0 = (r1, Inr lw)"
    using writeEntries_taken [OF assms(1,2,3)] by blast
  with assms(4) r0 show ?thesis by (auto simp: flushToAdapter_def dest: advanceHead_taken [OF assms(1)])
qed

text \<open>What a flush does to the files of one remote, wherever it fails.\<close>

context cloud_adapter
begin

lemma flushToAdapter_other:
  assumes "flushToAdapter now ops root es prim codec d r = (r', evs, res)"
    and "p \<noteq> changesHead root" "p \<noteq> deviceFile root d" "p \<notin> entryFile root ` set es"
  shows "contents r' p = contents r p"
proof -
  have "contents r0 p = contents r p" if "opEnsureFolder ops (changesFolder root) r = (r0, x)" for r0 x
    using ensure_any [OF that] by simp
  moreover have "contents r1 p = contents r0 p" if "writeEntries ops root codec es '''' r0 = (r1, x)" for r0 r1 x
    by (rule writeEntries_other [OF that assms(4)])
  moreover have "contents r2 p = contents r1 p" if "advanceHead now ops root prim d lw r1 = (r2, e, x)" for lw r1 r2 e x
    by (rule advanceHead_other [OF that assms(2,3)])
  ultimately show ?thesis using assms(1) by (auto simp: flushToAdapter_def split: prod.splits sum.splits)
qed

lemma flushToAdapter_written:
  assumes "flushToAdapter now ops root es prim codec d r = (r', evs, Inr ())"
    and "distinct (map (entryFile root) es)" "e \<in> set es"
  shows "\<exists>data. encodeChangePayload codec e = Inr data \<and> contents r' (entryFile root e) = Some data"
proof -
  obtain r0 r1 lw where w: "writeEntries ops root codec es '''' r0 = (r1, Inr lw)"
    and h: "advanceHead now ops root prim d lw r1 = (r', evs, Inr ())"
    using assms(1) by (auto simp: flushToAdapter_def split: prod.splits sum.splits)
  have "contents r' (entryFile root e) = contents r1 (entryFile root e)"
    by (rule advanceHead_other [OF h]) (auto dest: sym)
  with writeEntries_written [OF w assms(2,3)] show ?thesis by simp
qed

end

lemma flushPrimary_remote:
  assumes "out = flushPrimary now ops root entries codec deviceId replicas local r"
  obtains "foRemote out = r" "\<exists>e. foResult out = Inl e" "\<exists>e local1. recordFlushedChanges entries local = (local1, Inl e)"
  | evs where "flushToAdapter now ops root entries True codec deviceId r = (foRemote out, evs, foResult out)"
    "recordFlushedChanges entries local = (foLocal out, Inr ())"
proof (cases "recordFlushedChanges entries local")
  case (Pair local1 rec)
  obtain r1 evs res where f: "flushToAdapter now ops root entries True codec deviceId r = (r1, evs, res)"
    by (cases "flushToAdapter now ops root entries True codec deviceId r") auto
  show ?thesis
  proof (cases rec)
    case (Inl e)
    with Pair assms that(1) show ?thesis by (simp add: flushPrimary_def)
  next
    case (Inr u)
    with Pair f assms that(2) show ?thesis by (cases res) (simp_all add: flushPrimary_def split: prod.splits)
  qed
qed

text \<open>C37: What a flush does to the remote, over any adapter that keeps the storage contract and
  can read the files it holds, with any replicas and whichever writes fail. A flush that succeeds has
  written every entry's change file with the bytes the codec gives for it, has recorded every entry
  as seen, and has brought the head to a clock not before any of them; whether it succeeds or not, the
  head never moves back, no file of the remote changes but the entries' change files, the head and
  the device's own record, and the local queue is as before, so that a failed flush can be repeated.
  When the adapter takes every write, the manifest is loaded and the entry ids are well formed, it
  succeeds. Entries have well-formed stamps and distinct file names.\<close>

theorem flush_publishes:
  assumes adapter: "cloud_adapter ops contents okFolder"
    and stamps: "\<forall>e \<in> set entries. stampOk (ceHlc e)" "\<forall>h. headStamp contents root r = Some h \<longrightarrow> stampOk h"
    and names: "distinct (map entryName entries)"
    and out: "out = flushPrimary now ops root entries codec deviceId replicas local r"
  shows "(foResult out = Inr () \<longrightarrow> (\<forall>e \<in> set entries.
      (\<exists>data. encodeChangePayload codec e = Inr data \<and> contents (foRemote out) (changeFile root (entryName e)) = Some data)
      \<and> hasSeen (loadLedger (foLocal out)) (entryName e)
      \<and> notBehind (Some (ceHlc e)) (headStamp contents root (foRemote out))))
    \<and> notBehind (headStamp contents root r) (headStamp contents root (foRemote out))
    \<and> (\<forall>p. p \<noteq> changesHead root \<and> p \<noteq> deviceFile root deviceId \<and> p \<notin> (\<lambda>e. changeFile root (entryName e)) ` set entries
         \<longrightarrow> contents (foRemote out) p = contents r p)
    \<and> queuedEntries (foLocal out) = queuedEntries local
    \<and> (takesWrites ops \<and> (\<exists>mf. csManifest codec = Some mf \<and> mfMeshId mf \<noteq> '''') \<and> (\<forall>e \<in> set entries. changeIdOk (ceId e))
         \<longrightarrow> foResult out = Inr ())"
  using out
proof (cases rule: flushPrimary_remote)
  case 1
  moreover have "queuedEntries (foLocal out) = queuedEntries local"
    using 1(3) queued_record [of entries local] out by (auto simp: flushPrimary_def)
  moreover have "\<not> (\<forall>e \<in> set entries. changeIdOk (ceId e))"
    using 1(3) recordFlushedChanges_ok [of entries local] by fastforce
  ultimately show ?thesis by (auto simp: notBehind_def split: option.split)
next
  case (2 evs)
  have fl: "(\<lambda>e. changeFile root (entryName e)) = entryFile root" by (simp add: fun_eq_iff entryName_def entryFile_def)
  have inj: "distinct (map (entryFile root) entries)"
    using names by (auto simp: distinct_map inj_on_def entryName_def entryFile_def changeFile_def)
  have "hasSeen (loadLedger (foLocal out)) (entryName e)" if "e \<in> set entries" for e
    using recordFlushedChanges_seen [OF 2(2)] that stamps(1) by (auto simp: hasSeen_def)
  moreover have "queuedEntries (foLocal out) = queuedEntries local"
    using queued_record [of entries local] 2(2) by simp
  moreover note cloud_adapter.flushToAdapter_head [OF adapter 2(1) stamps(1)] stamps(2)
    cloud_adapter.flushToAdapter_other [OF adapter 2(1)] flushToAdapter_taken [OF _ _ _ 2(1)]
  moreover have "foResult out = Inr () \<Longrightarrow> e \<in> set entries \<Longrightarrow>
      \<exists>data. encodeChangePayload codec e = Inr data \<and> contents (foRemote out) (entryFile root e) = Some data" for e
    using cloud_adapter.flushToAdapter_written [OF adapter _ inj] 2(1) by metis
  ultimately show ?thesis unfolding fl [THEN fun_cong, simplified] fl by blast
qed

text \<open>An adapter whose reads fail for a while keeps the contract.\<close>

definition flakyOps :: "string \<Rightarrow> (cloud_data memory_adapter, cloud_data) adapter_ops" where
  "flakyOps now = (memoryOps now)\<lparr>opReadFile := \<lambda>path r. Inl (Error ''network'')\<rparr>"

interpretation flaky: storage_adapter "flakyOps now" memFile "\<lambda>f. \<not> endsWith f ''/''"
proof unfold_locales
  fix f :: string and r :: "cloud_data memory_adapter" and es p n
  assume "\<not> endsWith f ''/''" "opListFiles (flakyOps now) f r = Inr es"
  then show "(\<exists>d. memFile r p = Some d \<and> directChild f n p) \<longleftrightarrow> (\<exists>e \<in> set es. feName e = n \<and> fePath e = p)"
    using memListFiles_iff [of f r n p] by (simp add: flakyOps_def)
qed (auto simp: flakyOps_def)

definition demoRemote :: "cloud_data memory_adapter" where
  "demoRemote = memWriteFile ''t0'' (changesHead ''/Demo'') (JsonText (DHead \<lparr>hdLatestHlc = Some (demoStamp 5 ''B'')\<rparr>)) newMemoryAdapter"

text \<open>A head that cannot be read for a moment is taken for missing: the flush then overwrites it
  with an older clock. The contract of adapters allows such a failed read.\<close>

theorem head_regresses:
  "storage_adapter (flakyOps ''t1'') memFile (\<lambda>f. \<not> endsWith f ''/'')
   \<and> headStamp memFile ''/Demo'' demoRemote = Some (demoStamp 5 ''B'')
   \<and> headStamp memFile ''/Demo'' (fst (flushToAdapter ''t1'' (flakyOps ''t1'') ''/Demo'' [demoChange] True demoCodec ''A'' demoRemote))
       = Some (demoStamp 1 ''A'')
   \<and> stampKey (demoStamp 1 ''A'') < stampKey (demoStamp 5 ''B'')"
proof (intro conjI)
  show "storage_adapter (flakyOps ''t1'') memFile (\<lambda>f. \<not> endsWith f ''/'')" by (rule flaky.storage_adapter_axioms)
  show "headStamp memFile ''/Demo'' demoRemote = Some (demoStamp 5 ''B'')" by code_simp
  show "headStamp memFile ''/Demo'' (fst (flushToAdapter ''t1'' (flakyOps ''t1'') ''/Demo'' [demoChange] True demoCodec ''A'' demoRemote))
       = Some (demoStamp 1 ''A'')" by code_simp
  show "stampKey (demoStamp 1 ''A'') < stampKey (demoStamp 5 ''B'')"
    by (simp add: demoStamp_def validHlc_def hlcKey_def less_prod_simp)
qed

section \<open>Witnesses\<close>

definition demoEntry1 :: change_entry where
  "demoEntry1 = demoChange\<lparr>ceId := ''chg_1''\<rparr>"

lemma demoEntry1_ok: "changeIdOk (ceId demoEntry1)" "stampOk (ceHlc demoEntry1)"
proof -
  have "noMarker ''1.json''" by (auto simp: noMarker_def startsAt_def numeral_eq_Suc le_Suc_eq)
  then show "changeIdOk (ceId demoEntry1)" by (simp add: demoEntry1_def changeIdOk_def)
  show "stampOk (ceHlc demoEntry1)" by (simp add: demoEntry1_def demoChange_def)
qed

theorem receipts_before_publication_witness:
  "hasSeen (loadLedger (foLocal (flushPrimary ''t1'' (memoryOps ''t1'') ''/Demo'' [demoEntry1] demoCodec ''A'' []
      newMemoryStore newMemoryAdapter))) (entryName demoEntry1)"
proof -
  let ?out = "flushPrimary ''t1'' (memoryOps ''t1'') ''/Demo'' [demoEntry1] demoCodec ''A'' [] newMemoryStore newMemoryAdapter"
  have "isOk (foResult ?out)" by code_simp
  then have "foResult ?out = Inr ()" by (cases "foResult ?out") auto
  moreover have "ceHlc demoEntry1 \<noteq> ''''" using demoEntry1_ok(2) by auto
  ultimately show ?thesis using receipts_before_publication [OF refl, of "''t1''" "memoryOps ''t1''" "''/Demo''"
      "[demoEntry1]" demoCodec "''A''" "[]" newMemoryStore newMemoryAdapter] by simp
qed

theorem head_monotone_witness:
  "notBehind (headStamp memFile ''/Demo'' demoRemote)
     (headStamp memFile ''/Demo'' (fst (flushToAdapter ''t1'' (memoryOps ''t1'') ''/Demo'' [demoEntry1] True demoCodec ''A'' demoRemote)))"
proof -
  obtain r' evs res where run: "flushToAdapter ''t1'' (memoryOps ''t1'') ''/Demo'' [demoEntry1] True demoCodec ''A'' demoRemote
      = (r', evs, res)" by (metis prod.collapse)
  have "headStamp memFile ''/Demo'' demoRemote = Some (demoStamp 5 ''B'')" by code_simp
  then have "\<forall>h. headStamp memFile ''/Demo'' demoRemote = Some h \<longrightarrow> stampOk h" by simp
  moreover have "\<forall>e \<in> set [demoEntry1]. stampOk (ceHlc e)" using demoEntry1_ok by simp
  ultimately show ?thesis using head_monotone [OF memcloud.cloud_adapter_axioms run] by (simp add: run)
qed

theorem flush_publishes_witness:
  "let out = flushPrimary ''t1'' (memoryOps ''t1'') ''/Demo'' [demoEntry1] demoCodec ''A'' [] newMemoryStore demoRemote
   in foResult out = Inr () \<and> (\<exists>data. encodeChangePayload demoCodec demoEntry1 = Inr data
        \<and> memFile (foRemote out) (changeFile ''/Demo'' (entryName demoEntry1)) = Some data)
      \<and> notBehind (Some (demoStamp 5 ''B'')) (headStamp memFile ''/Demo'' (foRemote out))"
proof -
  have head: "headStamp memFile ''/Demo'' demoRemote = Some (demoStamp 5 ''B'')" by code_simp
  have pre: "\<forall>e \<in> set [demoEntry1]. stampOk (ceHlc e)"
    "\<forall>h. headStamp memFile ''/Demo'' demoRemote = Some h \<longrightarrow> stampOk h"
    "distinct (map entryName [demoEntry1])"
    using demoEntry1_ok head by simp_all
  have "takesWrites (memoryOps ''t1'')" by (simp add: takesWrites_def)
  moreover have "\<exists>mf. csManifest demoCodec = Some mf \<and> mfMeshId mf \<noteq> ''''" using demoCodec_ok by blast
  ultimately show ?thesis
    using flush_publishes [OF memcloud.cloud_adapter_axioms pre refl, of "''t1''" "''t1''" demoCodec "''A''" "[]" newMemoryStore]
      demoEntry1_ok(1) head by (auto simp: Let_def)
qed

end
