(* ===== verification/Change_Effects.thy ===== *)
theory Change_Effects
  imports Crdt_Convergence
begin

text \<open>
  Endpoint-relative row effects (\<open>packages/core/src/core/change-effects.ts\<close>): the rows an
  entry's operations are about are captured before it is applied, and compared with the tables
  afterwards. Captured rows are kept in a \<open>Map\<close> keyed by the JSON text of the pair of table and
  row id; the model keys it by the JSON value. \<open>structuredClone\<close> is the identity on values that
  are never mutated.
\<close>

section \<open>Data\<close>

datatype row_change_kind = KCreate | KUpdate | KDelete | KResurrect

record column_change_effect =
  cfxBefore :: "column_entry option"
  cfxAfter :: "column_entry option"

record row_change_effect =
  rfxTable :: string
  rfxRowId :: string
  rfxKind :: row_change_kind
  rfxFields :: "(string \<times> column_change_effect) list"

record captured_row =
  capTable :: string
  capRowId :: string
  capBefore :: "row option"

section \<open>Operations\<close>

definition effectRowKey :: "string \<Rightarrow> string \<Rightarrow> jsval" where
  "effectRowKey table rowId = JArr [JStr table, JStr rowId]"

fun columnEntriesEqual :: "column_entry option \<Rightarrow> column_entry option \<Rightarrow> bool" where
  "columnEntriesEqual (Some l) (Some r) = (colHlc l = colHlc r \<and> columnValuesEqual (colValue l) (colValue r))"
| "columnEntriesEqual None None = True"
| "columnEntriesEqual _ _ = False"

fun captureRows ::
  "tables \<Rightarrow> (jsval \<times> captured_row) list \<Rightarrow> op list \<Rightarrow> (jsval \<times> captured_row) list"
where
  "captureRows tbls captured [] = captured"
| "captureRows tbls captured (o1 # ops) =
     (let key = effectRowKey (opTable o1) (opRowId o1) in
      if map_of captured key \<noteq> None then captureRows tbls captured ops
      else captureRows tbls
             (AList.update key \<lparr>capTable = opTable o1, capRowId = opRowId o1,
                capBefore = getRow tbls (opTable o1) (opRowId o1)\<rparr> captured) ops)"

definition captureRowsForOps :: "tables \<Rightarrow> op list \<Rightarrow> (jsval \<times> captured_row) list" where
  "captureRowsForOps tbls ops = captureRows tbls [] ops"

definition beforePayload :: "row option \<Rightarrow> columns" where
  "beforePayload before = (case before of None \<Rightarrow> [] | Some x \<Rightarrow> payload x)"

fun effectFields :: "columns \<Rightarrow> columns \<Rightarrow> string list \<Rightarrow> (string \<times> column_change_effect) list" where
  "effectFields before after [] = []"
| "effectFields before after (name # names) =
     (if columnEntriesEqual (map_of before name) (map_of after name) then effectFields before after names
      else (name, \<lparr>cfxBefore = map_of before name, cfxAfter = map_of after name\<rparr>)
           # effectFields before after names)"

definition createRowChangeEffect ::
  "string \<Rightarrow> string \<Rightarrow> row option \<Rightarrow> row option \<Rightarrow> row_change_effect option"
where
  "createRowChangeEffect table rowId before after =
     (case after of
        None \<Rightarrow> None
      | Some y \<Rightarrow>
          (let names = jsetOf (map fst (beforePayload before) @ map fst (payload y));
               flds = effectFields (beforePayload before) (payload y) names;
               beforeDeleted = (case before of None \<Rightarrow> False | Some x \<Rightarrow> rmDeleted (meta x));
               afterDeleted = rmDeleted (meta y);
               kind = (if afterDeleted then KDelete
                       else if beforeDeleted then KResurrect
                       else if before \<noteq> None then KUpdate else KCreate)
           in if before \<noteq> None \<and> beforeDeleted = afterDeleted \<and> flds = [] then None
              else Some \<lparr>rfxTable = table, rfxRowId = rowId, rfxKind = kind, rfxFields = flds\<rparr>))"

definition effectsFromCapturedRows :: "tables \<Rightarrow> (jsval \<times> captured_row) list \<Rightarrow> row_change_effect list" where
  "effectsFromCapturedRows tbls captured =
     List.map_filter
       (\<lambda>(_, c). createRowChangeEffect (capTable c) (capRowId c) (capBefore c)
                  (getRow tbls (capTable c) (capRowId c))) captured"

section \<open>Captured rows\<close>

lemma effectRowKey_inject [simp]:
  "effectRowKey t r = effectRowKey t' r' \<longleftrightarrow> t = t' \<and> r = r'"
  by (simp add: effectRowKey_def)

definition capturedOk :: "tables \<Rightarrow> (jsval \<times> captured_row) list \<Rightarrow> bool" where
  "capturedOk tbls captured =
     (distinct (map fst captured) \<and>
      (\<forall>(k, c) \<in> set captured. k = effectRowKey (capTable c) (capRowId c)
         \<and> capBefore c = getRow tbls (capTable c) (capRowId c)))"

lemma captureRows_ok:
  assumes "capturedOk tbls captured"
  shows "capturedOk tbls (captureRows tbls captured ops)
    \<and> fst ` set (captureRows tbls captured ops)
        = fst ` set captured \<union> (\<lambda>o1. effectRowKey (opTable o1) (opRowId o1)) ` set ops"
  using assms
proof (induction ops arbitrary: captured)
  case Nil
  then show ?case by simp
next
  case (Cons o1 ops)
  let ?k = "effectRowKey (opTable o1) (opRowId o1)"
  show ?case
  proof (cases "map_of captured ?k")
    case None
    let ?c = "\<lparr>capTable = opTable o1, capRowId = opRowId o1,
        capBefore = getRow tbls (opTable o1) (opRowId o1)\<rparr>"
    have new: "AList.update ?k ?c captured = captured @ [(?k, ?c)]"
      using None by (intro update_fresh) (simp add: map_of_eq_None_iff)
    have "capturedOk tbls (captured @ [(?k, ?c)])"
      using Cons.prems None by (auto simp: capturedOk_def map_of_eq_None_iff)
    from Cons.IH [OF this] show ?thesis using None by (auto simp: Let_def new)
  next
    case (Some c)
    then have "?k \<in> fst ` set captured" by (force dest: map_of_SomeD)
    with Some Cons.IH [OF Cons.prems] show ?thesis by (auto simp: Let_def insert_absorb)
  qed
qed

lemma captureRowsForOps_ok:
  "capturedOk tbls (captureRowsForOps tbls ops)"
  "effectRowKey t r \<in> fst ` set (captureRowsForOps tbls ops) \<longleftrightarrow> (\<exists>o1 \<in> set ops. onRow t r o1)"
  using captureRows_ok [of tbls "[]" ops]
  by (auto simp: captureRowsForOps_def capturedOk_def onRow_def image_iff)

section \<open>Effects are differences\<close>

lemma map_of_effectFields:
  "map_of (effectFields before after names) name =
     (if name \<in> set names \<and> \<not> columnEntriesEqual (map_of before name) (map_of after name)
      then Some \<lparr>cfxBefore = map_of before name, cfxAfter = map_of after name\<rparr> else None)"
  by (induction names) auto

lemma effectFields_Nil_iff:
  "effectFields before after names = []
    \<longleftrightarrow> (\<forall>name \<in> set names. columnEntriesEqual (map_of before name) (map_of after name))"
  by (induction names) auto

definition columnChanged :: "row option \<Rightarrow> row option \<Rightarrow> string \<Rightarrow> bool" where
  "columnChanged before after c =
     (\<not> columnEntriesEqual (map_of (beforePayload before) c) (map_of (beforePayload after) c))"

definition sameRow :: "row option \<Rightarrow> row option \<Rightarrow> bool" where
  "sameRow before after =
     ((before = None) = (after = None)
      \<and> map_option (rmDeleted \<circ> meta) before = map_option (rmDeleted \<circ> meta) after
      \<and> (\<forall>c. \<not> columnChanged before after c))"

text \<open>Stored values are objects with distinct keys.\<close>

definition wfRowValues :: "row option \<Rightarrow> bool" where
  "wfRowValues x = list_all (\<lambda>(_, e). wfValue (colValue e)) (beforePayload x)"

lemma sameRow_refl: "wfRowValues x \<Longrightarrow> sameRow x x"
proof -
  assume "wfRowValues x"
  then have "columnEntriesEqual (map_of (beforePayload x) c) (map_of (beforePayload x) c)" for c
    by (cases "map_of (beforePayload x) c") (fastforce simp: wfRowValues_def list_all_iff dest: map_of_SomeD)+
  then show ?thesis by (simp add: sameRow_def columnChanged_def)
qed

lemma outside_columns:
  "c \<notin> set (jsetOf (map fst b @ map fst a)) \<Longrightarrow> columnEntriesEqual (map_of b c) (map_of a c)"
proof -
  assume "c \<notin> set (jsetOf (map fst b @ map fst a))"
  then have "map_of b c = None" "map_of a c = None" by (auto simp: map_of_eq_None_iff)
  then show ?thesis by simp
qed

lemma no_fields_iff:
  "effectFields b a (jsetOf (map fst b @ map fst a)) = []
    \<longleftrightarrow> (\<forall>c. columnEntriesEqual (map_of b c) (map_of a c))"
  using outside_columns [of _ b a] by (auto simp: effectFields_Nil_iff)

lemma createRowChangeEffect_None:
  "createRowChangeEffect t r before after = None \<Longrightarrow> after \<noteq> None \<Longrightarrow> sameRow before after"
  unfolding createRowChangeEffect_def Let_def sameRow_def columnChanged_def no_fields_iff
  by (auto simp: beforePayload_def split: option.splits if_splits)

lemma createRowChangeEffect_Some:
  assumes "createRowChangeEffect t r before after = Some e"
  obtains y where "after = Some y" "rfxTable e = t" "rfxRowId e = r"
    "rfxKind e = (if rmDeleted (meta y) then KDelete
       else case before of None \<Rightarrow> KCreate
            | Some x \<Rightarrow> if rmDeleted (meta x) then KResurrect else KUpdate)"
    "\<forall>c. map_of (rfxFields e) c =
       (if columnChanged before after c
        then Some \<lparr>cfxBefore = map_of (beforePayload before) c, cfxAfter = map_of (payload y) c\<rparr>
        else None)"
    "\<not> sameRow before after"
proof -
  obtain y where y: "after = Some y" using assms by (auto simp: createRowChangeEffect_def split: option.splits)
  let ?names = "jsetOf (map fst (beforePayload before) @ map fst (payload y))"
  let ?flds = "effectFields (beforePayload before) (payload y) ?names"
  have after: "beforePayload after = payload y" by (simp add: y beforePayload_def)
  have flds: "\<forall>c. map_of ?flds c =
       (if columnChanged before after c
        then Some \<lparr>cfxBefore = map_of (beforePayload before) c, cfxAfter = map_of (payload y) c\<rparr>
        else None)"
    using outside_columns [of _ "beforePayload before" "payload y"]
    by (auto simp: map_of_effectFields columnChanged_def after)
  have "\<not> sameRow before after"
    using assms
    by (auto simp: y createRowChangeEffect_def Let_def sameRow_def no_fields_iff columnChanged_def
        beforePayload_def split: if_splits option.splits)
  with flds assms show thesis
    by (intro that [of y]) (auto simp: y createRowChangeEffect_def Let_def split: if_splits option.splits)
qed

lemma getRow_applyOps_other:
  "\<forall>o1 \<in> set ops. \<not> onRow t r o1 \<Longrightarrow> getRow (fst (applyOps tbls ops sv schema)) t r = getRow tbls t r"
proof (induction ops arbitrary: tbls)
  case (Cons o1 ops)
  obtain tbls1 res where step: "applyOp tbls o1 sv schema = (tbls1, res)" by force
  have "getRow tbls1 t r = getRow tbls t r"
    using getRow_applyOp [of tbls o1 sv schema t r] step Cons.prems by (auto simp: onRow_def)
  with Cons.IH [of tbls1] Cons.prems step show ?case
    by (auto split: sum.splits prod.splits)
qed simp

lemma distinct_map_filter_key:
  assumes "distinct (map k xs)" and "\<And>x y. x \<in> set xs \<Longrightarrow> f x = Some y \<Longrightarrow> g y = k x"
  shows "distinct (map g (List.map_filter f xs))"
proof -
  have "set (map g (List.map_filter f xs)) \<subseteq> k ` set xs" if "\<And>x y. x \<in> set xs \<Longrightarrow> f x = Some y \<Longrightarrow> g y = k x" for xs
    using that by (induction xs) (auto simp: List.map_filter_simps split: option.splits)
  with assms show ?thesis
    by (induction xs) (fastforce simp: List.map_filter_simps split: option.splits)+
qed

lemma set_effects:
  "e \<in> set (effectsFromCapturedRows tbls' (captureRowsForOps tbls ops)) \<longleftrightarrow>
     (\<exists>t r. (\<exists>o1 \<in> set ops. onRow t r o1)
        \<and> createRowChangeEffect t r (getRow tbls t r) (getRow tbls' t r) = Some e)"
  (is "?L \<longleftrightarrow> ?R")
proof -
  let ?cap = "captureRowsForOps tbls ops"
  note ok = captureRowsForOps_ok(1) [of tbls ops, unfolded capturedOk_def]
  have "?L \<longleftrightarrow> (\<exists>(k, c) \<in> set ?cap.
      createRowChangeEffect (capTable c) (capRowId c) (capBefore c)
        (getRow tbls' (capTable c) (capRowId c)) = Some e)"
    by (auto simp: effectsFromCapturedRows_def List.map_filter_def image_iff) force+
  also have "\<dots> \<longleftrightarrow> ?R"
  proof
    assume "\<exists>(k, c) \<in> set ?cap. createRowChangeEffect (capTable c) (capRowId c) (capBefore c)
        (getRow tbls' (capTable c) (capRowId c)) = Some e"
    then obtain k c where kc: "(k, c) \<in> set ?cap"
      and e: "createRowChangeEffect (capTable c) (capRowId c) (capBefore c)
        (getRow tbls' (capTable c) (capRowId c)) = Some e" by auto
    from kc ok have "k = effectRowKey (capTable c) (capRowId c)"
      and "capBefore c = getRow tbls (capTable c) (capRowId c)" by auto
    with e kc captureRowsForOps_ok(2) [of "capTable c" "capRowId c" tbls ops] show ?R by force
  next
    assume ?R
    then obtain t r where on: "\<exists>o1 \<in> set ops. onRow t r o1"
      and e: "createRowChangeEffect t r (getRow tbls t r) (getRow tbls' t r) = Some e" by blast
    from on captureRowsForOps_ok(2) [of t r tbls ops] obtain c where "(effectRowKey t r, c) \<in> set ?cap" by auto
    moreover with ok have "capTable c = t" "capRowId c = r" "capBefore c = getRow tbls t r" by auto
    ultimately show "\<exists>(k, c) \<in> set ?cap. createRowChangeEffect (capTable c) (capRowId c) (capBefore c)
        (getRow tbls' (capTable c) (capRowId c)) = Some e"
      using e by (intro bexI [of _ "(effectRowKey t r, c)"]) simp_all
  qed
  finally show ?thesis .
qed

lemma distinct_effects:
  "distinct (map (\<lambda>e. (rfxTable e, rfxRowId e)) (effectsFromCapturedRows tbls' (captureRowsForOps tbls ops)))"
proof -
  let ?k = "\<lambda>(_, c). (capTable c, capRowId c)"
  note ok = captureRowsForOps_ok(1) [of tbls ops, unfolded capturedOk_def]
  have "inj_on ?k (set (captureRowsForOps tbls ops))"
  proof (rule inj_onI)
    fix p q
    assume pq: "p \<in> set (captureRowsForOps tbls ops)" "q \<in> set (captureRowsForOps tbls ops)" "?k p = ?k q"
    obtain k c k' c' where eqs: "p = (k, c)" "q = (k', c')" by (meson surj_pair)
    have "k = effectRowKey (capTable c) (capRowId c)" "k' = effectRowKey (capTable c') (capRowId c')"
      using ok pq(1,2) unfolding eqs by blast+
    with pq(3) have "k = k'" by (simp add: eqs)
    then show "p = q" using ok pq(1,2) unfolding eqs by (blast dest: eq_key_imp_eq_value)
  qed
  then have "distinct (map ?k (captureRowsForOps tbls ops))"
    using ok by (auto simp: distinct_map)
  then show ?thesis
    unfolding effectsFromCapturedRows_def
    by (rule distinct_map_filter_key) (auto elim: createRowChangeEffect_Some)
qed

text \<open>The effects reported for a batch of operations are the exact difference between the
  tables before and after it. Each row has at most one effect; a row has one exactly when it was
  created, deleted, resurrected or some column's value or stamp changed; the effect's kind says
  which, and its fields list exactly the changed columns with their entries before and after.\<close>

theorem effects_exact:
  assumes "applyOps tbls ops sv schema = (tbls', Inr refs)"
    and "effs = effectsFromCapturedRows tbls' (captureRowsForOps tbls ops)"
    and "wfRowValues (getRow tbls t r)"
  shows "distinct (map (\<lambda>e. (rfxTable e, rfxRowId e)) effs)
    \<and> ((\<exists>e \<in> set effs. rfxTable e = t \<and> rfxRowId e = r) \<longleftrightarrow> \<not> sameRow (getRow tbls t r) (getRow tbls' t r))
    \<and> (\<forall>e \<in> set effs. rfxTable e = t \<and> rfxRowId e = r \<longrightarrow>
         (\<exists>y. getRow tbls' t r = Some y
          \<and> rfxKind e = (if rmDeleted (meta y) then KDelete
              else case getRow tbls t r of None \<Rightarrow> KCreate
                   | Some x \<Rightarrow> if rmDeleted (meta x) then KResurrect else KUpdate)
          \<and> (\<forall>c. map_of (rfxFields e) c =
              (if columnChanged (getRow tbls t r) (getRow tbls' t r) c
               then Some \<lparr>cfxBefore = map_of (beforePayload (getRow tbls t r)) c, cfxAfter = map_of (payload y) c\<rparr>
               else None))))"
proof (intro conjI ballI impI)
  show "distinct (map (\<lambda>e. (rfxTable e, rfxRowId e)) effs)" unfolding assms(2) by (rule distinct_effects)
  let ?b = "getRow tbls t r" and ?a = "getRow tbls' t r"
  have inv: "(\<exists>o1 \<in> set ops. onRow t r o1) \<and> createRowChangeEffect t r ?b ?a = Some e"
    if "e \<in> set effs" "rfxTable e = t \<and> rfxRowId e = r" for e
    using that unfolding assms(2) set_effects by (auto elim: createRowChangeEffect_Some)
  show "(\<exists>e \<in> set effs. rfxTable e = t \<and> rfxRowId e = r) \<longleftrightarrow> \<not> sameRow ?b ?a"
  proof
    assume "\<exists>e \<in> set effs. rfxTable e = t \<and> rfxRowId e = r"
    with inv show "\<not> sameRow ?b ?a" by (blast elim: createRowChangeEffect_Some)
  next
    assume ns: "\<not> sameRow ?b ?a"
    have on: "\<exists>o1 \<in> set ops. onRow t r o1"
    proof (rule ccontr)
      assume "\<not> (\<exists>o1 \<in> set ops. onRow t r o1)"
      then have eq: "?a = ?b" using getRow_applyOps_other [of ops t r tbls sv schema] assms(1) by simp
      with ns sameRow_refl [OF assms(3)] show False by simp
    qed
    with applyOps_touched [of tbls ops sv schema t r] assms(1) have "?a \<noteq> None" by auto
    with ns createRowChangeEffect_None obtain e where e: "createRowChangeEffect t r ?b ?a = Some e" by blast
    with on show "\<exists>e \<in> set effs. rfxTable e = t \<and> rfxRowId e = r"
      unfolding assms(2) by (intro bexI [of _ e]) (auto simp: set_effects elim: createRowChangeEffect_Some)
  qed
  fix e
  assume "e \<in> set effs" "rfxTable e = t \<and> rfxRowId e = r"
  from inv [OF this] show "\<exists>y. ?a = Some y
          \<and> rfxKind e = (if rmDeleted (meta y) then KDelete
              else case ?b of None \<Rightarrow> KCreate
                   | Some x \<Rightarrow> if rmDeleted (meta x) then KResurrect else KUpdate)
          \<and> (\<forall>c. map_of (rfxFields e) c =
              (if columnChanged ?b ?a c
               then Some \<lparr>cfxBefore = map_of (beforePayload ?b) c, cfxAfter = map_of (payload y) c\<rparr>
               else None))"
    by (elim conjE createRowChangeEffect_Some) blast
qed

text \<open>The create, the delete and the update of the demonstration scenario, as one batch.\<close>

theorem effects_exact_witness:
  "\<exists>e \<in> set (effectsFromCapturedRows (fst (applyOps (fst (applyOps [] [demoCreate] 1 None)) [demoDelete] 1 None))
        (captureRowsForOps (fst (applyOps [] [demoCreate] 1 None)) [demoDelete])).
     rfxTable e = ''t'' \<and> rfxRowId e = ''r'' \<and> rfxKind e = KDelete"
proof -
  let ?b = "fst (applyOps [] [demoCreate] 1 None)" and ?a = "applyOps (fst (applyOps [] [demoCreate] 1 None)) [demoDelete] 1 None"
  have run: "?a = (fst ?a, Inr [(''t'', ''r'')])" by code_simp
  have wf: "wfRowValues (getRow ?b ''t'' ''r'')" by code_simp
  note ex = effects_exact [OF run refl wf]
  have "\<not> map_option (rmDeleted \<circ> meta) (getRow ?b ''t'' ''r'') = map_option (rmDeleted \<circ> meta) (getRow (fst ?a) ''t'' ''r'')"
    by code_simp
  then have "\<not> sameRow (getRow ?b ''t'' ''r'') (getRow (fst ?a) ''t'' ''r'')" by (simp add: sameRow_def)
  with ex obtain e where e: "e \<in> set (effectsFromCapturedRows (fst ?a) (captureRowsForOps ?b [demoDelete]))"
    "rfxTable e = ''t''" "rfxRowId e = ''r''" by blast
  with ex obtain y where y: "getRow (fst ?a) ''t'' ''r'' = Some y"
    "rfxKind e = (if rmDeleted (meta y) then KDelete
              else case getRow ?b ''t'' ''r'' of None \<Rightarrow> KCreate
                   | Some x \<Rightarrow> if rmDeleted (meta x) then KResurrect else KUpdate)" by blast
  have "map_option (rmDeleted \<circ> meta) (getRow (fst ?a) ''t'' ''r'') = Some True" by code_simp
  with y e show ?thesis by auto
qed

end
