(* ===== verification/Pull.thy ===== *)
theory Pull
  imports Flush Change_Effects
begin

text \<open>
  Reading changes (\<open>packages/core/src/core/pull.ts\<close>), with the engine's row cache and poisoning
  (\<open>ensureRowsCached\<close> and \<open>poisonRemote\<close> of \<open>sync-engine.ts\<close>). The change folder is listed,
  sorted, and every file not yet observed is decoded, merged into the cached rows, written to the
  local store and recorded; the ledger and the clock are persisted at the end. The code keeps a
  few reads in flight ahead of the file it applies; as adapters read without changing the remote,
  the model reads each file at its turn. \<open>wall\<close> gives the clock reading when a file is received.
\<close>

section \<open>State\<close>

datatype connection_status = Offline | Connecting | Syncing | Idle

datatype sync_event =
    SyncStart
  | SyncComplete nat
  | SyncErrorEvent js_error
  | LateChange late_change
  | DecodeError js_error string
  | RowChanged string string row
  | RowDeleted string string
  | RemotePoisoned js_error string
  | ChangeObserved string change_entry "row_change_effect list"
  | LocalObserved change_entry "row_change_effect list"
  | RehydrateStart
  | RehydrateComplete nat
  | SnapshotCleanup string nat nat "string list" "js_error option"
  | ConnectionStatusEvent connection_status
  | RemoteAccessEvent js_error string bool
  | FlushStart nat
  | FlushComplete
  | ReplicaErrorEvent js_error
  | HeadTrace head_event
  | CompactWarning nat
  | OfflineRetentionExpired string string int nat
  | MeshEvicted string bool int int nat nat
  | JoinExistingMesh string string bool nat nat
  | ManifestCacheHit string int
  | CompactDelayedScheduled nat string
  | RetentionScheduled int
  | RemoteAccessRestored js_error
  | ConnectNoop
  | ConnectErrorEvent js_error string
  | ConnectState "int option" "int option" "string option" bool
  | AuthRequired
  | AuthComplete
  | TransportTeardown string
  | RelayUnavailable string
  | AutoCompactSkip string string
  | AutoCompactStart string
  | AutoCompactComplete string
  | AutoCompactError string js_error
  | DelayedCompactCheck nat nat
  | RetentionError js_error
  | RetentionStart string int
  | RetentionComplete string int
  | CredentialsPersisted
  | CredentialsMeshMismatch string string
  | CredentialsConflict string string
  | CredentialsRestored bool bool
  | EncryptionResolved
  | MeshConfigured bool

record 'r sync_state =
  ssLocal :: memory_store
  ssRemote :: 'r
  ssTables :: tables
  ssKnownTables :: "string list"
  ssHlc :: hlc
  ssPoison :: "js_error option"
  ssConnected :: bool
  ssConnecting :: bool
  ssPolling :: bool
  ssPollingHalted :: bool
  ssPollBase :: int
  ssPollCurrent :: int
  ssFlushScheduled :: bool
  ssEvents :: "sync_event list"

definition MAX_POLL_INTERVAL_MS :: int where
  "MAX_POLL_INTERVAL_MS = 60000"

definition adaptPollInterval :: "nat \<Rightarrow> ('r, 'z) sync_state_scheme \<Rightarrow> ('r, 'z) sync_state_scheme" where
  "adaptPollInterval entriesMerged st =
     (if ssPollBase st = 0 then st
      else if entriesMerged > 0 then st\<lparr>ssPollCurrent := ssPollBase st\<rparr>
      else if ssPollCurrent st < MAX_POLL_INTERVAL_MS
      then st\<lparr>ssPollCurrent := min (ssPollCurrent st * 2) MAX_POLL_INTERVAL_MS\<rparr>
      else st)"

text \<open>An event adapts the poll interval before the listeners get it. The query caches it
  invalidates are not part of this state.\<close>

definition emit :: "sync_event \<Rightarrow> ('r, 'z) sync_state_scheme \<Rightarrow> ('r, 'z) sync_state_scheme" where
  "emit ev st =
     (let st1 = (case ev of SyncComplete n \<Rightarrow> adaptPollInterval n st | _ \<Rightarrow> st)
      in st1\<lparr>ssEvents := ssEvents st1 @ [ev]\<rparr>)"

record pull_context =
  pcRemotePath :: string
  pcCodec :: codec_state
  pcSchema :: "db_schema option"
  pcObserves :: bool

section \<open>The row cache and poisoning\<close>

fun deleteRow :: "tables \<Rightarrow> string \<Rightarrow> string \<Rightarrow> tables" where
  "deleteRow tbls t r =
     (case map_of tbls t of None \<Rightarrow> tbls | Some tb \<Rightarrow> AList.update t (AList.delete r tb) tbls)"

fun cacheRows :: "tables \<Rightarrow> ((string \<times> string) \<times> row option) list \<Rightarrow> tables" where
  "cacheRows tbls [] = tbls"
| "cacheRows tbls (((t, r), existing) # rest) =
     cacheRows (case existing of Some x \<Rightarrow> setRow tbls t r x | None \<Rightarrow> deleteRow tbls t r) rest"

definition wantedRefs :: "op list \<Rightarrow> (string \<times> string) list" where
  "wantedRefs ops = map snd (fold (\<lambda>o1. AList.update (rowKey (opTable o1) (opRowId o1)) (opTable o1, opRowId o1)) ops [])"

definition ensureRowsCached :: "op list \<Rightarrow> memory_store \<Rightarrow> tables \<Rightarrow> tables" where
  "ensureRowsCached ops local tbls =
     (let wanted = wantedRefs ops in
      if wanted = [] then tbls else cacheRows tbls (zip wanted (storeGetRows local wanted)))"

text \<open>The poll timer is the flag \<open>ssPolling\<close>; a timer of an earlier session never fires.\<close>

definition stopPolling :: "('r, 'z) sync_state_scheme \<Rightarrow> ('r, 'z) sync_state_scheme" where
  "stopPolling st = st\<lparr>ssPolling := False, ssPollBase := 0\<rparr>"

definition haltPolling :: "('r, 'z) sync_state_scheme \<Rightarrow> ('r, 'z) sync_state_scheme" where
  "haltPolling st = (stopPolling st)\<lparr>ssPollingHalted := True\<rparr>"

definition startPolling :: "int \<Rightarrow> ('r, 'z) sync_state_scheme \<Rightarrow> ('r, 'z) sync_state_scheme" where
  "startPolling intervalMs st =
     (if ssPollingHalted st then st
      else (stopPolling st)\<lparr>ssPollBase := intervalMs, ssPollCurrent := intervalMs, ssPolling := True\<rparr>)"

definition clearScheduledFlush :: "('r, 'z) sync_state_scheme \<Rightarrow> ('r, 'z) sync_state_scheme" where
  "clearScheduledFlush st = st\<lparr>ssFlushScheduled := False\<rparr>"

definition poisonRemote ::
  "('r, cloud_data) adapter_ops \<Rightarrow> js_error \<Rightarrow> string \<Rightarrow> ('r, 'z) sync_state_scheme \<Rightarrow> ('r, 'z) sync_state_scheme \<times> js_error"
where
  "poisonRemote ops e path st =
     (let st1 =
        (if ssPoison st = None
         then (clearScheduledFlush (haltPolling (st\<lparr>ssPoison := Some e\<rparr>)))
                \<lparr>ssConnected := False, ssConnecting := False, ssRemote := opResetFolderCache ops (ssRemote st)\<rparr>
         else st)
      in (emit (RemotePoisoned e path) st1, e))"

section \<open>Pull\<close>

fun emitAffectedRows :: "row list \<Rightarrow> ('r, 'z) sync_state_scheme \<Rightarrow> ('r, 'z) sync_state_scheme" where
  "emitAffectedRows [] st = st"
| "emitAffectedRows (x # xs) st =
     (let st1 = st\<lparr>ssKnownTables := jsetAdd (rmTable (meta x)) (ssKnownTables st)\<rparr> in
      emitAffectedRows xs
        (emit (if rmDeleted (meta x) then RowDeleted (rmTable (meta x)) (rmRowId (meta x))
               else RowChanged (rmTable (meta x)) (rmRowId (meta x)) x) st1))"

fun selectUnseen :: "ledger \<Rightarrow> string list \<Rightarrow> file_entry list \<Rightarrow> file_entry list" where
  "selectUnseen l seenNames [] = []"
| "selectUnseen l seenNames (f # fs) =
     (if feName f = ''head.json'' \<or> feName f \<in> set seenNames then selectUnseen l seenNames fs
      else if changeFileHlc (feName f) \<noteq> None \<and> isUnseenChange l (feName f)
      then f # selectUnseen l (feName f # seenNames) fs
      else selectUnseen l (feName f # seenNames) fs)"

definition schemaVersionOf :: "codec_state \<Rightarrow> int" where
  "schemaVersionOf codec = (case csManifest codec of None \<Rightarrow> 1 | Some m \<Rightarrow> mfSchema m)"

text \<open>The body of the loop without its error handling: one file decoded, merged and recorded.\<close>

definition applyFile ::
  "('r, cloud_data) adapter_ops \<Rightarrow> pull_context \<Rightarrow> (string \<Rightarrow> int) \<Rightarrow> file_entry \<Rightarrow> ledger \<Rightarrow> ('r, 'z) sync_state_scheme \<Rightarrow>
     ('r, 'z) sync_state_scheme \<times> (ledger \<times> nat) result"
where
  "applyFile ops ctx wall f l st =
     (case opReadFile ops (fePath f) (ssRemote st) of
        Inl e \<Rightarrow> (st, Inl e)
      | Inr raw \<Rightarrow>
          (case decodeChangePayload (pcCodec ctx) raw (ssLocal st) of
             (local1, Inl e) \<Rightarrow> (st\<lparr>ssLocal := local1\<rparr>, Inl e)
           | (local1, Inr entry) \<Rightarrow>
               (let hlc1 = hlcReceive (wall (feName f)) (ssHlc st) (hlcParse (ceHlc entry));
                    tables1 = ensureRowsCached (ceOps entry) local1 (ssTables st);
                    captured = captureRowsForOps tables1 (ceOps entry);
                    st1 = st\<lparr>ssLocal := local1, ssHlc := hlc1\<rparr>
                in case applyChangeEntry tables1 entry (schemaVersionOf (pcCodec ctx)) (pcSchema ctx) of
                     (tables2, Inl e) \<Rightarrow> (st1\<lparr>ssTables := tables2\<rparr>, Inl e)
                   | (tables2, Inr affected) \<Rightarrow>
                       (let st2 = st1\<lparr>ssTables := tables2\<rparr>;
                            st3 = (if affected \<noteq> []
                                   then emitAffectedRows affected (st2\<lparr>ssLocal := storePutRows affected (ssLocal st2)\<rparr>)
                                   else st2);
                            st4 = (if pcObserves ctx
                                   then emit (ChangeObserved (feName f) entry (effectsFromCapturedRows tables2 captured)) st3
                                   else st3)
                        in case observe (feName f) (ceHlc entry) l of
                             Inl e \<Rightarrow> (st4, Inl e)
                           | Inr (l1, late) \<Rightarrow>
                               ((case late of None \<Rightarrow> st4 | Some ev \<Rightarrow> emit (LateChange ev) st4),
                                Inr (l1, length affected))))))"

fun pullLoop ::
  "('r, cloud_data) adapter_ops \<Rightarrow> pull_context \<Rightarrow> (string \<Rightarrow> int) \<Rightarrow> file_entry list \<Rightarrow> nat \<Rightarrow> ledger \<Rightarrow> ('r, 'z) sync_state_scheme \<Rightarrow>
     ('r, 'z) sync_state_scheme \<times> (ledger \<times> nat) result"
where
  "pullLoop ops ctx wall [] totalMerged l st = (st, Inr (l, totalMerged))"
| "pullLoop ops ctx wall (f # fs) totalMerged l st =
     (case applyFile ops ctx wall f l st of
        (st1, Inl e) \<Rightarrow>
          (case poisonRemote ops e (fePath f) (emit (DecodeError e (fePath f)) st1) of (st2, e') \<Rightarrow> (st2, Inl e'))
      | (st1, Inr (l1, merged)) \<Rightarrow> pullLoop ops ctx wall fs (totalMerged + merged) l1 st1)"

definition pullFiles ::
  "('r, cloud_data) adapter_ops \<Rightarrow> pull_context \<Rightarrow> (string \<Rightarrow> int) \<Rightarrow> file_entry list \<Rightarrow> ('r, 'z) sync_state_scheme \<Rightarrow>
     ('r, 'z) sync_state_scheme \<times> unit result"
where
  "pullFiles ops ctx wall files st =
     (let l = loadLedger (ssLocal st);
          unseen = selectUnseen l [] (jsort (\<lambda>a b. compareChangeFiles (feName a) (feName b)) files)
      in case pullLoop ops ctx wall unseen 0 l st of
           (st1, Inl e) \<Rightarrow> (st1, Inl e)
         | (st1, Inr (l1, totalMerged)) \<Rightarrow>
             (let local1 = fst (persistLedger l1 (ssLocal st1));
                  local2 = storeSetMeta ''hlc'' (JStr (hlcSerialize (ssHlc st1))) local1
              in (emit (SyncComplete totalMerged) (st1\<lparr>ssLocal := local2\<rparr>), Inr ())))"

fun isRemoteAccessError :: "js_error \<Rightarrow> bool" where
  "isRemoteAccessError (RemoteAccessError _ _ _) = True"
| "isRemoteAccessError _ = False"

text \<open>The clock is only returned, so a failed pull leaves the engine's clock as it was.\<close>

definition pull ::
  "('r, cloud_data) adapter_ops \<Rightarrow> pull_context \<Rightarrow> (string \<Rightarrow> int) \<Rightarrow> (('r, 'z) sync_state_scheme \<Rightarrow> ('r, 'z) sync_state_scheme \<times> unit result) \<Rightarrow>
     ('r, 'z) sync_state_scheme \<Rightarrow> ('r, 'z) sync_state_scheme \<times> unit result"
where
  "pull ops ctx wall loadManifest st =
     (let fail = (\<lambda>e st1. ((emit (SyncErrorEvent e) st1)\<lparr>ssHlc := ssHlc st\<rparr>, Inl e)) in
      case loadManifest (emit SyncStart st) of
        (st1, Inl e) \<Rightarrow> fail e st1
      | (st1, Inr _) \<Rightarrow>
          (case opListFiles ops (changesFolder (pcRemotePath ctx)) (ssRemote st1) of
             Inl e \<Rightarrow> if isRemoteAccessError e then fail e st1 else (emit (SyncComplete 0) st1, Inr ())
           | Inr files \<Rightarrow>
               (case pullFiles ops ctx wall files st1 of
                  (st2, Inl e) \<Rightarrow> fail e st2
                | (st2, Inr _) \<Rightarrow> (st2, Inr ()))))"

end
