(* ===== verification/Credentials.thy ===== *)
theory Credentials
  imports Key_Source Pull
begin

text \<open>
  The engine's identity: device id, mesh key and credentials, from construction to \<open>init\<close>
  (\<open>packages/core/src/core/sync-engine.ts\<close>). \<open>identity\<close> holds the fields of the engine these
  functions use, and the state of the key source; \<open>identity_config\<close> holds what is fixed. The bytes of
  a generated key are the argument \<open>fresh\<close>. The row cache that \<open>init\<close> loads is part of
  \<open>Engine_Connect\<close>; the \<open>onInit\<close> hook belongs to the application. Logging is left out.
\<close>

record 'k identity =
  idDeviceId :: string
  idDeviceIdConfigured :: bool
  idHlc :: hlc
  idRemotePath :: "string option"
  idEncrypted :: bool
  idPassphrase :: "string option"
  idKey :: "bytes option"
  idMeshId :: "string option"
  idLocal :: memory_store
  idSource :: 'k
  idInitialized :: bool
  idConnected :: bool
  idEvents :: "sync_event list"

record initial_state =
  inRemotePath :: "string option"
  inPassphrase :: "string option option"
  inEncrypted :: "bool option"
  inDeviceId :: "string option"

record 'k identity_config =
  icDbName :: string
  icReaderMode :: bool
  icSchemaVersion :: "int option"
  icKeySource :: "'k key_source option"
  icInitialState :: "initial_state option result"

definition andThen :: "('s \<Rightarrow> 's \<times> 'a result) \<Rightarrow> ('a \<Rightarrow> 's \<Rightarrow> 's \<times> 'b result) \<Rightarrow> 's \<Rightarrow> 's \<times> 'b result" where
  "andThen f g s = (case f s of (s1, Inl e) \<Rightarrow> (s1, Inl e) | (s1, Inr x) \<Rightarrow> g x s1)"

lemma andThen_Inr_iff:
  "andThen f g s = (s2, Inr y) \<longleftrightarrow> (\<exists>s1 x. f s = (s1, Inr x) \<and> g x s1 = (s2, Inr y))"
  by (auto simp: andThen_def split: prod.splits sum.splits)

definition emitId :: "sync_event \<Rightarrow> 'k identity \<Rightarrow> 'k identity" where
  "emitId ev s = s\<lparr>idEvents := idEvents s @ [ev]\<rparr>"

definition truthyStr :: "string option \<Rightarrow> bool" where
  "truthyStr v = (case v of None \<Rightarrow> False | Some s \<Rightarrow> s \<noteq> '''')"

section \<open>Persisted credentials\<close>

fun isMeshCredentialAccessError :: "js_error \<Rightarrow> bool" where
  "isMeshCredentialAccessError (MeshCredentialAccessError _ _) = True"
| "isMeshCredentialAccessError _ = False"

fun passesThrough :: "js_error \<Rightarrow> bool" where
  "passesThrough (CredentialPersistenceError _ _ _) = True"
| "passesThrough MeshKeySourceContractError = True"
| "passesThrough (MeshCredentialAccessError _ _) = True"
| "passesThrough _ = False"

definition loadPersistedCredentials :: "'k identity_config \<Rightarrow> 'k identity \<Rightarrow> stored_credentials option result" where
  "loadPersistedCredentials cfg s =
     (case icKeySource cfg of
        None \<Rightarrow> Inr None
      | Some ks \<Rightarrow>
          if ksCredentialPersistence ks = ''none'' then Inr None
          else if ksCredentialPersistence ks \<noteq> ''durable'' then Inl MeshKeySourceContractError
          else
            (case ksLoadPersisted ks of
               None \<Rightarrow> Inl MeshKeySourceContractError
             | Some inspect \<Rightarrow>
                 (case inspect (idSource s) of
                    Inr stored \<Rightarrow> Inr stored
                  | Inl e \<Rightarrow> if isMeshCredentialAccessError e then Inl e
                             else Inl (CredentialPersistenceError (icDbName cfg) ''inspect'' e))))"

definition keyContext :: "'k identity_config \<Rightarrow> string option \<Rightarrow> 'k identity \<Rightarrow> key_context" where
  "keyContext cfg meshId s = \<lparr>kcDbName = icDbName cfg, kcRemotePath = idRemotePath s, kcMeshId = meshId, kcDeviceId = idDeviceId s\<rparr>"

text \<open>The mesh id the record is written with: that of the manifest, or the one already recorded.\<close>

definition anchorMeshId :: "'k identity_config \<Rightarrow> 'k identity \<Rightarrow> string option result" where
  "anchorMeshId cfg s =
     (if truthyStr (idMeshId s) then Inr (idMeshId s)
      else bind_result (loadPersistedCredentials cfg s) (\<lambda>existing.
        Inr (case existing of Some sk \<Rightarrow> if truthyStr (skMeshId sk) then skMeshId sk else idMeshId s | None \<Rightarrow> idMeshId s)))"

definition persistCredentials :: "'k identity_config \<Rightarrow> 'k identity \<Rightarrow> 'k identity \<times> unit result" where
  "persistCredentials cfg s =
     (case icKeySource cfg of
        None \<Rightarrow> (s, Inr ())
      | Some ks \<Rightarrow>
          if \<not> truthyStr (idPassphrase s) then (s, Inr ())
          else
            (case (case anchorMeshId cfg s of
                     Inl e \<Rightarrow> (s, Inl e)
                   | Inr meshId \<Rightarrow>
                       (case ksPersist ks (keyContext cfg meshId s)
                               \<lparr>skPortableKey = the (idPassphrase s), skDeviceId = idDeviceId s,
                                skMeshId = (if truthyStr meshId then meshId else None)\<rparr> (idSource s) of
                          (k1, res) \<Rightarrow> (s\<lparr>idSource := k1\<rparr>, res))) of
               (s1, Inr _) \<Rightarrow> (emitId CredentialsPersisted s1, Inr ())
             | (s1, Inl e) \<Rightarrow>
                 (s1, Inl (if passesThrough e then e else CredentialPersistenceError (icDbName cfg) ''persist'' e))))"

definition assertCredentialMeshParity :: "'k identity_config \<Rightarrow> 'k identity \<Rightarrow> 'k identity \<times> unit result" where
  "assertCredentialMeshParity cfg s =
     (if \<not> truthyStr (idMeshId s) \<or> (case icKeySource cfg of None \<Rightarrow> True | Some _ \<Rightarrow> False) then (s, Inr ())
      else
        (case loadPersistedCredentials cfg s of
           Inl e \<Rightarrow> (s, Inl e)
         | Inr stored \<Rightarrow>
             (case Option.bind stored skMeshId of
                None \<Rightarrow> (s, Inr ())
              | Some m \<Rightarrow>
                  if m = '''' \<or> Some m = idMeshId s then (s, Inr ())
                  else (emitId (CredentialsMeshMismatch m (the (idMeshId s))) s,
                        Inl (MeshCredentialMismatchError (icDbName cfg) m (the (idMeshId s)))))))"

section \<open>Device id and key\<close>

definition setDeviceId :: "string \<Rightarrow> 'k identity \<Rightarrow> 'k identity" where
  "setDeviceId deviceId s = s\<lparr>idDeviceId := deviceId, idHlc := (idHlc s)\<lparr>nodeId := deviceId\<rparr>\<rparr>"

definition restoreDeviceIdFromLocalStore :: "'k identity \<Rightarrow> 'k identity" where
  "restoreDeviceIdFromLocalStore s =
     (if idDeviceIdConfigured s then s
      else (case storeGetMeta (idLocal s) ''deviceId'' of
              JStr stored \<Rightarrow> if stored \<noteq> '''' then setDeviceId stored s else s
            | _ \<Rightarrow> s))"

definition persistDeviceIdToLocalStore :: "'k identity \<Rightarrow> 'k identity" where
  "persistDeviceIdToLocalStore s = s\<lparr>idLocal := storeSetMeta ''deviceId'' (JStr (idDeviceId s)) (idLocal s)\<rparr>"

text \<open>Taking over what the key source answered: the key of the portable form, or a fresh one.\<close>

definition adoptKeyMaterial :: "'k identity_config \<Rightarrow> bytes \<Rightarrow> key_material \<Rightarrow> 'k identity \<Rightarrow> 'k identity \<times> unit result" where
  "adoptKeyMaterial cfg fresh resolved s0 =
     (let s = s0\<lparr>idEncrypted := kmEncrypted resolved, idKey := kmKey resolved, idPassphrase := kmPortableKey resolved\<rparr> in
      case (if truthyStr (idPassphrase s) \<and> idKey s = None
            then map_sum id Some (passphraseToKey (the (idPassphrase s))) else Inr (idKey s)) of
        Inl e \<Rightarrow> (s, Inl e)
      | Inr key \<Rightarrow>
          (let s1 = s\<lparr>idKey := key\<rparr> in
           if key = None \<and> idEncrypted s1 \<and> icReaderMode cfg
           then (s1, Inl (Error ''InterocitorReader requires the existing mesh key; it never generates one''))
           else if key = None \<and> idEncrypted s1
           then (case generateMeshKeyMaterial fresh of (k, portable) \<Rightarrow> (s1\<lparr>idKey := Some k, idPassphrase := Some portable\<rparr>, Inr ()))
           else (s1, Inr ())))"

fun failureStatus :: "string option \<Rightarrow> credential_failure option" where
  "failureStatus (Some s) = (if s = ''unavailable'' then Some Unavailable else if s = ''unreadable'' then Some Unreadable else None)"
| "failureStatus None = None"

definition resolveEncryption :: "'k identity_config \<Rightarrow> bytes \<Rightarrow> 'k identity \<Rightarrow> 'k identity \<times> unit result" where
  "resolveEncryption cfg fresh s =
     (if \<not> idEncrypted s then (s, Inr ())
      else
        (case icKeySource cfg of
           None \<Rightarrow> (s, Inl (Error ''Encrypted meshes require a keySource''))
         | Some ks \<Rightarrow>
             (case ksLoad ks (keyContext cfg (idMeshId s) s) (idSource s) of
                (k1, Inl e) \<Rightarrow> (s\<lparr>idSource := k1\<rparr>, Inl e)
              | (k1, Inr resolved) \<Rightarrow>
                  (let s1 = s\<lparr>idSource := k1\<rparr> in
                   case (if kmKey resolved = None \<and> \<not> truthyStr (kmPortableKey resolved)
                         then failureStatus (kmCredentialStatus resolved) else None) of
                     Some status \<Rightarrow> (s1, Inl (MeshCredentialAccessError status (Some (icDbName cfg))))
                   | None \<Rightarrow> adoptKeyMaterial cfg fresh resolved s1))))"

section \<open>Restoring credentials\<close>

definition localMeshId :: "'k identity \<Rightarrow> string" where
  "localMeshId s = (case storeGetMeta (idLocal s) ''meshId'' of JStr m \<Rightarrow> m | _ \<Rightarrow> '''')"

definition restoreStored :: "'k identity_config \<Rightarrow> stored_credentials \<Rightarrow> 'k identity \<Rightarrow> 'k identity \<times> unit result" where
  "restoreStored cfg stored s =
     (if truthyStr (skMeshId stored) \<and> localMeshId s \<noteq> '''' \<and> Some (localMeshId s) \<noteq> skMeshId stored
      then (emitId (CredentialsMeshMismatch (the (skMeshId stored)) (localMeshId s)) s,
            Inl (MeshCredentialMismatchError (icDbName cfg) (the (skMeshId stored)) (localMeshId s)))
      else
        (let deviceIdChanged = (skDeviceId stored \<noteq> '''' \<and> skDeviceId stored \<noteq> idDeviceId s);
             s1 = (if deviceIdChanged
                   then setDeviceId (skDeviceId stored) (emitId (CredentialsConflict (skDeviceId stored) (idDeviceId s)) s) else s)
         in if idEncrypted s1 \<and> skPortableKey stored \<noteq> '''' then
              (if \<not> truthyStr (idPassphrase s1)
               then (emitId (CredentialsRestored deviceIdChanged True) (s1\<lparr>idPassphrase := Some (skPortableKey stored)\<rparr>), Inr ())
               else if idPassphrase s1 \<noteq> Some (skPortableKey stored)
               then (emitId (CredentialsConflict (skDeviceId stored) (idDeviceId s1)) s1,
                     Inl (CredentialReplacementRequiredError (icDbName cfg)))
               else (emitId (CredentialsRestored deviceIdChanged False) s1, Inr ()))
            else (emitId (CredentialsRestored deviceIdChanged False) s1, Inr ())))"

definition restoreCredentials :: "'k identity_config \<Rightarrow> 'k identity \<Rightarrow> 'k identity \<times> unit result" where
  "restoreCredentials cfg s =
     (case loadPersistedCredentials cfg s of
        Inl e \<Rightarrow> (s, Inl e)
      | Inr None \<Rightarrow> (s, Inr ())
      | Inr (Some stored) \<Rightarrow> restoreStored cfg stored s)"

definition applyInitialState :: "initial_state option \<Rightarrow> 'k identity \<Rightarrow> 'k identity" where
  "applyInitialState state s =
     (case state of
        None \<Rightarrow> s
      | Some st \<Rightarrow>
          (let s1 = (if truthyStr (inDeviceId st) then (setDeviceId (the (inDeviceId st)) s)\<lparr>idDeviceIdConfigured := True\<rparr> else s);
               s2 = (case inRemotePath st of None \<Rightarrow> s1 | Some p \<Rightarrow> s1\<lparr>idRemotePath := Some p\<rparr>);
               s3 = (case inEncrypted st of
                       None \<Rightarrow> s2
                     | Some enc \<Rightarrow> if enc then s2\<lparr>idEncrypted := True\<rparr>
                                   else s2\<lparr>idEncrypted := False, idPassphrase := None, idKey := None\<rparr>)
           in (case inPassphrase st of
                 None \<Rightarrow> s3
               | Some passphrase \<Rightarrow>
                   (let s4 = s3\<lparr>idPassphrase := passphrase, idKey := None\<rparr>
                    in if passphrase \<noteq> None then s4\<lparr>idEncrypted := True\<rparr> else s4))))"

definition configureMesh :: "initial_state \<Rightarrow> 'k identity \<Rightarrow> 'k identity \<times> unit result" where
  "configureMesh state s =
     (if idConnected s then (s, Inl (Error ''Cannot configure mesh while connected''))
      else if idInitialized s
      then (s, Inl (Error ''Cannot configure mesh after init(); create a new engine or configure before connect''))
      else (let s1 = applyInitialState (Some state) s in (emitId (MeshConfigured (idPassphrase s1 \<noteq> None)) s1, Inr ())))"

definition clearCredentials :: "'k identity_config \<Rightarrow> 'k identity \<Rightarrow> 'k identity \<times> unit result" where
  "clearCredentials cfg s =
     (case (case icKeySource cfg of None \<Rightarrow> (idSource s, Inr ()) | Some ks \<Rightarrow> ksClear ks (idSource s)) of
        (k1, Inl e) \<Rightarrow> (s\<lparr>idSource := k1\<rparr>, Inl e)
      | (k1, Inr _) \<Rightarrow> (s\<lparr>idSource := k1, idKey := None, idPassphrase := None, idEncrypted := False\<rparr>, Inr ()))"

section \<open>Initialization\<close>

text \<open>The section of \<open>init\<close> under the credential lock.\<close>

definition settleIdentity :: "'k identity_config \<Rightarrow> bytes \<Rightarrow> 'k identity \<Rightarrow> 'k identity \<times> unit result" where
  "settleIdentity cfg fresh s =
     andThen (resolveEncryption cfg fresh) (\<lambda>_.
       andThen (restoreCredentials cfg) (\<lambda>_.
         andThen (persistCredentials cfg) (\<lambda>_ s1. (persistDeviceIdToLocalStore s1, Inr ()))))
       (restoreDeviceIdFromLocalStore s)"

definition restoreClock :: "'k identity \<Rightarrow> 'k identity" where
  "restoreClock s =
     (case storeGetMeta (idLocal s) ''hlc'' of
        JStr saved \<Rightarrow> if saved \<noteq> '''' then s\<lparr>idHlc := (hlcParse saved)\<lparr>nodeId := idDeviceId s\<rparr>\<rparr> else s
      | _ \<Rightarrow> s)"

definition doInit :: "'k identity_config \<Rightarrow> bytes \<Rightarrow> 'k identity \<Rightarrow> 'k identity \<times> unit result" where
  "doInit cfg fresh s =
     (let s0 = (case icSchemaVersion cfg of
                  None \<Rightarrow> s | Some v \<Rightarrow> s\<lparr>idLocal := storeSetMeta ''schema:version'' (JNum (Num v)) (idLocal s)\<rparr>)
      in case icInitialState cfg of
           Inl e \<Rightarrow> (s0, Inl e)
         | Inr state \<Rightarrow>
             andThen (if icReaderMode cfg then resolveEncryption cfg fresh else settleIdentity cfg fresh) (\<lambda>_ s1.
               let s2 = (if idEncrypted s1 \<and> idKey s1 \<noteq> None \<and> (case icKeySource cfg of None \<Rightarrow> False | Some _ \<Rightarrow> True)
                            \<and> \<not> icReaderMode cfg
                         then emitId EncryptionResolved s1 else s1)
               in (emitId (ConnectionStatusEvent Offline) ((restoreClock s2)\<lparr>idInitialized := True\<rparr>), Inr ()))
               (applyInitialState state s0))"

end
