(* ===== verification/Identity_Safety.thy ===== *)
theory Identity_Safety
  imports Credentials
begin

text \<open>
  What initialization guarantees about the mesh key, for the passphrase key source over any credential
  store that keeps what it saves (\<open>keeps_credentials\<close>): the key in use afterwards is the stored one if there
  is one, the store holds the key in use, and so engines that share a store settle on one key.
\<close>

locale keeps_credentials =
  fixes st :: "'c credential_store"
    and stored :: "'c \<Rightarrow> stored_credentials option"
  assumes read_true: "readCredentialState (Some st) db c = Inr r \<Longrightarrow> r = stored c"
    and save_ok: "cstSave st sk c = (c', Inr ()) \<Longrightarrow> skPortableKey sk \<noteq> '''' \<Longrightarrow> skMeshId sk \<noteq> Some '''' \<Longrightarrow> stored c' = Some sk"
    and save_fail: "cstSave st sk c = (c', Inl e) \<Longrightarrow> stored c' = stored c"
    and stored_key: "stored c = Some sk \<Longrightarrow> skPortableKey sk \<noteq> ''''"
begin

text \<open>The key a fresh passphrase source over this store settles on.\<close>

definition settlesOn :: "bytes \<Rightarrow> 'c source_state \<Rightarrow> string \<Rightarrow> bool" where
  "settlesOn fresh src p \<longleftrightarrow>
     (case cachedKey src of
        Some k \<Rightarrow> p = k
      | None \<Rightarrow> (case stored (srStore src) of Some sk \<Rightarrow> p = skPortableKey sk | None \<Rightarrow> p = base58Encode fresh))"

end

text \<open>What stays the same while credentials are settled.\<close>

lemma fresh_key_parses: "length fresh = KEY_BYTES \<Longrightarrow> passphraseToKey (base58Encode fresh) = Inr fresh"
proof -
  assume len: "length fresh = KEY_BYTES"
  then have "fresh \<noteq> []" by (auto simp: KEY_BYTES_def)
  with len show ?thesis by (simp add: passphraseToKey_def base58Decode_encode base58Encode_nonempty)
qed

lemma fresh_key_nonempty: "length fresh = KEY_BYTES \<Longrightarrow> base58Encode fresh \<noteq> []"
  by (cases fresh) (simp_all add: KEY_BYTES_def base58Encode_nonempty)

definition keyed :: "'k identity \<Rightarrow> string \<Rightarrow> bool" where
  "keyed s p \<longleftrightarrow> idEncrypted s \<and> p \<noteq> '''' \<and> idPassphrase s = Some p \<and> (\<exists>k. idKey s = Some k \<and> passphraseToKey p = Inr k)"

lemma adoptKeyMaterial_keyed:
  assumes res: "adoptKeyMaterial cfg fresh resolved s = (s', Inr ())" and enc: "idEncrypted s'" and nokey: "kmKey resolved = None"
    and len: "length fresh = KEY_BYTES"
  shows "keyed s' (if truthyStr (kmPortableKey resolved) then the (kmPortableKey resolved) else base58Encode fresh)
    \<and> idSource s' = idSource s \<and> idLocal s' = idLocal s"
proof (cases "truthyStr (kmPortableKey resolved)")
  case True
  then obtain p where p: "kmPortableKey resolved = Some p" "p \<noteq> ''''" by (auto simp: truthyStr_def split: option.splits)
  then obtain k where k: "passphraseToKey p = Inr k"
    using res nokey by (cases "passphraseToKey p") (auto simp: adoptKeyMaterial_def truthyStr_def)
  show ?thesis using res enc nokey p k by (auto simp: adoptKeyMaterial_def truthyStr_def keyed_def)
next
  case False
  then show ?thesis
    using res enc nokey fresh_key_parses [OF len] fresh_key_nonempty [OF len]
    by (auto simp: adoptKeyMaterial_def keyed_def generateMeshKeyMaterial_def Let_def split: if_splits)
qed

lemma applyInitialState_source: "idSource (applyInitialState state s) = idSource s"
  by (auto simp: applyInitialState_def setDeviceId_def Let_def split: option.splits)

lemma doInit_settles:
  assumes "\<not> icReaderMode cfg" and "doInit cfg fresh s = (s', Inr ())"
  obtains s0 s1 where "settleIdentity cfg fresh s0 = (s1, Inr ())" "idSource s0 = idSource s"
    "idEncrypted s' = idEncrypted s1" "idPassphrase s' = idPassphrase s1" "idKey s' = idKey s1" "idSource s' = idSource s1"
proof -
  define base where
    "base = (case icSchemaVersion cfg of None \<Rightarrow> s | Some v \<Rightarrow> s\<lparr>idLocal := storeSetMeta ''schema:version'' (JNum (Num v)) (idLocal s)\<rparr>)"
  obtain state where st: "icInitialState cfg = Inr state" using assms(2) by (auto simp: doInit_def Let_def split: sum.splits)
  let ?s0 = "applyInitialState state base"
  have "idSource base = idSource s" by (simp add: base_def split: option.splits)
  then have src: "idSource ?s0 = idSource s" by (simp only: applyInitialState_source)
  have clock: "idEncrypted (restoreClock x) = idEncrypted x" "idPassphrase (restoreClock x) = idPassphrase x"
    "idKey (restoreClock x) = idKey x" "idSource (restoreClock x) = idSource x" for x :: "'b identity"
    by (auto simp: restoreClock_def split: jsval.splits)
  from assms st obtain s1 where s1: "settleIdentity cfg fresh ?s0 = (s1, Inr ())"
    and s': "s' = emitId (ConnectionStatusEvent Offline) ((restoreClock (if idEncrypted s1 \<and> idKey s1 \<noteq> None
       \<and> (case icKeySource cfg of None \<Rightarrow> False | Some _ \<Rightarrow> True) then emitId EncryptionResolved s1 else s1))\<lparr>idInitialized := True\<rparr>)"
    by (auto simp: doInit_def Let_def andThen_Inr_iff base_def [symmetric] split del: if_split)
  show thesis by (rule that [OF s1 src]) (simp_all add: s' emitId_def clock)
qed

context keeps_credentials
begin

definition usesStore :: "bool \<Rightarrow> 'c source_state identity_config \<Rightarrow> bool" where
  "usesStore gen cfg \<longleftrightarrow> icKeySource cfg = Some (PortablePassphraseKeySource gen (Some st)) \<and> \<not> icReaderMode cfg"

lemma loadPersisted_true:
  assumes "usesStore gen cfg" and "loadPersistedCredentials cfg s = Inr r"
  shows "r = stored (srStore (idSource s))"
  using assms read_true
  by (auto simp: usesStore_def loadPersistedCredentials_def PortablePassphraseKeySource_def persistenceOf_def
      sourceLoadPersisted_def split: sum.splits if_splits)

lemma passphraseLoad_cases:
  assumes "passphraseLoad gen (Some st) ctx src = (src', Inr resolved)"
  shows "srStore src' = srStore src \<and> kmKey resolved = None \<and>
    (kmEncrypted resolved \<longrightarrow> settlesOn fresh src (if truthyStr (kmPortableKey resolved) then the (kmPortableKey resolved) else base58Encode fresh))"
proof (cases "cachedKey src")
  case (Some k)
  then have "k \<noteq> ''''" by (auto simp: cachedKey_def split: option.splits if_splits)
  with Some assms show ?thesis by (auto simp: passphraseLoad_def settlesOn_def truthyStr_def)
next
  case None
  then obtain r where r: "readCredentialState (Some st) (Some (kcDbName ctx)) (srStore src) = Inr r"
    using assms by (auto simp: passphraseLoad_def split: sum.splits)
  have eq: "r = stored (srStore src)" using r by (rule read_true)
  show ?thesis
  proof (cases r)
    case None
    with \<open>cachedKey src = None\<close> r eq assms show ?thesis by (auto simp: passphraseLoad_def settlesOn_def truthyStr_def usable_def)
  next
    case (Some sk)
    have "usable (Some sk)" using r Some by (intro readCredentialState_usable) simp
    with Some \<open>cachedKey src = None\<close> r eq assms show ?thesis
      by (auto simp: passphraseLoad_def settlesOn_def truthyStr_def usable_def split: option.splits)
  qed
qed

lemma resolveEncryption_keyed:
  assumes cfg: "usesStore gen cfg" and res: "resolveEncryption cfg fresh s = (s', Inr ())" and enc: "idEncrypted s'"
    and len: "length fresh = KEY_BYTES"
  shows "(\<exists>p. keyed s' p \<and> settlesOn fresh (idSource s) p)
    \<and> srStore (idSource s') = srStore (idSource s) \<and> idLocal s' = idLocal s"
proof -
  have e: "idEncrypted s" using res enc by (auto simp: resolveEncryption_def split: if_splits)
  obtain src1 resolved where load: "passphraseLoad gen (Some st) (keyContext cfg (idMeshId s) s) (idSource s) = (src1, Inr resolved)"
    and adopt: "adoptKeyMaterial cfg fresh resolved (s\<lparr>idSource := src1\<rparr>) = (s', Inr ())"
    using res e cfg
    by (auto simp: resolveEncryption_def usesStore_def PortablePassphraseKeySource_def Let_def split: prod.splits sum.splits option.splits)
  note l = passphraseLoad_cases [OF load, where fresh = fresh]
  have "kmEncrypted resolved" using adopt enc by (auto simp: adoptKeyMaterial_def Let_def split: sum.splits if_splits prod.splits)
  with l adoptKeyMaterial_keyed [OF adopt enc _ len] show ?thesis by auto
qed

lemma restoreCredentials_keyed:
  assumes cfg: "usesStore gen cfg" and res: "restoreCredentials cfg s = (s', Inr ())" and k: "keyed s p"
  shows "keyed s' p \<and> idSource s' = idSource s \<and> idLocal s' = idLocal s
    \<and> (\<forall>sk. stored (srStore (idSource s)) = Some sk \<longrightarrow> skPortableKey sk = p)"
proof (cases "loadPersistedCredentials cfg s")
  case (Inl e)
  with res show ?thesis by (simp add: restoreCredentials_def)
next
  case (Inr r)
  have r: "r = stored (srStore (idSource s))" using cfg Inr by (rule loadPersisted_true)
  show ?thesis
  proof (cases r)
    case None
    with Inr res k r show ?thesis by (auto simp: restoreCredentials_def)
  next
    case (Some sk)
    with Inr res have "restoreStored cfg sk s = (s', Inr ())" by (simp add: restoreCredentials_def)
    then show ?thesis using k r Some stored_key [of "srStore (idSource s)" sk]
      by (auto simp: restoreStored_def keyed_def truthyStr_def emitId_def setDeviceId_def Let_def split: if_splits)
  qed
qed

lemma persistCredentials_stores:
  assumes cfg: "usesStore gen cfg" and res: "persistCredentials cfg s = (s', Inr ())" and k: "keyed s p"
  shows "keyed s' p \<and> (\<exists>sk. stored (srStore (idSource s')) = Some sk \<and> skPortableKey sk = p)"
proof -
  from k have p: "idPassphrase s = Some p" "p \<noteq> ''''" by (auto simp: keyed_def)
  obtain meshId src1 where save:
      "sourcePersist (Some st) (keyContext cfg meshId s)
         \<lparr>skPortableKey = p, skDeviceId = idDeviceId s, skMeshId = (if truthyStr meshId then meshId else None)\<rparr> (idSource s) = (src1, Inr ())"
    and s': "s' = emitId CredentialsPersisted (s\<lparr>idSource := src1\<rparr>)"
    using res cfg p
    by (auto simp: persistCredentials_def usesStore_def PortablePassphraseKeySource_def truthyStr_def split: sum.splits prod.splits)
  let ?sk = "\<lparr>skPortableKey = p, skDeviceId = idDeviceId s, skMeshId = (if truthyStr meshId then meshId else None)\<rparr>"
  obtain c1 where c1: "cstSave st ?sk (srStore (idSource s)) = (c1, Inr ())" "srStore src1 = c1"
    using save by (auto simp: sourcePersist_def Let_def split: prod.splits)
  have "stored c1 = Some ?sk" using c1(1) p(2) by (intro save_ok) (auto simp: truthyStr_def)
  with c1 s' k show ?thesis by (auto simp: emitId_def keyed_def)
qed

lemma settleIdentity_keyed:
  assumes cfg: "usesStore gen cfg" and res: "settleIdentity cfg fresh s = (s', Inr ())" and enc: "idEncrypted s'"
    and len: "length fresh = KEY_BYTES"
  shows "\<exists>p sk. keyed s' p \<and> settlesOn fresh (idSource s) p \<and> stored (srStore (idSource s')) = Some sk \<and> skPortableKey sk = p
    \<and> (\<forall>old. stored (srStore (idSource s)) = Some old \<longrightarrow> skPortableKey old = p)"
proof -
  let ?s0 = "restoreDeviceIdFromLocalStore s"
  have s0: "idSource ?s0 = idSource s" "idLocal ?s0 = idLocal s"
    by (auto simp: restoreDeviceIdFromLocalStore_def setDeviceId_def split: jsval.splits)
  obtain s1 s2 s3 where r: "resolveEncryption cfg fresh ?s0 = (s1, Inr ())" "restoreCredentials cfg s1 = (s2, Inr ())"
    "persistCredentials cfg s2 = (s3, Inr ())" "s' = persistDeviceIdToLocalStore s3"
    using res by (auto simp: settleIdentity_def andThen_Inr_iff)
  have e3: "idEncrypted s3" using enc r(4) by (simp add: persistDeviceIdToLocalStore_def)
  have "idEncrypted s2" using r(3) e3
    by (auto simp: persistCredentials_def emitId_def split: option.splits if_splits prod.splits sum.splits)
  then have "idEncrypted s1" using r(2)
    by (auto simp: restoreCredentials_def restoreStored_def emitId_def setDeviceId_def Let_def split: option.splits if_splits sum.splits)
  with resolveEncryption_keyed [OF cfg r(1) _ len] s0
  obtain p where p: "keyed s1 p" "settlesOn fresh (idSource s) p" "srStore (idSource s1) = srStore (idSource s)" by auto
  note two = restoreCredentials_keyed [OF cfg r(2) p(1)]
  note three = persistCredentials_stores [OF cfg r(3), of p]
  from two three p r(4) show ?thesis by (auto simp: persistDeviceIdToLocalStore_def keyed_def)
qed

lemma init_keyed:
  assumes cfg: "usesStore gen cfg" and res: "doInit cfg fresh s = (s', Inr ())" and enc: "idEncrypted s'"
    and len: "length fresh = KEY_BYTES"
  shows "\<exists>p sk. keyed s' p \<and> settlesOn fresh (idSource s) p \<and> stored (srStore (idSource s')) = Some sk \<and> skPortableKey sk = p
    \<and> (\<forall>old. stored (srStore (idSource s)) = Some old \<longrightarrow> skPortableKey old = p)"
proof -
  have "\<not> icReaderMode cfg" using cfg by (simp add: usesStore_def)
  then obtain s0 s1 where settle: "settleIdentity cfg fresh s0 = (s1, Inr ())" and src: "idSource s0 = idSource s"
    and same: "idEncrypted s' = idEncrypted s1" "idPassphrase s' = idPassphrase s1" "idKey s' = idKey s1" "idSource s' = idSource s1"
    using res by (rule doInit_settles)
  have "idEncrypted s1" using enc same by simp
  from settleIdentity_keyed [OF cfg settle this len] src same show ?thesis by (auto simp: keyed_def)
qed

lemma inits_agree:
  assumes "usesStore gen cfg" "doInit cfg fresh s = (s', Inr ())" "idEncrypted s'" "length fresh = KEY_BYTES"
    and "usesStore gen2 cfg2" "doInit cfg2 fresh2 t = (t', Inr ())" "idEncrypted t'" "length fresh2 = KEY_BYTES"
    and "srStore (idSource t) = srStore (idSource s')" "cachedKey (idSource t) = None"
  shows "idPassphrase t' = idPassphrase s' \<and> idKey t' = idKey s'"
proof -
  obtain p sk where p: "keyed s' p" "stored (srStore (idSource s')) = Some sk" "skPortableKey sk = p"
    using init_keyed [OF assms(1-4)] by blast
  obtain q where q: "keyed t' q" "settlesOn fresh2 (idSource t) q" using init_keyed [OF assms(5-8)] by blast
  have "q = p" using q(2) p(2,3) assms(9,10) by (simp add: settlesOn_def)
  with p(1) q(1) show ?thesis by (auto simp: keyed_def)
qed

end

section \<open>Initialization with an empty store\<close>

lemma resolve_generates:
  assumes ks: "icKeySource cfg = Some (PortablePassphraseKeySource True (Some st))" and writer: "\<not> icReaderMode cfg"
    and enc: "idEncrypted s" and cache: "cachedKey (idSource s) = None"
    and read: "\<And>db. readCredentialState (Some st) db (srStore (idSource s)) = Inr None"
  shows "resolveEncryption cfg fresh s = (s\<lparr>idKey := Some fresh, idPassphrase := Some (base58Encode fresh)\<rparr>, Inr ())"
  using assms
  by (simp add: resolveEncryption_def PortablePassphraseKeySource_def passphraseLoad_def usable_def truthyStr_def
      adoptKeyMaterial_def generateMeshKeyMaterial_def)

lemma persist_saves:
  assumes ks: "icKeySource cfg = Some (PortablePassphraseKeySource True (Some st))"
    and read: "\<And>db. readCredentialState (Some st) db (srStore (idSource s)) = Inr None"
    and p: "idPassphrase s = Some p" "p \<noteq> ''''"
    and save: "\<And>sk. snd (cstSave st sk (srStore (idSource s))) = Inr ()"
  shows "\<exists>sk s'. persistCredentials cfg s = (s', Inr ()) \<and> skPortableKey sk = p
    \<and> srStore (idSource s') = fst (cstSave st sk (srStore (idSource s)))
    \<and> idPassphrase s' = idPassphrase s \<and> idKey s' = idKey s \<and> idEncrypted s' = idEncrypted s"
proof -
  obtain meshId where m: "anchorMeshId cfg s = Inr meshId"
    using ks read by (auto simp: anchorMeshId_def loadPersistedCredentials_def PortablePassphraseKeySource_def persistenceOf_def
        sourceLoadPersisted_def)
  define sk where "sk = \<lparr>skPortableKey = p, skDeviceId = idDeviceId s, skMeshId = (if truthyStr meshId then meshId else None)\<rparr>"
  obtain c1 where c1: "cstSave st sk (srStore (idSource s)) = (c1, Inr ())"
    using save [of sk] by (metis prod.collapse)
  let ?src = "(idSource s)\<lparr>srPortableKey := Some p, srStore := c1\<rparr>"
  have "skPortableKey sk = p" by (simp add: sk_def)
  then have "sourcePersist (Some st) (keyContext cfg meshId s) sk (idSource s) = (?src, Inr ())"
    using c1 by (simp add: sourcePersist_def)
  then have "persistCredentials cfg s = (emitId CredentialsPersisted (s\<lparr>idSource := ?src\<rparr>), Inr ())"
    using ks m p by (simp add: persistCredentials_def PortablePassphraseKeySource_def truthyStr_def sk_def)
  then show ?thesis using c1 by (intro exI [of _ sk]) (simp add: emitId_def sk_def)
qed

lemma init_generates:
  assumes ks: "icKeySource cfg = Some (PortablePassphraseKeySource True (Some st))" and writer: "\<not> icReaderMode cfg"
    and init: "icInitialState cfg = Inr state" "icSchemaVersion cfg = None"
    and enc: "idEncrypted (applyInitialState state s)" and cache: "cachedKey (idSource s) = None"
    and read: "\<And>db. readCredentialState (Some st) db (srStore (idSource s)) = Inr None"
    and save: "\<And>sk. snd (cstSave st sk (srStore (idSource s))) = Inr ()"
    and len: "length fresh = KEY_BYTES"
  shows "\<exists>s' sk. doInit cfg fresh s = (s', Inr ()) \<and> idEncrypted s' \<and> idPassphrase s' = Some (base58Encode fresh) \<and> idKey s' = Some fresh
    \<and> skPortableKey sk = base58Encode fresh \<and> srStore (idSource s') = fst (cstSave st sk (srStore (idSource s)))"
proof -
  let ?s0 = "restoreDeviceIdFromLocalStore (applyInitialState state s)"
  have src: "idSource ?s0 = idSource s" "idEncrypted ?s0"
    using enc applyInitialState_source [of state s]
    by (auto simp: restoreDeviceIdFromLocalStore_def setDeviceId_def split: jsval.splits)
  let ?s1 = "?s0\<lparr>idKey := Some fresh, idPassphrase := Some (base58Encode fresh)\<rparr>"
  have one: "resolveEncryption cfg fresh ?s0 = (?s1, Inr ())"
    using ks writer src cache read by (intro resolve_generates) auto
  have two: "restoreCredentials cfg ?s1 = (?s1, Inr ())"
    using ks read src by (simp add: restoreCredentials_def loadPersistedCredentials_def PortablePassphraseKeySource_def persistenceOf_def
        sourceLoadPersisted_def)
  obtain sk s3 where three: "persistCredentials cfg ?s1 = (s3, Inr ())" "skPortableKey sk = base58Encode fresh"
      "srStore (idSource s3) = fst (cstSave st sk (srStore (idSource s)))" "idPassphrase s3 = Some (base58Encode fresh)"
      "idKey s3 = Some fresh" "idEncrypted s3"
    using persist_saves [OF ks, of ?s1 "base58Encode fresh"] read save src fresh_key_nonempty [OF len] by auto
  let ?s4 = "persistDeviceIdToLocalStore s3"
  have settle: "settleIdentity cfg fresh (applyInitialState state s) = (?s4, Inr ())"
    using one two three(1) by (simp add: settleIdentity_def andThen_def)
  have keep: "idPassphrase (restoreClock x) = idPassphrase x" "idKey (restoreClock x) = idKey x" "idSource (restoreClock x) = idSource x"
    "idEncrypted (restoreClock x) = idEncrypted x" for x :: "'a source_state identity"
    by (auto simp: restoreClock_def split: jsval.splits)
  obtain s' where "doInit cfg fresh s = (s', Inr ())" "idPassphrase s' = idPassphrase ?s4" "idKey s' = idKey ?s4" "idSource s' = idSource ?s4"
      "idEncrypted s' = idEncrypted ?s4"
    using settle init writer ks by (auto simp: doInit_def andThen_def Let_def emitId_def keep)
  then show ?thesis using three by (auto simp: persistDeviceIdToLocalStore_def)
qed

section \<open>Failing closed\<close>

lemma init_fails_closed_lemma:
  assumes ks: "icKeySource cfg = Some (PortablePassphraseKeySource gen (Some st))" and writer: "\<not> icReaderMode cfg"
    and init: "icInitialState cfg = Inr state" and enc: "idEncrypted (applyInitialState state s)"
    and cache: "cachedKey (idSource s) = None"
    and read: "\<And>db. readCredentialState (Some st) db (srStore (idSource s)) = Inl (err db)"
  shows "\<exists>s'. doInit cfg fresh s = (s', Inl (err (Some (icDbName cfg)))) \<and> idSource s' = idSource s \<and> idKey s' = idKey (applyInitialState state s)"
proof -
  define base where
    "base = (case icSchemaVersion cfg of None \<Rightarrow> s | Some v \<Rightarrow> s\<lparr>idLocal := storeSetMeta ''schema:version'' (JNum (Num v)) (idLocal s)\<rparr>)"
  let ?s0 = "restoreDeviceIdFromLocalStore (applyInitialState state base)"
  have b: "idSource (applyInitialState state base) = idSource s"
    "idEncrypted (applyInitialState state base) = idEncrypted (applyInitialState state s)"
    "idKey (applyInitialState state base) = idKey (applyInitialState state s)"
    by (auto simp: base_def applyInitialState_source applyInitialState_def setDeviceId_def Let_def split: option.splits)
  then have s0: "idSource ?s0 = idSource s" "idEncrypted ?s0" "idKey ?s0 = idKey (applyInitialState state s)"
    using enc by (auto simp: restoreDeviceIdFromLocalStore_def setDeviceId_def split: jsval.splits)
  have "resolveEncryption cfg fresh ?s0 = (?s0, Inl (err (Some (icDbName cfg))))"
    using ks s0 cache read by (simp add: resolveEncryption_def PortablePassphraseKeySource_def passphraseLoad_def keyContext_def)
  then have "doInit cfg fresh s = (?s0, Inl (err (Some (icDbName cfg))))"
    using init writer by (simp add: doInit_def Let_def settleIdentity_def andThen_def base_def)
  with s0 show ?thesis by blast
qed

end
