(* ===== verification/Json_Text.thy ===== *)
theory Json_Text
  imports Js_Value
begin

text \<open>
  \<open>JSON.stringify\<close> and \<open>JSON.parse\<close>, which the codecs apply to the documents they write: the text of a
  value with its escapes, and a parser of the whole grammar with white space, escapes and nesting. A
  member that is undefined is left out, an undefined element and \<open>NaN\<close> are written as \<open>null\<close>, and a date is
  written as its ISO text, whose format \<open>dateText\<close> is an argument. Strings are of code units below 256 and
  numbers are integers, as in the whole development, so the parser refuses a number with a
  fraction or an exponent and an escape of a code unit from 256 on. The parser recurses on fuel, twice the
  length of the text and one more; \<open>json_fuel_enough\<close> shows that no more fuel gives another answer, and
  \<open>json_roundtrip\<close> that the text of a value parses to its normal form.
\<close>

section \<open>Writing\<close>

definition jsonEscape :: "char \<Rightarrow> string" where
  "jsonEscape c =
     (let n = of_char c :: nat in
      if n = 34 then [CHR 0x5C, CHR 0x22]
      else if n = 92 then [CHR 0x5C, CHR 0x5C]
      else if n = 8 then [CHR 0x5C, CHR ''b'']
      else if n = 9 then [CHR 0x5C, CHR ''t'']
      else if n = 10 then [CHR 0x5C, CHR ''n'']
      else if n = 12 then [CHR 0x5C, CHR ''f'']
      else if n = 13 then [CHR 0x5C, CHR ''r'']
      else if n < 32 then CHR 0x5C # ''u00'' @ [digitChar (n div 16), digitChar (n mod 16)]
      else [c])"

definition jsonQuote :: "string \<Rightarrow> string" where
  "jsonQuote s = CHR 0x22 # concat (map jsonEscape s) @ [CHR 0x22]"

text \<open>\<open>JSON.stringify\<close> of a value; \<open>undefined\<close> has no text.\<close>

fun jsonText :: "(int \<Rightarrow> string) \<Rightarrow> jsval \<Rightarrow> string option"
  and jsonElements :: "(int \<Rightarrow> string) \<Rightarrow> jsval list \<Rightarrow> string list"
  and jsonMembers :: "(int \<Rightarrow> string) \<Rightarrow> (string \<times> jsval) list \<Rightarrow> string list" where
  "jsonText dateText JUndefined = None"
| "jsonText dateText JNull = Some ''null''"
| "jsonText dateText (JBool b) = Some (if b then ''true'' else ''false'')"
| "jsonText dateText (JNum x) = Some (case x of NaN \<Rightarrow> ''null'' | Num n \<Rightarrow> toStringRadix 10 (Num n))"
| "jsonText dateText (JStr s) = Some (jsonQuote s)"
| "jsonText dateText (JDate d) = Some (jsonQuote (dateText d))"
| "jsonText dateText (JArr xs) = Some (''['' @ jjoin '','' (jsonElements dateText xs) @ '']'')"
| "jsonText dateText (JObj fs) = Some (''{'' @ jjoin '','' (jsonMembers dateText fs) @ ''}'')"
| "jsonElements dateText [] = []"
| "jsonElements dateText (x # xs) =
     (case jsonText dateText x of None \<Rightarrow> ''null'' | Some t \<Rightarrow> t) # jsonElements dateText xs"
| "jsonMembers dateText [] = []"
| "jsonMembers dateText ((k, v) # fs) =
     (case jsonText dateText v of
        None \<Rightarrow> jsonMembers dateText fs
      | Some t \<Rightarrow> (jsonQuote k @ '':'' @ t) # jsonMembers dateText fs)"

section \<open>Parsing\<close>

definition isJsonSpace :: "char \<Rightarrow> bool" where
  "isJsonSpace c = (let n = of_char c :: nat in n = 32 \<or> n = 9 \<or> n = 10 \<or> n = 13)"

definition skipSpace :: "string \<Rightarrow> string" where
  "skipSpace s = dropWhile isJsonSpace s"

definition jsonUnescape :: "char \<Rightarrow> char option" where
  "jsonUnescape c =
     (let n = of_char c :: nat in
      if n = 34 \<or> n = 92 \<or> n = 47 then Some c
      else if c = CHR ''b'' then Some (char_of (8 :: nat))
      else if c = CHR ''t'' then Some (char_of (9 :: nat))
      else if c = CHR ''n'' then Some (char_of (10 :: nat))
      else if c = CHR ''f'' then Some (char_of (12 :: nat))
      else if c = CHR ''r'' then Some (char_of (13 :: nat))
      else None)"

text \<open>Four hexadecimal digits of a code unit below 256.\<close>

definition hexUnit :: "char \<Rightarrow> char \<Rightarrow> char \<Rightarrow> char \<Rightarrow> char option" where
  "hexUnit a b c d =
     (if list_all (isDigit 16) [a, b, c, d] \<and> horner 16 (map (the \<circ> digitVal) [a, b, c, d]) < 256
      then Some (char_of (horner 16 (map (the \<circ> digitVal) [a, b, c, d]))) else None)"

text \<open>The rest of a string, after its opening quote.\<close>

fun parseChars :: "string \<Rightarrow> (string \<times> string) option" where
  "parseChars [] = None"
| "parseChars (c # cs) =
     (if c = CHR 0x22 then Some ([], cs)
      else if c = CHR 0x5C then
        (case cs of
           [] \<Rightarrow> None
         | e # es \<Rightarrow>
             if e = CHR ''u'' then
               (case es of
                  x1 # x2 # x3 # x4 # rest \<Rightarrow>
                    (case hexUnit x1 x2 x3 x4 of None \<Rightarrow> None | Some u \<Rightarrow> map_option (apfst (Cons u)) (parseChars rest))
                | _ \<Rightarrow> None)
             else (case jsonUnescape e of None \<Rightarrow> None | Some u \<Rightarrow> map_option (apfst (Cons u)) (parseChars es)))
      else if (of_char c :: nat) < 32 then None
      else map_option (apfst (Cons c)) (parseChars cs))"

definition parseNumber :: "string \<Rightarrow> (jsval \<times> string) option" where
  "parseNumber s =
     (let negative = (s \<noteq> [] \<and> hd s = CHR ''-'');
          body = (if negative then tl s else s);
          digits = takeWhile (isDigit 10) body;
          rest = dropWhile (isDigit 10) body;
          n = int (horner 10 (map (the \<circ> digitVal) digits))
      in if digits = [] \<or> hd digits = CHR ''0'' \<and> 1 < length digits then None
         else if rest \<noteq> [] \<and> hd rest \<in> {CHR ''.'', CHR ''e'', CHR ''E''} then None
         else Some (JNum (Num (if negative then - n else n)), rest))"

fun parseValue :: "nat \<Rightarrow> string \<Rightarrow> (jsval \<times> string) option"
  and parseElements :: "nat \<Rightarrow> string \<Rightarrow> (jsval list \<times> string) option"
  and parseMembers :: "nat \<Rightarrow> string \<Rightarrow> ((string \<times> jsval) list \<times> string) option" where
  "parseValue 0 s = None"
| "parseValue (Suc n) s =
     (case skipSpace s of
        [] \<Rightarrow> None
      | c # cs \<Rightarrow>
          if c = CHR 0x22 then map_option (apfst JStr) (parseChars cs)
          else if c = CHR ''['' then
            (if skipSpace cs \<noteq> [] \<and> hd (skipSpace cs) = CHR '']'' then Some (JArr [], tl (skipSpace cs))
             else map_option (apfst JArr) (parseElements n cs))
          else if c = CHR ''{'' then
            (if skipSpace cs \<noteq> [] \<and> hd (skipSpace cs) = CHR ''}'' then Some (JObj [], tl (skipSpace cs))
             else map_option (apfst (\<lambda>ms. JObj (fold (\<lambda>(k, v). AList.update k v) ms []))) (parseMembers n cs))
          else if startsWith (c # cs) ''null'' then Some (JNull, drop 4 (c # cs))
          else if startsWith (c # cs) ''true'' then Some (JBool True, drop 4 (c # cs))
          else if startsWith (c # cs) ''false'' then Some (JBool False, drop 5 (c # cs))
          else parseNumber (c # cs))"
| "parseElements 0 s = None"
| "parseElements (Suc n) s =
     (case parseValue n s of
        None \<Rightarrow> None
      | Some (v, r) \<Rightarrow>
          (case skipSpace r of
             [] \<Rightarrow> None
           | c # r' \<Rightarrow>
               if c = CHR '']'' then Some ([v], r')
               else if c = CHR '','' then map_option (apfst (Cons v)) (parseElements n r')
               else None))"
| "parseMembers 0 s = None"
| "parseMembers (Suc n) s =
     (if skipSpace s = [] \<or> hd (skipSpace s) \<noteq> CHR 0x22 then None
      else
        (case parseChars (tl (skipSpace s)) of
           None \<Rightarrow> None
         | Some (k, r) \<Rightarrow>
             if skipSpace r = [] \<or> hd (skipSpace r) \<noteq> CHR '':'' then None
             else
               (case parseValue n (tl (skipSpace r)) of
                  None \<Rightarrow> None
                | Some (v, r1) \<Rightarrow>
                    (case skipSpace r1 of
                       [] \<Rightarrow> None
                     | c # r2 \<Rightarrow>
                         if c = CHR ''}'' then Some ([(k, v)], r2)
                         else if c = CHR '','' then map_option (apfst (Cons (k, v))) (parseMembers n r2)
                         else None))))"

definition jsonParseText :: "string \<Rightarrow> jsval result" where
  "jsonParseText s =
     (case parseValue (2 * length s + 1) s of
        Some (v, r) \<Rightarrow> if skipSpace r = [] then Inr v else Inl (Error ''SyntaxError'')
      | None \<Rightarrow> Inl (Error ''SyntaxError''))"

text \<open>A member of a parsed object.\<close>

definition jsonField :: "(string \<times> jsval) list \<Rightarrow> string \<Rightarrow> jsval" where
  "jsonField fs k = (case map_of fs k of None \<Rightarrow> JUndefined | Some v \<Rightarrow> v)"

section \<open>What parsing the text of a value gives\<close>

fun jsonNormal :: "(int \<Rightarrow> string) \<Rightarrow> jsval \<Rightarrow> jsval option"
  and normalElements :: "(int \<Rightarrow> string) \<Rightarrow> jsval list \<Rightarrow> jsval list"
  and normalMembers :: "(int \<Rightarrow> string) \<Rightarrow> (string \<times> jsval) list \<Rightarrow> (string \<times> jsval) list" where
  "jsonNormal dateText JUndefined = None"
| "jsonNormal dateText (JNum x) = Some (case x of NaN \<Rightarrow> JNull | Num n \<Rightarrow> JNum (Num n))"
| "jsonNormal dateText (JDate d) = Some (JStr (dateText d))"
| "jsonNormal dateText (JArr xs) = Some (JArr (normalElements dateText xs))"
| "jsonNormal dateText (JObj fs) = Some (JObj (normalMembers dateText fs))"
| "jsonNormal dateText v = Some v"
| "normalElements dateText [] = []"
| "normalElements dateText (x # xs) = (case jsonNormal dateText x of None \<Rightarrow> JNull | Some v \<Rightarrow> v) # normalElements dateText xs"
| "normalMembers dateText [] = []"
| "normalMembers dateText ((k, x) # fs) =
     (case jsonNormal dateText x of None \<Rightarrow> normalMembers dateText fs | Some v \<Rightarrow> (k, v) # normalMembers dateText fs)"

subsection \<open>Strings and numbers\<close>

lemma hexUnit_control: "(of_char c :: nat) < 32 \<Longrightarrow>
    hexUnit (CHR ''0'') (CHR ''0'') (digitChar (of_char c div 16)) (digitChar (of_char c mod 16)) = Some c"
proof -
  let ?n = "of_char c :: nat"
  assume n: "?n < 32"
  have d: "?n div 16 < 16" "?n mod 16 < 16" using n by simp_all
  have "digitVal (CHR ''0'') = Some 0" by code_simp
  then have "horner 16 (map (the \<circ> digitVal) [CHR ''0'', CHR ''0'', digitChar (?n div 16), digitChar (?n mod 16)]) = ?n"
    using d by (simp add: horner_Cons)
  moreover have "list_all (isDigit 16) [CHR ''0'', CHR ''0'', digitChar (?n div 16), digitChar (?n mod 16)]"
    using d \<open>digitVal (CHR ''0'') = Some 0\<close> by (simp add: isDigit_def)
  ultimately show ?thesis using n by (simp only: hexUnit_def) simp
qed

lemma parseChars_escape: "parseChars (jsonEscape c @ r) = map_option (apfst (Cons c)) (parseChars r)"
proof -
  have c: "char_of (of_char c :: nat) = c" by simp
  have marks: "char_of (34 :: nat) = CHR 0x22" "char_of (92 :: nat) = CHR 0x5C" by code_simp+
  consider "of_char c = (34 :: nat)" | "of_char c = (92 :: nat)" | "of_char c = (8 :: nat)"
    | "of_char c = (9 :: nat)" | "of_char c = (10 :: nat)" | "of_char c = (12 :: nat)" | "of_char c = (13 :: nat)"
    | (ctrl) "(of_char c :: nat) < 32" "of_char c \<notin> {8, 9, 10, 12, 13 :: nat}"
    | (plain) "32 \<le> (of_char c :: nat)" "of_char c \<noteq> (34 :: nat)" "of_char c \<noteq> (92 :: nat)" by force
  then show ?thesis
  proof cases
    case ctrl
    then show ?thesis using hexUnit_control [OF ctrl(1)] by (simp add: jsonEscape_def Let_def)
  next
    case plain
    then have "c \<noteq> CHR 0x22" "c \<noteq> CHR 0x5C" by auto
    with plain show ?thesis by (simp add: jsonEscape_def Let_def)
  qed (use c marks in \<open>auto simp: jsonEscape_def jsonUnescape_def Let_def\<close>)
qed

lemma parseChars_quoted: "parseChars (concat (map jsonEscape s) @ CHR 0x22 # r) = Some (s, r)"
  by (induction s) (simp_all add: parseChars_escape del: parseChars.simps, simp)

lemma digitsOf_head: "2 \<le> b \<Longrightarrow> 0 < n \<Longrightarrow> hd (digitsOf b n) \<noteq> 0"
proof (induction b n rule: digitsOf.induct)
  case (1 b n)
  then show ?case by (subst digitsOf.simps) (auto simp: div_greater_zero_iff)
qed

definition endsValue :: "string \<Rightarrow> bool" where
  "endsValue r = (r = [] \<or> hd r \<in> {CHR '','', CHR '']'', CHR ''}''})"

lemma parseNumber_text:
  assumes "endsValue r"
  shows "parseNumber (toStringRadix 10 (Num n) @ r) = Some (JNum (Num n), r)"
proof -
  have r: "r = [] \<or> \<not> isDigit 10 (hd r)" "r = [] \<or> hd r \<notin> {CHR ''.'', CHR ''e'', CHR ''E''}"
    using assms by (auto simp: endsValue_def isDigit_def digitVal_def)
  have run: "takeWhile (isDigit 10) (map digitChar (digitsOf 10 m) @ r) = map digitChar (digitsOf 10 m)"
    "dropWhile (isDigit 10) (map digitChar (digitsOf 10 m) @ r) = r" for m
  proof -
    show tw: "takeWhile (isDigit 10) (map digitChar (digitsOf 10 m) @ r) = map digitChar (digitsOf 10 m)"
      by (rule takeWhile_digits) (use r(1) digitsOf_less in auto)
    show "dropWhile (isDigit 10) (map digitChar (digitsOf 10 m) @ r) = r"
      using tw takeWhile_dropWhile_id [of "isDigit 10" "map digitChar (digitsOf 10 m) @ r"] by (metis same_append_eq)
  qed
  have lt: "d \<in> set (digitsOf 10 m) \<Longrightarrow> d < 36" for d m using digitsOf_less [of 10 d m] by simp
  have val: "horner 10 (map (the \<circ> digitVal) (map digitChar (digitsOf 10 m))) = m" for m
    by (subst map_digitVal_digitChar) (use lt in \<open>auto simp: horner_digitsOf\<close>)
  have lead: "\<not> (hd (map digitChar (digitsOf 10 m)) = CHR ''0'' \<and> 1 < length (map digitChar (digitsOf 10 m)))" for m
  proof (cases "m = 0")
    case True
    then show ?thesis by (simp add: digitsOf.simps)
  next
    case False
    then have "hd (digitsOf 10 m) \<noteq> 0" using digitsOf_head [of 10 m] by simp
    moreover have "hd (digitsOf 10 m) < 36" by (rule lt [of _ m]) simp
    moreover have "digitChar 0 = CHR ''0''" by code_simp
    ultimately show ?thesis by (metis digitChar_inject digitsOf_not_Nil list.map_sel(1) zero_less_numeral)
  qed
  have sign: "hd (map digitChar (digitsOf 10 m) @ r) \<noteq> CHR ''-''" for m
    using lt [of "hd (digitsOf 10 m)" m] by (simp add: hd_map)
  show ?thesis
  proof (cases "n < 0")
    case True
    then show ?thesis
      using lead [of "nat (- n)"] r(2) by (simp add: parseNumber_def Let_def run val del: map_map) 
  next
    case False
    then show ?thesis
      using lead [of "nat n"] r(2) sign [of "nat n"] by (simp add: parseNumber_def Let_def run val del: map_map)
  qed
qed

subsection \<open>Values\<close>

lemma jjoin_Cons: "jjoin sep (x # xs) = x @ (if xs = [] then [] else sep @ jjoin sep xs)"
  by (cases xs) simp_all

lemma text_normal: "jsonText dt v = None \<longleftrightarrow> jsonNormal dt v = None"
  by (cases v) auto

lemma members_empty: "jsonMembers dt fs = [] \<longleftrightarrow> normalMembers dt fs = []"
proof (induction fs)
  case (Cons f fs)
  then show ?case
    using text_normal [of dt "snd f"] by (cases f; cases "jsonText dt (snd f)"; cases "jsonNormal dt (snd f)") auto
qed simp

lemma elements_empty [simp]: "jsonElements dt xs = [] \<longleftrightarrow> xs = []"
  by (cases xs) simp_all

lemma normalMembers_keys: "fst ` set (normalMembers dt fs) \<subseteq> fst ` set fs"
proof (induction fs)
  case (Cons f fs)
  then show ?case by (cases f; cases "jsonNormal dt (snd f)") auto
qed simp

lemma normalMembers_distinct: "distinct (map fst fs) \<Longrightarrow> distinct (map fst (normalMembers dt fs))"
proof (induction fs)
  case (Cons f fs)
  then show ?case using normalMembers_keys [of dt fs] by (cases f) (auto split: option.split)
qed simp

lemma fold_update_distinct:
  "distinct (map fst (acc @ ms)) \<Longrightarrow> fold (\<lambda>(k, v). AList.update k v) ms acc = acc @ ms"
proof (induction ms arbitrary: acc)
  case (Cons m ms)
  obtain k v where m: "m = (k, v)" by fastforce
  have "AList.update k v acc = acc @ [(k, v)]"
    using Cons.prems m by (induction acc) auto
  with Cons m show ?case by simp
qed simp

definition startsValue :: "string \<Rightarrow> bool" where
  "startsValue t \<longleftrightarrow> t \<noteq> [] \<and> \<not> isJsonSpace (hd t) \<and> hd t \<noteq> CHR '']'' \<and> hd t \<noteq> CHR ''}''"

lemma digit_starts: "startsValue (map digitChar (digitsOf 10 n) @ r)"
  and digit_plain: "hd (map digitChar (digitsOf 10 n) @ r) \<notin> {CHR 0x22, CHR ''['', CHR ''{'', CHR ''n'', CHR ''t'', CHR ''f''}"
proof -
  have "hd (digitsOf 10 n) < 10" by (rule digitsOf_less [of _ _ n]) simp_all
  then have h: "of_char (hd (map digitChar (digitsOf 10 n) @ r)) = 48 + hd (digitsOf 10 n)" "hd (digitsOf 10 n) < 10"
    by (simp_all add: hd_map of_char_digitChar)
  then show "startsValue (map digitChar (digitsOf 10 n) @ r)" 
    by (auto simp: startsValue_def isJsonSpace_def Let_def)
  show "hd (map digitChar (digitsOf 10 n) @ r) \<notin> {CHR 0x22, CHR ''['', CHR ''{'', CHR ''n'', CHR ''t'', CHR ''f''}"
    using h by auto
qed

lemma jsonText_starts: "jsonText dt v = Some t \<Longrightarrow> startsValue t"
proof (cases v)
  case (JNum x)
  assume t: "jsonText dt v = Some t"
  show ?thesis
  proof (cases x)
    case (Num n)
    then show ?thesis
      using t JNum digit_starts [of "nat n" "[]"] by (cases "n < 0") (auto simp: startsValue_def isJsonSpace_def)
  qed (use t JNum in \<open>simp add: startsValue_def isJsonSpace_def\<close>, auto)
qed (auto simp: startsValue_def isJsonSpace_def jsonQuote_def split: if_splits)

lemma skipSpace_start: "startsValue t \<Longrightarrow> skipSpace (t @ r) = t @ r"
  by (cases t) (simp_all add: startsValue_def skipSpace_def)

lemma skipSpace_char [simp]: "\<not> isJsonSpace c \<Longrightarrow> skipSpace (c # r) = c # r"
  by (simp add: skipSpace_def)

lemma punctuation [simp]:
  "\<not> isJsonSpace (CHR '','')" "\<not> isJsonSpace (CHR '']'')" "\<not> isJsonSpace (CHR ''}'')" "\<not> isJsonSpace (CHR '':'')"
  "\<not> isJsonSpace (CHR 0x22)" "\<not> isJsonSpace (CHR ''['')" "\<not> isJsonSpace (CHR ''{'')"
  "\<not> isJsonSpace (CHR ''n'')" "\<not> isJsonSpace (CHR ''t'')" "\<not> isJsonSpace (CHR ''f'')" "\<not> isJsonSpace (CHR ''-'')"
  by (simp_all add: isJsonSpace_def)

lemma parse_quoted: "0 < n \<Longrightarrow> parseValue n (jsonQuote s @ r) = Some (JStr s, r)"
  by (cases n) (simp_all add: jsonQuote_def parseChars_quoted)

lemma parse_null: "0 < n \<Longrightarrow> parseValue n (''null'' @ r) = Some (JNull, r)"
  by (cases n) (simp_all add: startsWith_def startsAt_def)

lemma parse_bool: "0 < n \<Longrightarrow> parseValue n ((if b then ''true'' else ''false'') @ r) = Some (JBool b, r)"
  by (cases n) (simp_all add: startsWith_def startsAt_def)

lemma parse_number:
  assumes "0 < n" "endsValue r"
  shows "parseValue n (toStringRadix 10 (Num m) @ r) = Some (JNum (Num m), r)"
proof -
  let ?t = "toStringRadix 10 (Num m) @ r"
  obtain k where k: "n = Suc k" using assms(1) by (cases n) auto
  obtain c cs where c: "?t = c # cs" "\<not> isJsonSpace c" "c \<notin> {CHR 0x22, CHR ''['', CHR ''{'', CHR ''n'', CHR ''t'', CHR ''f''}"
  proof (cases "m < 0")
    case True
    then show thesis using that [of "CHR ''-''"] by simp
  next
    case False
    then have "?t = map digitChar (digitsOf 10 (nat m)) @ r" by simp
    then show thesis
      using that [of "hd ?t" "tl ?t"] digit_starts [of "nat m" r] digit_plain [of "nat m" r] by (auto simp: startsValue_def)
  qed
  have "parseValue n ?t = parseNumber ?t"
    unfolding k c(1) using c(2,3) by (simp add: startsWith_def startsAt_def)
  then show ?thesis using parseNumber_text [OF assms(2)] by simp
qed

lemma endsValue_chars [simp]: "endsValue (CHR '','' # r)" "endsValue (CHR '']'' # r)" "endsValue (CHR ''}'' # r)" "endsValue []"
  by (simp_all add: endsValue_def)

lemma starts_member: "startsValue (jsonQuote k @ t)"
  by (simp add: startsValue_def jsonQuote_def)

lemma join_starts: "startsValue x \<Longrightarrow> startsValue (jjoin sep (x # xs) @ r)"
  by (auto simp: jjoin_Cons startsValue_def)

lemma elements_start: "xs \<noteq> [] \<Longrightarrow> startsValue (jjoin '','' (jsonElements dt xs) @ r)"
proof (cases xs)
  case (Cons x ys)
  have "startsValue (case jsonText dt x of None \<Rightarrow> ''null'' | Some t \<Rightarrow> t)"
    using jsonText_starts [of dt x] by (simp add: startsValue_def split: option.split)
  then show ?thesis by (simp add: Cons join_starts del: jjoin.simps)
qed simp

lemma members_start: "jsonMembers dt fs \<noteq> [] \<Longrightarrow> startsValue (jjoin '','' (jsonMembers dt fs) @ r)"
proof (induction fs)
  case (Cons f fs)
  show ?case
  proof (cases "jsonText dt (snd f)")
    case None
    with Cons show ?thesis by (cases f) simp
  next
    case (Some t)
    then show ?thesis by (cases f) (simp add: join_starts starts_member del: jjoin.simps)
  qed
qed simp

text \<open>One element or member and what follows it.\<close>

lemma parse_one_element:
  assumes v: "\<And>r n. endsValue r \<Longrightarrow> 2 * length t \<le> n \<Longrightarrow> parseValue n (t @ r) = Some (v, r)"
    and more: "\<And>m. ts \<noteq> [] \<Longrightarrow> 2 * length (jjoin '','' ts) + 1 \<le> m \<Longrightarrow>
      parseElements m (jjoin '','' ts @ '']'' @ r) = Some (vs, r)"
    and last: "ts = [] \<Longrightarrow> vs = []" and fuel: "2 * length (jjoin '','' (t # ts)) + 1 \<le> n"
  shows "parseElements n (jjoin '','' (t # ts) @ '']'' @ r) = Some (v # vs, r)"
proof -
  obtain m where m: "n = Suc m" "2 * length (jjoin '','' (t # ts)) \<le> m" using fuel by (cases n) auto
  show ?thesis
  proof (cases "ts = []")
    case True
    then show ?thesis using v [of "CHR '']'' # r" m] last m by (simp add: jjoin_Cons)
  next
    case False
    then show ?thesis using v [of "CHR '','' # jjoin '','' ts @ '']'' @ r" m] more [of m] m by (simp add: jjoin_Cons)
  qed
qed

lemma parse_one_member:
  assumes v: "\<And>r n. endsValue r \<Longrightarrow> 2 * length t \<le> n \<Longrightarrow> parseValue n (t @ r) = Some (v, r)"
    and more: "\<And>m. ts \<noteq> [] \<Longrightarrow> 2 * length (jjoin '','' ts) + 1 \<le> m \<Longrightarrow>
      parseMembers m (jjoin '','' ts @ ''}'' @ r) = Some (vs, r)"
    and last: "ts = [] \<Longrightarrow> vs = []" and fuel: "2 * length (jjoin '','' ((jsonQuote k @ '':'' @ t) # ts)) + 1 \<le> n"
  shows "parseMembers n (jjoin '','' ((jsonQuote k @ '':'' @ t) # ts) @ ''}'' @ r) = Some ((k, v) # vs, r)"
proof -
  obtain m where m: "n = Suc m" "2 * length (jjoin '','' ((jsonQuote k @ '':'' @ t) # ts)) \<le> m" using fuel by (cases n) auto
  show ?thesis
  proof (cases "ts = []")
    case True
    then show ?thesis
      using v [of "CHR ''}'' # r" m] last m by (simp add: jjoin_Cons jsonQuote_def parseChars_quoted)
  next
    case False
    then show ?thesis
      using v [of "CHR '','' # jjoin '','' ts @ ''}'' @ r" m] more [of m] m by (simp add: jjoin_Cons jsonQuote_def parseChars_quoted)
  qed
qed

lemma parse_array:
  assumes "xs \<noteq> [] \<Longrightarrow> \<forall>m. 2 * length (jjoin '','' (jsonElements dt xs)) + 1 \<le> m \<longrightarrow>
      parseElements m (jjoin '','' (jsonElements dt xs) @ '']'' @ r) = Some (normalElements dt xs, r)"
    and "2 * length (''['' @ jjoin '','' (jsonElements dt xs) @ '']'') \<le> n"
  shows "parseValue n ((''['' @ jjoin '','' (jsonElements dt xs) @ '']'') @ r) = Some (JArr (normalElements dt xs), r)"
proof -
  obtain m where m: "n = Suc m" "2 * length (jjoin '','' (jsonElements dt xs)) + 1 \<le> m" using assms(2) by (cases n) auto
  show ?thesis
  proof (cases "xs = []")
    case False
    have s: "startsValue (jjoin '','' (jsonElements dt xs) @ '']'' @ r)" by (rule elements_start [OF False])
    then have "skipSpace (jjoin '','' (jsonElements dt xs) @ '']'' @ r) = jjoin '','' (jsonElements dt xs) @ '']'' @ r"
      using skipSpace_start [OF s, of "[]"] by simp
    with s show ?thesis using assms(1) [OF False] m by (simp add: startsValue_def)
  qed (simp add: m)
qed

lemma parse_object:
  assumes "jsonMembers dt fs \<noteq> [] \<Longrightarrow> \<forall>m. 2 * length (jjoin '','' (jsonMembers dt fs)) + 1 \<le> m \<longrightarrow>
      parseMembers m (jjoin '','' (jsonMembers dt fs) @ ''}'' @ r) = Some (normalMembers dt fs, r)"
    and "2 * length (''{'' @ jjoin '','' (jsonMembers dt fs) @ ''}'') \<le> n" "distinct (map fst fs)"
  shows "parseValue n ((''{'' @ jjoin '','' (jsonMembers dt fs) @ ''}'') @ r) = Some (JObj (normalMembers dt fs), r)"
proof -
  obtain m where m: "n = Suc m" "2 * length (jjoin '','' (jsonMembers dt fs)) + 1 \<le> m" using assms(2) by (cases n) auto
  show ?thesis
  proof (cases "jsonMembers dt fs = []")
    case False
    have s: "startsValue (jjoin '','' (jsonMembers dt fs) @ ''}'' @ r)" by (rule members_start [OF False])
    then have "skipSpace (jjoin '','' (jsonMembers dt fs) @ ''}'' @ r) = jjoin '','' (jsonMembers dt fs) @ ''}'' @ r"
      using skipSpace_start [OF s, of "[]"] by simp
    moreover have "fold (\<lambda>(k, v). AList.update k v) (normalMembers dt fs) [] = normalMembers dt fs"
      using fold_update_distinct [of "[]" "normalMembers dt fs"] normalMembers_distinct [OF assms(3)] by simp
    ultimately show ?thesis using s assms(1) [OF False] m by (simp add: startsValue_def)
  next
    case True
    then show ?thesis using members_empty [of dt fs] by (simp add: m)
  qed
qed

text \<open>The text of a value, followed by what may follow a value, parses to its normal form.\<close>

lemma parse_text:
  "jsonText dt v = Some t \<Longrightarrow> wfValue v \<Longrightarrow> endsValue r \<Longrightarrow> 2 * length t \<le> n \<Longrightarrow>
     \<exists>v'. jsonNormal dt v = Some v' \<and> parseValue n (t @ r) = Some (v', r)"
  "xs \<noteq> [] \<Longrightarrow> wfValues xs \<Longrightarrow> 2 * length (jjoin '','' (jsonElements dt xs)) + 1 \<le> n \<Longrightarrow>
     parseElements n (jjoin '','' (jsonElements dt xs) @ '']'' @ r) = Some (normalElements dt xs, r)"
  "jsonMembers dt fs \<noteq> [] \<Longrightarrow> wfFields fs \<Longrightarrow> 2 * length (jjoin '','' (jsonMembers dt fs)) + 1 \<le> n \<Longrightarrow>
     parseMembers n (jjoin '','' (jsonMembers dt fs) @ ''}'' @ r) = Some (normalMembers dt fs, r)"
proof (induction dt v and dt xs and dt fs arbitrary: t r n and r n and r n rule: jsonText_jsonElements_jsonMembers.induct)
  case (4 dt x)
  show ?case
  proof (cases x)
    case NaN
    with 4 show ?thesis using parse_null [of n r] by auto
  next
    case (Num m)
    have "t \<noteq> []" using jsonText_starts [OF 4(1)] by (simp add: startsValue_def)
    then have "0 < n" using 4(4) by (cases t) auto
    with 4 Num show ?thesis using parse_number [of n r m] by auto
  qed
next
  case (7 dt xs)
  then show ?case using parse_array [of xs dt r n] by auto
next
  case (8 dt fs)
  then show ?case using parse_object [of dt fs r n] by auto
next
  case (10 dt x xs)
  let ?t = "case jsonText dt x of None \<Rightarrow> ''null'' | Some t \<Rightarrow> t"
  let ?v = "case jsonNormal dt x of None \<Rightarrow> JNull | Some v \<Rightarrow> v"
  have "parseValue n (?t @ r) = Some (?v, r)" if "endsValue r" "2 * length ?t \<le> n" for r n
  proof (cases "jsonText dt x")
    case None
    then show ?thesis using that parse_null [of n r] text_normal [of dt x] by simp
  next
    case (Some t)
    then show ?thesis using 10(1) [OF Some _ that(1), of n] 10(4) that(2) by auto
  qed
  from parse_one_element [of ?t ?v "jsonElements dt xs", OF this] show ?case
    using 10(2) [of _ r] 10(4,5) by (simp del: jjoin.simps)
next
  case (12 dt k v fs)
  show ?case
  proof (cases "jsonText dt v")
    case None
    then show ?thesis using 12 text_normal [of dt v] by simp
  next
    case (Some t)
    obtain v' where v': "jsonNormal dt v = Some v'" using Some text_normal [of dt v] by (cases "jsonNormal dt v") auto
    have "parseValue n (t @ r) = Some (v', r)" if "endsValue r" "2 * length t \<le> n" for r n
      using 12 Some v' that by auto
    from parse_one_member [of t v' "jsonMembers dt fs", OF this] show ?thesis
      using 12 Some v' members_empty [of dt fs] by (simp del: jjoin.simps)
  qed
next
  case (2 dt)
  then show ?case using parse_null [of n r] by auto
next
  case (3 dt b)
  then show ?case using parse_bool [of n b r] by (cases b) auto
next
  case (5 dt s)
  then show ?case using parse_quoted [of n s r] by (auto simp: jsonQuote_def)
next
  case (6 dt d)
  then show ?case using parse_quoted [of n "dt d" r] by (auto simp: jsonQuote_def)
qed auto

theorem json_roundtrip:
  assumes "wfValue v" "jsonText dt v = Some t"
  shows "\<exists>v'. jsonNormal dt v = Some v' \<and> jsonParseText t = Inr v'"
  using parse_text(1) [OF assms(2,1), of "[]" "2 * length t + 1"] by (auto simp: jsonParseText_def skipSpace_def)

section \<open>The fuel is enough for every text\<close>

text \<open>A parser that answers with some fuel answers the same with the fuel that \<open>jsonParseText\<close> gives it.\<close>

lemma skipSpace_length: "length (skipSpace s) \<le> length s"
  by (simp add: skipSpace_def length_dropWhile_le)

lemma skipSpace_tail: "skipSpace s = c # cs \<Longrightarrow> length cs < length s"
  using skipSpace_length [of s] by simp

lemma skipSpace_tl: "skipSpace s \<noteq> [] \<Longrightarrow> length (tl (skipSpace s)) < length s"
  using skipSpace_length [of s] by (cases "skipSpace s") simp_all

lemma parseChars_shorter: "parseChars s = Some (x, r) \<Longrightarrow> length r < length s"
  by (induction s arbitrary: x r rule: parseChars.induct)
     (auto split: if_splits list.splits option.splits, fastforce+)

lemma parseNumber_shorter:
  assumes "parseNumber s = Some (v, r)"
  shows "length r < length s"
proof -
  let ?body = "if s \<noteq> [] \<and> hd s = CHR ''-'' then tl s else s"
  have h: "takeWhile (isDigit 10) ?body \<noteq> []" "r = dropWhile (isDigit 10) ?body"
    using assms by (auto simp: parseNumber_def Let_def split: if_splits)
  have "length (takeWhile (isDigit 10) ?body) + length r = length ?body"
    unfolding h(2) by (metis length_append takeWhile_dropWhile_id)
  moreover have "length ?body \<le> length s" by simp
  ultimately show ?thesis using h(1) by (cases "takeWhile (isDigit 10) ?body") auto
qed

lemma fuelE:
  assumes "\<And>m. k \<le> Suc m \<Longrightarrow> P (Suc m)" "0 < (k :: nat)"
  shows "\<forall>m. k \<le> m \<longrightarrow> P m"
  using assms by (metis Suc_pred less_le_trans)

lemma parse_fuel:
  "parseValue n s = Some (v, r) \<Longrightarrow> length r < length s \<and> (\<forall>m. 2 * length s \<le> m \<longrightarrow> parseValue m s = Some (v, r))"
  "parseElements n s = Some (vs, r) \<Longrightarrow> length r < length s \<and> (\<forall>m. 2 * length s + 1 \<le> m \<longrightarrow> parseElements m s = Some (vs, r))"
  "parseMembers n s = Some (ms, r) \<Longrightarrow> length r < length s \<and> (\<forall>m. 2 * length s + 1 \<le> m \<longrightarrow> parseMembers m s = Some (ms, r))"
proof (induction n s and n s and n s arbitrary: v r and vs r and ms r rule: parseValue_parseElements_parseMembers.induct)
  case (2 n s)
  obtain c cs where c: "skipSpace s = c # cs" using 2(3) by (cases "skipSpace s") auto
  have len: "length cs < length s" "0 < 2 * length s" using skipSpace_tail [OF c] by auto
  consider (arr) "c = CHR ''[''" "\<not> (skipSpace cs \<noteq> [] \<and> hd (skipSpace cs) = CHR '']'')"
    | (obj) "c = CHR ''{''" "\<not> (skipSpace cs \<noteq> [] \<and> hd (skipSpace cs) = CHR ''}'')"
    | (leaf) "c = CHR ''['' \<Longrightarrow> skipSpace cs \<noteq> [] \<and> hd (skipSpace cs) = CHR '']''"
        "c = CHR ''{'' \<Longrightarrow> skipSpace cs \<noteq> [] \<and> hd (skipSpace cs) = CHR ''}''" by blast
  then show ?case
  proof cases
    case arr
    then obtain vs where vs: "parseElements n cs = Some (vs, r)" "v = JArr vs" using 2(3) c by auto
    then have ih: "length r < length cs" "\<And>m. 2 * length cs + 1 \<le> m \<Longrightarrow> parseElements m cs = Some (vs, r)"
      using 2(1) [OF c _ _ arr(2), of vs r] arr by auto
    then show ?thesis using len arr c vs(2) by (intro conjI fuelE) auto
  next
    case obj
    then obtain ms where ms: "parseMembers n cs = Some (ms, r)" "v = JObj (fold (\<lambda>(k, v). AList.update k v) ms [])" using 2(3) c by auto
    then have ih: "length r < length cs" "\<And>m. 2 * length cs + 1 \<le> m \<Longrightarrow> parseMembers m cs = Some (ms, r)"
      using 2(2) [OF c _ _ _ obj(2), of ms r] obj by auto
    then show ?thesis using len obj c ms(2) by (intro conjI fuelE) auto
  next
    case leaf
    have same: "parseValue (Suc m) s = parseValue (Suc n) s" for m using leaf c by auto
    have "length r < Suc (length cs)"
      using 2(3) c leaf skipSpace_tl [of cs] parseChars_shorter [of cs] parseNumber_shorter [of "c # cs"]
      by (auto split: if_splits) 
    then show ?thesis using len same 2(3) by (intro conjI fuelE) auto
  qed
next
  case (4 n s)
  obtain v r1 where v: "parseValue n s = Some (v, r1)" using 4(3) by (cases "parseValue n s") auto
  note ih = 4(1) [OF v]
  obtain c r2 where c: "skipSpace r1 = c # r2" using 4(3) v by (cases "skipSpace r1") auto
  have len: "length r2 < length r1" "0 < 2 * length s + 1" using skipSpace_tail [OF c] by auto
  show ?case
  proof (cases "c = CHR '']''")
    case True
    then show ?thesis using 4(3) v c ih len by (intro conjI fuelE) auto
  next
    case False
    then obtain vs' where vs': "c = CHR '',''" "parseElements n r2 = Some (vs', r)" "vs = v # vs'"
      using 4(3) v c by (auto split: if_splits)
    have "length r < length r2" "\<And>m. 2 * length r2 + 1 \<le> m \<Longrightarrow> parseElements m r2 = Some (vs', r)"
      using 4(2) [OF v refl c False vs'(1,2)] by auto
    then show ?thesis using vs' v c ih len False by (intro conjI fuelE) auto
  qed
next
  case (6 n s)
  let ?s = "skipSpace s"
  have q: "?s \<noteq> []" "hd ?s = CHR 0x22" using 6(3) by (auto split: if_splits)
  obtain k r0 where k: "parseChars (tl ?s) = Some (k, r0)" using 6(3) q by (cases "parseChars (tl ?s)") auto
  let ?r = "skipSpace r0"
  have p: "?r \<noteq> []" "hd ?r = CHR '':''" using 6(3) q k by (auto split: if_splits)
  obtain v r1 where v: "parseValue n (tl ?r) = Some (v, r1)" using 6(3) q k p by (cases "parseValue n (tl ?r)") auto
  have guards: "\<not> (?s = [] \<or> hd ?s \<noteq> CHR 0x22)" "\<not> (?r = [] \<or> hd ?r \<noteq> CHR '':'')" using q p by auto
  note ih = 6(1) [OF guards(1) k refl guards(2) v]
  obtain c r2 where c: "skipSpace r1 = c # r2" using 6(3) q k p v by (cases "skipSpace r1") auto
  have len: "length r2 < length r1" "length (tl ?r) < length r0" "length r0 < length (tl ?s)" "length (tl ?s) < length s"
    using skipSpace_tail [OF c] skipSpace_tl [OF p(1)] parseChars_shorter [OF k] skipSpace_tl [OF q(1)] by auto
  have ih': "length r1 < length (tl ?r)" "\<And>m. 2 * length (tl ?r) \<le> m \<Longrightarrow> parseValue m (tl ?r) = Some (v, r1)" using ih by auto
  have step: "parseMembers (Suc m) s =
      (if c = CHR ''}'' then Some ([(k, v)], r2)
       else if c = CHR '','' then map_option (apfst (Cons (k, v))) (parseMembers m r2) else None)"
    if "2 * length s + 1 \<le> Suc m" for m
    using that len ih'(2) [of m] by (simp add: guards k c)
  show ?case
  proof (cases "c = CHR ''}''")
    case True
    then have "ms = [(k, v)]" "r = r2" using 6(3) q k p v c by auto
    then have "parseMembers (Suc m) s = Some (ms, r)" if "2 * length s + 1 \<le> Suc m" for m
      using step [OF that] True by simp
    moreover have "length r < length s" unfolding \<open>r = r2\<close> using len ih'(1) by linarith
    ultimately show ?thesis by (intro conjI fuelE) simp_all
  next
    case False
    then obtain ms' where ms': "c = CHR '',''" "parseMembers n r2 = Some (ms', r)" "ms = (k, v) # ms'"
      using 6(3) q k p v c by (auto split: if_splits)
    have "length r < length r2" "\<And>m. 2 * length r2 + 1 \<le> m \<Longrightarrow> parseMembers m r2 = Some (ms', r)"
      using 6(2) [OF guards(1) k refl guards(2) v refl c False ms'(1,2)] by auto
    then have "parseMembers (Suc m) s = Some (ms, r)" if "2 * length s + 1 \<le> Suc m" for m
      using step [OF that] that ms' len ih'(1) by simp
    moreover have "length r < length s" using \<open>length r < length r2\<close> len ih'(1) by linarith
    ultimately show ?thesis by (intro conjI fuelE) simp_all
  qed
qed auto

lemma json_fuel_enough: "parseValue n s = Some (v, r) \<Longrightarrow> parseValue (2 * length s + 1) s = Some (v, r)"
  using parse_fuel(1) [of n s v r] by (meson le_add1)

end
