(* ===== verification/Envelope.thy ===== *)
theory Envelope
  imports Mesh_Key Json_Text
begin

text \<open>
  Encrypted envelopes (\<open>packages/core/src/crypto/encryption.ts\<close> and \<open>compression.ts\<close>): a format
  tag, a nonce and an AES-GCM ciphertext, of the plaintext or of its compressed form when that is
  shorter. AES-GCM and DEFLATE are the runtime's: \<open>crypto_env\<close>
  holds them, and \<open>gcmLaws\<close> and \<open>deflateLaws\<close> state what is documented of them. AES-GCM is a
  function of key, nonce, additional data and plaintext, and its decryption recomputes the tag, so a
  ciphertext that decrypts is the encryption of what it decrypts to. A nonce is an argument.
  \<open>gcmUnforgeable\<close> is the stronger guarantee an authenticated cipher is documented with: nothing
  decrypts but what was encrypted, under the same key, nonce and additional data.
\<close>

section \<open>Text\<close>

text \<open>UTF-8 of a text of code units below 256.\<close>

definition textBytes :: "string \<Rightarrow> bytes" where
  "textBytes s = concat (map (\<lambda>c. let n = of_char c :: nat in
     if n < 128 then [word_of_nat n] else [word_of_nat (192 + n div 64), word_of_nat (128 + n mod 64)]) s)"

text \<open>
  The decoder: \<open>None\<close> stands for the text of bytes that are no UTF-8 of code units below 256, which the
  model does not have.
\<close>

fun bytesText :: "bytes \<Rightarrow> string option" where
  "bytesText [] = Some []"
| "bytesText (b # bs) =
     (if unat b < 128 then map_option (Cons (char_of (unat b))) (bytesText bs)
      else if unat b = 194 \<or> unat b = 195 then
        (case bs of
           [] \<Rightarrow> None
         | c # cs \<Rightarrow>
             if 128 \<le> unat c \<and> unat c < 192
             then map_option (Cons (char_of ((unat b - 192) * 64 + (unat c - 128)))) (bytesText cs)
             else None)
      else None)"

definition decodeText :: "bytes \<Rightarrow> string result" where
  "decodeText bs = (case bytesText bs of None \<Rightarrow> Inl (Error ''text outside the modelled range'') | Some s \<Rightarrow> Inr s)"

lemma bytesText_unit:
  "bytesText ((let n = of_char c :: nat in
     if n < 128 then [word_of_nat n] else [word_of_nat (192 + n div 64), word_of_nat (128 + n mod 64)]) @ bs)
   = map_option (Cons c) (bytesText bs)"
proof -
  let ?n = "of_char c :: nat"
  have n: "?n < 256" by (metis of_char_mod_256 mod_less_divisor zero_less_numeral)
  have w: "unat (word_of_nat m :: 8 word) = m" if "m < 256" for m
    using that by (simp add: unsigned_of_nat take_bit_nat_eq_self)
  show ?thesis
  proof (cases "?n < 128")
    case True
    then show ?thesis using w [of ?n] by (simp add: Let_def)
  next
    case False
    then have d: "?n div 64 = 2 \<or> ?n div 64 = 3" using n by linarith
    have "?n = ?n div 64 * 64 + ?n mod 64" by simp
    then have c: "char_of (?n div 64 * 64 + ?n mod 64) = c" by (metis char_of_char)
    have u: "unat (word_of_nat (192 + ?n div 64) :: 8 word) = 192 + ?n div 64"
      "unat (word_of_nat (128 + ?n mod 64) :: 8 word) = 128 + ?n mod 64"
      by (rule w, use d in linarith)+
    show ?thesis using False d c by (auto simp: Let_def u simp del: of_nat_add)
  qed
qed

lemma decode_text: "decodeText (textBytes s) = Inr s"
proof -
  have "bytesText (textBytes s) = Some s"
    by (induction s) (simp_all add: textBytes_def bytesText_unit del: bytesText.simps, simp)
  then show ?thesis by (simp add: decodeText_def)
qed

section \<open>Envelopes\<close>

record crypto_env =
  cyEncrypt :: "bytes \<Rightarrow> bytes \<Rightarrow> bytes \<Rightarrow> bytes \<Rightarrow> bytes"
  cyDecrypt :: "bytes \<Rightarrow> bytes \<Rightarrow> bytes \<Rightarrow> bytes \<Rightarrow> bytes result"
  cyDeflate :: "bytes \<Rightarrow> bytes"
  cyInflate :: "bytes \<Rightarrow> bytes result"

definition IV_LENGTH :: nat where "IV_LENGTH = 12"
definition PLAIN_FORMAT :: "8 word" where "PLAIN_FORMAT = 2"
definition DEFLATE_FORMAT :: "8 word" where "DEFLATE_FORMAT = 3"
definition MIN_ENVELOPE_LENGTH :: nat where "MIN_ENVELOPE_LENGTH = 1 + IV_LENGTH + 16"
definition JSON_ENVELOPE_VERSION :: int where "JSON_ENVELOPE_VERSION = 1"
definition MAX_INFLATED_BYTES :: nat where "MAX_INFLATED_BYTES = 256 * 1024 * 1024"

definition deflateRaw :: "crypto_env \<Rightarrow> bytes \<Rightarrow> bytes" where
  "deflateRaw cy bs = cyDeflate cy bs"

definition inflateRaw :: "crypto_env \<Rightarrow> bytes \<Rightarrow> bytes result" where
  "inflateRaw cy bs =
     (case cyInflate cy bs of
        Inl e \<Rightarrow> Inl (Error ''Compressed payload is malformed'')
      | Inr out \<Rightarrow>
          if length out > MAX_INFLATED_BYTES then Inl (Error ''Compressed payload is malformed: inflates past the limit'')
          else Inr out)"

text \<open>The tag and the text that is encrypted.\<close>

definition sealForm :: "crypto_env \<Rightarrow> bytes \<Rightarrow> 8 word \<times> bytes" where
  "sealForm cy plaintext =
     (let compressed = (if length plaintext \<le> MAX_INFLATED_BYTES then Some (deflateRaw cy plaintext) else None)
      in case compressed of
           None \<Rightarrow> (PLAIN_FORMAT, plaintext)
         | Some c \<Rightarrow> if length c < length plaintext then (DEFLATE_FORMAT, c) else (PLAIN_FORMAT, plaintext))"

definition sealEnvelope :: "crypto_env \<Rightarrow> bytes \<Rightarrow> bytes \<Rightarrow> bytes \<Rightarrow> bytes" where
  "sealEnvelope cy iv key plaintext =
     (let (format, payload) = sealForm cy plaintext in format # iv @ cyEncrypt cy key iv [format] payload)"

definition isJsonEnvelope :: "8 word \<Rightarrow> bool" where
  "isJsonEnvelope b = (b = 0x7b \<or> b = 0x20 \<or> b = 0x09 \<or> b = 0x0a \<or> b = 0x0d)"

definition openJsonEnvelope :: "crypto_env \<Rightarrow> bytes \<Rightarrow> bytes \<Rightarrow> bytes result" where
  "openJsonEnvelope cy key bs =
     bind_result (bind_result (decodeText bs) jsonParseText) (\<lambda>envelope.
       let fs = (case envelope of JObj fs \<Rightarrow> fs | _ \<Rightarrow> []) in
       if envelope = JNull then Inl (TypeError ''Cannot read properties of null'')
       else if jsonField fs ''v'' \<noteq> JNum (Num JSON_ENVELOPE_VERSION) then Inl (Error ''Unknown envelope version'')
       else
         (case (jsonField fs ''iv'', jsonField fs ''ct'') of
            (JStr iv64, JStr ct64) \<Rightarrow>
              bind_result (base64ToBytes iv64) (\<lambda>iv. bind_result (base64ToBytes ct64) (\<lambda>ct. cyDecrypt cy key iv [] ct))
          | _ \<Rightarrow> Inl (TypeError ''Envelope is malformed: iv and ct must be base64 strings'')))"

definition openEnvelope :: "crypto_env \<Rightarrow> bytes \<Rightarrow> bytes \<Rightarrow> bytes result" where
  "openEnvelope cy key bs =
     (case bs of
        [] \<Rightarrow> Inl (Error ''Envelope is empty'')
      | format # rest \<Rightarrow>
          if isJsonEnvelope format then openJsonEnvelope cy key bs
          else if format \<noteq> PLAIN_FORMAT \<and> format \<noteq> DEFLATE_FORMAT then Inl (Error ''Unknown envelope format'')
          else if length bs < MIN_ENVELOPE_LENGTH then Inl (Error ''Envelope is truncated'')
          else
            bind_result (cyDecrypt cy key (take IV_LENGTH rest) [format] (drop IV_LENGTH rest)) (\<lambda>plaintext.
              if format = DEFLATE_FORMAT then inflateRaw cy plaintext else Inr plaintext))"

definition encryptBytes :: "crypto_env \<Rightarrow> bytes \<Rightarrow> bytes \<Rightarrow> bytes \<Rightarrow> bytes" where
  "encryptBytes cy iv key plaintext = sealEnvelope cy iv key plaintext"

definition decryptBytes :: "crypto_env \<Rightarrow> bytes \<Rightarrow> bytes \<Rightarrow> bytes result" where
  "decryptBytes cy key envelope = openEnvelope cy key envelope"

text \<open>Decoding text never throws, so a sample verifies when it opens.\<close>

definition verifyKey :: "crypto_env \<Rightarrow> bytes \<Rightarrow> bytes \<Rightarrow> bool" where
  "verifyKey cy key sample = isOk (openEnvelope cy key sample)"

definition encryptEntry :: "crypto_env \<Rightarrow> bytes \<Rightarrow> bytes \<Rightarrow> string \<Rightarrow> bytes" where
  "encryptEntry cy iv key plaintext = sealEnvelope cy iv key (textBytes plaintext)"

definition decryptEntry :: "crypto_env \<Rightarrow> bytes \<Rightarrow> bytes \<Rightarrow> string result" where
  "decryptEntry cy key data = bind_result (openEnvelope cy key data) decodeText"

section \<open>What an envelope guarantees\<close>

definition gcmLaws :: "crypto_env \<Rightarrow> bool" where
  "gcmLaws cy \<longleftrightarrow> (\<forall>k iv aad p. cyDecrypt cy k iv aad (cyEncrypt cy k iv aad p) = Inr p)
     \<and> (\<forall>k iv aad p. length (cyEncrypt cy k iv aad p) = length p + 16)
     \<and> (\<forall>k iv aad c p. cyDecrypt cy k iv aad c = Inr p \<longrightarrow> c = cyEncrypt cy k iv aad p)"

definition deflateLaws :: "crypto_env \<Rightarrow> bool" where
  "deflateLaws cy \<longleftrightarrow> (\<forall>p. cyInflate cy (cyDeflate cy p) = Inr p)"

text \<open>An encryption that was made: key, nonce, additional data and plaintext.\<close>

type_synonym gcm_call = "bytes \<times> bytes \<times> bytes \<times> bytes"

definition gcmUnforgeable :: "crypto_env \<Rightarrow> gcm_call list \<Rightarrow> bool" where
  "gcmUnforgeable cy calls \<longleftrightarrow> (\<forall>k iv aad p. length (cyEncrypt cy k iv aad p) = length p + 16)
     \<and> (\<forall>k iv aad c p. cyDecrypt cy k iv aad c = Inr p
          \<longleftrightarrow> (k, iv, aad, p) \<in> set calls \<and> c = cyEncrypt cy k iv aad p)"

text \<open>The encryption made for an envelope that is sealed with a nonce and a key.\<close>

definition sealCall :: "crypto_env \<Rightarrow> bytes \<times> bytes \<times> bytes \<Rightarrow> gcm_call" where
  "sealCall cy = (\<lambda>(iv, key, plaintext). let (format, payload) = sealForm cy plaintext in (key, iv, [format], payload))"

lemma format_tags [simp]:
  "\<not> isJsonEnvelope PLAIN_FORMAT" "\<not> isJsonEnvelope DEFLATE_FORMAT" "PLAIN_FORMAT \<noteq> DEFLATE_FORMAT" "DEFLATE_FORMAT \<noteq> PLAIN_FORMAT"
  by (simp_all add: isJsonEnvelope_def PLAIN_FORMAT_def DEFLATE_FORMAT_def)

lemma sealForm_cases:
  assumes "deflateLaws cy" "sealForm cy plaintext = (format, payload)"
  shows "format = PLAIN_FORMAT \<and> payload = plaintext
    \<or> format = DEFLATE_FORMAT \<and> inflateRaw cy payload = Inr plaintext"
  using assms by (auto simp: sealForm_def inflateRaw_def deflateRaw_def deflateLaws_def Let_def split: if_splits)

lemma openEnvelope_tagged:
  assumes "format = PLAIN_FORMAT \<or> format = DEFLATE_FORMAT" and "length iv = IV_LENGTH" and "gcmLaws cy"
  shows "openEnvelope cy key (format # iv @ cyEncrypt cy key iv [format] p) =
    (if format = DEFLATE_FORMAT then inflateRaw cy p else Inr p)"
proof -
  have "length (cyEncrypt cy key iv [format] p) = length p + 16"
    and "cyDecrypt cy key iv [format] (cyEncrypt cy key iv [format] p) = Inr p"
    using assms(3) by (simp_all add: gcmLaws_def)
  then show ?thesis using assms(1,2) by (auto simp: openEnvelope_def MIN_ENVELOPE_LENGTH_def IV_LENGTH_def)
qed

lemma sealed_opens:
  assumes "gcmLaws cy" and "deflateLaws cy" and "length iv = IV_LENGTH"
  shows "decryptBytes cy key (encryptBytes cy iv key plaintext) = Inr plaintext"
proof -
  obtain format payload where f: "sealForm cy plaintext = (format, payload)" by fastforce
  from sealForm_cases [OF assms(2) f] show ?thesis
    using openEnvelope_tagged [OF _ assms(3,1)] by (auto simp: encryptBytes_def decryptBytes_def sealEnvelope_def f)
qed

text \<open>C22: What is sealed opens: for every key, nonce and plaintext of any length, opening the envelope under the same
  key gives the plaintext back, whether or not it was compressed.\<close>

theorem envelope_roundtrip:
  assumes "gcmLaws cy" and "deflateLaws cy" and "length iv = IV_LENGTH"
  shows "decryptBytes cy key (encryptBytes cy iv key plaintext) = Inr plaintext"
  using assms by (rule sealed_opens)

text \<open>A concrete cipher with the laws: the plaintext, then a tag that repeats the key's first byte and the additional data.\<close>

definition demoTag :: "bytes \<Rightarrow> bytes \<Rightarrow> bytes" where
  "demoTag k aad = take 16 (take 1 k @ take 1 aad @ replicate 16 0)"

definition demoCrypto :: crypto_env where
  "demoCrypto = \<lparr>cyEncrypt = (\<lambda>k iv aad p. p @ demoTag k aad),
     cyDecrypt = (\<lambda>k iv aad c. if length c \<ge> 16 \<and> drop (length c - 16) c = demoTag k aad
        then Inr (take (length c - 16) c) else Inl (Error ''OperationError'')),
     cyDeflate = (\<lambda>p. if p \<noteq> [] \<and> p = replicate (length p) 7 \<and> length p < 256 then [1, word_of_nat (length p)] else 0 # p),
     cyInflate = (\<lambda>c. case c of [] \<Rightarrow> Inl (Error ''empty'') | b # bs \<Rightarrow>
        if b = 1 then Inr (replicate (unat (hd bs)) 7) else Inr bs)\<rparr>"

lemma demoTag_length: "length (demoTag k aad) = 16"
  by (cases k; cases aad) (simp_all add: demoTag_def)

lemma demoCrypto_gcm: "gcmLaws demoCrypto"
proof -
  have "c = take (length c - 16) c @ demoTag k aad" if "drop (length c - 16) c = demoTag k aad" for c k aad
    using that by (metis append_take_drop_id)
  then show ?thesis by (auto simp: gcmLaws_def demoCrypto_def demoTag_length split: if_splits)
qed

lemma demoCrypto_deflate: "deflateLaws demoCrypto"
proof -
  have "unat (word_of_nat n :: 8 word) = n" if "n < 256" for n
    using that by (simp add: unsigned_of_nat take_bit_nat_eq_self)
  then show ?thesis by (auto simp: deflateLaws_def demoCrypto_def)
qed

theorem envelope_roundtrip_witness:
  "decryptBytes demoCrypto [5] (encryptBytes demoCrypto (replicate 12 0) [5] (replicate 9 7)) = Inr (replicate 9 7)
   \<and> hd (encryptBytes demoCrypto (replicate 12 0) [5] (replicate 9 7)) = DEFLATE_FORMAT"
proof -
  have "decryptBytes demoCrypto [5] (encryptBytes demoCrypto (replicate 12 0) [5] (replicate 9 7)) = Inr (replicate 9 7)"
    by (rule envelope_roundtrip) (simp_all add: demoCrypto_gcm demoCrypto_deflate IV_LENGTH_def)
  moreover have "hd (encryptBytes demoCrypto (replicate 12 0) [5] (replicate 9 7)) = DEFLATE_FORMAT"
    by (simp add: encryptBytes_def sealEnvelope_def sealForm_def demoCrypto_def deflateRaw_def MAX_INFLATED_BYTES_def Let_def)
  ultimately show ?thesis by simp
qed

text \<open>What a binary envelope that opens is made of.\<close>

lemma opened_binary:
  assumes opens: "decryptBytes cy key bs = Inr plaintext" and binary: "bs = [] \<or> \<not> isJsonEnvelope (hd bs)"
  obtains format iv c z where "bs = format # iv @ c" "length iv = IV_LENGTH"
    "format = PLAIN_FORMAT \<or> format = DEFLATE_FORMAT" "cyDecrypt cy key iv [format] c = Inr z"
    "(if format = DEFLATE_FORMAT then inflateRaw cy z else Inr z) = Inr plaintext"
proof -
  obtain format rest where bs: "bs = format # rest"
    using opens by (cases bs) (auto simp: decryptBytes_def openEnvelope_def)
  have tag: "format = PLAIN_FORMAT \<or> format = DEFLATE_FORMAT" and len: "\<not> length bs < MIN_ENVELOPE_LENGTH"
    using opens binary bs by (auto simp: decryptBytes_def openEnvelope_def split: if_splits)
  from opens binary bs tag len obtain z where
    z: "cyDecrypt cy key (take IV_LENGTH rest) [format] (drop IV_LENGTH rest) = Inr z" and
    p: "(if format = DEFLATE_FORMAT then inflateRaw cy z else Inr z) = Inr plaintext"
    by (auto simp: decryptBytes_def openEnvelope_def bind_result_Inr_iff split: if_splits)
  have "length (take IV_LENGTH rest) = IV_LENGTH" using len bs by (simp add: MIN_ENVELOPE_LENGTH_def)
  then show thesis using that [of format "take IV_LENGTH rest" "drop IV_LENGTH rest" z] bs tag z p by simp
qed

lemma opens_logged:
  assumes "gcmUnforgeable cy calls" "(key, iv, [format], payload) \<in> set calls" "length iv = IV_LENGTH"
    and "format = PLAIN_FORMAT \<or> format = DEFLATE_FORMAT"
  shows "decryptBytes cy key (format # iv @ cyEncrypt cy key iv [format] payload) =
    (if format = DEFLATE_FORMAT then inflateRaw cy payload else Inr payload)"
proof -
  have "length (cyEncrypt cy key iv [format] payload) = length payload + 16"
    and "cyDecrypt cy key iv [format] (cyEncrypt cy key iv [format] payload) = Inr payload"
    using assms(1,2) unfolding gcmUnforgeable_def by blast+
  then show ?thesis using assms(3,4) by (auto simp: decryptBytes_def openEnvelope_def MIN_ENVELOPE_LENGTH_def IV_LENGTH_def)
qed

lemma opens_iff_sealed:
  assumes gcm: "gcmUnforgeable cy (map (sealCall cy) seals @ others)" and deflate: "deflateLaws cy"
    and nonces: "\<forall>(iv, k, p) \<in> set seals. length iv = IV_LENGTH"
    and others: "\<forall>(k, iv, aad, p) \<in> set others. aad \<noteq> [PLAIN_FORMAT] \<and> aad \<noteq> [DEFLATE_FORMAT]"
    and binary: "bs = [] \<or> \<not> isJsonEnvelope (hd bs)"
  shows "decryptBytes cy key bs = Inr plaintext
    \<longleftrightarrow> (\<exists>iv. (iv, key, plaintext) \<in> set seals \<and> bs = encryptBytes cy iv key plaintext)"
proof
  assume "decryptBytes cy key bs = Inr plaintext"
  then obtain format iv c z where bs: "bs = format # iv @ c"
    and tag: "format = PLAIN_FORMAT \<or> format = DEFLATE_FORMAT" and z: "cyDecrypt cy key iv [format] c = Inr z"
    and p: "(if format = DEFLATE_FORMAT then inflateRaw cy z else Inr z) = Inr plaintext"
    using binary by (rule opened_binary)
  from gcm z have c: "c = cyEncrypt cy key iv [format] z" and call: "(key, iv, [format], z) \<in> set (map (sealCall cy) seals @ others)"
    unfolding gcmUnforgeable_def by blast+
  from call others tag obtain q where q: "(iv, key, q) \<in> set seals" "sealForm cy q = (format, z)"
    by (auto simp: sealCall_def split: prod.splits)
  from sealForm_cases [OF deflate q(2)] p have "q = plaintext" by auto
  then show "\<exists>iv. (iv, key, plaintext) \<in> set seals \<and> bs = encryptBytes cy iv key plaintext"
    using q bs c by (auto simp: encryptBytes_def sealEnvelope_def)
next
  assume "\<exists>iv. (iv, key, plaintext) \<in> set seals \<and> bs = encryptBytes cy iv key plaintext"
  then obtain iv where iv: "(iv, key, plaintext) \<in> set seals" "bs = encryptBytes cy iv key plaintext" by blast
  obtain format payload where f: "sealForm cy plaintext = (format, payload)" by fastforce
  have "(key, iv, [format], payload) \<in> set (map (sealCall cy) seals @ others)"
    using imageI [OF iv(1), of "sealCall cy"] by (simp add: sealCall_def f)
  moreover have "length iv = IV_LENGTH" using nonces iv(1) by auto
  ultimately show "decryptBytes cy key bs = Inr plaintext"
    using opens_logged [OF gcm] sealForm_cases [OF deflate f] iv(2) by (auto simp: encryptBytes_def sealEnvelope_def f)
qed

text \<open>C21: An envelope opens exactly when it was sealed. Let the cipher decrypt nothing but what was
  encrypted, and let the encryptions made be those of the envelopes sealed, each with a nonce of 12
  bytes, and any others whose additional data is no format byte (those of the old JSON envelope have
  none). Then bytes that are no JSON envelope open under a key to a plaintext exactly when they are the
  envelope that this key sealed for that plaintext: bytes with another format byte, nonce or ciphertext,
  or sealed under another key, are refused, and so is anything truncated or of an unknown format.\<close>

theorem envelope_authentic:
  assumes gcm: "gcmUnforgeable cy (map (sealCall cy) seals @ others)" and deflate: "deflateLaws cy"
    and nonces: "\<forall>(iv, k, p) \<in> set seals. length iv = IV_LENGTH"
    and others: "\<forall>(k, iv, aad, p) \<in> set others. aad \<noteq> [PLAIN_FORMAT] \<and> aad \<noteq> [DEFLATE_FORMAT]"
    and binary: "bs = [] \<or> \<not> isJsonEnvelope (hd bs)"
  shows "decryptBytes cy key bs = Inr plaintext
    \<longleftrightarrow> (\<exists>iv. (iv, key, plaintext) \<in> set seals \<and> bs = encryptBytes cy iv key plaintext)"
  by (rule opens_iff_sealed [OF assms])

text \<open>A concrete cipher with the guarantee: it remembers the encryptions made.\<close>

definition rememberingCrypto :: "gcm_call list \<Rightarrow> crypto_env" where
  "rememberingCrypto calls = demoCrypto\<lparr>cyDecrypt := (\<lambda>k iv aad c.
     if (k, iv, aad, take (length c - 16) c) \<in> set calls \<and> c = take (length c - 16) c @ demoTag k aad
     then Inr (take (length c - 16) c) else Inl (Error ''OperationError''))\<rparr>"

lemma rememberingCrypto_unforgeable: "gcmUnforgeable (rememberingCrypto calls) calls"
  by (auto simp: gcmUnforgeable_def rememberingCrypto_def demoCrypto_def demoTag_length)

definition demoLog :: "gcm_call list" where
  "demoLog = [([5], replicate 12 0, [PLAIN_FORMAT], [1, 2])]"

theorem envelope_authentic_witness:
  "let cy = rememberingCrypto demoLog; bs = encryptBytes cy (replicate 12 0) [5] [1, 2]
   in decryptBytes cy [5] bs = Inr [1, 2] \<and> \<not> isOk (decryptBytes cy [6] bs)
      \<and> \<not> isOk (decryptBytes cy [5] (DEFLATE_FORMAT # tl bs))"
proof -
  let ?cy = "rememberingCrypto demoLog" and ?seals = "[(replicate 12 0, [5], [1, 2])] :: (bytes \<times> bytes \<times> bytes) list"
  let ?bs = "encryptBytes ?cy (replicate 12 0) [5] [1, 2]"
  have form: "sealForm ?cy [1, 2] = (PLAIN_FORMAT, [1, 2])"
    by (simp add: sealForm_def rememberingCrypto_def demoCrypto_def deflateRaw_def MAX_INFLATED_BYTES_def Let_def)
  have log: "demoLog = map (sealCall ?cy) ?seals @ []" by (simp add: sealCall_def form) (simp add: demoLog_def)
  have gcm: "gcmUnforgeable ?cy (map (sealCall ?cy) ?seals @ [])"
    using rememberingCrypto_unforgeable [of demoLog] unfolding log [symmetric] .
  have deflate: "deflateLaws ?cy" using demoCrypto_deflate by (simp add: deflateLaws_def rememberingCrypto_def)
  have bs: "?bs = PLAIN_FORMAT # replicate 12 0 @ [1, 2] @ demoTag [5] [PLAIN_FORMAT]"
    by (simp add: encryptBytes_def sealEnvelope_def form) (simp add: rememberingCrypto_def demoCrypto_def)
  have exact: "decryptBytes ?cy key x = Inr p \<longleftrightarrow> (\<exists>iv. (iv, key, p) \<in> set ?seals \<and> x = encryptBytes ?cy iv key p)"
    if "x = ?bs \<or> x = DEFLATE_FORMAT # tl ?bs" for key x p
    by (rule envelope_authentic [OF gcm deflate]) (use that in \<open>auto simp: bs IV_LENGTH_def\<close>)
  have "DEFLATE_FORMAT # tl ?bs \<noteq> ?bs" by (simp add: bs)
  then show ?thesis
    using exact [of ?bs "[5]" "[1, 2]"] exact [of ?bs "[6]"] exact [of "DEFLATE_FORMAT # tl ?bs" "[5]"]
    by (cases "decryptBytes ?cy [6] ?bs"; cases "decryptBytes ?cy [5] (DEFLATE_FORMAT # tl ?bs)") (auto simp: Let_def)
qed

end
