(* ===== verification/Web_Credentials.thy ===== *)
theory Web_Credentials
  imports Identity_Safety Envelope Json_Text
begin

text \<open>
  Credential stores of the browser package (\<open>packages/web/src/credential-store.ts\<close>): in memory, in
  browser storage, and wrapped in an encrypted envelope. An item of browser storage is a JSON document or
  a nonempty text that does not parse; \<open>available\<close> says whether the context has such a storage. The salt and nonce of an
  envelope are arguments, AES-GCM is the cipher of \<open>crypto_env\<close>, and the key provider belongs to the
  application. The credentials inside an envelope are the bytes of their JSON text. WebAuthn custody is
  not modelled.
\<close>

section \<open>Plain stores\<close>

definition dropEmptyMesh :: "stored_credentials \<Rightarrow> stored_credentials" where
  "dropEmptyMesh sk = (if truthyStr (skMeshId sk) then sk else sk\<lparr>skMeshId := None\<rparr>)"

definition credsKey :: "string \<Rightarrow> string" where
  "credsKey dbName = ''interocitor-creds:'' @ dbName"

definition MemoryCredentialStore :: "string \<Rightarrow> (string \<times> stored_credentials) list credential_store" where
  "MemoryCredentialStore dbName =
     \<lparr>cstSave = (\<lambda>sk records. (AList.update (credsKey dbName) (dropEmptyMesh sk) records, Inr ())),
      cstLoad = (\<lambda>records. Inr (map_of records (credsKey dbName))),
      cstClear = (\<lambda>records. (AList.delete (credsKey dbName) records, Inr ())),
      cstLoadState = None\<rparr>"

definition normalizeStoredCredentials :: "jsval \<Rightarrow> stored_credentials option" where
  "normalizeStoredCredentials v =
     (case v of
        JObj fs \<Rightarrow>
          (case (map_of fs ''portableKey'', map_of fs ''deviceId'') of
             (Some (JStr k), Some (JStr d)) \<Rightarrow>
               Some \<lparr>skPortableKey = k, skDeviceId = d,
                     skMeshId = (case map_of fs ''meshId'' of Some (JStr m) \<Rightarrow> if m \<noteq> '''' then Some m else None | _ \<Rightarrow> None)\<rparr>
           | _ \<Rightarrow> None)
      | _ \<Rightarrow> None)"

definition credentialsValue :: "stored_credentials \<Rightarrow> jsval" where
  "credentialsValue sk =
     JObj ([(''portableKey'', JStr (skPortableKey sk)), (''deviceId'', JStr (skDeviceId sk))]
       @ (if truthyStr (skMeshId sk) then [(''meshId'', JStr (the (skMeshId sk)))] else []))"

datatype 'a item = Document 'a | Unparsable

definition BrowserStorageCredentialStore :: "bool \<Rightarrow> string \<Rightarrow> (string \<times> jsval item) list credential_store" where
  "BrowserStorageCredentialStore available dbName =
     \<lparr>cstSave = (\<lambda>sk items. (if available then AList.update (credsKey dbName) (Document (credentialsValue sk)) items else items, Inr ())),
      cstLoad = (\<lambda>items.
         if \<not> available then Inr None
         else
           (case map_of items (credsKey dbName) of
              None \<Rightarrow> Inr None
            | Some (Document v) \<Rightarrow> Inr (normalizeStoredCredentials v)
            | Some Unparsable \<Rightarrow> Inr None)),
      cstClear = (\<lambda>items. (if available then AList.delete (credsKey dbName) items else items, Inr ())),
      cstLoadState = None\<rparr>"

section \<open>Envelopes\<close>

record stored_envelope =
  seV :: int
  seAlg :: string
  seKdf :: "(string \<times> string) option"
  seKeyId :: "string option"
  seIv :: string
  seCiphertext :: string

record 'e envelope_store =
  esSave :: "stored_envelope \<Rightarrow> 'e \<Rightarrow> 'e \<times> unit result"
  esLoad :: "'e \<Rightarrow> stored_envelope option result"
  esClear :: "'e \<Rightarrow> 'e \<times> unit result"

definition CURRENT_CREDENTIAL_ENVELOPE_VERSION :: int where "CURRENT_CREDENTIAL_ENVELOPE_VERSION = 2"

definition envelopeKey :: "string \<Rightarrow> string" where
  "envelopeKey dbName = ''interocitor-creds-envelope:'' @ dbName"

definition MemoryCredentialEnvelopeStore :: "string \<Rightarrow> (string \<times> stored_envelope) list envelope_store" where
  "MemoryCredentialEnvelopeStore dbName =
     \<lparr>esSave = (\<lambda>e records. (AList.update (envelopeKey dbName) e records, Inr ())),
      esLoad = (\<lambda>records. Inr (map_of records (envelopeKey dbName))),
      esClear = (\<lambda>records. (AList.delete (envelopeKey dbName) records, Inr ()))\<rparr>"

definition BrowserCredentialEnvelopeStore :: "bool \<Rightarrow> string \<Rightarrow> (string \<times> stored_envelope item) list envelope_store" where
  "BrowserCredentialEnvelopeStore available dbName =
     \<lparr>esSave = (\<lambda>e items. (if available then AList.update (envelopeKey dbName) (Document e) items else items, Inr ())),
      esLoad = (\<lambda>items.
         if \<not> available then Inr None
         else
           (case map_of items (envelopeKey dbName) of
              None \<Rightarrow> Inr None
            | Some Unparsable \<Rightarrow> Inl (Error ''SyntaxError'')
            | Some (Document e) \<Rightarrow>
                if seAlg e \<noteq> ''AES-GCM'' then Inr None
                else if seV e = 1 \<or> seV e = 2 then Inr (Some e) else Inr None)),
      esClear = (\<lambda>items. (if available then AList.delete (envelopeKey dbName) items else items, Inr ()))\<rparr>"

datatype key_purpose = Encrypt | Decrypt

record key_request =
  krPurpose :: key_purpose
  krDbName :: string
  krSalt :: bytes
  krKeyId :: string

record key_provider =
  kpEnvelopeKeyId :: "string option"
  kpGetKey :: "key_request \<Rightarrow> bytes result"
  kpDeriveKey :: "(key_request \<Rightarrow> bytes result) option"
  kpClear :: "unit result"

text \<open>\<open>encoder.encode(JSON.stringify(payload))\<close> and \<open>JSON.parse(decoder.decode(plaintext))\<close>.\<close>

definition credentialBytes :: "stored_credentials \<Rightarrow> bytes" where
  "credentialBytes sk = textBytes (case jsonText (\<lambda>_. '''') (credentialsValue sk) of None \<Rightarrow> '''' | Some t \<Rightarrow> t)"

definition parseCredentialBytes :: "bytes \<Rightarrow> jsval result" where
  "parseCredentialBytes bs = bind_result (decodeText bs) jsonParseText"

fun isCredentialAccessError :: "js_error \<Rightarrow> bool" where
  "isCredentialAccessError (CredentialAccessError _ _) = True"
| "isCredentialAccessError _ = False"

definition keyIdOf :: "key_provider \<Rightarrow> string" where
  "keyIdOf kp = (case kpEnvelopeKeyId kp of None \<Rightarrow> ''custom'' | Some i \<Rightarrow> i)"

definition envelopeAad :: "string \<Rightarrow> string \<Rightarrow> string \<Rightarrow> bytes" where
  "envelopeAad dbName keyId salt = textBytes (''interocitor.credential.envelope.v2|'' @ dbName @ ''|'' @ keyId @ ''|'' @ salt)"

definition requireKey :: "string \<Rightarrow> key_provider \<Rightarrow> key_request \<Rightarrow> bool \<Rightarrow> bytes result" where
  "requireKey dbName kp req derive =
     (case (case (derive, kpDeriveKey kp) of (True, Some f) \<Rightarrow> f req | _ \<Rightarrow> kpGetKey kp req) of
        Inr key \<Rightarrow> Inr key
      | Inl e \<Rightarrow> if isCredentialAccessError e then Inl e else Inl (CredentialAccessError Unavailable dbName))"

definition envelopeSave ::
  "crypto_env \<Rightarrow> bytes \<Rightarrow> bytes \<Rightarrow> string \<Rightarrow> 'e envelope_store \<Rightarrow> key_provider \<Rightarrow> stored_credentials \<Rightarrow> 'e \<Rightarrow> 'e \<times> unit result"
where
  "envelopeSave cy salt iv dbName es kp creds e =
     (let keyId = keyIdOf kp;
          derive = (case kpDeriveKey kp of None \<Rightarrow> False | Some _ \<Rightarrow> True);
          saltText = (if derive then bytesToBase64 salt else '''')
      in case requireKey dbName kp \<lparr>krPurpose = Encrypt, krDbName = dbName, krSalt = salt, krKeyId = keyId\<rparr> derive of
           Inl err \<Rightarrow> (e, Inl err)
         | Inr key \<Rightarrow>
             esSave es
               \<lparr>seV = CURRENT_CREDENTIAL_ENVELOPE_VERSION, seAlg = ''AES-GCM'',
                seKdf = (if derive then Some (''HKDF-SHA-256'', saltText) else None), seKeyId = Some keyId,
                seIv = bytesToBase64 iv,
                seCiphertext = bytesToBase64 (cyEncrypt cy key iv (envelopeAad dbName keyId saltText) (credentialBytes (dropEmptyMesh creds)))\<rparr> e)"

definition unreadable :: "string \<Rightarrow> 'a result \<Rightarrow> 'a result" where
  "unreadable dbName r = (case r of Inr x \<Rightarrow> Inr x | Inl _ \<Rightarrow> Inl (CredentialAccessError Unreadable dbName))"

definition decryptV1 :: "crypto_env \<Rightarrow> string \<Rightarrow> key_provider \<Rightarrow> stored_envelope \<Rightarrow> bytes result" where
  "decryptV1 cy dbName kp env =
     bind_result (requireKey dbName kp \<lparr>krPurpose = Decrypt, krDbName = dbName, krSalt = [], krKeyId = keyIdOf kp\<rparr> False) (\<lambda>key.
       unreadable dbName (bind_result (base64ToBytes (seIv env)) (\<lambda>iv.
         bind_result (base64ToBytes (seCiphertext env)) (\<lambda>ct. cyDecrypt cy key iv [] ct))))"

definition decryptV2 :: "crypto_env \<Rightarrow> string \<Rightarrow> key_provider \<Rightarrow> stored_envelope \<Rightarrow> bytes result" where
  "decryptV2 cy dbName kp env =
     (let derive = (case seKdf env of None \<Rightarrow> False | Some _ \<Rightarrow> True);
          saltText = (case seKdf env of None \<Rightarrow> '''' | Some (_, s) \<Rightarrow> s);
          keyId = (case seKeyId env of None \<Rightarrow> ''custom'' | Some i \<Rightarrow> i)
      in if (case seKdf env of None \<Rightarrow> False | Some (name, _) \<Rightarrow> name \<noteq> ''HKDF-SHA-256'') then Inl (CredentialAccessError Unreadable dbName)
         else if derive \<and> (case kpDeriveKey kp of None \<Rightarrow> True | Some _ \<Rightarrow> False) then Inl (CredentialAccessError Unreadable dbName)
         else
           bind_result (if saltText \<noteq> '''' then base64ToBytes saltText else Inr []) (\<lambda>salt.
             bind_result (requireKey dbName kp \<lparr>krPurpose = Decrypt, krDbName = dbName, krSalt = salt, krKeyId = keyId\<rparr> derive) (\<lambda>key.
               unreadable dbName (bind_result (base64ToBytes (seIv env)) (\<lambda>iv.
                 bind_result (base64ToBytes (seCiphertext env)) (\<lambda>ct.
                   cyDecrypt cy key iv (envelopeAad dbName keyId saltText) ct))))))"

definition envelopeLoad ::
  "crypto_env \<Rightarrow> string \<Rightarrow> 'e envelope_store \<Rightarrow> key_provider \<Rightarrow> 'e \<Rightarrow> stored_credentials option result"
where
  "envelopeLoad cy dbName es kp e =
     bind_result (esLoad es e) (\<lambda>found.
       case found of
         None \<Rightarrow> Inr None
       | Some env \<Rightarrow>
           bind_result (if seV env = 1 then decryptV1 cy dbName kp env else decryptV2 cy dbName kp env) (\<lambda>plaintext.
             unreadable dbName (bind_result (parseCredentialBytes plaintext) (\<lambda>v. Inr (normalizeStoredCredentials v)))))"

definition envelopeClear :: "'e envelope_store \<Rightarrow> key_provider \<Rightarrow> 'e \<Rightarrow> 'e \<times> unit result" where
  "envelopeClear es kp e = (case esClear es e of (e1, Inl err) \<Rightarrow> (e1, Inl err) | (e1, Inr _) \<Rightarrow> (e1, kpClear kp))"

definition EnvelopedCredentialStore ::
  "crypto_env \<Rightarrow> bytes \<Rightarrow> bytes \<Rightarrow> string \<Rightarrow> 'e envelope_store \<Rightarrow> key_provider \<Rightarrow> 'e credential_store"
where
  "EnvelopedCredentialStore cy salt iv dbName es kp =
     \<lparr>cstSave = envelopeSave cy salt iv dbName es kp, cstLoad = envelopeLoad cy dbName es kp,
      cstClear = envelopeClear es kp, cstLoadState = None\<rparr>"

section \<open>The stores keep credentials\<close>

definition onlyUsable :: "stored_credentials option \<Rightarrow> stored_credentials option" where
  "onlyUsable c = (if usable c then c else None)"

lemma legacy_read:
  "cstLoadState st = None \<Longrightarrow> cstLoad st c = Inr r \<Longrightarrow> readCredentialState (Some st) db c = Inr (onlyUsable r)"
  by (simp add: readCredentialState_def onlyUsable_def)

lemma onlyUsable_saved: "skPortableKey sk \<noteq> '''' \<Longrightarrow> onlyUsable (Some sk) = Some sk"
  by (simp add: onlyUsable_def usable_def)

lemma dropEmptyMesh_id: "skMeshId sk \<noteq> Some '''' \<Longrightarrow> dropEmptyMesh sk = sk"
  by (cases "skMeshId sk") (auto simp: dropEmptyMesh_def truthyStr_def)

lemma normalize_value: "skMeshId sk \<noteq> Some '''' \<Longrightarrow> normalizeStoredCredentials (credentialsValue sk) = Some sk"
  by (cases "skMeshId sk") (auto simp: normalizeStoredCredentials_def credentialsValue_def truthyStr_def)

interpretation memory_credentials: keeps_credentials "MemoryCredentialStore dbName" "\<lambda>records. onlyUsable (map_of records (credsKey dbName))"
  by unfold_locales
    (auto simp: MemoryCredentialStore_def readCredentialState_def onlyUsable_def usable_def dropEmptyMesh_id split: option.splits if_splits)

definition browserRecord :: "string \<Rightarrow> (string \<times> jsval item) list \<Rightarrow> stored_credentials option" where
  "browserRecord dbName items =
     (case map_of items (credsKey dbName) of Some (Document v) \<Rightarrow> onlyUsable (normalizeStoredCredentials v) | _ \<Rightarrow> None)"

interpretation browser_credentials: keeps_credentials "BrowserStorageCredentialStore True dbName" "browserRecord dbName"
  by unfold_locales
    (auto simp: BrowserStorageCredentialStore_def readCredentialState_def browserRecord_def onlyUsable_def usable_def normalize_value
      split: option.splits if_splits item.splits)

section \<open>Envelopes keep credentials\<close>

definition steadyProvider :: "key_provider \<Rightarrow> string \<Rightarrow> bytes \<Rightarrow> bool" where
  "steadyProvider kp dbName salt \<longleftrightarrow>
     (case kpDeriveKey kp of
        Some f \<Rightarrow> f \<lparr>krPurpose = Decrypt, krDbName = dbName, krSalt = salt, krKeyId = keyIdOf kp\<rparr>
                = f \<lparr>krPurpose = Encrypt, krDbName = dbName, krSalt = salt, krKeyId = keyIdOf kp\<rparr>
      | None \<Rightarrow> kpGetKey kp \<lparr>krPurpose = Decrypt, krDbName = dbName, krSalt = [], krKeyId = keyIdOf kp\<rparr>
              = kpGetKey kp \<lparr>krPurpose = Encrypt, krDbName = dbName, krSalt = salt, krKeyId = keyIdOf kp\<rparr>)"

lemma credentials_text: "parseCredentialBytes (credentialBytes sk) = Inr (credentialsValue sk)"
proof -
  have "wfValue (credentialsValue sk)" by (simp add: credentialsValue_def)
  moreover obtain t where t: "jsonText (\<lambda>_. '''') (credentialsValue sk) = Some t" by (simp add: credentialsValue_def)
  moreover have "jsonNormal (\<lambda>_. '''') (credentialsValue sk) = Some (credentialsValue sk)" by (simp add: credentialsValue_def)
  ultimately show ?thesis
    using json_roundtrip [of "credentialsValue sk" "\<lambda>_. ''''" t] by (simp add: parseCredentialBytes_def credentialBytes_def decode_text)
qed

lemma base64_roundtrip: "base64ToBytes (bytesToBase64 bs) = Inr bs"
  by (simp add: bytesToBase64_plain base64_decodes)

lemma bytesToBase64_empty: "bytesToBase64 bs = '''' \<longleftrightarrow> bs = []"
  by (cases bs rule: sextets.cases) (auto simp: bytesToBase64_def padding_def)

text \<open>C40: Credentials wrapped in an envelope come back: after a save through the envelope store over browser storage, a load
  under the same database name gives the saved record, as JSON text, encrypted and in base64, whatever the storage
  held before, for a provider that answers the same key for reading as for writing, whether it derives keys from the
  stored salt or holds one, and for a record whose mesh id is missing or not empty.\<close>

theorem credential_envelope_roundtrip:
  assumes gcm: "gcmLaws cy" and steady: "steadyProvider kp dbName salt"
    and mesh: "skMeshId creds \<noteq> Some ''''"
    and saved: "envelopeSave cy salt iv dbName (BrowserCredentialEnvelopeStore True dbName) kp creds items = (items', Inr ())"
  shows "envelopeLoad cy dbName (BrowserCredentialEnvelopeStore True dbName) kp items' = Inr (Some creds)"
proof -
  let ?derive = "case kpDeriveKey kp of None \<Rightarrow> False | Some _ \<Rightarrow> True"
  let ?salt = "if ?derive then bytesToBase64 salt else ''''"
  let ?req = "\<lparr>krPurpose = Encrypt, krDbName = dbName, krSalt = salt, krKeyId = keyIdOf kp\<rparr>"
  obtain key where key: "requireKey dbName kp ?req ?derive = Inr key"
    using saved by (cases "requireKey dbName kp ?req ?derive") (simp_all add: envelopeSave_def Let_def)
  define env where "env = \<lparr>seV = 2, seAlg = ''AES-GCM'', seKdf = (if ?derive then Some (''HKDF-SHA-256'', ?salt) else None),
    seKeyId = Some (keyIdOf kp), seIv = bytesToBase64 iv,
    seCiphertext = bytesToBase64 (cyEncrypt cy key iv (envelopeAad dbName (keyIdOf kp) ?salt) (credentialBytes creds))\<rparr>"
  have load: "esLoad (BrowserCredentialEnvelopeStore True dbName) items' = Inr (Some env)"
    using saved key mesh
    by (auto simp: envelopeSave_def Let_def BrowserCredentialEnvelopeStore_def env_def CURRENT_CREDENTIAL_ENVELOPE_VERSION_def dropEmptyMesh_id)
  have dec: "cyDecrypt cy key iv aad (cyEncrypt cy key iv aad p) = Inr p" for aad p using gcm by (simp add: gcmLaws_def)
  have "decryptV2 cy dbName kp env = Inr (credentialBytes creds)"
  proof (cases "kpDeriveKey kp")
    case None
    then have "requireKey dbName kp \<lparr>krPurpose = Decrypt, krDbName = dbName, krSalt = [], krKeyId = keyIdOf kp\<rparr> False = Inr key"
      using key steady by (simp add: requireKey_def steadyProvider_def)
    with None show ?thesis
      by (simp add: decryptV2_def env_def Let_def base64_roundtrip unreadable_def dec)
  next
    case (Some f)
    then have "requireKey dbName kp \<lparr>krPurpose = Decrypt, krDbName = dbName, krSalt = salt, krKeyId = keyIdOf kp\<rparr> True = Inr key"
      using key steady by (simp add: requireKey_def steadyProvider_def)
    with Some show ?thesis
      by (cases "salt = []") (simp_all add: decryptV2_def env_def Let_def base64_roundtrip unreadable_def dec bytesToBase64_empty)
  qed
  moreover have "seV env \<noteq> 1" by (simp add: env_def)
  ultimately show ?thesis
    using load mesh by (simp add: envelopeLoad_def unreadable_def credentials_text normalize_value)
qed

definition demoCreds :: stored_credentials where
  "demoCreds = \<lparr>skPortableKey = ''k'', skDeviceId = ''d'', skMeshId = Some ''m''\<rparr>"

definition demoProvider :: key_provider where
  "demoProvider = \<lparr>kpEnvelopeKeyId = Some ''static'', kpGetKey = (\<lambda>_. Inr [9]), kpDeriveKey = Some (\<lambda>req. Inr (9 # krSalt req)), kpClear = Inr ()\<rparr>"

theorem credential_envelope_roundtrip_witness:
  "envelopeLoad demoCrypto ''db'' (BrowserCredentialEnvelopeStore True ''db'') demoProvider
     (fst (envelopeSave demoCrypto [1, 2] [3] ''db'' (BrowserCredentialEnvelopeStore True ''db'') demoProvider demoCreds []))
   = Inr (Some demoCreds)"
proof (rule credential_envelope_roundtrip)
  show "envelopeSave demoCrypto [1, 2] [3] ''db'' (BrowserCredentialEnvelopeStore True ''db'') demoProvider demoCreds [] =
     (fst (envelopeSave demoCrypto [1, 2] [3] ''db'' (BrowserCredentialEnvelopeStore True ''db'') demoProvider demoCreds []), Inr ())"
    by (simp add: envelopeSave_def Let_def demoProvider_def requireKey_def BrowserCredentialEnvelopeStore_def)
  show "steadyProvider demoProvider ''db'' [1, 2]" by (simp add: steadyProvider_def demoProvider_def)
qed (simp_all add: demoCrypto_gcm demoCreds_def)

section \<open>The mesh key after initialization\<close>


definition demoIdentityConfig :: "string \<Rightarrow> 'c credential_store \<Rightarrow> initial_state option \<Rightarrow> 'c source_state identity_config" where
  "demoIdentityConfig dbName st state =
     \<lparr>icDbName = dbName, icReaderMode = False, icSchemaVersion = None,
      icKeySource = Some (PortablePassphraseKeySource True (Some st)), icInitialState = Inr state\<rparr>"

definition newIdentity :: "string \<Rightarrow> 'c \<Rightarrow> 'c source_state identity" where
  "newIdentity deviceId c =
     \<lparr>idDeviceId = deviceId, idDeviceIdConfigured = True, idHlc = hlcInit 0 deviceId, idRemotePath = Some ''/m'', idEncrypted = True,
      idPassphrase = None, idKey = None, idMeshId = None, idLocal = newMemoryStore,
      idSource = \<lparr>srPortableKey = None, srStore = c\<rparr>, idInitialized = False, idConnected = False, idEvents = []\<rparr>"

abbreviation demoKey :: bytes where
  "demoKey \<equiv> replicate 32 1"

lemma demoKey_length: "length demoKey = KEY_BYTES"
  by (simp add: KEY_BYTES_def)

lemma memory_empty_init:
  "\<exists>s' sk. doInit (demoIdentityConfig ''db'' (MemoryCredentialStore ''db'') state) fresh (newIdentity d []) = (s', Inr ())
     \<and> idEncrypted s' \<and> idPassphrase s' = Some (base58Encode fresh) \<and> idKey s' = Some fresh
     \<and> skPortableKey sk = base58Encode fresh
     \<and> srStore (idSource s') = fst (cstSave (MemoryCredentialStore ''db'') sk (srStore (idSource (newIdentity d []))))"
  if "length fresh = KEY_BYTES" "idEncrypted (applyInitialState state (newIdentity d ([] :: (string \<times> stored_credentials) list)))"
proof (rule init_generates)
  show "icInitialState (demoIdentityConfig ''db'' (MemoryCredentialStore ''db'') state) = Inr state" by (simp add: demoIdentityConfig_def)
qed (use that in \<open>simp_all add: demoIdentityConfig_def newIdentity_def cachedKey_def readCredentialState_def MemoryCredentialStore_def usable_def\<close>)


text \<open>Engines that share a credential store agree on the mesh key: an engine that initializes after another one, on the
  store the first one left and without a key of its own, ends with the same key, whatever it would have generated.\<close>

theorem siblings_share_key:
  assumes store: "keeps_credentials st stored"
    and cfg: "icKeySource cfg = Some (PortablePassphraseKeySource gen (Some st))" "\<not> icReaderMode cfg"
    and first: "doInit cfg fresh s = (s', Inr ())" "idEncrypted s'" "length fresh = KEY_BYTES"
    and cfg2: "icKeySource cfg2 = Some (PortablePassphraseKeySource gen2 (Some st))" "\<not> icReaderMode cfg2"
    and second: "doInit cfg2 fresh2 t = (t', Inr ())" "idEncrypted t'" "length fresh2 = KEY_BYTES"
    and shared: "srStore (idSource t) = srStore (idSource s')" "cachedKey (idSource t) = None"
  shows "idPassphrase t' = idPassphrase s' \<and> idKey t' = idKey s'"
proof -
  have "keeps_credentials.usesStore st gen cfg" "keeps_credentials.usesStore st gen2 cfg2"
    using cfg cfg2 by (simp_all add: keeps_credentials.usesStore_def [OF store])
  then show ?thesis using keeps_credentials.inits_agree [OF store _ first _ second shared] by blast
qed

lemma memory_second_init:
  assumes sk: "skPortableKey sk = base58Encode demoKey"
  shows "\<exists>t'. doInit (demoIdentityConfig ''db'' (MemoryCredentialStore ''db'') None) (replicate 32 2) (newIdentity ''tab2'' [(credsKey ''db'', sk)]) = (t', Inr ())
     \<and> idEncrypted t'"
proof -
  have "base58Encode demoKey \<noteq> ''''" by (rule fresh_key_nonempty [OF demoKey_length])
  moreover have "passphraseToKey (base58Encode demoKey) = Inr demoKey" by (rule fresh_key_parses [OF demoKey_length])
  moreover have "localMeshId (newIdentity ''tab2'' [(credsKey ''db'', sk)]) = ''''"
    by (simp add: localMeshId_def newIdentity_def newMemoryStore_def storeGetMeta_def)
  ultimately show ?thesis using sk
    by (simp add: doInit_def settleIdentity_def andThen_def Let_def demoIdentityConfig_def newIdentity_def applyInitialState_def
        restoreDeviceIdFromLocalStore_def resolveEncryption_def PortablePassphraseKeySource_def passphraseLoad_def cachedKey_def
        readCredentialState_def MemoryCredentialStore_def usable_def truthyStr_def adoptKeyMaterial_def restoreCredentials_def
        loadPersistedCredentials_def persistenceOf_def sourceLoadPersisted_def restoreStored_def emitId_def setDeviceId_def
        persistCredentials_def anchorMeshId_def sourcePersist_def persistDeviceIdToLocalStore_def restoreClock_def localMeshId_def
        newMemoryStore_def storeGetMeta_def storeSetMeta_def split: option.splits)
qed

theorem siblings_share_key_witness:
  "\<exists>s' t'. doInit (demoIdentityConfig ''db'' (MemoryCredentialStore ''db'') None) demoKey (newIdentity ''dev'' []) = (s', Inr ())
     \<and> doInit (demoIdentityConfig ''db'' (MemoryCredentialStore ''db'') None) (replicate 32 2) (newIdentity ''tab2'' (srStore (idSource s'))) = (t', Inr ())
     \<and> idKey t' = Some demoKey"
proof -
  let ?cfg = "demoIdentityConfig ''db'' (MemoryCredentialStore ''db'') None"
  let ?s = "newIdentity ''dev'' ([] :: (string \<times> stored_credentials) list)"
  have enc: "idEncrypted (applyInitialState None ?s)" by (simp add: applyInitialState_def newIdentity_def)
  obtain s' sk where s': "doInit ?cfg demoKey ?s = (s', Inr ())" "idKey s' = Some demoKey" "idEncrypted s'"
      "skPortableKey sk = base58Encode demoKey" "srStore (idSource s') = fst (cstSave (MemoryCredentialStore ''db'') sk (srStore (idSource ?s)))"
    using memory_empty_init [OF demoKey_length enc] by blast
  have store: "srStore (idSource s') = [(credsKey ''db'', dropEmptyMesh sk)]"
    using s'(5) by (simp add: MemoryCredentialStore_def newIdentity_def)
  have "skPortableKey (dropEmptyMesh sk) = base58Encode demoKey" using s'(4) by (simp add: dropEmptyMesh_def)
  then obtain t' where t': "doInit ?cfg (replicate 32 2) (newIdentity ''tab2'' (srStore (idSource s'))) = (t', Inr ())" "idEncrypted t'"
    using memory_second_init store by metis
  have ks: "icKeySource ?cfg = Some (PortablePassphraseKeySource True (Some (MemoryCredentialStore ''db'')))" "\<not> icReaderMode ?cfg"
    by (simp_all add: demoIdentityConfig_def)
  have "idPassphrase t' = idPassphrase s' \<and> idKey t' = idKey s'"
    by (rule siblings_share_key [OF memory_credentials.keeps_credentials_axioms ks s'(1,3) demoKey_length ks t'])
      (simp_all add: KEY_BYTES_def newIdentity_def cachedKey_def)
  with s' t' show ?thesis by auto
qed











text \<open>A passphrase that is configured for a mesh (by \<open>configureMesh\<close> or \<open>resolveInitialState\<close>) has no effect on a new
  device: with an empty credential store, initialization generates a fresh key and stores it, whatever the
  passphrase was.\<close>

theorem configured_passphrase_ignored:
  "\<exists>s'. doInit (demoIdentityConfig ''db'' (MemoryCredentialStore ''db'')
        (Some \<lparr>inRemotePath = None, inPassphrase = Some (Some passphrase), inEncrypted = None, inDeviceId = None\<rparr>))
      demoKey (newIdentity ''dev'' []) = (s', Inr ())
    \<and> idKey s' = Some demoKey \<and> idPassphrase s' = Some (base58Encode demoKey)"
proof -
  let ?state = "Some \<lparr>inRemotePath = None, inPassphrase = Some (Some passphrase), inEncrypted = None, inDeviceId = None\<rparr>"
  have "idEncrypted (applyInitialState ?state (newIdentity ''dev'' ([] :: (string \<times> stored_credentials) list)))"
    by (simp add: applyInitialState_def truthyStr_def Let_def)
  from memory_empty_init [OF demoKey_length this] show ?thesis by blast
qed

text \<open>An envelope of a version this code does not know counts as no credentials: initialization generates a fresh key
  and replaces the envelope, so the key it held is lost.\<close>

theorem newer_envelope_replaced:
  assumes item: "map_of items (envelopeKey dbName) = Some (Document newer)" "seV newer \<noteq> 1" "seV newer \<noteq> 2"
    and provider: "kpDeriveKey kp = None" "\<And>req. kpGetKey kp req = Inr key"
  shows "\<exists>s' e. doInit (demoIdentityConfig dbName (EnvelopedCredentialStore cy salt iv dbName (BrowserCredentialEnvelopeStore True dbName) kp) None)
        demoKey (newIdentity ''dev'' items) = (s', Inr ())
    \<and> idKey s' = Some demoKey \<and> map_of (srStore (idSource s')) (envelopeKey dbName) = Some (Document e) \<and> seV e = 2"
proof -
  let ?st = "EnvelopedCredentialStore cy salt iv dbName (BrowserCredentialEnvelopeStore True dbName) kp"
  let ?cfg = "demoIdentityConfig dbName ?st None"
  have read: "readCredentialState (Some ?st) db items = Inr None" for db
    using item by (simp add: readCredentialState_def EnvelopedCredentialStore_def envelopeLoad_def BrowserCredentialEnvelopeStore_def usable_def)
  have save: "\<exists>e. cstSave ?st sk items = (AList.update (envelopeKey dbName) (Document e) items, Inr ()) \<and> seV e = 2" for sk
    using provider by (simp add: EnvelopedCredentialStore_def envelopeSave_def requireKey_def Let_def BrowserCredentialEnvelopeStore_def
        CURRENT_CREDENTIAL_ENVELOPE_VERSION_def) (metis stored_envelope.select_convs(1))
  have "\<exists>s' sk. doInit ?cfg demoKey (newIdentity ''dev'' items) = (s', Inr ()) \<and> idEncrypted s'
      \<and> idPassphrase s' = Some (base58Encode demoKey) \<and> idKey s' = Some demoKey
      \<and> skPortableKey sk = base58Encode demoKey \<and> srStore (idSource s') = fst (cstSave ?st sk (srStore (idSource (newIdentity ''dev'' items))))"
  proof (rule init_generates [where state = None])
    show "snd (cstSave ?st sk (srStore (idSource (newIdentity ''dev'' items)))) = Inr ()" for sk
      using save [of sk] by (auto simp: newIdentity_def)
  qed (use read in \<open>simp_all add: demoIdentityConfig_def newIdentity_def applyInitialState_def cachedKey_def KEY_BYTES_def\<close>)
  then obtain s' sk where s': "doInit ?cfg demoKey (newIdentity ''dev'' items) = (s', Inr ())" "idKey s' = Some demoKey"
    "srStore (idSource s') = fst (cstSave ?st sk items)"
    by (auto simp: newIdentity_def)
  obtain e where "cstSave ?st sk items = (AList.update (envelopeKey dbName) (Document e) items, Inr ())" "seV e = 2" using save by blast
  with s' show ?thesis by auto
qed

theorem newer_envelope_replaced_witness:
  "\<exists>s' e. doInit (demoIdentityConfig ''db'' (EnvelopedCredentialStore demoCrypto [] [3] ''db'' (BrowserCredentialEnvelopeStore True ''db'')
          (demoProvider\<lparr>kpDeriveKey := None\<rparr>)) None) demoKey
        (newIdentity ''dev'' [(envelopeKey ''db'', Document \<lparr>seV = 3, seAlg = ''AES-GCM'', seKdf = None, seKeyId = None, seIv = ''AA'', seCiphertext = ''AA''\<rparr>)])
      = (s', Inr ())
    \<and> idKey s' = Some demoKey \<and> map_of (srStore (idSource s')) (envelopeKey ''db'') = Some (Document e) \<and> seV e = 2"
  by (rule newer_envelope_replaced
      [where newer = "\<lparr>seV = 3, seAlg = ''AES-GCM'', seKdf = None, seKeyId = None, seIv = ''AA'', seCiphertext = ''AA''\<rparr>" and key = "[9]"])
    (simp_all add: demoProvider_def)

text \<open>A record in browser storage that does not parse counts as no credentials too.\<close>

lemma corrupt_record_reads_absent:
  "map_of items (credsKey dbName) = Some Unparsable \<Longrightarrow>
     readCredentialState (Some (BrowserStorageCredentialStore True dbName)) db items = Inr None"
  by (simp add: readCredentialState_def BrowserStorageCredentialStore_def usable_def)

end
