(* ===== verification/Merge_Laws.thy ===== *)
theory Merge_Laws
  imports Crdt_Convergence
begin

text \<open>
  Laws of the merge engine beside convergence: the contract of a custom merge function (as the
  locale \<open>convergent_merge\<close>, its client lemma, and last-writer-wins as an instance), redelivery of
  an operation, erasure by a delete, and the error paths of strategy resolution and of two values
  that share a stamp.
\<close>

section \<open>The contract of a merge function\<close>

locale convergent_merge =
  fixes join :: "'e \<Rightarrow> 'e \<Rightarrow> 'e" and carrier :: "'e \<Rightarrow> bool"
  assumes closed: "carrier a \<Longrightarrow> carrier b \<Longrightarrow> carrier (join a b)"
    and idem: "carrier a \<Longrightarrow> join a a = a"
    and comm: "carrier a \<Longrightarrow> carrier b \<Longrightarrow> join a b = join b a"
    and assoc: "carrier a \<Longrightarrow> carrier b \<Longrightarrow> carrier c \<Longrightarrow> join (join a b) c = join a (join b c)"
begin

lemma foldl_carrier: "carrier a \<Longrightarrow> \<forall>x \<in> set xs. carrier x \<Longrightarrow> carrier (foldl join a xs)"
  by (induction xs arbitrary: a) (auto simp: closed)

lemma foldl_upper:
  assumes "carrier a" "\<forall>x \<in> set xs. carrier x" "x \<in> insert a (set xs)"
  shows "join (foldl join a xs) x = foldl join a xs"
  using assms
proof (induction xs arbitrary: a x)
  case Nil
  then show ?case by (simp add: idem)
next
  case (Cons y ys)
  have c: "carrier (join a y)" using Cons.prems closed by simp
  have step: "join (foldl join (join a y) ys) (join a y) = foldl join (join a y) ys"
    using Cons c by simp
  let ?m = "foldl join (join a y) ys"
  have m: "carrier ?m" using Cons.prems c foldl_carrier by simp
  have absorb: "join ?m z = ?m" if "join ?m (join a y) = ?m" "carrier z" "join (join a y) z = join a y" for z
    using that assoc [OF m c, of z] by simp
  have y: "carrier y" using Cons.prems by simp
  have "join (join a y) y = join a y"
    unfolding assoc [OF Cons.prems(1) y y] idem [OF y] ..
  moreover have "join (join y a) a = join y a"
    unfolding assoc [OF y Cons.prems(1,1)] idem [OF Cons.prems(1)] ..
  ultimately have "join (join a y) y = join a y" "join (join a y) a = join a y"
    using comm [OF Cons.prems(1) y] by simp_all
  then show ?case
    using Cons.prems Cons.IH [OF c] absorb [OF step] by auto
qed

lemma foldl_least:
  assumes "carrier a" "\<forall>x \<in> set xs. carrier x" "carrier u" "\<forall>x \<in> insert a (set xs). join u x = u"
  shows "join u (foldl join a xs) = u"
  using assms
proof (induction xs arbitrary: a)
  case Nil
  then show ?case by simp
next
  case (Cons y ys)
  then have "join u (join a y) = u" by (simp add: assoc [symmetric])
  with Cons show ?case using closed by simp
qed

text \<open>Merging the same entries in any order and with any repetition gives the same entry.\<close>

lemma foldl_same_set:
  assumes "carrier a" "carrier b" "\<forall>x \<in> set xs. carrier x" "\<forall>x \<in> set ys. carrier x"
    and "insert a (set xs) = insert b (set ys)"
  shows "foldl join a xs = foldl join b ys"
proof -
  let ?m = "foldl join a xs" and ?n = "foldl join b ys"
  have m: "carrier ?m" "carrier ?n" using assms foldl_carrier by auto
  have "join ?m ?n = ?m" using assms m foldl_upper [of a xs] by (intro foldl_least) auto
  moreover have "join ?n ?m = ?n" using assms m foldl_upper [of b ys] by (intro foldl_least) auto
  ultimately show ?thesis using comm [OF m] by simp
qed

end

text \<open>
  Entries in a mesh where a stamp was issued for one value only: \<open>W\<close> is that value.
\<close>

definition issued :: "(string \<Rightarrow> jsval) \<Rightarrow> column_entry \<Rightarrow> bool" where
  "issued W e \<longleftrightarrow> wfEntry e \<and> colValue e = W (colHlc e)"

lemma issued_eq:
  "issued W a \<Longrightarrow> issued W b \<Longrightarrow> stampKey (colHlc a) = stampKey (colHlc b) \<Longrightarrow> a = b"
  using stamp.key_inject [of "colHlc a" "colHlc b"]
  by (auto simp: issued_def wfEntry_def intro: column_entry.equality)

interpretation lww: convergent_merge lwwMax "issued W" for W
proof
  fix a b c
  assume ab: "issued W a" "issued W b"
  show "issued W (lwwMax a b)" using ab by (simp add: lwwMax_def)
  show "lwwMax a b = lwwMax b a" using ab issued_eq [of W a b] by (auto simp: lwwMax_def)
next
  show "lwwMax a a = a" for a by (simp add: lwwMax_def)
next
  show "lwwMax (lwwMax a b) c = lwwMax a (lwwMax b c)" for a b c
    by (auto simp: lwwMax_def)
qed

section \<open>Merging a column's entries one after the other\<close>

text \<open>What the column loop does to one column over a sequence of operations.\<close>

fun mergeSequence ::
  "merge_strategy \<Rightarrow> merge_context \<Rightarrow> column_entry \<Rightarrow> column_entry list \<Rightarrow> column_entry result"
where
  "mergeSequence st ctx e [] = Inr e"
| "mergeSequence st ctx e (x # xs) =
     (case mergeColumn (Some e) x st ctx of
        Inl err \<Rightarrow> Inl err
      | Inr None \<Rightarrow> mergeSequence st ctx e xs
      | Inr (Some w) \<Rightarrow> mergeSequence st ctx w xs)"

text \<open>A custom function obeys the documented contract on the entries of a mesh.\<close>

definition customContract ::
  "(column_entry \<Rightarrow> column_entry \<Rightarrow> merge_context \<Rightarrow> column_entry) \<Rightarrow> merge_context \<Rightarrow> (column_entry \<Rightarrow> bool) \<Rightarrow> bool"
where
  "customContract f ctx carrier \<longleftrightarrow>
     convergent_merge (\<lambda>a b. f a b ctx) carrier
     \<and> (\<forall>a. carrier a \<longrightarrow> colHlc a \<noteq> '''')
     \<and> (\<forall>a b. carrier a \<longrightarrow> carrier b \<longrightarrow> colHlc a = colHlc b \<longrightarrow>
          columnValuesEqual (colValue a) (colValue b) \<longrightarrow> a = b)"

lemma mergeSequence_custom:
  assumes "customContract f ctx carrier" "carrier e" "\<forall>x \<in> set xs. carrier x"
  shows "mergeSequence (Custom f) ctx e xs = Inr (foldl (\<lambda>a b. f a b ctx) e xs)"
  using assms
proof (induction xs arbitrary: e)
  case Nil
  then show ?case by simp
next
  case (Cons x xs)
  have r: "carrier (f e x ctx)" using Cons.prems unfolding customContract_def convergent_merge_def by auto
  show ?case
  proof (cases "colHlc (f e x ctx) = colHlc e \<and> columnValuesEqual (colValue (f e x ctx)) (colValue e)")
    case True
    with r Cons.prems have "f e x ctx = e" by (simp add: customContract_def)
    with True Cons show ?thesis by (simp add: mergeColumn_def customContract_def Let_def)
  next
    case False
    with Cons r show ?thesis by (auto simp: mergeColumn_def customContract_def Let_def)
  qed
qed

text \<open>C34: Custom merge functions that keep their documented contract (commutative,
  associative, idempotent) converge: merging the same entries of a column in any order, with
  any repetition, never fails and ends with the same entry.\<close>

theorem custom_merge_converges:
  assumes "customContract f ctx carrier" "carrier a" "carrier b"
    "\<forall>x \<in> set xs. carrier x" "\<forall>x \<in> set ys. carrier x" "insert a (set xs) = insert b (set ys)"
  shows "mergeSequence (Custom f) ctx a xs = mergeSequence (Custom f) ctx b ys
    \<and> isOk (mergeSequence (Custom f) ctx a xs)"
proof -
  have "foldl (\<lambda>a b. f a b ctx) a xs = foldl (\<lambda>a b. f a b ctx) b ys"
    using assms convergent_merge.foldl_same_set [of "\<lambda>a b. f a b ctx" carrier a b xs ys]
    by (simp add: customContract_def)
  with mergeSequence_custom [OF assms(1,2,4)] mergeSequence_custom [OF assms(1,3,5)] show ?thesis by simp
qed

lemma lww_customContract: "customContract (\<lambda>a b _. lwwMax a b) ctx (issued W)"
proof -
  have "a = b" if "issued W a" "issued W b" "colHlc a = colHlc b" for a b
    using that by (auto intro: issued_eq)
  moreover have "colHlc a \<noteq> ''''" if "issued W a" for a
    using that by (auto simp: issued_def wfEntry_def)
  ultimately show ?thesis unfolding customContract_def using lww.convergent_merge_axioms by blast
qed

theorem custom_merge_converges_witness:
  "mergeSequence (Custom (\<lambda>a b _. lwwMax a b)) \<lparr>mcTable = ''t'', mcRowId = ''r'', mcField = ''c''\<rparr>
       (demoEntry 1 ''A'') [demoEntry 2 ''B'']
   = mergeSequence (Custom (\<lambda>a b _. lwwMax a b)) \<lparr>mcTable = ''t'', mcRowId = ''r'', mcField = ''c''\<rparr>
       (demoEntry 2 ''B'') [demoEntry 1 ''A'', demoEntry 2 ''B'']"
proof -
  let ?W = "\<lambda>s. JNum (ts (hlcParse s))"
  have i: "issued ?W (demoEntry n node)" if "0 \<le> n" for n node
    using that by (simp add: issued_def) (simp add: demoEntry_def demoStamp_def hlcParse_hlcSerialize validHlc_def)
  have "insert (demoEntry 1 ''A'') (set [demoEntry 2 ''B''])
      = insert (demoEntry 2 ''B'') (set [demoEntry 1 ''A'', demoEntry 2 ''B''])" by auto
  from custom_merge_converges [OF lww_customContract i i _ _ this] i show ?thesis by simp
qed

section \<open>Redelivery\<close>

lemma meta_applyColumns: "meta (fst (applyColumns schema t r x ch cols)) = meta x"
  by (induction schema t r x ch cols rule: applyColumns.induct) (auto split: sum.split option.split)

lemma applyColumns_dominated:
  assumes "lwwSchema schema"
    and "\<And>c e. (c, e) \<in> set cols \<Longrightarrow> \<exists>e'. map_of (payload x) c = Some e' \<and> wfEntry e \<and> wfEntry e'
      \<and> (colHlc e' = colHlc e \<longrightarrow> e' = e) \<and> stampLe (colHlc e) (colHlc e')"
  shows "applyColumns schema t r x ch cols = (x, Inr ch)"
  using assms(2)
proof (induction cols)
  case Nil
  then show ?case by simp
next
  case (Cons f cols)
  obtain c e where f: "f = (c, e)" by (cases f)
  obtain e' where e': "map_of (payload x) c = Some e'" "wfEntry e" "wfEntry e'"
    "colHlc e' = colHlc e \<Longrightarrow> e' = e" "stampLe (colHlc e) (colHlc e')"
    using Cons.prems [of c e] f by auto
  have "resolveStrategy schema t c = Inr Lww" using assms(1) by (simp add: lwwSchema_def)
  then have "applyColumns schema t r x ch (f # cols) = applyColumns schema t r x ch cols"
    using e'(1) leD [OF e'(5)] mergeColumn_lww [OF e'(3,2,4)] by (simp add: f)
  also have "\<dots> = (x, Inr ch)" using Cons by simp
  finally show ?case .
qed

lemma applyColumns_dominates:
  assumes "lwwSchema schema" "liveInv C D x" "wfHistory (C \<union> set cols) D" "distinct (map fst cols)"
    and "applyColumns schema t r x ch cols = (y, Inr ch')" "(c, e) \<in> set cols"
  shows "\<exists>e'. map_of (payload y) c = Some e' \<and> wfEntry e \<and> wfEntry e'
      \<and> (colHlc e' = colHlc e \<longrightarrow> e' = e) \<and> stampLe (colHlc e) (colHlc e')"
proof -
  have sub: "set (payload x) \<subseteq> C" and dp: "distinct (map fst (payload x))"
    using assms(2) by (auto simp: liveInv_def)
  have comp: "compatible (set (payload x) \<union> set cols)" "\<forall>(c, e) \<in> set (payload x) \<union> set cols. wfEntry e"
    using assms(3) sub by (auto simp: wfHistory_def elim: compatible_mono)
  have y: "set (payload y) \<subseteq> set (payload x) \<union> set cols"
    and m: "map_of (payload y) c = joinColumn (map_of (payload x) c) (map_of cols c)"
    using applyColumns_lww [OF assms(1,4) dp comp, of t r ch] assms(5) by auto
  have new: "map_of cols c = Some e" using assms(4,6) by simp
  obtain e' where e': "map_of (payload y) c = Some e'"
    using m new by (cases "map_of (payload x) c") (auto simp: joinColumn_def)
  moreover have "stampLe (colHlc e) (colHlc e')" using e' m new by (auto dest: joinColumn_ge(2))
  moreover have "(c, e') \<in> set (payload x) \<union> set cols" using map_of_SomeD [OF e'] y by auto
  ultimately show ?thesis using comp assms(6) unfolding compatible_def by blast
qed

definition appliesInPlace :: "op \<Rightarrow> row option \<Rightarrow> bool" where
  "appliesInPlace o1 found =
     (case o1 of Delete _ _ _ \<Rightarrow> True
      | Upsert _ _ _ \<Rightarrow> (case found of None \<Rightarrow> True | Some x \<Rightarrow> \<not> rmDeleted (meta x)))"

lemma redelivered_upsert:
  assumes lww: "lwwSchema schema" and wf: "wfHistory (C \<union> set cols) D" and d: "distinct (map fst cols)"
    and inv: "rowInv C D found" and place: "case found of None \<Rightarrow> True | Some x \<Rightarrow> \<not> rmDeleted (meta x)"
    and y: "applyUpsert schema t r (rowBefore sv (Upsert t r cols) found) (found = None) cols = (y, Inr ch)"
  shows "applyUpsert schema t r y False cols = (y, Inr False)"
proof -
  let ?x = "rowBefore sv (Upsert t r cols) found"
  have nd: "\<not> rmDeleted (meta ?x)" and live: "liveInv C D ?x"
    using inv place by (auto simp: rowBefore_def rowInv_def liveInv_def blankRow_def split: option.splits)
  have step: "applyColumns schema t r ?x (found = None) cols = (y, Inr ch)"
    using y nd by (simp add: applyUpsert_def)
  have my: "meta y = meta ?x"
    using meta_applyColumns [of schema t r ?x "found = None" cols] step by simp
  have "applyColumns schema t r y False cols = (y, Inr False)"
    by (rule applyColumns_dominated [OF lww applyColumns_dominates [OF lww live wf d step]])
  with my nd show ?thesis by (simp add: applyUpsert_def)
qed

text \<open>Redelivering an operation right after it was applied changes no row and reports no
  change, for every delete and for every upsert that did not resurrect a tombstone.\<close>

theorem redelivery_noop:
  assumes "lwwSchema schema" "wfOps (o1 # ops)" "tbls = fst (applyOps [] ops sv schema)"
    and "appliesInPlace o1 (getRow tbls (opTable o1) (opRowId o1))"
    and "tbls1 = fst (applyOp tbls o1 sv schema)"
  shows "snd (applyOp tbls1 o1 sv schema) = Inr None
    \<and> getRow (fst (applyOp tbls1 o1 sv schema)) t r = getRow tbls1 t r"
proof -
  let ?t = "opTable o1" and ?r = "opRowId o1"
  let ?C = "rowCols ?t ?r ops" and ?D = "rowDels ?t ?r ops"
  have wfo: "wfOps ops" by (rule wfOps_subset [OF assms(2)]) auto
  have inv: "rowInv ?C ?D (getRow tbls ?t ?r)"
    using applyOps_history(2) [OF assms(1) wfo] assms(3) by simp
  have wf: "wfHistory (?C \<union> opCols o1) (?D \<union> opDels o1)"
    using wfHistory_ops [OF assms(2), of ?t ?r] by (simp add: rowCols_Cons onRow_def Un_commute)
  have row1: "getRow tbls1 ?t ?r = Some (rowAfter sv schema o1 (getRow tbls ?t ?r))"
    using getRow_applyOp [of tbls o1 sv schema ?t ?r] assms(5) by simp
  have "snd (applyOp tbls1 o1 sv schema) = Inr None \<and>
    rowAfter sv schema o1 (Some (rowAfter sv schema o1 (getRow tbls ?t ?r))) = rowAfter sv schema o1 (getRow tbls ?t ?r)"
  proof (cases o1)
    case (Delete t' r' h)
    have ok: "stampOk h" using assms(2) Delete by (simp add: wfOps_def)
    have "applyDelete y h = None" if "y = rowAfter sv schema o1 (getRow tbls ?t ?r)" for y
      using that ok Delete
      by (auto simp: applyDelete_def blankRow_def stamp_simps split: option.splits if_splits)
    with row1 Delete show ?thesis by (auto simp: Let_def crdt_simps split: option.splits)
  next
    case (Upsert t' r' cols)
    have "wfHistory (?C \<union> set cols) ?D" "distinct (map fst cols)"
      using wf Upsert assms(2) by (simp_all add: wfOps_def)
    note up = applyUpsert_inv [OF assms(1) this inv, of t' r' sv]
    then obtain y ch where y: "applyUpsert schema t' r' (rowBefore sv o1 (getRow tbls ?t ?r))
        (getRow tbls ?t ?r = None) cols = (y, Inr ch)" using Upsert by auto
    have "applyUpsert schema t' r' y False cols = (y, Inr False)"
      using redelivered_upsert [OF assms(1) \<open>wfHistory (?C \<union> set cols) ?D\<close> \<open>distinct (map fst cols)\<close> inv]
        assms(4) y Upsert by (simp add: appliesInPlace_def)
    with row1 y Upsert show ?thesis by (simp add: Let_def crdt_simps rowBefore_def)
  qed
  then show ?thesis
    using getRow_applyOp [of tbls1 o1 sv schema t r] row1 by auto
qed

theorem redelivery_noop_witness:
  "snd (applyOp (fst (applyOp (fst (applyOps [] [demoCreate] 1 None)) demoDelete 1 None)) demoDelete 1 None) = Inr None"
proof -
  have "wfOps [demoDelete, demoCreate]" by (rule wfOps_subset [OF demo_wfOps]) simp
  moreover have "appliesInPlace demoDelete f" for f by (simp add: appliesInPlace_def demoDelete_def)
  ultimately show ?thesis using redelivery_noop [OF lwwSchema_None _ refl _ refl] by blast
qed

section \<open>Tombstones and fresh incarnations\<close>

lemma applyColumns_subset:
  assumes "distinct (map fst cols)" "\<And>c. c \<in> fst ` set cols \<Longrightarrow> map_of (payload x) c = None"
    and "applyColumns schema t r x ch cols = (y, Inr ch')"
  shows "set (payload y) \<subseteq> set (payload x) \<union> set cols"
  using assms
proof (induction cols arbitrary: x ch)
  case Nil
  then show ?case by simp
next
  case (Cons f cols)
  obtain c e where f: "f = (c, e)" by (cases f)
  let ?x = "x\<lparr>payload := AList.update c e (payload x)\<rparr>"
  have none: "map_of (payload x) c = None" using Cons.prems(2) [of c] by (simp add: f)
  have "applyColumns schema t r ?x True cols = (y, Inr ch')"
    using Cons.prems(3) none
    by (cases "resolveStrategy schema t c") (auto simp: f mergeColumn_def split: option.splits)
  then have "set (payload y) \<subseteq> set (payload ?x) \<union> set cols"
    using Cons.prems by (intro Cons.IH) (auto simp: f)
  then show ?case using set_alist_update [of c e "payload x"] by (auto simp: f)
qed

text \<open>Nothing written before a delete comes back with a resurrected row: an applied delete
  leaves no column, and an upsert that revives a tombstone leaves exactly columns of that upsert
  newer than the deletion, whatever the merge strategies.\<close>

theorem resurrection_is_fresh:
  assumes "getRow tbls t r = Some x"
  shows "(snd (applyOp tbls (Delete t r h) sv schema) = Inr (Some y) \<longrightarrow>
      rmDeleted (meta y) \<and> rmDeletedHlc (meta y) = Some h \<and> payload y = [])
    \<and> (rmDeleted (meta x) \<and> rmDeletedHlc (meta x) = Some d \<and> d \<noteq> '''' \<and> distinct (map fst cols)
       \<and> snd (applyOp tbls (Upsert t r cols) sv schema) = Inr (Some z) \<longrightarrow>
      \<not> rmDeleted (meta z) \<and> rmDeletedHlc (meta z) = None
      \<and> (\<forall>(c, e) \<in> set (payload z). (c, e) \<in> set cols \<and> jgt (hlcCompareStr (colHlc e) d) (Num 0)))"
proof (intro conjI impI)
  assume "snd (applyOp tbls (Delete t r h) sv schema) = Inr (Some y)"
  then show "rmDeleted (meta y)" "rmDeletedHlc (meta y) = Some h" "payload y = []"
    using assms by (auto simp: Let_def crdt_simps applyDelete_def split: option.splits if_splits)
next
  let ?kept = "filter (\<lambda>(_, e). jgt (hlcCompareStr (colHlc e) d) (Num 0)) cols"
  let ?x = "x\<lparr>meta := (meta x)\<lparr>rmDeleted := False, rmDeletedHlc := None\<rparr>, payload := []\<rparr>"
  assume a: "rmDeleted (meta x) \<and> rmDeletedHlc (meta x) = Some d \<and> d \<noteq> '''' \<and> distinct (map fst cols)
    \<and> snd (applyOp tbls (Upsert t r cols) sv schema) = Inr (Some z)"
  then obtain ch where z: "applyColumns schema t r ?x True ?kept = (z, Inr ch)"
    using assms
    by (auto simp: Let_def crdt_simps applyUpsert_def truthyHlc_def split: prod.splits sum.splits if_splits)
  show "\<not> rmDeleted (meta z)" "rmDeletedHlc (meta z) = None"
    using meta_applyColumns [of schema t r ?x True ?kept] z by simp_all
  have "set (payload z) \<subseteq> set (payload ?x) \<union> set ?kept"
    using a by (intro applyColumns_subset [OF _ _ z]) (auto simp: distinct_map_filter)
  then show "\<forall>(c, e) \<in> set (payload z). (c, e) \<in> set cols \<and> jgt (hlcCompareStr (colHlc e) d) (Num 0)"
    by auto
qed

theorem resurrection_is_fresh_witness:
  "\<exists>z. snd (applyOp (fst (applyOps [] [demoCreate, demoDelete] 1 None)) demoUpdate 1 None) = Inr (Some z)
     \<and> (\<forall>(c, e) \<in> set (payload z). jgt (hlcCompareStr (colHlc e) (demoStamp 2 ''B'')) (Num 0))"
proof -
  let ?tbls = "fst (applyOps [] [demoCreate, demoDelete] 1 None)"
  let ?cols = "[(''a'', demoEntry 1 ''A''), (''b'', demoEntry 3 ''C'')]"
  have "map_option (\<lambda>x. (rmDeleted (meta x), rmDeletedHlc (meta x))) (getRow ?tbls ''t'' ''r'')
      = Some (True, Some (demoStamp 2 ''B''))" by code_simp
  then obtain x where x: "getRow ?tbls ''t'' ''r'' = Some x" "rmDeleted (meta x)"
    "rmDeletedHlc (meta x) = Some (demoStamp 2 ''B'')" by auto
  have "(case snd (applyOp ?tbls demoUpdate 1 None) of Inr (Some z) \<Rightarrow> True | _ \<Rightarrow> False)" by code_simp
  then obtain z where z: "snd (applyOp ?tbls demoUpdate 1 None) = Inr (Some z)"
    by (auto split: sum.splits option.splits)
  have "demoStamp 2 ''B'' \<noteq> ''''" using stampOk_not_Nil demoStamp_ok by force
  with resurrection_is_fresh [OF x(1), where h = "''''" and y = z and d = "demoStamp 2 ''B''" and cols = ?cols
      and sv = 1 and schema = None and z = z] x z
  show ?thesis by (auto simp: demoUpdate_def)
qed

text \<open>The error paths of a merge: two different values under one stamp are refused, not
  ordered arbitrarily; only last-writer-wins or a custom function is ever used as a strategy;
  and an operation that throws has touched at most the row it is about.\<close>

theorem merge_errors:
  "(wfEntry a \<and> colHlc b = colHlc a \<and> \<not> columnValuesEqual (colValue a) (colValue b) \<longrightarrow>
      mergeColumn (Some a) b Lww ctx = Inl (Error ''Conflicting values share HLC''))
   \<and> (resolveStrategy schema t f = Inr st \<longrightarrow> st = Lww \<or> (\<exists>g. st = Custom g))
   \<and> (snd (applyOp tbls o1 sv schema) = Inl err \<and> (t', r') \<noteq> (opTable o1, opRowId o1) \<longrightarrow>
      getRow (fst (applyOp tbls o1 sv schema)) t' r' = getRow tbls t' r')"
proof (intro conjI impI)
  assume a: "wfEntry a \<and> colHlc b = colHlc a \<and> \<not> columnValuesEqual (colValue a) (colValue b)"
  then have ok: "stampOk (colHlc a)" by (simp add: wfEntry_def)
  then have "hlcCompareStr (colHlc b) (colHlc a) = Num 0" using a stamp.zero_iff_eq by simp
  with a ok show "mergeColumn (Some a) b Lww ctx = Inl (Error ''Conflicting values share HLC'')"
    by (simp add: mergeColumn_def Let_def)
next
  have req: "requireConvergentStrategy s = Inr st \<Longrightarrow> st = Lww \<or> (\<exists>g. st = Custom g)" for s
    by (cases s) auto
  assume "resolveStrategy schema t f = Inr st"
  then show "st = Lww \<or> (\<exists>g. st = Custom g)"
    by (auto simp: resolveStrategy_def databaseStrategy_def
        split: option.splits table_merge.splits if_splits dest!: req)
next
  assume "snd (applyOp tbls o1 sv schema) = Inl err \<and> (t', r') \<noteq> (opTable o1, opRowId o1)"
  then show "getRow (fst (applyOp tbls o1 sv schema)) t' r' = getRow tbls t' r'"
    using getRow_applyOp [of tbls o1 sv schema t' r'] by auto
qed

theorem merge_errors_witness:
  "mergeColumn (Some (demoEntry 1 ''A'')) (demoEntry 1 ''A''\<lparr>colValue := JNull\<rparr>) Lww
     \<lparr>mcTable = ''t'', mcRowId = ''r'', mcField = ''a''\<rparr> = Inl (Error ''Conflicting values share HLC'')"
  using merge_errors [where a = "demoEntry 1 ''A''" and b = "demoEntry 1 ''A''\<lparr>colValue := JNull\<rparr>"
      and ctx = "\<lparr>mcTable = ''t'', mcRowId = ''r'', mcField = ''a''\<rparr>"]
  by (simp add: demoEntry_def wfEntry_def)

end
