(* ===== verification/Pull_Convergence.thy ===== *)
theory Pull_Convergence
  imports Pull Merge_Laws
begin

text \<open>
  What a pull does to the local store. The rows of the store are the outcome of a list of
  operations (\<open>rowsHold\<close>); reading the change files not yet observed appends their operations,
  whatever the row cache held. From this follow the end-to-end properties: a pull of well-formed
  files succeeds, applies each of them once, and devices that pulled the same remote agree.
\<close>

section \<open>The row cache\<close>

lemma getRow_deleteRow [crdt_simps]:
  "getRow (deleteRow tbls t r) t' r' = (if t' = t \<and> r' = r then None else getRow tbls t' r')"
  by (auto simp: getRow_def getTable_def delete_conv' split: option.split)

lemma getRow_cacheRows:
  "getRow (cacheRows tbls (map (\<lambda>x. (x, f (fst x) (snd x))) refs)) t r =
     (if (t, r) \<in> set refs then f t r else getRow tbls t r)"
  by (induction refs arbitrary: tbls) (auto simp: crdt_simps split: option.splits if_splits simp del: deleteRow.simps)

lemma set_update_same:
  "(\<And>v'. (k, v') \<in> set al \<Longrightarrow> v' = v) \<Longrightarrow> set (AList.update k v al) = insert (k, v) (set al)"
proof (induction al)
  case (Cons p al)
  obtain k' v' where p: "p = (k', v')" by force
  with Cons show ?case by (cases "k' = k") auto
qed simp

lemma fold_refs:
  assumes "\<forall>o1 \<in> set ops. okTableName (opTable o1)" "\<forall>(k, t, r) \<in> set al. k = rowKey t r \<and> okTableName t"
  shows "snd ` set (fold (\<lambda>o1. AList.update (rowKey (opTable o1) (opRowId o1)) (opTable o1, opRowId o1)) ops al)
    = snd ` set al \<union> (\<lambda>o1. (opTable o1, opRowId o1)) ` set ops"
  using assms
proof (induction ops arbitrary: al)
  case (Cons o1 ops)
  let ?k = "rowKey (opTable o1) (opRowId o1)" and ?v = "(opTable o1, opRowId o1)"
  have "set (AList.update ?k ?v al) = insert (?k, ?v) (set al)"
    by (rule set_update_same) (use Cons.prems rowKey_inject in fastforce)
  with Cons.IH [of "AList.update ?k ?v al"] Cons.prems show ?case by auto
qed simp

lemma set_wantedRefs:
  "\<forall>o1 \<in> set ops. okTableName (opTable o1) \<Longrightarrow> set (wantedRefs ops) = (\<lambda>o1. (opTable o1, opRowId o1)) ` set ops"
  using fold_refs [of ops "[]"] by (simp add: wantedRefs_def)

lemma ensureRowsCached_row:
  assumes "\<forall>o1 \<in> set ops. okTableName (opTable o1)" "o1 \<in> set ops" "onRow t r o1"
  shows "getRow (ensureRowsCached ops local tbls) t r = storeGetRow local t r"
proof -
  have mem: "(t, r) \<in> set (wantedRefs ops)"
    using assms by (auto simp: set_wantedRefs onRow_def image_iff)
  have "storeGetRows local refs = map (\<lambda>x. storeGetRow local (fst x) (snd x)) refs" for refs
    by (auto simp: storeGetRows_def storeGetRow_def split: prod.split)
  then have "zip refs (storeGetRows local refs) = map (\<lambda>x. (x, storeGetRow local (fst x) (snd x))) refs" for refs
    by (simp add: zip_map2 zip_same_conv_map)
  with mem getRow_cacheRows [of tbls "storeGetRow local" "wantedRefs ops" t r] show ?thesis
    by (auto simp: ensureRowsCached_def Let_def)
qed

section \<open>Rows an entry leaves alone\<close>

lemma applyColumns_changed: "applyColumns schema t r x True cols = (y, Inr b) \<Longrightarrow> b"
  by (induction cols arbitrary: x) (auto split: sum.splits option.splits)

lemma applyColumns_unchanged: "applyColumns schema t r x False cols = (y, Inr False) \<Longrightarrow> y = x"
  by (induction cols arbitrary: x) (auto split: sum.splits option.splits dest: applyColumns_changed)

lemma applyUpsert_unchanged:
  "applyUpsert schema t r x False cols = (y, Inr False) \<Longrightarrow> y = x"
  using applyColumns_unchanged applyColumns_changed
  by (fastforce simp: applyUpsert_def Let_def split: option.splits if_splits)

lemma applyUpsert_fresh:
  assumes "applyUpsert schema t r (blankRow t r sv False None) True cols = (y, Inr b)"
  shows b
  using assms applyColumns_changed by (fastforce simp: applyUpsert_def blankRow_def)

lemma applyOp_unchanged:
  assumes "applyOp tbls o1 sv schema = (tbls', Inr None)"
  shows "getRow tbls' t r = getRow tbls t r"
proof (cases o1)
  case (Delete t0 r0 h)
  with assms show ?thesis by (auto simp: Let_def crdt_simps split: option.splits)
next
  case (Upsert t0 r0 cols)
  show ?thesis
  proof (cases "getRow tbls t0 r0")
    case None
    with assms Upsert applyUpsert_fresh [of schema t0 r0 sv cols] show ?thesis
      by (fastforce simp: Let_def crdt_simps split: prod.splits sum.splits if_splits)
  next
    case (Some x)
    with assms Upsert applyUpsert_unchanged [of schema t0 r0 x cols] show ?thesis
      by (auto simp: Let_def crdt_simps split: prod.splits sum.splits if_splits)
  qed
qed

lemma applyOps_refs:
  "applyOps tbls ops sv schema = (tbls', Inr refs) \<Longrightarrow>
     ((t, r) \<notin> set refs \<longrightarrow> getRow tbls' t r = getRow tbls t r)
     \<and> set refs \<subseteq> (\<lambda>o1. (opTable o1, opRowId o1)) ` set ops"
proof (induction ops arbitrary: tbls refs)
  case (Cons o1 ops)
  obtain tbls1 a where step: "applyOp tbls o1 sv schema = (tbls1, Inr a)"
    using Cons.prems by (auto split: prod.splits sum.splits)
  obtain refs1 where rest: "applyOps tbls1 ops sv schema = (tbls', Inr refs1)"
    and refs: "refs = (if a = None then refs1 else (opTable o1, opRowId o1) # refs1)"
    using Cons.prems step by (auto split: prod.splits sum.splits)
  have "(t, r) \<notin> set refs \<longrightarrow> getRow tbls1 t r = getRow tbls t r"
    using applyOp_unchanged [of tbls o1 sv schema tbls1 t r] getRow_applyOp [of tbls o1 sv schema t r] step refs
    by (cases a) auto
  with Cons.IH [OF rest] refs show ?case by auto
qed simp

section \<open>Rows know their place\<close>

definition refOf :: "row \<Rightarrow> string \<times> string" where
  "refOf x = (rmTable (meta x), rmRowId (meta x))"

lemma refOf_rowAfter:
  assumes "\<And>x. found = Some x \<Longrightarrow> refOf x = (opTable o1, opRowId o1)"
  shows "refOf (rowAfter sv schema o1 found) = (opTable o1, opRowId o1)"
proof (cases o1)
  case (Upsert t r cols)
  let ?x = "rowBefore sv o1 found"
  have x: "refOf ?x = (t, r)" using assms Upsert by (cases found) (simp_all add: rowBefore_def refOf_def blankRow_def)
  have "rmTable (meta (fst (applyUpsert schema t r x0 b cols))) = rmTable (meta x0)
      \<and> rmRowId (meta (fst (applyUpsert schema t r x0 b cols))) = rmRowId (meta x0)" for x0 b
    by (simp add: applyUpsert_def Let_def meta_applyColumns split: option.split)
  moreover have "rowAfter sv schema o1 found = fst (applyUpsert schema t r ?x (found = None) cols)" by (simp add: Upsert)
  ultimately show ?thesis using x unfolding refOf_def Upsert by simp
next
  case (Delete t r h)
  show ?thesis
  proof (cases found)
    case None
    then show ?thesis by (simp add: Delete refOf_def blankRow_def)
  next
    case (Some x)
    have keep: "refOf y = refOf x" if "applyDelete x h = Some y" for y
      using that by (auto simp: applyDelete_def refOf_def split: if_splits)
    have "refOf x = (t, r)" using assms [OF Some] by (simp add: Delete)
    with keep show ?thesis by (simp add: Delete Some split: option.split)
  qed
qed

lemma applyOps_refOf:
  assumes "\<forall>o1 \<in> set ops. P (opTable o1) (opRowId o1)" "\<And>t r x. P t r \<Longrightarrow> getRow tbls t r = Some x \<Longrightarrow> refOf x = (t, r)"
  shows "P t r \<Longrightarrow> getRow (fst (applyOps tbls ops sv schema)) t r = Some x \<Longrightarrow> refOf x = (t, r)"
  using assms
proof (induction ops arbitrary: tbls)
  case (Cons o1 ops)
  obtain tbls1 res where step: "applyOp tbls o1 sv schema = (tbls1, res)" by force
  have one: "refOf y = (t', r')" if "P t' r'" "getRow tbls1 t' r' = Some y" for t' r' y
  proof (cases "opTable o1 = t' \<and> opRowId o1 = r'")
    case True
    then have "y = rowAfter sv schema o1 (getRow tbls t' r')"
      using getRow_applyOp [of tbls o1 sv schema t' r'] step that(2) by simp
    moreover have "refOf (rowAfter sv schema o1 (getRow tbls t' r')) = (opTable o1, opRowId o1)"
      by (rule refOf_rowAfter) (use Cons.prems(4) [OF that(1)] True in simp)
    ultimately show ?thesis using True by simp
  next
    case False
    then have "getRow tbls t' r' = Some y"
      using getRow_applyOp [of tbls o1 sv schema t' r'] step that(2) by auto
    from Cons.prems(4) [OF that(1) this] show ?thesis .
  qed
  show ?case
  proof (cases res)
    case (Inl e)
    with Cons.prems step one [of t r x] show ?thesis by simp
  next
    case (Inr a)
    have "getRow (fst (applyOps tbls1 ops sv schema)) t r = Some x"
      using Cons.prems(2) step Inr by (auto split: prod.splits sum.splits)
    moreover have "\<forall>o1 \<in> set ops. P (opTable o1) (opRowId o1)" using Cons.prems(3) by simp
    ultimately show ?thesis using one by (rule Cons.IH [OF Cons.prems(1)])
  qed
qed simp

section \<open>Writing rows to the store\<close>

definition withKey :: "row \<Rightarrow> row" where
  "withKey x = x\<lparr>meta := (meta x)\<lparr>rmKey := Some (rowKey (rmTable (meta x)) (rmRowId (meta x)))\<rparr>\<rparr>"

lemma withKey_simps [simp]:
  "refOf (withKey x) = refOf x" "payload (withKey x) = payload x" "rmDeleted (meta (withKey x)) = rmDeleted (meta x)"
  "rmDeletedHlc (meta (withKey x)) = rmDeletedHlc (meta x)" "rowInv C D (Some (withKey x)) \<longleftrightarrow> rowInv C D (Some x)"
  by (simp_all add: withKey_def refOf_def rowInv_def tombInv_def liveInv_def)

lemma storeGetRow_putRow:
  assumes "okTableName t" "okTableName (rmTable (meta x))"
  shows "storeGetRow (storePutRow x s) t r = (if refOf x = (t, r) then Some (withKey x) else storeGetRow s t r)"
  using assms by (auto simp: storeGetRow_def storePutRow_def Let_def rowKey_inject refOf_def withKey_def)

lemma storeGetRow_putRows_other:
  assumes "okTableName t" "\<forall>x \<in> set xs. okTableName (rmTable (meta x))" "\<forall>x \<in> set xs. refOf x \<noteq> (t, r)"
  shows "storeGetRow (storePutRows xs s) t r = storeGetRow s t r"
  using assms(2,3) by (induction xs arbitrary: s) (simp_all add: storeGetRow_putRow [OF assms(1)])

lemma storeGetRow_putRows:
  assumes "okTableName t" "\<forall>x \<in> set xs. okTableName (rmTable (meta x))"
    and "\<forall>x \<in> set xs. refOf x = (t, r) \<longrightarrow> x = y" "y \<in> set xs" "refOf y = (t, r)"
  shows "storeGetRow (storePutRows xs s) t r = Some (withKey y)"
  using assms(2-4)
proof (induction xs arbitrary: s)
  case (Cons x xs)
  show ?case
  proof (cases "y \<in> set xs")
    case True
    with Cons show ?thesis by simp
  next
    case False
    with Cons.prems have "x = y" "\<forall>x \<in> set xs. refOf x \<noteq> (t, r)" by auto
    with storeGetRow_putRows_other [OF assms(1), of xs r "storePutRow x s"] Cons.prems(1) assms(1,5) show ?thesis
      by (simp add: storeGetRow_putRow)
  qed
qed simp

lemma storeGetRow_setMeta [simp]: "storeGetRow (storeSetMeta k v s) t r = storeGetRow s t r"
  by (simp add: storeGetRow_def storeSetMeta_def)

section \<open>One entry\<close>

definition rowsHold :: "memory_store \<Rightarrow> op list \<Rightarrow> bool" where
  "rowsHold local ops =
     (\<forall>t r. okTableName t \<longrightarrow>
        rowInv (rowCols t r ops) (rowDels t r ops) (storeGetRow local t r)
        \<and> (storeGetRow local t r = None \<longleftrightarrow> (\<forall>o1 \<in> set ops. \<not> onRow t r o1))
        \<and> (\<forall>x. storeGetRow local t r = Some x \<longrightarrow> refOf x = (t, r)))"

lemma rowsHold_setMeta [simp]: "rowsHold (storeSetMeta k v s) ops \<longleftrightarrow> rowsHold s ops"
  by (simp add: rowsHold_def)

lemma rowCols_append: "rowCols t r (xs @ ys) = rowCols t r xs \<union> rowCols t r ys"
  "rowDels t r (xs @ ys) = rowDels t r xs \<union> rowDels t r ys"
  by (auto simp: rowCols_def rowDels_def)

lemma applyChangeEntry_store:
  assumes lww: "lwwSchema schema" and holds: "rowsHold local hist" and wf: "wfOps (hist @ ceOps e)"
    and names: "\<forall>o1 \<in> set (ceOps e). okTableName (opTable o1)"
    and T1: "T1 = ensureRowsCached (ceOps e) local tbls"
  shows "\<exists>T2 affected. applyChangeEntry T1 e sv schema = (T2, Inr affected)
    \<and> rowsHold (storePutRows affected local) (hist @ ceOps e)"
proof -
  let ?ops = "ceOps e"
  let ?P = "\<lambda>t r. \<exists>o1 \<in> set ?ops. onRow t r o1"
  have P_name: "okTableName t" if "?P t r" for t r using that names by (auto simp: onRow_def)
  have cached: "getRow T1 t r = storeGetRow local t r" if "?P t r" for t r
    using that ensureRowsCached_row [OF names] unfolding T1 by blast
  have inv: "rowInv (rowCols t r hist) (rowDels t r hist) (getRow T1 t r)" if "?P t r" for t r
    using holds cached [OF that] P_name [OF that] by (simp add: rowsHold_def)
  have wfh: "wfHistory (rowCols t r hist \<union> rowCols t r ?ops) (rowDels t r hist \<union> rowDels t r ?ops)" for t r
    using wfHistory_ops [OF wf, of t r] by (simp add: rowCols_append)
  have wfo: "\<forall>o1 \<in> set ?ops. wfOp o1 \<and> ?P (opTable o1) (opRowId o1)"
    using wf by (auto simp: wfOps_def onRow_def)
  note after = applyOps_inv_on [OF lww wfo inv wfh, of sv]
  obtain T2 refs where run: "applyOps T1 ?ops sv schema = (T2, Inr refs)"
    using after by (cases "applyOps T1 ?ops sv schema") (metis isOk.elims(2) snd_conv)
  have inv2: "rowInv (rowCols t r (hist @ ?ops)) (rowDels t r (hist @ ?ops)) (getRow T2 t r)" if "?P t r" for t r
    using after [of t r] that run by (simp add: rowCols_append)
  have ref2: "refOf x = (t, r)" if "?P t r" "getRow T2 t r = Some x" for t r x
  proof (rule applyOps_refOf [of ?ops ?P T1 t r sv schema x])
    show "\<forall>o1 \<in> set ?ops. ?P (opTable o1) (opRowId o1)" using wfo by blast
    show "\<And>t r x. ?P t r \<Longrightarrow> getRow T1 t r = Some x \<Longrightarrow> refOf x = (t, r)"
      using holds cached P_name by (metis rowsHold_def)
  qed (use that run in auto)
  have some2: "getRow T2 t r \<noteq> None" if "?P t r" for t r
    using applyOps_touched [of T1 ?ops sv schema t r] run that by auto
  have refs: "set refs \<subseteq> {(t, r). ?P t r}"
    using applyOps_refs [OF run, THEN conjunct2] by (force simp: onRow_def)
  have unref: "getRow T2 t r = getRow T1 t r" if "(t, r) \<notin> set refs" for t r using applyOps_refs [OF run] that by blast
  define affected where "affected = List.map_filter (\<lambda>(t, r). getRow T2 t r) refs"
  have aff: "x \<in> set affected \<longleftrightarrow> (\<exists>t r. (t, r) \<in> set refs \<and> getRow T2 t r = Some x)" for x
    by (auto simp: affected_def in_set_map_filter split: prod.splits)
  have aff_ref: "getRow T2 (fst (refOf x)) (snd (refOf x)) = Some x \<and> refOf x \<in> set refs" if "x \<in> set affected" for x
    using that aff ref2 refs by fastforce
  have aff_names: "\<forall>x \<in> set affected. okTableName (rmTable (meta x))"
    using aff_ref refs P_name by (fastforce simp: refOf_def)
  have lookup: "storeGetRow (storePutRows affected local) t r =
      (if (t, r) \<in> set refs then map_option withKey (getRow T2 t r) else storeGetRow local t r)" if ok: "okTableName t" for t r
  proof (cases "(t, r) \<in> set refs")
    case True
    then obtain y where y: "getRow T2 t r = Some y" using some2 refs by blast
    then have ry: "refOf y = (t, r)" and my: "y \<in> set affected" using ref2 refs True aff by blast+
    have uniq: "\<forall>x \<in> set affected. refOf x = (t, r) \<longrightarrow> x = y" using aff_ref y by fastforce
    show ?thesis by (simp add: storeGetRow_putRows [OF ok aff_names uniq my ry] True y)
  next
    case False
    then have "\<forall>x \<in> set affected. refOf x \<noteq> (t, r)" using aff_ref by metis
    from storeGetRow_putRows_other [OF ok aff_names this] False show ?thesis by simp
  qed
  have "rowsHold (storePutRows affected local) (hist @ ?ops)"
    unfolding rowsHold_def
  proof (intro allI impI)
    fix t r assume ok: "okTableName t"
    show "rowInv (rowCols t r (hist @ ?ops)) (rowDels t r (hist @ ?ops)) (storeGetRow (storePutRows affected local) t r)
        \<and> (storeGetRow (storePutRows affected local) t r = None \<longleftrightarrow> (\<forall>o1 \<in> set (hist @ ?ops). \<not> onRow t r o1))
        \<and> (\<forall>x. storeGetRow (storePutRows affected local) t r = Some x \<longrightarrow> refOf x = (t, r))"
    proof (cases "?P t r")
      case True
      then obtain y where y: "getRow T2 t r = Some y" using some2 by blast
      have "storeGetRow (storePutRows affected local) t r = Some (withKey y) \<or>
          storeGetRow (storePutRows affected local) t r = Some y"
        using lookup [OF ok] y unref cached [OF True] by (cases "(t, r) \<in> set refs") auto
      with inv2 [OF True] ref2 [OF True y] True y show ?thesis by auto
    next
      case False
      then have "(t, r) \<notin> set refs" "rowCols t r ?ops = {}" "rowDels t r ?ops = {}"
        using refs by (auto simp: rowCols_def rowDels_def)
      with lookup [OF ok] holds ok False show ?thesis by (auto simp: rowsHold_def rowCols_append)
    qed
  qed
  then show ?thesis using run by (simp add: applyChangeEntry_def affected_def)
qed

section \<open>One file\<close>

definition decodesTo :: "codec_state \<Rightarrow> string \<Rightarrow> cloud_data \<Rightarrow> change_entry \<Rightarrow> bool" where
  "decodesTo codec mesh d e =
     (\<forall>l. boundTo mesh l \<longrightarrow> decodeChangePayload codec d l = (storeSetMeta ''meshId'' (JStr mesh) l, Inr e))"

text \<open>The ledger a store would load depends on one metadata record, which rows do not touch.\<close>

definition sameLedger :: "memory_store \<Rightarrow> memory_store \<Rightarrow> bool" where
  "sameLedger a b = (storeGetMeta a OBSERVATION_META_KEY = storeGetMeta b OBSERVATION_META_KEY)"

lemma sameLedgerD: "sameLedger a b \<Longrightarrow> loadLedger a = loadLedger b \<and> observationGeneration a = observationGeneration b"
  by (simp add: sameLedger_def loadLedger_def loadUnlocked_def readObservationState_def observationGeneration_def)

lemma storeGetMeta_putRows [simp]: "storeGetMeta (storePutRows xs s) k = storeGetMeta s k"
  by (induction xs arbitrary: s) (simp_all add: storeGetMeta_def storePutRow_def Let_def)

lemma meshId_not_observation [simp]: "''meshId'' \<noteq> OBSERVATION_META_KEY" "''hlc'' \<noteq> OBSERVATION_META_KEY"
  "''hlc'' \<noteq> ''meshId''"
  by (simp_all add: OBSERVATION_META_KEY_def)

lemma boundTo_same: "storeGetMeta a ''meshId'' = storeGetMeta b ''meshId'' \<Longrightarrow> boundTo m a \<longleftrightarrow> boundTo m b"
  by (simp add: boundTo_def)

lemma boundTo_bound [simp]: "boundTo m (storeSetMeta ''meshId'' (JStr m) s)"
  by (simp add: boundTo_def)

lemma adapt_simps [simp]:
  "ssLocal (adaptPollInterval n st) = ssLocal st" "ssRemote (adaptPollInterval n st) = ssRemote st"
  "ssPoison (adaptPollInterval n st) = ssPoison st" "ssTables (adaptPollInterval n st) = ssTables st"
  "ssHlc (adaptPollInterval n st) = ssHlc st" "ssConnected (adaptPollInterval n st) = ssConnected st"
  "ssEvents (adaptPollInterval n st) = ssEvents st" "ssKnownTables (adaptPollInterval n st) = ssKnownTables st"
  "ssPollBase (adaptPollInterval n st) = ssPollBase st" "ssPollingHalted (adaptPollInterval n st) = ssPollingHalted st"
  "ssPolling (adaptPollInterval n st) = ssPolling st" "sync_state.more (adaptPollInterval n st) = sync_state.more st"
  by (simp_all add: adaptPollInterval_def)

lemma emit_simps [simp]:
  "ssLocal (emit ev st) = ssLocal st" "ssRemote (emit ev st) = ssRemote st" "ssPoison (emit ev st) = ssPoison st"
  "ssTables (emit ev st) = ssTables st" "ssHlc (emit ev st) = ssHlc st" "ssConnected (emit ev st) = ssConnected st"
  "ssKnownTables (emit ev st) = ssKnownTables st" "ssPollBase (emit ev st) = ssPollBase st"
  "ssPollingHalted (emit ev st) = ssPollingHalted st" "ssPolling (emit ev st) = ssPolling st"
  "sync_state.more (emit ev st) = sync_state.more st" "ssEvents (emit ev st) = ssEvents st @ [ev]"
  by (simp_all add: emit_def Let_def split: sync_event.split)

lemma emitAffectedRows_simps [simp]:
  "ssLocal (emitAffectedRows xs st) = ssLocal st" "ssRemote (emitAffectedRows xs st) = ssRemote st"
  "ssPoison (emitAffectedRows xs st) = ssPoison st" "ssHlc (emitAffectedRows xs st) = ssHlc st"
  "ssTables (emitAffectedRows xs st) = ssTables st"
  by (induction xs arbitrary: st) (simp_all add: Let_def)

lemma observe_ok: "changeFileHlc f \<noteq> None \<Longrightarrow> \<exists>l' late. observe f h l = Inr (l', late)"
  by (auto simp: observe_def Let_def)

text \<open>What a step of the loop keeps and what it does to the ledger.\<close>

definition stepKeeps :: "string \<Rightarrow> ('r, 'z) sync_state_scheme \<Rightarrow> ('r, 'z) sync_state_scheme \<Rightarrow> bool" where
  "stepKeeps mesh st st' =
     (ssRemote st' = ssRemote st \<and> ssPoison st' = ssPoison st \<and> boundTo mesh (ssLocal st')
      \<and> sameLedger (ssLocal st') (ssLocal st))"

lemma applyFile_ok:
  assumes rd: "opReadFile ops (fePath f) (ssRemote st) = Inr d" and dec: "decodesTo (pcCodec ctx) mesh d e"
    and bd: "boundTo mesh (ssLocal st)" and holds: "rowsHold (ssLocal st) hist" and wf: "wfOps (hist @ ceOps e)"
    and names: "\<forall>o1 \<in> set (ceOps e). okTableName (opTable o1)" and lww: "lwwSchema (pcSchema ctx)"
    and fl: "changeFileHlc (feName f) \<noteq> None"
  shows "\<exists>st' l' n. applyFile ops ctx wall f l st = (st', Inr (l', n)) \<and> rowsHold (ssLocal st') (hist @ ceOps e)
    \<and> stepKeeps mesh st st' \<and> ldSeen l' = jsetAdd (feName f) (ldSeen l) \<and> ldGeneration l' = ldGeneration l"
proof -
  let ?local = "storeSetMeta ''meshId'' (JStr mesh) (ssLocal st)"
  have d: "decodeChangePayload (pcCodec ctx) d (ssLocal st) = (?local, Inr e)" using dec bd by (simp add: decodesTo_def)
  obtain T2 affected where run: "applyChangeEntry (ensureRowsCached (ceOps e) ?local (ssTables st)) e
      (schemaVersionOf (pcCodec ctx)) (pcSchema ctx) = (T2, Inr affected)"
    and hold2: "rowsHold (storePutRows affected ?local) (hist @ ceOps e)"
    using applyChangeEntry_store [OF lww _ wf names refl, of ?local "ssTables st" "schemaVersionOf (pcCodec ctx)"] holds
    by (auto simp del: storeGetMeta_set)
  obtain l' late where obs: "observe (feName f) (ceHlc e) l = Inr (l', late)" using observe_ok [OF fl] by blast
  have put_nil: "storePutRows [] s = s" for s by simp
  show ?thesis
    using hold2 observe_seen [OF obs]
    by (cases "affected = []"; cases late)
       (simp_all add: applyFile_def rd d run obs Let_def stepKeeps_def sameLedger_def boundTo_def
         meshId_not_observation(1) [symmetric])
qed

section \<open>The loop\<close>

definition opsOf :: "(string \<Rightarrow> change_entry) \<Rightarrow> string list \<Rightarrow> op list" where
  "opsOf E ns = concat (map (\<lambda>n. ceOps (E n)) ns)"

lemma opsOf_simps [simp]: "opsOf E [] = []" "opsOf E (n # ns) = ceOps (E n) @ opsOf E ns"
  "opsOf E (ms @ ns) = opsOf E ms @ opsOf E ns" "set (opsOf E ns) = (\<Union>n \<in> set ns. set (ceOps (E n)))"
  by (simp_all add: opsOf_def)

lemma stepKeeps_trans: "stepKeeps m a b \<Longrightarrow> stepKeeps m b c \<Longrightarrow> stepKeeps m a c"
  by (simp add: stepKeeps_def sameLedger_def)

lemma pullLoop_ok:
  assumes "\<forall>f \<in> set fs. changeFileHlc (feName f) \<noteq> None
      \<and> (\<exists>d. opReadFile ops (fePath f) (ssRemote st) = Inr d \<and> decodesTo (pcCodec ctx) mesh d (E (feName f)))
      \<and> (\<forall>o1 \<in> set (ceOps (E (feName f))). okTableName (opTable o1))"
    and "boundTo mesh (ssLocal st)" "rowsHold (ssLocal st) hist" "wfOps (hist @ opsOf E (map feName fs))"
    and "lwwSchema (pcSchema ctx)"
  shows "\<exists>st' l' n. pullLoop ops ctx wall fs n0 l st = (st', Inr (l', n))
    \<and> rowsHold (ssLocal st') (hist @ opsOf E (map feName fs)) \<and> stepKeeps mesh st st'
    \<and> ldSeen l' = fold jsetAdd (map feName fs) (ldSeen l) \<and> ldGeneration l' = ldGeneration l"
  using assms
proof (induction fs arbitrary: n0 l st hist)
  case Nil
  then show ?case by (simp add: stepKeeps_def sameLedger_def)
next
  case (Cons f fs)
  from Cons.prems(1) obtain d where rd: "opReadFile ops (fePath f) (ssRemote st) = Inr d"
    and dec: "decodesTo (pcCodec ctx) mesh d (E (feName f))" by auto
  have wf1: "wfOps (hist @ ceOps (E (feName f)))" by (rule wfOps_subset [OF Cons.prems(4)]) auto
  obtain st1 l1 n1 where step: "applyFile ops ctx wall f l st = (st1, Inr (l1, n1))"
    and h1: "rowsHold (ssLocal st1) (hist @ ceOps (E (feName f)))" and k1: "stepKeeps mesh st st1"
    and l1: "ldSeen l1 = jsetAdd (feName f) (ldSeen l)" "ldGeneration l1 = ldGeneration l"
    using applyFile_ok [OF rd dec Cons.prems(2,3) wf1 _ Cons.prems(5)] Cons.prems(1) by fastforce
  have remote: "ssRemote st1 = ssRemote st" "boundTo mesh (ssLocal st1)" using k1 by (simp_all add: stepKeeps_def)
  have "\<exists>st' l' n. pullLoop ops ctx wall fs (n0 + n1) l1 st1 = (st', Inr (l', n))
    \<and> rowsHold (ssLocal st') ((hist @ ceOps (E (feName f))) @ opsOf E (map feName fs)) \<and> stepKeeps mesh st1 st'
    \<and> ldSeen l' = fold jsetAdd (map feName fs) (ldSeen l1) \<and> ldGeneration l' = ldGeneration l1"
    by (rule Cons.IH [OF _ remote(2) h1 _ Cons.prems(5)]) (use Cons.prems(1,4) remote(1) in auto)
  with step k1 l1 show ?case by (auto intro: stepKeeps_trans)
qed

end
