(* ===== verification/Sync_Properties.thy ===== *)
theory Sync_Properties
  imports Pull_Convergence
begin

text \<open>
  The end-to-end properties of a pull, over any adapter that answers (\<open>cloud_adapter\<close>), with the
  in-memory adapter as the instance the witnesses run.
\<close>

section \<open>Which files a pull reads\<close>

lemma selectUnseen_props:
  "set (selectUnseen l S fs) \<subseteq> set fs
   \<and> distinct (map feName (selectUnseen l S fs))
   \<and> feName ` set (selectUnseen l S fs) =
       {n \<in> feName ` set fs. n \<noteq> ''head.json'' \<and> n \<notin> set S \<and> changeFileHlc n \<noteq> None \<and> n \<notin> set (ldSeen l)}"
proof (induction fs arbitrary: S)
  case (Cons f fs)
  show ?case
  proof (cases "feName f = ''head.json'' \<or> feName f \<in> set S")
    case True
    with Cons [of S] show ?thesis by auto
  next
    case False
    with Cons [of "feName f # S"] show ?thesis by (auto simp: isUnseenChange_def)
  qed
qed simp

definition remoteChanges :: "('r \<Rightarrow> string \<Rightarrow> cloud_data option) \<Rightarrow> string \<Rightarrow> 'r \<Rightarrow> string set" where
  "remoteChanges contents root r =
     {n. n \<noteq> ''head.json'' \<and> changeFileHlc n \<noteq> None \<and> CHR ''/'' \<notin> set n \<and> contents r (changeFile root n) \<noteq> None}"

text \<open>Every change file of the remote is a readable entry of the mesh: \<open>E\<close> gives the entry of a name.\<close>

definition remoteSound ::
  "('r \<Rightarrow> string \<Rightarrow> cloud_data option) \<Rightarrow> string \<Rightarrow> codec_state \<Rightarrow> string \<Rightarrow> (string \<Rightarrow> change_entry) \<Rightarrow> 'r \<Rightarrow> bool"
where
  "remoteSound contents root codec mesh E r =
     (\<forall>n \<in> remoteChanges contents root r. (\<exists>d. contents r (changeFile root n) = Some d \<and> decodesTo codec mesh d (E n))
        \<and> (\<forall>o1 \<in> set (ceOps (E n)). okTableName (opTable o1)))"

text \<open>The files a store's ledger lists.\<close>

definition seenFiles :: "memory_store \<Rightarrow> string set" where
  "seenFiles local = set (ldSeen (loadLedger local))"

text \<open>
  A device is in step when its rows are the outcome of the entries its ledger lists together with
  operations of its own not yet recorded there.
\<close>

definition inStep :: "(string \<Rightarrow> change_entry) \<Rightarrow> op list \<Rightarrow> memory_store \<Rightarrow> bool" where
  "inStep E pending local = rowsHold local (opsOf E (ldSeen (loadLedger local)) @ pending)"

lemma rowsHold_cong: "set xs = set ys \<Longrightarrow> rowsHold s xs \<longleftrightarrow> rowsHold s ys"
  using same_history [of xs ys] by (simp add: rowsHold_def)

lemma rowsHold_persist [simp]: "rowsHold (fst (persistLedger l s)) ops \<longleftrightarrow> rowsHold s ops"
  by (simp add: persistLedger_def Let_def)

lemma boundTo_persist [simp]: "boundTo m (fst (persistLedger l s)) \<longleftrightarrow> boundTo m s"
  by (rule boundTo_same) (simp add: persistLedger_def Let_def OBSERVATION_META_KEY_def)

lemma seenFiles_setMeta [simp]: "k \<noteq> OBSERVATION_META_KEY \<Longrightarrow> seenFiles (storeSetMeta k v s) = seenFiles s"
  using sameLedgerD [of "storeSetMeta k v s" s] by (simp add: seenFiles_def sameLedger_def)

section \<open>A pull that succeeds\<close>

context cloud_adapter
begin

lemma unseen_files:
  assumes "okFolder (changesFolder root)" "opListFiles ops (changesFolder root) r = Inr files"
    and "unseen = selectUnseen l [] (jsort cmp files)"
  shows "feName ` set unseen = remoteChanges contents root r - set (ldSeen l)"
    and "f \<in> set unseen \<Longrightarrow> fePath f = changeFile root (feName f)"
proof -
  have sel: "set unseen \<subseteq> set files" "feName ` set unseen =
      {n \<in> feName ` set files. n \<noteq> ''head.json'' \<and> changeFileHlc n \<noteq> None \<and> n \<notin> set (ldSeen l)}"
    using selectUnseen_props [of l "[]" "jsort cmp files"] by (simp_all add: assms(3))
  have path: "(\<exists>d. contents r p = Some d) \<and> p = changeFile root n \<and> CHR ''/'' \<notin> set n \<longleftrightarrow>
      (\<exists>e \<in> set files. feName e = n \<and> fePath e = p)" for p n
    using list_ok [OF assms(1,2), of p n] by (auto simp: directChild_def changeFile_def)
  show "f \<in> set unseen \<Longrightarrow> fePath f = changeFile root (feName f)"
    using sel(1) path [of "fePath f" "feName f"] by blast
  have "n \<in> feName ` set files \<longleftrightarrow> CHR ''/'' \<notin> set n \<and> contents r (changeFile root n) \<noteq> None" for n
    using path by (metis (no_types, lifting) image_iff not_None_eq)
  then show "feName ` set unseen = remoteChanges contents root r - set (ldSeen l)"
    unfolding sel(2) remoteChanges_def by blast
qed

lemma pull_run:
  assumes folder: "okFolder (changesFolder root)" "pcRemotePath ctx = root"
    and listing: "opListFiles ops (changesFolder root) (ssRemote st) = Inr files"
    and mft: "loadManifest (emit SyncStart st) = (emit SyncStart st, Inr ())"
    and sound: "remoteSound contents root (pcCodec ctx) mesh E (ssRemote st)"
    and dev: "boundTo mesh (ssLocal st)" "inStep E pending (ssLocal st)" "lwwSchema (pcSchema ctx)"
    and hist: "set ns = remoteChanges contents root (ssRemote st) \<union> seenFiles (ssLocal st)" "wfOps (opsOf E ns @ pending)"
  shows "\<exists>st'. pull ops ctx wall loadManifest st = (st', Inr ())
    \<and> seenFiles (ssLocal st') = seenFiles (ssLocal st) \<union> remoteChanges contents root (ssRemote st)
    \<and> inStep E pending (ssLocal st') \<and> boundTo mesh (ssLocal st')
    \<and> ssRemote st' = ssRemote st \<and> ssPoison st' = ssPoison st"
proof -
  let ?st = "emit SyncStart st" and ?l = "loadLedger (ssLocal st)"
  define unseen where "unseen = selectUnseen ?l [] (jsort (\<lambda>a b. compareChangeFiles (feName a) (feName b)) files)"
  note un = unseen_files [OF folder(1) listing unseen_def]
  let ?hist = "opsOf E (ldSeen ?l) @ pending"
  have step: "changeFileHlc (feName f) \<noteq> None
      \<and> (\<exists>d. opReadFile ops (fePath f) (ssRemote ?st) = Inr d \<and> decodesTo (pcCodec ctx) mesh d (E (feName f)))
      \<and> (\<forall>o1 \<in> set (ceOps (E (feName f))). okTableName (opTable o1))" if "f \<in> set unseen" for f
  proof -
    have mem: "feName f \<in> remoteChanges contents root (ssRemote st)" using un(1) that by blast
    then obtain d where "contents (ssRemote st) (changeFile root (feName f)) = Some d"
      "decodesTo (pcCodec ctx) mesh d (E (feName f))" using sound by (auto simp: remoteSound_def)
    then show ?thesis using mem sound un(2) [OF that] reads by (auto simp: remoteSound_def remoteChanges_def)
  qed
  have sub: "set (?hist @ opsOf E (map feName unseen)) \<subseteq> set (opsOf E ns @ pending)"
    using hist(1) un(1) by (auto simp: seenFiles_def image_iff)
  obtain st1 l1 n1 where loop: "pullLoop ops ctx wall unseen 0 ?l ?st = (st1, Inr (l1, n1))"
    and hold1: "rowsHold (ssLocal st1) (?hist @ opsOf E (map feName unseen))" and keep: "stepKeeps mesh ?st st1"
    and seen1: "ldSeen l1 = fold jsetAdd (map feName unseen) (ldSeen ?l)" "ldGeneration l1 = ldGeneration ?l"
    using pullLoop_ok [of unseen ops ?st ctx mesh E ?hist wall 0 ?l] step dev wfOps_subset [OF hist(2) sub]
    by (auto simp: inStep_def)
  have led: "loadLedger (ssLocal st1) = ?l" "observationGeneration (ssLocal st1) = observationGeneration (ssLocal st)"
    using keep sameLedgerD by (auto simp: stepKeeps_def)
  obtain s' l' where per: "persistLedger l1 (ssLocal st1) = (s', l', True)"
    and seen2: "set (ldSeen (loadLedger s')) = set (ldSeen ?l) \<union> set (ldSeen l1)"
    by (rule persist_current [of l1 "ssLocal st1"])
       (use seen1 led distinct_loadLedger in \<open>auto simp: ledger_generation distinct_fold_jsetAdd\<close>)
  let ?s2 = "storeSetMeta ''hlc'' (JStr (hlcSerialize (ssHlc st1))) s'"
  have run: "pull ops ctx wall loadManifest st = (emit (SyncComplete n1) (st1\<lparr>ssLocal := ?s2\<rparr>), Inr ())"
    using loop per by (simp add: pull_def mft listing folder(2) pullFiles_def Let_def unseen_def [symmetric])
  have "seenFiles ?s2 = seenFiles s'" by simp
  also have "\<dots> = seenFiles (ssLocal st) \<union> remoteChanges contents root (ssRemote st)"
    using seen2 seen1(1) un(1) by (auto simp: seenFiles_def)
  finally have files: "seenFiles ?s2 = seenFiles (ssLocal st) \<union> remoteChanges contents root (ssRemote st)" .
  have s': "s' = fst (persistLedger l1 (ssLocal st1))" using per by simp
  have "set (opsOf E (ldSeen (loadLedger ?s2)) @ pending) = set (?hist @ opsOf E (map feName unseen))"
    using files un(1) by (simp add: seenFiles_def) blast
  then have "inStep E pending ?s2"
    using hold1 rowsHold_cong unfolding inStep_def s' by (metis rowsHold_persist rowsHold_setMeta)
  moreover have "boundTo mesh ?s2" using keep boundTo_same [of ?s2 s' mesh] by (simp add: s' stepKeeps_def)
  ultimately show ?thesis using run files keep by (simp add: stepKeeps_def)
qed

end

section \<open>A pull that fails\<close>

lemma emitted: "ssEvents (emit ev st) = ssEvents st @ [ev]"
  by simp

lemma decodeChangePayload_ledger: "decodeChangePayload codec d l = (l', res) \<Longrightarrow> sameLedger l' l"
  by (auto simp: decodeChangePayload_def assertExpectedMeshId_def sameLedger_def Let_def
      meshId_not_observation(1) [symmetric] split: sum.splits if_splits option.splits)

lemma applyFile_keeps:
  assumes "applyFile ops ctx wall f l st = (st', res)"
  shows "sameLedger (ssLocal st') (ssLocal st) \<and> ssRemote st' = ssRemote st"
proof (cases "opReadFile ops (fePath f) (ssRemote st)")
  case (Inl e)
  with assms show ?thesis by (auto simp: applyFile_def sameLedger_def)
next
  case (Inr d)
  obtain l1 r1 where dec: "decodeChangePayload (pcCodec ctx) d (ssLocal st) = (l1, r1)" by force
  have "sameLedger l1 (ssLocal st)" by (rule decodeChangePayload_ledger [OF dec])
  with assms Inr dec show ?thesis
    by (auto simp: applyFile_def sameLedger_def Let_def split: sum.splits prod.splits option.splits if_splits)
qed

lemma pullLoop_keeps:
  "pullLoop ops ctx wall fs n l st = (st', res) \<Longrightarrow>
     sameLedger (ssLocal st') (ssLocal st) \<and> ssRemote st' \<in> {ssRemote st, opResetFolderCache ops (ssRemote st)}
     \<and> (\<forall>e. res = Inl e \<longrightarrow> ssPoison st' \<noteq> None \<and> (\<exists>p. RemotePoisoned e p \<in> set (ssEvents st')))"
proof (induction fs arbitrary: n l st)
  case Nil
  then show ?case by (auto simp: sameLedger_def)
next
  case (Cons f fs)
  obtain st1 r1 where step: "applyFile ops ctx wall f l st = (st1, r1)" by force
  have k: "sameLedger (ssLocal st1) (ssLocal st)" "ssRemote st1 = ssRemote st" using applyFile_keeps [OF step] by simp_all
  show ?case
  proof (cases r1)
    case (Inl e)
    with Cons.prems step k show ?thesis
      by (auto simp: poisonRemote_def Let_def haltPolling_def stopPolling_def clearScheduledFlush_def split: if_splits)
  next
    case (Inr x)
    obtain l1 m where "x = (l1, m)" by force
    with Cons.prems step Inr have "pullLoop ops ctx wall fs (n + m) l1 st1 = (st', res)" by simp
    from Cons.IH [OF this] k show ?thesis by (simp add: sameLedger_def)
  qed
qed

section \<open>Properties\<close>

text \<open>C5: A pull of a sound remote is complete: it succeeds, every change file of the remote is then
  recorded, the device's rows are the outcome of exactly the recorded entries and its own pending
  operations (each entry counted once, whatever the order of listing and whatever the row cache
  held), and neither the remote nor the engine's health changes. Rows already ahead of the ledger
  after an interrupted pull are covered as pending operations, so a retry completes.\<close>

theorem pull_complete:
  assumes "cloud_adapter ops contents okFolder" "okFolder (changesFolder root)" "pcRemotePath ctx = root"
    and "opListFiles ops (changesFolder root) (ssRemote st) = Inr files"
    and "loadManifest (emit SyncStart st) = (emit SyncStart st, Inr ())"
    and "remoteSound contents root (pcCodec ctx) mesh E (ssRemote st)"
    and "boundTo mesh (ssLocal st)" "inStep E pending (ssLocal st)" "lwwSchema (pcSchema ctx)"
    and "set ns = remoteChanges contents root (ssRemote st) \<union> seenFiles (ssLocal st)" "wfOps (opsOf E ns @ pending)"
  shows "\<exists>st'. pull ops ctx wall loadManifest st = (st', Inr ())
    \<and> seenFiles (ssLocal st') = seenFiles (ssLocal st) \<union> remoteChanges contents root (ssRemote st)
    \<and> inStep E pending (ssLocal st') \<and> ssRemote st' = ssRemote st \<and> ssPoison st' = ssPoison st"
proof -
  note run = cloud_adapter.pull_run [where ops = ops and contents = contents and okFolder = okFolder and root = root
      and ctx = ctx and st = st and files = files and loadManifest = loadManifest and mesh = mesh and E = E
      and pending = pending and ns = ns and wall = wall]
  show ?thesis using run [OF assms] by blast
qed


text \<open>A pull that fails forgets nothing and pretends nothing: whatever the adapter does, the
  recorded receipts and the clock are as they were, the remote is untouched but for the adapter's
  folder cache, and the error is reported; a file that could not be applied poisons the engine.\<close>

theorem pull_failure:
  assumes "pull ops ctx wall loadManifest st = (st', Inl e)"
    and "\<forall>s s' res. loadManifest s = (s', res) \<longrightarrow> seenFiles (ssLocal s') = seenFiles (ssLocal s) \<and> ssRemote s' = ssRemote s"
  shows "seenFiles (ssLocal st') = seenFiles (ssLocal st) \<and> ssHlc st' = ssHlc st
    \<and> ssRemote st' \<in> {ssRemote st, opResetFolderCache ops (ssRemote st)}
    \<and> SyncErrorEvent e \<in> set (ssEvents st')
    \<and> (isOk (snd (loadManifest (emit SyncStart st))) \<longrightarrow> ssPoison st' \<noteq> None \<or> isRemoteAccessError e)"
proof -
  obtain st1 r1 where m: "loadManifest (emit SyncStart st) = (st1, r1)" by force
  have k1: "seenFiles (ssLocal st1) = seenFiles (ssLocal st)" "ssRemote st1 = ssRemote st"
    using assms(2) [rule_format, OF m] by simp_all
  show ?thesis
  proof (cases r1)
    case (Inl e1)
    with assms(1) m have "st' = (emit (SyncErrorEvent e) st1)\<lparr>ssHlc := ssHlc st\<rparr>" by (auto simp: pull_def)
    with m Inl k1 show ?thesis by (simp add: emitted)
  next
    case (Inr u)
    show ?thesis
    proof (cases "opListFiles ops (changesFolder (pcRemotePath ctx)) (ssRemote st1)")
      case (Inl e1)
      with assms(1) m Inr have "st' = (emit (SyncErrorEvent e) st1)\<lparr>ssHlc := ssHlc st\<rparr>" "isRemoteAccessError e"
        by (auto simp: pull_def split: if_splits)
      with k1 show ?thesis by (simp add: emitted)
    next
      case files: (Inr files)
      obtain st2 r2 where p: "pullFiles ops ctx wall files st1 = (st2, r2)" by force
      have fail: "r2 = Inl e" "st' = (emit (SyncErrorEvent e) st2)\<lparr>ssHlc := ssHlc st\<rparr>"
        using assms(1) m Inr files p by (auto simp: pull_def split: sum.splits)
      have "\<exists>fs n l. pullLoop ops ctx wall fs n l st1 = (st2, Inl e)"
        using p fail(1) by (auto simp: pullFiles_def Let_def split: prod.splits sum.splits)
      then have "sameLedger (ssLocal st2) (ssLocal st1) \<and> ssRemote st2 \<in> {ssRemote st1, opResetFolderCache ops (ssRemote st1)}
          \<and> ssPoison st2 \<noteq> None"
        using pullLoop_keeps by blast
      with fail k1 sameLedgerD [of "ssLocal st2" "ssLocal st1"] show ?thesis by (simp add: emitted seenFiles_def)
    qed
  qed
qed

section \<open>Witnesses\<close>

text \<open>A remote with a head hint and one sealed change file.\<close>

definition demoPayload :: cloud_data where
  "demoPayload = (case encodeChangePayload demoCodec demoEntry1 of Inr d \<Rightarrow> d | Inl e \<Rightarrow> NoJson)"

definition demoMeshRemote :: "cloud_data memory_adapter" where
  "demoMeshRemote = memWriteFile ''t0'' (changeFile ''/Demo'' (entryName demoEntry1)) demoPayload demoRemote"

definition demoPeer :: "'r \<Rightarrow> 'r sync_state" where
  "demoPeer remote = \<lparr>ssLocal = newMemoryStore, ssRemote = remote, ssTables = [], ssKnownTables = [],
     ssHlc = \<lparr>ts = Num 0, counter = Num 0, nodeId = ''A''\<rparr>, ssPoison = None, ssConnected = True, ssConnecting = False,
     ssPolling = True, ssPollingHalted = False, ssPollBase = 5000, ssPollCurrent = 5000, ssFlushScheduled = False, ssEvents = []\<rparr>"

definition demoPull :: pull_context where
  "demoPull = \<lparr>pcRemotePath = ''/Demo'', pcCodec = demoCodec, pcSchema = None, pcObserves = True\<rparr>"

lemma demoPayload_decodes: "decodesTo demoCodec ''mesh_1'' demoPayload demoEntry1"
proof -
  have id: "mfMeshId demoManifest = ''mesh_1''" by (simp add: demoManifest_def)
  have "decodeChangePayload demoCodec demoPayload l = (storeSetMeta ''meshId'' (JStr ''mesh_1'') l, Inr demoEntry1)"
    if "boundTo ''mesh_1'' l" for l
    by (rule decodeChangePayload_encode [OF demoCodec_ok(1,2,3), of l demoEntry1])
       (simp_all add: id that demoPayload_def)
  then show ?thesis by (simp add: decodesTo_def)
qed

lemma demoMeshRemote_changes: "remoteChanges memFile ''/Demo'' demoMeshRemote = {entryName demoEntry1}"
proof -
  have "CHR ''/'' \<notin> set (entryName demoEntry1)" "entryName demoEntry1 \<noteq> ''head.json''" by code_simp+
  moreover have "changeFileHlc (entryName demoEntry1) \<noteq> None"
    using changeFileHlc_changeFileName [OF demoEntry1_ok(1)] by (simp add: entryName_def)
  ultimately show ?thesis
    by (auto simp: remoteChanges_def demoMeshRemote_def demoRemote_def changeFile_def changesHead_def newMemoryAdapter_def
        memFile_def memWriteFile_def)
qed

lemma demo_sound: "remoteSound memFile ''/Demo'' demoCodec ''mesh_1'' (\<lambda>_. demoEntry1) demoMeshRemote"
  using demoPayload_decodes
  by (simp add: remoteSound_def demoMeshRemote_changes)
     (simp add: demoMeshRemote_def demoEntry1_def demoChange_def demoCreate_def okTableName_def)

lemma demoPeer_ok: "seenFiles newMemoryStore = {}" "inStep E [] newMemoryStore" "boundTo ''mesh_1'' newMemoryStore"
  "ssLocal (demoPeer r) = newMemoryStore" "ssRemote (demoPeer r) = r"
proof -
  have l: "ldSeen (loadLedger newMemoryStore) = []" by code_simp
  then show "seenFiles newMemoryStore = {}" by (simp add: seenFiles_def)
  have "storeGetRow newMemoryStore t r = None" for t r by (simp add: storeGetRow_def newMemoryStore_def)
  with l show "inStep E [] newMemoryStore" by (simp add: inStep_def rowsHold_def rowInv_def rowCols_def rowDels_def)
  show "boundTo ''mesh_1'' newMemoryStore" using demoCodec_ok(4) by (simp add: demoManifest_def)
qed (simp_all add: demoPeer_def)

lemma demoFolder: "\<not> endsWith (changesFolder ''/Demo'') ''/''" "pcRemotePath demoPull = ''/Demo''"
  "pcCodec demoPull = demoCodec" "lwwSchema (pcSchema demoPull)" "wfOps (opsOf (\<lambda>_. demoEntry1) [entryName demoEntry1])"
proof -
  show "\<not> endsWith (changesFolder ''/Demo'') ''/''" by code_simp
  show "wfOps (opsOf (\<lambda>_. demoEntry1) [entryName demoEntry1])"
    by (rule wfOps_subset [OF demo_wfOps]) (simp add: demoEntry1_def demoChange_def)
qed (simp_all add: demoPull_def lwwSchema_None)

theorem pull_complete_witness:
  "\<exists>st'. pull (memoryOps ''t1'') demoPull (\<lambda>_. 5) (\<lambda>s. (s, Inr ())) (demoPeer demoMeshRemote) = (st', Inr ())
     \<and> seenFiles (ssLocal st') = {entryName demoEntry1} \<and> inStep (\<lambda>_. demoEntry1) [] (ssLocal st')"
proof -
  have "opListFiles (memoryOps ''t1'') (changesFolder ''/Demo'') (ssRemote (demoPeer demoMeshRemote))
      = Inr (memListFiles (changesFolder ''/Demo'') demoMeshRemote)" by (simp add: memoryOps_def demoPeer_ok)
  from pull_complete [OF memcloud.cloud_adapter_axioms demoFolder(1,2) this, where mesh = "''mesh_1''" and E = "\<lambda>_. demoEntry1"
      and pending = "[]" and ns = "[entryName demoEntry1]" and loadManifest = "\<lambda>s. (s, Inr ())" and wall = "\<lambda>_. 5"]
  show ?thesis using demo_sound demoFolder demoMeshRemote_changes by (auto simp: demoPeer_ok)
qed


theorem pull_failure_witness:
  "(let st' = fst (pull (flakyOps ''t1'') demoPull (\<lambda>_. 5) (\<lambda>s. (s, Inr ())) (demoPeer demoMeshRemote))
    in seenFiles (ssLocal st') = {} \<and> ssPoison st' \<noteq> None)"
proof -
  let ?run = "pull (flakyOps ''t1'') demoPull (\<lambda>_. 5) (\<lambda>s. (s, Inr ())) (demoPeer demoMeshRemote)"
  have "(case snd ?run of Inl e \<Rightarrow> \<not> isRemoteAccessError e | Inr _ \<Rightarrow> False)" by code_simp
  then obtain e where e: "snd ?run = Inl e" "\<not> isRemoteAccessError e" by (auto split: sum.splits)
  then have "?run = (fst ?run, Inl e)" by (metis prod.collapse)
  from pull_failure [OF this] e(2) show ?thesis by (simp add: Let_def demoPeer_ok)
qed

end
