(* ===== verification/Compaction.thy ===== *)
theory Compaction
  imports Sync_Properties
begin

text \<open>
  Compaction (\<open>packages/core/src/core/compaction.ts\<close>): a device that has pulled publishes its
  rows as a snapshot under a new manifest generation and then deletes the change files the snapshot
  covers and the older snapshots; another device replaces its rows by the snapshot and pulls what
  is newer. \<open>pullf\<close> and \<open>reload\<close> stand for the callbacks of the engine, \<open>sha\<close> for the hash,
  \<open>snapId\<close> for the generated id, \<open>now\<close> for the time. The deletions that the code starts together
  are made one after the other.
\<close>

section \<open>Superseded snapshots\<close>

definition afterLastSlash :: "string \<Rightarrow> string" where
  "afterLastSlash s = rev (takeWhile (\<lambda>c. c \<noteq> CHR ''/'') (rev s))"

text \<open>The pattern \<open>^snapshot-\d+-.+\.json$\<close>; the dot matches no line terminator.\<close>

definition isSnapshotName :: "string \<Rightarrow> bool" where
  "isSnapshotName s =
     (startsWith s ''snapshot-'' \<and>
      (let rest = drop 9 s; digits = takeWhile (isDigit 10) rest; body = drop (length digits) rest
       in digits \<noteq> [] \<and> (case body of [] \<Rightarrow> False | c # tail \<Rightarrow>
            c = CHR ''-'' \<and> length tail > 5 \<and> endsWith tail ''.json''
            \<and> list_all (\<lambda>x. x \<noteq> char_of (10 :: nat) \<and> x \<noteq> char_of (13 :: nat)) tail)))"

record cleanup_result =
  crAttempted :: nat
  crDeleted :: nat
  crFailedPaths :: "string list"
  crError :: "js_error option"

fun deleteAll :: "('r, cloud_data) adapter_ops \<Rightarrow> string list \<Rightarrow> 'r \<Rightarrow> 'r \<times> string list" where
  "deleteAll ops [] r = (r, [])"
| "deleteAll ops (p # ps) r =
     (case opDeleteFile ops p r of
        (r1, res) \<Rightarrow> (case deleteAll ops ps r1 of (r2, failed) \<Rightarrow> (r2, (if isOk res then failed else p # failed))))"

definition pruneSupersededSnapshots ::
  "('r, cloud_data) adapter_ops \<Rightarrow> string \<Rightarrow> string \<Rightarrow> ('r, 'z) sync_state_scheme \<Rightarrow> ('r, 'z) sync_state_scheme \<times> cleanup_result"
where
  "pruneSupersededSnapshots ops root activeSnapshotPath st =
     (case opListFiles ops (mainlineFolder root) (ssRemote st) of
        Inl e \<Rightarrow>
          (emit (SnapshotCleanup activeSnapshotPath 0 0 [] (Some e)) st,
           \<lparr>crAttempted = 0, crDeleted = 0, crFailedPaths = [], crError = Some e\<rparr>)
      | Inr files \<Rightarrow>
          (let candidates = map fePath (filter (\<lambda>f. isSnapshotName (feName f)
                 \<and> feName f \<noteq> afterLastSlash activeSnapshotPath) files)
           in case deleteAll ops candidates (ssRemote st) of
                (r1, failedPaths) \<Rightarrow>
                  (let res = \<lparr>crAttempted = length candidates, crDeleted = length candidates - length failedPaths,
                              crFailedPaths = failedPaths, crError = None\<rparr>;
                       st1 = st\<lparr>ssRemote := r1\<rparr>
                   in ((if candidates \<noteq> []
                        then emit (SnapshotCleanup activeSnapshotPath (crAttempted res) (crDeleted res) failedPaths None) st1
                        else st1), res))))"

section \<open>Compact\<close>

definition snapshotTables :: "row list \<Rightarrow> tables" where
  "snapshotTables rows = fold (\<lambda>x tbls. setRow tbls (rmTable (meta x)) (rmRowId (meta x)) x) rows []"

record compact_context =
  ccRemotePath :: string
  ccManifest :: manifest
  ccCodec :: codec_state
  ccHlc :: hlc
  ccDeviceId :: string
  ccServerId :: string
  ccRetention :: retention_policy

definition snapshotPathFor :: "compact_context \<Rightarrow> string" where
  "snapshotPathFor cx = mainlineFolder (ccRemotePath cx) @ ''/snapshot-''
     @ toStringRadix 10 (Num (mfEpoch (ccManifest cx) + 1)) @ ''-'' @ ccServerId cx @ ''.json''"

definition buildSnapshot :: "string \<Rightarrow> string \<Rightarrow> compact_context \<Rightarrow> string list \<Rightarrow> memory_store \<Rightarrow> snapshot" where
  "buildSnapshot snapId now cx covered local =
     \<lparr>snSnapshotId = ''snap_'' @ snapId, snTimestamp = now, snHlc = hlcSerialize (ccHlc cx),
      snEpoch = mfEpoch (ccManifest cx) + 1, snSchemaVersion = mfSchema (ccManifest cx),
      snCoveredChangeFiles = Some covered, snTables = snapshotTables (storeGetAllRows local)\<rparr>"

text \<open>A lineage that is missing counts as the first; other values are copied as they are.\<close>

definition lineageOrFirst :: "jsval \<Rightarrow> jsval" where
  "lineageOrFirst v = (case v of JNull \<Rightarrow> JNum (Num 1) | JUndefined \<Rightarrow> JNum (Num 1) | _ \<Rightarrow> v)"

definition compactPayload :: "string \<Rightarrow> compact_context \<Rightarrow> manifest_payload" where
  "compactPayload now cx =
     (let m = ccManifest cx in
      \<lparr>mfGeneration = mfGeneration m + 1, mfParentGeneration = mfGeneration m, mfWrittenBy = ccServerId cx,
       mfWrittenAt = now, mfVersion = 3, mfMeshId = mfMeshId m, mfSchema = mfSchema m, mfEncrypted = mfEncrypted m,
       mfServer = mfServer m, mfCreatedAt = mfCreatedAt m, mfEpoch = mfEpoch m + 1,
       mfWatermarkHlc = hlcSerialize (ccHlc cx), mfSnapshotPath = Some (snapshotPathFor cx), mfDeltaPath = None,
       mfRetention = Some (policyInput (ccRetention cx)), mfLineage = lineageOrFirst (mfLineage m)\<rparr>)"

text \<open>The three writes, the pointer last: the new generation is authoritative once it is written.\<close>

definition publishSnapshot ::
  "(manifest_payload \<Rightarrow> string) \<Rightarrow> string \<Rightarrow> string \<Rightarrow> ('r, cloud_data) adapter_ops \<Rightarrow> compact_context \<Rightarrow>
     string list \<Rightarrow> memory_store \<Rightarrow> 'r \<Rightarrow> 'r \<times> manifest result"
where
  "publishSnapshot sha snapId now ops cx covered local r =
     (let root = ccRemotePath cx; m = withHash sha (compactPayload now cx) in
      case encodeSnapshotPayload (ccCodec cx) (buildSnapshot snapId now cx covered local) of
        Inl e \<Rightarrow> (r, Inl e)
      | Inr data \<Rightarrow>
          (case opWriteFile ops (snapshotPathFor cx) data r of
             (r1, Inl e) \<Rightarrow> (r1, Inl e)
           | (r1, Inr _) \<Rightarrow>
               (case writeJson ops (manifestFile root (mfGeneration m)) (DManifest m) r1 of
                  (r2, Inl e) \<Rightarrow> (r2, Inl e)
                | (r2, Inr _) \<Rightarrow>
                    (case writeJson ops (manifestPointer root)
                            (DPointer \<lparr>ptCurrentGeneration = mfGeneration m, ptFile = manifestFileName (mfGeneration m)\<rparr>) r2 of
                       (r3, Inl e) \<Rightarrow> (r3, Inl e)
                     | (r3, Inr _) \<Rightarrow> (r3, Inr m)))))"

text \<open>The part after the pull: capture, publish, delete what is covered.\<close>

definition compactPulled ::
  "(manifest_payload \<Rightarrow> string) \<Rightarrow> string \<Rightarrow> string \<Rightarrow> ('r, cloud_data) adapter_ops \<Rightarrow> compact_context \<Rightarrow>
     ('r, 'z) sync_state_scheme \<Rightarrow> ('r, 'z) sync_state_scheme \<times> manifest result"
where
  "compactPulled sha snapId now ops cx st1 =
     (let covered = capturedChangeFileNames (loadLedger (ssLocal st1)); root = ccRemotePath cx in
      case publishSnapshot sha snapId now ops cx covered (ssLocal st1) (ssRemote st1) of
        (r1, Inl e) \<Rightarrow> (st1\<lparr>ssRemote := r1\<rparr>, Inl e)
      | (r1, Inr m) \<Rightarrow>
          (let local1 = storeSetMeta ''epoch'' (JNum (Num (mfEpoch (ccManifest cx) + 1))) (ssLocal st1);
               r2 = fst (deleteAll ops (map (\<lambda>n. changesFolder root @ ''/'' @ n) covered) r1)
           in (fst (pruneSupersededSnapshots ops root (snapshotPathFor cx)
                      (st1\<lparr>ssLocal := local1, ssRemote := r2\<rparr>)), Inr m)))"

definition mayCompact :: "compact_context \<Rightarrow> unit result" where
  "mayCompact cx =
     (if scManaged (mfServer (ccManifest cx)) \<and> ccDeviceId cx \<noteq> ccServerId cx
      then Inl (Error ''Compaction is allowed only for the authorized server writer'') else Inr ())"

definition compact ::
  "(manifest_payload \<Rightarrow> string) \<Rightarrow> string \<Rightarrow> string \<Rightarrow> ('r, cloud_data) adapter_ops \<Rightarrow> compact_context \<Rightarrow>
     (('r, 'z) sync_state_scheme \<Rightarrow> ('r, 'z) sync_state_scheme \<times> unit result) \<Rightarrow> ('r, 'z) sync_state_scheme \<Rightarrow> ('r, 'z) sync_state_scheme \<times> manifest result"
where
  "compact sha snapId now ops cx pullf st =
     (case mayCompact cx of
        Inl e \<Rightarrow> (st, Inl e)
      | Inr _ \<Rightarrow>
          (case pullf st of
             (st1, Inl e) \<Rightarrow> (st1, Inl e)
           | (st1, Inr _) \<Rightarrow> compactPulled sha snapId now ops cx st1))"

section \<open>Rehydrate\<close>

record rehydrate_context =
  rcCodec :: codec_state
  rcManifest :: "manifest option"
  rcDeviceId :: string
  rcPreservedMeta :: "(string \<times> jsval) list"

fun setPreserved :: "(string \<times> jsval) list \<Rightarrow> memory_store \<Rightarrow> memory_store" where
  "setPreserved [] s = s"
| "setPreserved ((k, v) # rest) s = setPreserved rest (if v \<noteq> JUndefined then storeSetMeta k v s else s)"

definition replaceRows :: "(string \<times> jsval) list \<Rightarrow> tables \<Rightarrow> memory_store \<Rightarrow> memory_store" where
  "replaceRows preserved tbls s =
     fold (\<lambda>(_, rows) s1. storePutRows (map snd rows) s1) tbls (setPreserved preserved (storeClearAll s))"

definition snapshotRowCount :: "tables \<Rightarrow> nat" where
  "snapshotRowCount tbls = sum_list (map (\<lambda>(_, rows). length rows) tbls)"

text \<open>
  Restoring one snapshot file. Assigning a new object to the context's \<open>tables\<close> leaves the
  engine's row cache as it was, so the cache is not changed here.
\<close>

definition restoreFrom ::
  "('r, cloud_data) adapter_ops \<Rightarrow> rehydrate_context \<Rightarrow> string \<Rightarrow> ('r, 'z) sync_state_scheme \<Rightarrow>
     ('r, 'z) sync_state_scheme \<times> (nat \<times> hlc option) result"
where
  "restoreFrom ops cx path st =
     (case opReadFile ops path (ssRemote st) of
        Inl e \<Rightarrow> (st, Inl e)
      | Inr data \<Rightarrow>
          (case decodeSnapshotPayload (rcCodec cx) data (ssLocal st) of
             (local1, Inl e) \<Rightarrow> (st\<lparr>ssLocal := local1\<rparr>, Inl e)
           | (local1, Inr snap) \<Rightarrow>
               (let covered = (case snCoveredChangeFiles snap of None \<Rightarrow> [] | Some fs \<Rightarrow> fs);
                    st1 = st\<lparr>ssKnownTables := fold (\<lambda>(t, _). jsetAdd t) (snTables snap) []\<rparr>
                in case restoreSnapshot (snHlc snap) covered
                          (\<lambda>s. (replaceRows (rcPreservedMeta cx) (snTables snap) s, Inr ())) local1 of
                     (local2, Inl e) \<Rightarrow> (st1\<lparr>ssLocal := local2\<rparr>, Inl e)
                   | (local2, Inr _) \<Rightarrow>
                       (st1\<lparr>ssLocal := storeSetMeta ''epoch'' (JNum (Num (snEpoch snap))) local2\<rparr>,
                        Inr (snapshotRowCount (snTables snap),
                             if snHlc snap \<noteq> '''' then Some ((hlcParse (snHlc snap))\<lparr>nodeId := rcDeviceId cx\<rparr>) else None)))))"

text \<open>A superseded path may be gone; then the manifest is loaded again and its path is tried once.\<close>

definition restoreOrReload ::
  "('r, cloud_data) adapter_ops \<Rightarrow> rehydrate_context \<Rightarrow> (('r, 'z) sync_state_scheme \<Rightarrow> ('r, 'z) sync_state_scheme \<times> manifest option result) \<Rightarrow>
     string \<Rightarrow> ('r, 'z) sync_state_scheme \<Rightarrow> ('r, 'z) sync_state_scheme \<times> string \<times> (nat \<times> hlc option) result"
where
  "restoreOrReload ops cx reload path st =
     (case restoreFrom ops cx path st of
        (st1, Inr x) \<Rightarrow> (st1, path, Inr x)
      | (st1, Inl firstError) \<Rightarrow>
          (case reload st1 of
             (st2, Inl e) \<Rightarrow> (st2, path, Inl e)
           | (st2, Inr refreshed) \<Rightarrow>
               (case Option.bind refreshed mfSnapshotPath of
                  None \<Rightarrow> (st2, path, Inl firstError)
                | Some path2 \<Rightarrow>
                    if path2 = '''' \<or> path2 = path then (st2, path, Inl firstError)
                    else (case restoreFrom ops cx path2 st2 of (st3, res) \<Rightarrow> (st3, path2, res)))))"

text \<open>The part before the pull: it leaves the clock to set once the pull has succeeded.\<close>

definition rehydrateRestore ::
  "('r, cloud_data) adapter_ops \<Rightarrow> rehydrate_context \<Rightarrow> (('r, 'z) sync_state_scheme \<Rightarrow> ('r, 'z) sync_state_scheme \<times> manifest option result) \<Rightarrow>
     ('r, 'z) sync_state_scheme \<Rightarrow> ('r, 'z) sync_state_scheme \<times> hlc result"
where
  "rehydrateRestore ops cx reload st =
     (let st0 = emit RehydrateStart st in
      case Option.bind (rcManifest cx) mfSnapshotPath of
        None \<Rightarrow> (emit (RehydrateComplete 0) st0, Inr (ssHlc st))
      | Some path \<Rightarrow>
          if path = '''' then (emit (RehydrateComplete 0) st0, Inr (ssHlc st))
          else
            (case restoreOrReload ops cx reload path st0 of
               (st1, _, Inr (rowCount, clock)) \<Rightarrow>
                 (emit (RehydrateComplete rowCount) st1, Inr (case clock of None \<Rightarrow> ssHlc st | Some h \<Rightarrow> h))
             | (st1, lastPath, Inl e) \<Rightarrow>
                 (case poisonRemote ops e lastPath (emit (DecodeError e lastPath) st1) of
                    (st2, poisoned) \<Rightarrow> (emit (SyncErrorEvent poisoned) st2, Inl poisoned))))"

definition rehydrate ::
  "('r, cloud_data) adapter_ops \<Rightarrow> rehydrate_context \<Rightarrow> (('r, 'z) sync_state_scheme \<Rightarrow> ('r, 'z) sync_state_scheme \<times> manifest option result) \<Rightarrow>
     (('r, 'z) sync_state_scheme \<Rightarrow> ('r, 'z) sync_state_scheme \<times> unit result) \<Rightarrow> ('r, 'z) sync_state_scheme \<Rightarrow> ('r, 'z) sync_state_scheme \<times> unit result"
where
  "rehydrate ops cx reload pullf st =
     (case rehydrateRestore ops cx reload st of
        (st1, Inl e) \<Rightarrow> (st1, Inl e)
      | (st1, Inr clock) \<Rightarrow>
          (case pullf st1 of
             (st2, Inl e) \<Rightarrow> (st2, Inl e)
           | (st2, Inr _) \<Rightarrow> (st2\<lparr>ssHlc := clock\<rparr>, Inr ())))"

section \<open>The rows of a snapshot\<close>

definition tablesOk :: "tables \<Rightarrow> bool" where
  "tablesOk tbls = (distinct (map fst tbls) \<and> (\<forall>(t, tb) \<in> set tbls. distinct (map fst tb)))"

lemma tablesOk_getTable: "tablesOk tbls \<Longrightarrow> distinct (map fst (getTable tbls t))"
  by (auto simp: tablesOk_def getTable_def split: option.split dest: map_of_SomeD)

lemma tablesOk_setRow: "tablesOk tbls \<Longrightarrow> tablesOk (setRow tbls t r x)"
proof -
  assume ok: "tablesOk tbls"
  have "set (AList.update t v tbls) \<subseteq> insert (t, v) (set tbls)" for v
    by (induction tbls) auto
  then show ?thesis
    using ok tablesOk_getTable [OF ok, of t] unfolding tablesOk_def setRow_def
    by (fastforce intro: distinct_update)
qed

definition tableRows :: "tables \<Rightarrow> row list" where
  "tableRows tbls = concat (map (\<lambda>(_, tb). map snd tb) tbls)"

lemma set_tableRows:
  assumes "tablesOk tbls"
  shows "x \<in> set (tableRows tbls) \<longleftrightarrow> (\<exists>t r. getRow tbls t r = Some x)"
proof
  assume "x \<in> set (tableRows tbls)"
  then obtain t tb r where "(t, tb) \<in> set tbls" "(r, x) \<in> set tb" by (force simp: tableRows_def)
  moreover have "distinct (map fst tb)" using assms \<open>(t, tb) \<in> set tbls\<close> by (auto simp: tablesOk_def)
  ultimately have "getRow tbls t r = Some x"
    using assms by (simp add: getRow_def getTable_def tablesOk_def)
  then show "\<exists>t r. getRow tbls t r = Some x" by blast
next
  assume "\<exists>t r. getRow tbls t r = Some x"
  then obtain t r tb where "map_of tbls t = Some tb" "map_of tb r = Some x"
    by (auto simp: getRow_def getTable_def split: option.splits)
  then show "x \<in> set (tableRows tbls)" by (force simp: tableRows_def dest!: map_of_SomeD)
qed

lemma snapshotTables_ok: "tablesOk (snapshotTables rows)"
proof -
  have "tablesOk tbls \<Longrightarrow> tablesOk (fold (\<lambda>x tbls. setRow tbls (rmTable (meta x)) (rmRowId (meta x)) x) rows tbls)" for tbls
    by (induction rows arbitrary: tbls) (auto intro: tablesOk_setRow)
  moreover have "tablesOk []" by (simp add: tablesOk_def)
  ultimately show ?thesis by (simp add: snapshotTables_def)
qed

lemma getRow_snapshotTables:
  assumes "distinct (map refOf rows)"
  shows "getRow (snapshotTables rows) t r = Some x \<longleftrightarrow> x \<in> set rows \<and> refOf x = (t, r)"
proof -
  have "getRow (fold (\<lambda>x tbls. setRow tbls (rmTable (meta x)) (rmRowId (meta x)) x) rows tbls) t r =
      (case map_of (rev (map (\<lambda>x. (refOf x, x)) rows)) (t, r) of None \<Rightarrow> getRow tbls t r | Some y \<Rightarrow> Some y)" for tbls
    by (induction rows arbitrary: tbls) (auto simp: crdt_simps refOf_def map_add_def split: option.split)
  moreover have "map_of (rev (map (\<lambda>x. (refOf x, x)) rows)) (t, r) = Some x \<longleftrightarrow> x \<in> set rows \<and> refOf x = (t, r)"
    using assms by (subst map_of_eq_Some_iff) (auto simp: rev_map [symmetric] comp_def image_iff)
  ultimately show ?thesis by (auto simp: snapshotTables_def crdt_simps split: option.splits)
qed

text \<open>What every operation keeps of the store: a row is filed under its own key, once.\<close>

definition storeOk :: "memory_store \<Rightarrow> bool" where
  "storeOk s = (distinct (map fst (msRows s)) \<and>
     (\<forall>(k, x) \<in> set (msRows s). k = rowKey (rmTable (meta x)) (rmRowId (meta x)) \<and> okTableName (rmTable (meta x))))"

lemma storeOk_refs: "storeOk s \<Longrightarrow> distinct (map refOf (storeGetAllRows s))"
proof -
  assume ok: "storeOk s"
  have key: "k = rowKey (fst (refOf x)) (snd (refOf x))" if "(k, x) \<in> set (msRows s)" for k x
    using ok that by (auto simp: storeOk_def refOf_def)
  have "inj_on (\<lambda>p. refOf (snd p)) (set (msRows s))"
  proof (rule inj_onI)
    fix a b assume a: "a \<in> set (msRows s)" "b \<in> set (msRows s)" "refOf (snd a) = refOf (snd b)"
    then have "fst a = fst b" using key [of "fst a" "snd a"] key [of "fst b" "snd b"] by simp
    with a ok show "a = b" unfolding storeOk_def distinct_map by (blast dest: inj_onD)
  qed
  then show ?thesis
    using ok by (simp add: storeGetAllRows_def storeOk_def distinct_map comp_def)
qed

lemma storeOk_lookup:
  assumes "storeOk s" "okTableName t"
  shows "storeGetRow s t r = Some x \<longleftrightarrow> x \<in> set (storeGetAllRows s) \<and> refOf x = (t, r)"
proof -
  have "(rowKey t r, x) \<in> set (msRows s) \<longleftrightarrow> x \<in> snd ` set (msRows s) \<and> refOf x = (t, r)"
    using assms rowKey_inject [OF assms(2)] unfolding storeOk_def refOf_def by force
  then show ?thesis using assms(1) by (simp add: storeGetRow_def storeGetAllRows_def storeOk_def)
qed

lemma storePutRows_append: "storePutRows (xs @ ys) s = storePutRows ys (storePutRows xs s)"
  by (induction xs arbitrary: s) simp_all

lemma replaceRows_eq: "replaceRows p tbls s = storePutRows (tableRows tbls) (setPreserved p (storeClearAll s))"
proof -
  have "fold (\<lambda>(_, rows). storePutRows (map snd rows)) tbls s0 = storePutRows (tableRows tbls) s0" for s0
    by (induction tbls arbitrary: s0) (auto simp: tableRows_def storePutRows_append)
  then show ?thesis by (simp add: replaceRows_def)
qed

lemma msRows_setPreserved: "msRows (setPreserved p s) = msRows s"
  by (induction p arbitrary: s) (auto simp: storeSetMeta_def)

text \<open>A snapshot of a store restores the store's rows.\<close>

lemma restored_rows:
  assumes ok: "storeOk src" and t: "okTableName t"
  shows "storeGetRow (replaceRows p (snapshotTables (storeGetAllRows src)) s) t r = map_option withKey (storeGetRow src t r)"
proof -
  let ?rows = "tableRows (snapshotTables (storeGetAllRows src))" and ?s0 = "setPreserved p (storeClearAll s)"
  have rows: "set ?rows = set (storeGetAllRows src)"
    using set_tableRows [OF snapshotTables_ok] getRow_snapshotTables [OF storeOk_refs [OF ok]] by (auto simp: refOf_def)
  have names: "\<forall>x \<in> set ?rows. okTableName (rmTable (meta x))"
    using ok unfolding rows by (auto simp: storeOk_def storeGetAllRows_def)
  show ?thesis
  proof (cases "storeGetRow src t r")
    case None
    then have "\<forall>x \<in> set ?rows. refOf x \<noteq> (t, r)" using storeOk_lookup [OF ok t, of r] unfolding rows by force
    moreover have "storeGetRow ?s0 t r = None" by (simp add: storeGetRow_def msRows_setPreserved storeClearAll_def)
    ultimately show ?thesis using storeGetRow_putRows_other [OF t names] None by (simp add: replaceRows_eq)
  next
    case (Some y)
    then have y: "y \<in> set ?rows" "refOf y = (t, r)" using storeOk_lookup [OF ok t, of r y] unfolding rows by auto
    have uniq: "\<forall>x \<in> set ?rows. refOf x = (t, r) \<longrightarrow> x = y"
    proof (intro ballI impI)
      fix x assume "x \<in> set ?rows" "refOf x = (t, r)"
      then have "storeGetRow src t r = Some x" using storeOk_lookup [OF ok t, of r x] unfolding rows by simp
      with Some show "x = y" by simp
    qed
    show ?thesis unfolding replaceRows_eq storeGetRow_putRows [OF t names uniq y] Some by simp
  qed
qed

lemma rowsHold_restored:
  assumes "rowsHold src ops" "\<And>t r. okTableName t \<Longrightarrow> storeGetRow s t r = map_option withKey (storeGetRow src t r)"
  shows "rowsHold s ops"
proof -
  have opt: "rowInv C D (map_option withKey x) \<longleftrightarrow> rowInv C D x" for C D and x :: "row option" by (cases x) simp_all
  show ?thesis
    using assms(1) unfolding rowsHold_def
    by (intro allI impI) (auto simp: assms(2) opt)
qed

lemma observeCovered_ok: "\<forall>n \<in> set ns. changeFileHlc n \<noteq> None \<Longrightarrow> \<exists>l'. observeCovered ns l = Inr l'"
proof (induction ns arbitrary: l)
  case (Cons n ns)
  then obtain h where h: "changeFileHlc n = Some h" by auto
  obtain l1 late where "observe n h l = Inr (l1, late)" using observe_ok [of n h l] h by auto
  with Cons h show ?case by simp
qed simp

lemma storeClearAll_new [simp]: "storeClearAll s = newMemoryStore"
  by (simp add: storeClearAll_def newMemoryStore_def)

lemma storeGetMeta_replaceRows [simp]: "storeGetMeta (replaceRows p tbls s) k = storeGetMeta (setPreserved p newMemoryStore) k"
  by (simp add: replaceRows_eq)

lemma restoreFrom_ok:
  assumes rd: "opReadFile ops path (ssRemote st) = Inr data"
    and dec: "decodeSnapshotPayload (rcCodec cx) data (ssLocal st) = (l1, Inr snap)"
    and snap: "snCoveredChangeFiles snap = Some covered" "snTables snap = snapshotTables (storeGetAllRows src)"
    and src: "storeOk src" "\<forall>n \<in> set covered. changeFileHlc n \<noteq> None"
    and pres: "boundTo mesh (setPreserved (rcPreservedMeta cx) newMemoryStore)"
  shows "\<exists>st' n h. restoreFrom ops cx path st = (st', Inr (n, h)) \<and> ssRemote st' = ssRemote st \<and> ssPoison st' = ssPoison st
    \<and> seenFiles (ssLocal st') = set covered \<and> boundTo mesh (ssLocal st')
    \<and> (\<forall>t r. okTableName t \<longrightarrow> storeGetRow (ssLocal st') t r = map_option withKey (storeGetRow src t r))"
proof -
  let ?replace = "\<lambda>s. (replaceRows (rcPreservedMeta cx) (snTables snap) s, Inr ())"
  let ?l0 = "\<lparr>ldHighWater = snHlc snap, ldSeen = [], ldFrontiers = [], ldExact = True,
    ldGeneration = observationGeneration l1 + 1\<rparr>"
  obtain l where l: "observeCovered covered ?l0 = Inr l" using observeCovered_ok [OF src(2)] by blast
  obtain v where res: "restoreSnapshot (snHlc snap) covered ?replace l1
      = (storeSetMeta OBSERVATION_META_KEY v (replaceRows (rcPreservedMeta cx) (snTables snap) l1), Inr ())"
    using l by (simp add: restoreSnapshot_def Let_def)
  let ?l2 = "storeSetMeta ''epoch'' (JNum (Num (snEpoch snap)))
    (storeSetMeta OBSERVATION_META_KEY v (replaceRows (rcPreservedMeta cx) (snTables snap) l1))"
  have "''epoch'' \<noteq> OBSERVATION_META_KEY" by (simp add: OBSERVATION_META_KEY_def)
  then have "seenFiles ?l2 = set covered" using restoreSnapshot_ok [OF res] by (simp add: seenFiles_def [symmetric])
  moreover have "boundTo mesh ?l2"
    using pres by (simp add: boundTo_def OBSERVATION_META_KEY_def)
  moreover have "storeGetRow ?l2 t r = map_option withKey (storeGetRow src t r)" if "okTableName t" for t r
    using restored_rows [OF src(1) that] by (simp add: snap(2))
  ultimately show ?thesis using rd dec res snap(1) by (simp add: restoreFrom_def Let_def)
qed

section \<open>What compaction does to the remote\<close>

lemma snapshot_paths:
  "snapshotPathFor cx \<noteq> manifestPointer (ccRemotePath cx)" "snapshotPathFor cx \<noteq> manifestFile (ccRemotePath cx) g"
  "manifestFile root g \<noteq> manifestPointer root"
  "changesFolder (ccRemotePath cx) @ ''/'' @ n \<noteq> snapshotPathFor cx" "changesFolder root @ ''/'' @ n \<noteq> manifestPointer root"
  "changesFolder root @ ''/'' @ n \<noteq> manifestFile root g"
  by (simp_all add: snapshotPathFor_def path_defs changesFolder_def)

lemma afterLastSlash_child: "CHR ''/'' \<notin> set n \<Longrightarrow> afterLastSlash (f @ ''/'' @ n) = n"
proof -
  assume "CHR ''/'' \<notin> set n"
  then have "takeWhile (\<lambda>c. c \<noteq> CHR ''/'') (rev n @ CHR ''/'' # rev f) = rev n"
    by (subst takeWhile_append2) auto
  then show ?thesis by (simp add: afterLastSlash_def)
qed

text \<open>An adapter of mesh documents of which any operation may fail at any time.\<close>

locale document_adapter = storage_adapter ops contents okFolder
  for ops :: "('r, cloud_data) adapter_ops" and contents :: "'r \<Rightarrow> string \<Rightarrow> cloud_data option"
    and okFolder :: "string \<Rightarrow> bool"
begin

lemma deleteAll_contents:
  "contents (fst (deleteAll ops ps r)) p = contents r p \<or> p \<in> set ps \<and> contents (fst (deleteAll ops ps r)) p = None"
proof (induction ps arbitrary: r)
  case (Cons q ps)
  obtain r1 res where d: "opDeleteFile ops q r = (r1, res)" by force
  have "contents r1 p = (if isOk res \<and> p = q then None else contents r p)" using delete_file [OF d] by simp
  with Cons [of r1] d show ?case by (auto split: prod.splits if_splits)
qed simp

lemma prune_contents:
  assumes "okFolder (mainlineFolder root)" "r' = ssRemote (fst (pruneSupersededSnapshots ops root sp st))"
  shows "contents r' p = contents (ssRemote st) p
    \<or> contents r' p = None \<and> p \<noteq> sp \<and> (\<exists>n. directChild (mainlineFolder root) n p \<and> isSnapshotName n)"
proof (cases "opListFiles ops (mainlineFolder root) (ssRemote st)")
  case (Inl e)
  with assms(2) show ?thesis by (simp add: pruneSupersededSnapshots_def)
next
  case (Inr files)
  let ?cs = "map fePath (filter (\<lambda>f. isSnapshotName (feName f) \<and> feName f \<noteq> afterLastSlash sp) files)"
  have r': "r' = fst (deleteAll ops ?cs (ssRemote st))"
    using assms(2) Inr by (auto simp: pruneSupersededSnapshots_def Let_def split: prod.splits)
  have "p \<noteq> sp \<and> (\<exists>n. directChild (mainlineFolder root) n p \<and> isSnapshotName n)" if mem: "p \<in> set ?cs"
  proof -
    obtain f where f: "f \<in> set files" "fePath f = p" "isSnapshotName (feName f)" "feName f \<noteq> afterLastSlash sp"
      using mem by auto
    then have "directChild (mainlineFolder root) (feName f) p" using list_ok [OF assms(1) Inr] by blast
    with f show ?thesis by (auto simp: directChild_def dest: afterLastSlash_child [of _ "mainlineFolder root"])
  qed
  then show ?thesis using deleteAll_contents [of ?cs "ssRemote st" p] unfolding r' by blast
qed

lemma publish_contents:
  assumes run: "publishSnapshot sha snapId now ops cx covered local r = (r', res)"
  shows "case res of
     Inl e \<Rightarrow> (\<forall>p. p \<noteq> snapshotPathFor cx \<and> p \<noteq> manifestFile (ccRemotePath cx) (mfGeneration (ccManifest cx) + 1)
                \<longrightarrow> contents r' p = contents r p)
   | Inr m \<Rightarrow> m = withHash sha (compactPayload now cx)
      \<and> (\<exists>data. encodeSnapshotPayload (ccCodec cx) (buildSnapshot snapId now cx covered local) = Inr data
           \<and> contents r' = (contents r)(snapshotPathFor cx \<mapsto> data,
                manifestFile (ccRemotePath cx) (mfGeneration m) \<mapsto> JsonText (DManifest m),
                manifestPointer (ccRemotePath cx) \<mapsto> JsonText (DPointer \<lparr>ptCurrentGeneration = mfGeneration m,
                   ptFile = manifestFileName (mfGeneration m)\<rparr>)))"
proof -
  have gen: "mfGeneration (withHash sha (compactPayload now cx)) = mfGeneration (ccManifest cx) + 1"
    by (simp add: compactPayload_def Let_def)
  show ?thesis
  proof (cases "encodeSnapshotPayload (ccCodec cx) (buildSnapshot snapId now cx covered local)")
    case (Inl e)
    with run show ?thesis by (auto simp: publishSnapshot_def Let_def)
  next
    case enc: (Inr data)
    let ?m = "withHash sha (compactPayload now cx)" and ?root = "ccRemotePath cx"
    obtain r1 w1 where w1: "opWriteFile ops (snapshotPathFor cx) data r = (r1, w1)" by force
    obtain r2 w2 where w2: "opWriteFile ops (manifestFile ?root (mfGeneration ?m)) (JsonText (DManifest ?m)) r1 = (r2, w2)"
      by force
    obtain r3 w3 where w3: "opWriteFile ops (manifestPointer ?root) (JsonText (DPointer \<lparr>ptCurrentGeneration = mfGeneration ?m,
        ptFile = manifestFileName (mfGeneration ?m)\<rparr>)) r2 = (r3, w3)" by force
    note c = write_file [OF w1] write_file [OF w2] write_file [OF w3]
    show ?thesis
      using run enc w1 w2 w3 c gen
      by (cases w1; cases w2; cases w3) (auto simp: publishSnapshot_def Let_def writeJson_def)
  qed
qed

end

interpretation memdoc: document_adapter "memoryOps now" memFile "\<lambda>f. \<not> endsWith f ''/''"
  by unfold_locales

interpretation flakydoc: document_adapter "flakyOps now" memFile "\<lambda>f. \<not> endsWith f ''/''"
  by unfold_locales

sublocale cloud_adapter < doc: document_adapter ops contents okFolder
  by unfold_locales

section \<open>Properties\<close>

definition publishedPaths :: "compact_context \<Rightarrow> string set" where
  "publishedPaths cx = {snapshotPathFor cx, manifestFile (ccRemotePath cx) (mfGeneration (ccManifest cx) + 1),
     manifestPointer (ccRemotePath cx)}"

lemma compact_remote:
  assumes adapter: "document_adapter ops contents okFolder" "okFolder (mainlineFolder (ccRemotePath cx))"
    and run: "compact sha snapId now ops cx pullf st = (st', res)"
    and pulled: "pullf st = (st1, pres)" "contents (ssRemote st1) = contents (ssRemote st)"
  shows "(case res of
     Inl e \<Rightarrow> \<forall>p. p \<notin> publishedPaths cx - {manifestPointer (ccRemotePath cx)} \<longrightarrow>
                contents (ssRemote st') p = contents (ssRemote st) p
   | Inr m \<Rightarrow> contents (ssRemote st') (manifestPointer (ccRemotePath cx)) = Some (JsonText (DPointer
          \<lparr>ptCurrentGeneration = mfGeneration m, ptFile = manifestFileName (mfGeneration m)\<rparr>))
      \<and> contents (ssRemote st') (manifestFile (ccRemotePath cx) (mfGeneration m)) = Some (JsonText (DManifest m))
      \<and> validateManifestHash sha m = Inr () \<and> mfSnapshotPath m = Some (snapshotPathFor cx)
      \<and> (\<exists>data. contents (ssRemote st') (snapshotPathFor cx) = Some data
           \<and> encodeSnapshotPayload (ccCodec cx) (buildSnapshot snapId now cx
                (capturedChangeFileNames (loadLedger (ssLocal st1))) (ssLocal st1)) = Inr data)
      \<and> (\<forall>p. p \<notin> publishedPaths cx \<longrightarrow> contents (ssRemote st') p = contents (ssRemote st) p
           \<or> contents (ssRemote st') p = None
             \<and> (p \<in> changeFile (ccRemotePath cx) ` seenFiles (ssLocal st1)
                \<or> (\<exists>n. directChild (mainlineFolder (ccRemotePath cx)) n p \<and> isSnapshotName n))))"
proof (cases "scManaged (mfServer (ccManifest cx)) \<and> ccDeviceId cx \<noteq> ccServerId cx \<or> \<not> isOk pres")
  case True
  then show ?thesis using run pulled by (cases pres) (auto simp: compact_def mayCompact_def compactPulled_def split: if_splits)
next
  case False
  then have p: "pullf st = (st1, Inr ())" using pulled(1) by (cases pres) auto
  let ?root = "ccRemotePath cx" and ?covered = "capturedChangeFileNames (loadLedger (ssLocal st1))"
  obtain r1 pub where pub: "publishSnapshot sha snapId now ops cx ?covered (ssLocal st1) (ssRemote st1) = (r1, pub)" by force
  note c1 = document_adapter.publish_contents [OF adapter(1) pub]
  show ?thesis
  proof (cases pub)
    case (Inl e)
    have "st' = st1\<lparr>ssRemote := r1\<rparr>" "res = Inl e" using run False p pub Inl by (auto simp: compact_def mayCompact_def compactPulled_def)
    with c1 Inl pulled(2) snapshot_paths(1,3) [symmetric] show ?thesis by (auto simp: publishedPaths_def)
  next
    case (Inr m)
    let ?ps = "map (\<lambda>n. changesFolder ?root @ ''/'' @ n) ?covered"
    let ?st2 = "st1\<lparr>ssLocal := storeSetMeta ''epoch'' (JNum (Num (mfEpoch (ccManifest cx) + 1))) (ssLocal st1),
        ssRemote := fst (deleteAll ops ?ps r1)\<rparr>"
    have out: "res = Inr m" "st' = fst (pruneSupersededSnapshots ops ?root (snapshotPathFor cx) ?st2)"
      using run False p pub Inr by (auto simp: compact_def mayCompact_def compactPulled_def Let_def)
    have m: "m = withHash sha (compactPayload now cx)" "mfGeneration m = mfGeneration (ccManifest cx) + 1"
      using c1 Inr by (simp_all add: compactPayload_def Let_def)
    have ps: "p \<in> set ?ps \<longleftrightarrow> p \<in> changeFile ?root ` seenFiles (ssLocal st1)" for p
      by (auto simp: seenFiles_def changeFile_def capturedChangeFileNames_def)
    have step: "contents (ssRemote st') p = contents r1 p \<or> contents (ssRemote st') p = None \<and> p \<noteq> snapshotPathFor cx
        \<and> (p \<in> set ?ps \<or> (\<exists>n. directChild (mainlineFolder ?root) n p \<and> isSnapshotName n))" for p
    proof -
      have s1: "contents (ssRemote ?st2) p = contents r1 p \<or> p \<in> set ?ps \<and> contents (ssRemote ?st2) p = None"
        using document_adapter.deleteAll_contents [OF adapter(1), of ?ps r1 p] by simp
      have "p \<in> set ?ps \<Longrightarrow> p \<noteq> snapshotPathFor cx" using snapshot_paths(4) [of cx] by auto
      with s1 document_adapter.prune_contents [OF adapter refl, of "snapshotPathFor cx" ?st2 p] show ?thesis
        unfolding out(2) by auto
    qed
    have kept: "contents (ssRemote st') p = contents r1 p" if "p \<in> publishedPaths cx" for p
    proof -
      have "p \<notin> set ?ps" using that snapshot_paths(4,5,6) unfolding publishedPaths_def by auto
      moreover have "\<not> directChild (mainlineFolder ?root) n p" if "p \<noteq> snapshotPathFor cx" for n
        using that \<open>p \<in> publishedPaths cx\<close>
        by (auto simp: publishedPaths_def directChild_def mainlineFolder_def manifestPointer_def manifestFile_def manifestFileName_def)
      ultimately show ?thesis using step [of p] by blast
    qed
    have sp: "mfSnapshotPath m = Some (snapshotPathFor cx)" using m by (simp add: compactPayload_def Let_def)
    obtain data where data: "encodeSnapshotPayload (ccCodec cx) (buildSnapshot snapId now cx ?covered (ssLocal st1)) = Inr data"
      "contents r1 = (contents (ssRemote st1))(snapshotPathFor cx \<mapsto> data,
         manifestFile ?root (mfGeneration m) \<mapsto> JsonText (DManifest m),
         manifestPointer ?root \<mapsto> JsonText (DPointer \<lparr>ptCurrentGeneration = mfGeneration m,
           ptFile = manifestFileName (mfGeneration m)\<rparr>))"
      using c1 Inr by auto
    have "contents r1 p = contents (ssRemote st) p" if "p \<notin> publishedPaths cx" for p
      using that data(2) m(2) pulled(2) by (simp add: publishedPaths_def)
    then have gone: "contents (ssRemote st') p = contents (ssRemote st) p \<or> contents (ssRemote st') p = None
        \<and> (p \<in> changeFile ?root ` seenFiles (ssLocal st1) \<or> (\<exists>n. directChild (mainlineFolder ?root) n p \<and> isSnapshotName n))"
      if "p \<notin> publishedPaths cx" for p
      using that step [of p] unfolding ps by metis
    have three: "contents (ssRemote st') (manifestPointer ?root) = contents r1 (manifestPointer ?root)"
      "contents (ssRemote st') (manifestFile ?root (mfGeneration m)) = contents r1 (manifestFile ?root (mfGeneration m))"
      "contents (ssRemote st') (snapshotPathFor cx) = contents r1 (snapshotPathFor cx)"
      by (rule kept, simp add: publishedPaths_def m(2))+
    have "validateManifestHash sha m = Inr ()" using m(1) by simp
    then show ?thesis
      using gone three data sp snapshot_paths(1,2) [of cx] snapshot_paths(3) [of "ccRemotePath cx"]
      unfolding out(1) sum.case by simp
  qed
qed

text \<open>C13: Compaction loses nothing, whatever the adapter does and wherever it fails. If it fails,
  the pointer and every file but the two new ones are as before. If it succeeds, the pointer names
  the new manifest, the manifest names the snapshot, and the snapshot holds the rows and the
  receipts of the store; the only files gone are change files those receipts list and older
  snapshots.\<close>

theorem compact_loses_nothing:
  assumes adapter: "document_adapter ops contents okFolder" "okFolder (mainlineFolder (ccRemotePath cx))"
    and run: "compact sha snapId now ops cx pullf st = (st', res)"
    and pulled: "pullf st = (st1, pres)" "contents (ssRemote st1) = contents (ssRemote st)"
  shows "(case res of
     Inl e \<Rightarrow> \<forall>p. p \<notin> publishedPaths cx - {manifestPointer (ccRemotePath cx)} \<longrightarrow>
                contents (ssRemote st') p = contents (ssRemote st) p
   | Inr m \<Rightarrow> contents (ssRemote st') (manifestPointer (ccRemotePath cx)) = Some (JsonText (DPointer
          \<lparr>ptCurrentGeneration = mfGeneration m, ptFile = manifestFileName (mfGeneration m)\<rparr>))
      \<and> contents (ssRemote st') (manifestFile (ccRemotePath cx) (mfGeneration m)) = Some (JsonText (DManifest m))
      \<and> validateManifestHash sha m = Inr () \<and> mfSnapshotPath m = Some (snapshotPathFor cx)
      \<and> (\<exists>data. contents (ssRemote st') (snapshotPathFor cx) = Some data
           \<and> encodeSnapshotPayload (ccCodec cx) (buildSnapshot snapId now cx
                (capturedChangeFileNames (loadLedger (ssLocal st1))) (ssLocal st1)) = Inr data)
      \<and> (\<forall>p. p \<notin> publishedPaths cx \<longrightarrow> contents (ssRemote st') p = contents (ssRemote st) p
           \<or> contents (ssRemote st') p = None
             \<and> (p \<in> changeFile (ccRemotePath cx) ` seenFiles (ssLocal st1)
                \<or> (\<exists>n. directChild (mainlineFolder (ccRemotePath cx)) n p \<and> isSnapshotName n))))"
  using adapter run pulled by (rule compact_remote)

text \<open>C14: A device that rehydrates catches up as if it had read every change file: when a device in
  step compacts, another device that replaces its rows by the snapshot and pulls from that remote
  succeeds and is in step with every file the snapshot covered and every file still there. Its
  earlier rows and receipts do not matter.\<close>

theorem rehydrate_catches_up:
  assumes adapter: "cloud_adapter ops contents okFolder" "okFolder (mainlineFolder (ccRemotePath cx))"
      "okFolder (changesFolder (ccRemotePath cx))"
    and run: "compact sha snapId now ops cx pullf st = (st', Inr m)"
    and pulled: "pullf st = (st1, Inr ())" "contents (ssRemote st1) = contents (ssRemote st)"
    and source: "storeOk (ssLocal st1)" "inStep E [] (ssLocal st1)" "\<forall>n \<in> seenFiles (ssLocal st1). changeFileHlc n \<noteq> None"
    and meshes: "sameMesh (ccCodec cx) (rcCodec rx)" "csManifest (ccCodec cx) = Some mf" "mfMeshId mf \<noteq> ''''"
      "boundTo (mfMeshId mf) (ssLocal dev)" "boundTo (mfMeshId mf) (setPreserved (rcPreservedMeta rx) newMemoryStore)"
    and dev: "rcManifest rx = Some m" "ssRemote dev = ssRemote st'"
    and ctx: "pcRemotePath ctx = ccRemotePath cx" "lwwSchema (pcSchema ctx)" "\<forall>s. loadManifest s = (s, Inr ())"
      "opListFiles ops (changesFolder (ccRemotePath cx)) (ssRemote st') = Inr files"
      "remoteSound contents (ccRemotePath cx) (pcCodec ctx) (mfMeshId mf) E (ssRemote st')"
    and hist: "set ns = seenFiles (ssLocal st1) \<union> remoteChanges contents (ccRemotePath cx) (ssRemote st')" "wfOps (opsOf E ns)"
  shows "\<exists>dev'. rehydrate ops rx reload (pull ops ctx wall loadManifest) dev = (dev', Inr ())
    \<and> seenFiles (ssLocal dev') = set ns \<and> inStep E [] (ssLocal dev') \<and> ssPoison dev' = ssPoison dev"
proof -
  let ?sp = "snapshotPathFor cx" and ?covered = "capturedChangeFileNames (loadLedger (ssLocal st1))"
  let ?snap = "buildSnapshot snapId now cx ?covered (ssLocal st1)"
  have doc: "document_adapter ops contents okFolder" using adapter(1) by (simp add: cloud_adapter_def document_adapter_def)
  obtain data where data: "contents (ssRemote st') ?sp = Some data" "encodeSnapshotPayload (ccCodec cx) ?snap = Inr data"
    and sp: "mfSnapshotPath m = Some ?sp"
    using compact_remote [OF doc adapter(2) run pulled] by auto
  have nonempty: "?sp \<noteq> ''''" by (simp add: snapshotPathFor_def)
  let ?dev0 = "emit RehydrateStart dev"
  have rd: "opReadFile ops ?sp (ssRemote ?dev0) = Inr data"
    using cloud_adapter.reads [OF adapter(1) data(1)] dev(2) by simp
  obtain data' where "encodeSnapshotPayload (ccCodec cx) ?snap = Inr data'"
    and dec: "decodeSnapshotPayload (rcCodec rx) data' (ssLocal ?dev0) = (storeSetMeta ''meshId'' (JStr (mfMeshId mf)) (ssLocal dev), Inr ?snap)"
    using decodeSnapshotPayload_encode [OF meshes(1-4), of ?snap] by auto
  with data rd have rd': "opReadFile ops ?sp (ssRemote ?dev0) = Inr data'" by simp
  have covered: "set ?covered = seenFiles (ssLocal st1)" by (simp add: capturedChangeFileNames_def seenFiles_def)
  obtain dev1 n h where res: "restoreFrom ops rx ?sp ?dev0 = (dev1, Inr (n, h))"
    and keep: "ssRemote dev1 = ssRemote st'" "ssPoison dev1 = ssPoison dev" "boundTo (mfMeshId mf) (ssLocal dev1)"
    and seen: "seenFiles (ssLocal dev1) = seenFiles (ssLocal st1)"
    and rows: "\<And>t r. okTableName t \<Longrightarrow> storeGetRow (ssLocal dev1) t r = map_option withKey (storeGetRow (ssLocal st1) t r)"
    using restoreFrom_ok [OF rd' dec, of ?covered "ssLocal st1" "mfMeshId mf"] source covered meshes(5) dev(2)
    by (auto simp: buildSnapshot_def)
  have "rowsHold (ssLocal dev1) (opsOf E (ldSeen (loadLedger (ssLocal st1))))"
    by (rule rowsHold_restored [OF _ rows]) (use source(2) in \<open>simp_all add: inStep_def\<close>)
  moreover have "set (opsOf E (ldSeen (loadLedger (ssLocal dev1)))) = set (opsOf E (ldSeen (loadLedger (ssLocal st1))))"
    using seen by (simp add: seenFiles_def)
  ultimately have step: "inStep E [] (ssLocal dev1)" using rowsHold_cong by (metis append_Nil2 inStep_def)
  let ?dev2 = "emit (RehydrateComplete n) dev1"
  have "\<exists>dev'. pull ops ctx wall loadManifest ?dev2 = (dev', Inr ())
      \<and> seenFiles (ssLocal dev') = seenFiles (ssLocal ?dev2) \<union> remoteChanges contents (ccRemotePath cx) (ssRemote ?dev2)
      \<and> inStep E [] (ssLocal dev') \<and> boundTo (mfMeshId mf) (ssLocal dev')
      \<and> ssRemote dev' = ssRemote ?dev2 \<and> ssPoison dev' = ssPoison ?dev2"
    by (rule cloud_adapter.pull_run [OF adapter(1,3) ctx(1)]) (use ctx keep step seen hist in auto)
  then obtain dev3 where "pull ops ctx wall loadManifest ?dev2 = (dev3, Inr ())" "inStep E [] (ssLocal dev3)"
    "seenFiles (ssLocal dev3) = set ns" "ssPoison dev3 = ssPoison dev" using seen hist keep by auto
  with res dev(1) sp nonempty show ?thesis
    by (auto simp: rehydrate_def rehydrateRestore_def restoreOrReload_def Let_def)
qed

section \<open>Witnesses\<close>

definition demoCompact :: compact_context where
  "demoCompact = \<lparr>ccRemotePath = ''/Demo'', ccManifest = demoManifest, ccCodec = demoCodec,
     ccHlc = \<lparr>ts = Num 5, counter = Num 0, nodeId = ''A''\<rparr>, ccDeviceId = ''A'', ccServerId = ''server'',
     ccRetention = \<lparr>rpCompactAfterMs = 1, rpMaxOfflineDurationMs = 1\<rparr>\<rparr>"

definition demoRehydrate :: "manifest \<Rightarrow> rehydrate_context" where
  "demoRehydrate m = \<lparr>rcCodec = demoCodec, rcManifest = Some m, rcDeviceId = ''B'', rcPreservedMeta = []\<rparr>"

abbreviation demoPullf :: "cloud_data memory_adapter sync_state \<Rightarrow> cloud_data memory_adapter sync_state \<times> unit result" where
  "demoPullf \<equiv> pull (memoryOps ''t1'') demoPull (\<lambda>_. 5) (\<lambda>s. (s, Inr ()))"

lemma demoPullf_run:
  obtains st1 where "demoPullf (demoPeer demoMeshRemote) = (st1, Inr ())" "ssRemote st1 = demoMeshRemote"
    "seenFiles (ssLocal st1) = {entryName demoEntry1}" "inStep (\<lambda>_. demoEntry1) [] (ssLocal st1)"
proof -
  have "\<exists>st'. demoPullf (demoPeer demoMeshRemote) = (st', Inr ())
      \<and> seenFiles (ssLocal st') = seenFiles (ssLocal (demoPeer demoMeshRemote))
          \<union> remoteChanges memFile ''/Demo'' (ssRemote (demoPeer demoMeshRemote))
      \<and> inStep (\<lambda>_. demoEntry1) [] (ssLocal st') \<and> boundTo ''mesh_1'' (ssLocal st')
      \<and> ssRemote st' = ssRemote (demoPeer demoMeshRemote) \<and> ssPoison st' = ssPoison (demoPeer demoMeshRemote)"
    by (rule memcloud.pull_run [where ns = "[entryName demoEntry1]" and root = "''/Demo''" and now = "''t1''"
        and files = "memListFiles (changesFolder ''/Demo'') demoMeshRemote"])
       (use demo_sound demoFolder demoMeshRemote_changes in \<open>auto simp: demoPeer_ok\<close>)
  then show thesis using that by (auto simp: demoPeer_ok demoMeshRemote_changes)
qed

lemma demo_mainline: "\<not> endsWith (mainlineFolder (ccRemotePath demoCompact)) ''/''"
  by code_simp

theorem compact_loses_nothing_witness:
  "(case compact (\<lambda>_. ''h'') ''1'' ''t2'' (memoryOps ''t1'') demoCompact demoPullf (demoPeer demoMeshRemote) of
     (st', Inr m) \<Rightarrow> memFile (ssRemote st') (manifestPointer ''/Demo'') = Some (JsonText (DPointer
          \<lparr>ptCurrentGeneration = mfGeneration m, ptFile = manifestFileName (mfGeneration m)\<rparr>))
   | (st', Inl e) \<Rightarrow> False)"
proof -
  let ?run = "compact (\<lambda>_. ''h'') ''1'' ''t2'' (memoryOps ''t1'') demoCompact demoPullf (demoPeer demoMeshRemote)"
  obtain st1 where st1: "demoPullf (demoPeer demoMeshRemote) = (st1, Inr ())" "ssRemote st1 = demoMeshRemote"
    by (rule demoPullf_run)
  have "isOk (snd ?run)" by code_simp
  then obtain st' m where run: "?run = (st', Inr m)" by (metis isOk.elims(2) prod.collapse)
  have "memFile (ssRemote st1) = memFile (ssRemote (demoPeer demoMeshRemote))" using st1(2) by (simp add: demoPeer_ok)
  from compact_loses_nothing [OF memdoc.document_adapter_axioms demo_mainline run st1(1) this] run
  show ?thesis by (simp add: demoCompact_def)
qed

lemma remoteChanges_listed:
  assumes "\<not> endsWith (changesFolder root) ''/''" "\<forall>e \<in> set (memListFiles (changesFolder root) r). feName e = ''head.json''"
  shows "remoteChanges memFile root r = {}"
proof -
  have "n = ''head.json''" if "memFile r (changeFile root n) \<noteq> None" "CHR ''/'' \<notin> set n" for n
    using that assms(2) memListFiles_iff [OF assms(1), of r n "changeFile root n"]
    by (auto simp: directChild_def changeFile_def)
  then show ?thesis by (auto simp: remoteChanges_def)
qed

theorem rehydrate_catches_up_witness:
  "(let st' = fst (compact (\<lambda>_. ''h'') ''1'' ''t2'' (memoryOps ''t1'') demoCompact demoPullf (demoPeer demoMeshRemote));
        m = withHash (\<lambda>_. ''h'') (compactPayload ''t2'' demoCompact)
    in \<exists>dev'. rehydrate (memoryOps ''t1'') (demoRehydrate m) (\<lambda>s. (s, Inr None)) demoPullf (demoPeer (ssRemote st')) = (dev', Inr ())
      \<and> seenFiles (ssLocal dev') = {entryName demoEntry1} \<and> inStep (\<lambda>_. demoEntry1) [] (ssLocal dev'))"
proof -
  let ?run = "compact (\<lambda>_. ''h'') ''1'' ''t2'' (memoryOps ''t1'') demoCompact demoPullf (demoPeer demoMeshRemote)"
  let ?m = "withHash (\<lambda>_. ''h'') (compactPayload ''t2'' demoCompact)"
  obtain st1 where st1: "demoPullf (demoPeer demoMeshRemote) = (st1, Inr ())" "ssRemote st1 = demoMeshRemote"
    "seenFiles (ssLocal st1) = {entryName demoEntry1}" "inStep (\<lambda>_. demoEntry1) [] (ssLocal st1)"
    by (rule demoPullf_run)
  have "isOk (snd ?run)" by code_simp
  then obtain st' m where run0: "?run = (st', Inr m)" by (metis isOk.elims(2) prod.collapse)
  have root: "ccRemotePath demoCompact = ''/Demo''" "ccCodec demoCompact = demoCodec" by (simp_all add: demoCompact_def)
  have "m = ?m" using run0 st1(1) memdoc.publish_contents
    by (fastforce simp: compact_def mayCompact_def compactPulled_def Let_def split: if_splits prod.splits sum.splits)
  then have run: "?run = (st', Inr ?m)" using run0 by simp
  have mem: "memFile (ssRemote st1) = memFile (ssRemote (demoPeer demoMeshRemote))" using st1(2) by (simp add: demoPeer_ok)
  have "storeOk (ssLocal (fst (demoPullf (demoPeer demoMeshRemote))))" unfolding storeOk_def okTableName_def by code_simp
  then have ok: "storeOk (ssLocal st1)" using st1(1) by simp
  have hlc: "\<forall>n \<in> seenFiles (ssLocal st1). changeFileHlc n \<noteq> None"
    using st1(3) changeFileHlc_changeFileName [OF demoEntry1_ok(1)] by (simp add: entryName_def)
  have "list_all (\<lambda>e. feName e = ''head.json'') (memListFiles (changesFolder ''/Demo'') (ssRemote (fst ?run)))" by code_simp
  then have none: "remoteChanges memFile ''/Demo'' (ssRemote st') = {}"
    using remoteChanges_listed [OF demoFolder(1)] run by (simp add: list_all_iff)
  have rx: "rcCodec (demoRehydrate ?m) = demoCodec" "rcManifest (demoRehydrate ?m) = Some ?m"
    "boundTo (mfMeshId demoManifest) (setPreserved (rcPreservedMeta (demoRehydrate ?m)) newMemoryStore)"
    using demoCodec_ok(4) by (simp_all add: demoRehydrate_def)
  note t = rehydrate_catches_up [OF memcloud.cloud_adapter_axioms demo_mainline _ run st1(1) mem ok st1(4) hlc,
      where rx = "demoRehydrate ?m" and mf = demoManifest and dev = "demoPeer (ssRemote st')" and ctx = demoPull
      and loadManifest = "\<lambda>s. (s, Inr ())" and files = "memListFiles (changesFolder ''/Demo'') (ssRemote st')"
      and ns = "[entryName demoEntry1]" and wall = "\<lambda>_. 5" and reload = "\<lambda>s. (s, Inr None)"]
  have "\<exists>dev'. rehydrate (memoryOps ''t1'') (demoRehydrate ?m) (\<lambda>s. (s, Inr None)) demoPullf (demoPeer (ssRemote st')) = (dev', Inr ())
      \<and> seenFiles (ssLocal dev') = set [entryName demoEntry1] \<and> inStep (\<lambda>_. demoEntry1) [] (ssLocal dev')
      \<and> ssPoison dev' = ssPoison (demoPeer (ssRemote st'))"
    by (rule t) (use demoFolder demoCodec_ok rx none st1(3) in \<open>simp_all add: root demoPeer_ok remoteSound_def\<close>)
  then show ?thesis using run by (auto simp: Let_def)
qed

text \<open>
  The clock a snapshot and its manifest carry is the one the engine held before the pull of the
  compaction, so it can be older than a change the snapshot covers.
\<close>

theorem watermark_behind_covered:
  "(case compact (\<lambda>_. ''h'') ''1'' ''t2'' (memoryOps ''t1'') (demoCompact\<lparr>ccHlc := ssHlc (demoPeer demoMeshRemote)\<rparr>) demoPullf
        (demoPeer demoMeshRemote) of
      (st', Inr m) \<Rightarrow> jlt (hlcCompareStr (mfWatermarkHlc m) (ceHlc demoEntry1)) (Num 0)
        \<and> hasSeen (loadLedger (ssLocal st')) (entryName demoEntry1)
    | (st', Inl e) \<Rightarrow> False)"
  by code_simp

end
