(* ===== verification/Local_Writes.thy ===== *)
theory Local_Writes
  imports Compaction
begin

text \<open>
  The engine's state and its local writes (\<open>packages/core/src/core/sync-engine.ts\<close>): the clock
  kept with the store, \<open>putNow\<close> and \<open>deleteNow\<close>, the pending batch with the effects reported
  to observers, the queue that is rebuilt from the rows. Arguments stand for what the code takes from
  outside: \<open>wall\<close> for the clock reading, \<open>fresh\<close> for generated ids. A timer is a flag that says
  it is armed; a flush started in the background is the flag \<open>egFlushRequested\<close>. With the in-memory
  store a commit does not fail, so the branch for a failed commit does not arise. Sets of listeners
  are lists of names.
\<close>

section \<open>The engine\<close>

record pending_effect =
  peTable :: string
  peRowId :: string
  peBefore :: "row option"
  peAfter :: row

record engine_config =
  cfRemotePath :: "string option"
  cfDeviceId :: string
  cfServerId :: string
  cfServerManaged :: bool
  cfSchema :: "db_schema option"
  cfPollInterval :: int
  cfRetention :: retention_policy
  cfRetentionConfigured :: bool
  cfBatchWindowMs :: int
  cfFlushThreshold :: nat
  cfCompactWarnThreshold :: nat
  cfCompactAutoThreshold :: nat
  cfCompactAutoSampleNumerator :: nat
  cfCompactAutoDeviceCount :: nat
  cfCompactRemoteChangeThreshold :: nat
  cfAutoCompact :: bool
  cfReaderMode :: bool
  cfManualRefill :: bool
  cfMergeOnJoin :: bool
  cfDeviceName :: "string option"
  cfDeviceType :: "string option"

record 'r engine = "'r sync_state" +
  egHasAdapter :: bool
  egReplicas :: "'r replica list"
  egManifest :: "manifest option"
  egEncrypted :: bool
  egEncryptionKey :: "nat option"
  egAccessError :: "js_error option"
  egStatus :: connection_status
  egPendingCount :: nat
  egPendingBatch :: bool
  egBatchDepth :: nat
  egBatchTimer :: bool
  egFlushRequested :: bool
  egCompactWarned :: bool
  egCompactCheckTimer :: bool
  egCompactVersion :: nat
  egCompactInFlight :: bool
  egCompactRunTimer :: bool
  egRetentionTimer :: bool
  egRetentionDueAt :: int
  egListeners :: "string list"
  egPendingListeners :: "string list option"
  egPendingEffects :: "(jsval \<times> pending_effect) list"
  egReaderManifestFresh :: bool
  egAwaitingRefill :: bool
  egSubscribed :: bool
  egInitialized :: bool

abbreviation egLocal :: "'r engine \<Rightarrow> memory_store" where
  "egLocal eg \<equiv> ssLocal eg"

abbreviation egHlc :: "'r engine \<Rightarrow> hlc" where
  "egHlc eg \<equiv> ssHlc eg"

definition withLocal :: "memory_store \<Rightarrow> 'r engine \<Rightarrow> 'r engine" where
  "withLocal s eg = eg\<lparr>ssLocal := s\<rparr>"

definition withHlc :: "hlc \<Rightarrow> 'r engine \<Rightarrow> 'r engine" where
  "withHlc h eg = eg\<lparr>ssHlc := h\<rparr>"

section \<open>Rows as operations\<close>

definition getRowHlc :: "row \<Rightarrow> string" where
  "getRowHlc x =
     fold (\<lambda>(_, e) latest. if colHlc e = '''' then latest
             else if latest = '''' \<or> jgt (hlcCompareStr (colHlc e) latest) (Num 0) then colHlc e else latest)
       (payload x) (case rmDeletedHlc (meta x) of None \<Rightarrow> '''' | Some h \<Rightarrow> h)"

definition rowToSyncOp :: "row \<Rightarrow> op option" where
  "rowToSyncOp x =
     (if rmDeleted (meta x) then
        (let h = (case rmDeletedHlc (meta x) of None \<Rightarrow> getRowHlc x | Some d \<Rightarrow> d) in
         if h = '''' then None else Some (Delete (rmTable (meta x)) (rmRowId (meta x)) h))
      else
        (let columns = filter (\<lambda>(_, e). colHlc e \<noteq> '''') (payload x) in
         if columns = [] then None else Some (Upsert (rmTable (meta x)) (rmRowId (meta x)) columns)))"

definition newEntry :: "engine_config \<Rightarrow> string \<Rightarrow> int \<Rightarrow> op \<Rightarrow> string \<Rightarrow> change_entry" where
  "newEntry cfg fresh wall o1 h =
     \<lparr>ceId = ''chg_'' @ fresh, ceTs = wall, ceDevice = cfDeviceId cfg, ceUser = None, ceHlc = h, ceOps = [o1]\<rparr>"

fun rebuiltEntries :: "engine_config \<Rightarrow> (nat \<Rightarrow> string) \<Rightarrow> int \<Rightarrow> row list \<Rightarrow> change_entry list" where
  "rebuiltEntries cfg fresh wall [] = []"
| "rebuiltEntries cfg fresh wall (x # xs) =
     (case rowToSyncOp x of
        Some o1 \<Rightarrow>
          if getRowHlc x = '''' then rebuiltEntries cfg fresh wall xs
          else newEntry cfg (fresh (length xs)) wall o1 (getRowHlc x) # rebuiltEntries cfg fresh wall xs
      | None \<Rightarrow> rebuiltEntries cfg fresh wall xs)"

definition rebuildOutboxFromLocalState :: "engine_config \<Rightarrow> (nat \<Rightarrow> string) \<Rightarrow> int \<Rightarrow> 'r engine \<Rightarrow> 'r engine" where
  "rebuildOutboxFromLocalState cfg fresh wall eg =
     (let entries = rebuiltEntries cfg fresh wall (storeGetAllRows (egLocal eg)) in
      if entries = [] then eg
      else
        (let local1 = storePushOutboxEntries entries (egLocal eg)
         in (withLocal local1 eg)\<lparr>egPendingCount := storeOutboxSize local1\<rparr>))"

section \<open>The clock\<close>

definition refreshHlcFromLocal :: "engine_config \<Rightarrow> 'r engine \<Rightarrow> 'r engine" where
  "refreshHlcFromLocal cfg eg =
     (case storeGetMeta (egLocal eg) ''hlc'' of
        JStr saved \<Rightarrow>
          if jle (hlcCompareStr saved (hlcSerialize (egHlc eg))) (Num 0) then eg
          else withHlc ((hlcParse saved)\<lparr>nodeId := cfDeviceId cfg\<rparr>) eg
      | _ \<Rightarrow> eg)"

section \<open>Observation of local writes\<close>

definition shouldCaptureLocalObservation :: "'r engine \<Rightarrow> 'r engine \<times> bool" where
  "shouldCaptureLocalObservation eg =
     (let eg1 = (if \<not> egPendingBatch eg \<and> egPendingListeners eg = None
                 then eg\<lparr>egPendingListeners := Some (egListeners eg)\<rparr> else eg)
      in (eg1, (case egPendingListeners eg1 of None \<Rightarrow> False | Some ls \<Rightarrow> ls \<noteq> [])))"

definition recordPendingLocalEffect :: "string \<Rightarrow> string \<Rightarrow> row option \<Rightarrow> row \<Rightarrow> 'r engine \<Rightarrow> 'r engine" where
  "recordPendingLocalEffect table rowId before after eg =
     (let key = effectRowKey table rowId;
          before' = (case map_of (egPendingEffects eg) key of Some current \<Rightarrow> peBefore current | None \<Rightarrow> before)
      in eg\<lparr>egPendingEffects := AList.update key
              \<lparr>peTable = table, peRowId = rowId, peBefore = before', peAfter = after\<rparr> (egPendingEffects eg)\<rparr>)"

section \<open>Batches\<close>

definition isBatching :: "'r engine \<Rightarrow> bool" where
  "isBatching eg = (egBatchDepth eg > 0)"

definition clearBatchTimer :: "'r engine \<Rightarrow> 'r engine" where
  "clearBatchTimer eg = eg\<lparr>egBatchTimer := False\<rparr>"

definition armImplicitBatchTimer :: "'r engine \<Rightarrow> 'r engine" where
  "armImplicitBatchTimer eg = (if isBatching eg then eg else eg\<lparr>egBatchTimer := True\<rparr>)"

definition maybeEmitCompactWarning :: "engine_config \<Rightarrow> 'r engine \<Rightarrow> 'r engine" where
  "maybeEmitCompactWarning cfg eg =
     (if egCompactWarned eg \<or> egPendingCount eg < cfCompactWarnThreshold cfg then eg
      else emit (CompactWarning (egPendingCount eg)) (eg\<lparr>egCompactWarned := True\<rparr>))"

definition resetCompactWarning :: "'r engine \<Rightarrow> 'r engine" where
  "resetCompactWarning eg = (if egPendingCount eg \<noteq> 0 then eg else eg\<lparr>egCompactWarned := False\<rparr>)"

definition managedMesh :: "'r engine \<Rightarrow> bool" where
  "managedMesh eg = (case egManifest eg of None \<Rightarrow> False | Some m \<Rightarrow> scManaged (mfServer m))"

definition hasRemotePath :: "engine_config \<Rightarrow> bool" where
  "hasRemotePath cfg = (case cfRemotePath cfg of None \<Rightarrow> False | Some p \<Rightarrow> p \<noteq> '''')"

definition armDelayedCompactAfterChange :: "engine_config \<Rightarrow> 'r engine \<Rightarrow> 'r engine" where
  "armDelayedCompactAfterChange cfg eg =
     (if \<not> cfAutoCompact cfg \<or> \<not> hasRemotePath cfg \<or> \<not> managedMesh eg then eg
      else emit (CompactDelayedScheduled (egPendingCount eg) ''check'')
             (eg\<lparr>egCompactVersion := egCompactVersion eg + 1, egCompactCheckTimer := True\<rparr>))"

definition scheduleFlush :: "engine_config \<Rightarrow> 'r engine \<Rightarrow> 'r engine" where
  "scheduleFlush cfg eg =
     (let eg1 = armDelayedCompactAfterChange cfg (maybeEmitCompactWarning cfg (eg\<lparr>egPendingCount := egPendingCount eg + 1\<rparr>))
      in if egPendingCount eg1 \<ge> cfFlushThreshold cfg then eg1\<lparr>egFlushRequested := True\<rparr>
         else eg1\<lparr>ssFlushScheduled := True\<rparr>)"

definition pendingEffects :: "'r engine \<Rightarrow> row_change_effect list" where
  "pendingEffects eg =
     List.map_filter (\<lambda>(_, p). createRowChangeEffect (peTable p) (peRowId p) (peBefore p) (Some (peAfter p))) (egPendingEffects eg)"

definition flushPendingBatch :: "engine_config \<Rightarrow> 'r engine \<Rightarrow> 'r engine" where
  "flushPendingBatch cfg eg =
     (let eg0 = clearBatchTimer eg in
      case storePromotePendingBatch (egLocal eg0) of
        (local1, None) \<Rightarrow> withLocal local1 eg0
      | (local1, Some pending) \<Rightarrow>
          (let effects = pendingEffects eg0;
               listeners = egPendingListeners eg0;
               eg1 = (withLocal local1 eg0)\<lparr>egPendingBatch := False, egPendingEffects := [], egPendingListeners := None\<rparr>;
               eg2 = (if effects \<noteq> [] \<and> (case listeners of None \<Rightarrow> False | Some ls \<Rightarrow> ls \<noteq> [])
                      then emit (LocalObserved pending effects) eg1 else eg1)
           in scheduleFlush cfg eg2))"

definition commitLocalMutation ::
  "engine_config \<Rightarrow> string \<Rightarrow> int \<Rightarrow> row \<Rightarrow> op \<Rightarrow> string \<Rightarrow> bool \<Rightarrow> row option \<Rightarrow> 'r engine \<Rightarrow> 'r engine"
where
  "commitLocalMutation cfg fresh wall x o1 h captureObservation before eg =
     (let eg1 = (withLocal (storeCommitLocalMutation x (newEntry cfg fresh wall o1 h) (egLocal eg)) eg)
                  \<lparr>egPendingBatch := True\<rparr>;
          eg2 = (if captureObservation then recordPendingLocalEffect (rmTable (meta x)) (rmRowId (meta x)) before x eg1 else eg1)
      in if isBatching eg2 then eg2
         else if cfBatchWindowMs cfg \<le> 0 then flushPendingBatch cfg eg2
         else armImplicitBatchTimer eg2)"

text \<open>The commit, or a plain write when the row has nothing to publish.\<close>

definition commitRow ::
  "engine_config \<Rightarrow> string \<Rightarrow> int \<Rightarrow> row \<Rightarrow> bool \<Rightarrow> row option \<Rightarrow> 'r engine \<Rightarrow> 'r engine"
where
  "commitRow cfg fresh wall x captureObservation before eg =
     (case rowToSyncOp x of
        Some o1 \<Rightarrow>
          if getRowHlc x \<noteq> '''' then commitLocalMutation cfg fresh wall x o1 (getRowHlc x) captureObservation before eg
          else (let eg1 = withLocal (storePutRow x (egLocal eg)) eg
                in if egPendingBatch eg1 then eg1 else eg1\<lparr>egPendingListeners := None\<rparr>)
      | None \<Rightarrow>
          (let eg1 = withLocal (storePutRow x (egLocal eg)) eg
           in if egPendingBatch eg1 then eg1 else eg1\<lparr>egPendingListeners := None\<rparr>))"

section \<open>Put and delete\<close>

definition schemaVersionOr :: "engine_config \<Rightarrow> int \<Rightarrow> int" where
  "schemaVersionOr cfg d = (case Option.bind (cfSchema cfg) dsVersion of None \<Rightarrow> d | Some v \<Rightarrow> v)"

definition putBase :: "engine_config \<Rightarrow> string \<Rightarrow> string \<Rightarrow> row option \<Rightarrow> row" where
  "putBase cfg table rowId current =
     (case current of
        Some x \<Rightarrow> if rmDeleted (meta x) then x\<lparr>payload := []\<rparr> else x
      | None \<Rightarrow> blankRow table rowId (schemaVersionOr cfg 0) False None)"

definition putRowWith :: "engine_config \<Rightarrow> string \<Rightarrow> (string \<times> jsval) list \<Rightarrow> row \<Rightarrow> row" where
  "putRowWith cfg stamp columns x =
     x\<lparr>payload := fold (\<lambda>(key, value). AList.update key
            \<lparr>colValue = (if value = JUndefined then JNull else value), colHlc = stamp\<rparr>) columns (payload x),
       meta := (meta x)\<lparr>rmDeleted := False, rmDeletedHlc := None, rmOwner := Some (cfDeviceId cfg)\<rparr>\<rparr>"

definition putNow ::
  "engine_config \<Rightarrow> string \<Rightarrow> int \<Rightarrow> string \<Rightarrow> string \<Rightarrow> (string \<times> jsval) list \<Rightarrow> 'r engine \<Rightarrow> 'r engine \<times> row"
where
  "putNow cfg fresh wall table rowId columns eg =
     (let eg0 = refreshHlcFromLocal cfg eg;
          current = storeGetRow (egLocal eg0) table rowId
      in case shouldCaptureLocalObservation eg0 of
           (eg1, captureObservation) \<Rightarrow>
             (let before = (if captureObservation then current else None);
                  nextHlc = hlcNow wall (egHlc eg1);
                  x = putRowWith cfg (hlcSerialize nextHlc) columns (putBase cfg table rowId current);
                  eg2 = commitRow cfg fresh wall x captureObservation before (withHlc nextHlc eg1);
                  eg3 = eg2\<lparr>ssKnownTables := jsetAdd table (ssKnownTables eg2)\<rparr>
              in (emit (RowChanged table rowId x) eg3, x)))"

definition tombstone :: "engine_config \<Rightarrow> string \<Rightarrow> row \<Rightarrow> row" where
  "tombstone cfg stamp x =
     x\<lparr>payload := [],
       meta := (meta x)\<lparr>rmDeleted := True, rmDeletedHlc := Some stamp, rmOwner := Some (cfDeviceId cfg)\<rparr>\<rparr>"

definition deleteNow :: "engine_config \<Rightarrow> string \<Rightarrow> int \<Rightarrow> string \<Rightarrow> string \<Rightarrow> 'r engine \<Rightarrow> 'r engine" where
  "deleteNow cfg fresh wall table rowId eg =
     (let eg0 = refreshHlcFromLocal cfg eg in
      case storeGetRow (egLocal eg0) table rowId of
        None \<Rightarrow> eg0
      | Some current \<Rightarrow>
          if rmDeleted (meta current) then eg0
          else
            (case shouldCaptureLocalObservation eg0 of
               (eg1, captureObservation) \<Rightarrow>
                 (let before = (if captureObservation then Some current else None);
                      nextHlc = hlcNow wall (egHlc eg1);
                      x = tombstone cfg (hlcSerialize nextHlc) current
                  in emit (RowDeleted table rowId)
                       (commitRow cfg fresh wall x captureObservation before (withHlc nextHlc eg1)))))"

text \<open>A batch block: the writes made inside it become one entry when the outermost block ends.\<close>

definition batch :: "engine_config \<Rightarrow> ('r engine \<Rightarrow> 'r engine \<times> 'a result) \<Rightarrow> 'r engine \<Rightarrow> 'r engine \<times> 'a result" where
  "batch cfg body eg =
     (case body (eg\<lparr>egBatchDepth := egBatchDepth eg + 1\<rparr>) of
        (eg1, res) \<Rightarrow>
          (let eg2 = eg1\<lparr>egBatchDepth := egBatchDepth eg1 - 1\<rparr>
           in ((if egBatchDepth eg2 = 0 then flushPendingBatch cfg eg2 else eg2), res)))"

end
