(* ===== verification/Local_Writes_Correct.thy ===== *)
theory Local_Writes_Correct
  imports Local_Writes
begin

text \<open>
  Local writes refine the merge: a put or a delete changes the store as merging the operation it
  queues would, so the operations behind a device's rows are those of the entries it has observed
  followed by its own. The queue rebuilt from the rows carries the rows.
\<close>

section \<open>What a commit does to the store\<close>

definition queuedOps :: "memory_store \<Rightarrow> op list" where
  "queuedOps s = concat (map ceOps (queuedEntries s))"

lemma emit_engine [simp]:
  "egHasAdapter (emit ev eg) = egHasAdapter eg" "egManifest (emit ev eg) = egManifest eg" "egEncrypted (emit ev eg) = egEncrypted eg"
  "egEncryptionKey (emit ev eg) = egEncryptionKey eg" "egAccessError (emit ev eg) = egAccessError eg" "egStatus (emit ev eg) = egStatus eg"
  "egPendingCount (emit ev eg) = egPendingCount eg" "egPendingBatch (emit ev eg) = egPendingBatch eg" "egBatchDepth (emit ev eg) = egBatchDepth eg"
  "egReaderManifestFresh (emit ev eg) = egReaderManifestFresh eg" "egAwaitingRefill (emit ev eg) = egAwaitingRefill eg"
  "egPendingEffects (emit ev eg) = egPendingEffects eg" "egPendingListeners (emit ev eg) = egPendingListeners eg"
  "egInitialized (emit ev eg) = egInitialized eg"
  by (simp_all add: emit_def adaptPollInterval_def Let_def split: sync_event.split)

lemma engine_simps [simp]:
  "egLocal (withLocal s eg) = s" "egHlc (withLocal s eg) = egHlc eg" "egLocal (withHlc h eg) = egLocal eg" "egHlc (withHlc h eg) = h"
  "egPendingBatch (withLocal s eg) = egPendingBatch eg" "ssRemote (withLocal s eg) = ssRemote eg"
  "egPendingCount (withLocal s eg) = egPendingCount eg"
  by (simp_all add: withLocal_def withHlc_def)

lemma local_schedule [simp]:
  "egLocal (maybeEmitCompactWarning cfg eg) = egLocal eg" "egLocal (armDelayedCompactAfterChange cfg eg) = egLocal eg"
  "egLocal (scheduleFlush cfg eg) = egLocal eg" "egLocal (recordPendingLocalEffect t r b a eg) = egLocal eg"
  "egLocal (armImplicitBatchTimer eg) = egLocal eg" "egLocal (fst (shouldCaptureLocalObservation eg)) = egLocal eg"
  "egHlc (fst (shouldCaptureLocalObservation eg)) = egHlc eg" "egLocal (refreshHlcFromLocal cfg eg) = egLocal eg"
  by (simp_all add: maybeEmitCompactWarning_def armDelayedCompactAfterChange_def scheduleFlush_def recordPendingLocalEffect_def
      armImplicitBatchTimer_def shouldCaptureLocalObservation_def refreshHlcFromLocal_def Let_def split: jsval.split)

lemma local_flushPendingBatch [simp]: "egLocal (flushPendingBatch cfg eg) = fst (storePromotePendingBatch (egLocal eg))"
  by (auto simp: flushPendingBatch_def clearBatchTimer_def Let_def split: prod.splits option.splits)

lemma promote_keeps:
  "storeGetRow (fst (storePromotePendingBatch s)) t r = storeGetRow s t r"
  "sameLedger (fst (storePromotePendingBatch s)) s" "queuedOps (fst (storePromotePendingBatch s)) = queuedOps s"
  using ms.queued_promote [of s]
  by (simp_all add: storePromotePendingBatch_def storeGetRow_def sameLedger_def storeGetMeta_def queuedOps_def queuedEntries_ms
      split: option.split)

text \<open>The store after a write: one row replaced, one operation queued, the receipts kept.\<close>

definition wroteRow :: "row \<Rightarrow> op \<Rightarrow> memory_store \<Rightarrow> memory_store \<Rightarrow> bool" where
  "wroteRow x o1 s s' \<longleftrightarrow>
     (\<forall>t r. okTableName t \<longrightarrow> storeGetRow s' t r = (if refOf x = (t, r) then Some x else storeGetRow s t r))
     \<and> queuedOps s' = queuedOps s @ [o1] \<and> sameLedger s' s"

lemma commit_wrote:
  assumes "okTableName (rmTable (meta x))"
  shows "wroteRow x o1 s (storeCommitLocalMutation x (newEntry cfg fresh wall o1 h) s)"
proof -
  let ?s = "storeCommitLocalMutation x (newEntry cfg fresh wall o1 h) s"
  have "sameLedger ?s s"
    by (simp add: sameLedger_def storeGetMeta_def storeCommitLocalMutation_def Let_def OBSERVATION_META_KEY_def)
  moreover have "queuedOps ?s = queuedOps s @ [o1]"
    using ms.queuedOps_commit [of x "newEntry cfg fresh wall o1 h" s] by (simp add: queuedOps_def queuedEntries_ms newEntry_def)
  ultimately show ?thesis using assms by (auto simp: wroteRow_def ms.commit_row refOf_def)
qed

lemma wroteRow_promote: "wroteRow x o1 s s' \<Longrightarrow> wroteRow x o1 s (fst (storePromotePendingBatch s'))"
  using promote_keeps [of s'] by (simp add: wroteRow_def sameLedger_def)

lemma commitRow_wrote:
  assumes "okTableName (rmTable (meta x))" "rowToSyncOp x = Some o1" "getRowHlc x \<noteq> ''''"
  shows "wroteRow x o1 (egLocal eg) (egLocal (commitRow cfg fresh wall x c b eg))"
  using commit_wrote [OF assms(1), of o1 "egLocal eg" cfg fresh wall "getRowHlc x"] assms(2,3) wroteRow_promote
  by (auto simp: commitRow_def commitLocalMutation_def Let_def)

section \<open>Stamps of a row\<close>

lemma getRowHlc_nonempty:
  assumes "(c, e) \<in> set (payload x)" "colHlc e \<noteq> ''''"
  shows "getRowHlc x \<noteq> ''''"
proof -
  let ?f = "\<lambda>(_ :: string, e) latest. if colHlc e = '''' then latest
     else if latest = '''' \<or> jgt (hlcCompareStr (colHlc e) latest) (Num 0) then colHlc e else latest"
  have "fold ?f cols h \<noteq> ''''" if "h \<noteq> '''' \<or> (c, e) \<in> set cols" for cols h
    using that assms(2) by (induction cols arbitrary: h) (auto split: prod.splits)
  with assms(1) show ?thesis unfolding getRowHlc_def by blast
qed

definition putColumns :: "string \<Rightarrow> (string \<times> jsval) list \<Rightarrow> columns \<Rightarrow> columns" where
  "putColumns stamp columns p = fold (\<lambda>(key, value). AList.update key
     \<lparr>colValue = (if value = JUndefined then JNull else value), colHlc = stamp\<rparr>) columns p"

lemma putColumns_Cons [simp]: "putColumns stamp [] p = p"
  "putColumns stamp ((k, v) # cols) p =
     putColumns stamp cols (AList.update k \<lparr>colValue = (if v = JUndefined then JNull else v), colHlc = stamp\<rparr> p)"
  by (simp_all add: putColumns_def)

lemma distinct_putColumns: "distinct (map fst p) \<Longrightarrow> distinct (map fst (putColumns stamp cols p))"
  by (induction cols arbitrary: p) (auto simp: distinct_update)

lemma map_of_putColumns_other: "c \<notin> fst ` set cols \<Longrightarrow> map_of (putColumns stamp cols p) c = map_of p c"
  by (induction cols arbitrary: p) (auto simp: update_conv')

lemma map_of_putColumns:
  assumes "c \<in> fst ` set cols"
  shows "\<exists>v. (c, v) \<in> set cols \<and> map_of (putColumns stamp cols p) c
    = Some \<lparr>colValue = (if v = JUndefined then JNull else v), colHlc = stamp\<rparr>"
  using assms
proof (induction cols arbitrary: p)
  case (Cons a cols)
  obtain k v where a: "a = (k, v)" by force
  show ?case
  proof (cases "c \<in> fst ` set cols")
    case True
    with Cons.IH [OF True] a show ?thesis by fastforce
  next
    case False
    with Cons.prems a map_of_putColumns_other [OF False] show ?thesis by (auto simp: update_conv')
  qed
qed simp

section \<open>Put and delete keep the outcome of the history\<close>

text \<open>A stamp later than everything written to a row.\<close>

definition laterThan :: "string \<Rightarrow> (string \<times> column_entry) set \<Rightarrow> string set \<Rightarrow> bool" where
  "laterThan stamp C D \<longleftrightarrow> (\<forall>(c, e) \<in> C. stampLt (colHlc e) stamp) \<and> (\<forall>d \<in> D. stampLt d stamp)"

lemma put_payload: "payload (putRowWith cfg stamp columns x) = putColumns stamp columns (payload x)"
  by (simp add: putRowWith_def putColumns_def)

lemma put_liveInv:
  assumes inv: "rowInv C D current" and later: "laterThan stamp C D" and cols: "columns \<noteq> []"
    and x: "x = putRowWith cfg stamp columns (putBase cfg t r current)"
  shows "rowInv (C \<union> set (payload x)) D (Some x)"
proof -
  define base where "base = (case current of Some y \<Rightarrow> if rmDeleted (meta y) then [] else payload y | None \<Rightarrow> [])"
  have p: "payload x = putColumns stamp columns base"
    by (simp add: x put_payload base_def putBase_def blankRow_def split: option.split)
  have live: "\<not> rmDeleted (meta x)" "rmDeletedHlc (meta x) = None" by (simp_all add: x putRowWith_def)
  have dist: "distinct (map fst base)"
    using inv by (auto simp: base_def rowInv_def liveInv_def split: option.split)
  have old: "\<exists>e'. map_of base c = Some e' \<and> stampLe (colHlc e) (colHlc e')" if prem: "(c, e) \<in> C" "survives D e" for c e
  proof (cases current)
    case None
    then show ?thesis using inv prem by (auto simp: rowInv_def)
  next
    case (Some y)
    have "\<not> tombInv C D y"
      using prem by (force simp: tombInv_def survives_def)
    then show ?thesis using inv prem Some by (auto simp: rowInv_def base_def liveInv_def split: if_splits)
  qed
  have new: "\<exists>e'. map_of (payload x) c = Some e' \<and> colHlc e' = stamp" if "c \<in> fst ` set columns" for c
    using map_of_putColumns [OF that, of stamp base] p by auto
  have cover: "\<exists>e'. map_of (payload x) c = Some e' \<and> stampLe (colHlc e) (colHlc e')"
    if mem: "(c, e) \<in> C \<union> set (payload x)" and surv: "survives D e" for c e
  proof (cases "(c, e) \<in> set (payload x)")
    case True
    then show ?thesis using distinct_putColumns [OF dist, of stamp columns] p by auto
  next
    case False
    then have C: "(c, e) \<in> C" using mem by blast
    show ?thesis
    proof (cases "c \<in> fst ` set columns")
      case True
      then show ?thesis using new [OF True] later C by (fastforce simp: laterThan_def)
    next
      case False
      then show ?thesis using old [OF C surv] map_of_putColumns_other [OF False] p by simp
    qed
  qed
  obtain c where "c \<in> fst ` set columns" using cols by (cases columns) auto
  then obtain e where e: "(c, e) \<in> set (payload x)" "colHlc e = stamp" using new by (meson map_of_SomeD)
  then have "survives D e" using later by (simp add: laterThan_def survives_def)
  with e live cover p distinct_putColumns [OF dist] show ?thesis
    unfolding rowInv_def liveInv_def by (auto intro!: bexI [of _ "(c, e)"])
qed

lemma delete_tombInv:
  assumes "laterThan stamp C D" "x = tombstone cfg stamp y"
  shows "rowInv C (insert stamp D) (Some x)"
  using assms by (force simp: rowInv_def tombInv_def tombstone_def laterThan_def)

lemma rowsHold_wrote:
  assumes hold: "rowsHold s hist" and wrote: "wroteRow x o1 s s'" and ref: "refOf x = (opTable o1, opRowId o1)"
    and inv: "rowInv (rowCols (opTable o1) (opRowId o1) hist \<union> opCols o1) (rowDels (opTable o1) (opRowId o1) hist \<union> opDels o1) (Some x)"
  shows "rowsHold s' (hist @ [o1])"
  unfolding rowsHold_def
proof (intro allI impI)
  fix t r assume ok: "okTableName t"
  have lookup: "storeGetRow s' t r = (if refOf x = (t, r) then Some x else storeGetRow s t r)"
    using wrote ok by (simp add: wroteRow_def)
  show "rowInv (rowCols t r (hist @ [o1])) (rowDels t r (hist @ [o1])) (storeGetRow s' t r)
      \<and> (storeGetRow s' t r = None \<longleftrightarrow> (\<forall>o2 \<in> set (hist @ [o1]). \<not> onRow t r o2))
      \<and> (\<forall>y. storeGetRow s' t r = Some y \<longrightarrow> refOf y = (t, r))"
  proof (cases "onRow t r o1")
    case True
    then have tr: "t = opTable o1" "r = opRowId o1" by (auto simp: onRow_def)
    have "rowCols t r [o1] = opCols o1" "rowDels t r [o1] = opDels o1" using True by (simp_all add: rowCols_def rowDels_def)
    with inv lookup ref True show ?thesis unfolding rowCols_append tr by simp
  next
    case False
    then have "rowCols t r [o1] = {}" "rowDels t r [o1] = {}" "refOf x \<noteq> (t, r)"
      using ref by (auto simp: rowCols_def rowDels_def onRow_def)
    with hold ok lookup False show ?thesis unfolding rowCols_append rowsHold_def by auto
  qed
qed

lemma wfOps_snoc_upsert:
  assumes wf: "wfOps hist" and later: "laterThan stamp (rowCols t r hist) (rowDels t r hist)" and st: "stampOk stamp"
    and p: "distinct (map fst p)" "\<And>c e. (c, e) \<in> set p \<Longrightarrow> (c, e) \<in> rowCols t r hist \<or> colHlc e = stamp \<and> wfEntry e"
  shows "wfOps (hist @ [Upsert t r p])"
proof -
  have wfe: "wfEntry e" if "(c, e) \<in> set p" for c e
    using p(2) [OF that] wfHistory_ops [OF wf, of t r] by (auto simp: wfHistory_def)
  have "compatible (rowCols t' r' (hist @ [Upsert t r p]))" for t' r'
  proof (cases "t' = t \<and> r' = r")
    case True
    have comp: "compatible (rowCols t r hist)" using wf by (simp add: wfOps_def)
    have "rowCols t r [Upsert t r p] = set p" by (simp add: rowCols_def onRow_def)
    moreover have "compatible (rowCols t r hist \<union> set p)"
      unfolding compatible_def
    proof (intro allI impI)
      fix c a b assume ab: "(c, a) \<in> rowCols t r hist \<union> set p" "(c, b) \<in> rowCols t r hist \<union> set p" "colHlc a = colHlc b"
      have lt: "colHlc e \<noteq> stamp" if "(c, e) \<in> rowCols t r hist" for e
        using later that by (auto simp: laterThan_def)
      consider "(c, a) \<in> rowCols t r hist" "(c, b) \<in> rowCols t r hist" | "(c, a) \<in> set p" "(c, b) \<in> set p"
        using ab p(2) lt by (metis UnE)
      then show "a = b"
      proof cases
        case 1
        then show ?thesis using comp ab(3) by (auto simp: compatible_def)
      next
        case 2
        then show ?thesis using p(1) by (metis eq_key_imp_eq_value)
      qed
    qed
    ultimately show ?thesis using True by (simp add: rowCols_append)
  next
    case False
    then have "rowCols t' r' [Upsert t r p] = {}" by (auto simp: rowCols_def onRow_def)
    then show ?thesis using wf by (simp add: rowCols_append wfOps_def)
  qed
  then show ?thesis using wf p(1) wfe by (auto simp: wfOps_def list_all_iff)
qed

section \<open>The writer's invariant\<close>

text \<open>The clock is not behind any stamp of the history.\<close>

definition clockCovers :: "hlc \<Rightarrow> op list \<Rightarrow> bool" where
  "clockCovers h hist \<longleftrightarrow> (\<forall>t r. (\<forall>(c, e) \<in> rowCols t r hist. stampKey (colHlc e) \<le> hlcKey h)
     \<and> (\<forall>d \<in> rowDels t r hist. stampKey d \<le> hlcKey h))"

text \<open>The clock saved with the store is a stamp.\<close>

definition savedClockOk :: "memory_store \<Rightarrow> bool" where
  "savedClockOk s \<longleftrightarrow> (\<forall>v. storeGetMeta s ''hlc'' = JStr v \<longrightarrow> stampOk v)
     \<and> (\<forall>p. msPendingBatch s = Some p \<longrightarrow> stampOk (ceHlc p))"

definition writerInv :: "engine_config \<Rightarrow> 'r engine \<Rightarrow> op list \<Rightarrow> bool" where
  "writerInv cfg eg hist \<longleftrightarrow> rowsHold (egLocal eg) hist \<and> wfOps hist \<and> savedClockOk (egLocal eg)
     \<and> validHlc (egHlc eg) \<and> nodeId (egHlc eg) = cfDeviceId cfg \<and> clockCovers (egHlc eg) hist"

lemma clockCovers_mono: "clockCovers h hist \<Longrightarrow> hlcKey h \<le> hlcKey h' \<Longrightarrow> clockCovers h' hist"
  unfolding clockCovers_def by (fastforce intro: order_trans)

lemma refresh_clock:
  assumes "savedClockOk (egLocal eg)" "validHlc (egHlc eg)" "nodeId (egHlc eg) = cfDeviceId cfg"
  shows "validHlc (egHlc (refreshHlcFromLocal cfg eg)) \<and> nodeId (egHlc (refreshHlcFromLocal cfg eg)) = cfDeviceId cfg
    \<and> hlcKey (egHlc eg) \<le> hlcKey (egHlc (refreshHlcFromLocal cfg eg))"
proof (cases "\<exists>v. storeGetMeta (egLocal eg) ''hlc'' = JStr v \<and> \<not> jle (hlcCompareStr v (hlcSerialize (egHlc eg))) (Num 0)")
  case True
  then obtain v where v: "storeGetMeta (egLocal eg) ''hlc'' = JStr v" "\<not> jle (hlcCompareStr v (hlcSerialize (egHlc eg))) (Num 0)"
    by blast
  then have ok: "stampOk v" using assms by (simp add: savedClockOk_def)
  have "stampKey (hlcSerialize (egHlc eg)) < stampKey v"
    using v(2) ok assms(2) by (simp add: stamp_simps not_le)
  then have "hlcKey (egHlc eg) < hlcKey (hlcParse v)" using assms(2) by (simp add: stampKey_def hlcParse_hlcSerialize)
  then have "hlcKey (egHlc eg) \<le> hlcKey ((hlcParse v)\<lparr>nodeId := cfDeviceId cfg\<rparr>)"
    using assms(3) by (auto simp: hlcKey_def less_prod_simp less_eq_prod_simp)
  moreover have "validHlc ((hlcParse v)\<lparr>nodeId := cfDeviceId cfg\<rparr>)" using ok by (simp add: stampOk_def validHlc_def)
  ultimately show ?thesis using v by (simp add: refreshHlcFromLocal_def)
next
  case False
  then have "refreshHlcFromLocal cfg eg = eg" by (auto simp: refreshHlcFromLocal_def split: jsval.split)
  with assms show ?thesis by simp
qed

lemma getRowHlc_ok:
  assumes "\<And>c e. (c, e) \<in> set (payload x) \<Longrightarrow> stampOk (colHlc e)" "\<And>d. rmDeletedHlc (meta x) = Some d \<Longrightarrow> stampOk d"
    and "getRowHlc x \<noteq> ''''"
  shows "stampOk (getRowHlc x)"
proof -
  let ?f = "\<lambda>(_ :: string, e) latest. if colHlc e = '''' then latest
     else if latest = '''' \<or> jgt (hlcCompareStr (colHlc e) latest) (Num 0) then colHlc e else latest"
  have "fold ?f cols h = '''' \<or> stampOk (fold ?f cols h)"
    if "h = '''' \<or> stampOk h" "\<And>c e. (c, e) \<in> set cols \<Longrightarrow> stampOk (colHlc e)" for cols h
    using that
  proof (induction cols arbitrary: h)
    case (Cons a cols)
    obtain c e where a: "a = (c, e)" by force
    have "?f a h = '''' \<or> stampOk (?f a h)" using Cons.prems a by auto
    with Cons.IH Cons.prems show ?case by (simp only: fold_simps) auto
  qed auto
  then show ?thesis using assms unfolding getRowHlc_def by (auto split: option.splits)
qed

lemma savedClockOk_commit:
  assumes "savedClockOk s" "stampOk h"
  shows "savedClockOk (storeCommitLocalMutation x (newEntry cfg fresh wall o1 h) s)"
  using assms by (auto simp: savedClockOk_def storeCommitLocalMutation_def storeGetMeta_def newEntry_def Let_def
      update_conv' split: option.splits)

lemma savedClockOk_promote: "savedClockOk s \<Longrightarrow> savedClockOk (fst (storePromotePendingBatch s))"
  by (auto simp: savedClockOk_def storePromotePendingBatch_def storeGetMeta_def split: option.splits)

lemma commitRow_saved:
  assumes "savedClockOk (egLocal eg)" "rowToSyncOp x = Some o1" "stampOk (getRowHlc x)"
  shows "savedClockOk (egLocal (commitRow cfg fresh wall x c b eg))"
  using savedClockOk_commit [OF assms(1,3)] assms savedClockOk_promote
  by (auto simp: commitRow_def commitLocalMutation_def Let_def)

lemma clock_schedule [simp]:
  "egHlc (maybeEmitCompactWarning cfg eg) = egHlc eg" "egHlc (armDelayedCompactAfterChange cfg eg) = egHlc eg"
  "egHlc (scheduleFlush cfg eg) = egHlc eg" "egHlc (recordPendingLocalEffect t r b a eg) = egHlc eg"
  "egHlc (armImplicitBatchTimer eg) = egHlc eg"
  by (simp_all add: maybeEmitCompactWarning_def armDelayedCompactAfterChange_def scheduleFlush_def recordPendingLocalEffect_def
      armImplicitBatchTimer_def Let_def)

lemma clock_flushPendingBatch [simp]: "egHlc (flushPendingBatch cfg eg) = egHlc eg"
  by (auto simp: flushPendingBatch_def clearBatchTimer_def Let_def split: prod.splits option.splits)

lemma clock_commitRow [simp]: "egHlc (commitRow cfg fresh wall x c b eg) = egHlc eg"
  by (auto simp: commitRow_def commitLocalMutation_def Let_def split: option.splits)

text \<open>Queueing one operation stamped by the next tick keeps the invariant.\<close>

lemma laterThan_tick:
  assumes "writerInv cfg eg hist" "0 \<le> wall"
  shows "laterThan (hlcSerialize (hlcNow wall (egHlc (refreshHlcFromLocal cfg eg)))) (rowCols t r hist) (rowDels t r hist)"
proof -
  let ?h = "egHlc (refreshHlcFromLocal cfg eg)"
  have v: "validHlc ?h" "hlcKey (egHlc eg) \<le> hlcKey ?h"
    using refresh_clock [of eg cfg] assms by (auto simp: writerInv_def)
  then have cov: "clockCovers ?h hist" using assms clockCovers_mono by (auto simp: writerInv_def)
  have "stampLt s (hlcSerialize (hlcNow wall ?h))" if "stampKey s \<le> hlcKey ?h" for s
    using that assms(2) v(1) hlcKey_hlcNow [OF v(1), of wall] validHlc_hlcNow [OF v(1), of wall] by simp
  then show ?thesis using cov unfolding laterThan_def clockCovers_def by blast
qed

text \<open>A row holding one row of the history, written under the next tick and committed.\<close>

lemma write_step:
  assumes h_def: "h = hlcNow wall (egHlc (refreshHlcFromLocal cfg eg))"
    and inv: "writerInv cfg eg hist" and wall: "0 \<le> wall" and table: "okTableName (opTable o1)"
    and op: "rowToSyncOp x = Some o1" "stampOk (getRowHlc x)" "refOf x = (opTable o1, opRowId o1)"
    and wf: "wfOps (hist @ [o1])"
    and stamps: "\<And>c e. (c, e) \<in> opCols o1 \<Longrightarrow> (c, e) \<in> rowCols (opTable o1) (opRowId o1) hist \<or> colHlc e = hlcSerialize h"
      "opDels o1 \<subseteq> {hlcSerialize h}"
    and row: "rowInv (rowCols (opTable o1) (opRowId o1) hist \<union> opCols o1)
      (rowDels (opTable o1) (opRowId o1) hist \<union> opDels o1) (Some x)"
    and eg': "egLocal eg' = egLocal (commitRow cfg fresh wall x c b (withHlc h (fst (shouldCaptureLocalObservation (refreshHlcFromLocal cfg eg)))))"
      "egHlc eg' = h"
  shows "writerInv cfg eg' (hist @ [o1]) \<and> queuedOps (egLocal eg') = queuedOps (egLocal eg) @ [o1] \<and> sameLedger (egLocal eg') (egLocal eg)"
proof -
  have v: "validHlc (egHlc (refreshHlcFromLocal cfg eg))" "nodeId (egHlc (refreshHlcFromLocal cfg eg)) = cfDeviceId cfg"
    "hlcKey (egHlc eg) \<le> hlcKey (egHlc (refreshHlcFromLocal cfg eg))"
    using refresh_clock [of eg cfg] inv by (auto simp: writerInv_def)
  then have h: "validHlc h" "nodeId h = cfDeviceId cfg" "hlcKey (egHlc eg) \<le> hlcKey h"
    using validHlc_hlcNow [OF v(1) wall] hlcKey_hlcNow [OF v(1), of wall] by (auto simp: h_def)
  have cov: "clockCovers h hist" using inv h(3) clockCovers_mono by (auto simp: writerInv_def)
  have "clockCovers h [o1]"
    using cov stamps h(1) by (fastforce simp: clockCovers_def rowCols_def rowDels_def onRow_def)
  with cov have cov1: "clockCovers h (hist @ [o1])" by (simp add: clockCovers_def rowCols_append ball_Un)
  have ne: "okTableName (rmTable (meta x))" "getRowHlc x \<noteq> ''''"
    using table op by (auto simp: refOf_def)
  have wrote: "wroteRow x o1 (egLocal eg) (egLocal eg')"
    using commitRow_wrote [OF ne(1) op(1) ne(2), of "withHlc h (fst (shouldCaptureLocalObservation (refreshHlcFromLocal cfg eg)))"]
    by (simp add: eg')
  have "savedClockOk (egLocal eg')"
    using commitRow_saved [OF _ op(1,2), of "withHlc h (fst (shouldCaptureLocalObservation (refreshHlcFromLocal cfg eg)))"] inv
    by (simp add: eg' writerInv_def)
  moreover have "rowsHold (egLocal eg') (hist @ [o1])"
    using rowsHold_wrote [OF _ wrote op(3) row] inv by (simp add: writerInv_def)
  ultimately show ?thesis using wrote wf cov1 h(1,2) by (simp add: writerInv_def eg'(2) wroteRow_def)
qed

lemma putRow_payload:
  assumes "(c, e) \<in> set (putColumns stamp columns p)"
  shows "(c, e) \<in> set p \<or> colHlc e = stamp \<and> (\<exists>v. (c, v) \<in> set columns \<and> colValue e = (if v = JUndefined then JNull else v))"
  using assms
proof (induction columns arbitrary: p)
  case (Cons a columns)
  obtain k v where a: "a = (k, v)" by force
  let ?q = "AList.update k \<lparr>colValue = (if v = JUndefined then JNull else v), colHlc = stamp\<rparr> p"
  have "(c, e) \<in> set ?q \<Longrightarrow> (c, e) \<in> set p \<or> (c, e) = (k, \<lparr>colValue = (if v = JUndefined then JNull else v), colHlc = stamp\<rparr>)"
    by (induction p) (auto split: if_splits)
  moreover have "(c, e) \<in> set ?q \<or> colHlc e = stamp \<and> (\<exists>v. (c, v) \<in> set columns \<and> colValue e = (if v = JUndefined then JNull else v))"
    using Cons.IH [of ?q] Cons.prems a by simp
  ultimately consider "(c, e) \<in> set p" | "(c, e) = (k, \<lparr>colValue = (if v = JUndefined then JNull else v), colHlc = stamp\<rparr>)"
    | v' where "colHlc e = stamp" "(c, v') \<in> set columns" "colValue e = (if v' = JUndefined then JNull else v')"
    by blast
  then show ?case unfolding a by cases auto
qed simp

section \<open>Put and delete as steps\<close>

definition wfColumns :: "(string \<times> jsval) list \<Rightarrow> bool" where
  "wfColumns columns \<longleftrightarrow> columns \<noteq> [] \<and> (\<forall>(c, v) \<in> set columns. wfValue v)"

lemma put_row:
  assumes inv: "writerInv cfg eg hist" and table: "okTableName t" and cols: "wfColumns columns"
    and later: "laterThan stamp (rowCols t r hist) (rowDels t r hist)" and ok: "stampOk stamp"
    and x: "x = putRowWith cfg stamp columns (putBase cfg t r (storeGetRow (egLocal eg) t r))"
  shows "rowToSyncOp x = Some (Upsert t r (payload x))" "refOf x = (t, r)" "stampOk (getRowHlc x)"
    "wfOps (hist @ [Upsert t r (payload x)])"
    "\<And>c e. (c, e) \<in> set (payload x) \<Longrightarrow> (c, e) \<in> rowCols t r hist \<or> colHlc e = stamp"
    "rowInv (rowCols t r hist \<union> set (payload x)) (rowDels t r hist) (Some x)"
proof -
  let ?cur = "storeGetRow (egLocal eg) t r"
  define base where "base = putBase cfg t r ?cur"
  have hold: "rowInv (rowCols t r hist) (rowDels t r hist) ?cur" "\<And>y. ?cur = Some y \<Longrightarrow> refOf y = (t, r)"
    using inv table by (auto simp: writerInv_def rowsHold_def)
  have wf: "wfOps hist" using inv by (simp add: writerInv_def)
  show ref: "refOf x = (t, r)"
    using hold(2) by (cases ?cur) (auto simp: x refOf_def putRowWith_def putBase_def blankRow_def)
  show row: "rowInv (rowCols t r hist \<union> set (payload x)) (rowDels t r hist) (Some x)"
    using put_liveInv [OF hold(1) later _ x] cols by (simp add: wfColumns_def)
  have p: "payload x = putColumns stamp columns (payload base)" by (simp add: x put_payload base_def)
  have base: "set (payload base) \<subseteq> rowCols t r hist" "distinct (map fst (payload base))"
    using hold(1) by (auto simp: base_def putBase_def blankRow_def rowInv_def liveInv_def split: option.splits)
  have ent: "(c, e) \<in> rowCols t r hist \<or> colHlc e = stamp \<and> wfEntry e" if "(c, e) \<in> set (payload x)" for c e
    using putRow_payload [of c e stamp columns "payload base"] that p base(1) cols ok
    by (fastforce simp: wfColumns_def wfEntry_def)
  then show "\<And>c e. (c, e) \<in> set (payload x) \<Longrightarrow> (c, e) \<in> rowCols t r hist \<or> colHlc e = stamp" by blast
  show "wfOps (hist @ [Upsert t r (payload x)])"
    using wfOps_snoc_upsert [OF wf later ok _ ent] distinct_putColumns [OF base(2)] p by simp
  have stamps: "stampOk (colHlc e)" if "(c, e) \<in> set (payload x)" for c e
    using ent [OF that] wfHistory_ops [OF wf, of t r] ok by (auto simp: wfHistory_def wfEntry_def)
  obtain c v where cv: "(c, v) \<in> set columns" using cols by (cases columns) (auto simp: wfColumns_def)
  then have "c \<in> fst ` set columns" by force
  from map_of_putColumns [OF this, of stamp "payload base"] obtain e where e: "(c, e) \<in> set (payload x)"
    using p map_of_SomeD by metis
  have live: "\<not> rmDeleted (meta x)" "rmDeletedHlc (meta x) = None" by (simp_all add: x putRowWith_def)
  show "stampOk (getRowHlc x)"
    by (rule getRowHlc_ok) (use stamps live getRowHlc_nonempty [OF e] stamps [OF e] in auto)
  have "filter (\<lambda>(_, e). colHlc e \<noteq> '''') (payload x) = payload x" "payload x \<noteq> []"
    using stamps e by (auto simp: filter_id_conv)
  then show "rowToSyncOp x = Some (Upsert t r (payload x))" using ref live by (simp add: rowToSyncOp_def refOf_def)
qed

lemma putNow_parts:
  fixes eg :: "'r engine"
  assumes "putNow cfg fresh wall t r columns eg = (eg', x)"
  shows "x = putRowWith cfg (hlcSerialize (hlcNow wall (egHlc (refreshHlcFromLocal cfg eg)))) columns (putBase cfg t r (storeGetRow (egLocal eg) t r))"
    "\<exists>c b. egLocal eg' = egLocal (commitRow cfg fresh wall x c b
        (withHlc (hlcNow wall (egHlc (refreshHlcFromLocal cfg eg))) (fst (shouldCaptureLocalObservation (refreshHlcFromLocal cfg eg)))))"
    "egHlc eg' = hlcNow wall (egHlc (refreshHlcFromLocal cfg eg))"
proof -
  obtain eg1 cap where cap: "shouldCaptureLocalObservation (refreshHlcFromLocal cfg eg) = (eg1, cap)" by force
  then have eg1: "egHlc eg1 = egHlc (refreshHlcFromLocal cfg eg)" "egLocal (refreshHlcFromLocal cfg eg) = egLocal eg"
    by (metis local_schedule(7) fst_conv, simp)
  note run = assms [unfolded putNow_def Let_def cap prod.case eg1, symmetric]
  show "x = putRowWith cfg (hlcSerialize (hlcNow wall (egHlc (refreshHlcFromLocal cfg eg)))) columns
      (putBase cfg t r (storeGetRow (egLocal eg) t r))"
    using run by simp
  then have "egLocal eg' = egLocal (commitRow cfg fresh wall x cap (if cap then storeGetRow (egLocal eg) t r else None)
      (withHlc (hlcNow wall (egHlc (refreshHlcFromLocal cfg eg))) eg1))"
    using run by (simp add:)
  then show "\<exists>c b. egLocal eg' = egLocal (commitRow cfg fresh wall x c b
        (withHlc (hlcNow wall (egHlc (refreshHlcFromLocal cfg eg))) (fst (shouldCaptureLocalObservation (refreshHlcFromLocal cfg eg)))))"
    using cap by auto
  show "egHlc eg' = hlcNow wall (egHlc (refreshHlcFromLocal cfg eg))" using run by (simp add:)
qed

lemma putNow_step:
  assumes inv: "writerInv cfg eg hist" and wall: "0 \<le> wall" and table: "okTableName t" and cols: "wfColumns columns"
    and run: "putNow cfg fresh wall t r columns eg = (eg', x)"
  shows "writerInv cfg eg' (hist @ [Upsert t r (payload x)]) \<and> queuedOps (egLocal eg') = queuedOps (egLocal eg) @ [Upsert t r (payload x)]
    \<and> sameLedger (egLocal eg') (egLocal eg) \<and> storeGetRow (egLocal eg') t r = Some x"
proof -
  note parts = putNow_parts [OF run]
  let ?h = "hlcNow wall (egHlc (refreshHlcFromLocal cfg eg))"
  have "validHlc ?h" using refresh_clock [of eg cfg] inv validHlc_hlcNow wall by (auto simp: writerInv_def)
  then have ok: "stampOk (hlcSerialize ?h)" by simp
  note row = put_row [OF inv table cols laterThan_tick [OF inv wall] ok parts(1)]
  obtain c b where eg': "egLocal eg' = egLocal (commitRow cfg fresh wall x c b
    (withHlc ?h (fst (shouldCaptureLocalObservation (refreshHlcFromLocal cfg eg)))))" using parts(2) by blast
  have "wroteRow x (Upsert t r (payload x)) (egLocal eg) (egLocal eg')"
    using commitRow_wrote [OF _ row(1), of "withHlc ?h (fst (shouldCaptureLocalObservation (refreshHlcFromLocal cfg eg)))" cfg fresh wall c b]
      row(2,3) table by (auto simp: eg' refOf_def)
  then have "storeGetRow (egLocal eg') t r = Some x" using row(2) table by (simp add: wroteRow_def)
  moreover have "(c, e) \<in> rowCols t r hist \<or> colHlc e = hlcSerialize ?h" if "(c, e) \<in> set (payload x)" for c e
    using row(5) that by blast
  ultimately show ?thesis
    using write_step [where x = x and ?o1.0 = "Upsert t r (payload x)" and h = ?h and eg = eg and eg' = eg' and hist = hist and cfg = cfg
        and wall = wall and fresh = fresh and c = c and b = b, OF refl inv wall _ row(1,3)] row(2,4,6) table eg' parts(3)
    by auto
qed

lemma tombstone_row:
  assumes "refOf y = (t, r)" "stampOk stamp"
  shows "rowToSyncOp (tombstone cfg stamp y) = Some (Delete t r stamp)" "refOf (tombstone cfg stamp y) = (t, r)"
    "getRowHlc (tombstone cfg stamp y) = stamp"
  using assms by (auto simp: tombstone_def rowToSyncOp_def refOf_def getRowHlc_def)

lemma wfOps_snoc_delete: "wfOps hist \<Longrightarrow> stampOk h \<Longrightarrow> wfOps (hist @ [Delete t r h])"
proof -
  assume wf: "wfOps hist" "stampOk h"
  have "rowCols t' r' [Delete t r h] = {}" for t' r' by (simp add: rowCols_def)
  with wf show ?thesis by (auto simp: wfOps_def rowCols_append)
qed

lemma refresh_inv: "writerInv cfg eg hist \<Longrightarrow> writerInv cfg (refreshHlcFromLocal cfg eg) hist"
  using refresh_clock [of eg cfg] clockCovers_mono by (auto simp: writerInv_def)

lemma deleteNow_step:
  assumes inv: "writerInv cfg eg hist" and wall: "0 \<le> wall" and table: "okTableName t"
  shows "\<exists>ops. writerInv cfg (deleteNow cfg fresh wall t r eg) (hist @ ops)
    \<and> queuedOps (egLocal (deleteNow cfg fresh wall t r eg)) = queuedOps (egLocal eg) @ ops
    \<and> sameLedger (egLocal (deleteNow cfg fresh wall t r eg)) (egLocal eg)"
proof (cases "\<exists>y. storeGetRow (egLocal eg) t r = Some y \<and> \<not> rmDeleted (meta y)")
  case False
  then have "deleteNow cfg fresh wall t r eg = refreshHlcFromLocal cfg eg"
    by (auto simp: deleteNow_def Let_def split: option.split)
  then show ?thesis using refresh_inv [OF inv] by (intro exI [of _ "[]"]) (simp add: sameLedger_def)
next
  case True
  then obtain y where y: "storeGetRow (egLocal eg) t r = Some y" "\<not> rmDeleted (meta y)" by blast
  define h where "h = hlcNow wall (egHlc (refreshHlcFromLocal cfg eg))"
  define x where "x = tombstone cfg (hlcSerialize h) y"
  obtain eg1 cap where cap: "shouldCaptureLocalObservation (refreshHlcFromLocal cfg eg) = (eg1, cap)" by force
  then have eg1: "egHlc eg1 = egHlc (refreshHlcFromLocal cfg eg)" "egLocal (refreshHlcFromLocal cfg eg) = egLocal eg"
    by (metis local_schedule(7) fst_conv, simp)
  have run: "deleteNow cfg fresh wall t r eg =
      emit (RowDeleted t r) (commitRow cfg fresh wall x cap (if cap then Some y else None) (withHlc h eg1))"
    unfolding deleteNow_def Let_def eg1 y(1) option.case cap prod.case using y(2) by (simp add: x_def h_def)
  have ref: "refOf y = (t, r)" and hold: "rowInv (rowCols t r hist) (rowDels t r hist) (Some y)" and wf: "wfOps hist"
    using inv table y(1) by (auto simp: writerInv_def rowsHold_def) metis
  have "validHlc h" using refresh_clock [of eg cfg] inv validHlc_hlcNow wall by (auto simp: writerInv_def h_def)
  then have ok: "stampOk (hlcSerialize h)" by simp
  note tomb = tombstone_row [OF ref ok, of cfg]
  have "rowInv (rowCols t r hist) (insert (hlcSerialize h) (rowDels t r hist)) (Some x)"
    using delete_tombInv [OF laterThan_tick [OF inv wall] x_def [unfolded h_def]] by (simp add: h_def)
  then show ?thesis
    using write_step [where x = x and ?o1.0 = "Delete t r (hlcSerialize h)" and h = h and eg = eg and hist = hist and cfg = cfg
        and wall = wall and fresh = fresh and c = cap and b = "if cap then Some y else None"
        and eg' = "deleteNow cfg fresh wall t r eg", OF h_def inv wall]
      table tomb ok wfOps_snoc_delete [OF wf ok] cap
    by (intro exI [of _ "[Delete t r (hlcSerialize h)]"]) (auto simp: run x_def)
qed

section \<open>A session of local writes\<close>

datatype local_write = PutWrite string string "(string \<times> jsval) list" | DeleteWrite string string

fun localWrite :: "engine_config \<Rightarrow> string \<times> int \<times> local_write \<Rightarrow> 'r engine \<Rightarrow> 'r engine" where
  "localWrite cfg (fresh, wall, PutWrite t r columns) eg = fst (putNow cfg fresh wall t r columns eg)"
| "localWrite cfg (fresh, wall, DeleteWrite t r) eg = deleteNow cfg fresh wall t r eg"

fun wfWrite :: "string \<times> int \<times> local_write \<Rightarrow> bool" where
  "wfWrite (fresh, wall, PutWrite t r columns) = (0 \<le> wall \<and> okTableName t \<and> wfColumns columns)"
| "wfWrite (fresh, wall, DeleteWrite t r) = (0 \<le> wall \<and> okTableName t)"

lemma localWrite_step:
  assumes "writerInv cfg eg hist" "wfWrite w"
  shows "\<exists>ops. writerInv cfg (localWrite cfg w eg) (hist @ ops)
    \<and> queuedOps (egLocal (localWrite cfg w eg)) = queuedOps (egLocal eg) @ ops
    \<and> sameLedger (egLocal (localWrite cfg w eg)) (egLocal eg)"
proof -
  obtain fresh wall w' where w: "w = (fresh, wall, w')" by (metis prod.exhaust)
  show ?thesis
  proof (cases w')
    case (PutWrite t r columns)
    obtain eg' x where run: "putNow cfg fresh wall t r columns eg = (eg', x)" by force
    from putNow_step [OF assms(1) _ _ _ run] assms(2) w PutWrite show ?thesis by (auto simp: run)
  next
    case (DeleteWrite t r)
    with deleteNow_step [OF assms(1)] assms(2) w show ?thesis by simp
  qed
qed

lemma localWrites_run:
  assumes "writerInv cfg eg hist" "\<forall>w \<in> set ws. wfWrite w"
  shows "\<exists>ops. writerInv cfg (fold (localWrite cfg) ws eg) (hist @ ops)
    \<and> queuedOps (egLocal (fold (localWrite cfg) ws eg)) = queuedOps (egLocal eg) @ ops
    \<and> sameLedger (egLocal (fold (localWrite cfg) ws eg)) (egLocal eg)"
  using assms
proof (induction ws arbitrary: eg hist)
  case Nil
  then show ?case by (intro exI [of _ "[]"]) (simp add: sameLedger_def)
next
  case (Cons w ws)
  obtain ops where ops: "writerInv cfg (localWrite cfg w eg) (hist @ ops)"
    "queuedOps (egLocal (localWrite cfg w eg)) = queuedOps (egLocal eg) @ ops" "sameLedger (egLocal (localWrite cfg w eg)) (egLocal eg)"
    using localWrite_step [of cfg eg hist w] Cons.prems by auto
  from Cons.IH [OF ops(1)] Cons.prems obtain ops' where "writerInv cfg (fold (localWrite cfg) ws (localWrite cfg w eg)) ((hist @ ops) @ ops')"
    "queuedOps (egLocal (fold (localWrite cfg) ws (localWrite cfg w eg))) = queuedOps (egLocal (localWrite cfg w eg)) @ ops'"
    "sameLedger (egLocal (fold (localWrite cfg) ws (localWrite cfg w eg))) (egLocal (localWrite cfg w eg))"
    by auto
  with ops(2,3) show ?case by (intro exI [of _ "ops @ ops'"]) (simp add: sameLedger_def)
qed

lemma rowsHold_agree:
  assumes "rowsHold s ops" "wfOps ops" "lwwSchema schema" "okTableName t" "set ops' = set ops"
  shows "agreeOn (settledColumn ops t r) (storeGetRow s t r) (getRow (fst (applyOps [] ops' sv schema)) t r)"
proof -
  have wf': "wfOps ops'" using assms(2) same_history(3) [OF assms(5)] by simp
  note peer = applyOps_history [OF assms(3) wf']
  have none: "storeGetRow s t r = None \<longleftrightarrow> getRow (fst (applyOps [] ops' sv schema)) t r = None"
    using applyOps_touched [OF peer(1)] assms(1,4,5) by (simp add: rowsHold_def)
  show ?thesis
  proof (cases "storeGetRow s t r")
    case None
    with none show ?thesis by (simp add: agreeOn_def)
  next
    case (Some x)
    with none obtain y where y: "getRow (fst (applyOps [] ops' sv schema)) t r = Some y" by auto
    have "rowInv (rowCols t r ops) (rowDels t r ops) (storeGetRow s t r)" using assms(1,4) by (simp add: rowsHold_def)
    moreover have "rowInv (rowCols t r ops) (rowDels t r ops) (Some y)"
      using peer(2) [of t r sv] y by (simp add: same_history(1,2) [OF assms(5)])
    ultimately show ?thesis unfolding Some y
      by (rule rowInv_agree [OF _ _ wfHistory_ops [OF assms(2)]]) (drule settledColumn_def [THEN iffD1])
  qed
qed

text \<open>C4: Local writes refine the merge. From a device whose rows are the outcome of a history of
  operations that its clock is not behind, any sequence of puts (of at least one column) and deletes queues a
  list of operations such that the rows are the outcome of the history followed by those
  operations: a peer that merges the history and the queued operations, in any order, gets the rows
  the device shows. The receipts of observed entries are untouched and the clock stays valid and ahead of
  everything in the extended history, so the next write is again the newest.\<close>

theorem local_writes_refine:
  assumes "writerInv cfg eg hist" "\<forall>w \<in> set ws. wfWrite w"
  shows "\<exists>ops. queuedOps (egLocal (fold (localWrite cfg) ws eg)) = queuedOps (egLocal eg) @ ops
    \<and> writerInv cfg (fold (localWrite cfg) ws eg) (hist @ ops)
    \<and> sameLedger (egLocal (fold (localWrite cfg) ws eg)) (egLocal eg)
    \<and> (\<forall>schema sv t r ops'. lwwSchema schema \<longrightarrow> okTableName t \<longrightarrow> set ops' = set (hist @ ops) \<longrightarrow>
         agreeOn (settledColumn (hist @ ops) t r) (storeGetRow (egLocal (fold (localWrite cfg) ws eg)) t r)
           (getRow (fst (applyOps [] ops' sv schema)) t r))"
proof -
  obtain ops where ops: "writerInv cfg (fold (localWrite cfg) ws eg) (hist @ ops)"
    "queuedOps (egLocal (fold (localWrite cfg) ws eg)) = queuedOps (egLocal eg) @ ops"
    "sameLedger (egLocal (fold (localWrite cfg) ws eg)) (egLocal eg)"
    using localWrites_run [OF assms] by blast
  then have "rowsHold (egLocal (fold (localWrite cfg) ws eg)) (hist @ ops)" "wfOps (hist @ ops)" by (simp_all add: writerInv_def)
  from rowsHold_agree [OF this] ops show ?thesis by blast
qed

text \<open>A device with an empty store, writing.\<close>

definition demoConfig :: engine_config where
  "demoConfig = \<lparr>cfRemotePath = Some ''/Demo'', cfDeviceId = ''A'', cfServerId = ''srv'', cfServerManaged = False, cfSchema = None, cfPollInterval = 5000,
     cfRetention = \<lparr>rpCompactAfterMs = 86400000, rpMaxOfflineDurationMs = 2592000000\<rparr>, cfRetentionConfigured = False, cfBatchWindowMs = 0,
     cfFlushThreshold = 25, cfCompactWarnThreshold = 100, cfCompactAutoThreshold = 50,
     cfCompactAutoSampleNumerator = 10, cfCompactAutoDeviceCount = 1, cfCompactRemoteChangeThreshold = 2, cfAutoCompact = False, cfReaderMode = False, cfManualRefill = False,
     cfMergeOnJoin = False, cfDeviceName = None, cfDeviceType = None\<rparr>"

definition demoEngine :: "'r \<Rightarrow> 'r engine" where
  "demoEngine remote = \<lparr>ssLocal = newMemoryStore, ssRemote = remote, ssTables = [], ssKnownTables = [],
     ssHlc = \<lparr>ts = Num 0, counter = Num 0, nodeId = ''A''\<rparr>, ssPoison = None, ssConnected = True, ssConnecting = False,
     ssPolling = True, ssPollingHalted = False, ssPollBase = 5000, ssPollCurrent = 5000, ssFlushScheduled = False, ssEvents = [],
     egHasAdapter = True, egReplicas = [], egManifest = None, egEncrypted = False, egEncryptionKey = None,
     egAccessError = None, egStatus = Idle, egPendingCount = 0, egPendingBatch = False, egBatchDepth = 0,
     egBatchTimer = False, egFlushRequested = False, egCompactWarned = False, egCompactCheckTimer = False, egCompactVersion = 0, egCompactInFlight = False,
     egCompactRunTimer = False, egRetentionTimer = False, egRetentionDueAt = 0, egListeners = [], egPendingListeners = None, egPendingEffects = [],
     egReaderManifestFresh = False, egAwaitingRefill = False, egSubscribed = False, egInitialized = True\<rparr>"

lemma demoEngine_inv: "writerInv demoConfig (demoEngine remote) []"
proof -
  have "rowsHold newMemoryStore []"
    by (simp add: rowsHold_def storeGetRow_def newMemoryStore_def rowInv_def rowCols_def rowDels_def)
  then show ?thesis
    by (simp add: writerInv_def demoEngine_def demoConfig_def savedClockOk_def storeGetMeta_def newMemoryStore_def
        validHlc_def clockCovers_def rowCols_def rowDels_def wfOps_def compatible_def)
qed

text \<open>The device writes a row, deletes it and writes it again; a peer merges the queued operations in reverse.\<close>

definition demoWrites :: "(string \<times> int \<times> local_write) list" where
  "demoWrites = [(''1'', 5, PutWrite ''todo'' ''r'' [(''a'', JStr ''x'')]), (''2'', 5, DeleteWrite ''todo'' ''r''),
     (''3'', 4, PutWrite ''todo'' ''r'' [(''b'', JStr ''y'')])]"

theorem local_writes_refine_witness:
  "let eg = fold (localWrite demoConfig) demoWrites (demoEngine demoMeshRemote); ops = queuedOps (egLocal eg)
   in wfOps ops \<and> agreeOn (settledColumn ops ''todo'' ''r'') (storeGetRow (egLocal eg) ''todo'' ''r'')
        (getRow (fst (applyOps [] (rev ops) 1 None)) ''todo'' ''r'')"
proof -
  let ?eg = "fold (localWrite demoConfig) demoWrites (demoEngine demoMeshRemote)"
  have none: "queuedOps (egLocal (demoEngine demoMeshRemote)) = []" by code_simp
  have "\<forall>w \<in> set demoWrites. wfWrite w" by (simp add: demoWrites_def wfColumns_def okTableName_def)
  from local_writes_refine [OF demoEngine_inv this, of demoMeshRemote] none
  obtain ops where ops: "queuedOps (egLocal ?eg) = ops" "writerInv demoConfig ?eg ops"
    and peer: "\<forall>schema sv t r ops'. lwwSchema schema \<longrightarrow> okTableName t \<longrightarrow> set ops' = set ops \<longrightarrow>
         agreeOn (settledColumn ops t r) (storeGetRow (egLocal ?eg) t r) (getRow (fst (applyOps [] ops' sv schema)) t r)"
    by auto
  from peer [rule_format, of None "''todo''" "rev ops" "''r''" 1] ops show ?thesis
    by (simp add: Let_def writerInv_def okTableName_def)
qed

section \<open>The queue rebuilt from the rows\<close>

text \<open>Rows with something to publish.\<close>

definition publishable :: "memory_store \<Rightarrow> bool" where
  "publishable s \<longleftrightarrow> (\<forall>x \<in> set (storeGetAllRows s). \<not> rmDeleted (meta x) \<longrightarrow> payload x \<noteq> [])"

lemma rowToSyncOp_tomb:
  assumes "rowInv C D (Some x)" "wfHistory C D" "rmDeleted (meta x)"
  shows "\<exists>d \<in> D. rmDeletedHlc (meta x) = Some d \<and> payload x = [] \<and> stampOk d
    \<and> rowToSyncOp x = Some (Delete (rmTable (meta x)) (rmRowId (meta x)) d) \<and> getRowHlc x \<noteq> ''''"
proof -
  obtain d where d: "d \<in> D" "rmDeletedHlc (meta x) = Some d" "payload x = []"
    using assms by (auto simp: rowInv_def tombInv_def)
  moreover have "stampOk d" using assms(2) d(1) by (simp add: wfHistory_def)
  ultimately show ?thesis using assms(3) by (intro bexI [of _ d]) (simp_all add: rowToSyncOp_def getRowHlc_def)
qed

lemma rowToSyncOp_live:
  assumes "rowInv C D (Some x)" "wfHistory C D" "\<not> rmDeleted (meta x)" "payload x \<noteq> []"
  shows "rmDeletedHlc (meta x) = None \<and> distinct (map fst (payload x)) \<and> set (payload x) \<subseteq> C
    \<and> rowToSyncOp x = Some (Upsert (rmTable (meta x)) (rmRowId (meta x)) (payload x)) \<and> getRowHlc x \<noteq> ''''"
proof -
  have live: "liveInv C D x" using assms by (simp add: rowInv_def)
  then have stamps: "stampOk (colHlc e)" if "(c, e) \<in> set (payload x)" for c e
    using assms(2) that by (auto simp: wfHistory_def wfEntry_def liveInv_def)
  then have "filter (\<lambda>(_, e). colHlc e \<noteq> '''') (payload x) = payload x" by (fastforce simp: filter_id_conv)
  moreover obtain c e where e: "(c, e) \<in> set (payload x)" using assms(4) by (cases "payload x") auto
  ultimately show ?thesis
    using live assms(3,4) getRowHlc_nonempty [OF e] stamps [OF e] by (simp add: rowToSyncOp_def liveInv_def)
qed

lemma rebuiltEntries_ops:
  assumes "\<forall>x \<in> set xs. \<exists>o1. rowToSyncOp x = Some o1 \<and> getRowHlc x \<noteq> ''''"
  shows "concat (map ceOps (rebuiltEntries cfg fresh wall xs)) = map (\<lambda>x. the (rowToSyncOp x)) xs"
  using assms by (induction xs) (auto simp: newEntry_def)

text \<open>Each row's operation has the row as its outcome.\<close>

lemma rowToSyncOp_outcome:
  assumes inv: "rowInv C D (Some x)" "wfHistory C D" and pub: "\<not> rmDeleted (meta x) \<longrightarrow> payload x \<noteq> []"
  shows "\<exists>o1. rowToSyncOp x = Some o1 \<and> getRowHlc x \<noteq> '''' \<and> wfOp o1 \<and> refOf x = (opTable o1, opRowId o1)
    \<and> rowInv (opCols o1) (opDels o1) (Some x) \<and> compatible (opCols o1) \<and> (opCols o1 = {} \<or> opDels o1 = {})"
proof (cases "rmDeleted (meta x)")
  case True
  from rowToSyncOp_tomb [OF inv True] True show ?thesis
    by (auto simp: refOf_def rowInv_def tombInv_def compatible_def)
next
  case False
  note r = rowToSyncOp_live [OF inv False] pub
  have "wfOp (Upsert (rmTable (meta x)) (rmRowId (meta x)) (payload x))"
    using r False inv(2) by (auto simp: list_all_iff wfHistory_def)
  moreover have "compatible (set (payload x))" using r False by (auto simp: compatible_def dest: eq_key_imp_eq_value)
  ultimately show ?thesis using r False by (auto simp: refOf_def rowInv_def liveInv_def)
qed

definition refillOps :: "memory_store \<Rightarrow> op list" where
  "refillOps s = map (\<lambda>x. the (rowToSyncOp x)) (storeGetAllRows s)"

lemma refill_row:
  assumes "storeOk s" "rowsHold s hist" "wfOps hist" "publishable s" "x \<in> set (storeGetAllRows s)"
  shows "\<exists>o1. rowToSyncOp x = Some o1 \<and> getRowHlc x \<noteq> '''' \<and> wfOp o1 \<and> refOf x = (opTable o1, opRowId o1)
    \<and> rowInv (opCols o1) (opDels o1) (Some x) \<and> compatible (opCols o1) \<and> (opCols o1 = {} \<or> opDels o1 = {})"
proof -
  obtain t r where ref: "refOf x = (t, r)" by force
  have t: "okTableName t" using assms(1,5) ref by (auto simp: storeOk_def storeGetAllRows_def refOf_def)
  then have x: "storeGetRow s t r = Some x" using storeOk_lookup [OF assms(1) t] assms(5) ref by simp
  have "rowInv (rowCols t r hist) (rowDels t r hist) (storeGetRow s t r)" using assms(2) t by (simp add: rowsHold_def)
  then show ?thesis
    using rowToSyncOp_outcome [OF _ wfHistory_ops [OF assms(3)]] assms(4,5) x by (simp add: publishable_def)
qed

lemma refill_columns:
  assumes ok: "storeOk s" and t: "okTableName t"
    and ops: "\<forall>x \<in> set (storeGetAllRows s). \<exists>o1. rowToSyncOp x = Some o1 \<and> refOf x = (opTable o1, opRowId o1)"
  shows "case storeGetRow s t r of None \<Rightarrow> \<forall>o1 \<in> set (refillOps s). \<not> onRow t r o1
    | Some x \<Rightarrow> x \<in> set (storeGetAllRows s) \<and> (\<forall>o1. o1 \<in> set (refillOps s) \<and> onRow t r o1 \<longleftrightarrow> rowToSyncOp x = Some o1)"
proof -
  have on: "onRow t r (the (rowToSyncOp x)) \<longleftrightarrow> storeGetRow s t r = Some x" if "x \<in> set (storeGetAllRows s)" for x
    using ops that storeOk_lookup [OF ok t, of r x] by (auto simp: onRow_def)
  have mem: "x \<in> set (storeGetAllRows s)" if "storeGetRow s t r = Some x" for x using storeOk_lookup [OF ok t, of r x] that by simp
  show ?thesis
  proof (cases "storeGetRow s t r")
    case None
    with on show ?thesis by (auto simp: refillOps_def)
  next
    case (Some x)
    obtain o2 where o2: "rowToSyncOp x = Some o2" using ops mem [OF Some] by blast
    have "o1 \<in> set (refillOps s) \<and> onRow t r o1 \<longleftrightarrow> o1 = o2" for o1
    proof
      assume "o1 \<in> set (refillOps s) \<and> onRow t r o1"
      then obtain y where "y \<in> set (storeGetAllRows s)" "o1 = the (rowToSyncOp y)" "onRow t r o1" by (auto simp: refillOps_def)
      with on [of y] Some o2 show "o1 = o2" by simp
    next
      assume "o1 = o2"
      with on [OF mem [OF Some]] mem [OF Some] Some o2 show "o1 \<in> set (refillOps s) \<and> onRow t r o1"
        by (auto simp: refillOps_def intro!: rev_image_eqI [of x])
    qed
    then show ?thesis using Some o2 mem [OF Some] by auto
  qed
qed

lemma refill_holds:
  assumes "storeOk s" "rowsHold s hist" "wfOps hist" "publishable s"
  shows "rowsHold s (refillOps s)" "okTableName t \<Longrightarrow> compatible (rowCols t r (refillOps s)) \<and> settledColumn (refillOps s) t r c"
proof -
  note row = refill_row [OF assms]
  have at: "(storeGetRow s t r = None \<and> rowCols t r (refillOps s) = {} \<and> rowDels t r (refillOps s) = {} \<and> (\<forall>o1 \<in> set (refillOps s). \<not> onRow t r o1))
      \<or> (\<exists>x o1. storeGetRow s t r = Some x \<and> refOf x = (t, r) \<and> o1 \<in> set (refillOps s) \<and> onRow t r o1
           \<and> rowCols t r (refillOps s) = opCols o1 \<and> rowDels t r (refillOps s) = opDels o1
           \<and> rowInv (opCols o1) (opDels o1) (Some x) \<and> compatible (opCols o1) \<and> (opCols o1 = {} \<or> opDels o1 = {}))"
    if t: "okTableName t" for t r
  proof (cases "storeGetRow s t r")
    case None
    with refill_columns [OF assms(1) t, of r] row show ?thesis by (fastforce simp: rowCols_def rowDels_def)
  next
    case (Some x)
    with refill_columns [OF assms(1) t, of r] row have x: "x \<in> set (storeGetAllRows s)"
      and on: "\<And>o1. o1 \<in> set (refillOps s) \<and> onRow t r o1 \<longleftrightarrow> rowToSyncOp x = Some o1" by fastforce+
    obtain o1 where o1: "rowToSyncOp x = Some o1" "rowInv (opCols o1) (opDels o1) (Some x)" "compatible (opCols o1)"
      "opCols o1 = {} \<or> opDels o1 = {}" using row [OF x] by blast
    have "rowCols t r (refillOps s) = opCols o1" "rowDels t r (refillOps s) = opDels o1"
      using on o1(1) unfolding rowCols_def rowDels_def by auto
    moreover have "refOf x = (t, r)" using storeOk_lookup [OF assms(1) t] Some by simp
    ultimately show ?thesis using Some o1 on [of o1] by blast
  qed
  show "rowsHold s (refillOps s)"
    unfolding rowsHold_def
  proof (intro allI impI)
    fix t r assume "okTableName t"
    from at [OF this, of r] show "rowInv (rowCols t r (refillOps s)) (rowDels t r (refillOps s)) (storeGetRow s t r)
        \<and> (storeGetRow s t r = None \<longleftrightarrow> (\<forall>o1 \<in> set (refillOps s). \<not> onRow t r o1))
        \<and> (\<forall>x. storeGetRow s t r = Some x \<longrightarrow> refOf x = (t, r))"
      by (elim disjE) (force simp: rowInv_def)+
  qed
  show "compatible (rowCols t r (refillOps s)) \<and> settledColumn (refillOps s) t r c" if "okTableName t"
    using at [OF that, of r] by (auto simp: compatible_def settledColumn_def)
qed

lemma wfOps_refill:
  assumes "storeOk s" "rowsHold s hist" "wfOps hist" "publishable s"
  shows "wfOps (refillOps s)"
proof -
  note row = refill_row [OF assms]
  have bad: "rowCols t r (refillOps s) = {}" if "\<not> okTableName t" for t r
  proof -
    have "\<not> onRow t r o1" if "o1 \<in> set (refillOps s)" for o1
    proof -
      from that obtain x where x: "x \<in> set (storeGetAllRows s)" "o1 = the (rowToSyncOp x)" by (auto simp: refillOps_def)
      have "okTableName (fst (refOf x))" using assms(1) x(1) by (auto simp: storeOk_def storeGetAllRows_def refOf_def)
      then show ?thesis using row [OF x(1)] x(2) \<open>\<not> okTableName t\<close> by (auto simp: onRow_def)
    qed
    then show ?thesis by (auto simp: rowCols_def)
  qed
  have "compatible (rowCols t r (refillOps s))" for t r
    using refill_holds(2) [OF assms, of t] bad [of t r] by (cases "okTableName t") (auto simp: compatible_def)
  moreover have "wfOp o1" if "o1 \<in> set (refillOps s)" for o1 using that row by (fastforce simp: refillOps_def)
  ultimately show ?thesis by (simp add: wfOps_def)
qed

lemma rebuild_queue:
  assumes "\<forall>x \<in> set (storeGetAllRows (egLocal eg)). \<exists>o1. rowToSyncOp x = Some o1 \<and> getRowHlc x \<noteq> ''''"
  shows "set (queuedOps (egLocal (rebuildOutboxFromLocalState cfg fresh wall eg)))
      = set (queuedOps (egLocal eg)) \<union> set (refillOps (egLocal eg))"
    "storeGetRow (egLocal (rebuildOutboxFromLocalState cfg fresh wall eg)) t r = storeGetRow (egLocal eg) t r"
proof -
  note ops = rebuiltEntries_ops [OF assms, of cfg fresh wall]
  have push: "set (queuedOps (storePushOutboxEntries es s)) = set (queuedOps s) \<union> set (concat (map ceOps es))" for es s
    by (auto simp: queuedOps_def queuedEntries_def storePushOutboxEntries_def storePeekOutbox_def storePeekPendingBatch_def)
  have "egLocal (rebuildOutboxFromLocalState cfg fresh wall eg)
      = storePushOutboxEntries (rebuiltEntries cfg fresh wall (storeGetAllRows (egLocal eg))) (egLocal eg)"
    by (simp add: rebuildOutboxFromLocalState_def Let_def storePushOutboxEntries_def)
  then show "set (queuedOps (egLocal (rebuildOutboxFromLocalState cfg fresh wall eg)))
      = set (queuedOps (egLocal eg)) \<union> set (refillOps (egLocal eg))"
    unfolding refillOps_def by (simp only: push ops)
  show "storeGetRow (egLocal (rebuildOutboxFromLocalState cfg fresh wall eg)) t r = storeGetRow (egLocal eg) t r"
    by (simp add: rebuildOutboxFromLocalState_def Let_def storePushOutboxEntries_def storeGetRow_def)
qed

text \<open>The queue rebuilt from the rows carries the rows. From a store whose rows are the outcome of a
  well-formed history and in which every live row has a column, the rebuild queues one operation per
  row and nothing else, and a device that merges just these operations into nothing, in any order
  and however often, gets exactly the rows: deletions with their stamps and every column.\<close>

theorem refill_roundtrip:
  assumes "storeOk (egLocal eg)" "rowsHold (egLocal eg) hist" "wfOps hist" "publishable (egLocal eg)"
    and "lwwSchema schema" "okTableName t" "set ops' = set (refillOps (egLocal eg))"
  shows "set (queuedOps (egLocal (rebuildOutboxFromLocalState cfg fresh wall eg))) = set (queuedOps (egLocal eg)) \<union> set ops'
    \<and> isOk (snd (applyOps [] ops' sv schema))
    \<and> agreeOn (\<lambda>_. True) (storeGetRow (egLocal (rebuildOutboxFromLocalState cfg fresh wall eg)) t r)
        (getRow (fst (applyOps [] ops' sv schema)) t r)"
proof -
  note hyps = assms(1-4)
  have ops: "\<forall>x \<in> set (storeGetAllRows (egLocal eg)). \<exists>o1. rowToSyncOp x = Some o1 \<and> getRowHlc x \<noteq> ''''"
    using refill_row [OF hyps] by blast
  have wf: "wfOps (refillOps (egLocal eg))" by (rule wfOps_refill [OF hyps])
  have "agreeOn (settledColumn (refillOps (egLocal eg)) t r) (storeGetRow (egLocal eg) t r) (getRow (fst (applyOps [] ops' sv schema)) t r)"
    by (rule rowsHold_agree [OF refill_holds(1) [OF hyps] wf assms(5-7)])
  moreover have "settledColumn (refillOps (egLocal eg)) t r = (\<lambda>_. True)"
    using refill_holds(2) [OF hyps assms(6)] by blast
  moreover have "wfOps ops'" using wf same_history(3) [OF assms(7)] by simp
  ultimately show ?thesis
    using applyOps_history(1) [OF assms(5)] rebuild_queue [OF ops] assms(7) by simp
qed

text \<open>The rows left by the writes above, queued again for a new remote.\<close>

theorem refill_roundtrip_witness:
  "let eg = fold (localWrite demoConfig) demoWrites (demoEngine demoMeshRemote); ops = refillOps (egLocal eg)
   in length ops = 1 \<and> agreeOn (\<lambda>_. True) (storeGetRow (egLocal eg) ''todo'' ''r'') (getRow (fst (applyOps [] ops 1 None)) ''todo'' ''r'')"
proof -
  let ?eg = "fold (localWrite demoConfig) demoWrites (demoEngine demoMeshRemote)"
  have "\<forall>w \<in> set demoWrites. wfWrite w" by (simp add: demoWrites_def wfColumns_def okTableName_def)
  from localWrites_run [OF demoEngine_inv this, of demoMeshRemote]
  obtain ops where ops: "rowsHold (egLocal ?eg) ops" "wfOps ops" by (auto simp: writerInv_def)
  have one: "length (refillOps (egLocal ?eg)) = 1" by code_simp
  have ok: "storeOk (egLocal ?eg)" unfolding storeOk_def okTableName_def by code_simp
  have pub: "publishable (egLocal ?eg)" unfolding publishable_def by code_simp
  have "storeGetRow (egLocal (rebuildOutboxFromLocalState demoConfig (\<lambda>_. ''9'') 9 ?eg)) ''todo'' ''r'' = storeGetRow (egLocal ?eg) ''todo'' ''r''"
    by (simp add: rebuildOutboxFromLocalState_def Let_def storePushOutboxEntries_def storeGetRow_def)
  with refill_roundtrip [OF ok ops pub lwwSchema_None _ refl, of "''todo''" demoConfig "\<lambda>_. ''9''" 9 1 "''r''"] one show ?thesis
    by (simp add: Let_def okTableName_def)
qed

section \<open>Two limits\<close>

lemma newest_column_wins:
  assumes "wfOps ops" "lwwSchema schema" "rowDels t r ops = {}" "(c, e) \<in> rowCols t r ops"
    and newest: "\<And>e'. (c, e') \<in> rowCols t r ops \<Longrightarrow> e' \<noteq> e \<Longrightarrow> stampLt (colHlc e') (colHlc e)"
  shows "\<exists>z. getRow (fst (applyOps [] ops sv schema)) t r = Some z \<and> map_of (payload z) c = Some e"
proof -
  note peer = applyOps_history(2) [OF assms(2,1), where t = t and r = r and sv = sv]
  have "rowCols t r ops \<noteq> {}" using assms(4) by blast
  with peer obtain z where z: "getRow (fst (applyOps [] ops sv schema)) t r = Some z" "liveInv (rowCols t r ops) {} z"
    by (cases "getRow (fst (applyOps [] ops sv schema)) t r") (auto simp: rowInv_def tombInv_def assms(3) split: if_splits)
  then obtain e' where e': "map_of (payload z) c = Some e'" "stampLe (colHlc e) (colHlc e')"
    using assms(4) by (fastforce simp: liveInv_def survives_def)
  then have "(c, e') \<in> rowCols t r ops" using z(2) map_of_SomeD by (fastforce simp: liveInv_def)
  with newest e' have "e' = e" by fastforce
  with z e' show ?thesis by simp
qed

text \<open>A put does not compare its stamp with the one it replaces. When a column carries a stamp
  that the device's next tick does not reach (a peer's clock ran ahead by more than the skew limit, to which
  a receiving clock is clamped), the put shows locally and queues its operation, but a peer that
  merges the old column and the queued operation keeps the old column.\<close>

theorem clamped_put_diverges:
  assumes row: "storeGetRow (egLocal eg) t r = Some y" "refOf y = (t, r)" "\<not> rmDeleted (meta y)" "payload y = [(c, e)]"
    and wf: "okTableName t" "wfEntry e" "wfValue v" "v \<noteq> JUndefined" "lwwSchema schema"
    and stamp: "stamp = hlcSerialize (hlcNow wall (egHlc (refreshHlcFromLocal cfg eg)))" "stampOk stamp" "stampLt stamp (colHlc e)"
    and run: "putNow cfg fresh wall t r [(c, v)] eg = (eg', x)"
  shows "storeGetRow (egLocal eg') t r = Some x \<and> map_of (payload x) c = Some \<lparr>colValue = v, colHlc = stamp\<rparr>
    \<and> queuedOps (egLocal eg') = queuedOps (egLocal eg) @ [Upsert t r (payload x)]
    \<and> (\<exists>z. getRow (fst (applyOps [] [Upsert t r [(c, e)], Upsert t r (payload x)] sv schema)) t r = Some z
         \<and> map_of (payload z) c = Some e)"
proof -
  note parts = putNow_parts [OF run]
  let ?e = "\<lparr>colValue = v, colHlc = stamp\<rparr>"
  have p: "payload x = [(c, ?e)]"
    unfolding parts(1) row(1) stamp(1) [symmetric] by (simp add: put_payload putBase_def row(3,4) wf(4))
  have ref: "refOf x = (t, r)" "\<not> rmDeleted (meta x)" "rmDeletedHlc (meta x) = None"
    using row(2,3) unfolding parts(1) row(1) by (simp_all add: refOf_def putRowWith_def putBase_def)
  have op: "rowToSyncOp x = Some (Upsert t r (payload x))" "getRowHlc x \<noteq> ''''"
    using ref stamp(2) by (auto simp: rowToSyncOp_def refOf_def p getRowHlc_def)
  have wrote: "wroteRow x (Upsert t r (payload x)) (egLocal eg) (egLocal eg')"
    using commitRow_wrote [OF _ op, of "withHlc (hlcNow wall (egHlc (refreshHlcFromLocal cfg eg)))
        (fst (shouldCaptureLocalObservation (refreshHlcFromLocal cfg eg)))" cfg fresh wall] parts(2) ref(1) wf(1)
    by (auto simp: refOf_def)
  let ?ops = "[Upsert t r [(c, e)], Upsert t r [(c, ?e)]]"
  have cols: "rowCols t r ?ops = {(c, e), (c, ?e)}" "rowDels t r ?ops = {}"
    "rowCols t' r' ?ops \<subseteq> {(c, e), (c, ?e)}" for t' r' by (auto simp: rowCols_def rowDels_def onRow_def)
  have "colHlc e \<noteq> stamp" using stamp(3) by auto
  then have "compatible {(c, e), (c, ?e)}" by (auto simp: compatible_def)
  then have "wfOps ?ops" using cols(3) compatible_mono wf(2,3) stamp(2) unfolding wfOps_def by (auto simp: wfEntry_def)
  from newest_column_wins [OF this wf(5) cols(2), of c e sv] cols(1) stamp(3) wrote ref(1) wf(1) show ?thesis
    by (auto simp: wroteRow_def p)
qed

text \<open>A column stamped by a device whose clock is an hour beyond the limit, and the state of a device
  that has merged it: its clock was clamped.\<close>

definition aheadEntry :: column_entry where
  "aheadEntry = \<lparr>colValue = JStr ''ahead'', colHlc = hlcSerialize (hlcInit (1000 + HLC_MAX_FUTURE_SKEW_MS + 3600000) ''B'')\<rparr>"

definition clampedEngine :: "unit engine" where
  "clampedEngine =
     withHlc (hlcReceive 1000 (hlcInit 1000 ''A'') (hlcParse (colHlc aheadEntry)))
       (withLocal (storePutRow ((blankRow ''todo'' ''r'' 0 False None)\<lparr>payload := [(''a'', aheadEntry)]\<rparr>) newMemoryStore)
         (demoEngine ()))"

theorem clamped_put_diverges_witness:
  "let (eg, x) = putNow demoConfig ''1'' 1001 ''todo'' ''r'' [(''a'', JStr ''mine'')] clampedEngine
   in map_option (\<lambda>y. map_option colValue (map_of (payload y) ''a'')) (storeGetRow (egLocal eg) ''todo'' ''r'') = Some (Some (JStr ''mine''))
    \<and> map_option (\<lambda>y. map_of (payload y) ''a'')
        (getRow (fst (applyOps [] [Upsert ''todo'' ''r'' [(''a'', aheadEntry)], Upsert ''todo'' ''r'' (payload x)] 0 None)) ''todo'' ''r'')
      = Some (Some aheadEntry)"
proof -
  obtain eg x where run: "putNow demoConfig ''1'' 1001 ''todo'' ''r'' [(''a'', JStr ''mine'')] clampedEngine = (eg, x)" by force
  have ahead: "validHlc (hlcInit (1000 + HLC_MAX_FUTURE_SKEW_MS + 3600000) ''B'')" by (simp add: validHlc_def hlcInit_def HLC_MAX_FUTURE_SKEW_MS_def)
  have clock: "hlcNow 1001 (egHlc (refreshHlcFromLocal demoConfig clampedEngine))
      = \<lparr>ts = Num (1000 + HLC_MAX_FUTURE_SKEW_MS), counter = Num 2, nodeId = ''A''\<rparr>"
    using hlcParse_hlcSerialize [OF ahead]
    by (simp add: clampedEngine_def refreshHlcFromLocal_def storeGetMeta_def storePutRow_def newMemoryStore_def withHlc_def withLocal_def aheadEntry_def
        hlcReceive_def hlcNow_def hlcInit_def HLC_MAX_FUTURE_SKEW_MS_def Let_def)
  let ?h = "\<lparr>ts = Num (1000 + HLC_MAX_FUTURE_SKEW_MS), counter = Num 2, nodeId = ''A''\<rparr>"
  have h: "validHlc ?h" by (simp add: validHlc_def HLC_MAX_FUTURE_SKEW_MS_def)
  have later: "stampLt (hlcSerialize ?h) (colHlc aheadEntry)"
    using stampKey_hlcSerialize [OF h] stampKey_hlcSerialize [OF ahead]
    by (simp add: aheadEntry_def hlcKey_def hlcInit_def less_prod_simp)
  let ?y = "withKey ((blankRow ''todo'' ''r'' 0 False None)\<lparr>payload := [(''a'', aheadEntry)]\<rparr>)"
  have y: "storeGetRow (egLocal clampedEngine) ''todo'' ''r'' = Some ?y" "refOf ?y = (''todo'', ''r'')" "\<not> rmDeleted (meta ?y)"
    "payload ?y = [(''a'', aheadEntry)]"
    by (simp_all add: clampedEngine_def storeGetRow_def storePutRow_def newMemoryStore_def Let_def withKey_def refOf_def blankRow_def)
  have wf: "okTableName ''todo''" "wfEntry aheadEntry" "wfValue (JStr ''mine'')" "JStr ''mine'' \<noteq> JUndefined" "lwwSchema None"
    using stampOk_hlcSerialize [OF ahead] by (simp_all add: okTableName_def wfEntry_def aheadEntry_def)
  from clamped_put_diverges [OF y wf clock [symmetric, THEN arg_cong [of _ _ hlcSerialize]] stampOk_hlcSerialize [OF h] later run, of 0]
  show ?thesis unfolding run by auto
qed

text \<open>A put of no columns to a deleted row brings the row back on the device alone: it is written
  as a live, empty row and nothing is queued, so no peer learns of it.\<close>

theorem empty_put_local_only:
  "let eg0 = fold (localWrite demoConfig) (take 2 demoWrites) (demoEngine ());
       (eg, x) = putNow demoConfig ''4'' 6 ''todo'' ''r'' [] eg0
   in map_option (\<lambda>y. rmDeleted (meta y)) (storeGetRow (egLocal eg0) ''todo'' ''r'') = Some True
    \<and> map_option (\<lambda>y. rmDeleted (meta y)) (storeGetRow (egLocal eg) ''todo'' ''r'') = Some False
    \<and> queuedOps (egLocal eg) = queuedOps (egLocal eg0)"
  by code_simp

end
