(* ===== verification/Engine_Sync.thy ===== *)
theory Engine_Sync
  imports Local_Writes_Correct
begin

text \<open>
  The engine's remote session (\<open>packages/core/src/core/sync-engine.ts\<close>): the pause after an access
  decision, the cached manifest, offline retention with its quarantine, flush, pull, rehydrate and
  compact. The sections a lock serializes run as one step. The record \<open>env\<close> holds what the code
  takes from outside: the adapter, SHA-256, generated ids, the time of the call, and the conversion
  of times to and from ISO text, what the key source answers (the key, which mesh the stored
  record names, whether it can be written). A pull can call itself through a rehydrate; the first argument of
  \<open>pullNow\<close> bounds the depth, \<open>None\<close> says it was reached. Logging is left out.
\<close>

record 'r env =
  evOps :: "('r, cloud_data) adapter_ops"
  evSha :: "manifest_payload \<Rightarrow> string"
  evFresh :: string
  evRefresh :: "nat \<Rightarrow> string"
  evNow :: int
  evIso :: "int \<Rightarrow> string"
  evDateParse :: "string \<Rightarrow> int option"
  evWall :: "string \<Rightarrow> int"
  evDbName :: string
  evIsAuthenticated :: "'r \<Rightarrow> bool"
  evAuthenticate :: "'r \<Rightarrow> 'r \<times> unit result"
  evResolveEncryption :: "(bool \<times> nat option) result"
  evCredentialMesh :: "string option result"
  evPersistCredentials :: "string option \<Rightarrow> unit result"

section \<open>Status and timers\<close>

definition setConnectionStatus :: "connection_status \<Rightarrow> 'r engine \<Rightarrow> 'r engine" where
  "setConnectionStatus status eg = emit (ConnectionStatusEvent status) (eg\<lparr>egStatus := status\<rparr>)"

definition idleIfConnected :: "'r engine \<Rightarrow> 'r engine" where
  "idleIfConnected eg = (if ssConnected eg then setConnectionStatus Idle eg else eg)"

definition clearRetentionCompactionTimer :: "'r engine \<Rightarrow> 'r engine" where
  "clearRetentionCompactionTimer eg = eg\<lparr>egRetentionTimer := False, egRetentionDueAt := 0\<rparr>"

definition clearCompactTimers :: "'r engine \<Rightarrow> 'r engine" where
  "clearCompactTimers eg =
     (clearRetentionCompactionTimer eg)\<lparr>egCompactCheckTimer := False, egCompactRunTimer := False,
        egCompactVersion := egCompactVersion eg + 1\<rparr>"

definition stopRemoteInvalidations :: "'r engine \<Rightarrow> 'r engine" where
  "stopRemoteInvalidations eg = eg\<lparr>egSubscribed := False\<rparr>"

text \<open>An adapter of the model has no subscription, so the session polls.\<close>

definition startRemoteInvalidations :: "engine_config \<Rightarrow> 'r engine \<Rightarrow> 'r engine" where
  "startRemoteInvalidations cfg eg =
     emit (RelayUnavailable ''adapter-unsupported'') (startPolling (cfPollInterval cfg) (stopRemoteInvalidations eg))"

section \<open>Access decisions\<close>

fun accessDenied :: "js_error \<Rightarrow> bool" where
  "accessDenied (RemoteAccessError status kind retryAfterMs) =
     (kind = Unauthenticated \<or> kind = Forbidden \<or> kind = NotFoundAccess)"
| "accessDenied _ = False"

fun retryAfter :: "js_error \<Rightarrow> int" where
  "retryAfter (RemoteAccessError status kind (Some ms)) = ms"
| "retryAfter _ = 0"

definition MAX_ACCESS_BACKOFF_MS :: int where
  "MAX_ACCESS_BACKOFF_MS = 300000"

definition pauseRemote :: "js_error \<Rightarrow> 'r engine \<Rightarrow> 'r engine" where
  "pauseRemote e eg =
     (let wasPaused = (egAccessError eg \<noteq> None);
          eg1 = (clearCompactTimers (clearScheduledFlush (stopRemoteInvalidations (haltPolling (eg\<lparr>egAccessError := Some e\<rparr>)))))
                  \<lparr>ssConnected := False\<rparr>
      in if \<not> wasPaused \<or> egStatus eg1 \<noteq> Offline then setConnectionStatus Offline eg1 else eg1)"

definition handleRemoteAccessError :: "js_error \<Rightarrow> string \<Rightarrow> 'r engine \<Rightarrow> 'r engine \<times> bool" where
  "handleRemoteAccessError e stage eg =
     (if \<not> isRemoteAccessError e then (eg, False)
      else
        (let paused = accessDenied e;
             eg1 = (if paused then pauseRemote e eg
                    else if ssPollBase eg \<noteq> 0
                    then eg\<lparr>ssPollCurrent := min (max (max (ssPollCurrent eg * 2) (ssPollBase eg)) (retryAfter e)) MAX_ACCESS_BACKOFF_MS\<rparr>
                    else eg)
         in (emit (RemoteAccessEvent e stage paused) eg1, True)))"

definition clearRemoteAccessPause :: "'r engine \<Rightarrow> 'r engine" where
  "clearRemoteAccessPause eg =
     (case egAccessError eg of
        None \<Rightarrow> eg
      | Some previous \<Rightarrow> emit (RemoteAccessRestored previous) (eg\<lparr>egAccessError := None\<rparr>))"

section \<open>The adapter and the manifest\<close>

definition requireAdapter :: "string \<Rightarrow> 'r engine \<Rightarrow> unit result" where
  "requireAdapter operation eg =
     (case ssPoison eg of
        Some e \<Rightarrow> Inl e
      | None \<Rightarrow>
          if \<not> egHasAdapter eg
          then Inl (Error (''No remote storage adapter configured. Call setRemoteStorage() before '' @ operation @ ''.''))
          else Inr ())"

definition requireRemotePath :: "engine_config \<Rightarrow> string \<Rightarrow> string result" where
  "requireRemotePath cfg operation =
     (case cfRemotePath cfg of
        None \<Rightarrow> Inl (Error (operation @ '' requires remotePath; configure mesh before connecting''))
      | Some p \<Rightarrow>
          if p = '''' then Inl (Error (operation @ '' requires remotePath; configure mesh before connecting'')) else Inr p)"

definition codecStateOf :: "'r engine \<Rightarrow> codec_state" where
  "codecStateOf eg = \<lparr>csEncryptionKey = egEncryptionKey eg, csEncrypted = egEncrypted eg, csManifest = egManifest eg\<rparr>"

definition manifestContext :: "engine_config \<Rightarrow> 'r engine \<Rightarrow> manifest_context result" where
  "manifestContext cfg eg =
     bind_result (requireAdapter ''manifest'' eg) (\<lambda>_.
       bind_result (requireRemotePath cfg ''manifest'') (\<lambda>root.
         Inr \<lparr>cxRemotePath = root, cxServerId = cfServerId cfg, cxServerManaged = cfServerManaged cfg,
              cxDeviceId = cfDeviceId cfg, cxEncrypted = egEncrypted eg,
              cxSchemaVersion = Option.bind (cfSchema cfg) dsVersion, cxRetention = cfRetention cfg\<rparr>))"

text \<open>The manifest as the value kept under \<open>manifestCache\<close>.\<close>

definition optStr :: "string option \<Rightarrow> jsval" where
  "optStr v = (case v of None \<Rightarrow> JNull | Some s \<Rightarrow> JStr s)"

definition retentionValue :: "retention_input \<Rightarrow> jsval" where
  "retentionValue r = JObj (List.map_filter (\<lambda>(k, v). map_option (\<lambda>n. (k, JNum n)) v)
     [(''compactAfterMs'', riCompactAfterMs r), (''maxOfflineDurationMs'', riMaxOfflineDurationMs r)])"

definition manifestValue :: "manifest \<Rightarrow> jsval" where
  "manifestValue m = JObj (
     [(''generation'', JNum (Num (mfGeneration m))), (''parentGeneration'', JNum (Num (mfParentGeneration m))),
      (''writtenBy'', JStr (mfWrittenBy m)), (''writtenAt'', JStr (mfWrittenAt m)), (''version'', JNum (Num (mfVersion m))),
      (''meshId'', JStr (mfMeshId m)), (''schema'', JNum (Num (mfSchema m)))]
     @ (case mfEncrypted m of None \<Rightarrow> [] | Some b \<Rightarrow> [(''encrypted'', JBool b)])
     @ [(''server'', JObj ([(''managed'', JBool (scManaged (mfServer m)))]
           @ (case scRelayUrl (mfServer m) of None \<Rightarrow> [] | Some u \<Rightarrow> [(''relayUrl'', JStr u)])
           @ [(''serverId'', JStr (scServerId (mfServer m)))])),
        (''createdAt'', JStr (mfCreatedAt m)), (''epoch'', JNum (Num (mfEpoch m))), (''watermarkHlc'', JStr (mfWatermarkHlc m)),
        (''snapshotPath'', optStr (mfSnapshotPath m)), (''deltaPath'', optStr (mfDeltaPath m))]
     @ (case mfRetention m of None \<Rightarrow> [] | Some r \<Rightarrow> [(''retention'', retentionValue r)])
     @ (if mfLineage m = JUndefined then [] else [(''lineage'', mfLineage m)])
     @ [(''contentHash'', JStr (mfContentHash m))])"

definition doLoadOrCreateManifest ::
  "'r env \<Rightarrow> engine_config \<Rightarrow> string \<Rightarrow> bool \<Rightarrow> load_options \<Rightarrow> bool \<Rightarrow> 'r engine \<Rightarrow> 'r engine \<times> bool result"
where
  "doLoadOrCreateManifest env cfg reason force opts persistCache eg =
     (case (if force \<or> ssPoison eg \<noteq> None then None else egManifest eg) of
        Some m \<Rightarrow> (emit (ManifestCacheHit reason (mfGeneration m)) eg, Inr False)
      | None \<Rightarrow>
          (case manifestContext cfg eg of
             Inl e \<Rightarrow> (eg, Inl e)
           | Inr ctx \<Rightarrow>
               (case loadManifestFrom (evSha env) (evFresh env) (evIso env (evNow env)) (evOps env) ctx (codecStateOf eg) opts
                       (ssLocal eg) (ssRemote eg) of
                  ((local1, r1), Inl (None, e)) \<Rightarrow> (eg\<lparr>ssLocal := local1, ssRemote := r1\<rparr>, Inl e)
                | ((local1, r1), Inl (Some path, e)) \<Rightarrow>
                    (case poisonRemote (evOps env) e path (eg\<lparr>ssLocal := local1, ssRemote := r1\<rparr>) of (eg1, e1) \<Rightarrow> (eg1, Inl e1))
                | ((local1, r1), Inr (m, bootstrapped)) \<Rightarrow>
                    (eg\<lparr>ssLocal := (if persistCache then storeSetMeta ''manifestCache'' (manifestValue m) local1 else local1),
                        ssRemote := r1, egManifest := Some m, egEncrypted := (mfEncrypted m = Some True \<or> egEncrypted eg)\<rparr>,
                     Inr bootstrapped))))"

definition acknowledgeManifest :: "'r env \<Rightarrow> engine_config \<Rightarrow> 'r engine \<Rightarrow> 'r engine \<times> unit result" where
  "acknowledgeManifest env cfg eg =
     (if cfReaderMode cfg then (eg, Inr ())
      else
        (case (egHasAdapter eg, cfRemotePath cfg, egManifest eg) of
           (True, Some root, Some m) \<Rightarrow>
             if root = '''' \<or> mfWatermarkHlc m = '''' \<and> mfEpoch m = 0 then (eg, Inr ())
             else
               (case upsertDeviceMetadata (evIso env (evNow env)) (evOps env) root (cfDeviceId cfg)
                       \<lparr>uoDisplayName = cfDeviceName cfg, uoDeviceType = cfDeviceType cfg,
                        uoObservedManifestGeneration = Some (mfGeneration m), uoObservedEpoch = Some (mfEpoch m),
                        uoObservedWatermarkHlc = Some (mfWatermarkHlc m), uoBootstrap = False, uoSkipTouchIfUnchanged = True\<rparr>
                       (ssRemote eg) of
                  (r1, res) \<Rightarrow> (eg\<lparr>ssRemote := r1\<rparr>, res))
         | _ \<Rightarrow> (eg, Inr ())))"

section \<open>Offline retention\<close>

definition LAST_SUCCESSFUL_SYNC_AT_META :: string where "LAST_SUCCESSFUL_SYNC_AT_META = ''lastSuccessfulSyncAt''"
definition OFFLINE_RETENTION_EXPIRED_AT_META :: string where "OFFLINE_RETENTION_EXPIRED_AT_META = ''offlineRetentionExpiredAt''"
definition QUARANTINED_OFFLINE_CHANGES_META :: string where "QUARANTINED_OFFLINE_CHANGES_META = ''quarantinedOfflineChanges''"

definition activeRetentionPolicy :: "engine_config \<Rightarrow> 'r engine \<Rightarrow> retention_policy result" where
  "activeRetentionPolicy cfg eg =
     resolveRetentionPolicy (case Option.bind (egManifest eg) mfRetention of
        Some r \<Rightarrow> Some r | None \<Rightarrow> Some (policyInput (cfRetention cfg)))"

record retention_state =
  rsExpired :: bool
  rsLastSuccessfulSyncAt :: "string option"
  rsMaxOfflineDurationMs :: int

definition offlineRetentionState :: "'r env \<Rightarrow> engine_config \<Rightarrow> 'r engine \<Rightarrow> retention_state result" where
  "offlineRetentionState env cfg eg =
     bind_result (activeRetentionPolicy cfg eg) (\<lambda>policy.
       let maxOffline = rpMaxOfflineDurationMs policy in
       case storeGetMeta (ssLocal eg) LAST_SUCCESSFUL_SYNC_AT_META of
         JStr stored \<Rightarrow>
           if stored = '''' then Inr \<lparr>rsExpired = False, rsLastSuccessfulSyncAt = None, rsMaxOfflineDurationMs = maxOffline\<rparr>
           else Inr \<lparr>rsExpired = (case evDateParse env stored of None \<Rightarrow> True | Some t \<Rightarrow> evNow env - t > maxOffline),
                     rsLastSuccessfulSyncAt = Some stored, rsMaxOfflineDurationMs = maxOffline\<rparr>
       | _ \<Rightarrow> Inr \<lparr>rsExpired = False, rsLastSuccessfulSyncAt = None, rsMaxOfflineDurationMs = maxOffline\<rparr>)"

text \<open>A change entry as the value the quarantine keeps.\<close>

fun opValue :: "op \<Rightarrow> jsval" where
  "opValue (Upsert t r cols) = JObj [(''type'', JStr ''upsert''), (''table'', JStr t), (''rowId'', JStr r),
     (''columns'', JObj (map (\<lambda>(c, e). (c, JObj [(''value'', colValue e), (''hlc'', JStr (colHlc e))])) cols))]"
| "opValue (Delete t r h) = JObj [(''type'', JStr ''delete''), (''table'', JStr t), (''rowId'', JStr r), (''hlc'', JStr h)]"

definition entryValue :: "change_entry \<Rightarrow> jsval" where
  "entryValue e = JObj ([(''id'', JStr (ceId e)), (''ts'', JNum (Num (ceTs e))), (''device'', JStr (ceDevice e))]
     @ (case ceUser e of None \<Rightarrow> [] | Some u \<Rightarrow> [(''user'', JStr u)])
     @ [(''hlc'', JStr (ceHlc e)), (''ops'', JArr (map opValue (ceOps e)))])"

text \<open>\<open>existing?.entries ?? []\<close> of a stored quarantine: the code stores nothing but arrays there.\<close>

fun quarantinedEntries :: "jsval \<Rightarrow> jsval list" where
  "quarantinedEntries (JObj fs) = (case map_of fs ''entries'' of Some (JArr xs) \<Rightarrow> xs | _ \<Rightarrow> [])"
| "quarantinedEntries _ = []"

fun entryId :: "jsval \<Rightarrow> jsval" where
  "entryId (JObj fs) = (case map_of fs ''id'' of Some v \<Rightarrow> v | None \<Rightarrow> JUndefined)"
| "entryId _ = JUndefined"

definition mergeQuarantine :: "jsval list \<Rightarrow> change_entry list \<Rightarrow> jsval list" where
  "mergeQuarantine existing queued =
     map snd (fold (\<lambda>v. AList.update (entryId v) v) (existing @ map entryValue queued) [])"

definition quarantineExpiredOfflineWrites :: "'r env \<Rightarrow> engine_config \<Rightarrow> 'r engine \<Rightarrow> 'r engine \<times> jsval list option result" where
  "quarantineExpiredOfflineWrites env cfg eg =
     (case offlineRetentionState env cfg eg of
        Inl e \<Rightarrow> (eg, Inl e)
      | Inr rs \<Rightarrow>
          (case (if rsExpired rs then rsLastSuccessfulSyncAt rs else None) of
             None \<Rightarrow> (eg, Inr None)
           | Some lastAt \<Rightarrow>
               (let eg1 = flushPendingBatch cfg eg;
                    queued = storePeekOutbox (ssLocal eg1);
                    entries = mergeQuarantine (quarantinedEntries (storeGetMeta (ssLocal eg1) QUARANTINED_OFFLINE_CHANGES_META)) queued;
                    expiredAt = evIso env (evNow env);
                    quarantine = JObj [(''expiredAt'', JStr expiredAt), (''lastSuccessfulSyncAt'', JStr lastAt),
                       (''maxOfflineDurationMs'', JNum (Num (rsMaxOfflineDurationMs rs))), (''entries'', JArr entries)];
                    local1 = storeAcknowledgeOutbox (map ceId queued)
                       (storeSetMeta OFFLINE_RETENTION_EXPIRED_AT_META (JStr expiredAt)
                         (storeSetMeta QUARANTINED_OFFLINE_CHANGES_META quarantine (ssLocal eg1)));
                    eg2 = resetCompactWarning (clearScheduledFlush (eg1\<lparr>ssLocal := local1, egPendingBatch := False, egPendingCount := 0\<rparr>))
                in (emit (OfflineRetentionExpired expiredAt lastAt (rsMaxOfflineDurationMs rs) (length entries)) eg2,
                    Inr (Some entries)))))"

definition preservedRetentionMeta :: "'r engine \<Rightarrow> (string \<times> jsval) list" where
  "preservedRetentionMeta eg =
     map (\<lambda>k. (k, storeGetMeta (ssLocal eg) k))
       [QUARANTINED_OFFLINE_CHANGES_META, OFFLINE_RETENTION_EXPIRED_AT_META, LAST_SUCCESSFUL_SYNC_AT_META, ''meshId'', MESH_LINEAGE_META]"

definition markSuccessfulRemoteSync :: "'r env \<Rightarrow> 'r engine \<Rightarrow> 'r engine" where
  "markSuccessfulRemoteSync env eg =
     eg\<lparr>ssLocal := storeSetMeta OFFLINE_RETENTION_EXPIRED_AT_META JNull
          (storeSetMeta LAST_SUCCESSFUL_SYNC_AT_META (JStr (evIso env (evNow env))) (ssLocal eg))\<rparr>"

definition getQuarantinedOfflineChanges :: "'r engine \<Rightarrow> jsval option" where
  "getQuarantinedOfflineChanges eg =
     (case storeGetMeta (ssLocal eg) QUARANTINED_OFFLINE_CHANGES_META of
        JObj fs \<Rightarrow> Some (JObj fs) | JArr xs \<Rightarrow> Some (JArr xs) | JDate d \<Rightarrow> Some (JDate d) | _ \<Rightarrow> None)"

definition clearQuarantinedOfflineChanges :: "'r engine \<Rightarrow> 'r engine" where
  "clearQuarantinedOfflineChanges eg = eg\<lparr>ssLocal := storeSetMeta QUARANTINED_OFFLINE_CHANGES_META JNull (ssLocal eg)\<rparr>"

section \<open>Scheduling retention checks\<close>

definition scheduleRetentionCompactionCheck :: "'r env \<Rightarrow> engine_config \<Rightarrow> int \<Rightarrow> 'r engine \<Rightarrow> 'r engine" where
  "scheduleRetentionCompactionCheck env cfg delayMs eg =
     (if cfReaderMode cfg \<or> \<not> ssConnected eg \<or> cfRemotePath cfg = None \<or> cfRemotePath cfg = Some '''' \<or> \<not> managedMesh eg then eg
      else
        (let dueAt = evNow env + max 0 delayMs in
         if egRetentionTimer eg \<and> egRetentionDueAt eg \<le> dueAt then eg
         else emit (RetentionScheduled dueAt) (eg\<lparr>egRetentionDueAt := dueAt, egRetentionTimer := True\<rparr>)))"

text \<open>Without an argument the delay is that of the policy, whose resolution can throw.\<close>

definition scheduleDefaultRetentionCheck :: "'r env \<Rightarrow> engine_config \<Rightarrow> 'r engine \<Rightarrow> 'r engine \<times> unit result" where
  "scheduleDefaultRetentionCheck env cfg eg =
     (case activeRetentionPolicy cfg eg of
        Inl e \<Rightarrow> (eg, Inl e)
      | Inr policy \<Rightarrow> (scheduleRetentionCompactionCheck env cfg (rpCompactAfterMs policy) eg, Inr ()))"

section \<open>Flush\<close>

definition emitAll :: "sync_event list \<Rightarrow> 'r engine \<Rightarrow> 'r engine" where
  "emitAll evs eg = fold emit evs eg"

text \<open>The publication of the peeked entries: the part of \<open>doFlush\<close> inside \<open>try\<close>.\<close>

definition publishEntries :: "'r env \<Rightarrow> engine_config \<Rightarrow> change_entry list \<Rightarrow> 'r engine \<Rightarrow> 'r engine \<times> unit result" where
  "publishEntries env cfg entries eg =
     (case requireRemotePath cfg ''flush()'' of
        Inl e \<Rightarrow> (eg, Inl e)
      | Inr root \<Rightarrow>
          (let outcome = flushPrimary (evIso env (evNow env)) (evOps env) root entries (codecStateOf eg) (cfDeviceId cfg)
                 (egReplicas eg) (ssLocal eg) (ssRemote eg);
               eg1 = emitAll (map HeadTrace (foHeadEvents outcome) @ map ReplicaErrorEvent (foReplicaErrors outcome))
                 (eg\<lparr>ssLocal := foLocal outcome, ssRemote := foRemote outcome, egReplicas := foReplicas outcome\<rparr>)
           in case foResult outcome of
                Inl e \<Rightarrow> (eg1, Inl e)
              | Inr _ \<Rightarrow>
                  (let eg2 = markSuccessfulRemoteSync env
                         (eg1\<lparr>ssLocal := storeAcknowledgeOutbox (map ceId entries) (ssLocal eg1)\<rparr>);
                       eg3 = scheduleRetentionCompactionCheck env cfg 0 eg2
                   in (idleIfConnected (emit FlushComplete eg3), Inr ()))))"

text \<open>The part of \<open>doFlush\<close> after the manifest was refreshed.\<close>

definition flushRefreshed :: "'r env \<Rightarrow> engine_config \<Rightarrow> nat \<Rightarrow> change_entry list \<Rightarrow> 'r engine \<Rightarrow> 'r engine \<times> nat result" where
  "flushRefreshed env cfg trigger entries eg1 =
     (case quarantineExpiredOfflineWrites env cfg eg1 of
        (eg2, Inl e) \<Rightarrow> (eg2, Inl e)
      | (eg2, Inr (Some _)) \<Rightarrow> (eg2, Inr 0)
      | (eg2, Inr None) \<Rightarrow>
          (let eg3 = emit (FlushStart (length entries)) eg2;
               eg4 = (if ssConnected eg3 then setConnectionStatus Syncing eg3 else eg3);
               eg5 = clearScheduledFlush (resetCompactWarning (eg4\<lparr>egPendingCount := 0\<rparr>))
           in case publishEntries env cfg entries eg5 of
                (eg6, Inr _) \<Rightarrow> (eg6, Inr trigger)
              | (eg6, Inl e) \<Rightarrow>
                  (let eg7 = idleIfConnected (fst (handleRemoteAccessError e ''flush'' eg6))
                   in (maybeEmitCompactWarning cfg (eg7\<lparr>egPendingCount := length entries\<rparr>), Inl e))))"

definition doFlush :: "'r env \<Rightarrow> engine_config \<Rightarrow> 'r engine \<Rightarrow> 'r engine \<times> nat result" where
  "doFlush env cfg eg =
     (if \<not> egHasAdapter eg \<or> egAccessError eg \<noteq> None then (clearScheduledFlush eg, Inr 0)
      else
        (let trigger = egPendingCount eg; entries = storePeekOutbox (ssLocal eg) in
         if entries = [] then (resetCompactWarning (eg\<lparr>egPendingCount := 0\<rparr>), Inr 0)
         else
           (case doLoadOrCreateManifest env cfg ''flush-retention'' True defaultLoad True eg of
              (eg1, Inl e) \<Rightarrow> (eg1, Inl e)
            | (eg1, Inr _) \<Rightarrow> flushRefreshed env cfg trigger entries eg1)))"

section \<open>Pull, rehydrate, compact\<close>

definition createUnlessReader :: "engine_config \<Rightarrow> load_options" where
  "createUnlessReader cfg = \<lparr>loAssertLocalMeshId = True, loCreateIfMissing = \<not> cfReaderMode cfg\<rparr>"

definition localEpoch :: "'r engine \<Rightarrow> jnum" where
  "localEpoch eg = (case storeGetMeta (ssLocal eg) ''epoch'' of JNum n \<Rightarrow> n | _ \<Rightarrow> Num 0)"

text \<open>A reader checks the manifest first; the answer says whether it must rehydrate.\<close>

definition readerCheck :: "'r env \<Rightarrow> engine_config \<Rightarrow> 'r engine \<Rightarrow> 'r engine \<times> bool result" where
  "readerCheck env cfg eg =
     (case (if egReaderManifestFresh eg then (eg, Inr False)
            else doLoadOrCreateManifest env cfg ''reader-pull'' True \<lparr>loAssertLocalMeshId = True, loCreateIfMissing = False\<rparr> True eg) of
        (eg1, Inl e) \<Rightarrow> (eg1, Inl e)
      | (eg1, Inr _) \<Rightarrow>
          (let eg2 = eg1\<lparr>egReaderManifestFresh := False\<rparr> in
           case egManifest eg2 of
             None \<Rightarrow> (eg2, Inr False)
           | Some m \<Rightarrow>
               if jgt (Num (mfEpoch m)) (localEpoch eg2) \<and> (case mfSnapshotPath m of None \<Rightarrow> False | Some p \<Rightarrow> p \<noteq> '''')
               then (eg2\<lparr>egReaderManifestFresh := True\<rparr>, Inr True) else (eg2, Inr False)))"

definition pullFromRemote :: "'r env \<Rightarrow> engine_config \<Rightarrow> 'r engine \<Rightarrow> 'r engine \<times> unit result" where
  "pullFromRemote env cfg eg =
     (case requireRemotePath cfg ''pull()'' of
        Inl e \<Rightarrow> (eg, Inl e)
      | Inr root \<Rightarrow>
          (case Pull.pull (evOps env)
                  \<lparr>pcRemotePath = root, pcCodec = codecStateOf eg, pcSchema = cfSchema cfg, pcObserves = egListeners eg \<noteq> []\<rparr>
                  (evWall env)
                  (\<lambda>st. case doLoadOrCreateManifest env cfg ''pull'' False (createUnlessReader cfg) True st of
                          (st1, Inl e) \<Rightarrow> (st1, Inl e) | (st1, Inr _) \<Rightarrow> (st1, Inr ())) eg of
             (eg1, Inl e) \<Rightarrow> (eg1, Inl e)
           | (eg1, Inr _) \<Rightarrow>
               (case (if ssConnected eg1 then scheduleDefaultRetentionCheck env cfg (markSuccessfulRemoteSync env eg1)
                      else (eg1, Inr ())) of
                  (eg2, Inl e) \<Rightarrow> (eg2, Inl e)
                | (eg2, Inr _) \<Rightarrow> acknowledgeManifest env cfg eg2)))"

text \<open>\<open>rehydrateNow\<close> with the pull it ends with.\<close>

definition rehydrateWith ::
  "'r env \<Rightarrow> engine_config \<Rightarrow> ('r engine \<Rightarrow> ('r engine \<times> unit result) option) \<Rightarrow> (string \<times> jsval) list \<Rightarrow> 'r engine \<Rightarrow>
     ('r engine \<times> unit result) option"
where
  "rehydrateWith env cfg pullf preserved eg =
     (case requireAdapter ''rehydrate()'' eg of
        Inl e \<Rightarrow> Some (eg, Inl e)
      | Inr _ \<Rightarrow>
          (case rehydrateRestore (evOps env)
                  \<lparr>rcCodec = codecStateOf eg, rcManifest = egManifest eg, rcDeviceId = cfDeviceId cfg, rcPreservedMeta = preserved\<rparr>
                  (\<lambda>st. case doLoadOrCreateManifest env cfg ''rehydrate-stale-snapshot'' True (createUnlessReader cfg) True st of
                          (st1, Inl e) \<Rightarrow> (st1, Inl e) | (st1, Inr _) \<Rightarrow> (st1, Inr (egManifest st1))) eg of
             (eg1, Inl e) \<Rightarrow> Some (eg1, Inl e)
           | (eg1, Inr clock) \<Rightarrow>
               (case pullf eg1 of
                  None \<Rightarrow> None
                | Some (eg2, Inl e) \<Rightarrow> Some (eg2, Inl e)
                | Some (eg2, Inr _) \<Rightarrow> Some (acknowledgeManifest env cfg (eg2\<lparr>ssHlc := clock\<rparr>)))))"

text \<open>The \<open>catch\<close> and \<open>finally\<close> of the pull.\<close>

fun pullEnd :: "'r engine \<times> unit result \<Rightarrow> 'r engine \<times> unit result" where
  "pullEnd (eg, Inr _) = (idleIfConnected eg, Inr ())"
| "pullEnd (eg, Inl e) = (idleIfConnected (fst (handleRemoteAccessError e ''pull'' eg)), Inl e)"

fun pullNow :: "nat \<Rightarrow> 'r env \<Rightarrow> engine_config \<Rightarrow> 'r engine \<Rightarrow> ('r engine \<times> unit result) option" where
  "pullNow 0 env cfg eg = None"
| "pullNow (Suc n) env cfg eg =
     (case requireAdapter ''pull()'' eg of
        Inl e \<Rightarrow> Some (eg, Inl e)
      | Inr _ \<Rightarrow>
          (let eg0 = (if ssConnected eg then setConnectionStatus Syncing eg else eg) in
           map_option pullEnd
             (if cfReaderMode cfg then
                (case readerCheck env cfg eg0 of
                   (eg1, Inl e) \<Rightarrow> Some (eg1, Inl e)
                 | (eg1, Inr True) \<Rightarrow> rehydrateWith env cfg (pullNow n env cfg) [] eg1
                 | (eg1, Inr False) \<Rightarrow> Some (pullFromRemote env cfg eg1))
              else Some (pullFromRemote env cfg eg0))))"

definition rehydrateNow ::
  "nat \<Rightarrow> 'r env \<Rightarrow> engine_config \<Rightarrow> (string \<times> jsval) list \<Rightarrow> 'r engine \<Rightarrow> ('r engine \<times> unit result) option"
where
  "rehydrateNow n env cfg preserved eg = rehydrateWith env cfg (pullNow n env cfg) preserved eg"

definition flushAndRehydrateNow :: "nat \<Rightarrow> 'r env \<Rightarrow> engine_config \<Rightarrow> 'r engine \<Rightarrow> ('r engine \<times> unit result) option" where
  "flushAndRehydrateNow n env cfg eg =
     (case doFlush env cfg (flushPendingBatch cfg eg) of
        (eg1, Inl e) \<Rightarrow> Some (eg1, Inl e)
      | (eg1, Inr _) \<Rightarrow> rehydrateNow n env cfg (preservedRetentionMeta eg1) eg1)"

definition resetExpiredClientFromRemote :: "nat \<Rightarrow> 'r env \<Rightarrow> engine_config \<Rightarrow> 'r engine \<Rightarrow> ('r engine \<times> unit result) option" where
  "resetExpiredClientFromRemote n env cfg eg =
     (let preserved = preservedRetentionMeta eg in
      if (case Option.bind (egManifest eg) mfSnapshotPath of None \<Rightarrow> False | Some p \<Rightarrow> p \<noteq> '''')
      then rehydrateNow n env cfg preserved eg
      else pullNow n env cfg
             (eg\<lparr>ssLocal := setPreserved preserved (storeClearAll (ssLocal eg)), ssTables := [], ssKnownTables := []\<rparr>))"

definition compactContextOf :: "engine_config \<Rightarrow> string \<Rightarrow> retention_policy \<Rightarrow> manifest \<Rightarrow> 'r engine \<Rightarrow> compact_context" where
  "compactContextOf cfg root retention m eg =
     \<lparr>ccRemotePath = root, ccManifest = m, ccCodec = codecStateOf eg, ccHlc = ssHlc eg, ccDeviceId = cfDeviceId cfg,
      ccServerId = cfServerId cfg, ccRetention = retention\<rparr>"

text \<open>The call of \<open>doCompact\<close> with its arguments, which are evaluated first.\<close>

definition compactWith ::
  "nat \<Rightarrow> 'r env \<Rightarrow> engine_config \<Rightarrow> manifest \<Rightarrow> 'r engine \<Rightarrow> ('r engine \<times> unit result) option"
where
  "compactWith n env cfg m eg =
     (case bind_result (requireRemotePath cfg ''compact()'') (\<lambda>root.
             bind_result (if cfRetentionConfigured cfg then Inr (cfRetention cfg) else activeRetentionPolicy cfg eg)
               (\<lambda>retention. Inr (compactContextOf cfg root retention m eg))) of
        Inl e \<Rightarrow> Some (eg, Inl e)
      | Inr cx \<Rightarrow>
          (case mayCompact cx of
             Inl e \<Rightarrow> Some (eg, Inl e)
           | Inr _ \<Rightarrow>
               (case pullNow n env cfg eg of
                  None \<Rightarrow> None
                | Some (eg1, Inl e) \<Rightarrow> Some (eg1, Inl e)
                | Some (eg1, Inr _) \<Rightarrow>
                    (case compactPulled (evSha env) (evFresh env) (evIso env (evNow env)) (evOps env) cx eg1 of
                       (eg2, Inl e) \<Rightarrow> Some (eg2, Inl e)
                     | (eg2, Inr m1) \<Rightarrow> Some (acknowledgeManifest env cfg (eg2\<lparr>egManifest := Some m1\<rparr>))))))"

definition compactNow :: "nat \<Rightarrow> 'r env \<Rightarrow> engine_config \<Rightarrow> 'r engine \<Rightarrow> ('r engine \<times> unit result) option" where
  "compactNow n env cfg eg =
     (case doLoadOrCreateManifest env cfg ''compact-retention'' True defaultLoad True eg of
        (eg1, Inl e) \<Rightarrow> Some (eg1, Inl e)
      | (eg1, Inr _) \<Rightarrow>
          (case quarantineExpiredOfflineWrites env cfg eg1 of
             (eg2, Inl e) \<Rightarrow> Some (eg2, Inl e)
           | (eg2, Inr (Some _)) \<Rightarrow> resetExpiredClientFromRemote n env cfg eg2
           | (eg2, Inr None) \<Rightarrow>
               (case doFlush env cfg (flushPendingBatch cfg eg2) of
                  (eg3, Inl e) \<Rightarrow> Some (eg3, Inl e)
                | (eg3, Inr _) \<Rightarrow>
                    (case requireAdapter ''compact()'' eg3 of
                       Inl e \<Rightarrow> Some (eg3, Inl e)
                     | Inr _ \<Rightarrow>
                         (case egManifest eg3 of
                            None \<Rightarrow> Some (eg3, Inl (Error ''Engine is not connected''))
                          | Some m \<Rightarrow> compactWith n env cfg m eg3)))))"

end
