(* ===== verification/Engine_Maintenance.thy ===== *)
theory Engine_Maintenance
  imports Engine_Sync
begin

text \<open>
  Background maintenance of the engine (\<open>packages/core/src/core/sync-engine.ts\<close>): the compaction a flush
  may start, the delayed compaction after changes, and the retention check that bounds the age of change
  files. The time of a timer callback is \<open>evNow\<close>, \<open>roll\<close> is the random draw of a sampled compaction.
  An automatic compaction stops at the promise it awaits; what becomes of that promise is the subject
  of \<open>Compact_Flight\<close>. The depth of pulls inside a compaction is bounded as in \<open>Engine_Sync\<close>.
\<close>

definition MAX_TIMER_DELAY_MS :: int where "MAX_TIMER_DELAY_MS = 2147000000"
definition RETENTION_RETRY_DELAY_MS :: int where "RETENTION_RETRY_DELAY_MS = 60 * 60000"

section \<open>The compaction a flush starts\<close>

definition sampleWindow :: "engine_config \<Rightarrow> nat" where
  "sampleWindow cfg = max 1 (cfCompactAutoDeviceCount cfg div max 1 (cfCompactAutoSampleNumerator cfg))"

text \<open>The guards in their order: the reason an automatic compaction is skipped.\<close>

definition autoCompactSkip :: "engine_config \<Rightarrow> nat \<Rightarrow> 'r engine \<Rightarrow> string option" where
  "autoCompactSkip cfg roll eg =
     (if \<not> cfAutoCompact cfg then Some ''disabled''
      else if \<not> egHasAdapter eg \<or> \<not> hasRemotePath cfg then Some ''missing-remote''
      else if \<not> ssConnected eg then Some ''not-connected''
      else if \<not> managedMesh eg then Some ''peer-mode''
      else if ssPoison eg \<noteq> None then Some ''poisoned''
      else if egCompactInFlight eg then Some ''already-running''
      else if roll mod sampleWindow cfg \<noteq> 0 then Some ''sampling''
      else None)"

definition maybeAutoCompact :: "engine_config \<Rightarrow> nat \<Rightarrow> nat \<Rightarrow> 'r engine \<Rightarrow> 'r engine" where
  "maybeAutoCompact cfg roll triggerQueuedChangeCount eg =
     (if triggerQueuedChangeCount < cfCompactAutoThreshold cfg then eg
      else
        (case autoCompactSkip cfg roll eg of
           Some reason \<Rightarrow> emit (AutoCompactSkip ''immediate'' reason) eg
         | None \<Rightarrow> (emit (AutoCompactStart ''immediate'') eg)\<lparr>egCompactInFlight := True\<rparr>))"

definition flushQueued :: "'r env \<Rightarrow> engine_config \<Rightarrow> nat \<Rightarrow> bool \<Rightarrow> 'r engine \<Rightarrow> 'r engine \<times> unit result" where
  "flushQueued env cfg roll includePendingBatch eg =
     (case doFlush env cfg (if includePendingBatch then flushPendingBatch cfg eg else eg) of
        (eg1, Inl e) \<Rightarrow> (eg1, Inl e)
      | (eg1, Inr trigger) \<Rightarrow> (maybeAutoCompact cfg roll trigger eg1, Inr ()))"

section \<open>Delayed compaction\<close>

text \<open>The pattern \<open>/changes/[^/]+-chg_[^/]+.json\<close> at the end of a path.\<close>

definition isChangeName :: "string \<Rightarrow> bool" where
  "isChangeName name =
     list_ex (\<lambda>i. startsAt ''-chg_'' name i
         \<and> (let rest = drop (i + 5) name in length rest > 5 \<and> endsWith rest ''.json'' \<and> CHR ''/'' \<notin> set rest))
       [0..<length name]"

definition isChangePath :: "string \<Rightarrow> bool" where
  "isChangePath path =
     (let name = afterLastSlash path; folder = take (length path - length name) path
      in endsWith folder ''/changes/''
         \<and> list_ex (\<lambda>i. i > 0 \<and> startsAt ''-chg_'' name i
              \<and> (let rest = drop (i + 5) name in length rest > 5 \<and> endsWith rest ''.json'')) [0..<length name])"

definition remoteChangeFileCount :: "'r env \<Rightarrow> string \<Rightarrow> 'r engine \<Rightarrow> nat" where
  "remoteChangeFileCount env root eg =
     (case opListFiles (evOps env) (root @ ''/changes'') (ssRemote eg) of
        Inl _ \<Rightarrow> 0
      | Inr files \<Rightarrow> length (filter (\<lambda>f. isChangePath (fePath f)) files))"

definition runDelayedCompactCheck :: "'r env \<Rightarrow> engine_config \<Rightarrow> nat \<Rightarrow> 'r engine \<Rightarrow> 'r engine" where
  "runDelayedCompactCheck env cfg version eg0 =
     (let eg = eg0\<lparr>egCompactCheckTimer := False\<rparr> in
      if version \<noteq> egCompactVersion eg then eg
      else if \<not> cfAutoCompact cfg \<or> \<not> ssConnected eg \<or> \<not> egHasAdapter eg \<or> \<not> hasRemotePath cfg then eg
      else if ssPoison eg \<noteq> None then eg
      else
        (let count = remoteChangeFileCount env (the (cfRemotePath cfg)) eg;
             eg1 = emit (DelayedCompactCheck (egPendingCount eg) count) eg
         in if count \<le> cfCompactRemoteChangeThreshold cfg then emit (AutoCompactSkip ''delayed'' ''below-remote-threshold'') eg1
            else (emit (CompactDelayedScheduled (egPendingCount eg1) ''compact'') eg1)\<lparr>egCompactRunTimer := True\<rparr>))"

definition delayedCompactSkip :: "engine_config \<Rightarrow> nat \<Rightarrow> 'r engine \<Rightarrow> string option" where
  "delayedCompactSkip cfg version eg =
     (if version \<noteq> egCompactVersion eg then Some ''superseded''
      else if \<not> cfAutoCompact cfg \<or> \<not> ssConnected eg \<or> \<not> egHasAdapter eg \<or> \<not> hasRemotePath cfg
      then Some (if ssConnected eg then (if cfAutoCompact cfg then ''missing-remote'' else ''disabled'') else ''not-connected'')
      else if ssPoison eg \<noteq> None then Some ''poisoned''
      else if egCompactInFlight eg then Some ''already-running''
      else None)"

definition runDelayedCompact :: "nat \<Rightarrow> 'r env \<Rightarrow> engine_config \<Rightarrow> nat \<Rightarrow> 'r engine \<Rightarrow> 'r engine option" where
  "runDelayedCompact n env cfg version eg0 =
     (let eg = eg0\<lparr>egCompactRunTimer := False\<rparr> in
      case delayedCompactSkip cfg version eg of
        Some reason \<Rightarrow> Some (emit (AutoCompactSkip ''delayed'' reason) eg)
      | None \<Rightarrow>
          (case compactNow n env cfg (emit (AutoCompactStart ''delayed'') eg) of
             None \<Rightarrow> None
           | Some (eg1, Inr _) \<Rightarrow> Some (emit (AutoCompactComplete ''delayed'') eg1)
           | Some (eg1, Inl e) \<Rightarrow> Some (emit (AutoCompactError ''delayed'' e) eg1)))"

section \<open>The retention check\<close>

definition mayCheckRetention :: "engine_config \<Rightarrow> 'r engine \<Rightarrow> bool" where
  "mayCheckRetention cfg eg =
     (\<not> cfReaderMode cfg \<and> ssConnected eg \<and> egHasAdapter eg \<and> hasRemotePath cfg \<and> managedMesh eg)"

text \<open>The locked section: the manifest is reloaded, then superseded snapshots are deleted; the answer says whether
  that has to be tried again.\<close>

definition cleanSnapshots :: "'r env \<Rightarrow> engine_config \<Rightarrow> string \<Rightarrow> 'r engine \<Rightarrow> 'r engine \<times> bool result" where
  "cleanSnapshots env cfg root eg =
     (case doLoadOrCreateManifest env cfg ''snapshot-retention-check'' True defaultLoad True eg of
        (eg1, Inl e) \<Rightarrow> (eg1, Inl e)
      | (eg1, Inr _) \<Rightarrow>
          (case Option.bind (egManifest eg1) mfSnapshotPath of
             None \<Rightarrow> (eg1, Inr False)
           | Some path \<Rightarrow>
               if path = '''' then (eg1, Inr False)
               else (case pruneSupersededSnapshots (evOps env) root path eg1 of
                       (eg2, cleanup) \<Rightarrow> (eg2, Inr (crError cleanup \<noteq> None \<or> crFailedPaths cleanup \<noteq> [])))))"

text \<open>A file without a usable time counts as oldest.\<close>

definition oldestChangeAt :: "'r env \<Rightarrow> file_entry list \<Rightarrow> int option" where
  "oldestChangeAt env files =
     fold (\<lambda>f oldest.
         if \<not> isChangeName (feName f) then oldest
         else (let candidate = (case evDateParse env (feModifiedTime f) of None \<Rightarrow> 0 | Some t \<Rightarrow> t)
               in Some (case oldest of None \<Rightarrow> candidate | Some t \<Rightarrow> min t candidate))) files None"

definition retentionFailed :: "'r env \<Rightarrow> engine_config \<Rightarrow> js_error \<Rightarrow> 'r engine \<Rightarrow> 'r engine" where
  "retentionFailed env cfg e eg = scheduleRetentionCompactionCheck env cfg RETENTION_RETRY_DELAY_MS (emit (RetentionError e) eg)"

definition compactForRetention :: "nat \<Rightarrow> 'r env \<Rightarrow> engine_config \<Rightarrow> int \<Rightarrow> int \<Rightarrow> 'r engine \<Rightarrow> 'r engine option" where
  "compactForRetention n env cfg oldest ageMs eg =
     (let iso = evIso env oldest in
      case compactNow n env cfg (emit (RetentionStart iso ageMs) eg) of
        None \<Rightarrow> None
      | Some (eg1, res) \<Rightarrow>
          (let eg2 = (case res of Inr _ \<Rightarrow> emit (RetentionComplete iso ageMs) eg1 | Inl e \<Rightarrow> emit (RetentionError e) eg1)
           in Some (scheduleRetentionCompactionCheck env cfg RETENTION_RETRY_DELAY_MS (clearRetentionCompactionTimer eg2))))"

text \<open>The check after the folder was listed.\<close>

definition checkAge :: "nat \<Rightarrow> 'r env \<Rightarrow> engine_config \<Rightarrow> bool \<Rightarrow> file_entry list \<Rightarrow> 'r engine \<Rightarrow> ('r engine \<times> unit result) option" where
  "checkAge n env cfg retry files eg =
     (case activeRetentionPolicy cfg eg of
        Inl e \<Rightarrow> Some (eg, Inl e)
      | Inr policy \<Rightarrow>
          (let compactAfterMs = rpCompactAfterMs policy;
               again = (\<lambda>delay. Some (scheduleRetentionCompactionCheck env cfg delay eg, Inr ()))
           in case oldestChangeAt env files of
                None \<Rightarrow> again (if retry then RETENTION_RETRY_DELAY_MS else compactAfterMs)
              | Some oldest \<Rightarrow>
                  (let ageMs = max 0 (evNow env - oldest) in
                   if ageMs < compactAfterMs then
                     again (if retry then min (compactAfterMs - ageMs) RETENTION_RETRY_DELAY_MS else compactAfterMs - ageMs)
                   else if egCompactInFlight eg then again 60000
                   else map_option (\<lambda>eg1. (eg1, Inr ())) (compactForRetention n env cfg oldest ageMs eg))))"

definition runRetentionCompactionCheck :: "nat \<Rightarrow> 'r env \<Rightarrow> engine_config \<Rightarrow> 'r engine \<Rightarrow> ('r engine \<times> unit result) option" where
  "runRetentionCompactionCheck n env cfg eg =
     (if \<not> mayCheckRetention cfg eg then Some (eg, Inr ())
      else if ssPoison eg \<noteq> None then Some (scheduleRetentionCompactionCheck env cfg RETENTION_RETRY_DELAY_MS eg, Inr ())
      else
        (let root = the (cfRemotePath cfg) in
         case cleanSnapshots env cfg root eg of
           (eg1, Inl e) \<Rightarrow> Some (retentionFailed env cfg e eg1, Inr ())
         | (eg1, Inr retry) \<Rightarrow>
             (case opListFiles (evOps env) (changesFolder root) (ssRemote eg1) of
                Inl e \<Rightarrow> Some (retentionFailed env cfg e eg1, Inr ())
              | Inr files \<Rightarrow> checkAge n env cfg retry files eg1)))"

text \<open>The timer callback: a timer cannot wait longer than \<open>MAX_TIMER_DELAY_MS\<close>, so it may fire early and wait again.\<close>

definition retentionTimerFires :: "nat \<Rightarrow> 'r env \<Rightarrow> engine_config \<Rightarrow> 'r engine \<Rightarrow> ('r engine \<times> unit result) option" where
  "retentionTimerFires n env cfg eg =
     (let target = egRetentionDueAt eg; eg0 = eg\<lparr>egRetentionTimer := False, egRetentionDueAt := 0\<rparr> in
      if evNow env < target then Some (scheduleRetentionCompactionCheck env cfg (target - evNow env) eg0, Inr ())
      else runRetentionCompactionCheck n env cfg eg0)"

end
