(* ===== verification/Engine_Connect.thy ===== *)
theory Engine_Connect
  imports Engine_Maintenance Credentials
begin

text \<open>
  Starting and ending a remote session (\<open>packages/core/src/core/sync-engine.ts\<close>): the cached local state,
  the policies for joining a mesh and for a mesh its host evicted, the reload fast path, \<open>connect\<close>,
  \<open>disconnect\<close> and the change of the adapter or of the local store. Stages run to their end: the deadline after
  which a stage counts as stalled is not modelled. The host's eviction record only goes into an event and
  is left out. The bound of nested pulls is that of \<open>Engine_Sync\<close>. The engine is initialized (\<open>Credentials.doInit\<close>)
  before any of these run. A call of \<open>connect\<close> while another is under way returns here at once, where the code
  hands out the promise of the first; \<open>setRemoteStorage\<close> is the case of a different adapter, the same one is a no-op.
\<close>

section \<open>Local state\<close>

definition loadLocalState :: "engine_config \<Rightarrow> 'r engine \<Rightarrow> 'r engine" where
  "loadLocalState cfg eg =
     (let eg1 = eg\<lparr>ssTables := [], ssKnownTables := [], egPendingEffects := [], egPendingListeners := None,
                   egPendingBatch := (storePeekPendingBatch (ssLocal eg) \<noteq> None)\<rparr>;
          eg2 = (case storeGetMeta (ssLocal eg1) ''hlc'' of
                   JStr saved \<Rightarrow> if saved \<noteq> '''' then eg1\<lparr>ssHlc := (hlcParse saved)\<lparr>nodeId := cfDeviceId cfg\<rparr>\<rparr> else eg1
                 | _ \<Rightarrow> eg1)
      in eg2\<lparr>ssKnownTables := jsetOf (storeGetTableNames (ssLocal eg2))\<rparr>)"

section \<open>Joining and eviction\<close>

definition rememberedMeshIdentity :: "'r engine \<Rightarrow> string \<times> int option" where
  "rememberedMeshIdentity eg =
     ((case storeGetMeta (ssLocal eg) ''meshId'' of JStr m \<Rightarrow> m | _ \<Rightarrow> ''''),
      (case storeGetMeta (ssLocal eg) MESH_LINEAGE_META of JNum (Num n) \<Rightarrow> if n > 0 then Some n else None | _ \<Rightarrow> None))"

definition activeMeshId :: "'r engine \<Rightarrow> string" where
  "activeMeshId eg = (case egManifest eg of None \<Rightarrow> '''' | Some m \<Rightarrow> mfMeshId m)"

definition queuedChangeCount :: "'r engine \<Rightarrow> nat" where
  "queuedChangeCount eg = storeOutboxSize (ssLocal eg) + (if egPendingBatch eg then 1 else 0)"

definition evictionDetected :: "bool \<Rightarrow> string \<Rightarrow> int option \<Rightarrow> string \<Rightarrow> int \<Rightarrow> bool" where
  "evictionDetected bootstrapped rememberedMeshId rememberedLineage meshId lineage =
     (rememberedMeshId = meshId \<and>
      (bootstrapped \<or> (case rememberedLineage of None \<Rightarrow> False | Some l \<Rightarrow> l \<noteq> lineage)))"

definition applyMeshEvictionPolicy :: "engine_config \<Rightarrow> bool \<Rightarrow> string \<times> int option \<Rightarrow> 'r engine \<Rightarrow> 'r engine \<times> bool" where
  "applyMeshEvictionPolicy cfg bootstrapped remembered eg =
     (let meshId = activeMeshId eg in
      if meshId = '''' then (eg, False)
      else
        (let lineage = resolveManifestLineage (case egManifest eg of None \<Rightarrow> JUndefined | Some m \<Rightarrow> mfLineage m);
             eg1 = eg\<lparr>ssLocal := storeSetMeta MESH_LINEAGE_META (JNum (Num lineage)) (ssLocal eg)\<rparr>
         in if \<not> evictionDetected bootstrapped (fst remembered) (snd remembered) meshId lineage then (eg1, False)
            else
              (let eg2 = emit (MeshEvicted meshId bootstrapped
                     (case snd remembered of None \<Rightarrow> max 1 (lineage - 1) | Some l \<Rightarrow> l) lineage
                     (length (storeGetAllRows (ssLocal eg1))) (queuedChangeCount eg1)) eg1
               in if cfReaderMode cfg then (eg2, False)
                  else if cfManualRefill cfg then (eg2\<lparr>egAwaitingRefill := True\<rparr>, False)
                  else (eg2, True))))"

definition resetToRemote :: "engine_config \<Rightarrow> string \<Rightarrow> 'r engine \<Rightarrow> 'r engine" where
  "resetToRemote cfg nextMeshId eg =
     (let eg1 = (clearBatchTimer eg)\<lparr>egPendingBatch := False, egPendingEffects := [], egPendingListeners := None\<rparr>;
          local1 = clearAllObservation (ssLocal eg1);
          local2 = (case Option.bind (cfSchema cfg) dsVersion of
                      None \<Rightarrow> local1 | Some v \<Rightarrow> storeSetMeta ''schema:version'' (JNum (Num v)) local1);
          local3 = storeSetMeta ''meshId'' (JStr nextMeshId) local2
      in (loadLocalState cfg (eg1\<lparr>ssLocal := local3\<rparr>))\<lparr>egPendingCount := 0\<rparr>)"

definition applyJoinExistingMeshPolicy :: "engine_config \<Rightarrow> bool \<Rightarrow> 'r engine \<Rightarrow> 'r engine" where
  "applyJoinExistingMeshPolicy cfg bootstrapped eg =
     (let nextMeshId = activeMeshId eg;
          bind = (\<lambda>eg. eg\<lparr>ssLocal := storeSetMeta ''meshId'' (JStr nextMeshId) (ssLocal eg)\<rparr>)
      in if nextMeshId = '''' then eg
         else if bootstrapped then bind eg
         else
           (let previousMeshId = fst (rememberedMeshIdentity eg) in
            if previousMeshId = nextMeshId then eg
            else
              (let rows = length (storeGetAllRows (ssLocal eg)); queued = queuedChangeCount eg in
               if rows = 0 \<and> queued = 0 \<and> previousMeshId = '''' then bind eg
               else
                 (let eg1 = emit (JoinExistingMesh previousMeshId nextMeshId (cfMergeOnJoin cfg) rows queued) eg
                  in if cfMergeOnJoin cfg then bind eg1 else resetToRemote cfg nextMeshId eg1))))"

definition refillEvictedMesh :: "'r env \<Rightarrow> engine_config \<Rightarrow> nat \<Rightarrow> 'r engine \<Rightarrow> 'r engine \<times> unit result" where
  "refillEvictedMesh env cfg roll eg =
     (if cfReaderMode cfg then (eg, Inl (Error ''InterocitorReader cannot refill an evicted mesh''))
      else flushQueued env cfg roll True
             (rebuildOutboxFromLocalState cfg (evRefresh env) (evNow env) (eg\<lparr>egAwaitingRefill := False\<rparr>)))"

section \<open>Credentials and the fast path\<close>

definition credentialMeshParity :: "'r env \<Rightarrow> 'r engine \<Rightarrow> 'r engine \<times> unit result" where
  "credentialMeshParity env eg =
     (let active = activeMeshId eg in
      if active = '''' then (eg, Inr ())
      else
        (case evCredentialMesh env of
           Inl e \<Rightarrow> (eg, Inl e)
         | Inr None \<Rightarrow> (eg, Inr ())
         | Inr (Some recorded) \<Rightarrow>
             if recorded = '''' \<or> recorded = active then (eg, Inr ())
             else (emit (CredentialsMeshMismatch recorded active) eg,
                   Inl (MeshCredentialMismatchError (evDbName env) recorded active))))"

text \<open>Encryption mode and mesh id of the cached manifest.\<close>

definition cachedManifest :: "'r engine \<Rightarrow> (bool option \<times> string option) option" where
  "cachedManifest eg =
     (case egManifest eg of
        Some m \<Rightarrow> Some (mfEncrypted m, Some (mfMeshId m))
      | None \<Rightarrow>
          (case storeGetMeta (ssLocal eg) ''manifestCache'' of
             JObj fs \<Rightarrow> Some ((case map_of fs ''encrypted'' of Some (JBool b) \<Rightarrow> Some b | _ \<Rightarrow> None),
                              (case map_of fs ''meshId'' of Some (JStr s) \<Rightarrow> Some s | _ \<Rightarrow> None))
           | _ \<Rightarrow> None))"

text \<open>The end of a successful connect; a writer also schedules a retention check.\<close>

definition sessionStarted :: "'r env \<Rightarrow> engine_config \<Rightarrow> 'r engine \<Rightarrow> 'r engine" where
  "sessionStarted env cfg eg =
     (let eg1 = startRemoteInvalidations cfg (startPolling (cfPollInterval cfg) eg);
          eg2 = markSuccessfulRemoteSync env (clearRemoteAccessPause (eg1\<lparr>ssConnected := True\<rparr>));
          eg3 = (if cfReaderMode cfg then eg2 else scheduleRetentionCompactionCheck env cfg 0 eg2)
      in setConnectionStatus Idle eg3)"

text \<open>What the fast path needs to know before it looks at the remote change folder.\<close>

definition fastPathReady :: "'r env \<Rightarrow> engine_config \<Rightarrow> 'r engine \<Rightarrow> bool result" where
  "fastPathReady env cfg eg =
     (let l = loadLedger (ssLocal eg) in
      if ldHighWater l = '''' \<or> \<not> ldExact l then Inr False
      else bind_result (offlineRetentionState env cfg eg) (\<lambda>rs.
        Inr (\<not> rsExpired rs \<and> storeOutboxSize (ssLocal eg) = 0 \<and> storePeekPendingBatch (ssLocal eg) = None)))"

definition headCovered :: "'r env \<Rightarrow> string \<Rightarrow> 'r engine \<Rightarrow> bool" where
  "headCovered env root eg =
     (case readHead (evOps env) root (ssRemote eg) of
        None \<Rightarrow> False
      | Some h \<Rightarrow> h \<noteq> '''' \<and> jle (hlcCompareStr h (ldHighWater (loadLedger (ssLocal eg)))) (Num 0))"

definition nothingUnseen :: "'r env \<Rightarrow> string \<Rightarrow> 'r engine \<Rightarrow> bool" where
  "nothingUnseen env root eg =
     (case opListFiles (evOps env) (changesFolder root) (ssRemote eg) of
        Inl _ \<Rightarrow> False
      | Inr files \<Rightarrow> \<not> hasUnseenChange (loadLedger (ssLocal eg)) (map feName files))"

definition fastPathEvents :: "'r env \<Rightarrow> string \<Rightarrow> 'r engine \<Rightarrow> 'r engine" where
  "fastPathEvents env root eg =
     (let h = readHead (evOps env) root (ssRemote eg) in
      emitAll [HeadTrace (HeadRead h), HeadTrace (HeadSkip h (Some (ldHighWater (loadLedger (ssLocal eg))))),
               ConnectState None None (Some (activeMeshId eg)) (egEncrypted eg), SyncComplete 0] eg)"

definition tryConnectFastPath :: "'r env \<Rightarrow> engine_config \<Rightarrow> 'r engine \<Rightarrow> 'r engine \<times> bool result" where
  "tryConnectFastPath env cfg eg =
     (case cachedManifest eg of
        None \<Rightarrow> (eg, Inr False)
      | Some (cachedEncrypted, cachedMeshId) \<Rightarrow>
          if cachedEncrypted \<noteq> Some (egEncrypted eg) then (eg, Inr False)
          else
            (case doLoadOrCreateManifest env cfg ''connect-fast-path-identity'' True
                    \<lparr>loAssertLocalMeshId = False, loCreateIfMissing = False\<rparr> False eg of
               (eg1, Inl _) \<Rightarrow> (eg1, Inr False)
             | (eg1, Inr _) \<Rightarrow>
                 if Some (activeMeshId eg1) \<noteq> cachedMeshId then (eg1, Inr False)
                 else
                   (case credentialMeshParity env eg1 of
                      (eg2, Inl e) \<Rightarrow> (eg2, Inl e)
                    | (eg2, Inr _) \<Rightarrow>
                        (case fastPathReady env cfg eg2 of
                           Inl e \<Rightarrow> (eg2, Inl e)
                         | Inr False \<Rightarrow> (eg2, Inr False)
                         | Inr True \<Rightarrow>
                             (case requireRemotePath cfg ''connect() fast-path'' of
                                Inl e \<Rightarrow> (eg2, Inl e)
                              | Inr root \<Rightarrow>
                                  if headCovered env root eg2 \<and> nothingUnseen env root eg2
                                  then (sessionStarted env cfg (fastPathEvents env root eg2), Inr True)
                                  else ((case readJsonIfExists (evOps env) (changesHead root) (ssRemote eg2) of
                                           None \<Rightarrow> eg2 | Some d \<Rightarrow> emit (HeadTrace (HeadRead (asHead d))) eg2), Inr False))))))"

section \<open>Connect\<close>

definition stageFailed :: "string \<Rightarrow> js_error \<Rightarrow> 'r engine \<Rightarrow> 'r engine \<times> 'a result" where
  "stageFailed s e eg = (emit (ConnectErrorEvent e s) (fst (handleRemoteAccessError e ''connect'' eg)), Inl e)"

text \<open>A stage: its failure is reported under its name, otherwise the next step runs.\<close>

definition stage ::
  "string \<Rightarrow> ('r engine \<Rightarrow> ('r engine \<times> 'a result) option) \<Rightarrow> ('a \<Rightarrow> 'r engine \<Rightarrow> ('r engine \<times> 'b result) option) \<Rightarrow>
     'r engine \<Rightarrow> ('r engine \<times> 'b result) option"
where
  "stage s op continue eg =
     (case op eg of
        None \<Rightarrow> None
      | Some (eg1, Inl e) \<Rightarrow> Some (stageFailed s e eg1)
      | Some (eg1, Inr x) \<Rightarrow> continue x eg1)"

definition onRemote :: "('r \<Rightarrow> 'r \<times> 'a result) \<Rightarrow> 'r engine \<Rightarrow> ('r engine \<times> 'a result) option" where
  "onRemote f eg = (case f (ssRemote eg) of (r1, res) \<Rightarrow> Some (eg\<lparr>ssRemote := r1\<rparr>, res))"

definition authenticated :: "'r env \<Rightarrow> ('r engine \<Rightarrow> ('r engine \<times> unit result) option) \<Rightarrow> 'r engine \<Rightarrow> ('r engine \<times> unit result) option" where
  "authenticated env continue eg =
     (if evIsAuthenticated env (ssRemote eg) then continue eg
      else stage ''authenticate'' (onRemote (evAuthenticate env)) (\<lambda>_ eg1. continue (emit AuthComplete eg1)) (emit AuthRequired eg))"

definition connectReader :: "nat \<Rightarrow> 'r env \<Rightarrow> engine_config \<Rightarrow> 'r engine \<Rightarrow> ('r engine \<times> unit result) option" where
  "connectReader n env cfg =
     stage ''loadExistingManifest''
       (\<lambda>eg. Some (doLoadOrCreateManifest env cfg ''reader-connect'' True \<lparr>loAssertLocalMeshId = False, loCreateIfMissing = False\<rparr> True eg))
       (\<lambda>_ eg.
          let memory = rememberedMeshIdentity eg;
              eg1 = fst (applyMeshEvictionPolicy cfg False memory (applyJoinExistingMeshPolicy cfg False eg))
          in if storeOutboxSize (ssLocal eg1) > 0 \<or> storePeekPendingBatch (ssLocal eg1) \<noteq> None
             then Some (stageFailed ''readerLocalState''
                    (Error ''InterocitorReader localStore contains queued writes; use a dedicated reader cache'') eg1)
             else stage ''pull'' (pullNow n env cfg) (\<lambda>_ eg2. Some (sessionStarted env cfg eg2, Inr ()))
                    (eg1\<lparr>egReaderManifestFresh := True\<rparr>))"

fun ensureFolders ::
  "'r env \<Rightarrow> string list \<Rightarrow> ('r engine \<Rightarrow> ('r engine \<times> unit result) option) \<Rightarrow> 'r engine \<Rightarrow> ('r engine \<times> unit result) option"
where
  "ensureFolders env [] continue eg = continue eg"
| "ensureFolders env (f # fs) continue eg =
     stage ''ensureFolder'' (onRemote (opEnsureFolder (evOps env) f)) (\<lambda>_. ensureFolders env fs continue) eg"

text \<open>The epoch decides how local and remote state are brought together; the answer says whether queued writes
  have been dealt with.\<close>

definition synchronize :: "nat \<Rightarrow> 'r env \<Rightarrow> engine_config \<Rightarrow> bool \<Rightarrow> (bool \<Rightarrow> 'r engine \<Rightarrow> ('r engine \<times> unit result) option) \<Rightarrow>
    'r engine \<Rightarrow> ('r engine \<times> unit result) option" where
  "synchronize n env cfg expired continue eg =
     (let remoteEpoch = (case egManifest eg of None \<Rightarrow> 0 | Some m \<Rightarrow> mfEpoch m);
          eg1 = emit (ConnectState (case localEpoch eg of Num e \<Rightarrow> Some e | NaN \<Rightarrow> None) (Some remoteEpoch)
                  (Some (activeMeshId eg)) (egEncrypted eg)) eg
      in if expired then stage ''expired-client-rehydrate'' (resetExpiredClientFromRemote n env cfg) (\<lambda>_. continue True) eg1
         else if jgt (Num remoteEpoch) (localEpoch eg1)
         then stage ''flush-and-rehydrate'' (flushAndRehydrateNow n env cfg) (\<lambda>_. continue True) eg1
         else stage ''pull'' (pullNow n env cfg) (\<lambda>_. continue False) eg1)"

text \<open>Republication and the final flush.\<close>

definition publishQueued :: "'r env \<Rightarrow> engine_config \<Rightarrow> nat \<Rightarrow> bool \<Rightarrow> bool \<Rightarrow> 'r engine \<Rightarrow> ('r engine \<times> unit result) option" where
  "publishQueued env cfg roll republish flushed eg =
     (let eg1 = (if republish then rebuildOutboxFromLocalState cfg (evRefresh env) (evNow env) eg else eg)
      in if \<not> flushed \<or> republish
         then stage ''flush'' (\<lambda>eg2. Some (flushQueued env cfg roll True eg2)) (\<lambda>_ eg2. Some (sessionStarted env cfg eg2, Inr ())) eg1
         else Some (sessionStarted env cfg eg1, Inr ()))"

text \<open>The writer's session from the loaded manifest on.\<close>

definition connectJoined ::
  "nat \<Rightarrow> 'r env \<Rightarrow> engine_config \<Rightarrow> nat \<Rightarrow> string \<Rightarrow> bool \<Rightarrow> bool \<Rightarrow> 'r engine \<Rightarrow> ('r engine \<times> unit result) option"
where
  "connectJoined n env cfg roll root bootstrapped refill eg =
     (case evPersistCredentials env (Some (activeMeshId eg)) of
        Inl e \<Rightarrow> Some (eg, Inl e)
      | Inr _ \<Rightarrow>
          (case quarantineExpiredOfflineWrites env cfg eg of
             (eg1, Inl e) \<Rightarrow> Some (eg1, Inl e)
           | (eg1, Inr quarantine) \<Rightarrow>
               (let expired = (quarantine \<noteq> None) in
                stage ''upsertDeviceMetadata''
                  (onRemote (upsertDeviceMetadata (evIso env (evNow env)) (evOps env) root (cfDeviceId cfg)
                     \<lparr>uoDisplayName = cfDeviceName cfg, uoDeviceType = cfDeviceType cfg, uoObservedManifestGeneration = None,
                      uoObservedEpoch = None, uoObservedWatermarkHlc = None, uoBootstrap = bootstrapped,
                      uoSkipTouchIfUnchanged = \<not> bootstrapped\<rparr>))
                  (\<lambda>_. synchronize n env cfg expired (\<lambda>flushed eg2.
                     publishQueued env cfg roll
                       (\<not> egAwaitingRefill eg2 \<and> (bootstrapped \<or> (refill \<and> \<not> expired))) flushed eg2)) eg1)))"

definition connectWriter :: "nat \<Rightarrow> 'r env \<Rightarrow> engine_config \<Rightarrow> nat \<Rightarrow> 'r engine \<Rightarrow> ('r engine \<times> unit result) option" where
  "connectWriter n env cfg roll eg =
     (case requireRemotePath cfg ''connect()'' of
        Inl e \<Rightarrow> Some (eg, Inl e)
      | Inr root \<Rightarrow>
          ensureFolders env [root, root @ ''/devices'', mainlineFolder root, changesFolder root] (\<lambda>eg1.
            let memory = rememberedMeshIdentity eg1 in
            stage ''loadOrCreateManifest''
              (\<lambda>eg2. Some (doLoadOrCreateManifest env cfg ''connect'' True \<lparr>loAssertLocalMeshId = False, loCreateIfMissing = True\<rparr> True eg2))
              (\<lambda>bootstrapped eg2.
                 stage ''credentialMeshParity'' (\<lambda>eg3. Some (credentialMeshParity env eg3)) (\<lambda>_ eg3.
                   case applyMeshEvictionPolicy cfg bootstrapped memory (applyJoinExistingMeshPolicy cfg bootstrapped eg3) of
                     (eg4, refill) \<Rightarrow> connectJoined n env cfg roll root bootstrapped refill eg4) eg2) eg1) eg)"

definition doConnect :: "nat \<Rightarrow> 'r env \<Rightarrow> engine_config \<Rightarrow> nat \<Rightarrow> 'r engine \<Rightarrow> ('r engine \<times> unit result) option" where
  "doConnect n env cfg roll eg =
     (case requireAdapter ''connect()'' eg of
        Inl e \<Rightarrow> Some (eg, Inl e)
      | Inr _ \<Rightarrow>
          authenticated env (\<lambda>eg1.
            if cfReaderMode cfg then connectReader n env cfg eg1
            else
              (case tryConnectFastPath env cfg eg1 of
                 (eg2, Inl e) \<Rightarrow> Some (eg2, Inl e)
               | (eg2, Inr True) \<Rightarrow> Some (eg2, Inr ())
               | (eg2, Inr False) \<Rightarrow> connectWriter n env cfg roll eg2)) eg)"

definition connect :: "nat \<Rightarrow> 'r env \<Rightarrow> engine_config \<Rightarrow> nat \<Rightarrow> 'r engine \<Rightarrow> ('r engine \<times> unit result) option" where
  "connect n env cfg roll eg =
     (let eg0 = eg\<lparr>ssPollingHalted := False\<rparr> in
      case (if egEncrypted eg0 \<and> egEncryptionKey eg0 = None then evResolveEncryption env else Inr (egEncrypted eg0, egEncryptionKey eg0)) of
        Inl e \<Rightarrow> Some (eg0, Inl e)
      | Inr (encrypted, key) \<Rightarrow>
          (let eg1 = eg0\<lparr>egEncrypted := encrypted, egEncryptionKey := key\<rparr> in
           if \<not> hasRemotePath cfg
           then Some (eg1, Inl (Error ''connect() requires remotePath; configure mesh before connecting''))
           else
             (let eg2 = setConnectionStatus Connecting eg1 in
              if (ssConnected eg2 \<and> ssPoison eg2 = None) \<or> ssConnecting eg2 then Some (emit ConnectNoop eg2, Inr ())
              else map_option (\<lambda>(eg3, res). (eg3\<lparr>ssConnecting := False\<rparr>, res))
                     (doConnect n env cfg roll (eg2\<lparr>ssConnecting := True\<rparr>)))))"

section \<open>Disconnect and changes of the transport\<close>

definition disconnect :: "'r env \<Rightarrow> engine_config \<Rightarrow> nat \<Rightarrow> 'r engine \<Rightarrow> 'r engine" where
  "disconnect env cfg roll eg =
     (let eg1 = clearBatchTimer (clearCompactTimers (clearScheduledFlush (stopRemoteInvalidations (haltPolling eg))));
          eg2 = (if \<not> cfReaderMode cfg \<and> ssPoison eg1 = None then fst (flushQueued env cfg roll True eg1) else eg1);
          eg3 = (emit (TransportTeardown ''disconnect'') eg2)
                  \<lparr>ssLocal := closeStore (ssLocal eg2), ssConnected := False, egInitialized := False, egStatus := Offline\<rparr>
      in (emit (ConnectionStatusEvent Offline) eg3)\<lparr>ssConnecting := False, ssPoison := None, egAccessError := None\<rparr>)"

text \<open>The state of the engine and of the old remote after the adapter was taken away; \<open>attach\<close> is the new one.\<close>

definition detachAdapter :: "nat \<Rightarrow> 'r env \<Rightarrow> engine_config \<Rightarrow> bool \<Rightarrow> 'r engine \<Rightarrow> 'r engine option" where
  "detachAdapter n env cfg attaching eg =
     map_option (\<lambda>eg1.
       let eg2 = (clearScheduledFlush (stopRemoteInvalidations (haltPolling eg1)))\<lparr>ssConnected := False\<rparr>;
           eg3 = (if egHasAdapter eg
                  then emit (TransportTeardown (if attaching then ''switch-adapter'' else ''detach''))
                         (eg2\<lparr>ssRemote := opResetFolderCache (evOps env) (ssRemote eg2)\<rparr>) else eg2)
       in (if egInitialized eg3 then eg3\<lparr>egPendingCount := storeOutboxSize (ssLocal eg3)\<rparr> else eg3)
            \<lparr>egManifest := None, ssPoison := None, egAccessError := None\<rparr>)
       (if ssConnected eg \<and> egHasAdapter eg \<and> ssPoison eg = None then map_option fst (pullNow n env cfg eg) else Some eg)"

definition setRemoteStorage ::
  "nat \<Rightarrow> 'r env \<Rightarrow> 'r env \<Rightarrow> engine_config \<Rightarrow> nat \<Rightarrow> 'r option \<Rightarrow> 'r engine \<Rightarrow> ('r engine \<times> unit result) option"
where
  "setRemoteStorage n env newEnv cfg roll adapter eg =
     (case detachAdapter n env cfg (adapter \<noteq> None) eg of
        None \<Rightarrow> None
      | Some eg1 \<Rightarrow>
          (case adapter of
             None \<Rightarrow> Some (eg1\<lparr>egHasAdapter := False\<rparr>, Inr ())
           | Some r \<Rightarrow>
               (let eg2 = eg1\<lparr>egHasAdapter := True, ssRemote := r\<rparr>
                in if ssConnected eg then connect n newEnv cfg roll eg2 else Some (eg2, Inr ()))))"

definition setLocalStore :: "nat \<Rightarrow> 'r env \<Rightarrow> engine_config \<Rightarrow> nat \<Rightarrow> memory_store \<Rightarrow> 'r engine \<Rightarrow> ('r engine \<times> unit result) option" where
  "setLocalStore n env cfg roll local1 eg =
     (case (if ssConnected eg \<and> \<not> cfReaderMode cfg then flushQueued env cfg roll True eg else (eg, Inr ())) of
        (eg1, Inl e) \<Rightarrow> Some (eg1, Inl e)
      | (eg1, Inr _) \<Rightarrow>
          (let eg2 = (clearScheduledFlush eg1)\<lparr>egPendingCount := 0, ssLocal := local1\<rparr>;
               eg3 = (loadLocalState cfg eg2)\<lparr>egInitialized := True\<rparr>
           in if \<not> ssConnected eg then Some (eg3, Inr ())
              else
                (case pullNow n env cfg eg3 of
                   None \<Rightarrow> None
                 | Some (eg4, Inl e) \<Rightarrow> Some (eg4, Inl e)
                 | Some (eg4, Inr _) \<Rightarrow>
                     Some (if cfReaderMode cfg then (eg4, Inr ()) else flushQueued env cfg roll True eg4))))"

end
