(* ===== verification/Engine_Safety.thy ===== *)
theory Engine_Safety
  imports Engine_Sync
begin

text \<open>
  No queued write is lost: a flush leaves every queued entry published, quarantined or still
  queued, whatever the adapter does, and so does a rehydrate unless an access decision paused the remote.
\<close>

section \<open>Steps that leave the queue, the quarantine and the change files alone\<close>

definition storeCalm :: "memory_store \<Rightarrow> memory_store \<Rightarrow> bool" where
  "storeCalm s s' \<longleftrightarrow> storePeekOutbox s' = storePeekOutbox s \<and> storePeekPendingBatch s' = storePeekPendingBatch s
     \<and> storeGetMeta s' QUARANTINED_OFFLINE_CHANGES_META = storeGetMeta s QUARANTINED_OFFLINE_CHANGES_META"

lemma storeCalm_refl [simp, intro]: "storeCalm s s"
  by (simp add: storeCalm_def)

lemma storeCalm_trans: "storeCalm s s1 \<Longrightarrow> storeCalm s1 s2 \<Longrightarrow> storeCalm s s2"
  by (simp add: storeCalm_def)

lemmas quarantine_meta = QUARANTINED_OFFLINE_CHANGES_META_def OFFLINE_RETENTION_EXPIRED_AT_META_def LAST_SUCCESSFUL_SYNC_AT_META_def
  OBSERVATION_META_KEY_def MESH_LINEAGE_META_def

lemma meta_keys [simp]:
  "OBSERVATION_META_KEY \<noteq> QUARANTINED_OFFLINE_CHANGES_META" "''epoch'' \<noteq> QUARANTINED_OFFLINE_CHANGES_META"
  "''meshId'' \<noteq> QUARANTINED_OFFLINE_CHANGES_META" "''hlc'' \<noteq> QUARANTINED_OFFLINE_CHANGES_META"
  "OFFLINE_RETENTION_EXPIRED_AT_META \<noteq> QUARANTINED_OFFLINE_CHANGES_META" "LAST_SUCCESSFUL_SYNC_AT_META \<noteq> QUARANTINED_OFFLINE_CHANGES_META"
  by (simp_all add: quarantine_meta)

lemma peek_setMeta [simp]: "storePeekOutbox (storeSetMeta k v s) = storePeekOutbox s"
  "storePeekPendingBatch (storeSetMeta k v s) = storePeekPendingBatch s"
  by (simp_all add: storeSetMeta_def storePeekOutbox_def storePeekPendingBatch_def)

lemma storeCalm_setMeta: "k \<noteq> QUARANTINED_OFFLINE_CHANGES_META \<Longrightarrow> storeCalm s s1 \<Longrightarrow> storeCalm s (storeSetMeta k v s1)"
  by (simp add: storeCalm_def)

lemma storeCalm_known:
  "storeCalm s s1 \<Longrightarrow> storeCalm s (storeSetMeta ''meshId'' v s1)" "storeCalm s s1 \<Longrightarrow> storeCalm s (storeSetMeta ''hlc'' v s1)"
  "storeCalm s s1 \<Longrightarrow> storeCalm s (storeSetMeta ''epoch'' v s1)" "storeCalm s s1 \<Longrightarrow> storeCalm s (storeSetMeta ''manifestCache'' v s1)"
  "storeCalm s s1 \<Longrightarrow> storeCalm s (storeSetMeta OBSERVATION_META_KEY v s1)" "storeCalm s s1 \<Longrightarrow> storeCalm s (storeSetMeta MESH_LINEAGE_META v s1)"
  "storeCalm s s1 \<Longrightarrow> storeCalm s (storeSetMeta LAST_SUCCESSFUL_SYNC_AT_META v s1)"
  "storeCalm s s1 \<Longrightarrow> storeCalm s (storeSetMeta OFFLINE_RETENTION_EXPIRED_AT_META v s1)"
  by (rule storeCalm_setMeta; simp add: quarantine_meta)+

lemma storeCalm_putRows: "storeCalm s (storePutRows xs s)"
proof -
  have "msOutbox (storePutRows xs s) = msOutbox s \<and> msPendingBatch (storePutRows xs s) = msPendingBatch s \<and> msMeta (storePutRows xs s) = msMeta s"
    by (induction xs arbitrary: s) (simp_all add: storePutRow_def Let_def)
  then show ?thesis by (simp add: storeCalm_def storePeekOutbox_def storePeekPendingBatch_def storeGetMeta_def)
qed

lemma storeCalm_assert: "assertExpectedMeshId m i s = (s', res) \<Longrightarrow> storeCalm s s'"
  by (auto simp: assertExpectedMeshId_def storeCalm_known split: if_splits)

lemma storeCalm_decode: "decodeChangePayload codec d s = (s', res) \<Longrightarrow> storeCalm s s'"
  using storeCalm_assert by (fastforce simp: decodeChangePayload_def Let_def split: sum.splits if_splits option.splits prod.splits)

lemma storeCalm_persist: "storeCalm s (fst (persistLedger l s))"
  by (simp add: persistLedger_def Let_def storeCalm_known)

definition calm :: "('r \<Rightarrow> string \<Rightarrow> cloud_data option) \<Rightarrow> string \<Rightarrow> 'r engine \<Rightarrow> 'r engine \<Rightarrow> bool" where
  "calm contents root eg eg' \<longleftrightarrow> storeCalm (ssLocal eg) (ssLocal eg')
     \<and> (\<forall>n. contents (ssRemote eg') (changeFile root n) = contents (ssRemote eg) (changeFile root n))"

lemma calm_refl [simp, intro]: "calm contents root eg eg"
  by (simp add: calm_def)

lemma calm_trans: "calm contents root a b \<Longrightarrow> calm contents root b c \<Longrightarrow> calm contents root a c"
  by (auto simp: calm_def intro: storeCalm_trans)

lemma calm_same: "ssLocal eg' = ssLocal eg \<Longrightarrow> ssRemote eg' = ssRemote eg \<Longrightarrow> calm contents root eg eg'"
  by (simp add: calm_def)

lemma calm_local: "storeCalm (ssLocal eg) (ssLocal eg') \<Longrightarrow> ssRemote eg' = ssRemote eg \<Longrightarrow> calm contents root eg eg'"
  by (simp add: calm_def)

lemma status_simps [simp]:
  "ssLocal (setConnectionStatus s eg) = ssLocal eg" "ssRemote (setConnectionStatus s eg) = ssRemote eg"
  "ssLocal (idleIfConnected eg) = ssLocal eg" "ssRemote (idleIfConnected eg) = ssRemote eg"
  "ssLocal (clearScheduledFlush eg) = ssLocal eg" "ssRemote (clearScheduledFlush eg) = ssRemote eg"
  "ssLocal (resetCompactWarning eg) = ssLocal eg" "ssRemote (resetCompactWarning eg) = ssRemote eg"
  "ssLocal (maybeEmitCompactWarning cfg eg) = ssLocal eg" "ssRemote (maybeEmitCompactWarning cfg eg) = ssRemote eg"
  "ssLocal (scheduleRetentionCompactionCheck env cfg d eg) = ssLocal eg" "ssRemote (scheduleRetentionCompactionCheck env cfg d eg) = ssRemote eg"
  "ssLocal (emitAll evs eg) = ssLocal eg" "ssRemote (emitAll evs eg) = ssRemote eg"
proof -
  show "ssLocal (emitAll evs eg) = ssLocal eg" "ssRemote (emitAll evs eg) = ssRemote eg"
    unfolding emitAll_def by (induction evs arbitrary: eg) simp_all
qed (simp_all add: setConnectionStatus_def idleIfConnected_def clearScheduledFlush_def resetCompactWarning_def
    maybeEmitCompactWarning_def scheduleRetentionCompactionCheck_def Let_def)

lemma access_simps [simp]:
  "ssLocal (fst (handleRemoteAccessError e stage eg)) = ssLocal eg" "ssRemote (fst (handleRemoteAccessError e stage eg)) = ssRemote eg"
  by (simp_all add: handleRemoteAccessError_def pauseRemote_def haltPolling_def stopPolling_def stopRemoteInvalidations_def
      clearCompactTimers_def clearRetentionCompactionTimer_def Let_def)

lemma paths_change:
  "manifestFile root g \<noteq> changeFile root n" "manifestPointer root \<noteq> changeFile root n" "deviceFile root d \<noteq> changeFile root n"
  by (auto simp: path_defs manifestFileName_def)

context cloud_adapter
begin

lemma poison_calm: "calm contents root eg (fst (poisonRemote ops e p eg))"
  by (simp add: calm_def poisonRemote_def Let_def haltPolling_def stopPolling_def clearScheduledFlush_def reset_any)

lemma writeJson_other: "writeJson ops q d r = (r', res) \<Longrightarrow> q \<noteq> p \<Longrightarrow> contents r' p = contents r p"
  using write_file [of q "JsonText d" r r' res] by (simp add: writeJson_def)

lemma bootstrap_changes:
  assumes "createBootstrapManifest sha fresh now ops ctx i lin r = (r', res)" "cxRemotePath ctx = root"
  shows "contents r' (changeFile root n) = contents r (changeFile root n)"
  using assms writeJson_other [OF _ paths_change(1)] writeJson_other [OF _ paths_change(2)]
  by (auto simp: createBootstrapManifest_def Let_def split: prod.splits sum.splits)

lemma loadManifestFrom_calm:
  assumes "loadManifestFrom sha fresh now ops ctx codec opts s r = ((s', r'), res)" "cxRemotePath ctx = root"
  shows "storeCalm s s' \<and> contents r' (changeFile root n) = contents r (changeFile root n)"
proof -
  have fetch: "contents r1 (changeFile root n) = contents r (changeFile root n)" if "fetchManifest sha fresh now ops ctx opts s r = (r1, x)" for r1 x
    using that bootstrap_changes [OF _ assms(2)] by (auto simp: fetchManifest_def split: sum.splits option.splits prod.splits)
  show ?thesis
    using assms(1) fetch storeCalm_assert
    by (fastforce simp: loadManifestFrom_def split: prod.splits sum.splits if_splits)
qed

end

context cloud_adapter
begin

lemma doLoad_calm:
  assumes "doLoadOrCreateManifest env cfg reason force opts persist eg = (eg', res)" "evOps env = ops" "requireRemotePath cfg ''manifest'' = Inr root"
  shows "calm contents root eg eg'"
proof (cases "if force \<or> ssPoison eg \<noteq> None then None else egManifest eg")
  case (Some m)
  with assms(1) show ?thesis by (auto simp: doLoadOrCreateManifest_def intro: calm_same)
next
  case None
  show ?thesis
  proof (cases "manifestContext cfg eg")
    case (Inl e)
    with None assms(1) show ?thesis by (auto simp: doLoadOrCreateManifest_def)
  next
    case (Inr ctx)
    then have ctx: "cxRemotePath ctx = root" using assms(3) by (auto simp: manifestContext_def bind_result_Inr_iff)
    obtain s1 r1 x where load: "loadManifestFrom (evSha env) (evFresh env) (evIso env (evNow env)) ops ctx (codecStateOf eg) opts
        (ssLocal eg) (ssRemote eg) = ((s1, r1), x)" by (metis prod.exhaust)
    note keep = loadManifestFrom_calm [OF load ctx]
    have base: "calm contents root eg (eg\<lparr>ssLocal := s1, ssRemote := r1\<rparr>)" using keep by (simp add: calm_def)
    consider e where "x = Inl (None, e)" | p e where "x = Inl (Some p, e)" | m b where "x = Inr (m, b)"
      by (metis old.sum.exhaust option.exhaust prod.exhaust)
    then show ?thesis
    proof cases
      case 1
      with None Inr load assms(1,2) base show ?thesis by (simp add: doLoadOrCreateManifest_def)
    next
      case 2
      then have "eg' = fst (poisonRemote ops e p (eg\<lparr>ssLocal := s1, ssRemote := r1\<rparr>))"
        using None Inr load assms(1,2) by (auto simp: doLoadOrCreateManifest_def split: prod.splits)
      with calm_trans [OF base poison_calm] show ?thesis by simp
    next
      case 3
      with None Inr load assms(1,2) keep show ?thesis by (auto simp: doLoadOrCreateManifest_def calm_def storeCalm_known)
    qed
  qed
qed

lemma acknowledge_calm:
  assumes "acknowledgeManifest env cfg eg = (eg', res)" "evOps env = ops" "cfRemotePath cfg = Some root"
  shows "calm contents root eg eg'"
proof -
  have up: "contents r' (changeFile root n) = contents (ssRemote eg) (changeFile root n)"
    if "upsertDeviceMetadata now ops root d opts (ssRemote eg) = (r', x)" for now d opts r' x n
    using upsert_other [OF that, of "changeFile root n"] paths_change(3) by metis
  show ?thesis
    using assms(1) up unfolding acknowledgeManifest_def assms(2,3)
    by (auto simp: calm_def split: if_splits option.splits prod.splits bool.splits)
qed

lemma applyFile_calm: "applyFile ops ctx wall f l eg = (eg', res) \<Longrightarrow> calm contents root eg eg'"
proof -
  assume run: "applyFile ops ctx wall f l eg = (eg', res)"
  have put: "storeCalm s0 (storePutRows xs s)" if "storeCalm s0 s" for s0 s xs by (rule storeCalm_trans [OF that storeCalm_putRows])
  have "ssRemote eg' = ssRemote eg" using run
    by (auto simp: applyFile_def Let_def split: sum.splits prod.splits option.splits if_splits)
  moreover have "storeCalm (ssLocal eg) (ssLocal eg')" using run put storeCalm_decode
    by (auto simp: applyFile_def Let_def split: sum.splits prod.splits option.splits if_splits)
  ultimately show ?thesis by (rule calm_local [rotated])
qed

lemma pullLoop_calm: "pullLoop ops ctx wall fs n l eg = (eg', res) \<Longrightarrow> calm contents root eg eg'"
proof (induction fs arbitrary: n l eg)
  case (Cons f fs)
  obtain eg1 x where step: "applyFile ops ctx wall f l eg = (eg1, x)" by force
  note keep = applyFile_calm [OF step]
  show ?case
  proof (cases x)
    case (Inl e)
    then have "eg' = fst (poisonRemote ops e (fePath f) (emit (DecodeError e (fePath f)) eg1))"
      using Cons.prems step by (auto split: prod.splits)
    moreover have "calm contents root eg1 (emit (DecodeError e (fePath f)) eg1)" by (rule calm_same) simp_all
    ultimately show ?thesis using keep poison_calm calm_trans by metis
  next
    case (Inr y)
    with Cons step have "calm contents root eg1 eg'" by (cases y) auto
    with keep show ?thesis by (rule calm_trans)
  qed
qed simp

lemma pull_calm:
  assumes run: "Pull.pull ops ctx wall lm eg = (eg', res)" and lm: "\<And>a b x. lm a = (b, x) \<Longrightarrow> calm contents root a b"
  shows "calm contents root eg eg'"
proof -
  obtain eg1 x where load: "lm (emit SyncStart eg) = (eg1, x)" by force
  have "calm contents root eg (emit SyncStart eg)" by (rule calm_same) simp_all
  from calm_trans [OF this lm [OF load]] have base: "calm contents root eg eg1" .
  have fail: "calm contents root eg ((emit ev b)\<lparr>ssHlc := h\<rparr>)" if "calm contents root eg b" for ev b h
    using that by (simp add: calm_def)
  have files: "calm contents root eg1 b" if "pullFiles ops ctx wall fs eg1 = (b, y)" for fs b y
  proof -
    let ?l = "loadLedger (ssLocal eg1)"
    obtain b1 z where loop: "pullLoop ops ctx wall (selectUnseen ?l [] (jsort (\<lambda>a b. compareChangeFiles (feName a) (feName b)) fs)) 0 ?l eg1 = (b1, z)"
      by force
    note keep = pullLoop_calm [OF loop, where root = root]
    have "storeCalm (ssLocal eg1) (storeSetMeta ''hlc'' v (fst (persistLedger l1 (ssLocal b1))))" for v l1
      by (rule storeCalm_known, rule storeCalm_trans [OF _ storeCalm_persist]) (use keep in \<open>simp add: calm_def\<close>)
    with that loop keep show ?thesis
      by (cases z) (auto simp: pullFiles_def Let_def calm_def split: prod.splits)
  qed
  show ?thesis
    using run base fail calm_trans [OF base files] unfolding pull_def Let_def load
    by (auto split: sum.splits prod.splits if_splits simp: calm_def)
qed

lemma mark_calm: "calm contents root eg (markSuccessfulRemoteSync env eg)"
  by (simp add: calm_def markSuccessfulRemoteSync_def storeCalm_known)

lemma schedule_calm: "scheduleDefaultRetentionCheck env cfg eg = (eg', res) \<Longrightarrow> calm contents root eg eg'"
  by (auto simp: scheduleDefaultRetentionCheck_def split: sum.splits intro!: calm_same)

lemma pullFromRemote_calm:
  assumes run: "pullFromRemote env cfg eg = (eg', res)" and env: "evOps env = ops" and path: "cfRemotePath cfg = Some root" "root \<noteq> ''''"
  shows "calm contents root eg eg'"
proof -
  have req: "requireRemotePath cfg op = Inr root" for op using path by (simp add: requireRemotePath_def)
  let ?lm = "\<lambda>st. case doLoadOrCreateManifest env cfg ''pull'' False (createUnlessReader cfg) True st of
    (st1, Inl e) \<Rightarrow> (st1, Inl e) | (st1, Inr _) \<Rightarrow> (st1, Inr ())"
  let ?cx = "\<lparr>pcRemotePath = root, pcCodec = codecStateOf eg, pcSchema = cfSchema cfg, pcObserves = egListeners eg \<noteq> []\<rparr>"
  have lm: "calm contents root a b" if "?lm a = (b, x)" for a b x
    using that doLoad_calm [OF _ env req] by (auto split: prod.splits sum.splits)
  obtain eg1 x where p: "Pull.pull ops ?cx (evWall env) ?lm eg = (eg1, x)" by force
  note base = pull_calm [OF p lm]
  show ?thesis
  proof (cases x)
    case (Inl e)
    with run p base show ?thesis by (simp add: pullFromRemote_def req env)
  next
    case (Inr u)
    obtain eg2 y where mid: "(if ssConnected eg1 then scheduleDefaultRetentionCheck env cfg (markSuccessfulRemoteSync env eg1)
        else (eg1, Inr ())) = (eg2, y)" by force
    then have "calm contents root eg1 eg2"
      by (cases "ssConnected eg1") (auto intro: calm_trans [OF mark_calm schedule_calm])
    with base have "calm contents root eg eg2" by (rule calm_trans)
    moreover have "y = Inr () \<Longrightarrow> calm contents root eg2 eg'" "\<And>e. y = Inl e \<Longrightarrow> eg' = eg2"
      using run p Inr mid acknowledge_calm [OF _ env path(1)] by (auto simp: pullFromRemote_def req env)
    ultimately show ?thesis using calm_trans by (cases y) auto
  qed
qed

lemma pullNow_calm:
  assumes run: "pullNow n env cfg eg = Some (eg', res)" and env: "evOps env = ops" and path: "cfRemotePath cfg = Some root" "root \<noteq> ''''"
    and writer: "\<not> cfReaderMode cfg"
  shows "calm contents root eg eg'"
proof (cases n)
  case 0
  with run show ?thesis by simp
next
  case (Suc k)
  let ?eg0 = "if ssConnected eg then setConnectionStatus Syncing eg else eg"
  obtain eg1 x where p: "pullFromRemote env cfg ?eg0 = (eg1, x)" by force
  have "calm contents root eg ?eg0" by (rule calm_same) simp_all
  from calm_trans [OF this pullFromRemote_calm [OF p env path]] have base: "calm contents root eg eg1" .
  show ?thesis
  proof (cases "requireAdapter ''pull()'' eg")
    case (Inl e)
    with run Suc show ?thesis by simp
  next
    case (Inr u)
    then have "pullEnd (eg1, x) = (eg', res)" using run Suc p writer by (simp add: Let_def)
    then have "ssLocal eg' = ssLocal eg1" "ssRemote eg' = ssRemote eg1" by (cases x; auto)+
    with base show ?thesis by (simp add: calm_def)
  qed
qed

end

section \<open>Where a queued entry can be\<close>

definition published :: "('r \<Rightarrow> string \<Rightarrow> cloud_data option) \<Rightarrow> string \<Rightarrow> change_entry \<Rightarrow> 'r \<Rightarrow> bool" where
  "published contents root x r \<longleftrightarrow>
     (\<exists>codec d. encodeChangePayload codec x = Inr d \<and> contents r (changeFile root (entryName x)) = Some d)"

definition quarantined :: "change_entry \<Rightarrow> memory_store \<Rightarrow> bool" where
  "quarantined x s \<longleftrightarrow>
     filter (\<lambda>v. entryId v = JStr (ceId x)) (quarantinedEntries (storeGetMeta s QUARANTINED_OFFLINE_CHANGES_META)) = [entryValue x]"

lemma entryId_entryValue [simp]: "entryId (entryValue e) = JStr (ceId e)"
  by (simp add: entryValue_def)

lemma keyed_update:
  "(\<forall>(k, v) \<in> set al. k = f v) \<Longrightarrow> (\<forall>(k, v) \<in> set (AList.update (f w) w al). k = f v)"
  by (induction al) auto

lemma filter_keyed:
  "distinct (map fst al) \<Longrightarrow> \<forall>(k, v) \<in> set al. k = f v \<Longrightarrow> filter (\<lambda>v. f v = k) (map snd al) = optList (map_of al k)"
proof (induction al)
  case (Cons p al)
  obtain k' v where p: "p = (k', v)" by force
  have "filter (\<lambda>v. f v = k) (map snd al) = []" if "k = f v"
    using Cons.prems p that by (force simp: filter_empty_conv)
  with Cons p show ?case by auto
qed simp

text \<open>The merged quarantine holds under each id just the last record given for it.\<close>

lemma mergeQuarantine_filter:
  "filter (\<lambda>v. entryId v = k) (mergeQuarantine existing queued) =
     (let vs = filter (\<lambda>v. entryId v = k) (existing @ map entryValue queued) in if vs = [] then [] else [last vs])"
proof -
  let ?A = "\<lambda>vs. fold (\<lambda>v. AList.update (entryId v) v) vs []"
  have "distinct (map fst (?A vs)) \<and> (\<forall>(k, v) \<in> set (?A vs). k = entryId v)
      \<and> optList (map_of (?A vs) k) = (let ws = filter (\<lambda>v. entryId v = k) vs in if ws = [] then [] else [last ws])" for vs
  proof (induction vs rule: rev_induct)
    case (snoc w vs)
    then show ?case
      using keyed_update [of "?A vs" entryId w] by (simp add: distinct_update update_conv' Let_def)
  qed simp
  note keyed = this [of "existing @ map entryValue queued"]
  show ?thesis
    unfolding mergeQuarantine_def by (rule trans [OF filter_keyed]) (use keyed in simp_all)
qed

lemma filter_distinct:
  "distinct (map f xs) \<Longrightarrow> x \<in> set xs \<Longrightarrow> filter (\<lambda>y. f y = f x) xs = [x]"
proof (induction xs)
  case (Cons y xs)
  have "filter (\<lambda>y. f y = f x) xs = []" if "f y = f x"
    unfolding filter_empty_conv using Cons.prems(1) that by (metis distinct.simps(2) image_eqI list.simps(9) set_map)
  with Cons show ?case by auto
qed simp

lemma mergeQuarantine_keeps:
  assumes "distinct (map ceId queued)" "x \<in> set queued"
  shows "filter (\<lambda>v. entryId v = JStr (ceId x)) (mergeQuarantine existing queued) = [entryValue x]"
  using filter_distinct [OF assms] by (simp add: mergeQuarantine_filter Let_def filter_map comp_def)

lemma mergeQuarantine_old:
  assumes "filter (\<lambda>v. entryId v = JStr (ceId x)) existing = [entryValue x]" "\<forall>y \<in> set queued. ceId y \<noteq> ceId x"
  shows "filter (\<lambda>v. entryId v = JStr (ceId x)) (mergeQuarantine existing queued) = [entryValue x]"
  using assms by (simp add: mergeQuarantine_filter Let_def filter_map comp_def)

section \<open>Flush settles every queued entry\<close>

lemma peek_promote: "storePeekOutbox (fst (storePromotePendingBatch s)) = queuedEntries s"
  by (simp add: storePromotePendingBatch_def queuedEntries_def storePeekOutbox_def storePeekPendingBatch_def split: option.split)

lemma remote_flushPendingBatch [simp]: "ssRemote (flushPendingBatch cfg eg) = ssRemote eg"
  by (auto simp: flushPendingBatch_def clearBatchTimer_def scheduleFlush_def maybeEmitCompactWarning_def armDelayedCompactAfterChange_def
      withLocal_def Let_def split: prod.splits option.splits)

lemma meta_promote [simp]: "storeGetMeta (fst (storePromotePendingBatch s)) k = storeGetMeta s k"
  by (simp add: storePromotePendingBatch_def storeGetMeta_def split: option.split)

lemma meta_acknowledge [simp]: "storeGetMeta (storeAcknowledgeOutbox ids s) k = storeGetMeta s k"
  by (simp add: storeAcknowledgeOutbox_def storeGetMeta_def)

lemma quarantine_step:
  assumes run: "quarantineExpiredOfflineWrites env cfg eg = (eg', res)"
    and ids: "distinct (map ceId (queuedEntries (ssLocal eg)))"
  shows "ssRemote eg' = ssRemote eg"
    "case res of Inr (Some _) \<Rightarrow> \<forall>x \<in> set (queuedEntries (ssLocal eg)). quarantined x (ssLocal eg') | _ \<Rightarrow> eg' = eg"
proof -
  show "ssRemote eg' = ssRemote eg"
    using run by (auto simp: quarantineExpiredOfflineWrites_def Let_def split: sum.splits option.splits if_splits)
  have "quarantined x (ssLocal eg')" if "res = Inr (Some qs)" "x \<in> set (queuedEntries (ssLocal eg))" for x qs
  proof -
    let ?Q = QUARANTINED_OFFLINE_CHANGES_META
    have "quarantinedEntries (storeGetMeta (ssLocal eg') ?Q)
        = mergeQuarantine (quarantinedEntries (storeGetMeta (ssLocal eg) ?Q)) (queuedEntries (ssLocal eg))"
      using run that(1)
      by (auto simp: quarantineExpiredOfflineWrites_def Let_def peek_promote quarantine_meta split: sum.splits option.splits if_splits)
    then show ?thesis using mergeQuarantine_keeps [OF ids that(2)] unfolding quarantined_def by simp
  qed
  moreover have "eg' = eg" if "\<And>qs. res \<noteq> Inr (Some qs)"
    using run that by (auto simp: quarantineExpiredOfflineWrites_def Let_def split: sum.splits option.splits if_splits)
  ultimately show "case res of Inr (Some _) \<Rightarrow> \<forall>x \<in> set (queuedEntries (ssLocal eg)). quarantined x (ssLocal eg') | _ \<Rightarrow> eg' = eg"
    by (auto split: sum.split option.split)
qed

context cloud_adapter
begin

lemma flushPrimary_published:
  assumes "foResult (flushPrimary now ops root entries codec dev reps s r) = Inr ()" "distinct (map entryName entries)" "x \<in> set entries"
  shows "published contents root x (foRemote (flushPrimary now ops root entries codec dev reps s r))"
proof -
  have fl: "changeFile root (entryName e) = entryFile root e" for e by (simp add: entryName_def entryFile_def)
  obtain r1 evs where out: "flushToAdapter now ops root entries True codec dev r = (r1, evs, Inr ())"
    "foRemote (flushPrimary now ops root entries codec dev reps s r) = r1"
    using assms(1) by (auto simp: flushPrimary_def split: prod.splits sum.splits)
  obtain r2 r3 lw where w: "writeEntries ops root codec entries '''' r2 = (r3, Inr lw)" "advanceHead now ops root True dev lw r3 = (r1, evs, Inr ())"
    using out(1) by (auto simp: flushToAdapter_def split: prod.splits sum.splits)
  have "distinct (map (entryFile root) entries)"
    using assms(2) by (auto simp: distinct_map inj_on_def entryName_def entryFile_def changeFile_def)
  from writeEntries_written [OF w(1) this assms(3)] obtain d where d: "encodeChangePayload codec x = Inr d" "contents r3 (entryFile root x) = Some d"
    by blast
  have "contents r1 (entryFile root x) = contents r3 (entryFile root x)"
    by (rule advanceHead_other [OF w(2)]) (auto dest: sym)
  with d out(2) show ?thesis unfolding published_def fl by auto
qed

end

lemma queued_flushPrimary: "queuedEntries (foLocal (flushPrimary now ops root entries codec dev reps s r)) = queuedEntries s"
  "storePeekOutbox (foLocal (flushPrimary now ops root entries codec dev reps s r)) = storePeekOutbox s"
proof -
  have peek: "storePeekOutbox (fst (recordFlushedChanges es s0)) = storePeekOutbox s0" for es s0
    by (auto simp: recordFlushedChanges_def persistLedger_def Let_def split: sum.split)
  have loc: "foLocal (flushPrimary now ops root entries codec dev reps s r) = fst (recordFlushedChanges entries s)"
    by (auto simp: flushPrimary_def split: prod.splits sum.splits)
  show "queuedEntries (foLocal (flushPrimary now ops root entries codec dev reps s r)) = queuedEntries s"
    "storePeekOutbox (foLocal (flushPrimary now ops root entries codec dev reps s r)) = storePeekOutbox s"
    unfolding loc by (simp_all add: queued_record peek)
qed

context cloud_adapter
begin

lemma publishEntries_step:
  assumes run: "publishEntries env cfg entries eg = (eg', res)" and env: "evOps env = ops"
    and path: "requireRemotePath cfg ''flush()'' = Inr root" and names: "distinct (map entryName entries)"
  shows "case res of Inl _ \<Rightarrow> storePeekOutbox (ssLocal eg') = storePeekOutbox (ssLocal eg)
    | Inr _ \<Rightarrow> \<forall>x \<in> set entries. published contents root x (ssRemote eg')"
proof -
  let ?out = "flushPrimary (evIso env (evNow env)) ops root entries (codecStateOf eg) (cfDeviceId cfg) (egReplicas eg) (ssLocal eg) (ssRemote eg)"
  show ?thesis
  proof (cases "foResult ?out")
    case (Inl e)
    then have "res = Inl e" "ssLocal eg' = foLocal ?out" using run by (auto simp: publishEntries_def path env Let_def)
    then show ?thesis by (simp add: queued_flushPrimary)
  next
    case (Inr u)
    then have "res = Inr ()" "ssRemote eg' = foRemote ?out"
      using run by (auto simp: publishEntries_def path env Let_def markSuccessfulRemoteSync_def)
    then show ?thesis using flushPrimary_published [OF _ names] Inr by simp
  qed
qed

lemma flushRefreshed_settles:
  assumes run: "flushRefreshed env cfg trigger entries eg = (eg', res)" and env: "evOps env = ops"
    and path: "requireRemotePath cfg ''flush()'' = Inr root" and entries: "entries = storePeekOutbox (ssLocal eg)"
    and ids: "distinct (map ceId (queuedEntries (ssLocal eg)))" "distinct (map entryName entries)" and x: "x \<in> set entries"
  shows "case res of Inl _ \<Rightarrow> x \<in> set (storePeekOutbox (ssLocal eg'))
    | Inr _ \<Rightarrow> published contents root x (ssRemote eg') \<or> quarantined x (ssLocal eg')"
proof -
  obtain eg2 q where qu: "quarantineExpiredOfflineWrites env cfg eg = (eg2, q)" by force
  note step = quarantine_step [OF qu ids(1)]
  consider e where "q = Inl e" | qs where "q = Inr (Some qs)" | "q = Inr None" by (metis option.exhaust sum.exhaust)
  then show ?thesis
  proof cases
    case 1
    with run qu step x entries show ?thesis by (auto simp: flushRefreshed_def)
  next
    case 2
    then have "quarantined x (ssLocal eg2)" using step(2) x entries by (auto simp: queuedEntries_def)
    with run qu 2 show ?thesis by (auto simp: flushRefreshed_def)
  next
    case 3
    let ?eg3 = "emit (FlushStart (length entries)) eg2"
    let ?eg5 = "clearScheduledFlush (resetCompactWarning ((if ssConnected ?eg3 then setConnectionStatus Syncing ?eg3 else ?eg3)\<lparr>egPendingCount := 0\<rparr>))"
    have same: "storePeekOutbox (ssLocal ?eg5) = entries" using step(2) 3 by (simp add: entries)
    obtain eg6 p where pub: "publishEntries env cfg entries ?eg5 = (eg6, p)" by force
    note settled = publishEntries_step [OF pub env path ids(2)]
    have "(eg', res) = (case p of Inr _ \<Rightarrow> (eg6, Inr trigger)
        | Inl e \<Rightarrow> (maybeEmitCompactWarning cfg ((idleIfConnected (fst (handleRemoteAccessError e ''flush'' eg6)))\<lparr>egPendingCount := length entries\<rparr>), Inl e))"
      using run unfolding flushRefreshed_def qu 3 Let_def prod.case sum.case option.case pub by (simp split: sum.splits)
    then show ?thesis using settled same x by (cases p) auto
  qed
qed

lemma doFlush_settles:
  assumes run: "doFlush env cfg eg = (eg', res)" and env: "evOps env = ops" and path: "cfRemotePath cfg = Some root" "root \<noteq> ''''"
    and live: "egHasAdapter eg" "egAccessError eg = None"
    and ids: "distinct (map ceId (queuedEntries (ssLocal eg)))" "distinct (map entryName (storePeekOutbox (ssLocal eg)))"
    and x: "x \<in> set (storePeekOutbox (ssLocal eg))"
  shows "case res of Inl _ \<Rightarrow> x \<in> set (storePeekOutbox (ssLocal eg'))
    | Inr _ \<Rightarrow> published contents root x (ssRemote eg') \<or> quarantined x (ssLocal eg')"
proof -
  have req: "requireRemotePath cfg op = Inr root" for op using path by (simp add: requireRemotePath_def)
  obtain eg1 l where load: "doLoadOrCreateManifest env cfg ''flush-retention'' True defaultLoad True eg = (eg1, l)" by force
  have "calm contents root eg eg1" by (rule doLoad_calm [OF load env req])
  then have peek1: "storePeekOutbox (ssLocal eg1) = storePeekOutbox (ssLocal eg)" "queuedEntries (ssLocal eg1) = queuedEntries (ssLocal eg)"
    by (simp_all add: calm_def storeCalm_def queuedEntries_def)
  have "storePeekOutbox (ssLocal eg) \<noteq> []" using x by auto
  then have start: "(case l of Inl e \<Rightarrow> (eg1, Inl e)
      | Inr _ \<Rightarrow> flushRefreshed env cfg (egPendingCount eg) (storePeekOutbox (ssLocal eg)) eg1) = (eg', res)"
    using run live by (simp add: doFlush_def load)
  show ?thesis
  proof (cases l)
    case (Inl e)
    with start x peek1 show ?thesis by auto
  next
    case (Inr b)
    then have "flushRefreshed env cfg (egPendingCount eg) (storePeekOutbox (ssLocal eg)) eg1 = (eg', res)" using start by simp
    from flushRefreshed_settles [OF this env req peek1(1) [symmetric] _ ids(2) x] ids(1) peek1(2) show ?thesis by simp
  qed
qed

end

section \<open>Rehydrate\<close>

definition keepsWritten :: "('r \<Rightarrow> string \<Rightarrow> cloud_data option) \<Rightarrow> string \<Rightarrow> 'r engine \<Rightarrow> 'r engine \<Rightarrow> bool" where
  "keepsWritten contents root eg eg' \<longleftrightarrow>
     storeGetMeta (ssLocal eg') QUARANTINED_OFFLINE_CHANGES_META = storeGetMeta (ssLocal eg) QUARANTINED_OFFLINE_CHANGES_META
     \<and> queuedEntries (ssLocal eg') \<in> {queuedEntries (ssLocal eg), []}
     \<and> (\<forall>n. contents (ssRemote eg') (changeFile root n) = contents (ssRemote eg) (changeFile root n))"

lemma keepsWritten_refl [simp]: "keepsWritten contents root eg eg"
  by (simp add: keepsWritten_def)

lemma keepsWritten_trans: "keepsWritten contents root a b \<Longrightarrow> keepsWritten contents root b c \<Longrightarrow> keepsWritten contents root a c"
  by (auto simp: keepsWritten_def)

lemma calm_keeps: "calm contents root a b \<Longrightarrow> keepsWritten contents root a b"
  by (simp add: calm_def storeCalm_def keepsWritten_def queuedEntries_def)

lemma keepsWritten_settled:
  "keepsWritten contents root a b \<Longrightarrow> published contents root x (ssRemote a) \<or> quarantined x (ssLocal a) \<Longrightarrow>
    published contents root x (ssRemote b) \<or> quarantined x (ssLocal b)"
  by (simp add: keepsWritten_def published_def quarantined_def)

lemma meta_setPreserved:
  "storeGetMeta (setPreserved kvs s) k = (case map_of (rev (filter (\<lambda>(_, v). v \<noteq> JUndefined) kvs)) k of None \<Rightarrow> storeGetMeta s k | Some v \<Rightarrow> v)"
  by (induction kvs s rule: setPreserved.induct) (auto simp: map_add_def storeGetMeta_def storeSetMeta_def update_conv' split: option.splits)

lemma meta_preserved:
  "storeGetMeta (setPreserved (preservedRetentionMeta eg) newMemoryStore) QUARANTINED_OFFLINE_CHANGES_META
     = storeGetMeta (ssLocal eg) QUARANTINED_OFFLINE_CHANGES_META"
proof -
  have "storeGetMeta newMemoryStore k = JUndefined" for k by (simp add: storeGetMeta_def newMemoryStore_def)
  then show ?thesis by (simp add: meta_setPreserved preservedRetentionMeta_def quarantine_meta)
qed

lemma queued_replaceRows [simp]: "queuedEntries (replaceRows p tbls s) = []"
proof -
  have "queuedEntries (setPreserved p s0) = queuedEntries s0" for s0 by (induction p s0 rule: setPreserved.induct) auto
  moreover have "queuedEntries (storePutRows xs s0) = queuedEntries s0" for xs s0
    using storeCalm_putRows [of s0 xs] by (simp add: storeCalm_def queuedEntries_def)
  ultimately show ?thesis
    by (simp add: replaceRows_eq queuedEntries_def storePeekOutbox_def storePeekPendingBatch_def newMemoryStore_def)
qed

lemma storeCalm_decodeSnapshot: "decodeSnapshotPayload codec d s = (s', res) \<Longrightarrow> storeCalm s s'"
  using storeCalm_assert by (fastforce simp: decodeSnapshotPayload_def Let_def split: sum.splits if_splits option.splits prod.splits)

context cloud_adapter
begin

lemma restoreFrom_keeps:
  assumes run: "restoreFrom ops cx path st = (st', res)" and cx: "rcPreservedMeta cx = preservedRetentionMeta eg"
    and base: "keepsWritten contents root eg st"
  shows "keepsWritten contents root eg st'"
proof -
  let ?q = "\<lambda>s. storeGetMeta s QUARANTINED_OFFLINE_CHANGES_META"
  have remote: "ssRemote st' = ssRemote st"
    using run by (auto simp: restoreFrom_def Let_def split: sum.splits prod.splits)
  have restore: "?q s2 = ?q (ssLocal eg)"
    if "restoreSnapshot h cov (\<lambda>s. (replaceRows (rcPreservedMeta cx) tbls s, Inr ())) s1 = (s2, x)" for h cov tbls s1 s2 x
    using that by (auto simp: restoreSnapshot_def Let_def cx meta_preserved meta_keys [symmetric] split: sum.splits)
  have "?q (ssLocal st') = ?q (ssLocal eg)"
    using run base restore storeCalm_decodeSnapshot
    by (auto simp: restoreFrom_def Let_def keepsWritten_def storeCalm_def meta_keys [symmetric] split: sum.splits prod.splits)
  moreover have "queuedEntries s2 \<in> {queuedEntries s1, []}"
    if "restoreSnapshot h cov (\<lambda>s. (replaceRows (rcPreservedMeta cx) tbls s, Inr ())) s1 = (s2, x)" for h cov tbls s1 s2 x
    using that by (auto simp: restoreSnapshot_def Let_def split: sum.splits)
  then have "queuedEntries (ssLocal st') \<in> {queuedEntries (ssLocal eg), []}"
    using run base storeCalm_decodeSnapshot
    by (fastforce simp: restoreFrom_def Let_def keepsWritten_def storeCalm_def queuedEntries_def split: sum.splits prod.splits)
  ultimately show ?thesis using remote base by (simp add: keepsWritten_def)
qed

lemma rehydrateRestore_keeps:
  assumes run: "rehydrateRestore ops cx reload st = (st', res)" and cx: "rcPreservedMeta cx = preservedRetentionMeta eg"
    and base: "keepsWritten contents root eg st" and reload: "\<And>a b x. reload a = (b, x) \<Longrightarrow> calm contents root a b"
  shows "keepsWritten contents root eg st'"
proof -
  have em: "keepsWritten contents root eg (emit ev b)" if "keepsWritten contents root eg b" for ev b
    using that by (simp add: keepsWritten_def)
  have poison: "keepsWritten contents root eg (fst (poisonRemote ops e p b))" if "keepsWritten contents root eg b" for e p b
    using that calm_keeps [OF poison_calm] keepsWritten_trans by blast
  have again: "keepsWritten contents root eg b" if "restoreOrReload ops cx reload path a = (b, y)" "keepsWritten contents root eg a" for path a b y
  proof -
    obtain a1 r1 where first: "restoreFrom ops cx path a = (a1, r1)" by force
    note k1 = restoreFrom_keeps [OF first cx that(2)]
    have k2: "keepsWritten contents root eg a2" if "reload a1 = (a2, r2)" for a2 r2
      using keepsWritten_trans [OF k1 calm_keeps [OF reload [OF that]]] .
    show ?thesis
      using that(1) k1 k2 restoreFrom_keeps [OF _ cx k2] unfolding restoreOrReload_def first
      by (auto split: sum.splits prod.splits option.splits if_splits)
  qed
  let ?st0 = "emit RehydrateStart st"
  have k0: "keepsWritten contents root eg ?st0" using em base by blast
  show ?thesis
  proof (cases "\<exists>path. Option.bind (rcManifest cx) mfSnapshotPath = Some path \<and> path \<noteq> ''''")
    case False
    then have "st' = emit (RehydrateComplete 0) ?st0" using run by (auto simp: rehydrateRestore_def Let_def split: option.splits)
    then show ?thesis using em k0 by simp
  next
    case True
    then obtain path where path: "Option.bind (rcManifest cx) mfSnapshotPath = Some path" "path \<noteq> ''''" by blast
    obtain st1 lp y where rr: "restoreOrReload ops cx reload path ?st0 = (st1, lp, y)" by (metis prod.exhaust)
    have k1: "keepsWritten contents root eg st1" by (rule again [OF rr k0])
    show ?thesis
    proof (cases y)
      case (Inl e)
      then have "st' = emit (SyncErrorEvent e) (fst (poisonRemote ops e lp (emit (DecodeError e lp) st1)))"
        using run path rr by (auto simp: rehydrateRestore_def Let_def poisonRemote_def)
      then show ?thesis using em poison k1 by simp
    next
      case (Inr z)
      then show ?thesis using run path rr em k1 by (cases z) (auto simp: rehydrateRestore_def Let_def)
    qed
  qed
qed

lemma rehydrateNow_keeps:
  assumes run: "rehydrateNow n env cfg (preservedRetentionMeta eg) eg = Some (eg', res)" and env: "evOps env = ops"
    and path: "cfRemotePath cfg = Some root" "root \<noteq> ''''" and writer: "\<not> cfReaderMode cfg"
  shows "keepsWritten contents root eg eg'"
proof -
  have req: "requireRemotePath cfg op = Inr root" for op using path by (simp add: requireRemotePath_def)
  let ?reload = "\<lambda>st. case doLoadOrCreateManifest env cfg ''rehydrate-stale-snapshot'' True (createUnlessReader cfg) True st of
    (st1, Inl e) \<Rightarrow> (st1, Inl e) | (st1, Inr _) \<Rightarrow> (st1, Inr (egManifest st1))"
  let ?cx = "\<lparr>rcCodec = codecStateOf eg, rcManifest = egManifest eg, rcDeviceId = cfDeviceId cfg, rcPreservedMeta = preservedRetentionMeta eg\<rparr>"
  have reload: "calm contents root a b" if "?reload a = (b, x)" for a b x
    using that doLoad_calm [OF _ env req] by (auto split: prod.splits sum.splits)
  obtain eg1 y where rr: "rehydrateRestore ops ?cx ?reload eg = (eg1, y)" by force
  have k1: "keepsWritten contents root eg eg1" by (rule rehydrateRestore_keeps [OF rr _ _ reload]) simp_all
  have pulled: "keepsWritten contents root eg eg2" if "pullNow n env cfg eg1 = Some (eg2, z)" for eg2 z
    using keepsWritten_trans [OF k1 calm_keeps [OF pullNow_calm [OF that env path writer]]] .
  have acked: "keepsWritten contents root eg eg3"
    if p: "pullNow n env cfg eg1 = Some (eg2, z)" and a: "acknowledgeManifest env cfg (eg2\<lparr>ssHlc := c\<rparr>) = (eg3, w)" for eg2 z c eg3 w
    using pulled [OF p] calm_keeps [OF acknowledge_calm [OF a env path(1)]] by (auto simp: keepsWritten_def)
  show ?thesis
    using run k1 pulled acked unfolding rehydrateNow_def rehydrateWith_def env rr
    by (auto split: sum.splits option.splits prod.splits)
qed

end

section \<open>Properties\<close>

text \<open>C7: A flush settles every queued entry, whatever the adapter does. If it fails, each entry is
  still queued; if it succeeds, each entry is in its change file on the remote, or, when the device was
  offline longer than the mesh allows, in the local quarantine. This needs remote access not to be paused.\<close>

theorem flush_settles:
  assumes "cloud_adapter (evOps env) contents okFolder" "cfRemotePath cfg = Some root" "root \<noteq> ''''"
    and "egHasAdapter eg" "egAccessError eg = None"
    and "distinct (map ceId (queuedEntries (ssLocal eg)))" "distinct (map entryName (storePeekOutbox (ssLocal eg)))"
    and "doFlush env cfg eg = (eg', res)"
  shows "\<forall>x \<in> set (storePeekOutbox (ssLocal eg)).
    (case res of Inl _ \<Rightarrow> x \<in> set (storePeekOutbox (ssLocal eg'))
     | Inr _ \<Rightarrow> published contents root x (ssRemote eg') \<or> quarantined x (ssLocal eg'))"
  using cloud_adapter.doFlush_settles [OF assms(1,8) refl assms(2-7)] by blast

text \<open>C38: Expired writes are never uploaded. When the policy of the manifest just loaded says that the
  device was offline too long, a flush writes nothing: the remote is as the load left it, the queue is empty and
  every entry that was queued, the open batch included, is in the quarantine.\<close>

theorem expired_never_uploaded:
  assumes "egHasAdapter eg" "egAccessError eg = None" "storePeekOutbox (ssLocal eg) \<noteq> []"
    and "doLoadOrCreateManifest env cfg ''flush-retention'' True defaultLoad True eg = (eg1, Inr b)"
    and "queuedEntries (ssLocal eg1) = queuedEntries (ssLocal eg)"
    and "offlineRetentionState env cfg eg1 = Inr rs" "rsExpired rs" "rsLastSuccessfulSyncAt rs = Some lastAt"
    and "distinct (map ceId (queuedEntries (ssLocal eg)))"
  shows "\<exists>eg'. doFlush env cfg eg = (eg', Inr 0) \<and> ssRemote eg' = ssRemote eg1 \<and> queuedEntries (ssLocal eg') = []
    \<and> (\<forall>x \<in> set (queuedEntries (ssLocal eg)). quarantined x (ssLocal eg'))"
proof -
  obtain eg' q where qu: "quarantineExpiredOfflineWrites env cfg eg1 = (eg', q)" by force
  then obtain qs where q: "q = Inr (Some qs)"
    using assms(6-8) by (auto simp: quarantineExpiredOfflineWrites_def Let_def)
  have "doFlush env cfg eg = (eg', Inr 0)"
    using assms(1-4) qu q by (simp add: doFlush_def flushRefreshed_def)
  moreover have "queuedEntries (ssLocal eg') = []"
  proof -
    have "storePeekPendingBatch (fst (storePromotePendingBatch s)) = None" for s
      by (simp add: storePromotePendingBatch_def storePeekPendingBatch_def split: option.split)
    moreover have "storePeekOutbox (storeAcknowledgeOutbox (map ceId (storePeekOutbox s)) (storeSetMeta k1 v1 (storeSetMeta k2 v2 s))) = []"
      "storePeekPendingBatch (storeAcknowledgeOutbox ids s) = storePeekPendingBatch s" for s k1 v1 k2 v2 ids
      by (auto simp: storeAcknowledgeOutbox_def storePeekOutbox_def storePeekPendingBatch_def storeSetMeta_def filter_empty_conv)
    ultimately show ?thesis
      using qu assms(6-8) by (auto simp: quarantineExpiredOfflineWrites_def Let_def queuedEntries_def)
  qed
  ultimately show ?thesis using quarantine_step [OF qu] q assms(5,9) by simp
qed

text \<open>A rehydrate keeps every queued write of a writer whose remote access is not paused: whatever
  happens on the way, each entry that was queued is still queued, is published on the remote, or is in
  the quarantine, which the replacement of the local state preserves.\<close>

theorem rehydrate_keeps_writes:
  assumes adapter: "cloud_adapter (evOps env) contents okFolder" and path: "cfRemotePath cfg = Some root" "root \<noteq> ''''"
    and live: "egHasAdapter eg" "egAccessError eg = None" "\<not> cfReaderMode cfg"
    and ids: "distinct (map ceId (queuedEntries (ssLocal eg)))" "distinct (map entryName (queuedEntries (ssLocal eg)))"
    and run: "flushAndRehydrateNow n env cfg eg = Some (eg', res)"
  shows "\<forall>x \<in> set (queuedEntries (ssLocal eg)). x \<in> set (queuedEntries (ssLocal eg'))
    \<or> published contents root x (ssRemote eg') \<or> quarantined x (ssLocal eg')"
proof
  fix x assume x: "x \<in> set (queuedEntries (ssLocal eg))"
  let ?eg0 = "flushPendingBatch cfg eg"
  obtain eg1 r where fl: "doFlush env cfg ?eg0 = (eg1, r)" by force
  have peek: "storePeekOutbox (ssLocal ?eg0) = queuedEntries (ssLocal eg)" by (simp add: peek_promote)
  have pend: "storePeekPendingBatch (ssLocal ?eg0) = None"
    by (simp add: storePromotePendingBatch_def storePeekPendingBatch_def split: option.split)
  have same: "egHasAdapter ?eg0 = egHasAdapter eg" "egAccessError ?eg0 = egAccessError eg"
    by (auto simp: flushPendingBatch_def clearBatchTimer_def scheduleFlush_def maybeEmitCompactWarning_def armDelayedCompactAfterChange_def
        withLocal_def Let_def split: prod.splits option.splits)
  have settled: "case r of Inl _ \<Rightarrow> x \<in> set (storePeekOutbox (ssLocal eg1))
      | Inr _ \<Rightarrow> published contents root x (ssRemote eg1) \<or> quarantined x (ssLocal eg1)"
    by (rule cloud_adapter.doFlush_settles [OF adapter fl refl path])
      (use live same ids x peek pend in \<open>simp_all add: queuedEntries_def\<close>)
  show "x \<in> set (queuedEntries (ssLocal eg')) \<or> published contents root x (ssRemote eg') \<or> quarantined x (ssLocal eg')"
  proof (cases r)
    case (Inl e)
    then have "eg' = eg1" using run fl by (simp add: flushAndRehydrateNow_def)
    with settled Inl show ?thesis by (simp add: queuedEntries_def)
  next
    case (Inr k)
    then have "rehydrateNow n env cfg (preservedRetentionMeta eg1) eg1 = Some (eg', res)" using run fl by (simp add: flushAndRehydrateNow_def)
    from keepsWritten_settled [OF cloud_adapter.rehydrateNow_keeps [OF adapter this refl path live(3)]] settled Inr show ?thesis by auto
  qed
qed

end
