(* ===== verification/Connect_Safety.thy ===== *)
theory Connect_Safety
  imports Engine_Connect Engine_Safety
begin

text \<open>
  Connecting keeps every queued write: the stages of \<open>connect\<close> are followed with the relations of
  \<open>Engine_Safety\<close>. An entry is settled while it is queued, published on the remote, or quarantined.
\<close>

section \<open>A flush keeps what is settled\<close>

definition settled :: "('r \<Rightarrow> string \<Rightarrow> cloud_data option) \<Rightarrow> string \<Rightarrow> change_entry \<Rightarrow> 'r engine \<Rightarrow> bool" where
  "settled contents root x eg \<longleftrightarrow>
     x \<in> set (queuedEntries (ssLocal eg)) \<or> published contents root x (ssRemote eg) \<or> quarantined x (ssLocal eg)"

text \<open>No two queued entries share an id or a file name, \<open>x\<close> shares neither with another one, and the ids are in \<open>ids\<close>.\<close>

definition tidy :: "string set \<Rightarrow> change_entry \<Rightarrow> 'r engine \<Rightarrow> bool" where
  "tidy ids x eg \<longleftrightarrow> (let q = queuedEntries (ssLocal eg) in distinct (map ceId q) \<and> distinct (map entryName q)
     \<and> ceId ` set q \<subseteq> ids \<and> (\<forall>y \<in> set q. ceId y = ceId x \<or> entryName y = entryName x \<longrightarrow> y = x))"

lemma settled_calm: "calm contents root a b \<Longrightarrow> settled contents root x a \<Longrightarrow> settled contents root x b"
  by (simp add: settled_def calm_def storeCalm_def queuedEntries_def published_def quarantined_def)

lemma tidy_calm: "calm contents root a b \<Longrightarrow> tidy ids x b = tidy ids x a"
  by (simp add: tidy_def calm_def storeCalm_def queuedEntries_def)

lemma settled_same: "ssLocal b = ssLocal a \<Longrightarrow> ssRemote b = ssRemote a \<Longrightarrow> settled contents root x b = settled contents root x a"
  by (simp add: settled_def)

lemma tidy_same: "ssLocal b = ssLocal a \<Longrightarrow> tidy ids x b = tidy ids x a"
  by (simp add: tidy_def)

lemma tidy_filter:
  assumes "tidy ids x a" "queuedEntries (ssLocal b) = filter P (queuedEntries (ssLocal a))"
  shows "tidy ids x b"
  using assms by (auto simp: tidy_def Let_def distinct_map intro: inj_on_subset)

lemma queued_promoted [simp]: "queuedEntries (fst (storePromotePendingBatch s)) = queuedEntries s"
proof -
  have "storePeekPendingBatch (fst (storePromotePendingBatch s)) = None"
    by (simp add: storePromotePendingBatch_def storePeekPendingBatch_def split: option.split)
  then show ?thesis unfolding queuedEntries_def [of "fst _"] peek_promote by (simp add: optList_def)
qed

lemma quarantine_flushPrimary:
  "storeGetMeta (foLocal (flushPrimary now ops root entries codec dev reps s r)) QUARANTINED_OFFLINE_CHANGES_META
     = storeGetMeta s QUARANTINED_OFFLINE_CHANGES_META"
proof -
  have "storeCalm s (fst (recordFlushedChanges entries s))"
  proof (cases "observeEntries entries (loadLedger s)")
    case (Inr l)
    obtain s' l' b where p: "persistLedger l s = (s', l', b)" by (cases "persistLedger l s") auto
    with storeCalm_persist [of s l] Inr show ?thesis by (cases b) (simp_all add: recordFlushedChanges_def)
  qed (simp add: recordFlushedChanges_def)
  moreover have "foLocal (flushPrimary now ops root entries codec dev reps s r) = fst (recordFlushedChanges entries s)"
    by (auto simp: flushPrimary_def split: prod.splits sum.splits)
  ultimately show ?thesis by (simp add: storeCalm_def)
qed

lemma pending_flushPrimary:
  "storePeekPendingBatch (foLocal (flushPrimary now ops root entries codec dev reps s r)) = storePeekPendingBatch s"
proof -
  have "optList (storePeekPendingBatch (foLocal (flushPrimary now ops root entries codec dev reps s r))) = optList (storePeekPendingBatch s)"
    using queued_flushPrimary(1) [of now ops root entries codec dev reps s r]
    unfolding queuedEntries_def queued_flushPrimary(2) by simp
  then show ?thesis by (simp add: optList_def split: option.splits)
qed

lemma live_flushPendingBatch [simp]:
  "egHasAdapter (flushPendingBatch cfg eg) = egHasAdapter eg" "egAccessError (flushPendingBatch cfg eg) = egAccessError eg"
  by (auto simp: flushPendingBatch_def clearBatchTimer_def scheduleFlush_def maybeEmitCompactWarning_def armDelayedCompactAfterChange_def
      withLocal_def Let_def split: prod.splits option.splits)

lemma live_quarantine:
  assumes "quarantineExpiredOfflineWrites env cfg eg = (eg', res)"
  shows "egHasAdapter eg' = egHasAdapter eg" "egAccessError eg' = egAccessError eg"
  using assms by (auto simp: quarantineExpiredOfflineWrites_def Let_def resetCompactWarning_def clearScheduledFlush_def
      split: sum.splits option.splits if_splits)

text \<open>The entry is queued and the engine may flush it.\<close>

definition ready :: "string set \<Rightarrow> change_entry \<Rightarrow> 'r engine \<Rightarrow> bool" where
  "ready ids x eg \<longleftrightarrow> x \<in> set (queuedEntries (ssLocal eg)) \<and> tidy ids x eg \<and> egHasAdapter eg \<and> egAccessError eg = None"

text \<open>The device is bound to the mesh that the remote holds.\<close>

definition memberOf :: "('r \<Rightarrow> string \<Rightarrow> cloud_data option) \<Rightarrow> string \<Rightarrow> 'r engine \<Rightarrow> bool" where
  "memberOf contents root eg \<longleftrightarrow> (\<exists>pt m. contents (ssRemote eg) (manifestPointer root) = Some (JsonText (DPointer pt))
     \<and> contents (ssRemote eg) (root @ ''/'' @ ptFile pt) = Some (JsonText (DManifest m))
     \<and> storeGetMeta (ssLocal eg) ''meshId'' = JStr (mfMeshId m))"

text \<open>The ids a republication draws are new: none is drawn twice, none is in \<open>ids\<close>.\<close>

definition freshIds :: "'r env \<Rightarrow> string set \<Rightarrow> bool" where
  "freshIds env ids \<longleftrightarrow> inj (evRefresh env) \<and> (\<forall>i. changeIdOk (''chg_'' @ evRefresh env i) \<and> ''chg_'' @ evRefresh env i \<notin> ids)
     \<and> (\<forall>i \<in> ids. changeIdOk i)"

lemma changeFileName_inject:
  "changeIdOk i \<Longrightarrow> changeIdOk j \<Longrightarrow> changeFileName h i = changeFileName g j \<Longrightarrow> i = j"
proof -
  assume ok: "changeIdOk i" "changeIdOk j" and eq: "changeFileName h i = changeFileName g j"
  have "h = g" using changeFileHlc_changeFileName [OF ok(1), of h] changeFileHlc_changeFileName [OF ok(2), of g] eq by simp
  with eq show "i = j" by (simp add: changeFileName_def)
qed

lemma distinct_names:
  assumes "distinct (map ceId q)" "\<forall>y \<in> set q. changeIdOk (ceId y)"
  shows "distinct (map entryName q)"
proof -
  have "y = z" if "y \<in> set q" "z \<in> set q" "entryName y = entryName z" for y z
  proof -
    have "ceId y = ceId z" using changeFileName_inject assms(2) that unfolding entryName_def by metis
    with that assms(1) show ?thesis by (auto simp: distinct_map dest: inj_onD)
  qed
  with assms(1) show ?thesis by (auto simp: distinct_map inj_on_def)
qed

lemma rebuiltEntries_ids:
  assumes "inj (evRefresh env)"
  shows "distinct (map ceId (rebuiltEntries cfg (evRefresh env) wall xs))
    \<and> (\<forall>y \<in> set (rebuiltEntries cfg (evRefresh env) wall xs). \<exists>i < length xs. ceId y = ''chg_'' @ evRefresh env i)"
proof (induction xs)
  case (Cons x xs)
  have "ceId y \<noteq> ''chg_'' @ evRefresh env (length xs)" if mem: "y \<in> set (rebuiltEntries cfg (evRefresh env) wall xs)" for y
  proof -
    obtain i where "i < length xs" "ceId y = ''chg_'' @ evRefresh env i"
      using bspec [OF conjunct2 [OF Cons.IH] mem] by (elim exE conjE)
    with injD [OF assms, of i "length xs"] show ?thesis by auto
  qed
  moreover have "\<forall>y \<in> set (rebuiltEntries cfg (evRefresh env) wall xs). \<exists>i < length (x # xs). ceId y = ''chg_'' @ evRefresh env i"
    using conjunct2 [OF Cons.IH] by (auto intro: less_SucI)
  ultimately show ?case using Cons by (auto simp: newEntry_def split: option.split)
qed simp

lemma rebuild_tidy:
  assumes tidy: "tidy ids x eg" and x: "ceId x \<in> ids" and fresh: "freshIds env ids"
  shows "tidy UNIV x (rebuildOutboxFromLocalState cfg (evRefresh env) wall eg)"
proof -
  let ?R = "rebuiltEntries cfg (evRefresh env) wall (storeGetAllRows (ssLocal eg))"
  let ?s = "ssLocal (rebuildOutboxFromLocalState cfg (evRefresh env) wall eg)"
  have new: "distinct (map ceId ?R)" "\<forall>y \<in> set ?R. ceId y \<notin> ids \<and> changeIdOk (ceId y)"
    using rebuiltEntries_ids [of env cfg wall "storeGetAllRows (ssLocal eg)"] fresh unfolding freshIds_def by (blast, metis)
  have old: "distinct (map ceId (queuedEntries (ssLocal eg)))" "ceId ` set (queuedEntries (ssLocal eg)) \<subseteq> ids"
    using tidy by (auto simp: tidy_def Let_def)
  have q: "queuedEntries ?s = storePeekOutbox (ssLocal eg) @ ?R @ optList (storePeekPendingBatch (ssLocal eg))"
    by (simp add: rebuildOutboxFromLocalState_def storePushOutboxEntries_def withLocal_def queuedEntries_def storePeekOutbox_def
        storePeekPendingBatch_def Let_def)
  have d: "distinct (map ceId (queuedEntries ?s))" using old new unfolding q by (auto simp: queuedEntries_def)
  have ok: "\<forall>y \<in> set (queuedEntries ?s). changeIdOk (ceId y)"
    using old(2) new(2) fresh unfolding q by (auto simp: queuedEntries_def freshIds_def)
  have "y = x" if y: "y \<in> set (queuedEntries ?s)" and same: "ceId y = ceId x \<or> entryName y = entryName x" for y
  proof -
    have "changeIdOk (ceId x)" using x fresh by (simp add: freshIds_def)
    then have id: "ceId y = ceId x" using same ok y changeFileName_inject by (auto simp: entryName_def)
    then have "y \<in> set (queuedEntries (ssLocal eg))" using y new(2) x unfolding q by (auto simp: queuedEntries_def)
    with id tidy show ?thesis by (auto simp: tidy_def Let_def)
  qed
  with d ok distinct_names show ?thesis by (auto simp: tidy_def Let_def)
qed

lemma settled_rebuild:
  "settled contents root x eg \<Longrightarrow> settled contents root x (rebuildOutboxFromLocalState cfg fresh wall eg)"
  by (auto simp: settled_def rebuildOutboxFromLocalState_def storePushOutboxEntries_def withLocal_def queuedEntries_def storePeekOutbox_def
      storePeekPendingBatch_def quarantined_def storeGetMeta_def Let_def)

context cloud_adapter
begin

lemma flushPrimary_other:
  assumes "entryName x \<notin> entryName ` set entries"
  shows "contents (foRemote (flushPrimary now ops root entries codec dev reps s r)) (changeFile root (entryName x))
    = contents r (changeFile root (entryName x))"
proof -
  have fl: "changeFile root (entryName x) = entryFile root x" by (simp add: entryName_def entryFile_def)
  have other: "entryFile root x \<notin> entryFile root ` set entries"
    using assms by (auto simp: entryFile_def entryName_def changeFile_def)
  obtain r1 evs res where run: "flushToAdapter now ops root entries True codec dev r = (r1, evs, res)" by (metis prod.exhaust)
  have "contents r1 (entryFile root x) = contents r (entryFile root x)"
    using run writeEntries_other [OF _ other] advanceHead_other [OF _ entryFile_not_head entryFile_not_device [symmetric]]
      ensure_any
    by (auto simp: flushToAdapter_def split: prod.splits sum.splits)
  moreover have "foRemote (flushPrimary now ops root entries codec dev reps s r) \<in> {r, r1}"
    using run by (auto simp: flushPrimary_def split: prod.splits sum.splits)
  ultimately show ?thesis unfolding fl by auto
qed

lemma publishEntries_keeps:
  assumes run: "publishEntries env cfg entries eg = (eg', res)" and env: "evOps env = ops"
    and path: "requireRemotePath cfg ''flush()'' = Inr root" and other: "entryName x \<notin> entryName ` set entries"
  shows "contents (ssRemote eg') (changeFile root (entryName x)) = contents (ssRemote eg) (changeFile root (entryName x))"
    "storeGetMeta (ssLocal eg') QUARANTINED_OFFLINE_CHANGES_META = storeGetMeta (ssLocal eg) QUARANTINED_OFFLINE_CHANGES_META"
    "\<exists>ids. storePeekOutbox (ssLocal eg') = filter (\<lambda>y. ceId y \<notin> ids) (storePeekOutbox (ssLocal eg))
      \<and> storePeekPendingBatch (ssLocal eg') = storePeekPendingBatch (ssLocal eg)"
proof -
  let ?out = "flushPrimary (evIso env (evNow env)) ops root entries (codecStateOf eg) (cfDeviceId cfg) (egReplicas eg) (ssLocal eg) (ssRemote eg)"
  have shape: "ssRemote eg' = foRemote ?out" "ssLocal eg' = foLocal ?out \<or> ssLocal eg' = ssLocal (markSuccessfulRemoteSync env
      (eg\<lparr>ssLocal := storeAcknowledgeOutbox (map ceId entries) (foLocal ?out)\<rparr>))"
    using run by (auto simp: publishEntries_def path env Let_def markSuccessfulRemoteSync_def split: sum.splits)
  show "contents (ssRemote eg') (changeFile root (entryName x)) = contents (ssRemote eg) (changeFile root (entryName x))"
    unfolding shape(1) by (rule flushPrimary_other [OF other])
  show "storeGetMeta (ssLocal eg') QUARANTINED_OFFLINE_CHANGES_META = storeGetMeta (ssLocal eg) QUARANTINED_OFFLINE_CHANGES_META"
    using shape(2) quarantine_flushPrimary by (auto simp: markSuccessfulRemoteSync_def meta_keys [symmetric])
  note pend = pending_flushPrimary
  have ack: "storePeekOutbox (storeAcknowledgeOutbox ids s) = filter (\<lambda>y. ceId y \<notin> set ids) (storePeekOutbox s)"
    "storePeekPendingBatch (storeAcknowledgeOutbox ids s) = storePeekPendingBatch s" for ids s
    by (simp_all add: storeAcknowledgeOutbox_def storePeekOutbox_def storePeekPendingBatch_def)
  show "\<exists>ids. storePeekOutbox (ssLocal eg') = filter (\<lambda>y. ceId y \<notin> ids) (storePeekOutbox (ssLocal eg))
      \<and> storePeekPendingBatch (ssLocal eg') = storePeekPendingBatch (ssLocal eg)"
    using shape(2)
  proof
    assume "ssLocal eg' = foLocal ?out"
    then show ?thesis using pend by (intro exI [of _ "{}"]) (simp add: queued_flushPrimary(2))
  next
    assume "ssLocal eg' = ssLocal (markSuccessfulRemoteSync env (eg\<lparr>ssLocal := storeAcknowledgeOutbox (map ceId entries) (foLocal ?out)\<rparr>))"
    then show ?thesis
      using pend by (intro exI [of _ "set (map ceId entries)"]) (simp add: markSuccessfulRemoteSync_def ack queued_flushPrimary(2))
  qed
qed


text \<open>The quarantine keeps a record whose id no queued entry has, and empties the queue.\<close>

lemma quarantine_keeps:
  assumes run: "quarantineExpiredOfflineWrites env cfg eg = (eg', res)"
    and other: "\<forall>y \<in> set (queuedEntries (ssLocal eg)). ceId y \<noteq> ceId x" and x: "quarantined x (ssLocal eg)"
  shows "quarantined x (ssLocal eg')"
proof (cases "\<exists>qs. res = Inr (Some qs)")
  case True
  let ?Q = QUARANTINED_OFFLINE_CHANGES_META
  have "quarantinedEntries (storeGetMeta (ssLocal eg') ?Q)
      = mergeQuarantine (quarantinedEntries (storeGetMeta (ssLocal eg) ?Q)) (queuedEntries (ssLocal eg))"
    using run True
    by (auto simp: quarantineExpiredOfflineWrites_def Let_def peek_promote quarantine_meta split: sum.splits option.splits if_splits)
  with mergeQuarantine_old [OF _ other] x show ?thesis unfolding quarantined_def by metis
next
  case False
  then have "eg' = eg"
    using run by (auto simp: quarantineExpiredOfflineWrites_def Let_def split: sum.splits option.splits if_splits)
  with x show ?thesis by simp
qed

lemma quarantine_queue:
  assumes run: "quarantineExpiredOfflineWrites env cfg eg = (eg', res)"
  shows "eg' = eg \<and> (\<forall>qs. res \<noteq> Inr (Some qs)) \<or> queuedEntries (ssLocal eg') = []"
proof (cases "\<exists>qs. res = Inr (Some qs)")
  case True
  have "storePeekPendingBatch (fst (storePromotePendingBatch s)) = None" for s
    by (simp add: storePromotePendingBatch_def storePeekPendingBatch_def split: option.split)
  moreover have "storePeekOutbox (storeAcknowledgeOutbox (map ceId (storePeekOutbox s)) (storeSetMeta k1 v1 (storeSetMeta k2 v2 s))) = []"
    "storePeekPendingBatch (storeAcknowledgeOutbox ids s) = storePeekPendingBatch s" for s k1 v1 k2 v2 ids
    by (auto simp: storeAcknowledgeOutbox_def storePeekOutbox_def storePeekPendingBatch_def storeSetMeta_def filter_empty_conv)
  ultimately show ?thesis
    using run True
    by (auto simp: quarantineExpiredOfflineWrites_def Let_def queuedEntries_def split: sum.splits option.splits if_splits)
next
  case False
  with run show ?thesis by (auto simp: quarantineExpiredOfflineWrites_def Let_def split: sum.splits option.splits if_splits)
qed

lemma flushRefreshed_keeps:
  assumes run: "flushRefreshed env cfg trigger entries eg = (eg', res)" and env: "evOps env = ops"
    and path: "requireRemotePath cfg ''flush()'' = Inr root" and entries: "entries = storePeekOutbox (ssLocal eg)"
    and pend: "storePeekPendingBatch (ssLocal eg) = None"
    and other: "\<forall>y \<in> set entries. ceId y \<noteq> ceId x \<and> entryName y \<noteq> entryName x"
    and x: "published contents root x (ssRemote eg) \<or> quarantined x (ssLocal eg)"
  shows "published contents root x (ssRemote eg') \<or> quarantined x (ssLocal eg')"
proof -
  obtain eg2 q where qu: "quarantineExpiredOfflineWrites env cfg eg = (eg2, q)" by force
  have q2: "quarantined x (ssLocal eg) \<Longrightarrow> quarantined x (ssLocal eg2)" "ssRemote eg2 = ssRemote eg"
    using quarantine_keeps [OF qu] other pend entries qu
    by (auto simp: queuedEntries_def optList_def quarantineExpiredOfflineWrites_def Let_def split: sum.splits option.splits if_splits)
  show ?thesis
  proof (cases "q = Inr None")
    case False
    then have "eg' = eg2" using run qu by (auto simp: flushRefreshed_def split: sum.splits option.splits)
    with q2 x show ?thesis by auto
  next
    case True
    let ?eg3 = "emit (FlushStart (length entries)) eg2"
    let ?eg5 = "clearScheduledFlush (resetCompactWarning ((if ssConnected ?eg3 then setConnectionStatus Syncing ?eg3 else ?eg3)\<lparr>egPendingCount := 0\<rparr>))"
    obtain eg6 p where pub: "publishEntries env cfg entries ?eg5 = (eg6, p)" by force
    have name: "entryName x \<notin> entryName ` set entries" using other by auto
    note keep = publishEntries_keeps [OF pub env path name]
    have "ssLocal eg' = ssLocal eg6" "ssRemote eg' = ssRemote eg6"
      using run unfolding flushRefreshed_def qu True Let_def prod.case sum.case option.case pub by (auto split: sum.splits)
    with keep(1,2) q2 x show ?thesis by (auto simp: published_def quarantined_def)
  qed
qed


lemma flushRefreshed_queue:
  assumes run: "flushRefreshed env cfg trigger entries eg = (eg', res)" and env: "evOps env = ops"
    and path: "requireRemotePath cfg ''flush()'' = Inr root" and pend: "storePeekPendingBatch (ssLocal eg) = None"
  shows "\<exists>P. queuedEntries (ssLocal eg') = filter P (queuedEntries (ssLocal eg))"
proof -
  obtain eg2 q where qu: "quarantineExpiredOfflineWrites env cfg eg = (eg2, q)" by force
  show ?thesis
  proof (cases "q = Inr None")
    case False
    then have "eg' = eg2" using run qu by (auto simp: flushRefreshed_def split: sum.splits option.splits)
    then have "queuedEntries (ssLocal eg') = filter (\<lambda>_. True) (queuedEntries (ssLocal eg))
        \<or> queuedEntries (ssLocal eg') = filter (\<lambda>_. False) (queuedEntries (ssLocal eg))"
      using quarantine_queue [OF qu] by auto
    then show ?thesis by blast
  next
    case True
    let ?eg3 = "emit (FlushStart (length entries)) eg2"
    let ?eg5 = "clearScheduledFlush (resetCompactWarning ((if ssConnected ?eg3 then setConnectionStatus Syncing ?eg3 else ?eg3)\<lparr>egPendingCount := 0\<rparr>))"
    obtain eg6 p where pub: "publishEntries env cfg entries ?eg5 = (eg6, p)" by force
    let ?out = "flushPrimary (evIso env (evNow env)) ops root entries (codecStateOf ?eg5) (cfDeviceId cfg) (egReplicas ?eg5) (ssLocal ?eg5) (ssRemote ?eg5)"
    have same: "queuedEntries (ssLocal eg2) = queuedEntries (ssLocal eg)"
      using qu True by (auto simp: quarantineExpiredOfflineWrites_def Let_def split: sum.splits option.splits if_splits)
    have ack: "queuedEntries (storeAcknowledgeOutbox ids s) = filter (\<lambda>y. ceId y \<notin> set ids) (queuedEntries s)"
      if "storePeekPendingBatch s = None" for ids s
      using that by (simp add: storeAcknowledgeOutbox_def queuedEntries_def storePeekOutbox_def storePeekPendingBatch_def optList_def)
    have "queuedEntries (ssLocal eg6) = queuedEntries (foLocal ?out)
        \<or> queuedEntries (ssLocal eg6) = queuedEntries (storeAcknowledgeOutbox (map ceId entries) (foLocal ?out))"
      using pub by (auto simp: publishEntries_def path env Let_def markSuccessfulRemoteSync_def split: sum.splits)
    moreover have "storePeekPendingBatch (foLocal ?out) = None"
    proof -
      have "eg2 = eg" using qu True by (auto simp: quarantineExpiredOfflineWrites_def Let_def split: sum.splits option.splits if_splits)
      then show ?thesis by (simp add: pending_flushPrimary pend)
    qed
    ultimately have "\<exists>P. queuedEntries (ssLocal eg6) = filter P (queuedEntries (ssLocal eg2))"
      by (auto simp: ack queued_flushPrimary intro: exI [of _ "\<lambda>_. True"])
    moreover have "ssLocal eg' = ssLocal eg6"
      using run unfolding flushRefreshed_def qu True Let_def prod.case sum.case option.case pub by (auto split: sum.splits)
    ultimately show ?thesis by (simp add: same)
  qed
qed

text \<open>A flush of everything, and what it leaves of an entry that was settled before.\<close>

lemma flush_tidy:
  assumes run: "doFlush env cfg (flushPendingBatch cfg eg) = (eg', res)" and env: "evOps env = ops"
    and path: "cfRemotePath cfg = Some root" "root \<noteq> ''''" and tidy: "tidy ids x eg" and x: "settled contents root x eg"
  shows "settled contents root x eg'" "tidy ids x eg'"
proof -
  let ?eg0 = "flushPendingBatch cfg eg"
  have req: "requireRemotePath cfg op = Inr root" for op using path by (simp add: requireRemotePath_def)
  have peek: "storePeekOutbox (ssLocal ?eg0) = queuedEntries (ssLocal eg)" "storePeekPendingBatch (ssLocal ?eg0) = None"
    by (simp_all add: peek_promote) (simp add: storePromotePendingBatch_def storePeekPendingBatch_def split: option.split)
  have t0: "tidy ids x ?eg0" using tidy by (simp add: tidy_def)
  have x0: "settled contents root x ?eg0" using x by (simp add: settled_def published_def quarantined_def)
  show "settled contents root x eg'" "tidy ids x eg'"
  proof (atomize (full), cases "egHasAdapter ?eg0 \<and> egAccessError ?eg0 = None \<and> storePeekOutbox (ssLocal ?eg0) \<noteq> []")
    case False
    then have same: "ssLocal eg' = ssLocal ?eg0" "ssRemote eg' = ssRemote ?eg0" using run by (auto simp: doFlush_def Let_def split: if_splits)
    then show "settled contents root x eg' \<and> tidy ids x eg'" using x0 t0 settled_same [OF same] tidy_same [OF same(1)] by blast
  next
    case True
    obtain eg1 l where load: "doLoadOrCreateManifest env cfg ''flush-retention'' True defaultLoad True ?eg0 = (eg1, l)" by force
    have c: "calm contents root ?eg0 eg1" by (rule doLoad_calm [OF load env req])
    then have p1: "storePeekOutbox (ssLocal eg1) = storePeekOutbox (ssLocal ?eg0)" "storePeekPendingBatch (ssLocal eg1) = None"
      using peek by (simp_all add: calm_def storeCalm_def)
    have t1: "tidy ids x eg1" using t0 by (simp add: tidy_calm [OF c])
    have x1: "settled contents root x eg1" by (rule settled_calm [OF c x0])
    show "settled contents root x eg' \<and> tidy ids x eg'"
    proof (cases l)
      case (Inl e)
      then have "eg' = eg1" using run load True by (simp add: doFlush_def Let_def)
      with x1 t1 show ?thesis by simp
    next
      case (Inr b)
      then have fr: "flushRefreshed env cfg (egPendingCount ?eg0) (storePeekOutbox (ssLocal eg1)) eg1 = (eg', res)"
        using run load True p1 by (simp add: doFlush_def Let_def)
      have "tidy ids x eg'" using flushRefreshed_queue [OF fr env req p1(2)] tidy_filter [OF t1] by blast
      moreover have "settled contents root x eg'"
      proof (cases "x \<in> set (storePeekOutbox (ssLocal eg1))")
        case True
        have "distinct (map ceId (queuedEntries (ssLocal eg1)))" "distinct (map entryName (storePeekOutbox (ssLocal eg1)))"
          using t1 by (simp_all add: tidy_def Let_def queuedEntries_def)
        from flushRefreshed_settles [OF fr env req refl this True] show ?thesis
          by (auto simp: settled_def queuedEntries_def split: sum.splits)
      next
        case False
        have o: "\<forall>y \<in> set (storePeekOutbox (ssLocal eg1)). ceId y \<noteq> ceId x \<and> entryName y \<noteq> entryName x"
          using t1 False by (auto simp: tidy_def Let_def queuedEntries_def)
        have "published contents root x (ssRemote eg1) \<or> quarantined x (ssLocal eg1)"
          using x1 False p1(2) by (auto simp: settled_def queuedEntries_def optList_def)
        from flushRefreshed_keeps [OF fr env req refl p1(2) o this] show ?thesis by (simp add: settled_def)
      qed
      ultimately show ?thesis by simp
    qed
  qed
qed


section \<open>Rehydrate, reset and publication\<close>

lemma tidy_keeps: "keepsWritten contents root a b \<Longrightarrow> tidy ids x a \<Longrightarrow> tidy ids x b"
  by (auto simp: keepsWritten_def tidy_def Let_def)

lemma flushRehydrate_settled:
  assumes run: "flushAndRehydrateNow n env cfg eg = Some (eg', res)" and env: "evOps env = ops"
    and path: "cfRemotePath cfg = Some root" "root \<noteq> ''''"
    and live: "egHasAdapter eg" "egAccessError eg = None" "\<not> cfReaderMode cfg"
    and tidy: "tidy ids x eg" and x: "x \<in> set (queuedEntries (ssLocal eg))"
  shows "settled contents root x eg' \<and> tidy ids x eg'"
proof -
  let ?eg0 = "flushPendingBatch cfg eg"
  obtain eg1 r where fl: "doFlush env cfg ?eg0 = (eg1, r)" by force
  note after = flush_tidy [OF fl env path tidy]
  have x1: "settled contents root x eg1" by (rule after(1)) (simp add: settled_def x)
  have t1: "tidy ids x eg1" by (rule after(2)) (simp add: settled_def x)
  have peek: "storePeekOutbox (ssLocal ?eg0) = queuedEntries (ssLocal eg)" by (simp add: peek_promote)
  have gone: "published contents root x (ssRemote eg1) \<or> quarantined x (ssLocal eg1)" if "r = Inr k" for k
    using doFlush_settles [OF fl env path, of x] live tidy x peek that by (simp add: tidy_def Let_def)
  show ?thesis
  proof (cases r)
    case (Inl e)
    then have "eg' = eg1" using run fl by (simp add: flushAndRehydrateNow_def)
    with x1 t1 show ?thesis by simp
  next
    case (Inr k)
    then have "rehydrateNow n env cfg (preservedRetentionMeta eg1) eg1 = Some (eg', res)" using run fl by (simp add: flushAndRehydrateNow_def)
    note keep = rehydrateNow_keeps [OF this env path live(3)]
    with keepsWritten_settled [OF keep gone [OF Inr]] tidy_keeps [OF keep t1] show ?thesis by (auto simp: settled_def)
  qed
qed

lemma resetExpired_settled:
  assumes run: "resetExpiredClientFromRemote n env cfg eg = Some (eg', res)" and env: "evOps env = ops"
    and path: "cfRemotePath cfg = Some root" "root \<noteq> ''''" and writer: "\<not> cfReaderMode cfg"
    and tidy: "tidy ids x eg" and x: "quarantined x (ssLocal eg)"
  shows "settled contents root x eg' \<and> tidy ids x eg'"
proof -
  let ?eg0 = "eg\<lparr>ssLocal := setPreserved (preservedRetentionMeta eg) (storeClearAll (ssLocal eg)), ssTables := [], ssKnownTables := []\<rparr>"
  have "queuedEntries (setPreserved p s) = queuedEntries s" for p s by (induction p s rule: setPreserved.induct) auto
  moreover have "queuedEntries newMemoryStore = []"
    by (simp add: queuedEntries_def newMemoryStore_def storePeekOutbox_def storePeekPendingBatch_def optList_def)
  ultimately have base: "keepsWritten contents root eg ?eg0" by (simp add: keepsWritten_def meta_preserved)
  have "keepsWritten contents root eg eg'"
    using run keepsWritten_trans [OF base calm_keeps [OF pullNow_calm [OF _ env path writer]]] rehydrateNow_keeps [OF _ env path writer]
    by (auto simp: resetExpiredClientFromRemote_def Let_def split: if_splits)
  with keepsWritten_settled [OF this] tidy_keeps [OF this tidy] x show ?thesis by (simp add: settled_def)
qed


lemma autoCompact_same [simp]:
  "ssLocal (maybeAutoCompact cfg roll n eg) = ssLocal eg" "ssRemote (maybeAutoCompact cfg roll n eg) = ssRemote eg"
  by (simp_all add: maybeAutoCompact_def split: option.split)

lemma sessionStarted_calm: "calm contents root eg (sessionStarted env cfg eg)"
  by (simp add: calm_def sessionStarted_def Let_def markSuccessfulRemoteSync_def storeCalm_known startRemoteInvalidations_def
      stopRemoteInvalidations_def clearRemoteAccessPause_def startPolling_def stopPolling_def split: option.split)

lemma stageFailed_same: "stageFailed s e eg = (eg', res) \<Longrightarrow> ssLocal eg' = ssLocal eg \<and> ssRemote eg' = ssRemote eg"
  by (auto simp: stageFailed_def)

lemma stageFailed_settled: "stageFailed s e eg = (eg', res) \<Longrightarrow> settled contents root x eg' = settled contents root x eg"
  by (rule settled_same) (simp_all add: stageFailed_same)

lemma stage_settled:
  assumes "stage s op k eg = Some (eg', res)"
    and "\<And>b e. op eg = Some (b, Inl e) \<Longrightarrow> settled contents root x b"
    and "\<And>b v. op eg = Some (b, Inr v) \<Longrightarrow> k v b = Some (eg', res) \<Longrightarrow> settled contents root x eg'"
  shows "settled contents root x eg'"
proof -
  obtain b r where op: "op eg = Some (b, r)" using assms(1) by (auto simp: stage_def split: option.splits)
  show ?thesis
  proof (cases r)
    case (Inl e)
    then have "stageFailed s e b = (eg', res)" using assms(1) op by (simp add: stage_def)
    from stageFailed_settled [OF this] assms(2) op Inl show ?thesis by blast
  next
    case (Inr v)
    with assms(1,3) op show ?thesis by (simp add: stage_def)
  qed
qed

lemma publishQueued_settled:
  assumes run: "publishQueued env cfg roll republish flushed eg = Some (eg', res)" and env: "evOps env = ops"
    and path: "cfRemotePath cfg = Some root" "root \<noteq> ''''"
    and tidy: "tidy ids x eg" and x: "ceId x \<in> ids" "settled contents root x eg" and fresh: "freshIds env ids"
  shows "settled contents root x eg'"
proof -
  let ?eg1 = "if republish then rebuildOutboxFromLocalState cfg (evRefresh env) (evNow env) eg else eg"
  have "tidy ids x eg \<Longrightarrow> tidy UNIV x eg" by (auto simp: tidy_def Let_def)
  then have t1: "tidy UNIV x ?eg1" using tidy rebuild_tidy [OF tidy x(1) fresh] by simp
  have x1: "settled contents root x ?eg1" using x(2) by (simp add: settled_rebuild)
  have session: "settled contents root x (sessionStarted env cfg b)" if "settled contents root x b" for b
    by (rule settled_calm [OF sessionStarted_calm that])
  obtain eg2 r where fl: "doFlush env cfg (flushPendingBatch cfg ?eg1) = (eg2, r)" by force
  have x2: "settled contents root x eg2" by (rule flush_tidy(1) [OF fl env path t1 x1])
  show ?thesis
  proof (cases "\<not> flushed \<or> republish")
    case False
    then have "eg' = sessionStarted env cfg eg" using run by (auto simp: publishQueued_def)
    then show ?thesis using session x(2) by simp
  next
    case True
    then have st: "stage ''flush'' (\<lambda>eg2. Some (flushQueued env cfg roll True eg2)) (\<lambda>_ eg2. Some (sessionStarted env cfg eg2, Inr ())) ?eg1
        = Some (eg', res)" using run by (auto simp: publishQueued_def Let_def)
    show ?thesis
    proof (cases r)
      case (Inl e)
      then have "stageFailed ''flush'' e eg2 = (eg', res)" using st fl by (simp add: stage_def flushQueued_def)
      from stageFailed_settled [OF this] x2 show ?thesis by blast
    next
      case (Inr k)
      then have "eg' = sessionStarted env cfg (maybeAutoCompact cfg roll k eg2)" using st fl by (simp add: stage_def flushQueued_def)
      moreover have "settled contents root x (maybeAutoCompact cfg roll k eg2)"
        using x2 settled_same [OF autoCompact_same, of contents root x] by blast
      ultimately show ?thesis using session by simp
    qed
  qed
qed


section \<open>The stages\<close>

lemma synchronize_settled:
  assumes run: "synchronize n env cfg expired k eg = Some (eg', res)" and env: "evOps env = ops"
    and path: "cfRemotePath cfg = Some root" "root \<noteq> ''''" and live: "egHasAdapter eg" "egAccessError eg = None" "\<not> cfReaderMode cfg"
    and tidy: "tidy ids x eg" and x: "if expired then quarantined x (ssLocal eg) else x \<in> set (queuedEntries (ssLocal eg))"
    and k: "\<And>f a b r. k f a = Some (b, r) \<Longrightarrow> settled contents root x a \<Longrightarrow> tidy ids x a \<Longrightarrow> settled contents root x b"
  shows "settled contents root x eg'"
proof -
  define eg1 where "eg1 = emit (ConnectState (case localEpoch eg of Num e \<Rightarrow> Some e | NaN \<Rightarrow> None)
    (Some (case egManifest eg of None \<Rightarrow> 0 | Some m \<Rightarrow> mfEpoch m)) (Some (activeMeshId eg)) (egEncrypted eg)) eg"
  have same: "ssLocal eg1 = ssLocal eg" "ssRemote eg1 = ssRemote eg" "egHasAdapter eg1" "egAccessError eg1 = None"
    using live by (simp_all add: eg1_def)
  have t1: "tidy ids x eg1" using tidy tidy_same [OF same(1)] by blast
  have step: "settled contents root x eg'"
    if st: "stage nm op (\<lambda>_. k f) eg1 = Some (eg', res)"
      and op: "\<And>b r. op eg1 = Some (b, r) \<Longrightarrow> settled contents root x b \<and> tidy ids x b"
    for nm f and op :: "'r engine \<Rightarrow> ('r engine \<times> unit result) option"
    by (rule stage_settled [OF st]) (use op k in blast)+
  have pulled: "settled contents root x b \<and> tidy ids x b" if "pullNow n env cfg eg1 = Some (b, r)" "x \<in> set (queuedEntries (ssLocal eg))" for b r
  proof -
    have c: "calm contents root eg1 b" by (rule pullNow_calm [OF that(1) env path live(3)])
    have "settled contents root x eg1" using that(2) by (simp add: settled_def same)
    with settled_calm [OF c] tidy_calm [OF c] t1 show ?thesis by blast
  qed
  show ?thesis
  proof (cases expired)
    case True
    then have q: "quarantined x (ssLocal eg1)" using x same by simp
    show ?thesis
      by (rule step [of "''expired-client-rehydrate''" "resetExpiredClientFromRemote n env cfg" True])
        (use run True resetExpired_settled [OF _ env path live(3) t1 q] in \<open>simp_all add: synchronize_def Let_def eg1_def\<close>)
  next
    case False
    then have q: "x \<in> set (queuedEntries (ssLocal eg1))" "x \<in> set (queuedEntries (ssLocal eg))" using x same by simp_all
    show ?thesis
    proof (cases "jgt (Num (case egManifest eg of None \<Rightarrow> 0 | Some m \<Rightarrow> mfEpoch m)) (localEpoch eg1)")
      case True
      show ?thesis
        by (rule step [of "''flush-and-rehydrate''" "flushAndRehydrateNow n env cfg" True])
          (use run \<open>\<not> expired\<close> True flushRehydrate_settled [OF _ env path same(3,4) live(3) t1 q(1)] in \<open>simp_all add: synchronize_def Let_def eg1_def\<close>)
    next
      case F: False
      show ?thesis
        by (rule step [of "''pull''" "pullNow n env cfg" False])
          (use run \<open>\<not> expired\<close> F pulled q(2) in \<open>simp_all add: synchronize_def Let_def eg1_def\<close>)
    qed
  qed
qed


lemma ready_settled: "ready ids x eg \<Longrightarrow> settled contents root x eg"
  by (simp add: ready_def settled_def)

lemma ready_calm:
  assumes "calm contents root a b" "egHasAdapter b = egHasAdapter a" "egAccessError b = egAccessError a" "ready ids x a"
  shows "ready ids x b"
proof -
  have "queuedEntries (ssLocal b) = queuedEntries (ssLocal a)" using assms(1) by (simp add: calm_def storeCalm_def queuedEntries_def)
  with assms show ?thesis by (simp add: ready_def tidy_calm [OF assms(1)])
qed

lemma connectJoined_settled:
  assumes run: "connectJoined n env cfg roll root bootstrapped refill eg = Some (eg', res)" and env: "evOps env = ops"
    and path: "cfRemotePath cfg = Some root" "root \<noteq> ''''" and writer: "\<not> cfReaderMode cfg"
    and ready: "ready ids x eg" and ids: "ceId x \<in> ids" "freshIds env ids"
  shows "settled contents root x eg'"
proof (cases "evPersistCredentials env (Some (activeMeshId eg))")
  case (Inl e)
  then show ?thesis using run ready_settled [OF ready] by (simp add: connectJoined_def)
next
  case (Inr u)
  note start = this
  obtain eg1 q where qu: "quarantineExpiredOfflineWrites env cfg eg = (eg1, q)" by force
  have t: "tidy ids x eg" and x: "x \<in> set (queuedEntries (ssLocal eg))" using ready by (simp_all add: ready_def)
  note step = quarantine_step [OF qu] and empty = quarantine_queue [OF qu]
  have t1: "tidy ids x eg1" using t empty by (auto simp: tidy_def Let_def)
  have live: "egHasAdapter eg1" "egAccessError eg1 = None" using live_quarantine [OF qu] ready by (simp_all add: ready_def)
  have d: "distinct (map ceId (queuedEntries (ssLocal eg)))" using t by (simp add: tidy_def Let_def)
  have x1: "if q = Inr None then x \<in> set (queuedEntries (ssLocal eg1)) else settled contents root x eg1 \<and> (\<forall>qs. q = Inr (Some qs) \<longrightarrow> quarantined x (ssLocal eg1))"
    using step(2) [OF d] x by (cases q) (auto simp: settled_def split: option.splits)
  show ?thesis
  proof (cases q)
    case (Inl e)
    then show ?thesis using run start qu x1 by (simp add: connectJoined_def)
  next
    case (Inr quarantine)
    let ?up = "upsertDeviceMetadata (evIso env (evNow env)) ops root (cfDeviceId cfg)
      \<lparr>uoDisplayName = cfDeviceName cfg, uoDeviceType = cfDeviceType cfg, uoObservedManifestGeneration = None,
       uoObservedEpoch = None, uoObservedWatermarkHlc = None, uoBootstrap = bootstrapped, uoSkipTouchIfUnchanged = \<not> bootstrapped\<rparr>"
    let ?k = "\<lambda>flushed eg2. publishQueued env cfg roll
      (\<not> egAwaitingRefill eg2 \<and> (bootstrapped \<or> (refill \<and> quarantine = None))) flushed eg2"
    have st: "stage ''upsertDeviceMetadata'' (onRemote ?up) (\<lambda>_. synchronize n env cfg (quarantine \<noteq> None) ?k) eg1 = Some (eg', res)"
      using run start qu Inr by (simp add: connectJoined_def Let_def env)
    have up: "calm contents root eg1 b" "egHasAdapter b" "egAccessError b = None" "ssLocal b = ssLocal eg1" if op: "onRemote ?up eg1 = Some (b, r)" for b r
    proof -
      obtain r1 where u: "?up (ssRemote eg1) = (r1, r)" and b: "b = eg1\<lparr>ssRemote := r1\<rparr>" using op by (auto simp: onRemote_def split: prod.splits)
      have "contents r1 (changeFile root m) = contents (ssRemote eg1) (changeFile root m)" for m
        by (rule upsert_other [OF u paths_change(3) [symmetric]])
      with b live show "calm contents root eg1 b" "egHasAdapter b" "egAccessError b = None" "ssLocal b = ssLocal eg1" by (simp_all add: calm_def)
    qed
    have set1: "settled contents root x eg1" using x1 Inr by (auto simp: settled_def split: if_splits)
    show ?thesis
    proof (rule stage_settled [OF st])
      fix b e assume "onRemote ?up eg1 = Some (b, Inl e)"
      from settled_calm [OF up(1) [OF this] set1] show "settled contents root x b" .
    next
      fix b v assume op: "onRemote ?up eg1 = Some (b, Inr v)" and run: "synchronize n env cfg (quarantine \<noteq> None) ?k b = Some (eg', res)"
      have "if quarantine \<noteq> None then quarantined x (ssLocal b) else x \<in> set (queuedEntries (ssLocal b))"
        using x1 Inr up(4) [OF op] by (auto split: if_splits)
      from synchronize_settled [OF run env path up(2,3) [OF op] writer _ this] show "settled contents root x eg'"
        using t1 tidy_calm [OF up(1) [OF op]] publishQueued_settled [OF _ env path _ ids(1) _ ids(2)] by blast
    qed
  qed
qed


text \<open>What a load of the manifest leaves alone, and the mesh it names when the remote holds one.\<close>

lemma doLoad_live:
  assumes "doLoadOrCreateManifest env cfg reason force opts persist eg = (eg', res)"
  shows "egHasAdapter eg' = egHasAdapter eg" "egAccessError eg' = egAccessError eg"
  using assms
  by (auto simp: doLoadOrCreateManifest_def poisonRemote_def haltPolling_def stopPolling_def clearScheduledFlush_def Let_def
      split: option.splits sum.splits prod.splits if_splits)

lemma doLoad_member:
  assumes run: "doLoadOrCreateManifest env cfg reason True opts persist eg = (eg', res)" and env: "evOps env = ops"
    and path: "cfRemotePath cfg = Some root" "root \<noteq> ''''" and opts: "\<not> loAssertLocalMeshId opts" and member: "memberOf contents root eg"
  shows "memberOf contents root eg'" "\<And>b. res = Inr b \<Longrightarrow> \<not> b \<and> storeGetMeta (ssLocal eg') ''meshId'' = JStr (activeMeshId eg')"
proof -
  obtain pt m where pt: "contents (ssRemote eg) (manifestPointer root) = Some (JsonText (DPointer pt))"
    and m: "contents (ssRemote eg) (root @ ''/'' @ ptFile pt) = Some (JsonText (DManifest m))"
    and bound: "storeGetMeta (ssLocal eg) ''meshId'' = JStr (mfMeshId m)"
    using member by (auto simp: memberOf_def)
  have req: "requireRemotePath cfg op = Inr root" for op using path by (simp add: requireRemotePath_def)
  show "memberOf contents root eg'" "\<And>b. res = Inr b \<Longrightarrow> \<not> b \<and> storeGetMeta (ssLocal eg') ''meshId'' = JStr (activeMeshId eg')"
  proof (atomize (full), cases "manifestContext cfg eg")
    case (Inl e)
    then show "memberOf contents root eg' \<and> (\<forall>b. res = Inr b \<longrightarrow> \<not> b \<and> storeGetMeta (ssLocal eg') ''meshId'' = JStr (activeMeshId eg'))"
      using run member by (auto simp: doLoadOrCreateManifest_def)
  next
    case (Inr ctx)
    then have root: "cxRemotePath ctx = root" using req by (auto simp: manifestContext_def bind_result_Inr_iff)
    have "readPointer ops ctx opts (ssRemote eg) = Inr (Some pt)"
      by (simp add: readPointer_def root readJson_def reads [OF pt] jsonParse_def readJsonIfExists_def)
    then have fetch: "fetchManifest (evSha env) (evFresh env) (evIso env (evNow env)) ops ctx opts (ssLocal eg) (ssRemote eg)
        = (ssRemote eg, Inr (pt, Some m, False))"
      by (simp add: fetchManifest_def root readJson_def reads [OF m, simplified] jsonParse_def)
    let ?load = "loadManifestFrom (evSha env) (evFresh env) (evIso env (evNow env)) ops ctx (codecStateOf eg) opts (ssLocal eg) (ssRemote eg)"
    have "(\<exists>e. ?load = ((ssLocal eg, ssRemote eg), Inl (None, e))) \<or> (\<exists>m1. ?load = ((ssLocal eg, ssRemote eg), Inr (m1, False)) \<and> mfMeshId m1 = mfMeshId m)"
      using opts by (cases "validateManifestHash (evSha env) m"; cases "resolveRetentionPolicy (mfRetention m)")
        (auto simp: loadManifestFrom_def fetch resolveManifest_def split: sum.splits)
    then show "memberOf contents root eg' \<and> (\<forall>b. res = Inr b \<longrightarrow> \<not> b \<and> storeGetMeta (ssLocal eg') ''meshId'' = JStr (activeMeshId eg'))"
      using run Inr bound pt m by (auto simp: doLoadOrCreateManifest_def env memberOf_def activeMeshId_def)
  qed
qed

text \<open>The policies: a writer that is bound to the mesh or merges keeps its queue.\<close>

lemma join_calm:
  assumes "cfMergeOnJoin cfg \<or> bootstrapped \<or> storeGetMeta (ssLocal eg) ''meshId'' = JStr (activeMeshId eg)"
  shows "calm contents root eg (applyJoinExistingMeshPolicy cfg bootstrapped eg)"
    "egHasAdapter (applyJoinExistingMeshPolicy cfg bootstrapped eg) = egHasAdapter eg"
    "egAccessError (applyJoinExistingMeshPolicy cfg bootstrapped eg) = egAccessError eg"
  using assms by (auto simp: applyJoinExistingMeshPolicy_def Let_def calm_def storeCalm_known rememberedMeshIdentity_def)

lemma evict_calm:
  assumes "applyMeshEvictionPolicy cfg bootstrapped memory eg = (eg', refill)"
  shows "calm contents root eg eg'" "egHasAdapter eg' = egHasAdapter eg" "egAccessError eg' = egAccessError eg"
  using assms by (auto simp: applyMeshEvictionPolicy_def Let_def calm_def storeCalm_known split: if_splits)

lemma parity_same:
  assumes "credentialMeshParity env eg = (eg', res)"
  shows "ssLocal eg' = ssLocal eg" "ssRemote eg' = ssRemote eg" "egHasAdapter eg' = egHasAdapter eg" "egAccessError eg' = egAccessError eg"
    "egManifest eg' = egManifest eg"
  using assms by (auto simp: credentialMeshParity_def Let_def split: if_splits sum.splits option.splits)


lemma member_same:
  "contents (ssRemote b) = contents (ssRemote a) \<Longrightarrow> ssLocal b = ssLocal a \<Longrightarrow> memberOf contents root b = memberOf contents root a"
  by (simp add: memberOf_def)

text \<open>The invariant of the stages before the session: the entry can still be flushed, and nothing will erase it.\<close>

lemma ensureFolders_settled:
  assumes run: "ensureFolders env fs k eg = Some (eg', res)" and env: "evOps env = ops"
    and ready: "ready ids x eg" "merges \<or> memberOf contents root eg"
    and k: "\<And>a b r. k a = Some (b, r) \<Longrightarrow> ready ids x a \<Longrightarrow> merges \<or> memberOf contents root a \<Longrightarrow> settled contents root x b"
  shows "settled contents root x eg'"
  using run ready
proof (induction fs arbitrary: eg)
  case Nil
  then show ?case using k by simp
next
  case (Cons f fs)
  have same: "contents (ssRemote b) = contents (ssRemote eg)" "ssLocal b = ssLocal eg" "egHasAdapter b = egHasAdapter eg" "egAccessError b = egAccessError eg"
    if "onRemote (opEnsureFolder ops f) eg = Some (b, r)" for b r
    using that ensure_any by (fastforce simp: onRemote_def split: prod.splits)+
  have ready: "ready ids x b" if "onRemote (opEnsureFolder ops f) eg = Some (b, r)" for b r
  proof (rule ready_calm [OF _ same(3,4) [OF that] Cons.prems(2)])
    show "calm contents root eg b" using same [OF that] by (simp add: calm_def)
  qed
  show ?case
  proof (rule stage_settled)
    show "stage ''ensureFolder'' (onRemote (opEnsureFolder ops f)) (\<lambda>_. ensureFolders env fs k) eg = Some (eg', res)"
      using Cons.prems(1) env by simp
    show "settled contents root x b" if "onRemote (opEnsureFolder ops f) eg = Some (b, Inl e)" for b e
      by (rule ready_settled [OF ready [OF that]])
    show "settled contents root x eg'" if "onRemote (opEnsureFolder ops f) eg = Some (b, Inr v)" "ensureFolders env fs k b = Some (eg', res)" for b v
      using Cons.IH [OF that(2) ready [OF that(1)]] Cons.prems(3) member_same [OF same(1,2) [OF that(1)]] by blast
  qed
qed

lemma connectWriter_settled:
  assumes run: "connectWriter n env cfg roll eg = Some (eg', res)" and env: "evOps env = ops"
    and path: "cfRemotePath cfg = Some root" "root \<noteq> ''''" and writer: "\<not> cfReaderMode cfg"
    and ready: "ready ids x eg" "cfMergeOnJoin cfg \<or> memberOf contents root eg" and ids: "ceId x \<in> ids" "freshIds env ids"
  shows "settled contents root x eg'"
proof -
  have req: "requireRemotePath cfg op = Inr root" for op using path by (simp add: requireRemotePath_def)
  let ?load = "\<lambda>eg2. doLoadOrCreateManifest env cfg ''connect'' True \<lparr>loAssertLocalMeshId = False, loCreateIfMissing = True\<rparr> True eg2"
  let ?joined = "\<lambda>memory bootstrapped eg3. case applyMeshEvictionPolicy cfg bootstrapped memory (applyJoinExistingMeshPolicy cfg bootstrapped eg3) of
    (eg4, refill) \<Rightarrow> connectJoined n env cfg roll root bootstrapped refill eg4"
  let ?k = "\<lambda>eg1. let memory = rememberedMeshIdentity eg1 in stage ''loadOrCreateManifest'' (\<lambda>eg2. Some (?load eg2))
    (\<lambda>bootstrapped. stage ''credentialMeshParity'' (\<lambda>eg3. Some (credentialMeshParity env eg3)) (\<lambda>_. ?joined memory bootstrapped)) eg1"
  have fold: "ensureFolders env [root, root @ ''/devices'', mainlineFolder root, changesFolder root] ?k eg = Some (eg', res)"
    using run by (simp add: connectWriter_def req)
  show ?thesis
  proof (rule ensureFolders_settled [OF fold env ready])
    fix a b r assume k: "?k a = Some (b, r)" and ra: "ready ids x a" and ma: "cfMergeOnJoin cfg \<or> memberOf contents root a"
    define memory where "memory = rememberedMeshIdentity a"
    obtain c l where load: "?load a = (c, l)" by force
    have rc: "ready ids x c" by (rule ready_calm [OF doLoad_calm [OF load env req] doLoad_live [OF load] ra])
    obtain d p where par: "credentialMeshParity env c = (d, p)" by force
    note same = parity_same [OF par]
    have rd: "ready ids x d" by (rule ready_calm [OF calm_same [OF same(1,2)] same(3,4) rc])
    show "settled contents root x b"
    proof (rule stage_settled)
      show "stage ''loadOrCreateManifest'' (\<lambda>eg2. Some (?load eg2))
          (\<lambda>bootstrapped. stage ''credentialMeshParity'' (\<lambda>eg3. Some (credentialMeshParity env eg3)) (\<lambda>_. ?joined memory bootstrapped)) a = Some (b, r)"
        using k by (simp add: Let_def memory_def)
      show "settled contents root x c'" if "Some (?load a) = Some (c', Inl e)" for c' e
        using that load ready_settled [OF rc] by simp
    next
      fix c' boot assume "Some (?load a) = Some (c', Inr boot)"
        and st: "stage ''credentialMeshParity'' (\<lambda>eg3. Some (credentialMeshParity env eg3)) (\<lambda>_. ?joined memory boot) c' = Some (b, r)"
      then have c': "c' = c" and l: "l = Inr boot" using load by auto
      have bound: "cfMergeOnJoin cfg \<or> boot \<or> storeGetMeta (ssLocal d) ''meshId'' = JStr (activeMeshId d)"
        using ma doLoad_member(2) [OF load env path _ _ l] same by (auto simp: activeMeshId_def)
      note join = join_calm [OF bound]
      obtain g refill where ev: "applyMeshEvictionPolicy cfg boot memory (applyJoinExistingMeshPolicy cfg boot d) = (g, refill)" by force
      have rg: "ready ids x g"
        by (rule ready_calm [OF evict_calm [OF ev] ready_calm [OF join rd]])
      show "settled contents root x b"
      proof (rule stage_settled [OF st])
        show "settled contents root x d'" if "Some (credentialMeshParity env c') = Some (d', Inl e)" for d' e
          using that par c' ready_settled [OF rd] by simp
        show "settled contents root x b" if "Some (credentialMeshParity env c') = Some (d', Inr v)" "?joined memory boot d' = Some (b, r)" for d' v
          using that par c' ev connectJoined_settled [OF _ env path writer rg ids] by auto
      qed
    qed
  qed
qed


lemma fastPath_settled:
  assumes run: "tryConnectFastPath env cfg eg = (eg', res)" and env: "evOps env = ops"
    and path: "cfRemotePath cfg = Some root" "root \<noteq> ''''" and ready: "ready ids x eg" "merges \<or> memberOf contents root eg"
  shows "settled contents root x eg'" "res = Inr False \<Longrightarrow> ready ids x eg' \<and> (merges \<or> memberOf contents root eg')"
proof -
  have req: "requireRemotePath cfg op = Inr root" for op using path by (simp add: requireRemotePath_def)
  obtain a l where load: "doLoadOrCreateManifest env cfg ''connect-fast-path-identity'' True
      \<lparr>loAssertLocalMeshId = False, loCreateIfMissing = False\<rparr> False eg = (a, l)" by force
  have ra: "ready ids x a" by (rule ready_calm [OF doLoad_calm [OF load env req] doLoad_live [OF load] ready(1)])
  have ma: "merges \<or> memberOf contents root a" using ready(2) doLoad_member(1) [OF load env path] by auto
  obtain b p where par: "credentialMeshParity env a = (b, p)" by force
  note same = parity_same [OF par]
  have rb: "ready ids x b" by (rule ready_calm [OF calm_same [OF same(1,2)] same(3,4) ra])
  have mb: "merges \<or> memberOf contents root b" using ma member_same [of b a] same by auto
  have ev: "settled contents root x (sessionStarted env cfg (fastPathEvents env root b))"
    by (rule settled_calm [OF calm_trans [OF calm_same sessionStarted_calm] ready_settled [OF rb]]) (simp_all add: fastPathEvents_def Let_def)
  have head: "ready ids x (emit e b) \<and> (merges \<or> memberOf contents root (emit e b))" for e
    using rb mb member_same [of "emit e b" b] by (simp add: ready_def tidy_def)
  have cases: "res = Inr True \<and> eg' = sessionStarted env cfg (fastPathEvents env root b) \<or>
      res \<noteq> Inr True \<and> (eg' \<in> {eg, a, b} \<or> (\<exists>e. eg' = emit e b))"
    using run
    by (auto simp: tryConnectFastPath_def load par req env split: option.splits sum.splits if_splits bool.splits)
  then show "settled contents root x eg'"
    using ev head ready(1) ra rb ready_settled by fastforce
  show "ready ids x eg' \<and> (merges \<or> memberOf contents root eg')" if "res = Inr False"
    using cases that head ready ra rb ma mb by auto
qed

lemma authenticated_ready:
  assumes auth: "\<And>r r1 y. evAuthenticate env r = (r1, y) \<Longrightarrow> contents r1 = contents r"
    and run: "authenticated env k eg = Some (eg', res)" and ready: "ready ids x eg" "merges \<or> memberOf contents root eg"
    and k: "\<And>a b r. k a = Some (b, r) \<Longrightarrow> ready ids x a \<Longrightarrow> merges \<or> memberOf contents root a \<Longrightarrow> settled contents root x b"
  shows "settled contents root x eg'"
proof (cases "evIsAuthenticated env (ssRemote eg)")
  case True
  with run k ready show ?thesis by (simp add: authenticated_def)
next
  case False
  have step: "ready ids x (emit e b) \<and> (merges \<or> memberOf contents root (emit e b)) \<and> ready ids x b"
    if "onRemote (evAuthenticate env) (emit AuthRequired eg) = Some (b, y)" for b y e
    using that ready auth by (auto simp: onRemote_def ready_def tidy_def memberOf_def split: prod.splits)
  show ?thesis
  proof (rule stage_settled)
    show "stage ''authenticate'' (onRemote (evAuthenticate env)) (\<lambda>_ eg1. k (emit AuthComplete eg1)) (emit AuthRequired eg) = Some (eg', res)"
      using run False by (simp add: authenticated_def)
  qed (use step k ready_settled in blast)+
qed

lemma connect_settled:
  assumes run: "connect n env cfg roll eg = Some (eg', res)" and env: "evOps env = ops"
    and path: "cfRemotePath cfg = Some root" "root \<noteq> ''''" and writer: "\<not> cfReaderMode cfg"
    and auth: "\<And>r r1 y. evAuthenticate env r = (r1, y) \<Longrightarrow> contents r1 = contents r"
    and ready: "ready ids x eg" "cfMergeOnJoin cfg \<or> memberOf contents root eg" and ids: "ceId x \<in> ids" "freshIds env ids"
  shows "settled contents root x eg'"
proof -
  have done1: "settled contents root x b" if "doConnect n env cfg roll a = Some (b, r)" "ready ids x a" "cfMergeOnJoin cfg \<or> memberOf contents root a" for a b r
  proof (cases "requireAdapter ''connect()'' a")
    case (Inl e)
    then show ?thesis using that(1) ready_settled [OF that(2)] by (simp add: doConnect_def)
  next
    case (Inr u)
    then have k: "authenticated env (\<lambda>eg1. case tryConnectFastPath env cfg eg1 of
        (eg2, Inl e) \<Rightarrow> Some (eg2, Inl e) | (eg2, Inr True) \<Rightarrow> Some (eg2, Inr ())
      | (eg2, Inr False) \<Rightarrow> connectWriter n env cfg roll eg2) a = Some (b, r)"
      using that(1) writer by (simp add: doConnect_def)
    show ?thesis
    proof (rule authenticated_ready [OF auth k that(2,3)])
      fix c d y assume st: "(case tryConnectFastPath env cfg c of
          (eg2, Inl e) \<Rightarrow> Some (eg2, Inl e) | (eg2, Inr True) \<Rightarrow> Some (eg2, Inr ())
        | (eg2, Inr False) \<Rightarrow> connectWriter n env cfg roll eg2) = Some (d, y)"
        and rc: "ready ids x c" "cfMergeOnJoin cfg \<or> memberOf contents root c"
      obtain c1 f where fp: "tryConnectFastPath env cfg c = (c1, f)" by force
      show "settled contents root x d"
        using st fp fastPath_settled [OF fp env path rc] connectWriter_settled [OF _ env path writer _ _ ids]
        by (cases f) (auto split: bool.splits)
    qed
  qed

  define unchanged where "unchanged a \<longleftrightarrow> ssLocal a = ssLocal eg \<and> ssRemote a = ssRemote eg \<and> egHasAdapter a = egHasAdapter eg
    \<and> egAccessError a = egAccessError eg" for a :: "'r engine"
  have same: "settled contents root x a" "ready ids x a" "cfMergeOnJoin cfg \<or> memberOf contents root a" if "unchanged a" for a
    using that ready ready_settled [OF ready(1)] by (auto simp: unchanged_def settled_def ready_def tidy_def memberOf_def)
  have done2: "settled contents root x (b\<lparr>ssConnecting := False\<rparr>)" if "doConnect n env cfg roll a = Some (b, r)" "unchanged a" for a b r
    using done1 [OF that(1) same(2,3) [OF that(2)]] by (simp add: settled_def)

  show ?thesis
  proof (cases "if egEncrypted eg \<and> egEncryptionKey eg = None then evResolveEncryption env else Inr (egEncrypted eg, egEncryptionKey eg)")
    case (Inl e)
    then have "unchanged eg'" using run by (auto simp: connect_def Let_def unchanged_def split: if_splits)
    then show ?thesis by (rule same(1))
  next
    case (Inr v)
    obtain enc key where v: "v = (enc, key)" by force
    define a where "a = setConnectionStatus Connecting (eg\<lparr>ssPollingHalted := False, egEncrypted := enc, egEncryptionKey := key\<rparr>)"
    have ua: "unchanged (a\<lparr>ssConnecting := True\<rparr>)" by (simp add: a_def unchanged_def setConnectionStatus_def)
    consider "unchanged eg'" | b where "doConnect n env cfg roll (a\<lparr>ssConnecting := True\<rparr>) = Some (b, res)" "eg' = b\<lparr>ssConnecting := False\<rparr>"
      using run Inr by (auto simp: connect_def Let_def v a_def [symmetric] split: if_splits) (auto simp: a_def unchanged_def setConnectionStatus_def)
    then show ?thesis using same(1) done2 ua by cases blast+
  qed
qed

end

section \<open>Property\<close>

text \<open>C3: A connect that does not replace the local state loses no queued write. Take a writer whose access to the remote
  is not paused, on an adapter that can read the files it holds (writes, deletes and lists may fail at any point), that is
  bound to the mesh on the remote already or is configured to merge when it joins one, with queued entries
  whose ids are distinct, well formed and never drawn again. Then, wherever the connect ends, every entry that was queued is
  still queued, is in its change file on the remote, or is in the quarantine: for a first connect that creates the mesh,
  a reconnect, an epoch that advanced, an expired device and the refill of an evicted mesh. The default policy for
  joining a mesh, reset to remote, is excluded: it clears the local store with its queue, as it is documented to.\<close>

theorem connect_keeps_writes:
  assumes "cloud_adapter (evOps env) contents okFolder" "\<And>r r1 y. evAuthenticate env r = (r1, y) \<Longrightarrow> contents r1 = contents r"
    and "cfRemotePath cfg = Some root" "root \<noteq> ''''" "\<not> cfReaderMode cfg" "egHasAdapter eg" "egAccessError eg = None"
    and "cfMergeOnJoin cfg \<or> memberOf contents root eg"
    and "distinct (map ceId (queuedEntries (ssLocal eg)))" "freshIds env (ceId ` set (queuedEntries (ssLocal eg)))"
    and "connect n env cfg roll eg = Some (eg', res)"
  shows "\<forall>x \<in> set (queuedEntries (ssLocal eg)). x \<in> set (queuedEntries (ssLocal eg'))
    \<or> published contents root x (ssRemote eg') \<or> quarantined x (ssLocal eg')"
proof
  fix x assume x: "x \<in> set (queuedEntries (ssLocal eg))"
  let ?q = "queuedEntries (ssLocal eg)"
  have ok: "\<forall>y \<in> set ?q. changeIdOk (ceId y)" using assms(10) by (simp add: freshIds_def)
  have "y = x" if y: "y \<in> set ?q" and same: "ceId y = ceId x \<or> entryName y = entryName x" for y
  proof -
    have "ceId y = ceId x" using same ok y x changeFileName_inject by (auto simp: entryName_def)
    with y x assms(9) show ?thesis by (auto simp: distinct_map dest: inj_onD)
  qed
  then have "ready (ceId ` set ?q) x eg"
    using x assms(6,7,9) distinct_names [OF assms(9) ok] by (auto simp: ready_def tidy_def Let_def)
  from cloud_adapter.connect_settled [OF assms(1,11) refl assms(3-5,2) this assms(8) _ assms(10)] x
  show "x \<in> set (queuedEntries (ssLocal eg')) \<or> published contents root x (ssRemote eg') \<or> quarantined x (ssLocal eg')"
    by (simp add: settled_def)
qed

end
