(* ===== verification/Engine_Properties.thy ===== *)
theory Engine_Properties
  imports Engine_Safety
begin

text \<open>
  Runs of the engine over the in-memory adapter: the witnesses of the properties of flush and
  rehydrate, and the run in which a paused device loses a queued write.
\<close>

section \<open>The devices and remotes of the runs\<close>

definition demoEnv :: "cloud_data memory_adapter env" where
  "demoEnv = \<lparr>evOps = memoryOps ''t1'', evSha = (\<lambda>_. ''h''), evFresh = ''9'', evRefresh = (\<lambda>_. ''9''), evNow = 10,
     evIso = (\<lambda>_. ''now''), evDateParse = (\<lambda>_. Some 10), evWall = (\<lambda>_. 10),
     evDbName = ''db'', evIsAuthenticated = memIsAuthenticated, evAuthenticate = (\<lambda>r. (memAuthenticate r, Inr ())),
     evResolveEncryption = Inr (False, None), evCredentialMesh = Inr None, evPersistCredentials = (\<lambda>_. Inr ())\<rparr>"

definition demoWriter :: "cloud_data memory_adapter \<Rightarrow> cloud_data memory_adapter engine" where
  "demoWriter remote = fold (localWrite demoConfig) (take 1 demoWrites) (demoEngine remote)"

definition snapshotManifest :: manifest where
  "snapshotManifest = withHash (\<lambda>_. ''h'')
     \<lparr>mfGeneration = 2, mfParentGeneration = 1, mfWrittenBy = ''srv'', mfWrittenAt = ''t0'', mfVersion = 3, mfMeshId = ''mesh_1'',
      mfSchema = 1, mfEncrypted = Some False, mfServer = \<lparr>scManaged = False, scRelayUrl = None, scServerId = ''srv''\<rparr>,
      mfCreatedAt = ''t0'', mfEpoch = 1, mfWatermarkHlc = '''', mfSnapshotPath = Some ''/Demo/mainline/snapshot-1-srv.json'',
      mfDeltaPath = None, mfRetention = None, mfLineage = JNum (Num 1)\<rparr>"

definition emptySnapshot :: "int \<Rightarrow> snapshot" where
  "emptySnapshot epoch = \<lparr>snSnapshotId = ''snap_1'', snTimestamp = ''t0'', snHlc = '''', snEpoch = epoch, snSchemaVersion = 1,
     snCoveredChangeFiles = Some [], snTables = []\<rparr>"

definition snapshotData :: "int \<Rightarrow> cloud_data" where
  "snapshotData epoch =
     (case encodeSnapshotPayload \<lparr>csEncryptionKey = None, csEncrypted = False, csManifest = Some snapshotManifest\<rparr> (emptySnapshot epoch) of
        Inr d \<Rightarrow> d | Inl e \<Rightarrow> NoJson)"

definition snapshotRemote :: "int \<Rightarrow> cloud_data memory_adapter" where
  "snapshotRemote epoch =
     memWriteFile ''t0'' ''/Demo/mainline/snapshot-1-srv.json'' (snapshotData epoch)
       (memWriteFile ''t0'' (manifestFile ''/Demo'' 2) (JsonText (DManifest snapshotManifest))
         (memWriteFile ''t0'' (manifestPointer ''/Demo'') (JsonText (DPointer \<lparr>ptCurrentGeneration = 2, ptFile = manifestFileName 2\<rparr>))
           newMemoryAdapter))"

definition pausedEngine :: "cloud_data memory_adapter engine" where
  "pausedEngine = (demoWriter (snapshotRemote 1))\<lparr>egManifest := Some snapshotManifest,
     egAccessError := Some (RemoteAccessError 403 Forbidden None), ssConnected := False\<rparr>"

section \<open>Flush and rehydrate\<close>

lemma demoEnv_ops [simp]: "evOps demoEnv = memoryOps ''t1''"
  by (simp add: demoEnv_def)

lemma demoConfig_simps [simp]: "cfRemotePath demoConfig = Some ''/Demo''" "\<not> cfReaderMode demoConfig"
  by (simp_all add: demoConfig_def)

lemma demoWriter_queue:
  "egHasAdapter (demoWriter r)" "egAccessError (demoWriter r) = None"
  "queuedEntries (ssLocal (demoWriter r)) = storePeekOutbox (ssLocal (demoWriter r))"
  "map ceId (storePeekOutbox (ssLocal (demoWriter r))) = [''chg_1'']"
  by code_simp+

lemma demoWriter_distinct:
  "distinct (map ceId (queuedEntries (ssLocal (demoWriter r))))" "distinct (map entryName (storePeekOutbox (ssLocal (demoWriter r))))"
  "distinct (map entryName (queuedEntries (ssLocal (demoWriter r))))"
proof -
  have "length (storePeekOutbox (ssLocal (demoWriter r))) = 1" using arg_cong [OF demoWriter_queue(4), of length r] by simp
  then obtain x where "storePeekOutbox (ssLocal (demoWriter r)) = [x]" by (cases "storePeekOutbox (ssLocal (demoWriter r))") auto
  then show "distinct (map ceId (queuedEntries (ssLocal (demoWriter r))))" "distinct (map entryName (storePeekOutbox (ssLocal (demoWriter r))))"
    "distinct (map entryName (queuedEntries (ssLocal (demoWriter r))))" by (simp_all add: demoWriter_queue(3))
qed

theorem flush_settles_witness:
  "\<exists>x. storePeekOutbox (ssLocal (demoWriter newMemoryAdapter)) = [x]
    \<and> published memFile ''/Demo'' x (ssRemote (fst (doFlush demoEnv demoConfig (demoWriter newMemoryAdapter))))"
proof -
  let ?eg = "demoWriter newMemoryAdapter"
  have res: "isOk (snd (doFlush demoEnv demoConfig ?eg))"
    "quarantinedEntries (storeGetMeta (ssLocal (fst (doFlush demoEnv demoConfig ?eg))) QUARANTINED_OFFLINE_CHANGES_META) = []"
    by code_simp+
  then obtain eg' n where run: "doFlush demoEnv demoConfig ?eg = (eg', Inr n)" by (metis isOk.elims(2) prod.collapse)
  have "length (storePeekOutbox (ssLocal ?eg)) = 1" using arg_cong [OF demoWriter_queue(4), of length newMemoryAdapter] by simp
  then obtain x where x: "storePeekOutbox (ssLocal ?eg) = [x]" by (cases "storePeekOutbox (ssLocal ?eg)") auto
  have "cloud_adapter (evOps demoEnv) memFile (\<lambda>f. \<not> endsWith f ''/'')" by (simp add: memcloud.cloud_adapter_axioms)
  from flush_settles [OF this demoConfig_simps(1) _ demoWriter_queue(1,2) demoWriter_distinct(1,2) run] x res(2) run
  show ?thesis by (auto simp: quarantined_def)
qed

text \<open>A clock thirty days and a millisecond after the last sync.\<close>

definition lateEnv :: "cloud_data memory_adapter env" where
  "lateEnv = demoEnv\<lparr>evNow := 2592000001, evDateParse := (\<lambda>_. Some 0)\<rparr>"

definition lateWriter :: "cloud_data memory_adapter engine" where
  "lateWriter = (demoWriter newMemoryAdapter)\<lparr>ssLocal := storeSetMeta LAST_SUCCESSFUL_SYNC_AT_META (JStr ''then'') (ssLocal (demoWriter newMemoryAdapter))\<rparr>"

theorem expired_never_uploaded_witness:
  "\<exists>eg'. doFlush lateEnv demoConfig lateWriter = (eg', Inr 0) \<and> queuedEntries (ssLocal eg') = []
    \<and> (\<forall>x \<in> set (queuedEntries (ssLocal lateWriter)). quarantined x (ssLocal eg'))"
proof -
  let ?load = "doLoadOrCreateManifest lateEnv demoConfig ''flush-retention'' True defaultLoad True lateWriter"
  have "isOk (snd ?load)" by code_simp
  then obtain eg1 b where load: "?load = (eg1, Inr b)" by (metis isOk.elims(2) prod.collapse)
  have "(case offlineRetentionState lateEnv demoConfig (fst ?load) of Inr rs \<Rightarrow> rsExpired rs \<and> rsLastSuccessfulSyncAt rs = Some ''then'' | Inl _ \<Rightarrow> False)"
    by code_simp
  then obtain rs where rs: "offlineRetentionState lateEnv demoConfig eg1 = Inr rs" "rsExpired rs" "rsLastSuccessfulSyncAt rs = Some ''then''"
    using load by (auto split: sum.splits)
  have same: "queuedEntries (ssLocal lateWriter) = queuedEntries (ssLocal (demoWriter newMemoryAdapter))" by (simp add: lateWriter_def)
  have "calm memFile ''/Demo'' lateWriter eg1"
    by (rule memcloud.doLoad_calm [OF load]) (simp_all add: lateEnv_def requireRemotePath_def)
  then have q: "queuedEntries (ssLocal eg1) = queuedEntries (ssLocal lateWriter)" by (simp add: calm_def storeCalm_def queuedEntries_def)
  have live: "egHasAdapter lateWriter" "egAccessError lateWriter = None" "storePeekOutbox (ssLocal lateWriter) \<noteq> []"
    using demoWriter_queue [of newMemoryAdapter] by (auto simp: lateWriter_def)
  from expired_never_uploaded [OF live load q rs] demoWriter_distinct(1) show ?thesis unfolding same by blast
qed

theorem rehydrate_keeps_writes_witness:
  "\<exists>x eg'. queuedEntries (ssLocal (demoWriter (snapshotRemote 1))) = [x]
    \<and> flushAndRehydrateNow 1 demoEnv demoConfig (demoWriter (snapshotRemote 1)) = Some (eg', Inr ())
    \<and> published memFile ''/Demo'' x (ssRemote eg') \<and> storeGetRow (ssLocal eg') ''todo'' ''r'' \<noteq> None"
proof -
  let ?eg = "demoWriter (snapshotRemote 1)" and ?run = "flushAndRehydrateNow 1 demoEnv demoConfig (demoWriter (snapshotRemote 1))"
  have ev: "(case ?run of Some (eg', Inr _) \<Rightarrow> queuedEntries (ssLocal eg') = [] \<and> storeGetRow (ssLocal eg') ''todo'' ''r'' \<noteq> None
      \<and> quarantinedEntries (storeGetMeta (ssLocal eg') QUARANTINED_OFFLINE_CHANGES_META) = [] | _ \<Rightarrow> False)"
    by code_simp
  then obtain eg' where run: "?run = Some (eg', Inr ())" by (auto split: option.splits prod.splits sum.splits)
  have "length (queuedEntries (ssLocal ?eg)) = 1" using arg_cong [OF demoWriter_queue(4), of length "snapshotRemote 1"] by (simp add: demoWriter_queue(3))
  then obtain x where x: "queuedEntries (ssLocal ?eg) = [x]" by (cases "queuedEntries (ssLocal ?eg)") auto
  have "cloud_adapter (evOps demoEnv) memFile (\<lambda>f. \<not> endsWith f ''/'')" by (simp add: memcloud.cloud_adapter_axioms)
  from rehydrate_keeps_writes [OF this demoConfig_simps(1) _ demoWriter_queue(1,2) demoConfig_simps(2) demoWriter_distinct(1,3) run] x ev run
  show ?thesis by (auto simp: quarantined_def)
qed

text \<open>While remote access is paused, a rehydrate erases queued writes: the flush it starts with is
  skipped in silence, and the replacement of the local state then drops the queue. The run ends well,
  the row and its entry are neither on the device, nor on the remote, nor in the quarantine.\<close>

theorem paused_rehydrate_loses_write:
  "length (queuedEntries (ssLocal pausedEngine)) = 1
   \<and> (case flushAndRehydrateNow 1 demoEnv demoConfig pausedEngine of
        Some (eg', Inr _) \<Rightarrow> queuedEntries (ssLocal eg') = [] \<and> storeGetRow (ssLocal eg') ''todo'' ''r'' = None
          \<and> memListFiles (changesFolder ''/Demo'') (ssRemote eg') = []
          \<and> quarantinedEntries (storeGetMeta (ssLocal eg') QUARANTINED_OFFLINE_CHANGES_META) = []
      | _ \<Rightarrow> False)"
  by code_simp

end
