(* ===== verification/Connect_Properties.thy ===== *)
theory Connect_Properties
  imports Connect_Safety Engine_Properties
begin

text \<open>
  Runs of \<open>connect\<close> over the in-memory adapter, the soundness and the gap of the reload fast path, and
  what bounds the pulls of a reader.
\<close>

section \<open>A first connect\<close>

definition connectEnv :: "cloud_data memory_adapter env" where
  "connectEnv = demoEnv\<lparr>evRefresh := (\<lambda>i. replicate i CHR ''9'')\<rparr>"

definition mergeConfig :: engine_config where
  "mergeConfig = demoConfig\<lparr>cfMergeOnJoin := True\<rparr>"

lemma mergeConfig_simps [simp]: "cfRemotePath mergeConfig = Some ''/Demo''" "\<not> cfReaderMode mergeConfig" "cfMergeOnJoin mergeConfig"
  by (simp_all add: mergeConfig_def)

lemma noMarker_dashless: "CHR ''-'' \<notin> set s \<Longrightarrow> noMarker s"
  by (auto simp: noMarker_def startsAt_def) (metis in_set_dropD in_set_takeD list.set_intros(1))

lemma connectEnv_fresh: "freshIds connectEnv {''chg_1''}"
proof -
  have "inj (\<lambda>i. replicate i CHR ''9'')" by (auto simp: inj_def)
  moreover have "changeIdOk (''chg_'' @ replicate i CHR ''9'')" for i by (simp add: changeIdOk_def noMarker_dashless)
  moreover have "changeIdOk ''chg_1''" by (simp add: changeIdOk_def noMarker_dashless)
  moreover have "replicate i CHR ''9'' \<noteq> ''1''" for i by (cases i) auto
  ultimately show ?thesis by (simp add: freshIds_def connectEnv_def)
qed

definition offlineWriter :: "cloud_data memory_adapter \<Rightarrow> cloud_data memory_adapter engine" where
  "offlineWriter remote = (demoWriter remote)\<lparr>ssConnected := False\<rparr>"

lemma offlineWriter_queue:
  "egHasAdapter (offlineWriter r)" "egAccessError (offlineWriter r) = None"
  "queuedEntries (ssLocal (offlineWriter r)) = queuedEntries (ssLocal (demoWriter r))"
  using demoWriter_queue [of r] by (simp_all add: offlineWriter_def)

theorem connect_keeps_writes_witness:
  "\<exists>x eg'. queuedEntries (ssLocal (offlineWriter newMemoryAdapter)) = [x]
    \<and> connect 1 connectEnv mergeConfig 0 (offlineWriter newMemoryAdapter) = Some (eg', Inr ())
    \<and> published memFile ''/Demo'' x (ssRemote eg') \<and> ssConnected eg'"
proof -
  let ?eg = "offlineWriter newMemoryAdapter" and ?run = "connect 1 connectEnv mergeConfig 0 (offlineWriter newMemoryAdapter)"
  have ev: "(case ?run of Some (eg', Inr _) \<Rightarrow> queuedEntries (ssLocal eg') = [] \<and> ssConnected eg'
      \<and> quarantinedEntries (storeGetMeta (ssLocal eg') QUARANTINED_OFFLINE_CHANGES_META) = [] | _ \<Rightarrow> False)"
    by code_simp
  then obtain eg' where run: "?run = Some (eg', Inr ())" by (auto split: option.splits prod.splits sum.splits)
  have ids: "map ceId (queuedEntries (ssLocal ?eg)) = [''chg_1'']" by (simp add: offlineWriter_queue(3) demoWriter_queue(3,4))
  then obtain x where x: "queuedEntries (ssLocal ?eg) = [x]" "ceId x = ''chg_1''" by (cases "queuedEntries (ssLocal ?eg)") auto
  have ad: "cloud_adapter (evOps connectEnv) memFile (\<lambda>f. \<not> endsWith f ''/'')" by (simp add: connectEnv_def memcloud.cloud_adapter_axioms)
  have auth: "memFile r1 = memFile r" if "evAuthenticate connectEnv r = (r1, y)" for r r1 y
    using that by (auto simp: connectEnv_def demoEnv_def memAuthenticate_def memFile_def fun_eq_iff)
  have "freshIds connectEnv (ceId ` set (queuedEntries (ssLocal ?eg)))" using connectEnv_fresh x by simp
  from connect_keeps_writes [OF ad auth mergeConfig_simps(1) _ mergeConfig_simps(2) offlineWriter_queue(1,2) _ _ this run] x ev run ids
  show ?thesis by (auto simp: quarantined_def)
qed

section \<open>The reload fast path\<close>

lemma doLoad_local:
  assumes "doLoadOrCreateManifest env cfg reason True opts False eg = (eg', Inr b)" "\<not> loAssertLocalMeshId opts"
  shows "ssLocal eg' = ssLocal eg"
  using assms by (auto simp: doLoadOrCreateManifest_def loadManifestFrom_def split: sum.splits prod.splits)

lemma fastPath_taken:
  assumes adapter: "cloud_adapter (evOps env) contents okFolder"
    and run: "tryConnectFastPath env cfg eg = (eg', Inr True)" and path: "cfRemotePath cfg = Some root" "root \<noteq> ''''"
  obtains b where "ssLocal b = ssLocal eg" "fastPathReady env cfg b = Inr True" "nothingUnseen env root b"
    "eg' = sessionStarted env cfg (fastPathEvents env root b)"
proof -
  have req: "requireRemotePath cfg op = Inr root" for op using path by (simp add: requireRemotePath_def)
  obtain a l where load: "doLoadOrCreateManifest env cfg ''connect-fast-path-identity'' True
      \<lparr>loAssertLocalMeshId = False, loCreateIfMissing = False\<rparr> False eg = (a, l)" by force
  obtain b p where par: "credentialMeshParity env a = (b, p)" by force
  have facts: "\<exists>v. l = Inr v" "fastPathReady env cfg b = Inr True" "nothingUnseen env root b"
      "eg' = sessionStarted env cfg (fastPathEvents env root b)"
    using run by (auto simp: tryConnectFastPath_def load par req split: option.splits sum.splits if_splits bool.splits)
  then have "ssLocal b = ssLocal eg" using doLoad_local [of env cfg] load cloud_adapter.parity_same(1) [OF adapter par] by fastforce
  with facts that show thesis by blast
qed

lemma session_local:
  "ssLocal (sessionStarted env cfg b) = storeSetMeta OFFLINE_RETENTION_EXPIRED_AT_META JNull
     (storeSetMeta LAST_SUCCESSFUL_SYNC_AT_META (JStr (evIso env (evNow env))) (ssLocal b))"
  "ssRemote (sessionStarted env cfg b) = ssRemote b" "ssConnected (sessionStarted env cfg b)"
  by (simp_all add: sessionStarted_def Let_def markSuccessfulRemoteSync_def startRemoteInvalidations_def stopRemoteInvalidations_def
      clearRemoteAccessPause_def startPolling_def stopPolling_def setConnectionStatus_def scheduleRetentionCompactionCheck_def
      split: option.split)

text \<open>The reload fast path is sound for change files: when a connect takes it, every change file on the remote is
  recorded as read, nothing is queued, and neither the rows nor the remote have changed.\<close>

theorem fast_path_sound:
  assumes adapter: "cloud_adapter (evOps env) contents okFolder" "okFolder (changesFolder root)"
    and path: "cfRemotePath cfg = Some root" "root \<noteq> ''''" and run: "tryConnectFastPath env cfg eg = (eg', Inr True)"
  shows "remoteChanges contents root (ssRemote eg') \<subseteq> seenFiles (ssLocal eg') \<and> queuedEntries (ssLocal eg') = []
    \<and> storeGetAllRows (ssLocal eg') = storeGetAllRows (ssLocal eg) \<and> ssConnected eg'"
proof -
  obtain b where b: "ssLocal b = ssLocal eg" "fastPathReady env cfg b = Inr True" "nothingUnseen env root b"
    "eg' = sessionStarted env cfg (fastPathEvents env root b)"
    by (rule fastPath_taken [OF adapter(1) run path])
  have ev: "ssLocal (fastPathEvents env root b) = ssLocal b" "ssRemote (fastPathEvents env root b) = ssRemote b"
    by (simp_all add: fastPathEvents_def Let_def)
  have seen: "seenFiles (ssLocal eg') = seenFiles (ssLocal b)" by (simp add: b(4) session_local ev quarantine_meta)
  obtain files where files: "opListFiles (evOps env) (changesFolder root) (ssRemote b) = Inr files"
    "\<not> hasUnseenChange (loadLedger (ssLocal b)) (map feName files)"
    using b(3) by (auto simp: nothingUnseen_def split: sum.splits)
  have "feName ` set (selectUnseen (loadLedger (ssLocal b)) [] (jsort (\<lambda>_ _. Num 0) files))
      = remoteChanges contents root (ssRemote b) - set (ldSeen (loadLedger (ssLocal b)))"
    by (rule cloud_adapter.unseen_files(1) [OF adapter files(1) refl])
  moreover have "feName ` set (selectUnseen (loadLedger (ssLocal b)) [] (jsort (\<lambda>_ _. Num 0) files)) = {}"
    using files(2) selectUnseen_props [of "loadLedger (ssLocal b)" "[]" "jsort (\<lambda>_ _. Num 0) files"]
    by (auto simp: hasUnseenChange_def isUnseenChange_def list_ex_iff)
  ultimately have "remoteChanges contents root (ssRemote eg') \<subseteq> seenFiles (ssLocal eg')"
    unfolding seen by (auto simp: seenFiles_def b(4) session_local(2) ev)
  moreover have "queuedEntries (ssLocal b) = []"
    using b(2) by (auto simp: fastPathReady_def bind_result_Inr_iff queuedEntries_def storeOutboxSize_def storePeekOutbox_def optList_def
        Let_def split: if_splits)
  moreover have "storeGetAllRows (ssLocal eg') = storeGetAllRows (ssLocal eg)"
    by (simp add: b(1,4) session_local(1) ev storeGetAllRows_def storeSetMeta_def)
  ultimately show ?thesis by (simp add: b(4) session_local ev)
qed

section \<open>What the fast path does not see\<close>

text \<open>The mesh after a compaction: the change files are gone, their rows are in the snapshot of epoch 1. One row
  came from a peer that published it late, with a stamp behind the head.\<close>

definition lateRow :: row where
  "lateRow = \<lparr>meta = \<lparr>rmTable = ''todo'', rmRowId = ''late'', rmDeleted = False, rmDeletedHlc = None, rmSchemaVersion = 1, rmOwner = None, rmKey = None\<rparr>,
     payload = [(''a'', \<lparr>colValue = JStr ''x'', colHlc = ''000000000000003-0000-B''\<rparr>)]\<rparr>"

definition lateSnapshot :: cloud_data where
  "lateSnapshot =
     (case encodeSnapshotPayload \<lparr>csEncryptionKey = None, csEncrypted = False, csManifest = Some snapshotManifest\<rparr>
         ((emptySnapshot 1)\<lparr>snTables := [(''todo'', [(''late'', lateRow)])]\<rparr>) of Inr d \<Rightarrow> d | Inl e \<Rightarrow> NoJson)"

definition compactedRemote :: "cloud_data memory_adapter" where
  "compactedRemote =
     memWriteFile ''t0'' (changesHead ''/Demo'') (JsonText (DHead \<lparr>hdLatestHlc = Some ''000000000000005-0000-A''\<rparr>))
       (memWriteFile ''t0'' ''/Demo/mainline/snapshot-1-srv.json'' lateSnapshot (snapshotRemote 1))"

text \<open>A device of epoch 0 that has read everything up to the head; it remembers the manifest, or not.\<close>

definition returningDevice :: "bool \<Rightarrow> cloud_data memory_adapter engine" where
  "returningDevice cached = (demoEngine compactedRemote)\<lparr>ssConnected := False,
     ssLocal := (if cached then storeSetMeta ''manifestCache'' (manifestValue (snapshotManifest\<lparr>mfEpoch := 0, mfSnapshotPath := None\<rparr>)) else id)
       (storeSetMeta ''meshId'' (JStr ''mesh_1'')
         (storeSetMeta OBSERVATION_META_KEY (observationValue (ledgerState ((demoLedger [])\<lparr>ldHighWater := ''000000000000005-0000-A''\<rparr>))) newMemoryStore))\<rparr>"

text \<open>The reload fast path misses compacted changes: it compares the head and the list of change files but not the
  epoch of the manifest it just loaded. A device that was away while a late change was compacted into a snapshot connects
  at its old epoch and has not got the row, nor does its next pull bring it; the same device without a cached manifest rehydrates.\<close>

theorem fast_connect_misses_snapshot:
  "(case connect 1 demoEnv demoConfig 0 (returningDevice True) of
      Some (eg, Inr _) \<Rightarrow> ssConnected eg \<and> localEpoch eg = Num 0 \<and> storeGetRow (ssLocal eg) ''todo'' ''late'' = None
        \<and> (case pullNow 1 demoEnv demoConfig eg of Some (eg1, Inr _) \<Rightarrow> storeGetRow (ssLocal eg1) ''todo'' ''late'' = None | _ \<Rightarrow> False)
    | _ \<Rightarrow> False)
   \<and> (case connect 1 demoEnv demoConfig 0 (returningDevice False) of
        Some (eg, Inr _) \<Rightarrow> ssConnected eg \<and> localEpoch eg = Num 1 \<and> storeGetRow (ssLocal eg) ''todo'' ''late'' \<noteq> None
      | _ \<Rightarrow> False)"
proof
  show "case connect 1 demoEnv demoConfig 0 (returningDevice True) of
      Some (eg, Inr _) \<Rightarrow> ssConnected eg \<and> localEpoch eg = Num 0 \<and> storeGetRow (ssLocal eg) ''todo'' ''late'' = None
        \<and> (case pullNow 1 demoEnv demoConfig eg of Some (eg1, Inr _) \<Rightarrow> storeGetRow (ssLocal eg1) ''todo'' ''late'' = None | _ \<Rightarrow> False)
    | _ \<Rightarrow> False" by code_simp
  show "case connect 1 demoEnv demoConfig 0 (returningDevice False) of
        Some (eg, Inr _) \<Rightarrow> ssConnected eg \<and> localEpoch eg = Num 1 \<and> storeGetRow (ssLocal eg) ''todo'' ''late'' \<noteq> None
      | _ \<Rightarrow> False" by code_simp
qed

text \<open>A connect that finds the engine connected leaves its status at connecting.\<close>

lemma connect_noop_status:
  assumes "ssConnected eg" "ssPoison eg = None" "hasRemotePath cfg" "\<not> egEncrypted eg \<or> egEncryptionKey eg \<noteq> None"
  shows "\<exists>eg'. connect n env cfg roll eg = Some (eg', Inr ()) \<and> ssConnected eg' \<and> egStatus eg' = Connecting"
  using assms by (auto simp: connect_def Let_def setConnectionStatus_def emit_def)

theorem fast_path_sound_witness:
  "\<exists>eg'. tryConnectFastPath demoEnv demoConfig (returningDevice True) = (eg', Inr True) \<and> queuedEntries (ssLocal eg') = []
    \<and> remoteChanges memFile ''/Demo'' (ssRemote eg') \<subseteq> seenFiles (ssLocal eg')"
proof -
  let ?run = "tryConnectFastPath demoEnv demoConfig (returningDevice True)"
  have "(case snd ?run of Inr True \<Rightarrow> True | _ \<Rightarrow> False)" by code_simp
  then obtain eg' where run: "?run = (eg', Inr True)" by (cases ?run) (auto split: sum.splits bool.splits)
  have "cloud_adapter (evOps demoEnv) memFile (\<lambda>f. \<not> endsWith f ''/'')" by (simp add: memcloud.cloud_adapter_axioms)
  from fast_path_sound [OF this demoFolder(1) demoConfig_simps(1) _ run] run show ?thesis by simp
qed

end
