(* ===== verification/Engine_Liveness.thy ===== *)
theory Engine_Liveness
  imports Engine_Maintenance Engine_Properties
begin

text \<open>
  What the engine comes back from: a pull returns when the snapshots of the mesh are as new as the manifests that name
  them, and a reader never returns from one when they are older; the retention check always arms the next one.
\<close>

section \<open>Pulls return\<close>

text \<open>No snapshot on the remote is older than the manifest that names it.\<close>

definition manifestMatches :: "('r \<Rightarrow> string \<Rightarrow> cloud_data option) \<Rightarrow> 'r \<Rightarrow> manifest \<Rightarrow> bool" where
  "manifestMatches contents r m \<longleftrightarrow> (\<forall>p data codec s s' snap. mfSnapshotPath m = Some p \<longrightarrow> contents r p = Some data \<longrightarrow>
     decodeSnapshotPayload codec data s = (s', Inr snap) \<longrightarrow> mfEpoch m \<le> snEpoch snap)"

definition snapshotsMatch :: "('r \<Rightarrow> string \<Rightarrow> cloud_data option) \<Rightarrow> 'r \<Rightarrow> bool" where
  "snapshotsMatch contents r \<longleftrightarrow> (\<forall>q m. contents r q = Some (JsonText (DManifest m)) \<longrightarrow> manifestMatches contents r m)"

text \<open>The reader need not rehydrate again.\<close>

definition upToDate :: "'r engine \<Rightarrow> bool" where
  "upToDate eg \<longleftrightarrow> (case egManifest eg of None \<Rightarrow> True | Some m \<Rightarrow> \<not> jgt (Num (mfEpoch m)) (localEpoch eg))"

lemma localEpoch_set: "ssLocal eg' = storeSetMeta ''epoch'' (JNum (Num e)) s \<Longrightarrow> localEpoch eg' = Num e"
  by (simp add: localEpoch_def storeGetMeta_def storeSetMeta_def update_conv')

context cloud_adapter
begin

lemma restoreFrom_upToDate:
  fixes eg :: "'r engine"
  assumes run: "restoreFrom ops cx path eg = (eg', Inr y)" and m: "egManifest eg = Some m" "mfSnapshotPath m = Some path"
    and ok: "manifestMatches contents (ssRemote eg) m"
  shows "upToDate eg'"
proof -
  obtain data where data: "opReadFile ops path (ssRemote eg) = Inr data" using run by (auto simp: restoreFrom_def split: sum.splits)
  obtain s1 snap where dec: "decodeSnapshotPayload (rcCodec cx) data (ssLocal eg) = (s1, Inr snap)"
    using run data by (auto simp: restoreFrom_def split: sum.splits prod.splits)
  have le: "mfEpoch m \<le> snEpoch snap" using ok m(2) read_ok [OF data] dec unfolding manifestMatches_def by blast
  obtain s2 where s2: "ssLocal eg' = storeSetMeta ''epoch'' (JNum (Num (snEpoch snap))) s2" "egManifest eg' = Some m"
    using run data dec m(1) by (auto simp: restoreFrom_def Let_def split: sum.splits prod.splits)
  with le localEpoch_set [OF s2(1)] show ?thesis by (simp add: upToDate_def)
qed

lemma doLoad_matches:
  assumes run: "doLoadOrCreateManifest env cfg reason True opts persist eg = (eg', Inr b)" and env: "evOps env = ops"
    and ok: "snapshotsMatch contents (ssRemote eg)"
  shows "\<exists>m. egManifest eg' = Some m \<and> manifestMatches contents (ssRemote eg') m"
proof -
  obtain ctx where ctx: "manifestContext cfg eg = Inr ctx" using run by (auto simp: doLoadOrCreateManifest_def split: sum.splits)
  obtain s1 r1 m where load: "loadManifestFrom (evSha env) (evFresh env) (evIso env (evNow env)) ops ctx (codecStateOf eg) opts
      (ssLocal eg) (ssRemote eg) = ((s1, r1), Inr (m, b))" and eg': "ssRemote eg' = r1" "egManifest eg' = Some m"
    using run ctx by (auto simp: doLoadOrCreateManifest_def env split: sum.splits prod.splits option.splits)
  obtain pt found where fetch: "fetchManifest (evSha env) (evFresh env) (evIso env (evNow env)) ops ctx opts (ssLocal eg) (ssRemote eg)
      = (r1, Inr (pt, found, b))" and res: "resolveManifest (evSha env) found = Inr m"
    using load by (auto simp: loadManifestFrom_def split: sum.splits prod.splits if_splits)
  obtain m0 where found: "found = Some m0" and same: "mfSnapshotPath m = mfSnapshotPath m0" "mfEpoch m = mfEpoch m0"
    using res by (cases found) (auto simp: resolveManifest_def bind_result_Inr_iff)
  have "manifestMatches contents r1 m0"
  proof (cases b)
    case True
    then have "mfSnapshotPath m0 = None"
      using fetch found by (auto simp: fetchManifest_def createBootstrapManifest_def bootstrapPayload_def withHash_def manifest_payload.defs Let_def
          split: sum.splits option.splits prod.splits)
    then show ?thesis by (simp add: manifestMatches_def)
  next
    case False
    obtain po where po: "readPointer ops ctx opts (ssRemote eg) = Inr po" using fetch by (auto simp: fetchManifest_def split: sum.splits)
    with fetch False have "po \<noteq> None" by (cases po) (auto simp: fetchManifest_def split: sum.splits prod.splits)
    then obtain pt' where pt': "po = Some pt'" by blast
    define J where "J = readJson ops (cxRemotePath ctx @ ''/'' @ ptFile pt') (ssRemote eg)"
    have "(case J of Inl e \<Rightarrow> (ssRemote eg, Inl e) | Inr d \<Rightarrow> (ssRemote eg, Inr (pt', asManifest d, False))) = (r1, Inr (pt, found, b))"
      using fetch unfolding fetchManifest_def po pt' J_def sum.case option.case .
    then obtain d where d: "J = Inr d" "asManifest d = Some m0" "r1 = ssRemote eg" "pt' = pt" using found by (cases J) auto
    then have "readJson ops (cxRemotePath ctx @ ''/'' @ ptFile pt) (ssRemote eg) = Inr d" "asManifest d = Some m0" by (auto simp: J_def)
    moreover from this(2) have "d = DManifest m0" by (cases d) auto
    ultimately obtain data where "opReadFile ops (cxRemotePath ctx @ ''/'' @ ptFile pt) (ssRemote eg) = Inr data" "jsonParse data = Inr (DManifest m0)"
      by (auto simp: readJson_def bind_result_Inr_iff)
    then have "contents (ssRemote eg) (cxRemotePath ctx @ ''/'' @ ptFile pt) = Some (JsonText (DManifest m0))"
      using read_ok by (cases data) (auto simp: jsonParse_def)
    with ok d(3) show ?thesis by (auto simp: snapshotsMatch_def)
  qed
  with same eg' show ?thesis by (simp add: manifestMatches_def)
qed


lemma doLoad_snapshots:
  assumes run: "doLoadOrCreateManifest env cfg reason True opts persist eg = (eg', Inr b)" and env: "evOps env = ops"
    and m: "egManifest eg' = Some m" "mfSnapshotPath m \<noteq> None"
  shows "ssRemote eg' = ssRemote eg"
proof -
  obtain ctx where ctx: "manifestContext cfg eg = Inr ctx" using run by (auto simp: doLoadOrCreateManifest_def split: sum.splits)
  obtain s1 r1 where load: "loadManifestFrom (evSha env) (evFresh env) (evIso env (evNow env)) ops ctx (codecStateOf eg) opts
      (ssLocal eg) (ssRemote eg) = ((s1, r1), Inr (m, b))" and eg': "ssRemote eg' = r1"
    using run ctx m(1) by (auto simp: doLoadOrCreateManifest_def env split: sum.splits prod.splits option.splits)
  obtain pt found where fetch: "fetchManifest (evSha env) (evFresh env) (evIso env (evNow env)) ops ctx opts (ssLocal eg) (ssRemote eg)
      = (r1, Inr (pt, found, b))" and res: "resolveManifest (evSha env) found = Inr m"
    using load by (auto simp: loadManifestFrom_def split: sum.splits prod.splits if_splits)
  obtain m0 where found: "found = Some m0" and same: "mfSnapshotPath m = mfSnapshotPath m0"
    using res by (cases found) (auto simp: resolveManifest_def bind_result_Inr_iff)
  show ?thesis
    using fetch found same m(2) eg'
    by (auto simp: fetchManifest_def createBootstrapManifest_def bootstrapPayload_def withHash_def manifest_payload.defs Let_def
        split: sum.splits option.splits prod.splits)
qed

lemma rehydrate_upToDate:
  fixes eg :: "'r engine"
  assumes m: "egManifest eg = Some m" "manifestMatches contents (ssRemote eg) m" "\<exists>p. mfSnapshotPath m = Some p \<and> p \<noteq> ''''"
    and match: "snapshotsMatch contents (ssRemote eg)" and env: "evOps env = ops"
    and run: "rehydrateRestore ops \<lparr>rcCodec = codec, rcManifest = egManifest eg, rcDeviceId = d, rcPreservedMeta = pres\<rparr>
      (\<lambda>st. case doLoadOrCreateManifest env cfg reason True opts True st of
         (st1, Inl e) \<Rightarrow> (st1, Inl e) | (st1, Inr _) \<Rightarrow> (st1, Inr (egManifest st1))) eg = (eg', Inr clock)"
  shows "upToDate eg'"
proof -
  let ?cx = "\<lparr>rcCodec = codec, rcManifest = egManifest eg, rcDeviceId = d, rcPreservedMeta = pres\<rparr>"
  let ?reload = "\<lambda>st. case doLoadOrCreateManifest env cfg reason True opts True st of
         (st1, Inl e) \<Rightarrow> (st1, Inl e) | (st1, Inr _) \<Rightarrow> (st1, Inr (egManifest st1))"
  let ?eg0 = "emit RehydrateStart eg"
  obtain path where path: "mfSnapshotPath m = Some path" "path \<noteq> ''''" using m(3) by blast
  obtain a lp n c where rr: "restoreOrReload ops ?cx ?reload path ?eg0 = (a, lp, Inr (n, c))" "eg' = emit (RehydrateComplete n) a"
    using run m(1) path by (auto simp: rehydrateRestore_def Let_def split: sum.splits prod.splits)
  have "upToDate a"
  proof (cases "restoreFrom ops ?cx path ?eg0")
    case (Pair b y)
    show ?thesis
    proof (cases y)
      case (Inr z)
      then have "a = b" using rr(1) Pair by (simp add: restoreOrReload_def)
      with restoreFrom_upToDate [of ?cx path ?eg0 b z m] Pair Inr m(1,2) path show ?thesis by simp
    next
      case (Inl e)
      then have same: "ssRemote b = ssRemote eg" using Pair by (auto simp: restoreFrom_def Let_def split: sum.splits prod.splits)
      obtain b2 bo m2 path2 where load: "doLoadOrCreateManifest env cfg reason True opts True b = (b2, Inr bo)"
        and m2: "egManifest b2 = Some m2" "mfSnapshotPath m2 = Some path2" and last: "restoreFrom ops ?cx path2 b2 = (a, Inr (n, c))"
        using rr(1) Pair Inl
        by (auto simp: restoreOrReload_def bind_eq_Some_conv split: sum.splits prod.splits option.splits if_splits)
      have "snapshotsMatch contents (ssRemote b)" using match same by simp
      with doLoad_matches [OF load env] m2 have "manifestMatches contents (ssRemote b2) m2" by auto
      from restoreFrom_upToDate [OF last m2 this] show ?thesis .
    qed
  qed
  moreover have "localEpoch (emit e a) = localEpoch a" for e by (simp add: localEpoch_def)
  ultimately show ?thesis using rr(2) by (auto simp: upToDate_def split: option.splits)
qed

end

lemma pullNow_None:
  "pullNow (Suc n) env cfg eg = None \<longleftrightarrow> requireAdapter ''pull()'' eg = Inr () \<and> cfReaderMode cfg
     \<and> (\<exists>eg1. readerCheck env cfg (if ssConnected eg then setConnectionStatus Syncing eg else eg) = (eg1, Inr True)
          \<and> rehydrateWith env cfg (pullNow n env cfg) [] eg1 = None)"
proof -
  define eg0 where "eg0 = (if ssConnected eg then setConnectionStatus Syncing eg else eg)"
  obtain a y where rc: "readerCheck env cfg eg0 = (a, y)" by force
  show ?thesis unfolding pullNow.simps eg0_def [symmetric] Let_def rc
    by (cases "requireAdapter ''pull()'' eg"; cases y) (auto split: bool.split)
qed

text \<open>A reader that is up to date with the manifest it just checked does not rehydrate.\<close>

lemma fresh_pull_returns:
  assumes "egReaderManifestFresh eg" "upToDate eg"
  shows "pullNow (Suc n) env cfg eg \<noteq> None"
proof -
  let ?eg0 = "if ssConnected eg then setConnectionStatus Syncing eg else eg"
  have "egReaderManifestFresh ?eg0" "egManifest ?eg0 = egManifest eg" "localEpoch ?eg0 = localEpoch eg"
    using assms(1) by (simp_all add: setConnectionStatus_def localEpoch_def)
  moreover have "localEpoch (a\<lparr>egReaderManifestFresh := f\<rparr>) = localEpoch a" for f and a :: "'a engine" by (simp add: localEpoch_def)
  ultimately have "snd (readerCheck env cfg ?eg0) = Inr False"
    using assms(2) by (auto simp: readerCheck_def upToDate_def Let_def split: option.split)
  then show ?thesis unfolding pullNow_None by auto
qed

lemma rehydrateWith_None:
  "rehydrateWith env cfg pullf pres eg = None \<longleftrightarrow> requireAdapter ''rehydrate()'' eg = Inr () \<and>
     (\<exists>eg1 clock. rehydrateRestore (evOps env)
        \<lparr>rcCodec = codecStateOf eg, rcManifest = egManifest eg, rcDeviceId = cfDeviceId cfg, rcPreservedMeta = pres\<rparr>
        (\<lambda>st. case doLoadOrCreateManifest env cfg ''rehydrate-stale-snapshot'' True (createUnlessReader cfg) True st of
           (st1, Inl e) \<Rightarrow> (st1, Inl e) | (st1, Inr _) \<Rightarrow> (st1, Inr (egManifest st1))) eg = (eg1, Inr clock) \<and> pullf eg1 = None)"
proof -
  let ?rr = "rehydrateRestore (evOps env)
        \<lparr>rcCodec = codecStateOf eg, rcManifest = egManifest eg, rcDeviceId = cfDeviceId cfg, rcPreservedMeta = pres\<rparr>
        (\<lambda>st. case doLoadOrCreateManifest env cfg ''rehydrate-stale-snapshot'' True (createUnlessReader cfg) True st of
           (st1, Inl e) \<Rightarrow> (st1, Inl e) | (st1, Inr _) \<Rightarrow> (st1, Inr (egManifest st1))) eg"
  obtain a y where rr: "?rr = (a, y)" by force
  show ?thesis unfolding rehydrateWith_def rr
    by (cases "requireAdapter ''rehydrate()'' eg"; cases y) (auto split: option.splits prod.splits sum.splits)
qed

lemma fresh_rehydrate: "rehydrateRestore ops cx reload (eg :: 'a engine) = (eg', Inr clock) \<Longrightarrow>
    (\<And>a b y. reload a = (b, y) \<Longrightarrow> egReaderManifestFresh b = egReaderManifestFresh a) \<Longrightarrow>
    egReaderManifestFresh eg' = egReaderManifestFresh eg"
proof -
  assume run: "rehydrateRestore ops cx reload (eg :: 'a engine) = (eg', Inr clock)"
    and reload: "\<And>a b y. reload a = (b, y) \<Longrightarrow> egReaderManifestFresh b = egReaderManifestFresh a"
  have from1: "egReaderManifestFresh b = egReaderManifestFresh a" if "restoreFrom ops cx path a = (b, y)" for path y and a b :: "'a engine"
    using that by (auto simp: restoreFrom_def Let_def split: sum.splits prod.splits)
  have again: "egReaderManifestFresh b = egReaderManifestFresh a" if rr: "restoreOrReload ops cx reload path a = (b, y)" for path y and a b :: "'a engine"
  proof -
    obtain a1 r1 where first: "restoreFrom ops cx path a = (a1, r1)" by force
    obtain a2 r2 where second: "reload a1 = (a2, r2)" by force
    show ?thesis
      using rr from1 [OF first] reload [OF second] from1 [of _ a2] unfolding restoreOrReload_def first second
      by (auto simp: second split: sum.splits prod.splits option.splits if_splits)
  qed
  show ?thesis
    using run again by (fastforce simp: rehydrateRestore_def Let_def split: option.splits if_splits prod.splits sum.splits)
qed

lemma fresh_doLoad:
  "doLoadOrCreateManifest env cfg reason force opts persist eg = (eg', res) \<Longrightarrow> egReaderManifestFresh eg' = egReaderManifestFresh eg"
  by (auto simp: doLoadOrCreateManifest_def poisonRemote_def haltPolling_def stopPolling_def clearScheduledFlush_def Let_def
      split: option.splits sum.splits prod.splits if_splits)

lemma readerCheck_True:
  assumes "readerCheck env cfg eg = (eg1, Inr True)"
  obtains a m p where "egReaderManifestFresh eg \<and> a = eg \<or>
      (\<exists>b. doLoadOrCreateManifest env cfg ''reader-pull'' True \<lparr>loAssertLocalMeshId = True, loCreateIfMissing = False\<rparr> True eg = (a, Inr b))"
    "eg1 = a\<lparr>egReaderManifestFresh := True\<rparr>" "egManifest a = Some m" "mfSnapshotPath m = Some p" "p \<noteq> ''''"
proof -
  obtain a y where first: "(if egReaderManifestFresh eg then (eg, Inr False)
      else doLoadOrCreateManifest env cfg ''reader-pull'' True \<lparr>loAssertLocalMeshId = True, loCreateIfMissing = False\<rparr> True eg) = (a, y)" by force
  then obtain b where y: "y = Inr b" using assms by (cases y) (simp_all add: readerCheck_def)
  obtain m where m: "egManifest a = Some m" using assms by (cases "egManifest a") (simp_all add: readerCheck_def first y Let_def)
  obtain p where p: "mfSnapshotPath m = Some p" "p \<noteq> ''''"
    using assms by (auto simp: readerCheck_def first y m Let_def split: if_splits option.splits)
  have "eg1 = a\<lparr>egReaderManifestFresh := True\<rparr>" using assms by (auto simp: readerCheck_def first y m Let_def split: if_splits)
  moreover have "egReaderManifestFresh eg \<and> a = eg \<or>
      (\<exists>b. doLoadOrCreateManifest env cfg ''reader-pull'' True \<lparr>loAssertLocalMeshId = True, loCreateIfMissing = False\<rparr> True eg = (a, Inr b))"
    using first y by (auto split: if_splits)
  ultimately show thesis using that m p by blast
qed

lemma reader_returns:
  assumes adapter: "cloud_adapter (evOps env) contents okFolder" and match: "snapshotsMatch contents (ssRemote eg)"
    and m: "case egManifest eg of None \<Rightarrow> True | Some m \<Rightarrow> manifestMatches contents (ssRemote eg) m"
  shows "pullNow (Suc (Suc n)) env cfg eg \<noteq> None"
proof
  assume none: "pullNow (Suc (Suc n)) env cfg eg = None"
  define eg0 where "eg0 = (if ssConnected eg then setConnectionStatus Syncing eg else eg)"
  have same: "ssRemote eg0 = ssRemote eg" "egManifest eg0 = egManifest eg" by (simp_all add: eg0_def setConnectionStatus_def)
  obtain eg1 where rc: "readerCheck env cfg eg0 = (eg1, Inr True)" and rw: "rehydrateWith env cfg (pullNow (Suc n) env cfg) [] eg1 = None"
    using none pullNow_None unfolding eg0_def by blast
  obtain a m p where a: "egReaderManifestFresh eg0 \<and> a = eg0 \<or>
      (\<exists>b. doLoadOrCreateManifest env cfg ''reader-pull'' True \<lparr>loAssertLocalMeshId = True, loCreateIfMissing = False\<rparr> True eg0 = (a, Inr b))"
    and eg1: "eg1 = a\<lparr>egReaderManifestFresh := True\<rparr>" and ma: "egManifest a = Some m" "mfSnapshotPath m = Some p" "p \<noteq> ''''"
    by (rule readerCheck_True [OF rc])
  have ok: "ssRemote a = ssRemote eg \<and> manifestMatches contents (ssRemote a) m"
    using a
  proof
    assume "egReaderManifestFresh eg0 \<and> a = eg0"
    with same m ma(1) show ?thesis by simp
  next
    assume "\<exists>b. doLoadOrCreateManifest env cfg ''reader-pull'' True \<lparr>loAssertLocalMeshId = True, loCreateIfMissing = False\<rparr> True eg0 = (a, Inr b)"
    then obtain b where load: "doLoadOrCreateManifest env cfg ''reader-pull'' True \<lparr>loAssertLocalMeshId = True, loCreateIfMissing = False\<rparr> True eg0 = (a, Inr b)"
      by blast
    from cloud_adapter.doLoad_matches [OF adapter load refl] match same ma
      cloud_adapter.doLoad_snapshots [OF adapter load refl ma(1)]
    show ?thesis by auto
  qed
  obtain eg2 clock where rr: "rehydrateRestore (evOps env)
        \<lparr>rcCodec = codecStateOf eg1, rcManifest = egManifest eg1, rcDeviceId = cfDeviceId cfg, rcPreservedMeta = []\<rparr>
        (\<lambda>st. case doLoadOrCreateManifest env cfg ''rehydrate-stale-snapshot'' True (createUnlessReader cfg) True st of
           (st1, Inl e) \<Rightarrow> (st1, Inl e) | (st1, Inr _) \<Rightarrow> (st1, Inr (egManifest st1))) eg1 = (eg2, Inr clock)"
    and stuck: "pullNow (Suc n) env cfg eg2 = None"
    using rw rehydrateWith_None by blast
  have "upToDate eg2"
    by (rule cloud_adapter.rehydrate_upToDate [OF adapter _ _ _ _ refl rr]) (use ma ok match eg1 in auto)
  moreover have "egReaderManifestFresh eg2"
  proof -
    have "egReaderManifestFresh eg2 = egReaderManifestFresh eg1"
      by (rule fresh_rehydrate [OF rr]) (auto split: prod.splits sum.splits dest: fresh_doLoad)
    with eg1 show ?thesis by simp
  qed
  ultimately show False using fresh_pull_returns stuck by blast
qed

section \<open>A pull that does not return\<close>

text \<open>A reader in front of a manifest whose snapshot is older than it.\<close>

definition staleSnapshot :: "'r env \<Rightarrow> manifest \<Rightarrow> snapshot \<Rightarrow> 'r engine \<Rightarrow> bool" where
  "staleSnapshot env m snap eg \<longleftrightarrow> egManifest eg = Some m \<and> egReaderManifestFresh eg \<and> requireAdapter ''pull()'' eg = Inr ()
     \<and> jgt (Num (mfEpoch m)) (localEpoch eg) \<and> snEpoch snap < mfEpoch m
     \<and> (\<forall>n \<in> set (case snCoveredChangeFiles snap of None \<Rightarrow> [] | Some fs \<Rightarrow> fs). changeFileHlc n \<noteq> None)
     \<and> (\<exists>p data. mfSnapshotPath m = Some p \<and> p \<noteq> '''' \<and> opReadFile (evOps env) p (ssRemote eg) = Inr data
         \<and> (\<forall>s. boundTo (mfMeshId m) s \<longrightarrow> (\<exists>s'. decodeSnapshotPayload (codecStateOf eg) data s = (s', Inr snap))))
     \<and> boundTo (mfMeshId m) (ssLocal eg)"

lemma stale_cong:
  assumes "ssLocal b = ssLocal a" "ssRemote b = ssRemote a" "egManifest b = egManifest a" "egReaderManifestFresh b = egReaderManifestFresh a"
    "requireAdapter ''pull()'' b = requireAdapter ''pull()'' a" "codecStateOf b = codecStateOf a"
  shows "staleSnapshot env m snap b = staleSnapshot env m snap a"
  using assms by (simp add: staleSnapshot_def localEpoch_def)

lemma stale_step:
  assumes stale: "staleSnapshot env m snap eg"
  shows "\<exists>eg1 clock. rehydrateRestore (evOps env)
      \<lparr>rcCodec = codecStateOf eg, rcManifest = egManifest eg, rcDeviceId = d, rcPreservedMeta = []\<rparr> reload eg = (eg1, Inr clock)
    \<and> staleSnapshot env m snap eg1"
proof -
  let ?cx = "\<lparr>rcCodec = codecStateOf eg, rcManifest = egManifest eg, rcDeviceId = d, rcPreservedMeta = []\<rparr>"
  let ?eg0 = "emit RehydrateStart eg" and ?covered = "case snCoveredChangeFiles snap of None \<Rightarrow> [] | Some fs \<Rightarrow> fs"
  let ?replace = "\<lambda>s. (replaceRows [] (snTables snap) s, Inr ())"
  obtain p data where p: "mfSnapshotPath m = Some p" "p \<noteq> ''''" "opReadFile (evOps env) p (ssRemote eg) = Inr data"
    and dec: "\<And>s. boundTo (mfMeshId m) s \<Longrightarrow> \<exists>s'. decodeSnapshotPayload (codecStateOf eg) data s = (s', Inr snap)"
    using stale by (auto simp: staleSnapshot_def)
  obtain s1 where s1: "decodeSnapshotPayload (codecStateOf eg) data (ssLocal eg) = (s1, Inr snap)"
  proof -
    have "boundTo (mfMeshId m) (ssLocal eg)" using stale by (simp add: staleSnapshot_def)
    from dec [OF this] show thesis using that by blast
  qed
  let ?l0 = "\<lparr>ldHighWater = snHlc snap, ldSeen = [], ldFrontiers = [], ldExact = True, ldGeneration = observationGeneration s1 + 1\<rparr>"
  obtain l where l: "observeCovered ?covered ?l0 = Inr l" using observeCovered_ok stale unfolding staleSnapshot_def by blast
  obtain v where res: "restoreSnapshot (snHlc snap) ?covered ?replace s1 = (storeSetMeta OBSERVATION_META_KEY v (replaceRows [] (snTables snap) s1), Inr ())"
    using l by (simp add: restoreSnapshot_def Let_def)
  let ?s2 = "storeSetMeta ''epoch'' (JNum (Num (snEpoch snap))) (storeSetMeta OBSERVATION_META_KEY v (replaceRows [] (snTables snap) s1))"
  define eg1 where "eg1 = eg\<lparr>ssKnownTables := fold (\<lambda>(t, _). jsetAdd t) (snTables snap) [], ssLocal := ?s2\<rparr>"
  have "\<exists>n h. restoreFrom (evOps env) ?cx p ?eg0 = (emit RehydrateStart eg1, Inr (n, h))"
    using p(3) s1 res by (simp add: restoreFrom_def Let_def eg1_def emit_def)
  then obtain n h where rf: "restoreFrom (evOps env) ?cx p ?eg0 = (emit RehydrateStart eg1, Inr (n, h))" by blast
  have "rehydrateRestore (evOps env) ?cx reload eg
      = (emit (RehydrateComplete n) (emit RehydrateStart eg1), Inr (case h of None \<Rightarrow> ssHlc eg | Some h \<Rightarrow> h))"
    using stale p(1,2) rf by (simp add: rehydrateRestore_def restoreOrReload_def staleSnapshot_def Let_def)
  moreover have "boundTo (mfMeshId m) ?s2"
    by (simp add: boundTo_def OBSERVATION_META_KEY_def) (simp add: storeGetMeta_def newMemoryStore_def)
  then have "staleSnapshot env m snap (emit e (emit e' eg1))" for e e'
  proof -
    assume bound: "boundTo (mfMeshId m) ?s2"
    let ?b = "emit e (emit e' eg1)"
    have "localEpoch ?b = Num (snEpoch snap)" by (rule localEpoch_set) (simp add: eg1_def)
    moreover have "codecStateOf ?b = codecStateOf eg" "requireAdapter ''pull()'' ?b = requireAdapter ''pull()'' eg"
      "ssLocal ?b = ?s2" "ssRemote ?b = ssRemote eg" "egManifest ?b = egManifest eg" "egReaderManifestFresh ?b = egReaderManifestFresh eg"
      by (simp_all add: codecStateOf_def requireAdapter_def eg1_def)
    ultimately show ?thesis using stale bound by (simp add: staleSnapshot_def)
  qed
  ultimately show ?thesis by blast
qed

lemma stale_pull:
  assumes reader: "cfReaderMode cfg" and stale: "staleSnapshot env m snap eg"
  shows "pullNow n env cfg eg = None"
  using stale
proof (induction n arbitrary: eg)
  case (Suc n)
  define eg0 where "eg0 = (if ssConnected eg then setConnectionStatus Syncing eg else eg)"
  have s0: "staleSnapshot env m snap eg0"
    using Suc.prems stale_cong [of eg0 eg] by (simp add: eg0_def setConnectionStatus_def requireAdapter_def codecStateOf_def)
  then have rc: "readerCheck env cfg eg0 = (eg0\<lparr>egReaderManifestFresh := True\<rparr>, Inr True)"
    by (auto simp: readerCheck_def staleSnapshot_def Let_def localEpoch_def)
  have s1: "staleSnapshot env m snap (eg0\<lparr>egReaderManifestFresh := True\<rparr>)"
  proof -
    have "egReaderManifestFresh eg0" using s0 by (simp add: staleSnapshot_def)
    with s0 stale_cong [of "eg0\<lparr>egReaderManifestFresh := True\<rparr>" eg0] show ?thesis by (simp add: requireAdapter_def codecStateOf_def)
  qed
  have "requireAdapter op (eg0\<lparr>egReaderManifestFresh := True\<rparr>) = Inr ()" for op
    using s1 by (auto simp: staleSnapshot_def requireAdapter_def split: option.splits if_splits)
  then have "rehydrateWith env cfg (pullNow n env cfg) [] (eg0\<lparr>egReaderManifestFresh := True\<rparr>) = None"
    unfolding rehydrateWith_None using stale_step [OF s1] Suc.IH by blast
  with rc reader Suc.prems show ?case unfolding pullNow_None eg0_def [symmetric] by (simp add: staleSnapshot_def)
qed simp

section \<open>Properties of the pull\<close>

text \<open>C19: A pull returns. On a mesh whose snapshots are not older than the manifests that name them, a pull of a
  writer or a reader ends, with success or an error, whatever else the adapter answers: the pull that a reader's
  rehydrate starts is the last one, so the depth of two that the model allows is never exceeded.\<close>

theorem reader_pull_terminates:
  assumes "cloud_adapter (evOps env) contents okFolder" "snapshotsMatch contents (ssRemote eg)"
    and "case egManifest eg of None \<Rightarrow> True | Some m \<Rightarrow> manifestMatches contents (ssRemote eg) m"
  shows "\<exists>out. pullNow (Suc (Suc n)) env cfg eg = Some out"
  using reader_returns [OF assms] by simp

text \<open>A reader never returns from a pull when the manifest names a snapshot of an older epoch: every rehydrate
  leaves the local epoch behind the manifest, so the pull that ends it rehydrates again. No depth of nested pulls is enough.\<close>

theorem reader_pull_never_returns:
  assumes "cfReaderMode cfg" "staleSnapshot env m snap eg"
  shows "\<forall>n. pullNow n env cfg eg = None"
  using stale_pull [OF assms] by blast

definition readerConfig :: engine_config where
  "readerConfig = demoConfig\<lparr>cfReaderMode := True\<rparr>"

definition snapshotReader :: "int \<Rightarrow> cloud_data memory_adapter engine" where
  "snapshotReader epoch = (demoEngine (snapshotRemote epoch))\<lparr>egManifest := Some snapshotManifest, egReaderManifestFresh := True\<rparr>"

lemma snapshotManifest_simps [simp]:
  "mfMeshId snapshotManifest = ''mesh_1''" "mfEpoch snapshotManifest = 1" "mfSnapshotPath snapshotManifest = Some ''/Demo/mainline/snapshot-1-srv.json''"
  by (simp_all add: snapshotManifest_def withHash_def manifest_payload.defs)

lemma snapshotData_payload:
  "snapshotData epoch = JsonText (DPayload \<lparr>mpHasMesh = False, mpMeshId = Some ''mesh_1'', mpKind = Some ''snapshot'', mpEntry = None,
     mpSnapshot = Some (emptySnapshot epoch)\<rparr>)"
  by (simp add: snapshotData_def encodeSnapshotPayload_def encodeForCloud_def)

lemma snapshotData_decodes:
  "decodeSnapshotPayload codec (snapshotData epoch) s = (s', Inr snap) \<Longrightarrow> snap = emptySnapshot epoch"
  by (auto simp: decodeSnapshotPayload_def snapshotData_payload decodeFromCloud_def jsonParse_def payloadOf_def Let_def
      split: if_splits sum.splits prod.splits)

lemma snapshotRemote_files:
  "memFile (snapshotRemote epoch) p = Some d \<Longrightarrow> d = snapshotData epoch \<and> p = ''/Demo/mainline/snapshot-1-srv.json''
     \<or> d = JsonText (DManifest snapshotManifest) \<or> d = JsonText (DPointer \<lparr>ptCurrentGeneration = 2, ptFile = manifestFileName 2\<rparr>)"
  by (auto simp: snapshotRemote_def memFile_def memWriteFile_def newMemoryAdapter_def update_conv' split: if_splits)

lemma snapshotRemote_snapshot: "memFile (snapshotRemote epoch) ''/Demo/mainline/snapshot-1-srv.json'' = Some (snapshotData epoch)"
  by (simp add: snapshotRemote_def memFile_def memWriteFile_def update_conv')

lemma snapshotRemote_matches:
  "manifestMatches memFile (snapshotRemote 1) snapshotManifest" "snapshotsMatch memFile (snapshotRemote 1)"
proof -
  show m: "manifestMatches memFile (snapshotRemote 1) snapshotManifest"
    by (auto simp: manifestMatches_def snapshotRemote_snapshot emptySnapshot_def dest!: snapshotData_decodes)
  show "snapshotsMatch memFile (snapshotRemote 1)"
    using m by (auto simp: snapshotsMatch_def snapshotData_payload dest!: snapshotRemote_files)
qed

theorem reader_pull_terminates_witness:
  "\<exists>eg'. pullNow 2 demoEnv readerConfig (snapshotReader 1) = Some (eg', Inr ()) \<and> localEpoch eg' = Num 1"
proof -
  have "cloud_adapter (evOps demoEnv) memFile (\<lambda>f. \<not> endsWith f ''/'')" by (simp add: memcloud.cloud_adapter_axioms)
  from reader_pull_terminates [OF this, of "snapshotReader 1" 0 readerConfig] snapshotRemote_matches
  obtain out where run: "pullNow 2 demoEnv readerConfig (snapshotReader 1) = Some out"
    by (auto simp: snapshotReader_def demoEngine_def numeral_2_eq_2)
  have "(case pullNow 2 demoEnv readerConfig (snapshotReader 1) of Some (eg', Inr _) \<Rightarrow> localEpoch eg' = Num 1 | _ \<Rightarrow> False)"
    by code_simp
  with run show ?thesis by (cases out) (auto split: sum.splits)
qed

theorem reader_pull_never_returns_witness:
  "(\<forall>n. pullNow n demoEnv readerConfig (snapshotReader 0) = None) \<and> localEpoch (snapshotReader 0) = Num 0"
proof -
  have read: "opReadFile (memoryOps ''t1'') ''/Demo/mainline/snapshot-1-srv.json'' (snapshotRemote 0) = Inr (snapshotData 0)"
    by (rule memcloud.reads [OF snapshotRemote_snapshot])
  have dec: "\<exists>s'. decodeSnapshotPayload (codecStateOf (snapshotReader 0)) (snapshotData 0) s = (s', Inr (emptySnapshot 0))"
    if "boundTo ''mesh_1'' s" for s
    using that by (auto simp: decodeSnapshotPayload_def snapshotData_payload decodeFromCloud_def jsonParse_def payloadOf_def codecStateOf_def snapshotReader_def
        demoEngine_def assertExpectedMeshId_def boundTo_def Let_def split: jsval.splits)
  have "boundTo ''mesh_1'' newMemoryStore" by (simp add: boundTo_def storeGetMeta_def newMemoryStore_def)
  moreover have "localEpoch (snapshotReader 0) = Num 0"
    by (simp add: localEpoch_def snapshotReader_def demoEngine_def storeGetMeta_def newMemoryStore_def)
  moreover have "ssLocal (snapshotReader 0) = newMemoryStore" "ssRemote (snapshotReader 0) = snapshotRemote 0"
    "egManifest (snapshotReader 0) = Some snapshotManifest" "egReaderManifestFresh (snapshotReader 0)" "requireAdapter ''pull()'' (snapshotReader 0) = Inr ()"
    by (simp_all add: snapshotReader_def demoEngine_def requireAdapter_def)
  ultimately have "staleSnapshot demoEnv snapshotManifest (emptySnapshot 0) (snapshotReader 0)"
    using read dec by (auto simp: staleSnapshot_def emptySnapshot_def)
  moreover have "cfReaderMode readerConfig" by (simp add: readerConfig_def)
  ultimately show ?thesis using reader_pull_never_returns \<open>localEpoch (snapshotReader 0) = Num 0\<close> by blast
qed

section \<open>The retention check\<close>

definition armed :: "'r env \<Rightarrow> int \<Rightarrow> 'r engine \<Rightarrow> bool" where
  "armed env delay eg \<longleftrightarrow> egRetentionTimer eg \<and> egRetentionDueAt eg \<le> evNow env + delay"

lemma mayCheck_schedule [simp]: "mayCheckRetention cfg (scheduleRetentionCompactionCheck env cfg d eg) = mayCheckRetention cfg eg"
  by (simp add: mayCheckRetention_def scheduleRetentionCompactionCheck_def managedMesh_def Let_def)

lemma schedule_armed: "mayCheckRetention cfg eg \<Longrightarrow> max 0 d \<le> e \<Longrightarrow> armed env e (scheduleRetentionCompactionCheck env cfg d eg)"
  by (auto simp: armed_def mayCheckRetention_def scheduleRetentionCompactionCheck_def hasRemotePath_def emit_def Let_def split: option.splits)

lemma doLoad_retention:
  assumes "doLoadOrCreateManifest env cfg reason True opts persist eg = (eg', Inr b)"
  shows "\<exists>m p. egManifest eg' = Some m \<and> mfRetention m = Some (policyInput p) \<and> policyOk p"
proof -
  obtain s1 r1 m ctx where load: "loadManifestFrom (evSha env) (evFresh env) (evIso env (evNow env)) (evOps env) ctx (codecStateOf eg) opts
      (ssLocal eg) (ssRemote eg) = ((s1, r1), Inr (m, b))" and m: "egManifest eg' = Some m"
    using assms by (auto simp: doLoadOrCreateManifest_def split: sum.splits prod.splits option.splits)
  then obtain found where "resolveManifest (evSha env) found = Inr m"
    by (auto simp: loadManifestFrom_def split: sum.splits prod.splits if_splits)
  then show ?thesis using m
    by (auto simp: resolveManifest_def bind_result_Inr_iff split: option.splits dest: resolveRetentionPolicy_ok)
qed

definition recheckWithin :: "engine_config \<Rightarrow> 'r engine \<Rightarrow> int" where
  "recheckWithin cfg eg = max RETENTION_RETRY_DELAY_MS (case activeRetentionPolicy cfg eg of Inr p \<Rightarrow> rpCompactAfterMs p | Inl _ \<Rightarrow> 0)"

lemma recheck_schedule [simp]: "recheckWithin cfg (scheduleRetentionCompactionCheck env cfg d eg) = recheckWithin cfg eg"
  by (simp add: recheckWithin_def activeRetentionPolicy_def scheduleRetentionCompactionCheck_def Let_def)

lemma rearmed:
  "mayCheckRetention cfg eg' \<Longrightarrow> eg' = scheduleRetentionCompactionCheck env cfg d eg \<Longrightarrow> d \<le> recheckWithin cfg eg \<Longrightarrow>
    armed env (recheckWithin cfg eg') eg'"
proof -
  assume "mayCheckRetention cfg eg'" "eg' = scheduleRetentionCompactionCheck env cfg d eg" "d \<le> recheckWithin cfg eg"
  moreover have "0 \<le> recheckWithin cfg eg" unfolding recheckWithin_def RETENTION_RETRY_DELAY_MS_def by linarith
  ultimately show ?thesis using schedule_armed [of cfg eg d "recheckWithin cfg eg" env] by simp
qed

lemma cleanSnapshots_policy:
  assumes "cleanSnapshots env cfg root eg = (eg', Inr retry)"
  shows "\<exists>p. activeRetentionPolicy cfg eg' = Inr p"
proof -
  obtain eg1 b where load: "doLoadOrCreateManifest env cfg ''snapshot-retention-check'' True defaultLoad True eg = (eg1, Inr b)"
    using assms by (auto simp: cleanSnapshots_def split: sum.splits prod.splits)
  have "egManifest (fst (pruneSupersededSnapshots ops root path a)) = egManifest a" for ops path and a :: "'a engine"
    by (auto simp: pruneSupersededSnapshots_def Let_def split: sum.splits prod.splits)
  then have same: "egManifest b = egManifest a" if "pruneSupersededSnapshots ops root path a = (b, r)" for ops path r and a b :: "'a engine"
    using that by (metis fst_conv)
  have "egManifest eg' = egManifest eg1"
    using assms load same by (auto simp: cleanSnapshots_def split: option.splits if_splits prod.splits)
  with doLoad_retention [OF load] show ?thesis by (auto simp: activeRetentionPolicy_def resolve_policyInput)
qed

lemma checkAge_rearms:
  assumes run: "checkAge n env cfg retry files eg = Some (eg', res)" and may: "mayCheckRetention cfg eg'"
    and policy: "activeRetentionPolicy cfg eg = Inr p"
  shows "res = Inr () \<and> armed env (recheckWithin cfg eg') eg'"
proof -
  have d: "d \<le> recheckWithin cfg a" if "d \<le> RETENTION_RETRY_DELAY_MS \<or> d \<le> rpCompactAfterMs p" "activeRetentionPolicy cfg a = Inr p" for d and a :: "'a engine"
    using that by (auto simp: recheckWithin_def)
  have again: "res = Inr () \<and> armed env (recheckWithin cfg eg') eg'"
    if "Some (scheduleRetentionCompactionCheck env cfg d eg, Inr ()) = Some (eg', res)" "d \<le> RETENTION_RETRY_DELAY_MS \<or> d \<le> rpCompactAfterMs p" for d
    using that rearmed [OF may _ d [OF that(2) policy]] by auto
  show ?thesis
  proof (cases "oldestChangeAt env files")
    case None
    then show ?thesis using run policy again by (auto simp: checkAge_def Let_def split: if_splits)
  next
    case (Some oldest)
    let ?age = "max 0 (evNow env - oldest)"
    consider (young) "?age < rpCompactAfterMs p" | (busy) "\<not> ?age < rpCompactAfterMs p" "egCompactInFlight eg"
      | (old) "\<not> ?age < rpCompactAfterMs p" "\<not> egCompactInFlight eg" by blast
    then show ?thesis
    proof cases
      case young
      then show ?thesis
        using run policy Some again [of "if retry then min (rpCompactAfterMs p - ?age) RETENTION_RETRY_DELAY_MS else rpCompactAfterMs p - ?age"]
        by (auto simp: checkAge_def Let_def split: if_splits)
    next
      case busy
      then show ?thesis
        using run policy Some again [of 60000] by (auto simp: checkAge_def Let_def RETENTION_RETRY_DELAY_MS_def)
    next
      case old
      then obtain c where c: "compactForRetention n env cfg oldest ?age eg = Some c" "eg' = c" "res = Inr ()"
        using run policy Some by (auto simp: checkAge_def Let_def)
      then obtain a where "eg' = scheduleRetentionCompactionCheck env cfg RETENTION_RETRY_DELAY_MS a"
        by (auto simp: compactForRetention_def Let_def split: option.splits prod.splits)
      with c(3) rearmed [OF may this] show ?thesis by (simp add: recheckWithin_def)
    qed
  qed
qed

text \<open>The retention check never lapses. When a check returns and the device may still check, the next check is
  armed, within an hour or within the age at which the mesh compacts, whichever is longer: after an unreadable manifest, a listing
  that failed, a snapshot that could not be deleted, a compaction under way, a failed and a successful one.
  It never ends with an error.\<close>

theorem retention_rearms:
  assumes "mayCheckRetention cfg eg" "runRetentionCompactionCheck n env cfg eg = Some (eg', res)" "mayCheckRetention cfg eg'"
  shows "res = Inr () \<and> egRetentionTimer eg' \<and> egRetentionDueAt eg' \<le> evNow env + recheckWithin cfg eg'"
proof -
  have "res = Inr () \<and> armed env (recheckWithin cfg eg') eg'"
  proof (cases "ssPoison eg")
    case (Some e)
    then have "res = Inr ()" "eg' = scheduleRetentionCompactionCheck env cfg RETENTION_RETRY_DELAY_MS eg"
      using assms(1,2) by (simp_all add: runRetentionCompactionCheck_def)
    with rearmed [OF assms(3)] show ?thesis by (simp add: recheckWithin_def)
  next
    case None
    obtain eg1 c where clean: "cleanSnapshots env cfg (the (cfRemotePath cfg)) eg = (eg1, c)" by force
    have failed: "res = Inr () \<and> armed env (recheckWithin cfg eg') eg'" if "Some (retentionFailed env cfg e eg1, Inr ()) = Some (eg', res)" for e
      using that rearmed [OF assms(3), of env RETENTION_RETRY_DELAY_MS "emit (RetentionError e) eg1"]
      by (simp add: retentionFailed_def recheckWithin_def)
    show ?thesis
    proof (cases c)
      case (Inl e)
      then show ?thesis using assms(1,2) None clean failed by (auto simp: runRetentionCompactionCheck_def Let_def)
    next
      case (Inr retry)
      obtain p where p: "activeRetentionPolicy cfg eg1 = Inr p" using cleanSnapshots_policy clean Inr by blast
      show ?thesis
      proof (cases "opListFiles (evOps env) (changesFolder (the (cfRemotePath cfg))) (ssRemote eg1)")
        case (Inl e)
        then show ?thesis using assms(1,2) None clean \<open>c = Inr retry\<close> failed by (auto simp: runRetentionCompactionCheck_def Let_def)
      next
        case (Inr files)
        with assms(1,2) None clean \<open>c = Inr retry\<close> have "checkAge n env cfg retry files eg1 = Some (eg', res)"
          by (simp add: runRetentionCompactionCheck_def Let_def)
        from checkAge_rearms [OF this assms(3) p] show ?thesis .
      qed
    qed
  qed
  then show ?thesis by (simp add: armed_def)
qed

text \<open>A managed mesh without change files.\<close>

definition managedEngine :: "cloud_data memory_adapter engine" where
  "managedEngine = (demoEngine newMemoryAdapter)\<lparr>ssConnected := True, ssPoison := None,
     egManifest := Some (snapshotManifest\<lparr>mfMeshId := ''mesh_9'', mfServer := \<lparr>scManaged = True, scRelayUrl = None, scServerId = ''srv''\<rparr>\<rparr>)\<rparr>"

definition managedConfig :: engine_config where
  "managedConfig = demoConfig\<lparr>cfServerManaged := True\<rparr>"

theorem retention_rearms_witness:
  "\<exists>eg'. runRetentionCompactionCheck 2 demoEnv managedConfig managedEngine = Some (eg', Inr ()) \<and> egRetentionTimer eg'
    \<and> egRetentionDueAt eg' \<le> evNow demoEnv + recheckWithin managedConfig eg'"
proof -
  let ?run = "runRetentionCompactionCheck 2 demoEnv managedConfig managedEngine"
  have ev: "mayCheckRetention managedConfig managedEngine" "(case ?run of Some (eg', _) \<Rightarrow> mayCheckRetention managedConfig eg' | None \<Rightarrow> False)"
    by code_simp+
  then obtain eg' res where run: "?run = Some (eg', res)" "mayCheckRetention managedConfig eg'" by (auto split: option.splits prod.splits)
  from retention_rearms [OF ev(1) run] run(1) show ?thesis by auto
qed

end
