(* ===== verification/Host_Paths.thy ===== *)
theory Host_Paths
  imports Js_Prelude
begin

text \<open>
  The paths of the mailbox host (\<open>packages/workers/src/paths.ts\<close>, and the path helpers of
  \<open>ops.ts\<close>): normalisation, the role a path has by its shape, and the mesh root that owns it. The
  regular expressions of the source are written out as predicates on names. The lemmas give the
  shape of a normalised path and the role and root of a path put together from its parts.
\<close>

datatype path_type = EvictionRecord | ManifestPointer | ManifestSnapshot | Head | ChangeFile
  | MainlineSnapshot | DeviceHeartbeat | OtherPath

definition rootedPath :: "string \<Rightarrow> string" where
  "rootedPath p = (if startsWith p ''/'' then p else ''/'' @ p)"

definition lastName :: "string \<Rightarrow> string" where
  "lastName p = jsliceFrom p (lastIndexOf p ''/'' + 1)"

definition beforeLast :: "string \<Rightarrow> string" where
  "beforeLast p = jslice p 0 (lastIndexOf p ''/'')"

text \<open>\<open>/^manifest-\d+\.json$/\<close>\<close>

definition isManifestSnapshotName :: "string \<Rightarrow> bool" where
  "isManifestSnapshotName name =
     (let digits = drop 9 (take (length name - 5) name) in
      startsWith name ''manifest-'' \<and> endsWith name ''.json'' \<and> 14 < length name \<and> list_all (isDigit 10) digits)"

text \<open>\<open>/^.+-chg_.+\.json$/\<close>; the dot matches no line terminator.\<close>

definition isChangeFileName :: "string \<Rightarrow> bool" where
  "isChangeFileName name =
     (endsWith name ''.json'' \<and> list_all (\<lambda>c. c \<noteq> CHR 0x0A \<and> c \<noteq> CHR 0x0D) name \<and>
      list_ex (\<lambda>i. startsAt ''-chg_'' name i \<and> i + 5 < length name - 5) [1..<length name])"

definition classifyPath :: "string \<Rightarrow> path_type" where
  "classifyPath path =
     (let normalized = rootedPath path;
          name = lastName normalized;
          parent0 = beforeLast normalized;
          parent = (if parent0 = '''' then ''/'' else parent0);
          parentName = lastName parent
      in if name = ''evicted.json'' then EvictionRecord
         else if name = ''manifest.json'' then ManifestPointer
         else if isManifestSnapshotName name then ManifestSnapshot
         else if name = ''head.json'' \<and> parentName = ''changes'' then Head
         else if isChangeFileName name \<and> parentName = ''changes'' then ChangeFile
         else if parentName = ''mainline'' then MainlineSnapshot
         else if parentName = ''devices'' then DeviceHeartbeat
         else OtherPath)"

definition parentPath :: "string \<Rightarrow> string option" where
  "parentPath v =
     (if v = ''/'' then None
      else let idx = lastIndexOf v ''/'' in Some (if idx \<le> 0 then ''/'' else jslice v 0 idx))"

definition MESH_CHILD_TYPES :: "path_type list" where
  "MESH_CHILD_TYPES = [Head, ChangeFile, MainlineSnapshot, DeviceHeartbeat]"

definition meshRootForPath :: "string \<Rightarrow> path_type \<Rightarrow> string option" where
  "meshRootForPath path pathType =
     (let normalized = rootedPath path in
      if normalized = ''/'' then None
      else if pathType = EvictionRecord \<or> pathType = ManifestPointer \<or> pathType = ManifestSnapshot
      then parentPath normalized
      else if pathType \<in> set MESH_CHILD_TYPES
      then (case parentPath normalized of None \<Rightarrow> None | Some parent \<Rightarrow> parentPath parent)
      else (case filter (\<lambda>s. s \<noteq> '''') (jsplit (CHR ''/'') normalized) of
              [] \<Rightarrow> None | seg # _ \<Rightarrow> Some (''/'' @ seg)))"

text \<open>\<open>replaceAll(/\/+/g, "/")\<close>\<close>

fun collapseSlashes :: "string \<Rightarrow> string" where
  "collapseSlashes [] = []"
| "collapseSlashes (c # cs) =
     (if c = CHR ''/'' \<and> cs \<noteq> [] \<and> hd cs = CHR ''/'' then collapseSlashes cs else c # collapseSlashes cs)"

definition normalizePath :: "string \<Rightarrow> string" where
  "normalizePath raw =
     (let c = collapseSlashes (rootedPath raw) in
      if c = ''/'' then ''/'' else if endsWith c ''/'' then butlast c else c)"

definition fileNameFromPath :: "string \<Rightarrow> string" where
  "fileNameFromPath p =
     (case rev (filter (\<lambda>s. s \<noteq> '''') (jsplit (CHR ''/'') p)) of [] \<Rightarrow> '''' | s # _ \<Rightarrow> s)"

definition parentDirOf :: "string \<Rightarrow> string" where
  "parentDirOf p = (let idx = lastIndexOf p ''/'' in if idx \<le> 0 then ''/'' else jslice p 0 idx)"

text \<open>\<open>normalized.slice(0, normalized.lastIndexOf("/")) || "/"\<close>, as the write operations spell it.\<close>

definition parentDirOr :: "string \<Rightarrow> string" where
  "parentDirOr p = (let d = beforeLast p in if d = '''' then ''/'' else d)"

section \<open>Paths put together from their parts\<close>

lemma startsAt_slash: "startsAt ''/'' s i \<longleftrightarrow> i < length s \<and> s ! i = CHR ''/''"
  by (rule startsAt_char)

lemma lastIndexOf_char:
  assumes "c \<notin> set name"
  shows "lastIndexOf (pre @ c # name) [c] = int (length pre)"
proof -
  let ?s = "pre @ c # name"
  have "[0..<Suc (length ?s)] = [0..<length pre] @ length pre # [Suc (length pre)..<Suc (length ?s)]"
    by (rule upt_split) simp
  moreover have "filter (startsAt [c] ?s) [Suc (length pre)..<Suc (length ?s)] = []"
    using assms by (auto simp: filter_empty_conv startsAt_char nth_append nth_Cons' in_set_conv_nth)
  moreover have "startsAt [c] ?s (length pre)"
    by (simp add: startsAt_char nth_append)
  ultimately show ?thesis by (simp add: lastIndexOf_def)
qed

lemmas lastIndexOf_slash = lastIndexOf_char [where c = "CHR ''/''"]

lemma lastName_append: "CHR ''/'' \<notin> set name \<Longrightarrow> lastName (pre @ CHR ''/'' # name) = name"
  by (simp add: lastName_def lastIndexOf_slash jsliceFrom_def clampIndex_def nat_add_distrib)

lemma beforeLast_append: "CHR ''/'' \<notin> set name \<Longrightarrow> beforeLast (pre @ CHR ''/'' # name) = pre"
  by (simp add: beforeLast_def lastIndexOf_slash jslice_def clampIndex_def)

lemma parentPath_append:
  assumes "CHR ''/'' \<notin> set name" "pre \<noteq> []"
  shows "parentPath (pre @ CHR ''/'' # name) = Some pre"
proof -
  have "pre @ CHR ''/'' # name \<noteq> ''/''" using assms(2) by (cases pre) auto
  then show ?thesis
    using assms by (simp add: parentPath_def Let_def lastIndexOf_slash jslice_def clampIndex_def)
qed

lemma rootedPath_slash [simp]: "rootedPath (CHR ''/'' # p) = CHR ''/'' # p"
  by (simp add: rootedPath_def startsWith_def startsAt_slash)

lemma rootedPath_append [simp]: "startsWith root ''/'' \<Longrightarrow> rootedPath (root @ p) = root @ p"
  by (cases root) (simp_all add: startsWith_def startsAt_slash)

lemma startsWith_slash: "startsWith p ''/'' \<longleftrightarrow> (\<exists>q. p = CHR ''/'' # q)"
  by (cases p) (auto simp: startsWith_def startsAt_slash)

text \<open>A file of a folder of a mesh: its role is read off the two last names, its mesh is two levels up.\<close>

lemma classify_parts:
  assumes "rootedPath p = p" "lastName p = name" "beforeLast p = dir" "dir \<noteq> ''''" "lastName dir = folder"
  shows "classifyPath p =
    (if name = ''evicted.json'' then EvictionRecord
     else if name = ''manifest.json'' then ManifestPointer
     else if isManifestSnapshotName name then ManifestSnapshot
     else if name = ''head.json'' \<and> folder = ''changes'' then Head
     else if isChangeFileName name \<and> folder = ''changes'' then ChangeFile
     else if folder = ''mainline'' then MainlineSnapshot
     else if folder = ''devices'' then DeviceHeartbeat
     else OtherPath)"
  unfolding classifyPath_def Let_def assms(1-3) using assms(4,5) by simp

lemma classify_child:
  assumes root: "startsWith root ''/''" and names: "CHR ''/'' \<notin> set folder" "CHR ''/'' \<notin> set name"
  shows "classifyPath (root @ CHR ''/'' # folder @ CHR ''/'' # name) =
    (if name = ''evicted.json'' then EvictionRecord
     else if name = ''manifest.json'' then ManifestPointer
     else if isManifestSnapshotName name then ManifestSnapshot
     else if name = ''head.json'' \<and> folder = ''changes'' then Head
     else if isChangeFileName name \<and> folder = ''changes'' then ChangeFile
     else if folder = ''mainline'' then MainlineSnapshot
     else if folder = ''devices'' then DeviceHeartbeat
     else OtherPath)"
proof (rule classify_parts)
  show "rootedPath (root @ CHR ''/'' # folder @ CHR ''/'' # name) = root @ CHR ''/'' # folder @ CHR ''/'' # name"
    using root by (rule rootedPath_append)
  show "lastName (root @ CHR ''/'' # folder @ CHR ''/'' # name) = name"
    using lastName_append [OF names(2), of "root @ CHR ''/'' # folder"] by (simp only: append_assoc append_Cons)
  show "beforeLast (root @ CHR ''/'' # folder @ CHR ''/'' # name) = root @ CHR ''/'' # folder"
    using beforeLast_append [OF names(2), of "root @ CHR ''/'' # folder"] by (simp only: append_assoc append_Cons)
  show "lastName (root @ CHR ''/'' # folder) = folder" by (rule lastName_append [OF names(1)])
qed simp

lemma mesh_root_child:
  assumes root: "startsWith root ''/''" "CHR ''/'' \<notin> set folder" "CHR ''/'' \<notin> set name"
    and type: "pathType \<in> set MESH_CHILD_TYPES"
  shows "meshRootForPath (root @ CHR ''/'' # folder @ CHR ''/'' # name) pathType = Some root"
proof -
  let ?dir = "root @ CHR ''/'' # folder"
  have ne: "root \<noteq> []" using root by (auto simp: startsWith_slash)
  have "rootedPath (?dir @ CHR ''/'' # name) = ?dir @ CHR ''/'' # name" using root by simp
  moreover have "parentPath (?dir @ CHR ''/'' # name) = Some ?dir" "parentPath ?dir = Some root"
    using root ne parentPath_append [of name ?dir] parentPath_append [of folder root] by simp_all
  moreover have "?dir @ CHR ''/'' # name \<noteq> ''/''" using ne by (cases root) auto
  ultimately show ?thesis
    using type by (auto simp: meshRootForPath_def Let_def MESH_CHILD_TYPES_def)
qed

text \<open>A file at the root of a mesh.\<close>

lemma classify_top:
  assumes "startsWith root ''/''" "CHR ''/'' \<notin> set name"
  shows "name = ''evicted.json'' \<Longrightarrow> classifyPath (root @ CHR ''/'' # name) = EvictionRecord"
    and "name = ''manifest.json'' \<Longrightarrow> classifyPath (root @ CHR ''/'' # name) = ManifestPointer"
    and "isManifestSnapshotName name \<Longrightarrow> name \<noteq> ''evicted.json'' \<Longrightarrow> name \<noteq> ''manifest.json'' \<Longrightarrow>
      classifyPath (root @ CHR ''/'' # name) = ManifestSnapshot"
proof -
  have "rootedPath (root @ CHR ''/'' # name) = root @ CHR ''/'' # name"
    "lastName (root @ CHR ''/'' # name) = name"
    using assms by (simp_all add: lastName_append)
  then show "name = ''evicted.json'' \<Longrightarrow> classifyPath (root @ CHR ''/'' # name) = EvictionRecord"
    and "name = ''manifest.json'' \<Longrightarrow> classifyPath (root @ CHR ''/'' # name) = ManifestPointer"
    and "isManifestSnapshotName name \<Longrightarrow> name \<noteq> ''evicted.json'' \<Longrightarrow> name \<noteq> ''manifest.json'' \<Longrightarrow>
      classifyPath (root @ CHR ''/'' # name) = ManifestSnapshot"
    by (simp_all add: classifyPath_def Let_def)
qed

lemma mesh_root_top:
  assumes "startsWith root ''/''" "CHR ''/'' \<notin> set name"
    and "pathType = EvictionRecord \<or> pathType = ManifestPointer \<or> pathType = ManifestSnapshot"
  shows "meshRootForPath (root @ CHR ''/'' # name) pathType = Some root"
proof -
  have "root \<noteq> []" using assms(1) by (auto simp: startsWith_slash)
  then have "parentPath (root @ CHR ''/'' # name) = Some root" "root @ CHR ''/'' # name \<noteq> ''/''"
    using assms(2) by (auto simp: parentPath_append) (cases root; simp)
  then show ?thesis using assms(1,3) by (auto simp: meshRootForPath_def Let_def)
qed

section \<open>Normalised paths\<close>

fun noDoubleSlash :: "string \<Rightarrow> bool" where
  "noDoubleSlash [] = True"
| "noDoubleSlash (c # cs) = (\<not> (c = CHR ''/'' \<and> cs \<noteq> [] \<and> hd cs = CHR ''/'') \<and> noDoubleSlash cs)"

definition normalPath :: "string \<Rightarrow> bool" where
  "normalPath p = (p = ''/'' \<or> startsWith p ''/'' \<and> noDoubleSlash p \<and> last p \<noteq> CHR ''/'')"

lemma hd_collapse [simp]: "cs \<noteq> [] \<Longrightarrow> hd (collapseSlashes cs) = hd cs"
  by (induction cs) auto

lemma collapse_Nil_iff [simp]: "collapseSlashes cs = [] \<longleftrightarrow> cs = []"
  by (induction cs) auto

lemma noDoubleSlash_collapse: "noDoubleSlash (collapseSlashes cs)"
  by (induction cs) auto

lemma collapse_id: "noDoubleSlash cs \<Longrightarrow> collapseSlashes cs = cs"
  by (induction cs) auto

lemma noDoubleSlash_butlast: "noDoubleSlash cs \<Longrightarrow> noDoubleSlash (butlast cs)"
  by (induction cs) (auto simp: neq_Nil_conv split: if_splits)

lemma endsWith_slash: "endsWith p ''/'' \<longleftrightarrow> p \<noteq> [] \<and> last p = CHR ''/''"
  by (cases p rule: rev_cases) (auto simp: endsWith_def)

lemma noDoubleSlash_last: "noDoubleSlash (p @ [c, d]) \<Longrightarrow> c \<noteq> CHR ''/'' \<or> d \<noteq> CHR ''/''"
  by (induction p) auto

lemma normalPath_normalizePath: "normalPath (normalizePath raw)"
proof -
  define c where "c = collapseSlashes (rootedPath raw)"
  have start: "\<exists>q. rootedPath raw = CHR ''/'' # q"
    by (auto simp: rootedPath_def startsWith_slash)
  then have hd: "c \<noteq> []" "hd c = CHR ''/''" unfolding c_def by auto
  have single: "noDoubleSlash c" unfolding c_def by (rule noDoubleSlash_collapse)
  show ?thesis
  proof (cases "c = ''/''")
    case True
    then show ?thesis by (simp add: normalizePath_def normalPath_def flip: c_def)
  next
    case False
    show ?thesis
    proof (cases "last c = CHR ''/''")
      case True
      obtain p d where p: "c = p @ [d, CHR ''/'']"
        using True hd False by (metis (no_types, lifting) append_Nil append_assoc append_butlast_last_id append_Cons list.sel(1))
      then have "d \<noteq> CHR ''/''" using noDoubleSlash_last single by blast
      moreover have "startsWith (p @ [d]) ''/''" "noDoubleSlash (p @ [d])"
        using hd(2) noDoubleSlash_butlast [OF single] p by (cases p; simp add: startsWith_slash butlast_append)+
      ultimately show ?thesis
        using False True p by (simp add: normalizePath_def normalPath_def endsWith_slash butlast_append flip: c_def)
    next
      case last: False
      then show ?thesis
        using hd False single
        by (cases c) (simp_all add: normalizePath_def normalPath_def endsWith_slash startsWith_slash flip: c_def)
    qed
  qed
qed

lemma normalize_id: "normalPath p \<Longrightarrow> normalizePath p = p"
  by (auto simp: normalPath_def normalizePath_def startsWith_slash collapse_id endsWith_slash Let_def)

lemma normalize_idem [simp]: "normalizePath (normalizePath raw) = normalizePath raw"
  by (rule normalize_id [OF normalPath_normalizePath])

lemma normalPath_starts: "normalPath p \<Longrightarrow> startsWith p ''/''"
  by (auto simp: normalPath_def startsWith_slash)

end
