(* ===== verification/Row_Store.thy ===== *)
theory Row_Store
  imports Host_Paths Js_Value Mesh_Key
begin

text \<open>
  The row store of the mailbox host (\<open>packages/workers/src/ops.ts\<close>, \<open>maintenance.ts\<close>,
  \<open>schema.ts\<close>): its tables, the operations on them, and the sweep that evicts idle meshes.

  A table is an association list by its primary key. The SQL the operations run is written out with
  the meaning SQLite documents for it: \<open>INSERT OR IGNORE\<close> keeps a row that is there, an upsert
  replaces it, \<open>LIKE\<close> matches \<open>%\<close> with any text and \<open>_\<close> with any character and ignores
  the case of ASCII letters, a batch is one transaction. Text is compared by code unit. The bytes of
  a file are a type parameter whose \<open>size\<close> is \<open>byteLength\<close>; \<open>host_env\<close> holds what an
  operation reads from its surroundings: the clock, a fresh entity tag, and \<open>JSON.parse\<close> of the bytes
  of a file. A database call that fails is an exception of the whole operation and is not modelled.

  The cache of the runtime is optional, is the one of the location that serves the request, and may
  lose any entry at any time.
\<close>

section \<open>Tables\<close>

record 'b file_row =
  frContent :: 'b
  frSize :: int
  frModifiedTime :: string
  frEtag :: string

record stored_file_row =
  srBodyKey :: string
  srSize :: int
  srSealGuard :: "string option"
  srUploadedByDeviceId :: string
  srUploadedAt :: string
  srModifiedTime :: string
  srLastAccessedAt :: "string option"
  srUseCount :: int
  srEtag :: string

record mesh_path_row =
  mpCreatedAt :: string
  mpUpdatedAt :: string
  mpLastOperationAt :: "string option"
  mpLastReadAt :: "string option"
  mpLastWriteAt :: "string option"
  mpLastTtlDeleteAt :: "string option"
  mpDeletedAt :: "string option"
  mpOpsDay :: "string option"
  mpOpsCountDay :: int
  mpWritesCountDay :: int
  mpFileCount :: int
  mpTotalBytes :: int
  mpChangeBytes :: int
  mpMainlineBytes :: int

text \<open>The primary key: the mount prefix and a path or remote root.\<close>

type_synonym path_key = "string \<times> string"

record 'b database =
  dbFiles :: "(path_key \<times> 'b file_row) list"
  dbFolders :: "(path_key \<times> string) list"
  dbStoredFiles :: "(path_key \<times> stored_file_row) list"
  dbMeshPaths :: "(path_key \<times> mesh_path_row) list"

definition emptyDatabase :: "'b database" where
  "emptyDatabase = \<lparr>dbFiles = [], dbFolders = [], dbStoredFiles = [], dbMeshPaths = []\<rparr>"

section \<open>SQL\<close>

definition insertOrIgnore :: "'k \<Rightarrow> 'v \<Rightarrow> ('k \<times> 'v) list \<Rightarrow> ('k \<times> 'v) list" where
  "insertOrIgnore k v t = (if map_of t k = None then t @ [(k, v)] else t)"

definition deleteWhere :: "('k \<Rightarrow> bool) \<Rightarrow> ('k \<times> 'v) list \<Rightarrow> ('k \<times> 'v) list" where
  "deleteWhere P t = filter (\<lambda>(k, v). \<not> P k) t"

definition updateWhere :: "('k \<Rightarrow> bool) \<Rightarrow> ('v \<Rightarrow> 'v) \<Rightarrow> ('k \<times> 'v) list \<Rightarrow> ('k \<times> 'v) list" where
  "updateWhere P f t = map (\<lambda>(k, v). (k, if P k then f v else v)) t"

definition asciiLower :: "char \<Rightarrow> char" where
  "asciiLower c = (let n = (of_char c :: nat) in if 65 \<le> n \<and> n \<le> 90 then char_of (n + 32) else c)"

fun sqlLike :: "string \<Rightarrow> string \<Rightarrow> bool" where
  "sqlLike [] t = (t = [])"
| "sqlLike (p # ps) [] = (p = CHR ''%'' \<and> sqlLike ps [])"
| "sqlLike (p # ps) (c # cs) =
     (if p = CHR ''%'' then sqlLike ps (c # cs) \<or> sqlLike (p # ps) cs
      else (p = CHR ''_'' \<or> asciiLower p = asciiLower c) \<and> sqlLike ps cs)"

text \<open>\<open>s < p + "\uFFFF"\<close>, a character above every one a path holds.\<close>

fun belowTop :: "string \<Rightarrow> string \<Rightarrow> bool" where
  "belowTop s [] = True"
| "belowTop [] (p # ps) = True"
| "belowTop (c # s) (p # ps) = (c < p \<or> c = p \<and> belowTop s ps)"

definition slashCount :: "string \<Rightarrow> nat" where
  "slashCount p = length (filter (\<lambda>c. c = CHR ''/'') p)"

section \<open>The surroundings of an operation\<close>

record 'b cache_entry =
  ceBytes :: 'b
  ceEtag :: string
  ceModifiedTime :: string
  ceSize :: int

record listed_file =
  lfName :: string
  lfPath :: string
  lfSize :: int
  lfModifiedTime :: string
  lfEtag :: string

record listing =
  liFiles :: "listed_file list"
  liFolders :: "string list"

record 'b worker_cache =
  wcFiles :: "(path_key \<times> 'b cache_entry) list"
  wcListings :: "(path_key \<times> listing) list"

record 'b host =
  hoDb :: "'b database"
  hoCache :: "'b worker_cache option"

record 'b host_env =
  heNow :: int
  heIso :: "int \<Rightarrow> string"
  heEtag :: string
  heJson :: "'b \<Rightarrow> jsval result"

definition nowIso :: "'b host_env \<Rightarrow> string" where
  "nowIso env = heIso env (heNow env)"

text \<open>\<open>isCacheableImmutablePathType\<close> and the cache helpers; a key is the pair \<open>cacheKeyFor\<close> encodes.\<close>

definition isCacheable :: "path_type \<Rightarrow> bool" where
  "isCacheable pathType = (pathType = ManifestSnapshot)"

definition cacheGet :: "string \<Rightarrow> string \<Rightarrow> 'b host \<Rightarrow> 'b cache_entry option" where
  "cacheGet prefix path h = (case hoCache h of None \<Rightarrow> None | Some c \<Rightarrow> map_of (wcFiles c) (prefix, path))"

definition cachePut :: "string \<Rightarrow> string \<Rightarrow> 'b::size \<Rightarrow> string \<Rightarrow> string \<Rightarrow> 'b host \<Rightarrow> 'b host" where
  "cachePut prefix path bytes etag modifiedTime h =
     h\<lparr>hoCache := map_option (\<lambda>c. c\<lparr>wcFiles := AList.update (prefix, path)
        \<lparr>ceBytes = bytes, ceEtag = etag, ceModifiedTime = modifiedTime, ceSize = int (size bytes)\<rparr> (wcFiles c)\<rparr>) (hoCache h)\<rparr>"

definition cacheDelete :: "string \<Rightarrow> string \<Rightarrow> 'b host \<Rightarrow> 'b host" where
  "cacheDelete prefix path h =
     h\<lparr>hoCache := map_option (\<lambda>c. c\<lparr>wcFiles := AList.delete (prefix, path) (wcFiles c)\<rparr>) (hoCache h)\<rparr>"

definition isAuthoritativeCompactionListing :: "string \<Rightarrow> bool" where
  "isAuthoritativeCompactionListing path = (endsWith path ''/changes'' \<or> endsWith path ''/mainline'')"

definition listingCacheGet :: "string \<Rightarrow> string \<Rightarrow> 'b host \<Rightarrow> listing option" where
  "listingCacheGet prefix path h =
     (case hoCache h of None \<Rightarrow> None | Some c \<Rightarrow> map_of (wcListings c) (prefix, path))"

definition listingCachePut :: "string \<Rightarrow> string \<Rightarrow> listing \<Rightarrow> 'b host \<Rightarrow> 'b host" where
  "listingCachePut prefix path l h =
     h\<lparr>hoCache := map_option (\<lambda>c. c\<lparr>wcListings := AList.update (prefix, path) l (wcListings c)\<rparr>) (hoCache h)\<rparr>"

definition listingCacheDelete :: "string \<Rightarrow> string \<Rightarrow> 'b host \<Rightarrow> 'b host" where
  "listingCacheDelete prefix path h =
     h\<lparr>hoCache := map_option (\<lambda>c. c\<lparr>wcListings := AList.delete (prefix, path) (wcListings c)\<rparr>) (hoCache h)\<rparr>"

section \<open>Folders and metrics\<close>

fun pathPrefixes :: "string \<Rightarrow> string list \<Rightarrow> string list" where
  "pathPrefixes cur [] = []"
| "pathPrefixes cur (seg # segs) = (let cur' = cur @ ''/'' @ seg in cur' # pathPrefixes cur' segs)"

definition folderTree :: "string \<Rightarrow> string list" where
  "folderTree target =
     (let n = normalizePath target in
      if n = '''' \<or> n = ''/'' then []
      else pathPrefixes '''' (filter (\<lambda>s. s \<noteq> '''') (jsplit (CHR ''/'') n)))"

definition folderTreeStatements :: "string \<Rightarrow> string \<Rightarrow> string \<Rightarrow> 'b database \<Rightarrow> 'b database" where
  "folderTreeStatements prefix target now db =
     db\<lparr>dbFolders := fold (\<lambda>cur. insertOrIgnore (prefix, cur) now) (folderTree target) (dbFolders db)\<rparr>"

record metrics_delta =
  mdFileCount :: int
  mdTotalBytes :: int
  mdChangeBytes :: int
  mdMainlineBytes :: int

definition clampNonNeg :: "int \<Rightarrow> int" where
  "clampNonNeg v = max 0 v"

definition metricsDelta :: "path_type \<Rightarrow> int option \<Rightarrow> int option \<Rightarrow> metrics_delta" where
  "metricsDelta pathType prevSize nextSize =
     (let prev = (case prevSize of None \<Rightarrow> 0 | Some n \<Rightarrow> clampNonNeg n);
          nxt = (case nextSize of None \<Rightarrow> 0 | Some n \<Rightarrow> clampNonNeg n);
          fileDelta = (if nextSize = None then 0 else 1) - (if prevSize = None then 0 else 1);
          bytesDelta = nxt - prev
      in \<lparr>mdFileCount = fileDelta, mdTotalBytes = bytesDelta,
          mdChangeBytes = (if pathType = ChangeFile then bytesDelta else 0),
          mdMainlineBytes = (if pathType = MainlineSnapshot then bytesDelta else 0)\<rparr>)"

definition noMetrics :: metrics_delta where
  "noMetrics = \<lparr>mdFileCount = 0, mdTotalBytes = 0, mdChangeBytes = 0, mdMainlineBytes = 0\<rparr>"

text \<open>The row \<open>INSERT OR IGNORE\<close> adds, and the \<open>UPDATE\<close>; \<open>touchRead\<close>, \<open>touchWrite\<close> and
  \<open>touchOperation\<close> are the three bound times, empty for \<open>NULL\<close>.\<close>

definition newMeshPath :: "string \<Rightarrow> mesh_path_row" where
  "newMeshPath now = \<lparr>mpCreatedAt = now, mpUpdatedAt = now, mpLastOperationAt = None, mpLastReadAt = None,
     mpLastWriteAt = None, mpLastTtlDeleteAt = None, mpDeletedAt = None, mpOpsDay = Some (jslice now 0 10),
     mpOpsCountDay = 0, mpWritesCountDay = 0, mpFileCount = 0, mpTotalBytes = 0, mpChangeBytes = 0, mpMainlineBytes = 0\<rparr>"

definition coalesce :: "'a option \<Rightarrow> 'a option \<Rightarrow> 'a option" where
  "coalesce a b = (case a of None \<Rightarrow> b | Some x \<Rightarrow> Some x)"

definition countDay :: "bool \<Rightarrow> int \<Rightarrow> string option \<Rightarrow> int" where
  "countDay sameDay count touched =
     (let one = (if touched = None then 0 else 1) in if sameDay then count + one else one)"

definition touchMeshPath ::
  "metrics_delta \<Rightarrow> string \<Rightarrow> string option \<Rightarrow> string option \<Rightarrow> string option \<Rightarrow> mesh_path_row \<Rightarrow> mesh_path_row"
where
  "touchMeshPath d now touchRead touchWrite touchOperation m =
     (let today = jslice now 0 10; sameDay = (mpOpsDay m = Some today) in
      m\<lparr>mpUpdatedAt := now,
        mpDeletedAt := (if touchWrite = None then mpDeletedAt m else None),
        mpLastOperationAt := coalesce touchOperation (mpLastOperationAt m),
        mpLastReadAt := coalesce touchRead (mpLastReadAt m),
        mpLastWriteAt := coalesce touchWrite (mpLastWriteAt m),
        mpOpsCountDay := countDay sameDay (mpOpsCountDay m) touchOperation,
        mpWritesCountDay := countDay sameDay (mpWritesCountDay m) touchWrite,
        mpOpsDay := Some today,
        mpFileCount := max 0 (mpFileCount m + mdFileCount d),
        mpTotalBytes := max 0 (mpTotalBytes m + mdTotalBytes d),
        mpChangeBytes := max 0 (mpChangeBytes m + mdChangeBytes d),
        mpMainlineBytes := max 0 (mpMainlineBytes m + mdMainlineBytes d)\<rparr>)"

definition meshDeltaStatements ::
  "string \<Rightarrow> string option \<Rightarrow> metrics_delta \<Rightarrow> string \<Rightarrow> bool \<Rightarrow> bool \<Rightarrow> 'b database \<Rightarrow> 'b database"
where
  "meshDeltaStatements prefix remoteRoot d now touchRead touchWrite db =
     (case remoteRoot of
        None \<Rightarrow> db
      | Some root \<Rightarrow>
          db\<lparr>dbMeshPaths := updateWhere (\<lambda>k. k = (prefix, root))
                (touchMeshPath d now (if touchRead then Some now else None) (if touchWrite then Some now else None) (Some now))
                (insertOrIgnore (prefix, root) (newMeshPath now) (dbMeshPaths db))\<rparr>)"

section \<open>Reading and writing files\<close>

record 'b get_result =
  grBytes :: 'b
  grSize :: int
  grEtag :: string
  grModifiedTime :: string
  grFromCache :: bool

definition fileRow :: "string \<Rightarrow> string \<Rightarrow> 'b host \<Rightarrow> 'b file_row option" where
  "fileRow prefix path h = map_of (dbFiles (hoDb h)) (prefix, path)"

definition opGetFile :: "'b::size host_env \<Rightarrow> string \<Rightarrow> string \<Rightarrow> path_type \<Rightarrow> 'b host \<Rightarrow> 'b host \<times> 'b get_result option" where
  "opGetFile env prefix path pathType h =
     (let normalized = normalizePath path;
          remoteRoot = meshRootForPath normalized pathType
      in case (if isCacheable pathType then cacheGet prefix normalized h else None) of
           Some cached \<Rightarrow>
             (h, Some \<lparr>grBytes = ceBytes cached, grSize = ceSize cached, grEtag = ceEtag cached,
                       grModifiedTime = ceModifiedTime cached, grFromCache = True\<rparr>)
         | None \<Rightarrow>
             (case fileRow prefix normalized h of
                None \<Rightarrow> (h, None)
              | Some row \<Rightarrow>
                  (let h1 = (if isCacheable pathType
                             then cachePut prefix normalized (frContent row) (frEtag row) (frModifiedTime row) h else h);
                       h2 = h1\<lparr>hoDb := meshDeltaStatements prefix remoteRoot noMetrics (nowIso env) True False (hoDb h1)\<rparr>
                   in (h2, Some \<lparr>grBytes = frContent row, grSize = frSize row, grEtag = frEtag row,
                                 grModifiedTime = frModifiedTime row, grFromCache = False\<rparr>))))"

record put_result =
  prWrote :: bool
  prStatus :: int

definition newFileRow :: "'b::size host_env \<Rightarrow> 'b \<Rightarrow> 'b file_row" where
  "newFileRow env bytes = \<lparr>frContent = bytes, frSize = int (size bytes), frModifiedTime = nowIso env, frEtag = heEtag env\<rparr>"

definition opPutImmutable ::
  "'b::size host_env \<Rightarrow> string \<Rightarrow> string \<Rightarrow> 'b \<Rightarrow> path_type \<Rightarrow> string option \<Rightarrow> 'b host \<Rightarrow> 'b host \<times> put_result"
where
  "opPutImmutable env prefix path bytes pathType remoteRoot h =
     (let normalized = normalizePath path;
          now = nowIso env;
          parentDir = parentDirOr normalized;
          d = metricsDelta pathType None (Some (int (size bytes)));
          wrote = (fileRow prefix normalized h = None);
          db1 = folderTreeStatements prefix parentDir now (hoDb h);
          db2 = db1\<lparr>dbFiles := insertOrIgnore (prefix, normalized) (newFileRow env bytes) (dbFiles db1)\<rparr>;
          db3 = meshDeltaStatements prefix remoteRoot d now False True db2;
          h1 = h\<lparr>hoDb := db3\<rparr>;
          h2 = (if wrote
                then listingCacheDelete prefix parentDir
                       (if isCacheable pathType then cachePut prefix normalized bytes (heEtag env) now h1 else h1)
                else h1)
      in (h2, \<lparr>prWrote = wrote, prStatus = (if wrote then 201 else 200)\<rparr>))"

text \<open>
  Members and conversions of a parsed document: \<open>v?.k\<close>, \<open>v ?? d\<close>, \<open>Number(v)\<close> and
  \<open>String(v)\<close>. A number is an integer; a text that spells a fraction reads as \<open>NaN\<close>.
\<close>

fun optField :: "jsval \<Rightarrow> string \<Rightarrow> jsval" where
  "optField (JObj fs) k = (case map_of fs k of None \<Rightarrow> JUndefined | Some v \<Rightarrow> v)"
| "optField v k = JUndefined"

definition nullishOr :: "jsval \<Rightarrow> jsval \<Rightarrow> jsval" where
  "nullishOr v d = (if v = JUndefined \<or> v = JNull then d else v)"

fun toText :: "jsval \<Rightarrow> string" and elementText :: "jsval \<Rightarrow> string" and elementTexts :: "jsval list \<Rightarrow> string list" where
  "toText JUndefined = ''undefined''"
| "toText JNull = ''null''"
| "toText (JBool b) = (if b then ''true'' else ''false'')"
| "toText (JNum n) = toStringRadix 10 n"
| "toText (JStr s) = s"
| "toText (JDate t) = toStringRadix 10 (Num t)"
| "toText (JArr xs) = jjoin '','' (elementTexts xs)"
| "toText (JObj fs) = ''[object Object]''"
| "elementText JUndefined = ''''"
| "elementText JNull = ''''"
| "elementText (JBool b) = (if b then ''true'' else ''false'')"
| "elementText (JNum n) = toStringRadix 10 n"
| "elementText (JStr s) = s"
| "elementText (JDate t) = toStringRadix 10 (Num t)"
| "elementText (JArr xs) = jjoin '','' (elementTexts xs)"
| "elementText (JObj fs) = ''[object Object]''"
| "elementTexts [] = []"
| "elementTexts (x # xs) = elementText x # elementTexts xs"

definition textNumber :: "string \<Rightarrow> jnum" where
  "textNumber s =
     (let t = jsTrim s;
          neg = startsWith t ''-'';
          ds = (if neg \<or> startsWith t ''+'' then tl t else t)
      in if t = '''' then Num 0
         else if startsWith t ''0x'' \<or> startsWith t ''0X''
         then (if drop 2 t \<noteq> '''' \<and> list_all (isDigit 16) (drop 2 t)
               then Num (int (horner 16 (map (the \<circ> digitVal) (drop 2 t)))) else NaN)
         else if ds \<noteq> '''' \<and> list_all (isDigit 10) ds
         then Num ((if neg then - 1 else 1) * int (horner 10 (map (the \<circ> digitVal) ds)))
         else NaN)"

fun toNumber :: "jsval \<Rightarrow> jnum" where
  "toNumber JUndefined = NaN"
| "toNumber JNull = Num 0"
| "toNumber (JBool b) = Num (if b then 1 else 0)"
| "toNumber (JNum n) = n"
| "toNumber (JStr s) = textNumber s"
| "toNumber (JDate t) = Num t"
| "toNumber (JArr xs) = textNumber (toText (JArr xs))"
| "toNumber (JObj fs) = NaN"

definition generationOf :: "jsval \<Rightarrow> jnum" where
  "generationOf v = toNumber (nullishOr (optField v ''currentGeneration'') (JNum (Num (- 1))))"

definition latestHlcOf :: "jsval \<Rightarrow> string" where
  "latestHlcOf v = toText (nullishOr (optField v ''latestHlc'') (JStr ''''))"

text \<open>
  A semantic write reads the row, decides, and then writes: two database calls. \<open>semanticStale\<close> is
  the decision on what was read; text that is no JSON, on either side, decides for the write.
\<close>

definition semanticStale :: "'b host_env \<Rightarrow> path_type \<Rightarrow> 'b file_row option \<Rightarrow> 'b \<Rightarrow> bool" where
  "semanticStale env pathType existing bytes =
     (case existing of
        None \<Rightarrow> False
      | Some row \<Rightarrow>
          (case (heJson env (frContent row), heJson env bytes) of
             (Inr existingJson, Inr incomingJson) \<Rightarrow>
               pathType = ManifestPointer \<and> jlt (generationOf incomingJson) (generationOf existingJson)
               \<or> pathType = Head \<and> latestHlcOf incomingJson < latestHlcOf existingJson
           | _ \<Rightarrow> False))"

definition semanticCommit ::
  "'b::size host_env \<Rightarrow> string \<Rightarrow> string \<Rightarrow> 'b \<Rightarrow> path_type \<Rightarrow> string option \<Rightarrow> 'b file_row option \<Rightarrow> 'b host \<Rightarrow> 'b host"
where
  "semanticCommit env prefix path bytes pathType remoteRoot existing h =
     (let normalized = normalizePath path;
          now = nowIso env;
          parentDir = parentDirOr normalized;
          d = metricsDelta pathType (map_option frSize existing) (Some (int (size bytes)));
          db1 = folderTreeStatements prefix parentDir now (hoDb h);
          db2 = db1\<lparr>dbFiles := AList.update (prefix, normalized) (newFileRow env bytes) (dbFiles db1)\<rparr>
      in listingCacheDelete prefix parentDir (h\<lparr>hoDb := meshDeltaStatements prefix remoteRoot d now False False db2\<rparr>))"

definition opPutSemantic ::
  "'b::size host_env \<Rightarrow> string \<Rightarrow> string \<Rightarrow> 'b \<Rightarrow> path_type \<Rightarrow> string option \<Rightarrow> 'b host \<Rightarrow> 'b host \<times> put_result"
where
  "opPutSemantic env prefix path bytes pathType remoteRoot h =
     (let existing = fileRow prefix (normalizePath path) h in
      if semanticStale env pathType existing bytes then (h, \<lparr>prWrote = False, prStatus = 409\<rparr>)
      else (semanticCommit env prefix path bytes pathType remoteRoot existing h, \<lparr>prWrote = True, prStatus = 204\<rparr>))"

definition opPutOverwrite :: "'b::size host_env \<Rightarrow> string \<Rightarrow> string \<Rightarrow> 'b \<Rightarrow> 'b host \<Rightarrow> 'b host \<times> put_result" where
  "opPutOverwrite env prefix path bytes h =
     (let normalized = normalizePath path;
          parentDir = parentDirOr normalized;
          db1 = folderTreeStatements prefix parentDir (nowIso env) (hoDb h);
          db2 = db1\<lparr>dbFiles := AList.update (prefix, normalized) (newFileRow env bytes) (dbFiles db1)\<rparr>
      in (listingCacheDelete prefix parentDir (h\<lparr>hoDb := db2\<rparr>), \<lparr>prWrote = True, prStatus = 204\<rparr>))"

section \<open>Listing and deleting\<close>

text \<open>\<open>path LIKE pattern\<close> and as many slashes as a direct child has.\<close>

definition childPattern :: "string \<Rightarrow> string" where
  "childPattern normalized = (if normalized = ''/'' then ''/%'' else normalized @ ''/%'')"

definition depthTarget :: "string \<Rightarrow> nat" where
  "depthTarget normalized =
     (if normalized = ''/'' then 1 else length (filter (\<lambda>s. s \<noteq> '''') (jsplit (CHR ''/'') normalized)) + 1)"

definition listedChild :: "string \<Rightarrow> string \<Rightarrow> path_key \<Rightarrow> bool" where
  "listedChild mount normalized k =
     (fst k = mount \<and> sqlLike (childPattern normalized) (snd k) \<and> slashCount (snd k) = depthTarget normalized)"

definition opListChildren :: "string \<Rightarrow> string \<Rightarrow> 'b host \<Rightarrow> 'b host \<times> listing" where
  "opListChildren mount path h =
     (let normalized = normalizePath path;
          cacheableListing = (\<not> isAuthoritativeCompactionListing normalized)
      in case (if cacheableListing then listingCacheGet mount normalized h else None) of
           Some cached \<Rightarrow> (h, cached)
         | None \<Rightarrow>
             (let l = \<lparr>liFiles = map (\<lambda>(k, row). \<lparr>lfName = fileNameFromPath (snd k), lfPath = snd k, lfSize = frSize row,
                                           lfModifiedTime = frModifiedTime row, lfEtag = frEtag row\<rparr>)
                                   (filter (\<lambda>(k, row). listedChild mount normalized k) (dbFiles (hoDb h))),
                       liFolders = filter (\<lambda>s. s \<noteq> '''')
                                   (map (\<lambda>(k, at). fileNameFromPath (snd k))
                                     (filter (\<lambda>(k, at). listedChild mount normalized k) (dbFolders (hoDb h))))\<rparr>
              in (if cacheableListing then listingCachePut mount normalized l h else h, l)))"

text \<open>\<open>path = n OR (path >= n/ AND path < n/\uFFFF)\<close>.\<close>

definition inSubtree :: "string \<Rightarrow> string \<Rightarrow> bool" where
  "inSubtree normalized path =
     (path = normalized \<or> normalized @ ''/'' \<le> path \<and> belowTop path (normalized @ ''/''))"

definition wipeMesh :: "string \<Rightarrow> mesh_path_row \<Rightarrow> mesh_path_row" where
  "wipeMesh now m = m\<lparr>mpFileCount := 0, mpTotalBytes := 0, mpChangeBytes := 0, mpMainlineBytes := 0,
     mpDeletedAt := Some now, mpUpdatedAt := now\<rparr>"

definition bytesOfType :: "(path_type \<Rightarrow> bool) \<Rightarrow> (path_key \<times> 'b file_row) list \<Rightarrow> int" where
  "bytesOfType P rows = (\<Sum>(k, row) \<leftarrow> rows. if P (classifyPath (snd k)) then frSize row else 0)"

definition opDeletePath :: "'b host_env \<Rightarrow> string \<Rightarrow> string \<Rightarrow> string option \<Rightarrow> 'b host \<Rightarrow> 'b host \<times> bool" where
  "opDeletePath env mount path remoteRoot h =
     (let normalized = normalizePath path;
          now = nowIso env;
          selected = (\<lambda>k. fst k = mount \<and> (normalized = ''/'' \<or> inSubtree normalized (snd k)));
          deletedFiles = filter (\<lambda>(k, row). selected k) (dbFiles (hoDb h));
          db1 = (hoDb h)\<lparr>dbFiles := deleteWhere selected (dbFiles (hoDb h)), dbFolders := deleteWhere selected (dbFolders (hoDb h))\<rparr>;
          uncache = fold (\<lambda>(k, row). cacheDelete mount (snd k)) deletedFiles
      in if normalized = ''/''
         then (listingCacheDelete mount ''/''
                 (uncache (h\<lparr>hoDb := db1\<lparr>dbMeshPaths := updateWhere (\<lambda>k. fst k = mount) (wipeMesh now) (dbMeshPaths db1)\<rparr>\<rparr>)), True)
         else if deletedFiles = [] then (h\<lparr>hoDb := db1\<rparr>, False)
         else
           (let d = \<lparr>mdFileCount = - int (length deletedFiles),
                     mdTotalBytes = - bytesOfType (\<lambda>_. True) deletedFiles,
                     mdChangeBytes = - bytesOfType (\<lambda>t. t = ChangeFile) deletedFiles,
                     mdMainlineBytes = - bytesOfType (\<lambda>t. t = MainlineSnapshot) deletedFiles\<rparr>
            in (listingCacheDelete mount (parentDirOf normalized)
                  (uncache (h\<lparr>hoDb := meshDeltaStatements mount remoteRoot d now False False db1\<rparr>)), True)))"

definition opReconcileMetrics :: "'b host_env \<Rightarrow> string \<Rightarrow> string \<Rightarrow> 'b host \<Rightarrow> 'b host \<times> int \<times> int" where
  "opReconcileMetrics env mount remoteRoot h =
     (let normalized = normalizePath remoteRoot;
          rows = filter (\<lambda>(k, row). fst k = mount \<and> (snd k = normalized \<or> sqlLike (childPattern normalized) (snd k)))
                   (dbFiles (hoDb h));
          fileCount = int (length rows);
          totalBytes = bytesOfType (\<lambda>_. True) rows
      in (h\<lparr>hoDb := (hoDb h)\<lparr>dbMeshPaths := updateWhere (\<lambda>k. k = (mount, normalized))
              (\<lambda>m. m\<lparr>mpFileCount := fileCount, mpTotalBytes := totalBytes, mpUpdatedAt := nowIso env\<rparr>)
              (dbMeshPaths (hoDb h))\<rparr>\<rparr>, fileCount, totalBytes))"

section \<open>Maintenance\<close>

definition idleSince :: "mesh_path_row \<Rightarrow> string option" where
  "idleSince m = (case mpLastWriteAt m of Some w \<Rightarrow> Some w | None \<Rightarrow> Some (mpCreatedAt m))"

definition ttlCandidate :: "string \<Rightarrow> mesh_path_row \<Rightarrow> bool" where
  "ttlCandidate threshold m =
     (if mpDeletedAt m \<noteq> None \<and> mpDeletedAt m \<noteq> Some '''' then False
      else (case idleSince m of None \<Rightarrow> False | Some since \<Rightarrow> since \<noteq> '''' \<and> since \<le> threshold))"

definition evictedBy :: "string \<Rightarrow> string \<Rightarrow> path_key \<Rightarrow> bool" where
  "evictedBy mount remoteRoot k = (fst k = mount \<and> (snd k = remoteRoot \<or> sqlLike (remoteRoot @ ''/%'') (snd k)))"

definition evictMesh :: "string \<Rightarrow> path_key \<Rightarrow> 'b database \<Rightarrow> 'b database" where
  "evictMesh now target db =
     db\<lparr>dbFiles := deleteWhere (evictedBy (fst target) (snd target)) (dbFiles db),
        dbFolders := deleteWhere (evictedBy (fst target) (snd target)) (dbFolders db),
        dbMeshPaths := updateWhere (\<lambda>k. k = target)
          (\<lambda>m. (wipeMesh now m)\<lparr>mpLastTtlDeleteAt := Some now\<rparr>) (dbMeshPaths db)\<rparr>"

text \<open>
  \<open>pathTtlHours\<close> is a whole number of hours or \<open>NaN\<close>; \<open>mount\<close> is the prefix the sweep is scoped
  to. The sweep reads the table once, then evicts the candidates one batch at a time. The answer is
  the number of candidates and of evictions.
\<close>

definition runMaintenance :: "'b host_env \<Rightarrow> jnum \<Rightarrow> string option \<Rightarrow> 'b database \<Rightarrow> 'b database \<times> nat \<times> nat" where
  "runMaintenance env pathTtlHours mount db =
     (case pathTtlHours of
        NaN \<Rightarrow> (db, 0, 0)
      | Num hours \<Rightarrow>
          if hours \<le> 0 then (db, 0, 0)
          else
            (let threshold = heIso env (heNow env - hours * 3600000);
                 scoped = (\<lambda>k :: path_key. case mount of None \<Rightarrow> True | Some p \<Rightarrow> p = '''' \<or> fst k = p);
                 candidates = filter (\<lambda>(k, m). scoped k \<and> ttlCandidate threshold m) (dbMeshPaths db);
                 target = (\<lambda>k :: path_key. case mount of None \<Rightarrow> k | Some p \<Rightarrow> (p, snd k))
             in (fold (\<lambda>(k, m). evictMesh (nowIso env) (target k)) candidates db, length candidates, length candidates)))"

record eviction_record =
  evMeshAddress :: string
  evRemotePath :: string
  evEvictedAt :: string
  evIdle :: bool
  evIdleSince :: "string option"

definition readEvictionRecord :: "string \<Rightarrow> string \<Rightarrow> 'b database \<Rightarrow> eviction_record option" where
  "readEvictionRecord mount remoteRoot db =
     (case map_of (dbMeshPaths db) (mount, remoteRoot) of
        None \<Rightarrow> None
      | Some m \<Rightarrow>
          (case mpDeletedAt m of
             None \<Rightarrow> None
           | Some at \<Rightarrow>
               if at = '''' then None
               else Some \<lparr>evMeshAddress = mount, evRemotePath = remoteRoot, evEvictedAt = at,
                          evIdle = (mpLastTtlDeleteAt m = Some at), evIdleSince = idleSince m\<rparr>))"

fun insertByRoot :: "path_key \<times> mesh_path_row \<Rightarrow> (path_key \<times> mesh_path_row) list \<Rightarrow> (path_key \<times> mesh_path_row) list" where
  "insertByRoot x [] = [x]"
| "insertByRoot x (y # ys) = (if snd (fst x) \<le> snd (fst y) then x # y # ys else y # insertByRoot x ys)"

definition getMaintenanceStatus :: "string \<Rightarrow> string option \<Rightarrow> 'b database \<Rightarrow> (path_key \<times> mesh_path_row) list" where
  "getMaintenanceStatus mount remoteRoot db =
     fold insertByRoot
       (rev (filter (\<lambda>(k, m). fst k = mount \<and>
          (case remoteRoot of None \<Rightarrow> True | Some r \<Rightarrow> r = '''' \<or> snd k = r)) (dbMeshPaths db))) []"

end
