(* ===== verification/Host_Http.thy ===== *)
theory Host_Http
  imports Row_Store
begin

text \<open>
  Requests, responses and routes of the mailbox host (the HTTP half of
  \<open>packages/workers/src/worker.ts\<close>, and the key builders of \<open>paths.ts\<close>): URL components,
  cross-origin headers, mount prefixes, the parsing of a route and its read/write classification. A
  URL arrives parsed by the platform: its path name, and the \<open>path\<close> query parameter. A character of
  a route is one of the first 256 code points.
\<close>

section \<open>URL components\<close>

definition uriUnreserved :: "char \<Rightarrow> bool" where
  "uriUnreserved c = (c \<in> set ''ABCDEFGHIJKLMNOPQRSTUVWXYZabcdefghijklmnopqrstuvwxyz0123456789-_.!~*'' \<or>
     of_char c \<in> {39, 40, 41 :: nat})"

definition upperHex :: "nat \<Rightarrow> char" where
  "upperHex d = ''0123456789ABCDEF'' ! d"

definition percentByte :: "nat \<Rightarrow> string" where
  "percentByte b = [CHR ''%'', upperHex (b div 16), upperHex (b mod 16)]"

text \<open>\<open>encodeURIComponent\<close>: the UTF-8 bytes of a reserved character, percent-encoded.\<close>

definition encodeChar :: "char \<Rightarrow> string" where
  "encodeChar c =
     (let n = (of_char c :: nat) in
      if uriUnreserved c then [c]
      else if n < 128 then percentByte n
      else percentByte (192 + n div 64) @ percentByte (128 + n mod 64))"

definition encodeURIComponent :: "string \<Rightarrow> string" where
  "encodeURIComponent s = concat (map encodeChar s)"

definition hexValue :: "char \<Rightarrow> nat option" where
  "hexValue c = (case digitVal c of Some d \<Rightarrow> if d < 16 then Some d else None | None \<Rightarrow> None)"

definition percentValue :: "string \<Rightarrow> nat option" where
  "percentValue s =
     (case s of
        [p, a, b] \<Rightarrow> if p = CHR ''%'' then (case (hexValue a, hexValue b) of (Some x, Some y) \<Rightarrow> Some (16 * x + y) | _ \<Rightarrow> None) else None
      | _ \<Rightarrow> None)"

text \<open>\<open>decodeURIComponent\<close>: a \<open>URIError\<close> on a malformed escape or on bytes that are not UTF-8.\<close>

function decodeURIComponent :: "string \<Rightarrow> string result" where
  "decodeURIComponent s =
     (case s of
        [] \<Rightarrow> Inr []
      | c # cs \<Rightarrow>
          if c \<noteq> CHR ''%'' then bind_result (decodeURIComponent cs) (\<lambda>t. Inr (c # t))
          else
            (case percentValue (take 3 s) of
               None \<Rightarrow> Inl (Error ''URIError: URI malformed'')
             | Some b \<Rightarrow>
                 if b < 128 then bind_result (decodeURIComponent (drop 3 s)) (\<lambda>t. Inr (char_of b # t))
                 else if b = 194 \<or> b = 195 then
                   (case percentValue (take 3 (drop 3 s)) of
                      None \<Rightarrow> Inl (Error ''URIError: URI malformed'')
                    | Some b2 \<Rightarrow>
                        if 128 \<le> b2 \<and> b2 < 192
                        then bind_result (decodeURIComponent (drop 6 s)) (\<lambda>t. Inr (char_of (64 * (b - 192) + (b2 - 128)) # t))
                        else Inl (Error ''URIError: URI malformed''))
                 else Inl (Error ''URIError: URI malformed'')))"
  by pat_completeness auto
termination by (relation "measure length") auto

declare decodeURIComponent.simps [simp del]

definition cacheKeyFor :: "string \<Rightarrow> string \<Rightarrow> string" where
  "cacheKeyFor mount path =
     ''https://interocitor-cache/files/p-'' @ encodeURIComponent mount @ ''/'' @ encodeURIComponent (rootedPath path)"

definition listingCacheKeyFor :: "string \<Rightarrow> string \<Rightarrow> string" where
  "listingCacheKeyFor mount path =
     ''https://interocitor-cache/listings/p-'' @ encodeURIComponent mount @ ''/'' @ encodeURIComponent (rootedPath path)"

section \<open>Responses\<close>

datatype 'b reply_body = EmptyBody | TextBody string | BytesBody 'b | JsonBody jsval

record 'b reply =
  rpStatus :: int
  rpHeaders :: "(string \<times> string) list"
  rpBody :: "'b reply_body"

definition withCors :: "'b reply \<Rightarrow> 'b reply" where
  "withCors r =
     r\<lparr>rpHeaders := AList.update ''Access-Control-Expose-Headers'' ''ETag''
         (AList.update ''Access-Control-Allow-Headers'' ''*''
           (AList.update ''Access-Control-Allow-Methods'' ''OPTIONS, GET, PUT, DELETE, POST''
             (AList.update ''Access-Control-Allow-Origin'' ''*'' (rpHeaders r))))\<rparr>"

definition textReply :: "string \<Rightarrow> int \<Rightarrow> 'b reply" where
  "textReply t status = \<lparr>rpStatus = status, rpHeaders = [(''Content-Type'', ''text/plain;charset=UTF-8'')], rpBody = TextBody t\<rparr>"

definition jsonResponse :: "jsval \<Rightarrow> int \<Rightarrow> 'b reply" where
  "jsonResponse payload status =
     withCors \<lparr>rpStatus = status, rpHeaders = [(''Content-Type'', ''application/json; charset=utf-8'')], rpBody = JsonBody payload\<rparr>"

definition errorReply :: "string \<Rightarrow> int \<Rightarrow> 'b reply" where
  "errorReply message status = jsonResponse (JObj [(''error'', JStr message)]) status"

definition limitReply :: "string \<Rightarrow> int \<Rightarrow> 'b reply" where
  "limitReply message limit = jsonResponse (JObj [(''error'', JStr message), (''limit'', JNum (Num limit))]) 413"

definition emptyResponse :: "int \<Rightarrow> 'b reply" where
  "emptyResponse status =
     withCors \<lparr>rpStatus = status,
       rpHeaders = (if status = 204 \<or> status = 205 \<or> status = 304 then [] else [(''Content-Type'', ''text/plain;charset=UTF-8'')]),
       rpBody = (if status = 204 \<or> status = 205 \<or> status = 304 then EmptyBody else TextBody '''')\<rparr>"

definition preflightResponse :: "'b reply" where
  "preflightResponse = withCors (textReply '''' 200)"

definition asciiUpper :: "char \<Rightarrow> char" where
  "asciiUpper c = (let n = (of_char c :: nat) in if 97 \<le> n \<and> n \<le> 122 then char_of (n - 32) else c)"

definition toUpperCase :: "string \<Rightarrow> string" where
  "toUpperCase s = map asciiUpper s"

definition toLowerCase :: "string \<Rightarrow> string" where
  "toLowerCase s = map asciiLower s"

definition appendVary :: "string \<Rightarrow> (string \<times> string) list \<Rightarrow> (string \<times> string) list" where
  "appendVary v headers =
     (let values = (case map_of headers ''Vary'' of
                      None \<Rightarrow> [] | Some t \<Rightarrow> filter (\<lambda>x. x \<noteq> '''') (map jsTrim (jsplit (CHR '','') t)));
          values' = (if list_ex (\<lambda>x. toLowerCase x = toLowerCase v) values then values else values @ [v])
      in AList.update ''Vary'' (jjoin '', '' values') headers)"

text \<open>\<open>cors\<close> is the configured list of origins, \<open>origin\<close> and \<open>upgrade\<close> the request's headers.\<close>

definition applyConfiguredCors :: "string list option \<Rightarrow> string option \<Rightarrow> string option \<Rightarrow> 'b reply \<Rightarrow> 'b reply" where
  "applyConfiguredCors cors origin upgrade r =
     (if map_option toLowerCase upgrade = Some ''websocket'' then r
      else (case cors of
              None \<Rightarrow> r
            | Some origins \<Rightarrow>
                (let h = appendVary ''Origin'' (AList.delete ''Access-Control-Allow-Origin'' (rpHeaders r)) in
                 r\<lparr>rpHeaders := (case origin of
                     None \<Rightarrow> h
                   | Some o' \<Rightarrow> if o' \<noteq> '''' \<and> o' \<noteq> ''*'' \<and> o' \<in> set origins
                                then AList.update ''Access-Control-Allow-Origin'' o' h else h)\<rparr>)))"

section \<open>Routes\<close>

definition IO_PREFIX :: string where "IO_PREFIX = ''/io''"
definition NOTIFY_PREFIX :: string where "NOTIFY_PREFIX = ''/notify''"
definition RECOVERY_PREFIX :: string where "RECOVERY_PREFIX = ''/recovery''"
definition SYSTEM_PREFIX :: string where "SYSTEM_PREFIX = ''/__interocitor/system''"

definition stripSlashes :: "string \<Rightarrow> string" where
  "stripSlashes s = rev (dropWhile (\<lambda>c. c = CHR ''/'') (rev (dropWhile (\<lambda>c. c = CHR ''/'') s)))"

definition normalizeMountPrefix :: "string \<Rightarrow> string" where
  "normalizeMountPrefix p =
     (let trimmed = jsTrim p in if trimmed = '''' \<or> trimmed = ''/'' then '''' else ''/'' @ stripSlashes trimmed)"

definition joinMountPath :: "string \<Rightarrow> string \<Rightarrow> string" where
  "joinMountPath p path = (let m = normalizeMountPrefix p in if m \<noteq> '''' then m @ path else path)"

definition stripMountPrefix :: "string \<Rightarrow> string \<Rightarrow> string option" where
  "stripMountPrefix pathname mountPrefix =
     (let n = normalizeMountPrefix mountPrefix in
      if n = '''' then Some pathname
      else if pathname = n then Some ''/''
      else if startsWith pathname (n @ ''/'') then Some (jsliceFrom pathname (int (length n)))
      else None)"

definition mountMatches :: "string \<Rightarrow> string \<Rightarrow> bool" where
  "mountMatches mountPrefix pathname =
     (let m = normalizeMountPrefix mountPrefix in
      pathname = joinMountPath m ''/health'' \<or>
      startsWith pathname (joinMountPath m IO_PREFIX @ ''/'') \<or>
      startsWith pathname (joinMountPath m NOTIFY_PREFIX @ ''/'') \<or>
      startsWith pathname (joinMountPath m RECOVERY_PREFIX @ ''/'') \<or>
      m = '''' \<and> (pathname = ''/'' \<or> pathname = ''/health''))"

definition nthOr :: "'a list \<Rightarrow> nat \<Rightarrow> 'a \<Rightarrow> 'a" where
  "nthOr xs i d = (if i < length xs then xs ! i else d)"

definition parseIo :: "string \<Rightarrow> (string \<times> string) result" where
  "parseIo pathname =
     (let parts = filter (\<lambda>s. s \<noteq> '''') (jsplit (CHR ''/'') (jsliceFrom pathname (int (length (IO_PREFIX @ ''/''))))) in
      bind_result (decodeURIComponent (nthOr parts 0 '''')) (\<lambda>mount.
        bind_result (decodeURIComponent (nthOr parts 1 '''')) (\<lambda>op. Inr (mount, op))))"

text \<open>\<open>decodeURIComponent(pathname.slice(n).split("/")[0] || "")\<close> of the notify and recovery routes.\<close>

definition routeTarget :: "string \<Rightarrow> string \<Rightarrow> string result" where
  "routeTarget base pathname = decodeURIComponent (nthOr (jsplit (CHR ''/'') (jsliceFrom pathname (int (length (base @ ''/''))))) 0 '''')"

datatype mesh_access = ReadAccess | WriteAccess

definition ioRequestAccess :: "string \<Rightarrow> string \<Rightarrow> mesh_access option" where
  "ioRequestAccess op m =
     (if op = ''health'' \<and> m = ''GET'' then Some ReadAccess
      else if op = ''file'' \<or> op = ''stored-file'' then
        (if m = ''GET'' then Some ReadAccess else if m = ''PUT'' \<or> m = ''DELETE'' then Some WriteAccess else None)
      else if op \<in> {''metadata'', ''stored-file-metadata'', ''ensure-folder'', ''list-files'', ''list-folders''}
      then (if m = ''POST'' then Some ReadAccess else None)
      else None)"

section \<open>Encoding loses nothing\<close>

lemma hexValue_upperHex: "d < 16 \<Longrightarrow> hexValue (upperHex d) = Some d"
  by (auto simp: less_Suc_eq numeral_eq_Suc upperHex_def hexValue_def digitVal_def)

lemma percentValue_byte: "b < 256 \<Longrightarrow> percentValue (percentByte b) = Some b"
  by (simp add: percentValue_def percentByte_def hexValue_upperHex)

lemma percentByte_Cons: "percentByte b @ t = CHR ''%'' # drop 1 (percentByte b) @ t" "length (percentByte b) = 3"
  by (simp_all add: percentByte_def)

lemma decode_encodeChar:
  "decodeURIComponent (encodeChar c @ t) = bind_result (decodeURIComponent t) (\<lambda>u. Inr (c # u))"
proof -
  define n where "n = (of_char c :: nat)"
  have n: "n < 256" "char_of n = c" unfolding n_def by simp_all
  consider "uriUnreserved c" | "\<not> uriUnreserved c" "n < 128" | "\<not> uriUnreserved c" "128 \<le> n" by linarith
  then show ?thesis
  proof cases
    case 1
    then have "c \<noteq> CHR ''%''" by (auto simp: uriUnreserved_def)
    then show ?thesis using 1 by (subst decodeURIComponent.simps) (simp add: encodeChar_def)
  next
    case 2
    have "take 3 (percentByte n @ t) = percentByte n" "drop 3 (percentByte n @ t) = t" by (simp_all add: percentByte_def)
    then show ?thesis
      using 2 n percentValue_byte [of n]
      by (subst decodeURIComponent.simps) (simp add: encodeChar_def percentByte_Cons(1) flip: n_def)
  next
    case 3
    define b b2 where "b = 192 + n div 64" and "b2 = 128 + n mod 64"
    have b: "b = 194 \<or> b = 195" "b < 256" "b2 < 192" "128 \<le> b2" "64 * (b - 192) + (b2 - 128) = n" "\<not> b < 128"
      using 3 n unfolding b_def b2_def by (auto simp: less_Suc_eq)
    let ?s = "percentByte b @ percentByte b2 @ t"
    have "take 3 ?s = percentByte b" "take 3 (drop 3 ?s) = percentByte b2" "drop 6 ?s = t" by (simp_all add: percentByte_def)
    moreover have "encodeChar c @ t = ?s" using 3 by (simp add: encodeChar_def b_def b2_def Let_def flip: n_def)
    moreover have "?s = CHR ''%'' # drop 1 (percentByte b) @ percentByte b2 @ t" by (rule percentByte_Cons)
    ultimately show ?thesis
      using b n percentValue_byte [of b] percentValue_byte [of b2]
      by (subst decodeURIComponent.simps) auto
  qed
qed

lemma uri_decode_encode: "decodeURIComponent (encodeURIComponent s) = Inr s"
proof (induction s)
  case Nil
  show ?case by (subst decodeURIComponent.simps) (simp add: encodeURIComponent_def)
next
  case (Cons c s)
  then show ?case using decode_encodeChar [of c "encodeURIComponent s"] by (simp add: encodeURIComponent_def)
qed

lemma encode_inject: "encodeURIComponent s = encodeURIComponent t \<longleftrightarrow> s = t"
  using uri_decode_encode by (metis sum.inject(2))

lemma percent_no_slash: "b < 256 \<Longrightarrow> CHR ''/'' \<notin> set (percentByte b)"
proof -
  have "d < 16 \<Longrightarrow> CHR ''/'' \<noteq> upperHex d" for d
    by (auto simp: less_Suc_eq numeral_eq_Suc upperHex_def)
  moreover assume "b < 256"
  then have "b div 16 < 16" "b mod 16 < 16" by auto
  ultimately show ?thesis by (simp add: percentByte_def)
qed

lemma encodeChar_no_slash: "CHR ''/'' \<notin> set (encodeChar c)"
proof -
  have n: "(of_char c :: nat) < 256" by simp
  then have "(of_char c :: nat) div 64 < 4" by (intro less_mult_imp_div_less) simp
  then have "192 + (of_char c :: nat) div 64 < 256" "128 + (of_char c :: nat) mod 64 < 256" by auto
  moreover have "uriUnreserved c \<Longrightarrow> c \<noteq> CHR ''/''" by (auto simp: uriUnreserved_def)
  ultimately show ?thesis using n percent_no_slash by (auto simp: encodeChar_def Let_def)
qed

lemma encode_no_slash: "CHR ''/'' \<notin> set (encodeURIComponent s)"
  using encodeChar_no_slash by (auto simp: encodeURIComponent_def)

lemma encodeChar_not_Nil: "encodeChar c \<noteq> []"
  by (simp add: encodeChar_def percentByte_def Let_def)

lemma encode_Nil_iff: "encodeURIComponent s = [] \<longleftrightarrow> s = []"
  by (auto simp: encodeURIComponent_def encodeChar_not_Nil)



text \<open>Two cache keys are the same only for the same mount and path, and never across the two kinds.\<close>

lemma cacheKeyFor_inject: "cacheKeyFor m p = cacheKeyFor m' p' \<longleftrightarrow> m = m' \<and> rootedPath p = rootedPath p'"
proof
  assume "cacheKeyFor m p = cacheKeyFor m' p'"
  then show "m = m' \<and> rootedPath p = rootedPath p'"
    by (simp add: cacheKeyFor_def encode_inject first_separator [OF encode_no_slash encode_no_slash])
qed (simp add: cacheKeyFor_def)

lemma listing_keys_apart: "cacheKeyFor m p \<noteq> listingCacheKeyFor m' p'"
  by (simp add: cacheKeyFor_def listingCacheKeyFor_def)

lemma jsplit_no_sep: "c \<notin> set s \<Longrightarrow> jsplit c s = [s]"
  by (induction s) auto

lemma jsplit_append: "c \<notin> set s \<Longrightarrow> jsplit c (s @ c # t) = s # jsplit c t"
  by (induction s) auto

lemma parseIo_encoded:
  assumes "a \<noteq> ''''" "op \<noteq> ''''"
  shows "parseIo (''/io/'' @ encodeURIComponent a @ ''/'' @ encodeURIComponent op) = Inr (a, op)"
proof -
  have "jsliceFrom (''/io/'' @ encodeURIComponent a @ ''/'' @ encodeURIComponent op) (int (length (IO_PREFIX @ ''/''))) =
      encodeURIComponent a @ CHR ''/'' # encodeURIComponent op"
    by (simp add: IO_PREFIX_def jsliceFrom_def clampIndex_def)
  then show ?thesis
    using assms by (simp add: parseIo_def jsplit_append encode_no_slash jsplit_no_sep encode_Nil_iff nthOr_def uri_decode_encode Let_def)
qed

section \<open>Cross-origin answers\<close>

lemma origin_listed:
  assumes "map_option toLowerCase upgrade \<noteq> Some ''websocket''"
  shows "map_of (rpHeaders (applyConfiguredCors (Some origins) origin upgrade r)) ''Access-Control-Allow-Origin'' = Some v \<Longrightarrow>
    origin = Some v \<and> v \<in> set origins \<and> v \<noteq> ''*''"
  using assms by (auto simp: applyConfiguredCors_def appendVary_def Let_def delete_conv' split: option.splits if_splits)

end
