(* ===== verification/Mesh_Grants.thy ===== *)
theory Mesh_Grants
  imports Js_Value
begin

text \<open>
  Access grants of the mailbox host (\<open>packages/workers/src/access-control.ts\<close>): grants delegated
  from a trusted root, each link narrowing rights, time and depth. What the application supplies (the
  principal, the stored chain, the verdict on the root) is an untyped value and is checked the way the
  source checks it; a check that fails is a \<open>TypeError\<close>. Time is in whole milliseconds.
\<close>

datatype grant_level = ReadonlyGrant | FullGrant

record mesh_grant =
  mgGrantId :: string
  mgParentGrantId :: "string option"
  mgCanonicalAddress :: string
  mgIssuerSubjectId :: string
  mgSubjectId :: string
  mgAuthorization :: grant_level
  mgDelegationDepth :: int
  mgIssuedAt :: int
  mgNotBefore :: "int option"
  mgExpiresAt :: "int option"
  mgRevokedAt :: "int option"

text \<open>The members of a value that claims to be a grant.\<close>

record raw_grant =
  rgGrantId :: jsval
  rgParentGrantId :: jsval
  rgCanonicalAddress :: jsval
  rgIssuerSubjectId :: jsval
  rgSubjectId :: jsval
  rgAuthorization :: jsval
  rgDelegationDepth :: jsval
  rgIssuedAt :: jsval
  rgNotBefore :: jsval
  rgExpiresAt :: jsval
  rgRevokedAt :: jsval

section \<open>Shapes\<close>

definition assertNonEmpty :: "jsval \<Rightarrow> string \<Rightarrow> string result" where
  "assertNonEmpty v name =
     (case v of JStr s \<Rightarrow> if s = '''' then Inl (TypeError (name @ '' must be a non-empty string'')) else Inr s
      | _ \<Rightarrow> Inl (TypeError (name @ '' must be a non-empty string'')))"

definition assertRequiredTimestamp :: "jsval \<Rightarrow> string \<Rightarrow> int result" where
  "assertRequiredTimestamp v name =
     (case v of JNum (Num n) \<Rightarrow> if n < 0 then Inl (TypeError (name @ '' must be a non-negative finite timestamp'')) else Inr n
      | _ \<Rightarrow> Inl (TypeError (name @ '' must be a non-negative finite timestamp'')))"

definition assertTimestamp :: "jsval \<Rightarrow> string \<Rightarrow> int option result" where
  "assertTimestamp v name =
     (if v = JUndefined then Inr None else bind_result (assertRequiredTimestamp v name) (\<lambda>n. Inr (Some n)))"

definition MAX_SAFE_INTEGER :: int where "MAX_SAFE_INTEGER = 2 ^ 53 - 1"

definition assertLevel :: "jsval \<Rightarrow> grant_level result" where
  "assertLevel v =
     (if v = JStr ''readonly'' then Inr ReadonlyGrant else if v = JStr ''full'' then Inr FullGrant
      else Inl (TypeError ''authorization must be readonly or full''))"

definition assertDepth :: "jsval \<Rightarrow> int result" where
  "assertDepth v =
     (case v of JNum (Num n) \<Rightarrow>
          if 0 \<le> n \<and> n \<le> MAX_SAFE_INTEGER then Inr n
          else Inl (TypeError ''delegationDepth must be a non-negative safe integer'')
      | _ \<Rightarrow> Inl (TypeError ''delegationDepth must be a non-negative safe integer''))"

definition parentId :: "jsval \<Rightarrow> string option result" where
  "parentId v = (if v = JNull then Inr None else bind_result (assertNonEmpty v ''parentGrantId'') (\<lambda>s. Inr (Some s)))"

definition assertWindow :: "mesh_grant \<Rightarrow> mesh_grant result" where
  "assertWindow g =
     (if (case (mgNotBefore g, mgExpiresAt g) of (Some nb, Some ex) \<Rightarrow> nb \<ge> ex | _ \<Rightarrow> False)
      then Inl (TypeError ''grant validity window must be non-empty'')
      else if (case mgExpiresAt g of Some ex \<Rightarrow> mgIssuedAt g \<ge> ex | None \<Rightarrow> False)
      then Inl (TypeError ''grant must be issued before it expires'')
      else if (case mgRevokedAt g of Some r \<Rightarrow> r < mgIssuedAt g | None \<Rightarrow> False)
      then Inl (TypeError ''grant cannot be revoked before it is issued'')
      else Inr g)"

definition assertGrantShape :: "raw_grant \<Rightarrow> mesh_grant result" where
  "assertGrantShape r =
     bind_result (assertNonEmpty (rgGrantId r) ''grantId'') (\<lambda>grantId.
     bind_result (assertNonEmpty (rgCanonicalAddress r) ''canonicalAddress'') (\<lambda>address.
     bind_result (assertNonEmpty (rgIssuerSubjectId r) ''issuerSubjectId'') (\<lambda>issuer.
     bind_result (assertNonEmpty (rgSubjectId r) ''subjectId'') (\<lambda>subject.
     bind_result (parentId (rgParentGrantId r)) (\<lambda>parent.
     bind_result (assertLevel (rgAuthorization r)) (\<lambda>level.
     bind_result (assertDepth (rgDelegationDepth r)) (\<lambda>depth.
     bind_result (assertRequiredTimestamp (rgIssuedAt r) ''issuedAt'') (\<lambda>issuedAt.
     bind_result (assertTimestamp (rgNotBefore r) ''notBefore'') (\<lambda>notBefore.
     bind_result (assertTimestamp (rgExpiresAt r) ''expiresAt'') (\<lambda>expiresAt.
     bind_result (assertTimestamp (rgRevokedAt r) ''revokedAt'') (\<lambda>revokedAt.
       assertWindow
         \<lparr>mgGrantId = grantId, mgParentGrantId = parent, mgCanonicalAddress = address, mgIssuerSubjectId = issuer,
          mgSubjectId = subject, mgAuthorization = level, mgDelegationDepth = depth, mgIssuedAt = issuedAt,
          mgNotBefore = notBefore, mgExpiresAt = expiresAt, mgRevokedAt = revokedAt\<rparr>)))))))))))"

definition fieldOf :: "(string \<times> jsval) list \<Rightarrow> string \<Rightarrow> jsval" where
  "fieldOf fs k = (case map_of fs k of None \<Rightarrow> JUndefined | Some v \<Rightarrow> v)"

definition snapshotGrant :: "jsval \<Rightarrow> mesh_grant result" where
  "snapshotGrant v =
     (case v of
        JObj fs \<Rightarrow>
          assertGrantShape
            \<lparr>rgGrantId = fieldOf fs ''grantId'', rgParentGrantId = fieldOf fs ''parentGrantId'',
             rgCanonicalAddress = fieldOf fs ''canonicalAddress'', rgIssuerSubjectId = fieldOf fs ''issuerSubjectId'',
             rgSubjectId = fieldOf fs ''subjectId'', rgAuthorization = fieldOf fs ''authorization'',
             rgDelegationDepth = fieldOf fs ''delegationDepth'', rgIssuedAt = fieldOf fs ''issuedAt'',
             rgNotBefore = fieldOf fs ''notBefore'', rgExpiresAt = fieldOf fs ''expiresAt'', rgRevokedAt = fieldOf fs ''revokedAt''\<rparr>
      | _ \<Rightarrow> Inl (TypeError ''grant must be an object''))"

fun snapshotGrants :: "jsval list \<Rightarrow> mesh_grant list result" where
  "snapshotGrants [] = Inr []"
| "snapshotGrants (v # vs) = bind_result (snapshotGrant v) (\<lambda>g. bind_result (snapshotGrants vs) (\<lambda>gs. Inr (g # gs)))"

definition snapshotGrantChain :: "jsval \<Rightarrow> nat \<Rightarrow> mesh_grant list result" where
  "snapshotGrantChain v maxChainLength =
     (case v of
        JArr vs \<Rightarrow>
          if length vs > maxChainLength then Inl (TypeError ''grant chain exceeds maximum length'') else snapshotGrants vs
      | _ \<Rightarrow> Inl (TypeError ''grant chain must be an array''))"

text \<open>A checked grant as a value again: it is checked once more while the chain is walked.\<close>

definition levelValue :: "grant_level \<Rightarrow> jsval" where
  "levelValue l = (case l of ReadonlyGrant \<Rightarrow> JStr ''readonly'' | FullGrant \<Rightarrow> JStr ''full'')"

definition timeValue :: "int option \<Rightarrow> jsval" where
  "timeValue t = (case t of None \<Rightarrow> JUndefined | Some n \<Rightarrow> JNum (Num n))"

definition rawGrant :: "mesh_grant \<Rightarrow> raw_grant" where
  "rawGrant g =
     \<lparr>rgGrantId = JStr (mgGrantId g), rgParentGrantId = (case mgParentGrantId g of None \<Rightarrow> JNull | Some s \<Rightarrow> JStr s),
      rgCanonicalAddress = JStr (mgCanonicalAddress g), rgIssuerSubjectId = JStr (mgIssuerSubjectId g),
      rgSubjectId = JStr (mgSubjectId g), rgAuthorization = levelValue (mgAuthorization g),
      rgDelegationDepth = JNum (Num (mgDelegationDepth g)), rgIssuedAt = JNum (Num (mgIssuedAt g)),
      rgNotBefore = timeValue (mgNotBefore g), rgExpiresAt = timeValue (mgExpiresAt g), rgRevokedAt = timeValue (mgRevokedAt g)\<rparr>"

section \<open>Chains\<close>

definition authorizationRank :: "grant_level \<Rightarrow> nat" where
  "authorizationRank l = (case l of FullGrant \<Rightarrow> 2 | ReadonlyGrant \<Rightarrow> 1)"

definition grantActive :: "int \<Rightarrow> mesh_grant \<Rightarrow> bool" where
  "grantActive now g =
     (mgRevokedAt g = None \<and> \<not> now < mgIssuedAt g \<and>
      (case mgNotBefore g of None \<Rightarrow> True | Some nb \<Rightarrow> \<not> now < nb) \<and>
      (case mgExpiresAt g of None \<Rightarrow> True | Some ex \<Rightarrow> \<not> now \<ge> ex))"

text \<open>The checks of a grant against the one before it; none for the root but that it has no parent.\<close>

definition checkLink :: "mesh_grant option \<Rightarrow> mesh_grant \<Rightarrow> unit result" where
  "checkLink parent grant =
     (case parent of
        None \<Rightarrow> if mgParentGrantId grant \<noteq> None then Inl (TypeError ''grant chain root has a parent'') else Inr ()
      | Some p \<Rightarrow>
          if mgParentGrantId grant \<noteq> Some (mgGrantId p) then Inl (TypeError ''grant parent link does not match the chain'')
          else if mgIssuerSubjectId grant \<noteq> mgSubjectId p then Inl (TypeError ''grant issuer does not hold the parent grant'')
          else if mgIssuedAt grant < mgIssuedAt p then Inl (TypeError ''grant predates its parent'')
          else if authorizationRank (mgAuthorization grant) > authorizationRank (mgAuthorization p)
          then Inl (TypeError ''grant authorization exceeds its parent'')
          else if mgDelegationDepth p = 0 \<or> mgDelegationDepth grant \<ge> mgDelegationDepth p
          then Inl (TypeError ''grant delegation depth exceeds its parent'')
          else if (case mgNotBefore p of None \<Rightarrow> False
                   | Some pb \<Rightarrow> (case mgNotBefore grant of None \<Rightarrow> True | Some nb \<Rightarrow> nb < pb))
          then Inl (TypeError ''grant starts before its parent'')
          else if (case mgExpiresAt p of None \<Rightarrow> False
                   | Some pe \<Rightarrow> (case mgExpiresAt grant of None \<Rightarrow> True | Some ex \<Rightarrow> ex > pe))
          then Inl (TypeError ''grant expires after its parent'')
          else Inr ())"

fun validateLinks ::
  "string \<Rightarrow> int \<Rightarrow> string list \<Rightarrow> bool \<Rightarrow> mesh_grant option \<Rightarrow> mesh_grant list \<Rightarrow> bool result"
where
  "validateLinks address now seen active parent [] = Inr active"
| "validateLinks address now seen active parent (g # gs) =
     bind_result (assertGrantShape (rawGrant g)) (\<lambda>_.
       if mgGrantId g \<in> set seen then Inl (TypeError ''grant chain contains a cycle'')
       else if mgCanonicalAddress g \<noteq> address then Inl (TypeError ''grant canonical address does not match the request'')
       else bind_result (checkLink parent g) (\<lambda>_.
         validateLinks address now (mgGrantId g # seen) (active \<and> grantActive now g) (Some g) gs))"

definition validateGrantChain ::
  "mesh_grant list \<Rightarrow> string \<Rightarrow> string \<Rightarrow> int \<Rightarrow> nat \<Rightarrow> (mesh_grant \<times> bool) result"
where
  "validateGrantChain chain address subjectId now maxChainLength =
     (if chain = [] then Inl (TypeError ''grant chain must not be empty'')
      else if length chain > maxChainLength then Inl (TypeError ''grant chain exceeds maximum length'')
      else bind_result (validateLinks address now [] True None chain) (\<lambda>active.
        if mgSubjectId (last chain) \<noteq> subjectId then Inl (TypeError ''grant subject does not match principal'')
        else Inr (last chain, active)))"

section \<open>The authorizer\<close>

record mesh_context =
  mcPresentedAddress :: string
  mcCanonicalAddress :: string
  mcSurfaceIo :: bool
  mcWrites :: bool

record grant_options =
  goAuthenticate :: "mesh_context \<Rightarrow> jsval result"
  goLoadGrantChain :: "string \<Rightarrow> mesh_context \<Rightarrow> jsval result"
  goIsTrustedRoot :: "mesh_grant \<Rightarrow> mesh_context \<Rightarrow> jsval result"
  goNow :: jnum
  goConcealDenied :: bool
  goMaxChainLength :: nat

definition principalSubject :: "jsval \<Rightarrow> string result" where
  "principalSubject v =
     (case v of
        JObj fs \<Rightarrow> (case fieldOf fs ''subjectId'' of
                     JStr s \<Rightarrow> if s = '''' then Inl (TypeError ''authenticate returned an invalid principal'') else Inr s
                   | _ \<Rightarrow> Inl (TypeError ''authenticate returned an invalid principal''))
      | _ \<Rightarrow> Inl (TypeError ''authenticate returned an invalid principal''))"

definition authorizeLoaded :: "grant_options \<Rightarrow> mesh_context \<Rightarrow> string \<Rightarrow> jsval \<Rightarrow> jsval result" where
  "authorizeLoaded opts ctx subjectId loadedChain =
     bind_result (snapshotGrantChain loadedChain (goMaxChainLength opts)) (\<lambda>chain.
       case goNow opts of
         NaN \<Rightarrow> Inl (TypeError ''now returned an invalid timestamp'')
       | Num now \<Rightarrow>
           if now < 0 then Inl (TypeError ''now returned an invalid timestamp'')
           else bind_result (validateGrantChain chain (mcCanonicalAddress ctx) subjectId now (goMaxChainLength opts)) (\<lambda>(leaf, active).
             bind_result (goIsTrustedRoot opts (hd chain) ctx) (\<lambda>trustedRoot.
               if trustedRoot = JBool False then Inr (JStr ''deny'')
               else if trustedRoot \<noteq> JBool True then Inl (TypeError ''isTrustedRoot returned a non-boolean result'')
               else Inr (if active then levelValue (mgAuthorization leaf) else JStr ''deny''))))"

definition grantAuthorizer :: "grant_options \<Rightarrow> mesh_context \<Rightarrow> jsval result" where
  "grantAuthorizer opts ctx =
     bind_result (goAuthenticate opts ctx) (\<lambda>principal.
       if principal = JNull then Inr (JStr ''deny'')
       else bind_result (principalSubject principal) (\<lambda>subjectId.
         bind_result (goLoadGrantChain opts subjectId ctx) (\<lambda>loadedChain.
           if loadedChain = JNull then Inr (JStr ''deny'') else authorizeLoaded opts ctx subjectId loadedChain)))"

section \<open>Delegation and revocation\<close>

text \<open>\<open>a ?? b\<close> for a fieldOf and an inherited time.\<close>

definition inheritTime :: "jsval \<Rightarrow> int option \<Rightarrow> jsval" where
  "inheritTime v inherited = (if v = JUndefined \<or> v = JNull then timeValue inherited else v)"

definition assertAttenuates :: "mesh_grant \<Rightarrow> int \<Rightarrow> int option \<Rightarrow> int option \<Rightarrow> unit result" where
  "assertAttenuates parent issuedAt notBefore expiresAt =
     (if (case (mgNotBefore parent, notBefore) of (Some pb, Some nb) \<Rightarrow> nb < pb | _ \<Rightarrow> False)
      then Inl (TypeError ''child starts before its parent'')
      else if (case (mgExpiresAt parent, expiresAt) of (Some pe, Some ex) \<Rightarrow> ex > pe | _ \<Rightarrow> False)
      then Inl (TypeError ''child expires after its parent'')
      else if (case (notBefore, expiresAt) of (Some nb, Some ex) \<Rightarrow> nb \<ge> ex | _ \<Rightarrow> False)
      then Inl (TypeError ''child validity window must be non-empty'')
      else if (case expiresAt of Some ex \<Rightarrow> issuedAt \<ge> ex | None \<Rightarrow> False)
      then Inl (TypeError ''child must be issued before it expires'')
      else Inr ())"

definition attenuateFields :: "mesh_grant \<Rightarrow> (string \<times> jsval) list \<Rightarrow> mesh_grant result" where
  "attenuateFields parent fs =
     bind_result (assertNonEmpty (fieldOf fs ''grantId'') ''grantId'') (\<lambda>grantId.
     bind_result (assertNonEmpty (fieldOf fs ''subjectId'') ''subjectId'') (\<lambda>subjectId.
       if grantId = mgGrantId parent then Inl (TypeError ''child grant id must be unique'')
       else if mgRevokedAt parent \<noteq> None then Inl (TypeError ''a revoked grant cannot delegate'')
       else
         bind_result (assertLevel (fieldOf fs ''authorization'')) (\<lambda>level.
           if authorizationRank level > authorizationRank (mgAuthorization parent)
           then Inl (TypeError ''child authorization exceeds its parent'')
           else
             bind_result (assertDepth (fieldOf fs ''delegationDepth'')) (\<lambda>depth.
               if mgDelegationDepth parent = 0 \<or> depth \<ge> mgDelegationDepth parent
               then Inl (TypeError ''child delegation depth exceeds its parent'')
               else
                 bind_result (assertRequiredTimestamp (fieldOf fs ''issuedAt'') ''issuedAt'') (\<lambda>issuedAt.
                   if issuedAt < mgIssuedAt parent then Inl (TypeError ''child predates its parent'')
                   else
                     bind_result (assertTimestamp (inheritTime (fieldOf fs ''notBefore'') (mgNotBefore parent)) ''notBefore'') (\<lambda>notBefore.
                     bind_result (assertTimestamp (inheritTime (fieldOf fs ''expiresAt'') (mgExpiresAt parent)) ''expiresAt'') (\<lambda>expiresAt.
                     bind_result (assertAttenuates parent issuedAt notBefore expiresAt) (\<lambda>_.
                       Inr \<lparr>mgGrantId = grantId, mgParentGrantId = Some (mgGrantId parent),
                            mgCanonicalAddress = mgCanonicalAddress parent, mgIssuerSubjectId = mgSubjectId parent,
                            mgSubjectId = subjectId, mgAuthorization = level, mgDelegationDepth = depth, mgIssuedAt = issuedAt,
                            mgNotBefore = notBefore, mgExpiresAt = expiresAt, mgRevokedAt = None\<rparr>))))))))"

definition attenuateMeshGrant :: "jsval \<Rightarrow> jsval \<Rightarrow> mesh_grant result" where
  "attenuateMeshGrant parent child =
     bind_result (snapshotGrant parent) (\<lambda>p.
       case child of JObj fs \<Rightarrow> attenuateFields p fs | _ \<Rightarrow> Inl (TypeError ''child grant must be an object''))"

definition markMeshGrantRevoked :: "jsval \<Rightarrow> jsval \<Rightarrow> mesh_grant result" where
  "markMeshGrantRevoked grant revokedAt =
     bind_result (snapshotGrant grant) (\<lambda>g.
       bind_result (assertRequiredTimestamp revokedAt ''revokedAt'') (\<lambda>at.
         if at < mgIssuedAt g then Inl (TypeError ''grant cannot be revoked before it is issued'')
         else Inr (g\<lparr>mgRevokedAt := Some (case mgRevokedAt g of None \<Rightarrow> at | Some r \<Rightarrow> r)\<rparr>)))"

section \<open>What a checked grant and a checked chain are\<close>

definition grantOk :: "mesh_grant \<Rightarrow> bool" where
  "grantOk g =
     (mgGrantId g \<noteq> '''' \<and> mgCanonicalAddress g \<noteq> '''' \<and> mgIssuerSubjectId g \<noteq> '''' \<and> mgSubjectId g \<noteq> '''' \<and>
      mgParentGrantId g \<noteq> Some '''' \<and> 0 \<le> mgDelegationDepth g \<and> mgDelegationDepth g \<le> MAX_SAFE_INTEGER \<and>
      0 \<le> mgIssuedAt g \<and> pred_option (\<lambda>t. 0 \<le> t) (mgNotBefore g) \<and> pred_option (\<lambda>t. 0 \<le> t) (mgExpiresAt g) \<and>
      pred_option (\<lambda>t. 0 \<le> t) (mgRevokedAt g) \<and> assertWindow g = Inr g)"

lemma assertWindow_Inr: "assertWindow g = Inr g' \<Longrightarrow> g' = g \<and> assertWindow g = Inr g"
  by (auto simp: assertWindow_def split: if_splits)

lemma assert_simps [simp]:
  "assertNonEmpty (JStr s) name = (if s = '''' then Inl (TypeError (name @ '' must be a non-empty string'')) else Inr s)"
  "assertLevel (levelValue l) = Inr l"
  "0 \<le> n \<Longrightarrow> assertRequiredTimestamp (JNum (Num n)) name = Inr n"
  "pred_option (\<lambda>t. 0 \<le> t) t \<Longrightarrow> assertTimestamp (timeValue t) name = Inr t"
  "0 \<le> n \<Longrightarrow> n \<le> MAX_SAFE_INTEGER \<Longrightarrow> assertDepth (JNum (Num n)) = Inr n"
  "p \<noteq> Some '''' \<Longrightarrow> parentId (case p of None \<Rightarrow> JNull | Some s \<Rightarrow> JStr s) = Inr p"
  by (auto simp: assertNonEmpty_def assertLevel_def levelValue_def assertRequiredTimestamp_def assertTimestamp_def
    timeValue_def assertDepth_def parentId_def split: grant_level.splits option.splits)

lemma assert_Inr:
  "assertNonEmpty v name = Inr s \<Longrightarrow> s \<noteq> ''''"
  "parentId v = Inr p \<Longrightarrow> p \<noteq> Some ''''"
  "assertDepth v = Inr n \<Longrightarrow> 0 \<le> n \<and> n \<le> MAX_SAFE_INTEGER"
  "assertRequiredTimestamp v name = Inr n \<Longrightarrow> 0 \<le> n"
  "assertTimestamp v name = Inr t \<Longrightarrow> pred_option (\<lambda>t. 0 \<le> t) t"
  by (auto simp: assertNonEmpty_def parentId_def assertDepth_def assertRequiredTimestamp_def assertTimestamp_def bind_result_Inr_iff
    split: jsval.splits jnum.splits if_splits)

lemma shape_grantOk: "assertGrantShape r = Inr g \<Longrightarrow> grantOk g"
  unfolding assertGrantShape_def bind_result_Inr_iff
  by (elim exE conjE) (frule assertWindow_Inr, auto simp: grantOk_def dest: assert_Inr)

lemma shape_raw: "assertGrantShape (rawGrant g) = Inr g' \<longleftrightarrow> grantOk g \<and> g' = g"
proof
  assume shape: "assertGrantShape (rawGrant g) = Inr g'"
  then have "mgGrantId g' = mgGrantId g \<and> mgCanonicalAddress g' = mgCanonicalAddress g \<and> mgIssuerSubjectId g' = mgIssuerSubjectId g
      \<and> mgSubjectId g' = mgSubjectId g \<and> mgParentGrantId g' = mgParentGrantId g \<and> mgAuthorization g' = mgAuthorization g
      \<and> mgDelegationDepth g' = mgDelegationDepth g \<and> mgIssuedAt g' = mgIssuedAt g \<and> mgNotBefore g' = mgNotBefore g
      \<and> mgExpiresAt g' = mgExpiresAt g \<and> mgRevokedAt g' = mgRevokedAt g"
    unfolding assertGrantShape_def bind_result_Inr_iff rawGrant_def
    by (elim exE conjE) (drule assertWindow_Inr, auto simp: parentId_def assertDepth_def assertRequiredTimestamp_def
      assertTimestamp_def timeValue_def bind_result_Inr_iff split: if_splits option.splits)
  then have "g' = g" by (simp add: mesh_grant.equality)
  then show "grantOk g \<and> g' = g" using shape_grantOk [OF shape] by simp
next
  assume "grantOk g \<and> g' = g"
  then show "assertGrantShape (rawGrant g) = Inr g'"
    by (cases g) (simp add: assertGrantShape_def rawGrant_def grantOk_def)
qed

text \<open>A link of the chain narrows its parent in rights, depth and time.\<close>

definition narrows :: "mesh_grant \<Rightarrow> mesh_grant \<Rightarrow> bool" where
  "narrows p g =
     (mgParentGrantId g = Some (mgGrantId p) \<and> mgIssuerSubjectId g = mgSubjectId p \<and> mgIssuedAt p \<le> mgIssuedAt g \<and>
      authorizationRank (mgAuthorization g) \<le> authorizationRank (mgAuthorization p) \<and>
      mgDelegationDepth p \<noteq> 0 \<and> mgDelegationDepth g < mgDelegationDepth p \<and>
      (\<forall>pb. mgNotBefore p = Some pb \<longrightarrow> (\<exists>nb. mgNotBefore g = Some nb \<and> pb \<le> nb)) \<and>
      (\<forall>pe. mgExpiresAt p = Some pe \<longrightarrow> (\<exists>ex. mgExpiresAt g = Some ex \<and> ex \<le> pe)))"

lemma checkLink_Some: "checkLink (Some p) g = Inr () \<longleftrightarrow> narrows p g"
  by (auto simp: checkLink_def narrows_def split: option.splits)

lemma checkLink_None: "checkLink None g = Inr () \<longleftrightarrow> mgParentGrantId g = None"
  by (simp add: checkLink_def)

definition linkedTo :: "mesh_grant option \<Rightarrow> mesh_grant list \<Rightarrow> bool" where
  "linkedTo parent gs = (gs = [] \<or> checkLink parent (hd gs) = Inr ())"

lemma linkedTo_Cons: "linkedTo parent (g # gs) \<longleftrightarrow> checkLink parent g = Inr ()"
  by (simp add: linkedTo_def)

lemma successively_linked: "successively narrows (g # gs) \<longleftrightarrow> linkedTo (Some g) gs \<and> successively narrows gs"
  by (cases gs) (simp_all add: linkedTo_def checkLink_Some)

lemma validateLinks_iff:
  "validateLinks address now seen active parent gs = Inr a \<longleftrightarrow>
     (\<forall>g \<in> set gs. grantOk g \<and> mgCanonicalAddress g = address) \<and> distinct (map mgGrantId gs) \<and>
     mgGrantId ` set gs \<inter> set seen = {} \<and> linkedTo parent gs \<and> successively narrows gs \<and>
     (a \<longleftrightarrow> active \<and> (\<forall>g \<in> set gs. grantActive now g))"
proof (induction gs arbitrary: seen active parent)
  case (Cons g gs)
  have step: "validateLinks address now seen active parent (g # gs) = Inr a \<longleftrightarrow>
      grantOk g \<and> mgGrantId g \<notin> set seen \<and> mgCanonicalAddress g = address \<and> checkLink parent g = Inr () \<and>
      validateLinks address now (mgGrantId g # seen) (active \<and> grantActive now g) (Some g) gs = Inr a"
    by (auto simp: bind_result_Inr_iff shape_raw)
  show ?case
    unfolding step Cons.IH successively_linked linkedTo_Cons by auto
qed (auto simp: linkedTo_def)

section \<open>Attenuation\<close>

definition within :: "mesh_grant \<Rightarrow> mesh_grant \<Rightarrow> bool" where
  "within p g =
     (mgIssuedAt p \<le> mgIssuedAt g \<and> authorizationRank (mgAuthorization g) \<le> authorizationRank (mgAuthorization p) \<and>
      (\<forall>pb. mgNotBefore p = Some pb \<longrightarrow> (\<exists>nb. mgNotBefore g = Some nb \<and> pb \<le> nb)) \<and>
      (\<forall>pe. mgExpiresAt p = Some pe \<longrightarrow> (\<exists>ex. mgExpiresAt g = Some ex \<and> ex \<le> pe)))"

lemma narrows_within: "narrows p g \<Longrightarrow> within p g"
  by (simp add: narrows_def within_def)

lemma within_refl: "within g g"
  by (simp add: within_def)

lemma within_trans: "within a b \<Longrightarrow> within b c \<Longrightarrow> within a c"
  unfolding within_def by (meson order_trans)

lemma chain_within: "successively narrows gs \<Longrightarrow> g \<in> set gs \<Longrightarrow> within g (last gs)"
proof (induction gs arbitrary: g)
  case (Cons h gs)
  show ?case
  proof (cases gs)
    case Nil
    then show ?thesis using Cons.prems by (simp add: within_refl)
  next
    case (Cons x xs)
    then have step: "within h x" "successively narrows gs" "x \<in> set gs" using Cons.prems by (auto intro: narrows_within)
    have "within k (last gs)" if "k \<in> set gs" for k using Cons.IH [OF step(2) that] .
    then show ?thesis using step Cons.prems Cons within_trans by auto
  qed
qed simp

lemma chain_depth:
  "successively narrows gs \<Longrightarrow> gs \<noteq> [] \<Longrightarrow> \<forall>g \<in> set gs. 0 \<le> mgDelegationDepth g \<Longrightarrow>
    int (length gs) \<le> mgDelegationDepth (hd gs) + 1"
proof (induction gs)
  case (Cons g gs)
  then show ?case by (cases gs) (auto simp: narrows_def)
qed simp

text \<open>The chain a decision rests on: its root is parentless and trusted, its links narrow, every grant is
  for this mesh and active now, and the last one belongs to the caller.\<close>

definition delegated :: "grant_options \<Rightarrow> mesh_context \<Rightarrow> string \<Rightarrow> int \<Rightarrow> mesh_grant list \<Rightarrow> bool" where
  "delegated opts ctx subjectId now chain =
     (chain \<noteq> [] \<and> length chain \<le> goMaxChainLength opts \<and> distinct (map mgGrantId chain) \<and>
      mgParentGrantId (hd chain) = None \<and> goIsTrustedRoot opts (hd chain) ctx = Inr (JBool True) \<and>
      (\<forall>g \<in> set chain. grantOk g \<and> mgCanonicalAddress g = mcCanonicalAddress ctx \<and> grantActive now g) \<and>
      successively narrows chain \<and> mgSubjectId (last chain) = subjectId)"

lemma validate_iff:
  "validateGrantChain chain address subjectId now maxLen = Inr (leaf, active) \<longleftrightarrow>
     chain \<noteq> [] \<and> length chain \<le> maxLen \<and> leaf = last chain \<and> mgSubjectId leaf = subjectId \<and>
     (\<forall>g \<in> set chain. grantOk g \<and> mgCanonicalAddress g = address) \<and> distinct (map mgGrantId chain) \<and>
     mgParentGrantId (hd chain) = None \<and> successively narrows chain \<and> (active \<longleftrightarrow> (\<forall>g \<in> set chain. grantActive now g))"
  by (auto simp: validateGrantChain_def bind_result_Inr_iff validateLinks_iff linkedTo_def checkLink_None)

lemma levelValue_not_deny [simp]: "levelValue l \<noteq> JStr ''deny''"
  by (cases l) (simp_all add: levelValue_def)

text \<open>C12: A request is let through only along a delegation: the decision the grant authorizer returns, when
  it is not a denial, is the level of the last grant of a chain that starts at a trusted root,
  belongs to the authenticated caller and to the addressed mesh, is active at every link now, narrows
  at every link, and is no longer than the root's delegation depth allows. So the access given is at
  most what every ancestor grants.\<close>

theorem granted_access_is_delegated:
  assumes "grantAuthorizer opts ctx = Inr d" "d \<noteq> JStr ''deny''"
  shows "\<exists>principal subjectId chain now. goAuthenticate opts ctx = Inr principal \<and> principalSubject principal = Inr subjectId \<and>
    goNow opts = Num now \<and> delegated opts ctx subjectId now chain \<and> d = levelValue (mgAuthorization (last chain)) \<and>
    (\<forall>g \<in> set chain. authorizationRank (mgAuthorization (last chain)) \<le> authorizationRank (mgAuthorization g)) \<and>
    int (length chain) \<le> mgDelegationDepth (hd chain) + 1"
proof -
  obtain principal subjectId loaded where
    who: "goAuthenticate opts ctx = Inr principal" "principalSubject principal = Inr subjectId"
    and loaded: "authorizeLoaded opts ctx subjectId loaded = Inr d"
    using assms by (auto simp: grantAuthorizer_def bind_result_Inr_iff split: if_splits)
  then obtain now where now: "goNow opts = Num now" "\<not> now < 0"
    by (cases "goNow opts") (auto simp: authorizeLoaded_def bind_result_Inr_iff split: if_splits)
  then obtain chain leaf active where
    valid: "validateGrantChain chain (mcCanonicalAddress ctx) subjectId now (goMaxChainLength opts) = Inr (leaf, active)"
    and root: "goIsTrustedRoot opts (hd chain) ctx = Inr (JBool True)"
    and d: "d = levelValue (mgAuthorization leaf)" "active"
    using assms(2) loaded by (auto simp: authorizeLoaded_def bind_result_Inr_iff split: if_splits prod.splits)
  then have dele: "delegated opts ctx subjectId now chain" and leaf: "leaf = last chain"
    by (auto simp: delegated_def validate_iff)
  then have "\<forall>g \<in> set chain. authorizationRank (mgAuthorization (last chain)) \<le> authorizationRank (mgAuthorization g)"
    using chain_within by (auto simp: delegated_def within_def)
  moreover have "int (length chain) \<le> mgDelegationDepth (hd chain) + 1"
    using dele chain_depth by (auto simp: delegated_def grantOk_def)
  ultimately show ?thesis using who now dele d leaf by blast
qed

lemma inherit_Some:
  "assertTimestamp (inheritTime v t) name = Inr t' \<Longrightarrow> t \<noteq> None \<Longrightarrow> t' \<noteq> None"
  by (auto simp: assertTimestamp_def inheritTime_def timeValue_def bind_result_Inr_iff split: if_splits)

lemma attenuate_child:
  assumes "attenuateFields p fs = Inr c" "grantOk p"
  shows "narrows p c \<and> grantOk c \<and> mgCanonicalAddress c = mgCanonicalAddress p"
proof -
  obtain grantId subjectId level depth issuedAt nb ex where
    ids: "assertNonEmpty (fieldOf fs ''grantId'') ''grantId'' = Inr grantId"
      "assertNonEmpty (fieldOf fs ''subjectId'') ''subjectId'' = Inr subjectId"
    and rights: "authorizationRank level \<le> authorizationRank (mgAuthorization p)"
      "mgDelegationDepth p \<noteq> 0" "depth < mgDelegationDepth p" "assertDepth (fieldOf fs ''delegationDepth'') = Inr depth"
    and time: "assertRequiredTimestamp (fieldOf fs ''issuedAt'') ''issuedAt'' = Inr issuedAt" "mgIssuedAt p \<le> issuedAt"
      "assertTimestamp (inheritTime (fieldOf fs ''notBefore'') (mgNotBefore p)) ''notBefore'' = Inr nb"
      "assertTimestamp (inheritTime (fieldOf fs ''expiresAt'') (mgExpiresAt p)) ''expiresAt'' = Inr ex"
    and window: "assertAttenuates p issuedAt nb ex = Inr ()"
    and c: "c = \<lparr>mgGrantId = grantId, mgParentGrantId = Some (mgGrantId p),
        mgCanonicalAddress = mgCanonicalAddress p, mgIssuerSubjectId = mgSubjectId p,
        mgSubjectId = subjectId, mgAuthorization = level, mgDelegationDepth = depth, mgIssuedAt = issuedAt,
        mgNotBefore = nb, mgExpiresAt = ex, mgRevokedAt = None\<rparr>"
    using assms(1) unfolding attenuateFields_def by (auto simp: bind_result_Inr_iff not_le not_less split: if_splits)
  have checked: "grantId \<noteq> ''''" "subjectId \<noteq> ''''" "0 \<le> depth" "depth \<le> MAX_SAFE_INTEGER" "0 \<le> issuedAt"
    "pred_option (\<lambda>t. 0 \<le> t) nb" "pred_option (\<lambda>t. 0 \<le> t) ex"
    using assert_Inr ids rights(4) time by blast+

  have bounds: "mgNotBefore p = Some pb \<Longrightarrow> \<exists>b. nb = Some b \<and> pb \<le> b" "mgExpiresAt p = Some pe \<Longrightarrow> \<exists>e. ex = Some e \<and> e \<le> pe" for pb pe
    using window inherit_Some [OF time(3)] inherit_Some [OF time(4)] by (auto simp: assertAttenuates_def not_less split: if_splits)
  have "narrows p c" using bounds rights time(2) unfolding narrows_def c by simp
  moreover have "assertWindow c = Inr c"
    using window unfolding assertAttenuates_def assertWindow_def c by (auto split: if_splits option.splits)
  ultimately show ?thesis using assms(2) checked unfolding grantOk_def c by simp
qed

text \<open>A child grant made by \<open>attenuateMeshGrant\<close> from the last grant of a valid chain extends the
  chain to a valid one, as long as its id is new in the chain and the chain has room; and it is active
  whenever the chain is, inside its own window.\<close>

theorem attenuated_grant_validates:
  assumes "validateGrantChain chain address subjectId now maxLen = Inr (parent, active)"
    and "attenuateFields parent fs = Inr child" "mgGrantId child \<notin> mgGrantId ` set chain" "length chain < maxLen"
  shows "validateGrantChain (chain @ [child]) address (mgSubjectId child) now maxLen = Inr (child, active \<and> grantActive now child)"
proof -
  have chain: "chain \<noteq> []" "parent = last chain" "\<forall>g \<in> set chain. grantOk g \<and> mgCanonicalAddress g = address"
    "distinct (map mgGrantId chain)" "mgParentGrantId (hd chain) = None" "successively narrows chain"
    "active \<longleftrightarrow> (\<forall>g \<in> set chain. grantActive now g)"
    using assms(1) by (auto simp: validate_iff)
  have "grantOk parent" "mgCanonicalAddress parent = address" using chain(1-3) by auto
  moreover have "narrows parent child \<and> grantOk child \<and> mgCanonicalAddress child = mgCanonicalAddress parent"
    using attenuate_child assms(2) \<open>grantOk parent\<close> by blast
  ultimately show ?thesis
    using chain assms(3,4) by (auto simp: validate_iff successively_append_iff)
qed

section \<open>Revocation\<close>

lemma revoked_inactive: "mgRevokedAt g \<noteq> None \<Longrightarrow> \<not> grantActive now g"
  by (simp add: grantActive_def)

lemma revoked_copy:
  assumes "markMeshGrantRevoked v at = Inr g"
  shows "\<exists>g0. snapshotGrant v = Inr g0 \<and> mgRevokedAt g \<noteq> None \<and> g = g0\<lparr>mgRevokedAt := mgRevokedAt g\<rparr> \<and>
    (mgRevokedAt g0 \<noteq> None \<longrightarrow> g = g0)"
  using assms by (auto simp: markMeshGrantRevoked_def bind_result_Inr_iff split: if_splits option.splits)

text \<open>C27: Revoking any grant of the chain shuts out everything delegated from it: a chain that holds a
  revoked grant, wherever it stands, never yields more than a denial.\<close>

theorem revoked_ancestor_denies:
  assumes "goLoadGrantChain opts subjectId ctx = Inr (JArr vs)" "snapshotGrants vs = Inr chain"
    and "g \<in> set chain" "mgRevokedAt g \<noteq> None"
    and "goAuthenticate opts ctx = Inr who" "principalSubject who = Inr subjectId"
    and "grantAuthorizer opts ctx = Inr d"
  shows "d = JStr ''deny''"
proof (rule ccontr)
  assume "d \<noteq> JStr ''deny''"
  then obtain now where "goNow opts = Num now" "\<not> now < 0"
    using assms by (cases "goNow opts")
      (auto simp: grantAuthorizer_def authorizeLoaded_def snapshotGrantChain_def bind_result_Inr_iff split: if_splits)
  then obtain leaf where "validateGrantChain chain (mcCanonicalAddress ctx) subjectId now (goMaxChainLength opts) = Inr (leaf, True)"
    using assms \<open>d \<noteq> JStr ''deny''\<close>
    by (auto simp: grantAuthorizer_def authorizeLoaded_def snapshotGrantChain_def bind_result_Inr_iff split: if_splits prod.splits)
  then show False using assms(3,4) revoked_inactive by (auto simp: validate_iff)
qed

section \<open>Witnesses\<close>

definition demoRoot :: jsval where
  "demoRoot = JObj [(''grantId'', JStr ''g0''), (''parentGrantId'', JNull), (''canonicalAddress'', JStr ''mesh''),
     (''issuerSubjectId'', JStr ''admin''), (''subjectId'', JStr ''ann''), (''authorization'', JStr ''full''),
     (''delegationDepth'', JNum (Num 1)), (''issuedAt'', JNum (Num 10))]"

definition demoChild :: jsval where
  "demoChild = JObj [(''grantId'', JStr ''g1''), (''parentGrantId'', JStr ''g0''), (''canonicalAddress'', JStr ''mesh''),
     (''issuerSubjectId'', JStr ''ann''), (''subjectId'', JStr ''bob''), (''authorization'', JStr ''readonly''),
     (''delegationDepth'', JNum (Num 0)), (''issuedAt'', JNum (Num 20)), (''expiresAt'', JNum (Num 90))]"

definition demoRevoked :: jsval where
  "demoRevoked = JObj [(''grantId'', JStr ''g0''), (''parentGrantId'', JNull), (''canonicalAddress'', JStr ''mesh''),
     (''issuerSubjectId'', JStr ''admin''), (''subjectId'', JStr ''ann''), (''authorization'', JStr ''full''),
     (''delegationDepth'', JNum (Num 1)), (''issuedAt'', JNum (Num 10)), (''revokedAt'', JNum (Num 30))]"

definition demoOptions :: "jsval \<Rightarrow> grant_options" where
  "demoOptions root = \<lparr>goAuthenticate = \<lambda>_. Inr (JObj [(''subjectId'', JStr ''bob'')]),
     goLoadGrantChain = \<lambda>_ _. Inr (JArr [root, demoChild]), goIsTrustedRoot = \<lambda>_ _. Inr (JBool True), goNow = Num 50,
     goConcealDenied = True, goMaxChainLength = 32\<rparr>"

definition demoContextOf :: "bool \<Rightarrow> mesh_context" where
  "demoContextOf writes = \<lparr>mcPresentedAddress = ''alias'', mcCanonicalAddress = ''mesh'', mcSurfaceIo = True, mcWrites = writes\<rparr>"

lemma demo_readonly: "grantAuthorizer (demoOptions demoRoot) (demoContextOf False) = Inr (JStr ''readonly'')"
  by code_simp

theorem granted_access_is_delegated_witness:
  "\<exists>chain. delegated (demoOptions demoRoot) (demoContextOf False) ''bob'' 50 chain"
proof -
  have "principalSubject (JObj [(''subjectId'', JStr ''bob'')]) = Inr ''bob''" by code_simp
  then show ?thesis
    using granted_access_is_delegated [OF demo_readonly] by (auto simp: demoOptions_def)
qed

definition demoParentGrant :: mesh_grant where
  "demoParentGrant = \<lparr>mgGrantId = ''g0'', mgParentGrantId = None, mgCanonicalAddress = ''mesh'', mgIssuerSubjectId = ''admin'',
     mgSubjectId = ''ann'', mgAuthorization = FullGrant, mgDelegationDepth = 1, mgIssuedAt = 10, mgNotBefore = None,
     mgExpiresAt = None, mgRevokedAt = None\<rparr>"

definition demoAttenuation :: "(string \<times> jsval) list" where
  "demoAttenuation = [(''grantId'', JStr ''g1''), (''subjectId'', JStr ''bob''), (''authorization'', JStr ''readonly''),
     (''delegationDepth'', JNum (Num 0)), (''issuedAt'', JNum (Num 20)), (''expiresAt'', JNum (Num 90))]"

definition demoChildGrant :: mesh_grant where
  "demoChildGrant = \<lparr>mgGrantId = ''g1'', mgParentGrantId = Some ''g0'', mgCanonicalAddress = ''mesh'', mgIssuerSubjectId = ''ann'',
     mgSubjectId = ''bob'', mgAuthorization = ReadonlyGrant, mgDelegationDepth = 0, mgIssuedAt = 20, mgNotBefore = None,
     mgExpiresAt = Some 90, mgRevokedAt = None\<rparr>"

theorem attenuated_grant_validates_witness:
  "validateGrantChain [demoParentGrant, demoChildGrant] ''mesh'' ''bob'' 50 32 = Inr (demoChildGrant, True)"
proof -
  have "validateGrantChain [demoParentGrant] ''mesh'' ''ann'' 50 32 = Inr (demoParentGrant, True)"
    "attenuateFields demoParentGrant demoAttenuation = Inr demoChildGrant" "mgGrantId demoChildGrant \<notin> mgGrantId ` set [demoParentGrant]"
    "length [demoParentGrant] < 32" "mgSubjectId demoChildGrant = ''bob''" "grantActive 50 demoChildGrant" by code_simp+
  then show ?thesis using attenuated_grant_validates [of "[demoParentGrant]" "''mesh''" "''ann''" 50 32 demoParentGrant True] by fastforce
qed

theorem revoked_ancestor_denies_witness: "grantAuthorizer (demoOptions demoRevoked) (demoContextOf False) = Inr (JStr ''deny'')"
proof -
  obtain d where d: "grantAuthorizer (demoOptions demoRevoked) (demoContextOf False) = Inr d"
    by (cases "grantAuthorizer (demoOptions demoRevoked) (demoContextOf False)") (code_simp, blast)
  define g where "g = demoParentGrant\<lparr>mgRevokedAt := Some 30\<rparr>"
  have chain: "snapshotGrants [demoRevoked, demoChild] = Inr [g, demoChildGrant]" unfolding g_def by code_simp
  have subject: "principalSubject (JObj [(''subjectId'', JStr ''bob'')]) = Inr ''bob''" by code_simp
  have "d = JStr ''deny''"
    by (rule revoked_ancestor_denies [OF _ chain _ _ _ subject d, of g]) (simp_all add: demoOptions_def g_def)
  then show ?thesis using d by simp
qed

end
