(* ===== verification/Mesh_Admission.thy ===== *)
theory Mesh_Admission
  imports Host_Http Mesh_Grants
begin

unbundle bit_operations_syntax

text \<open>
  Who reaches a mesh (\<open>packages/workers/src/worker.ts\<close> and \<open>ids.ts\<close>): issued and checksummed
  mesh ids, the integrity gates, the route resolver, the middleware chain and the authorization
  middleware. HMAC-SHA-256 is the runtime's and is an argument; gates, resolver and middleware are the
  application's and are values of the configuration, which may be malformed: a list that is no array,
  an entry that is no function. The state a handler changes is a type parameter.
\<close>

section \<open>Checksummed mesh ids\<close>

definition hexByte :: "8 word \<Rightarrow> string" where
  "hexByte b = padStart 2 (CHR ''0'') (toStringRadix 16 (Num (uint b)))"

definition timestampBytes :: "int \<Rightarrow> bytes" where
  "timestampBytes now = map (\<lambda>i. word_of_int (now div 256 ^ (5 - i) mod 256)) [0..<6]"

definition uuidBytes :: "int \<Rightarrow> bytes \<Rightarrow> bytes" where
  "uuidBytes now rand =
     (let bs = timestampBytes now @ rand in
      (bs[6 := ((bs ! 6) AND 0x0f) OR 0x70])[8 := ((bs ! 8) AND 0x3f) OR 0x80])"

definition uuidv7 :: "int \<Rightarrow> bytes \<Rightarrow> string" where
  "uuidv7 now rand =
     (let hex = concat (map hexByte (uuidBytes now rand)) in
      jjoin ''-'' [jslice hex 0 8, jslice hex 8 12, jslice hex 12 16, jslice hex 16 20, jslice hex 20 32])"

text \<open>\<open>MESH_UUID_RE\<close>\<close>

definition isHexDigit :: "char \<Rightarrow> bool" where
  "isHexDigit c = (c \<in> set ''0123456789abcdefABCDEF'')"

definition isMeshUuid :: "string \<Rightarrow> bool" where
  "isMeshUuid s =
     (case jsplit (CHR ''-'') s of
        [a, b, c, d, e] \<Rightarrow>
          length a = 8 \<and> length b = 4 \<and> length c = 4 \<and> length d = 4 \<and> length e = 12 \<and>
          list_all isHexDigit (a @ b @ c @ d @ e) \<and> hd c = CHR ''7'' \<and> hd d \<in> set ''89abAB''
      | _ \<Rightarrow> False)"

definition DEFAULT_MESH_SECRET :: string where "DEFAULT_MESH_SECRET = ''interocitor''"

definition getMeshSecret :: "string \<Rightarrow> string" where
  "getMeshSecret secret = (if secret = '''' then DEFAULT_MESH_SECRET else secret)"

type_synonym hmac = "string \<Rightarrow> string \<Rightarrow> bytes"

definition computeMeshTag :: "hmac \<Rightarrow> string \<Rightarrow> string \<Rightarrow> string" where
  "computeMeshTag hm uuid secret = bytesToBase64Url (take 8 (hm (getMeshSecret secret) uuid))"

text \<open>The comparison that takes the same time wherever two texts differ.\<close>

definition sameInConstantTime :: "string \<Rightarrow> string \<Rightarrow> bool" where
  "sameInConstantTime a b =
     (length a = length b \<and>
      fold (\<lambda>(x, y) r. r OR ((of_char x :: int) XOR of_char y)) (zip a b) (0 :: int) = 0)"

definition isValidChecksummedMesh :: "hmac \<Rightarrow> string \<Rightarrow> string \<Rightarrow> bool" where
  "isValidChecksummedMesh hm mesh secret =
     (if mesh = '''' then False
      else
        (let dot = lastIndexOf mesh ''.'' in
         if dot = - 1 then False
         else
           (let uuid = jslice mesh 0 dot; tag = jsliceFrom mesh (dot + 1) in
            if \<not> isMeshUuid uuid \<or> tag = '''' then False
            else sameInConstantTime tag (computeMeshTag hm uuid secret))))"

definition issueMeshId :: "hmac \<Rightarrow> string \<Rightarrow> int \<Rightarrow> bytes \<Rightarrow> string" where
  "issueMeshId hm secret now rand = (let id = uuidv7 now rand in id @ ''.'' @ computeMeshTag hm id secret)"

definition validateMeshId :: "hmac \<Rightarrow> string \<Rightarrow> string \<Rightarrow> bool" where
  "validateMeshId hm secret meshId =
     (let dot = lastIndexOf meshId ''.'' in
      if dot = - 1 then False
      else sameInConstantTime (jsliceFrom meshId (dot + 1)) (computeMeshTag hm (jslice meshId 0 dot) secret))"

section \<open>Requests and configuration\<close>

record 'b io_request =
  rqMethod :: string
  rqPathname :: string
  rqQueryPath :: "string option"
  rqJson :: "jsval result"
  rqBody :: "'b option"
  rqDeviceId :: "string option"
  rqSealGuard :: "string option"
  rqOrigin :: "string option"
  rqUpgrade :: "string option"
  rqRequestId :: "string option"

record mesh_route =
  mrPresentedAddress :: string
  mrCanonicalAddress :: string

type_synonym 'b gate = "mesh_route \<Rightarrow> bool \<Rightarrow> 'b io_request \<Rightarrow> jsval result"

type_synonym 'b resolver = "string \<Rightarrow> 'b io_request \<Rightarrow> bool \<Rightarrow> mesh_access \<Rightarrow> jsval result"

type_synonym ('s, 'b) handler = "'s \<Rightarrow> 's \<times> 'b reply result"

text \<open>A layer threads the state and whether it has already called \<open>next\<close>; it may answer no response.\<close>

type_synonym ('s, 'b) layer =
  "mesh_context \<Rightarrow> 'b io_request \<Rightarrow> ('s \<times> bool \<Rightarrow> ('s \<times> bool) \<times> 'b reply result) \<Rightarrow> 's \<times> bool \<Rightarrow>
     ('s \<times> bool) \<times> 'b reply option result"

definition checksummedMeshIntegrityGate :: "'b gate" where
  "checksummedMeshIntegrityGate route verified rq = Inr (JBool verified)"

section \<open>Admission\<close>

fun runGates :: "'b gate list \<Rightarrow> mesh_route \<Rightarrow> bool \<Rightarrow> 'b io_request \<Rightarrow> 'b reply + mesh_route" where
  "runGates [] route verified rq = Inl (errorReply ''Not found'' 404)"
| "runGates (g # gs) route verified rq =
     (case g route verified rq of
        Inl _ \<Rightarrow> Inl (errorReply ''Mesh integrity unavailable'' 503)
      | Inr r \<Rightarrow>
          if r = JBool True then Inr route
          else if r \<noteq> JBool False then Inl (errorReply ''Mesh integrity unavailable'' 503)
          else runGates gs route verified rq)"

definition admitMeshRoute ::
  "hmac \<Rightarrow> string \<Rightarrow> 'b gate option list option \<Rightarrow> mesh_route \<Rightarrow> 'b io_request \<Rightarrow> 'b reply + mesh_route"
where
  "admitMeshRoute hm secret gates route rq =
     (case gates of
        None \<Rightarrow> Inl (errorReply ''Mesh integrity unavailable'' 503)
      | Some gs \<Rightarrow>
          if list_ex Option.is_none gs then Inl (errorReply ''Mesh integrity unavailable'' 503)
          else runGates (map the gs) route (isValidChecksummedMesh hm (mrCanonicalAddress route) secret) rq)"

definition RECOVERY_STORAGE_PREFIX :: string where
  "RECOVERY_STORAGE_PREFIX = ''__interocitor_recovery__''"

definition isReservedMeshStorageAddress :: "string \<Rightarrow> bool" where
  "isReservedMeshStorageAddress address = (address = RECOVERY_STORAGE_PREFIX)"

definition resolvedAddress :: "jsval result \<Rightarrow> 'b reply + string" where
  "resolvedAddress r =
     (case r of
        Inl _ \<Rightarrow> Inl (errorReply ''Mesh route unavailable'' 503)
      | Inr v \<Rightarrow>
          (case v of
             JNull \<Rightarrow> Inl (errorReply ''Not found'' 404)
           | JObj fs \<Rightarrow>
               (case fieldOf fs ''canonicalAddress'' of
                  JStr a \<Rightarrow> if jsTrim a = '''' then Inl (errorReply ''Mesh route unavailable'' 503) else Inr a
                | _ \<Rightarrow> Inl (errorReply ''Mesh route unavailable'' 503))
           | _ \<Rightarrow> Inl (errorReply ''Mesh route unavailable'' 503)))"

text \<open>The resolver is absent, present but no function, or a function.\<close>

definition resolvePublicMeshRoute ::
  "hmac \<Rightarrow> string \<Rightarrow> 'b gate option list option \<Rightarrow> 'b resolver option option \<Rightarrow> string \<Rightarrow> 'b io_request \<Rightarrow> bool \<Rightarrow> mesh_access \<Rightarrow>
     'b reply + mesh_route"
where
  "resolvePublicMeshRoute hm secret gates resolver presented rq surfaceIo access =
     (let canonical =
        (case resolver of
           None \<Rightarrow> Inr presented
         | Some None \<Rightarrow> Inl (errorReply ''Mesh route unavailable'' 503)
         | Some (Some f) \<Rightarrow> resolvedAddress (f presented rq surfaceIo access))
      in case canonical of
           Inl reply \<Rightarrow> Inl reply
         | Inr address \<Rightarrow>
             if isReservedMeshStorageAddress address
             then Inl (if \<not> Option.is_none resolver then errorReply ''Mesh route unavailable'' 503 else errorReply ''Not found'' 404)
             else admitMeshRoute hm secret gates \<lparr>mrPresentedAddress = presented, mrCanonicalAddress = address\<rparr> rq)"

definition admitCanonicalMesh ::
  "hmac \<Rightarrow> string \<Rightarrow> 'b gate option list option \<Rightarrow> string \<Rightarrow> 'b io_request \<Rightarrow> 'b reply + string"
where
  "admitCanonicalMesh hm secret gates address rq =
     (case admitMeshRoute hm secret gates \<lparr>mrPresentedAddress = address, mrCanonicalAddress = address\<rparr> rq of
        Inl reply \<Rightarrow> Inl reply | Inr route \<Rightarrow> Inr (mrCanonicalAddress route))"

section \<open>Middleware\<close>

fun invokeLayers :: "mesh_context \<Rightarrow> 'b io_request \<Rightarrow> ('s, 'b) layer list \<Rightarrow> ('s, 'b) handler \<Rightarrow> ('s, 'b) handler" where
  "invokeLayers ctx rq [] terminal s = terminal s"
| "invokeLayers ctx rq (layer # layers) terminal s =
     (let next' = (\<lambda>(s, continued).
            if continued then ((s, True), Inr (errorReply ''Middleware called next() more than once'' 500))
            else (case invokeLayers ctx rq layers terminal s of (s', r) \<Rightarrow> ((s', True), r)))
      in case layer ctx rq next' (s, False) of
           ((s', _), r) \<Rightarrow>
             (s', case r of
                    Inl e \<Rightarrow> Inl e
                  | Inr None \<Rightarrow> Inr (errorReply ''Mesh middleware unavailable'' 503)
                  | Inr (Some reply) \<Rightarrow> Inr reply))"

definition runMeshMiddleware ::
  "mesh_context \<Rightarrow> 'b io_request \<Rightarrow> ('s, 'b) layer option list option \<Rightarrow> ('s, 'b) handler \<Rightarrow> ('s, 'b) handler"
where
  "runMeshMiddleware ctx rq middleware terminal s =
     (case middleware of
        None \<Rightarrow> (s, Inr (errorReply ''Mesh middleware unavailable'' 503))
      | Some layers \<Rightarrow>
          if list_ex Option.is_none layers then (s, Inr (errorReply ''Mesh middleware unavailable'' 503))
          else invokeLayers ctx rq (map the layers) terminal s)"

definition deniedReply :: "bool \<Rightarrow> 'b reply" where
  "deniedReply conceal = (if conceal then errorReply ''Not found'' 404 else errorReply ''Forbidden'' 403)"

text \<open>An authorizer is given the context and the request; what it reads of the environment is its own.\<close>

type_synonym 'b authorizer = "mesh_context \<Rightarrow> 'b io_request \<Rightarrow> jsval result"

definition createMeshAuthorizationMiddleware :: "'b authorizer \<Rightarrow> bool \<Rightarrow> ('s, 'b) layer" where
  "createMeshAuthorizationMiddleware authorizer conceal ctx rq next' st =
     (let proceed = (case next' st of (st', r) \<Rightarrow> (st', map_sum id Some r));
          stop = (\<lambda>reply. (st, Inr (Some reply)))
      in case authorizer ctx rq of
           Inl _ \<Rightarrow> stop (errorReply ''Authorization unavailable'' 503)
         | Inr d \<Rightarrow>
             if d = JStr ''none'' \<or> d = JStr ''full'' then proceed
             else if d = JStr ''readonly'' then (if mcWrites ctx then stop (deniedReply conceal) else proceed)
             else if d = JStr ''deny'' then stop (deniedReply conceal)
             else stop (errorReply ''Authorization unavailable'' 503))"

text \<open>
  The three callbacks of the options are given the context with the request, so they are the options
  at a request; the chain length and the concealment are fixed when the middleware is made.
\<close>

definition createMeshGrantAuthorizationMiddleware :: "nat \<Rightarrow> bool \<Rightarrow> ('b io_request \<Rightarrow> grant_options) \<Rightarrow> ('s, 'b) layer result" where
  "createMeshGrantAuthorizationMiddleware maxChainLength concealDenied opts =
     (if maxChainLength = 0 then Inl (TypeError ''maxChainLength must be a positive safe integer'')
      else Inr (createMeshAuthorizationMiddleware
        (\<lambda>ctx rq. grantAuthorizer ((opts rq)\<lparr>goMaxChainLength := maxChainLength\<rparr>) ctx) concealDenied))"

section \<open>Issued ids\<close>

lemma int_xor_0: "(a :: int) XOR b = 0 \<longleftrightarrow> a = b"
  by (auto simp: bit_eq_iff bit_xor_iff)

lemma sameInConstantTime_iff: "sameInConstantTime a b \<longleftrightarrow> a = b"
proof -
  have "fold (\<lambda>(x, y) r. r OR ((of_char x :: int) XOR of_char y)) zs r = 0 \<longleftrightarrow> r = 0 \<and> (\<forall>(x, y) \<in> set zs. x = y)" for zs r
    by (induction zs arbitrary: r) (auto simp: or_eq_0_iff int_xor_0)
  then show ?thesis by (auto simp: sameInConstantTime_def list_eq_iff_zip_eq)
qed

lemma low_or_high:
  fixes b :: "8 word"
  assumes "mask n AND h = (0 :: 8 word)" "unat h + 2 ^ n \<le> 256"
  shows "unat ((b AND mask n) OR h) = unat h + unat b mod 2 ^ n"
proof -
  have "(b AND mask n) AND h = 0" using assms(1) by (simp add: and.assoc)
  then have "(b AND mask n) OR h = take_bit n b + h" by (simp add: disjunctive_add_eq_or take_bit_eq_mask)
  moreover have t: "unat (take_bit n b) = unat b mod 2 ^ n"
    unfolding unsigned_take_bit_eq by (simp only: take_bit_eq_mod)
  moreover have "unat b mod 2 ^ n < 2 ^ n" by simp
  then have "unat (take_bit n b) + unat h < 256" using t assms(2) by linarith
  then have "unat (take_bit n b) + unat h < 2 ^ LENGTH(8)" by simp
  then have "unat (take_bit n b + h) = unat (take_bit n b) + unat h" by (rule unat_add_lem [THEN iffD1])
  ultimately show ?thesis by simp
qed

lemma version_byte: "unat (((b :: 8 word) AND 0x0f) OR 0x70) = 112 + unat b mod 16"
  using low_or_high [of 4 "0x70" b] by (simp add: mask_eq_exp_minus_1)

lemma variant_byte: "unat (((b :: 8 word) AND 0x3f) OR 0x80) = 128 + unat b mod 64"
  using low_or_high [of 6 "0x80" b] by (simp add: mask_eq_exp_minus_1)

lemma hexByte_digits: "hexByte b = [digitChar (unat b div 16), digitChar (unat b mod 16)]"
proof -
  have n: "unat b < 256" using unsigned_less [of b] by simp
  then have "unat b div 16 < 16" by (intro less_mult_imp_div_less) simp
  then have "Js_Prelude.digitsOf 16 (unat b) = (if unat b < 16 then [unat b] else [unat b div 16, unat b mod 16])"
    by (simp add: Js_Prelude.digitsOf.simps)
  moreover have "CHR ''0'' = digitChar 0" by code_simp
  ultimately show ?thesis by (simp add: hexByte_def padStart_def numeral_2_eq_2)
qed

lemma digit_hex: "d < 16 \<Longrightarrow> isHexDigit (digitChar d)"
proof -
  have "list_all (\<lambda>d. isHexDigit (digitChar d)) [0..<16]" by code_simp
  then show "d < 16 \<Longrightarrow> ?thesis" by (simp add: list_all_iff)
qed

lemma hexBytes_hex: "list_all isHexDigit (concat (map hexByte bs))"
proof -
  have "unat b div 16 < 16" "unat b mod 16 < 16" for b :: "8 word"
    using unsigned_less [of b] by (auto intro!: less_mult_imp_div_less)
  then show ?thesis by (induction bs) (simp_all add: hexByte_digits digit_hex)
qed

lemma length_hexBytes: "length (concat (map hexByte bs)) = 2 * length bs"
  by (induction bs) (simp_all add: hexByte_digits)

lemma nth_hexBytes: "i < length bs \<Longrightarrow> concat (map hexByte bs) ! (2 * i) = digitChar (unat (bs ! i) div 16)"
proof (induction bs arbitrary: i)
  case (Cons b bs)
  then show ?case by (cases i) (auto simp: hexByte_digits)
qed simp

lemma hex_no_dash: "list_all isHexDigit s \<Longrightarrow> CHR ''-'' \<notin> set s"
proof -
  have "\<not> isHexDigit (CHR ''-'')" by code_simp
  then show "list_all isHexDigit s \<Longrightarrow> ?thesis" by (auto simp: list_all_iff)
qed

lemma jslice_take: "i \<le> j \<Longrightarrow> j \<le> length s \<Longrightarrow> jslice s (int i) (int j) = take (j - i) (drop i s)"
  by (simp add: jslice_def clampIndex_def)

lemma five_groups:
  assumes "length a = 8" "length b = 4" "length c = 4" "length d = 4" "length e = 12"
    "list_all isHexDigit (a @ b @ c @ d @ e)" "hd c = CHR ''7''" "hd d \<in> set ''89abAB''"
  shows "isMeshUuid (jjoin ''-'' [a, b, c, d, e])"
proof -
  have dash: "CHR ''-'' \<notin> set a" "CHR ''-'' \<notin> set b" "CHR ''-'' \<notin> set c" "CHR ''-'' \<notin> set d" "CHR ''-'' \<notin> set e"
    using hex_no_dash [OF assms(6)] by auto
  then have "jsplit (CHR ''-'') (a @ CHR ''-'' # b @ CHR ''-'' # c @ CHR ''-'' # d @ CHR ''-'' # e) = [a, b, c, d, e]"
    by (simp add: jsplit_append jsplit_no_sep)
  then show ?thesis unfolding isMeshUuid_def using assms by simp
qed

lemma uuidv7_valid:
  assumes "length rand = 10"
  shows "isMeshUuid (uuidv7 now rand)"
proof -
  define bs where "bs = uuidBytes now rand"
  define hex where "hex = concat (map hexByte bs)"
  have raw: "length (timestampBytes now @ rand) = 16" using assms by (simp add: timestampBytes_def)
  then have len: "length bs = 16" "length hex = 32" by (simp_all add: bs_def hex_def uuidBytes_def Let_def length_hexBytes)
  have marks: "unat (bs ! 6) div 16 = 7" "unat (bs ! 8) div 16 \<in> {8, 9, 10, 11}"
    using raw by (auto simp: bs_def uuidBytes_def Let_def version_byte variant_byte)
  have nth: "hex ! (2 * i) = digitChar (unat (bs ! i) div 16)" if "i < 16" for i
    using nth_hexBytes [of i bs] that len(1) by (simp add: hex_def)
  have groups: "uuidv7 now rand = jjoin ''-'' [take 8 hex, take 4 (drop 8 hex), take 4 (drop 12 hex), take 4 (drop 16 hex), take 12 (drop 20 hex)]"
    using len(2) jslice_take [of 0 8 hex] jslice_take [of 8 12 hex] jslice_take [of 12 16 hex] jslice_take [of 16 20 hex]
      jslice_take [of 20 32 hex] by (simp add: uuidv7_def Let_def flip: bs_def hex_def)
  have all: "list_all isHexDigit hex" unfolding hex_def by (rule hexBytes_hex)
  have digits: "digitChar 7 = CHR ''7''" "digitChar 8 = CHR ''8''" "digitChar 9 = CHR ''9''" "digitChar 10 = CHR ''a''"
    "digitChar 11 = CHR ''b''" by code_simp+
  show ?thesis unfolding groups
  proof (rule five_groups)
    have "hd (take 4 (drop 12 hex)) = hex ! (2 * 6)" "hd (take 4 (drop 16 hex)) = hex ! (2 * 8)"
      using len(2) by (simp_all add: hd_drop_conv_nth hd_take)
    then show "hd (take 4 (drop 12 hex)) = CHR ''7''" "hd (take 4 (drop 16 hex)) \<in> set ''89abAB''"
      using nth [of 6] nth [of 8] marks digits by auto
    show "list_all isHexDigit (take 8 hex @ take 4 (drop 8 hex) @ take 4 (drop 12 hex) @ take 4 (drop 16 hex) @ take 12 (drop 20 hex))"
      using all by (auto simp: list_all_iff dest: in_set_takeD in_set_dropD)
  qed (use len(2) in simp_all)
qed

lemma tag_no_dot: "CHR ''.'' \<notin> set (computeMeshTag hm uuid secret)"
proof -
  have "\<not> isUrlKeyChar (CHR ''.'')" by code_simp
  moreover have "\<forall>c \<in> set (bytesToBase64Url bs). isUrlKeyChar c" for bs
    using bytesToBase64Url_chars [of bs] by (metis set_takeWhileD)
  ultimately show ?thesis unfolding computeMeshTag_def by blast
qed

lemma lastIndexOf_absent: "c \<notin> set s \<Longrightarrow> lastIndexOf s [c] = - 1"
  by (auto simp: lastIndexOf_def filter_empty_conv startsAt_char in_set_conv_nth split: list.splits)

lemma split_at_dot:
  assumes "CHR ''.'' \<notin> set tag"
  shows "lastIndexOf (u @ ''.'' @ tag) ''.'' = int (length u)" "jslice (u @ ''.'' @ tag) 0 (int (length u)) = u"
    "jsliceFrom (u @ ''.'' @ tag) (int (length u) + 1) = tag"
  using lastIndexOf_char [OF assms, of u] by (simp_all add: jslice_def jsliceFrom_def clampIndex_def nat_add_distrib)

lemma checksum_iff:
  "isValidChecksummedMesh hm mesh secret \<longleftrightarrow>
     (\<exists>uuid. isMeshUuid uuid \<and> computeMeshTag hm uuid secret \<noteq> '''' \<and> mesh = uuid @ ''.'' @ computeMeshTag hm uuid secret)"
proof
  assume valid: "isValidChecksummedMesh hm mesh secret"
  have "CHR ''.'' \<in> set mesh"
    using valid lastIndexOf_absent [of "CHR ''.''" mesh] by (auto simp: isValidChecksummedMesh_def Let_def split: if_splits)
  then obtain uuid tag where split: "mesh = uuid @ ''.'' @ tag" "CHR ''.'' \<notin> set tag" by (auto dest: split_list_last)
  note parts = split_at_dot [OF split(2), of uuid]
  have "isMeshUuid uuid \<and> tag \<noteq> '''' \<and> tag = computeMeshTag hm uuid secret"
    using valid parts unfolding split(1) isValidChecksummedMesh_def
    by (simp add: Let_def sameInConstantTime_iff split: if_splits)
  then show "\<exists>uuid. isMeshUuid uuid \<and> computeMeshTag hm uuid secret \<noteq> '''' \<and> mesh = uuid @ ''.'' @ computeMeshTag hm uuid secret"
    using split(1) by blast
next
  assume "\<exists>uuid. isMeshUuid uuid \<and> computeMeshTag hm uuid secret \<noteq> '''' \<and> mesh = uuid @ ''.'' @ computeMeshTag hm uuid secret"
  then obtain uuid where u: "isMeshUuid uuid" "computeMeshTag hm uuid secret \<noteq> ''''" "mesh = uuid @ ''.'' @ computeMeshTag hm uuid secret"
    by blast
  show "isValidChecksummedMesh hm mesh secret"
    using u(1,2) split_at_dot [OF tag_no_dot, of uuid hm uuid secret] unfolding u(3) isValidChecksummedMesh_def
    by (simp add: Let_def sameInConstantTime_iff)
qed

text \<open>C30: Every mesh id the host issues passes the checksum gate and the validation operation; and an address that
  passes the gate is a version 7 UUID with a dot and exactly the tag the configured secret gives to this UUID, so
  without the secret's tag no address is admitted.\<close>

theorem issued_mesh_id_valid:
  assumes "length rand = 10" "hm (getMeshSecret secret) (uuidv7 now rand) \<noteq> []"
  shows "isValidChecksummedMesh hm (issueMeshId hm secret now rand) secret \<and>
    validateMeshId hm secret (issueMeshId hm secret now rand) \<and>
    (\<forall>mesh. isValidChecksummedMesh hm mesh secret \<longrightarrow>
      (\<exists>uuid. isMeshUuid uuid \<and> mesh = uuid @ ''.'' @ computeMeshTag hm uuid secret))"
proof (intro conjI allI impI)
  let ?u = "uuidv7 now rand"
  have tag: "computeMeshTag hm ?u secret \<noteq> ''''" using assms(2) by (simp add: computeMeshTag_def bytesToBase64Url_nonempty)
  show "isValidChecksummedMesh hm (issueMeshId hm secret now rand) secret"
    unfolding checksum_iff issueMeshId_def Let_def by (rule exI [of _ ?u]) (simp add: uuidv7_valid [OF assms(1)] tag)
  show "validateMeshId hm secret (issueMeshId hm secret now rand)"
    unfolding validateMeshId_def issueMeshId_def Let_def split_at_dot [OF tag_no_dot] by (simp add: sameInConstantTime_iff)
qed (auto simp: checksum_iff)

theorem issued_mesh_id_valid_witness:
  "isValidChecksummedMesh (\<lambda>secret text. [1, 2, 3, 4, 5, 6, 7, 8, 9])
     (issueMeshId (\<lambda>secret text. [1, 2, 3, 4, 5, 6, 7, 8, 9]) ''s'' 1700000000000 (replicate 10 7)) ''s''"
  using issued_mesh_id_valid [of "replicate 10 7" "\<lambda>secret text. [1, 2, 3, 4, 5, 6, 7, 8, 9]" "''s''" 1700000000000] by simp

section \<open>The authorization middleware\<close>

lemma authorization_stops:
  assumes "authorizer ctx rq = Inr (JStr ''readonly'') \<and> mcWrites ctx \<or> authorizer ctx rq = Inr (JStr ''deny'')"
  shows "invokeLayers ctx rq (createMeshAuthorizationMiddleware authorizer conceal # layers) terminal s = (s, Inr (deniedReply conceal))"
  using assms by (auto simp: createMeshAuthorizationMiddleware_def Let_def)

lemma authorization_unavailable:
  assumes "\<forall>d. authorizer ctx rq = Inr d \<longrightarrow> d \<notin> {JStr ''none'', JStr ''full'', JStr ''readonly'', JStr ''deny''}"
  shows "invokeLayers ctx rq (createMeshAuthorizationMiddleware authorizer conceal # layers) terminal s =
    (s, Inr (errorReply ''Authorization unavailable'' 503))"
  using assms by (auto simp: createMeshAuthorizationMiddleware_def Let_def split: sum.splits)

lemma authorization_step:
  assumes "authorizer ctx rq = Inr d" "d = JStr ''none'' \<or> d = JStr ''full'' \<or> d = JStr ''readonly'' \<and> \<not> mcWrites ctx"
  shows "createMeshAuthorizationMiddleware authorizer conceal ctx rq n st = (case n st of (st', r) \<Rightarrow> (st', map_sum id Some r))"
  using assms by (auto simp: createMeshAuthorizationMiddleware_def Let_def)

lemma authorization_proceeds:
  assumes "authorizer ctx rq = Inr d" "d = JStr ''none'' \<or> d = JStr ''full'' \<or> d = JStr ''readonly'' \<and> \<not> mcWrites ctx"
  shows "invokeLayers ctx rq (createMeshAuthorizationMiddleware authorizer conceal # layers) terminal s = invokeLayers ctx rq layers terminal s"
proof -
  obtain s' r where run: "invokeLayers ctx rq layers terminal s = (s', r)" by fastforce
  show ?thesis by (cases r) (simp_all add: run Let_def authorization_step [where authorizer = authorizer and ctx = ctx and rq = rq, OF assms])
qed

end
