(* ===== verification/Row_Store_Laws.thy ===== *)
theory Row_Store_Laws
  imports Row_Store
begin

text \<open>
  What the operations of the row store do to its tables: the file table as a map after every
  operation, the subtree a deletion removes, the meaning of the \<open>LIKE\<close> patterns, write-once files,
  the order of semantic writes, and the sweep of idle meshes.
\<close>

section \<open>Tables as maps\<close>

lemma map_of_insertOrIgnore [simp]:
  "map_of (insertOrIgnore k v t) = (if map_of t k = None then (map_of t)(k \<mapsto> v) else map_of t)"
  by (auto simp: insertOrIgnore_def map_add_def split: option.splits)

lemma map_of_deleteWhere [simp]: "map_of (deleteWhere P t) k = (if P k then None else map_of t k)"
  by (induction t) (auto simp: deleteWhere_def)

lemma map_of_updateWhere [simp]:
  "map_of (updateWhere P f t) k = map_option (\<lambda>v. if P k then f v else v) (map_of t k)"
  by (induction t) (auto simp: updateWhere_def)

lemma files_meshDelta [simp]: "dbFiles (meshDeltaStatements p r d now a b db) = dbFiles db"
  by (simp add: meshDeltaStatements_def split: option.splits)

lemma stored_meshDelta [simp]: "dbStoredFiles (meshDeltaStatements p r d now a b db) = dbStoredFiles db"
  by (simp add: meshDeltaStatements_def split: option.splits)

lemma files_folderTree [simp]:
  "dbFiles (folderTreeStatements p t now db) = dbFiles db"
  "dbStoredFiles (folderTreeStatements p t now db) = dbStoredFiles db"
  "dbMeshPaths (folderTreeStatements p t now db) = dbMeshPaths db"
  by (simp_all add: folderTreeStatements_def)

lemma hoDb_cache [simp]:
  "hoDb (cachePut p q b e m g) = hoDb g" "hoDb (cacheDelete p q h) = hoDb h"
  "hoDb (listingCachePut p q l h) = hoDb h" "hoDb (listingCacheDelete p q h) = hoDb h"
  by (simp_all add: cachePut_def cacheDelete_def listingCachePut_def listingCacheDelete_def)

lemma hoDb_uncache [simp]: "hoDb (fold (\<lambda>(k, row). cacheDelete p (snd k)) rows h) = hoDb h"
  by (induction rows arbitrary: h) auto

section \<open>The file table after an operation\<close>

lemma fileRow_get [simp]: "fileRow m q (fst (opGetFile env mount path pt h)) = fileRow m q h"
  by (auto simp: opGetFile_def fileRow_def Let_def split: option.splits)

lemma fileRow_list [simp]: "fileRow m q (fst (opListChildren mount path h)) = fileRow m q h"
  by (auto simp: opListChildren_def fileRow_def Let_def split: option.splits)

lemma fileRow_immutable:
  "fileRow m q (fst (opPutImmutable env mount path bytes pt root h)) =
     (if (m, q) = (mount, normalizePath path) \<and> fileRow m q h = None then Some (newFileRow env bytes) else fileRow m q h)"
  by (auto simp: opPutImmutable_def fileRow_def Let_def)

lemma fileRow_commit:
  "fileRow m q (semanticCommit env mount path bytes pt root existing h) =
     (if (m, q) = (mount, normalizePath path) then Some (newFileRow env bytes) else fileRow m q h)"
  by (auto simp: semanticCommit_def fileRow_def Let_def)

lemma fileRow_semantic:
  "fileRow m q (fst (opPutSemantic env mount path bytes pt root h)) =
     (if (m, q) = (mount, normalizePath path) \<and> \<not> semanticStale env pt (fileRow m q h) bytes
      then Some (newFileRow env bytes) else fileRow m q h)"
  by (auto simp: opPutSemantic_def fileRow_commit Let_def)

lemma fileRow_overwrite:
  "fileRow m q (fst (opPutOverwrite env mount path bytes h)) =
     (if (m, q) = (mount, normalizePath path) then Some (newFileRow env bytes) else fileRow m q h)"
  by (auto simp: opPutOverwrite_def fileRow_def Let_def)

lemma fileRow_delete:
  "fileRow m q (fst (opDeletePath env mount path root h)) =
     (if m = mount \<and> (normalizePath path = ''/'' \<or> inSubtree (normalizePath path) q) then None else fileRow m q h)"
  by (auto simp: opDeletePath_def fileRow_def Let_def)

lemma fileRow_reconcile [simp]: "fileRow m q (fst (opReconcileMetrics env mount root h)) = fileRow m q h"
  by (simp add: opReconcileMetrics_def fileRow_def Let_def)

section \<open>Subtrees\<close>

lemma between_top: "p \<le> s \<and> belowTop s p \<longleftrightarrow> (\<exists>t. s = p @ t)"
  by (induction s p rule: belowTop.induct) (auto simp: less_le_not_le)

lemma inSubtree_iff: "inSubtree n q \<longleftrightarrow> q = n \<or> (\<exists>t. q = n @ CHR ''/'' # t)"
  using between_top [of "n @ ''/''" q] by (auto simp: inSubtree_def)

section \<open>Patterns\<close>

definition noWild :: "string \<Rightarrow> bool" where
  "noWild p = (CHR ''%'' \<notin> set p \<and> CHR ''_'' \<notin> set p)"

lemma like_any [simp]: "sqlLike ''%'' t"
  by (induction t) auto

lemma like_literal_prefix:
  "noWild p \<Longrightarrow> sqlLike (p @ ''%'') t \<longleftrightarrow> length p \<le> length t \<and> map asciiLower (take (length p) t) = map asciiLower p"
proof (induction p arbitrary: t)
  case (Cons c p)
  then show ?case by (cases t) (auto simp: noWild_def)
qed simp

lemma like_skip: "sqlLike ps t \<Longrightarrow> sqlLike (CHR ''%'' # ps) t"
  by (cases t) auto

lemma like_refl: "sqlLike (p @ ''%'') (p @ t)"
  by (induction p) (auto simp: like_skip)

definition sameCase :: "string \<Rightarrow> string \<Rightarrow> bool" where
  "sameCase p q = (map asciiLower (take (length p) q) = map asciiLower p \<longrightarrow> take (length p) q = p)"

text \<open>A pattern with no wildcard, on texts that spell its letters in the same case, is a prefix.\<close>

lemma like_prefix:
  assumes "noWild p" "sameCase p q"
  shows "sqlLike (p @ ''%'') q \<longleftrightarrow> (\<exists>t. q = p @ t)"
proof
  assume "sqlLike (p @ ''%'') q"
  then have "take (length p) q = p" using assms by (simp add: like_literal_prefix sameCase_def)
  then show "\<exists>t. q = p @ t" by (metis append_take_drop_id)
qed (auto simp: like_refl)

section \<open>Listings\<close>

lemma slashCount_simps [simp]:
  "slashCount [] = 0" "slashCount (c # p) = (if c = CHR ''/'' then 1 else 0) + slashCount p"
  "slashCount (p @ q) = slashCount p + slashCount q"
  by (simp_all add: slashCount_def)

lemma slashCount_0: "slashCount p = 0 \<longleftrightarrow> CHR ''/'' \<notin> set p"
  by (induction p) auto

lemma jsplit_not_Nil [simp]: "jsplit c s \<noteq> []"
  by (cases s) (auto split: list.splits)

lemma hd_jsplit: "hd (jsplit c s) = [] \<longleftrightarrow> s = [] \<or> hd s = c"
  by (cases s) (auto split: list.splits)

lemma segments_slashCount:
  "noDoubleSlash p \<Longrightarrow> p \<noteq> [] \<Longrightarrow> last p \<noteq> CHR ''/'' \<Longrightarrow>
    length (filter (\<lambda>s. s \<noteq> []) (jsplit (CHR ''/'') p)) = slashCount p + (if hd p = CHR ''/'' then 0 else 1)"
proof (induction p)
  case (Cons c p)
  show ?case
  proof (cases "p = []")
    case False
    obtain y ys where split: "jsplit (CHR ''/'') p = y # ys" by (cases "jsplit (CHR ''/'') p") auto
    have "y = [] \<longleftrightarrow> hd p = CHR ''/''" using hd_jsplit [of "CHR ''/''" p] split False by simp
    then show ?thesis using Cons False split by (auto split: if_splits)
  qed (use Cons in auto)
qed simp

lemma depthTarget_slashCount: "normalPath n \<Longrightarrow> n \<noteq> ''/'' \<Longrightarrow> depthTarget n = slashCount n + 1"
  using segments_slashCount [of n] by (auto simp: normalPath_def depthTarget_def startsWith_slash)

lemma listedChild_iff:
  assumes "normalPath n" "n \<noteq> ''/''" "noWild n" "sameCase (n @ ''/'') q"
  shows "listedChild mount n (m, q) \<longleftrightarrow> m = mount \<and> (\<exists>name. q = n @ CHR ''/'' # name \<and> CHR ''/'' \<notin> set name)"
proof -
  have "sqlLike (n @ ''/%'') q \<longleftrightarrow> (\<exists>t. q = (n @ ''/'') @ t)"
    using like_prefix [of "n @ ''/''" q] assms by (auto simp: noWild_def)
  then show ?thesis
    using assms by (auto simp: listedChild_def childPattern_def depthTarget_slashCount slashCount_0)
qed

definition listedPaths :: "listing \<Rightarrow> string set" where
  "listedPaths l = lfPath ` set (liFiles l)"

lemma list_fresh:
  assumes "isAuthoritativeCompactionListing (normalizePath path) \<or> listingCacheGet mount (normalizePath path) h = None"
  shows "listedPaths (snd (opListChildren mount path h)) =
    {q. fileRow mount q h \<noteq> None \<and> listedChild mount (normalizePath path) (mount, q)}"
proof -
  have "(if \<not> isAuthoritativeCompactionListing (normalizePath path) then listingCacheGet mount (normalizePath path) h else None) = None"
    using assms by auto
  moreover have "fileRow mount q h \<noteq> None \<longleftrightarrow> (mount, q) \<in> fst ` set (dbFiles (hoDb h))" for q
    by (simp add: fileRow_def map_of_eq_None_iff)
  moreover have "listedChild mount n (m, q) \<Longrightarrow> m = mount" for n m q by (simp add: listedChild_def)
  ultimately show ?thesis
    by (force simp: opListChildren_def listedPaths_def Let_def)
qed

lemma list_children_exact:
  assumes "isAuthoritativeCompactionListing (normalizePath path) \<or> listingCacheGet mount (normalizePath path) h = None"
    and n: "normalizePath path = n" "n \<noteq> ''/''" "noWild n"
    and cased: "\<And>q. fileRow mount q h \<noteq> None \<Longrightarrow> sameCase (n @ ''/'') q"
  shows "listedPaths (snd (opListChildren mount path h)) =
    {q. fileRow mount q h \<noteq> None \<and> (\<exists>name. q = n @ CHR ''/'' # name \<and> CHR ''/'' \<notin> set name)}"
proof -
  have "normalPath n" using normalPath_normalizePath n(1) by blast
  then show ?thesis
    unfolding list_fresh [OF assms(1)] n(1) using listedChild_iff [OF _ n(2,3) cased] by blast
qed

section \<open>What never comes from the cache\<close>

lemma get_content:
  assumes "pt \<noteq> ManifestSnapshot"
  shows "map_option grBytes (snd (opGetFile env mount path pt h)) = map_option frContent (fileRow mount (normalizePath path) h)"
  using assms by (simp add: opGetFile_def isCacheable_def Let_def split: option.splits)

lemma list_authoritative:
  assumes "isAuthoritativeCompactionListing (normalizePath path)" "hoDb h = hoDb g"
  shows "snd (opListChildren mount path h) = snd (opListChildren mount path g)"
  using assms by (simp add: opListChildren_def Let_def)

section \<open>Well-formed databases\<close>

text \<open>
  Primary keys are unique, every file and folder has a normalised path, the size column is the size
  of the content, and no counter is negative.
\<close>

definition meshOk :: "mesh_path_row \<Rightarrow> bool" where
  "meshOk m = (0 \<le> mpFileCount m \<and> 0 \<le> mpTotalBytes m \<and> 0 \<le> mpChangeBytes m \<and> 0 \<le> mpMainlineBytes m
     \<and> 0 \<le> mpOpsCountDay m \<and> 0 \<le> mpWritesCountDay m)"

definition databaseOk :: "'b::size database \<Rightarrow> bool" where
  "databaseOk db =
     (distinct (map fst (dbFiles db)) \<and> distinct (map fst (dbFolders db)) \<and> distinct (map fst (dbStoredFiles db)) \<and>
      distinct (map fst (dbMeshPaths db)) \<and>
      (\<forall>(k, row) \<in> set (dbFiles db). normalPath (snd k) \<and> frSize row = int (size (frContent row))) \<and>
      (\<forall>(k, m) \<in> set (dbMeshPaths db). meshOk m))"

lemma keys_insertOrIgnore [simp]: "distinct (map fst t) \<Longrightarrow> distinct (map fst (insertOrIgnore k v t))"
  by (auto simp: insertOrIgnore_def map_of_eq_None_iff)

lemma keys_deleteWhere [simp]: "distinct (map fst t) \<Longrightarrow> distinct (map fst (deleteWhere P t))"
  by (induction t) (auto simp: deleteWhere_def)

lemma keys_updateWhere [simp]: "map fst (updateWhere P f t) = map fst t"
  by (induction t) (auto simp: updateWhere_def)

lemma keys_folderTree [simp]:
  "distinct (map fst (dbFolders db)) \<Longrightarrow> distinct (map fst (dbFolders (folderTreeStatements p t now db)))"
proof -
  have "distinct (map fst fs) \<Longrightarrow> distinct (map fst (fold (\<lambda>cur. insertOrIgnore (p, cur) now) ps fs))" for ps fs
    by (induction ps arbitrary: fs) auto
  then show "distinct (map fst (dbFolders db)) \<Longrightarrow> ?thesis" by (simp add: folderTreeStatements_def)
qed

lemma set_insertOrIgnore: "set (insertOrIgnore k v t) \<subseteq> insert (k, v) (set t)"
  by (auto simp: insertOrIgnore_def)

lemma set_updateWhere: "(k, w) \<in> set (updateWhere P f t) \<Longrightarrow> \<exists>v. (k, v) \<in> set t \<and> w = (if P k then f v else v)"
  by (auto simp: updateWhere_def)

lemma set_deleteWhere: "set (deleteWhere P t) \<subseteq> set t"
  by (auto simp: deleteWhere_def)

lemma touch_ok: "meshOk m \<Longrightarrow> meshOk (touchMeshPath d now a b c m)"
  by (auto simp: meshOk_def touchMeshPath_def countDay_def Let_def)

lemma wipe_ok: "meshOk m \<Longrightarrow> meshOk (wipeMesh now m)"
  by (simp add: meshOk_def wipeMesh_def)

lemma new_mesh_ok: "meshOk (newMeshPath now)"
  by (simp add: meshOk_def newMeshPath_def)

lemma folderTree_ok: "databaseOk db \<Longrightarrow> databaseOk (folderTreeStatements p t now db)"
  by (simp add: databaseOk_def)

lemma meshDelta_ok:
  assumes "databaseOk db"
  shows "databaseOk (meshDeltaStatements p root d now a b db)"
proof (cases root)
  case (Some r)
  let ?t = "insertOrIgnore (p, r) (newMeshPath now) (dbMeshPaths db)"
  have "\<forall>(k, m) \<in> set ?t. meshOk m"
    using assms set_insertOrIgnore [of "(p, r)" "newMeshPath now" "dbMeshPaths db"] new_mesh_ok
    by (fastforce simp: databaseOk_def)
  then have "\<forall>(k, m) \<in> set (updateWhere P (touchMeshPath d now x y z) ?t). meshOk m" for P x y z
    using touch_ok by (fastforce dest: set_updateWhere)
  then show ?thesis using assms Some by (simp add: databaseOk_def meshDeltaStatements_def)
qed (use assms in \<open>simp add: meshDeltaStatements_def\<close>)

lemma insert_file_ok:
  assumes "databaseOk db" "normalPath q"
  shows "databaseOk ((folderTreeStatements m t now db)
    \<lparr>dbFiles := insertOrIgnore (p, q) (newFileRow env bytes) (dbFiles db)\<rparr>)"
  using folderTree_ok [OF assms(1), of m t now] assms(2)
    set_insertOrIgnore [of "(p, q)" "newFileRow env bytes" "dbFiles db"]
  by (fastforce simp: databaseOk_def newFileRow_def)

lemma update_file_ok:
  assumes "databaseOk db" "normalPath q"
  shows "databaseOk ((folderTreeStatements m t now db)
    \<lparr>dbFiles := AList.update (p, q) (newFileRow env bytes) (dbFiles db)\<rparr>)"
  using folderTree_ok [OF assms(1), of m t now] assms(2)
    set_alist_update [of "(p, q)" "newFileRow env bytes" "dbFiles db"]
  by (fastforce simp: databaseOk_def newFileRow_def distinct_update)

lemma delete_rows_ok:
  assumes "databaseOk db"
  shows "databaseOk (db\<lparr>dbFiles := deleteWhere P (dbFiles db), dbFolders := deleteWhere Q (dbFolders db)\<rparr>)"
  using assms set_deleteWhere [of P "dbFiles db"] by (fastforce simp: databaseOk_def)

lemma update_meshes_ok:
  assumes "databaseOk db" "\<And>m. meshOk m \<Longrightarrow> meshOk (f m)"
  shows "databaseOk (db\<lparr>dbMeshPaths := updateWhere P f (dbMeshPaths db)\<rparr>)"
proof -
  have "\<forall>(k, m) \<in> set (updateWhere P f (dbMeshPaths db)). meshOk m"
    using assms by (fastforce simp: databaseOk_def dest: set_updateWhere)
  then show ?thesis using assms(1) by (simp add: databaseOk_def)
qed

lemma wipe_rows_ok:
  assumes "databaseOk db" "\<And>m. meshOk m \<Longrightarrow> meshOk (f m)"
  shows "databaseOk (db\<lparr>dbFiles := deleteWhere P (dbFiles db), dbFolders := deleteWhere Q (dbFolders db),
    dbMeshPaths := updateWhere R f (dbMeshPaths db)\<rparr>)"
  using update_meshes_ok [OF delete_rows_ok [OF assms(1)] assms(2)] by simp

lemma get_ok: "databaseOk (hoDb h) \<Longrightarrow> databaseOk (hoDb (fst (opGetFile env mount path pt h)))"
  by (auto simp: opGetFile_def Let_def meshDelta_ok split: option.splits)

lemma list_db [simp]: "hoDb (fst (opListChildren mount path h)) = hoDb h"
  by (auto simp: opListChildren_def Let_def split: option.splits)

lemma immutable_ok: "databaseOk (hoDb h) \<Longrightarrow> databaseOk (hoDb (fst (opPutImmutable env mount path bytes pt root h)))"
  by (simp add: opPutImmutable_def Let_def meshDelta_ok insert_file_ok folderTree_ok normalPath_normalizePath)

lemma commit_ok: "databaseOk (hoDb h) \<Longrightarrow> databaseOk (hoDb (semanticCommit env mount path bytes pt root existing h))"
  by (simp add: semanticCommit_def Let_def meshDelta_ok update_file_ok folderTree_ok normalPath_normalizePath)

lemma semantic_ok: "databaseOk (hoDb h) \<Longrightarrow> databaseOk (hoDb (fst (opPutSemantic env mount path bytes pt root h)))"
  by (simp add: opPutSemantic_def Let_def commit_ok)

lemma overwrite_ok: "databaseOk (hoDb h) \<Longrightarrow> databaseOk (hoDb (fst (opPutOverwrite env mount path bytes h)))"
  by (simp add: opPutOverwrite_def Let_def update_file_ok folderTree_ok normalPath_normalizePath)

lemma delete_ok: "databaseOk (hoDb h) \<Longrightarrow> databaseOk (hoDb (fst (opDeletePath env mount path root h)))"
  by (auto simp: opDeletePath_def Let_def intro!: meshDelta_ok delete_rows_ok wipe_rows_ok wipe_ok)

lemma evict_ok: "databaseOk db \<Longrightarrow> databaseOk (evictMesh now t db)"
  unfolding evictMesh_def by (rule wipe_rows_ok) (simp_all add: meshOk_def wipeMesh_def)

lemma bytes_nonneg:
  "\<forall>(k, row) \<in> set rows. 0 \<le> frSize row \<Longrightarrow> 0 \<le> bytesOfType P rows"
  by (induction rows) (auto simp: bytesOfType_def)

lemma reconcile_ok: "databaseOk (hoDb h) \<Longrightarrow> databaseOk (hoDb (fst (opReconcileMetrics env mount root h)))"
proof -
  assume ok: "databaseOk (hoDb h)"
  have "0 \<le> bytesOfType P (filter Q (dbFiles (hoDb h)))" for P Q
    by (rule bytes_nonneg) (use ok in \<open>auto simp: databaseOk_def\<close>)
  then show ?thesis
    using ok by (auto simp: opReconcileMetrics_def Let_def meshOk_def intro!: update_meshes_ok)
qed

lemma fold_evict_ok: "databaseOk db \<Longrightarrow> databaseOk (fold (\<lambda>(k, m). evictMesh now (f k)) cs db)"
  by (induction cs arbitrary: db) (auto simp: evict_ok)

lemma maintenance_ok: "databaseOk db \<Longrightarrow> databaseOk (fst (runMaintenance env ttl mount db))"
  by (auto simp: runMaintenance_def Let_def fold_evict_ok split: jnum.splits)

end
