(* ===== verification/Upload_Policy.thy ===== *)
theory Upload_Policy
  imports Row_Store_Laws Mesh_Grants
begin

text \<open>
  Upload policy of the mailbox host (\<open>packages/workers/src/mesh-info.ts\<close>, \<open>upload-policy.ts\<close> and
  \<open>normalizeAuthorization\<close> of \<open>worker.ts\<close>): what the row store knows about a mesh, the standard
  policy over it, and the reading of a policy's verdict, an untyped value. \<open>Date.parse\<close> is an
  argument.
\<close>

record mesh_info =
  miCreatedAt :: "int option"
  miAgeMs :: "int option"
  miDeviceCount :: nat
  miStoredFileCount :: nat
  miStoredBytes :: int

definition earliest :: "string list \<Rightarrow> string option" where
  "earliest xs = (case xs of [] \<Rightarrow> None | x # ys \<Rightarrow> Some (fold min ys x))"

definition isDevicePath :: "string \<Rightarrow> bool" where
  "isDevicePath q = (sqlLike ''%/devices/%'' q \<and> \<not> sqlLike ''%/devices/%/%'' q)"

definition loadMeshInfo :: "(string \<Rightarrow> jnum) \<Rightarrow> 'b host_env \<Rightarrow> string \<Rightarrow> int \<Rightarrow> nat \<Rightarrow> 'b database \<Rightarrow> mesh_info" where
  "loadMeshInfo parseDate env mount storedBytes storedFileCount db =
     (let raw = earliest (map (mpCreatedAt \<circ> snd) (filter (\<lambda>(k, m). fst k = mount) (dbMeshPaths db)));
          parsed = (case raw of None \<Rightarrow> NaN | Some t \<Rightarrow> if t = '''' then NaN else parseDate t);
          createdAt = (case parsed of NaN \<Rightarrow> None | Num n \<Rightarrow> Some n)
      in \<lparr>miCreatedAt = createdAt, miAgeMs = map_option (\<lambda>c. max 0 (heNow env - c)) createdAt,
          miDeviceCount = length (filter (\<lambda>(k, row). fst k = mount \<and> isDevicePath (snd k)) (dbFiles db)),
          miStoredFileCount = storedFileCount, miStoredBytes = storedBytes\<rparr>)"

record upload_request =
  urAddress :: string
  urPresentedAddress :: string
  urPath :: string
  urDeviceId :: string
  urSize :: int
  urSealed :: bool
  urOverwritesSealed :: bool
  urReplacedBytes :: int
  urCurrentMeshStoredBytes :: int
  urMaxMeshStoredBytes :: int

text \<open>A policy sees the request and what \<open>meshInfo\<close> reads for it; it may throw.\<close>

type_synonym upload_policy = "upload_request \<Rightarrow> mesh_info \<Rightarrow> jsval result"

section \<open>The standard policy\<close>

record standard_options =
  soMinMeshAgeMs :: "jnum option"
  soMinDeviceCount :: "jnum option"
  soAllowUnknownAge :: bool
  soMaxMeshStoredBytes :: "int option"
  soMaxStoredFileBytes :: "int option"

definition DEFAULT_MIN_MESH_AGE_MS :: int where "DEFAULT_MIN_MESH_AGE_MS = 60000"
definition DEFAULT_MIN_DEVICE_COUNT :: int where "DEFAULT_MIN_DEVICE_COUNT = 2"

definition positive :: "jnum option \<Rightarrow> int \<Rightarrow> int" where
  "positive v fallback = (case v of None \<Rightarrow> fallback | Some NaN \<Rightarrow> 0 | Some (Num n) \<Rightarrow> if n > 0 then n else 0)"

definition rejectUpload :: "int \<Rightarrow> string \<Rightarrow> jsval" where
  "rejectUpload status reason = JObj [(''allowed'', JBool False), (''status'', JNum (Num status)), (''reason'', JStr reason)]"

definition standardUploadPolicy :: "standard_options \<Rightarrow> upload_policy" where
  "standardUploadPolicy opts rq mesh =
     (let minMeshAgeMs = positive (soMinMeshAgeMs opts) DEFAULT_MIN_MESH_AGE_MS;
          minDeviceCount = positive (soMinDeviceCount opts) DEFAULT_MIN_DEVICE_COUNT
      in if (case soMaxStoredFileBytes opts of None \<Rightarrow> False | Some m \<Rightarrow> urSize rq > m)
         then Inr (rejectUpload 413 ''File too large'')
         else if \<not> (minMeshAgeMs > 0 \<or> minDeviceCount > 1 \<or> soMaxMeshStoredBytes opts \<noteq> None) then Inr (JBool True)
         else if (case soMaxMeshStoredBytes opts of None \<Rightarrow> False
                  | Some m \<Rightarrow> miStoredBytes mesh - urReplacedBytes rq + urSize rq > m)
         then Inr (rejectUpload 413 ''Mesh storage limit reached'')
         else if minMeshAgeMs > 0 \<and>
                 (case miAgeMs mesh of None \<Rightarrow> \<not> soAllowUnknownAge opts | Some age \<Rightarrow> age < minMeshAgeMs)
         then Inr (rejectUpload 429 ''Mesh is too new for uploads'')
         else if minDeviceCount > 1 \<and> int (miDeviceCount mesh) < minDeviceCount
         then Inr (rejectUpload 403 ''Mesh has no other device to share with'')
         else Inr (JBool True))"

section \<open>The verdict\<close>

record verdict =
  vdAllowed :: bool
  vdReason :: "string option"
  vdStatus :: int

definition normalizeAuthorization :: "jsval \<Rightarrow> verdict result" where
  "normalizeAuthorization v =
     (case v of
        JBool b \<Rightarrow> Inr \<lparr>vdAllowed = b, vdReason = None, vdStatus = (if b then 200 else 403)\<rparr>
      | JObj fs \<Rightarrow>
          (case fieldOf fs ''allowed'' of
             JBool allowed \<Rightarrow>
               (let reason = fieldOf fs ''reason''; status = fieldOf fs ''status'' in
                if (case reason of JUndefined \<Rightarrow> False | JStr _ \<Rightarrow> False | _ \<Rightarrow> True)
                then Inl (TypeError ''upload authorization returned an invalid reason'')
                else
                  (case status of
                     JUndefined \<Rightarrow>
                       Inr \<lparr>vdAllowed = allowed, vdReason = (case reason of JStr s \<Rightarrow> Some s | _ \<Rightarrow> None),
                            vdStatus = (if allowed then 200 else 403)\<rparr>
                   | JNum (Num n) \<Rightarrow>
                       if n < 400 \<or> n > 599 then Inl (TypeError ''upload authorization returned an invalid rejection status'')
                       else Inr \<lparr>vdAllowed = allowed, vdReason = (case reason of JStr s \<Rightarrow> Some s | _ \<Rightarrow> None), vdStatus = n\<rparr>
                   | _ \<Rightarrow> Inl (TypeError ''upload authorization returned an invalid rejection status'')))
           | _ \<Rightarrow> Inl (TypeError ''upload authorization returned an invalid allowed decision''))
      | _ \<Rightarrow> Inl (TypeError ''upload authorization returned an invalid result''))"

text \<open>
  The standard policy never throws and always gives a readable verdict; with its defaults it lets an
  upload through only into a mesh that is at least a minute old and has announced two devices.
\<close>

lemma standard_verdict: "\<exists>v. bind_result (standardUploadPolicy opts rq mesh) normalizeAuthorization = Inr v"
  by (auto simp: standardUploadPolicy_def normalizeAuthorization_def rejectUpload_def fieldOf_def Let_def)

lemma standard_default_guards:
  assumes "opts = \<lparr>soMinMeshAgeMs = None, soMinDeviceCount = None, soAllowUnknownAge = False,
      soMaxMeshStoredBytes = None, soMaxStoredFileBytes = None\<rparr>"
    and "bind_result (standardUploadPolicy opts rq mesh) normalizeAuthorization = Inr v" "vdAllowed v"
  shows "\<exists>age. miAgeMs mesh = Some age \<and> 60000 \<le> age \<and> 2 \<le> miDeviceCount mesh"
  using assms(2,3) unfolding assms(1)
  by (auto simp: standardUploadPolicy_def normalizeAuthorization_def rejectUpload_def fieldOf_def Let_def positive_def
    DEFAULT_MIN_MESH_AGE_MS_def DEFAULT_MIN_DEVICE_COUNT_def split: if_splits option.splits)

end
