(* ===== verification/Host_Maintenance.thy ===== *)
theory Host_Maintenance
  imports Row_Store_Laws
begin

text \<open>
  The sweep of idle meshes (\<open>packages/workers/src/maintenance.ts\<close>): which files it removes, the
  eviction record it leaves, and how the next write clears it. A remote root is used as a
  \<open>LIKE\<close> pattern, so the sweep is exact only for roots without wildcards and without a twin that
  differs in case; the last section shows what happens otherwise.
\<close>

definition ttlThreshold :: "'b host_env \<Rightarrow> int \<Rightarrow> string" where
  "ttlThreshold env hours = heIso env (heNow env - hours * 3600000)"

definition scopedTo :: "string option \<Rightarrow> path_key \<Rightarrow> bool" where
  "scopedTo mount k = (mount = None \<or> mount = Some (fst k))"

definition sweepCandidates ::
  "'b host_env \<Rightarrow> int \<Rightarrow> string option \<Rightarrow> 'b database \<Rightarrow> (path_key \<times> mesh_path_row) list"
where
  "sweepCandidates env hours mount db =
     filter (\<lambda>(k, m). scopedTo mount k \<and> ttlCandidate (ttlThreshold env hours) m) (dbMeshPaths db)"

lemma sweep_fold:
  assumes "0 < hours" "mount \<noteq> Some ''''"
  shows "fst (runMaintenance env (Num hours) mount db) =
    fold (\<lambda>(k, m). evictMesh (nowIso env) k) (sweepCandidates env hours mount db) db"
proof -
  have scoped: "(\<lambda>k :: path_key. case mount of None \<Rightarrow> True | Some p \<Rightarrow> p = '''' \<or> fst k = p) = scopedTo mount"
    using assms(2) by (auto simp: scopedTo_def fun_eq_iff split: option.splits)
  have "fold (\<lambda>(k, m). evictMesh now (case mount of None \<Rightarrow> k | Some p \<Rightarrow> (p, snd k))) cs db =
      fold (\<lambda>(k, m). evictMesh now k) cs db" if "\<forall>(k, m) \<in> set cs. scopedTo mount k" for now cs and db :: "'b database"
    using that by (induction cs arbitrary: db) (auto simp: scopedTo_def)
  note same = this
  have "\<forall>(k, m) \<in> set (sweepCandidates env hours mount db). scopedTo mount k" by (auto simp: sweepCandidates_def)
  from same [OF this] show ?thesis
    using assms(1) unfolding runMaintenance_def scoped sweepCandidates_def ttlThreshold_def
    by (simp add: Let_def)
qed

lemma files_evict:
  "map_of (dbFiles (evictMesh now t db)) k = (if evictedBy (fst t) (snd t) k then None else map_of (dbFiles db) k)"
  by (simp add: evictMesh_def)

lemma files_sweep:
  "map_of (dbFiles (fold (\<lambda>(k, m). evictMesh now k) cs db)) q =
     (if \<exists>(k, m) \<in> set cs. evictedBy (fst k) (snd k) q then None else map_of (dbFiles db) q)"
  by (induction cs arbitrary: db) (auto simp: files_evict)

definition evictRow :: "string \<Rightarrow> mesh_path_row \<Rightarrow> mesh_path_row" where
  "evictRow now m = (wipeMesh now m)\<lparr>mpLastTtlDeleteAt := Some now\<rparr>"

lemma evictRow_idem [simp]: "evictRow now (evictRow now m) = evictRow now m"
  by (simp add: evictRow_def wipeMesh_def)



lemma candidate_iff:
  assumes "databaseOk db"
  shows "(k, m) \<in> set (sweepCandidates env hours mount db) \<longleftrightarrow>
    map_of (dbMeshPaths db) k = Some m \<and> scopedTo mount k \<and> ttlCandidate (ttlThreshold env hours) m"
  using assms by (auto simp: sweepCandidates_def databaseOk_def)

section \<open>What the sweep removes\<close>

definition plainRoots :: "'b database \<Rightarrow> bool" where
  "plainRoots db =
     (\<forall>(k, m) \<in> set (dbMeshPaths db). noWild (snd k) \<and>
        (\<forall>(f, row) \<in> set (dbFiles db). fst f = fst k \<longrightarrow> sameCase (snd k @ ''/'') (snd f)))"

lemma evictedBy_mount: "evictedBy m r (p, q) \<Longrightarrow> m = p"
  by (simp add: evictedBy_def)

lemma evictedBy_subtree:
  assumes "plainRoots db" "map_of (dbMeshPaths db) (p, root) = Some m" "map_of (dbFiles db) (p, q) = Some row"
  shows "evictedBy p root (p, q) \<longleftrightarrow> inSubtree root q"
proof -
  have "noWild (root @ ''/'')" "sameCase (root @ ''/'') q"
    using assms by (fastforce simp: plainRoots_def noWild_def dest!: map_of_SomeD)+
  then have "sqlLike ((root @ ''/'') @ ''%'') q \<longleftrightarrow> (\<exists>t. q = (root @ ''/'') @ t)" by (rule like_prefix)
  then show ?thesis by (simp add: evictedBy_def inSubtree_iff)
qed

text \<open>C28: In a well-formed database in which no remote root holds a \<open>LIKE\<close> wildcard or differs from a stored path only in
  case, a sweep with a positive whole number of hours deletes exactly the files at or below a remote root in its scope
  that has not been written for that time and is not already evicted, and no file of any other root or mesh. Without
  the condition on the roots it deletes files of active roots too, as \<open>sweep_evicts_neighbour\<close> shows.\<close>

theorem sweep_exact:
  assumes "databaseOk db" "plainRoots db" "0 < hours" "mount \<noteq> Some ''''"
  shows "map_of (dbFiles (fst (runMaintenance env (Num hours) mount db))) (p, q) =
    (if \<exists>root m. map_of (dbMeshPaths db) (p, root) = Some m \<and> scopedTo mount (p, root)
          \<and> ttlCandidate (ttlThreshold env hours) m \<and> inSubtree root q
     then None else map_of (dbFiles db) (p, q))"
proof (cases "map_of (dbFiles db) (p, q)")
  case None
  then show ?thesis by (simp only: sweep_fold [OF assms(3,4)] files_sweep if_cancel)
next
  case (Some row)
  have "(\<exists>(k, m) \<in> S. evictedBy (fst k) (snd k) (p, q)) \<longleftrightarrow> (\<exists>root m. ((p, root), m) \<in> S \<and> evictedBy p root (p, q))"
    for S :: "(path_key \<times> mesh_path_row) set"
  proof
    assume "\<exists>(k, m) \<in> S. evictedBy (fst k) (snd k) (p, q)"
    then obtain a root m where "((a, root), m) \<in> S" "evictedBy a root (p, q)" by auto
    then show "\<exists>root m. ((p, root), m) \<in> S \<and> evictedBy p root (p, q)" using evictedBy_mount by blast
  next
    assume "\<exists>root m. ((p, root), m) \<in> S \<and> evictedBy p root (p, q)"
    then show "\<exists>(k, m) \<in> S. evictedBy (fst k) (snd k) (p, q)" by (metis (mono_tags, lifting) case_prod_conv fst_conv snd_conv)
  qed
  then have "(\<exists>(k, m) \<in> set (sweepCandidates env hours mount db). evictedBy (fst k) (snd k) (p, q)) \<longleftrightarrow>
      (\<exists>root m. ((p, root), m) \<in> set (sweepCandidates env hours mount db) \<and> evictedBy p root (p, q))" .
  also have "\<dots> \<longleftrightarrow> (\<exists>root m. map_of (dbMeshPaths db) (p, root) = Some m \<and> scopedTo mount (p, root)
          \<and> ttlCandidate (ttlThreshold env hours) m \<and> inSubtree root q)"
    unfolding candidate_iff [OF assms(1)] using evictedBy_subtree [OF assms(2) _ Some] by blast
  finally show ?thesis by (simp only: sweep_fold [OF assms(3,4)] files_sweep)
qed

text \<open>A clock that spells time in units of a million milliseconds, one character each.\<close>

definition demoIso :: "int \<Rightarrow> string" where
  "demoIso t = replicate (nat (t div 1000000 + 1)) (CHR ''i'')"

definition demoHostEnv :: "string host_env" where
  "demoHostEnv = \<lparr>heNow = 10000000, heIso = demoIso, heEtag = ''e1'', heJson = \<lambda>s. Inl (Error ''no JSON'')\<rparr>"

definition demoMesh :: "int \<Rightarrow> mesh_path_row" where
  "demoMesh written = (newMeshPath (demoIso 0))\<lparr>mpLastWriteAt := Some (demoIso written), mpFileCount := 1, mpTotalBytes := 3\<rparr>"

definition demoFile :: "string \<Rightarrow> string file_row" where
  "demoFile s = \<lparr>frContent = s, frSize = int (length s), frModifiedTime = demoIso 0, frEtag = ''e0''\<rparr>"

definition demoDb :: "string \<Rightarrow> string \<Rightarrow> string database" where
  "demoDb idle active =
     \<lparr>dbFiles = [((''m'', idle @ ''/changes/a''), demoFile ''old''), ((''m'', active @ ''/changes/b''), demoFile ''new'')],
      dbFolders = [], dbStoredFiles = [],
      dbMeshPaths = [((''m'', idle), demoMesh 1000), ((''m'', active), demoMesh 9000000)]\<rparr>"

lemmas demo_host = demoIso_def demoHostEnv_def demoMesh_def demoFile_def demoDb_def newMeshPath_def

theorem sweep_exact_witness:
  "map_of (dbFiles (fst (runMaintenance demoHostEnv (Num 1) None (demoDb ''/old'' ''/new'')))) (''m'', ''/old/changes/a'') = None \<and>
   map_of (dbFiles (fst (runMaintenance demoHostEnv (Num 1) None (demoDb ''/old'' ''/new'')))) (''m'', ''/new/changes/b'') =
     Some (demoFile ''new'')"
proof -
  let ?db = "demoDb ''/old'' ''/new''"
  have ok: "databaseOk ?db" "plainRoots ?db" by code_simp+
  have old: "map_of (dbMeshPaths ?db) (''m'', ''/old'') = Some (demoMesh 1000)"
    "ttlCandidate (ttlThreshold demoHostEnv 1) (demoMesh 1000)" "inSubtree ''/old'' ''/old/changes/a''" by code_simp+
  have roots: "map_of (dbMeshPaths ?db) (''m'', root) = Some m \<Longrightarrow>
      root = ''/old'' \<and> m = demoMesh 1000 \<or> root = ''/new'' \<and> m = demoMesh 9000000" for root m
    by (auto simp: demoDb_def split: if_splits)
  have new: "\<not> inSubtree ''/old'' ''/new/changes/b''" "\<not> ttlCandidate (ttlThreshold demoHostEnv 1) (demoMesh 9000000)"
    "map_of (dbFiles ?db) (''m'', ''/new/changes/b'') = Some (demoFile ''new'')" by code_simp+
  note exact = sweep_exact [OF ok, of 1 None demoHostEnv]
  have "map_of (dbFiles (fst (runMaintenance demoHostEnv (Num 1) None ?db))) (''m'', ''/old/changes/a'') = None"
    unfolding exact [OF zero_less_one option.distinct(1)] using old by (auto simp: scopedTo_def)
  moreover have "map_of (dbFiles (fst (runMaintenance demoHostEnv (Num 1) None ?db))) (''m'', ''/new/changes/b'') = Some (demoFile ''new'')"
    unfolding exact [OF zero_less_one option.distinct(1)] using new by (auto dest!: roots)
  ultimately show ?thesis by blast
qed

section \<open>The eviction record\<close>



section \<open>Roots as patterns\<close>

text \<open>
  A root is used as a pattern: its underscores match any character, and its letters match either
  case. Sweeping the idle mesh \<open>/my_app\<close> deletes the files of the mesh \<open>/my-app\<close>, written an hour
  ago at most; sweeping \<open>/Notes\<close> deletes those of \<open>/notes\<close>.
\<close>

lemma sweep_evicts_neighbour:
  "map_of (dbFiles (fst (runMaintenance demoHostEnv (Num 1) None (demoDb ''/my_app'' ''/my-app'')))) (''m'', ''/my-app/changes/b'') = None"
  "map_of (dbFiles (fst (runMaintenance demoHostEnv (Num 1) None (demoDb ''/Notes'' ''/notes'')))) (''m'', ''/notes/changes/b'') = None"
  "\<not> ttlCandidate (ttlThreshold demoHostEnv 1) (demoMesh 9000000)"
  by code_simp+

end
