(* ===== verification/Mailbox_Host.thy ===== *)
theory Mailbox_Host
  imports Mesh_Admission Upload_Policy Host_Maintenance
begin

text \<open>
  The request handlers of the mailbox host (\<open>packages/workers/src/worker.ts\<close>): mesh files, durable
  file bodies with their seal guards and quota, recovery wrappers, system operations, the dispatch of
  a request and the scheduled sweep. The server's state is the row store with its cache, the store of
  file bodies (get, put and delete by exact key, as \<open>FileBodyStore\<close> documents), the audit events
  emitted and the broadcasts handed to the relay. Times, random values, HMAC, \<open>Date.parse\<close>, the
  encoding of a document as bytes and the answers of the relay object of a mesh (to a status or to a
  connect request) are read from \<open>worker_env\<close>. An uncaught exception is \<open>Inl\<close>.
\<close>

section \<open>State and configuration\<close>

record audit_event =
  auOp :: string
  auAddress :: "string option"
  auPath :: string
  auPathType :: "path_type option"
  auStatus :: int
  auOutcome :: string
  auBytes :: "int option"
  auSealed :: bool
  auRequestId :: "string option"

record broadcast_event =
  bcAddress :: string
  bcOp :: string
  bcPath :: string
  bcPathType :: "path_type option"

record 'b server =
  svHost :: "'b host"
  svBodies :: "(string \<times> 'b) list"
  svAudit :: "audit_event list"
  svBroadcasts :: "broadcast_event list"

record 'b worker_env =
  weHost :: "'b host_env"
  weHmac :: hmac
  weParseDate :: "string \<Rightarrow> jnum"
  weUuid :: string
  weRandom :: bytes
  weEncode :: "jsval \<Rightarrow> 'b"
  weRelay :: "string \<Rightarrow> bool \<Rightarrow> 'b reply"
  weBodyEtag :: "string \<Rightarrow> 'b \<Rightarrow> string"

record 'b worker_runtime =
  wrResolver :: "'b resolver option option"
  wrGates :: "'b gate option list option"
  wrMiddleware :: "('b server, 'b) layer option list option"
  wrScheduledMaintenance :: bool
  wrPathTtlHours :: jnum
  wrMaxControlBytes :: int
  wrMaxChangeBytes :: int
  wrMaxMainlineBytes :: int
  wrMaxGenericFileBytes :: int
  wrMaxStoredFileBytes :: int
  wrMaxMeshStoredBytes :: int
  wrAuthorizeUpload :: "upload_policy option option"
  wrAudit :: bool
  wrMeshSecret :: string
  wrRelay :: bool
  wrFiles :: bool
  wrCors :: "string list option"

text \<open>The options as the application's getters return them; an option left out is \<open>JUndefined\<close> or empty.\<close>

record 'b runtime_options =
  roResolver :: "'b resolver option option"
  roGates :: "'b gate option list option option"
  roMiddleware :: "('b server, 'b) layer option list option option"
  roScheduledMaintenance :: jsval
  roPathTtlHours :: jsval
  roMaxControlBytes :: jsval
  roMaxChangeBytes :: jsval
  roMaxMainlineBytes :: jsval
  roMaxGenericFileBytes :: jsval
  roMaxStoredFileBytes :: jsval
  roMaxMeshStoredBytes :: jsval
  roAuthorizeUpload :: "upload_policy option option"
  roAudit :: bool
  roMeshSecret :: string

definition parsePositiveInt :: "jsval \<Rightarrow> int \<Rightarrow> int" where
  "parsePositiveInt v fallback =
     (case toNumber v of NaN \<Rightarrow> fallback | Num n \<Rightarrow> if 0 < n \<and> n \<le> MAX_SAFE_INTEGER then n else fallback)"

definition parsePositiveNumber :: "jsval \<Rightarrow> int \<Rightarrow> int" where
  "parsePositiveNumber v fallback = (case toNumber v of NaN \<Rightarrow> fallback | Num n \<Rightarrow> if 0 < n then n else fallback)"

definition DEFAULT_CONTROL_BYTES :: int where "DEFAULT_CONTROL_BYTES = 256 * 1024"
definition DEFAULT_CHANGE_BYTES :: int where "DEFAULT_CHANGE_BYTES = 8 * 1024 * 1024"
definition DEFAULT_MAINLINE_BYTES :: int where "DEFAULT_MAINLINE_BYTES = 16 * 1024 * 1024"
definition DEFAULT_GENERIC_FILE_BYTES :: int where "DEFAULT_GENERIC_FILE_BYTES = 8 * 1024 * 1024"
definition DEFAULT_STORED_FILE_BYTES :: int where "DEFAULT_STORED_FILE_BYTES = 32 * 1024 * 1024"
definition DEFAULT_MESH_STORED_BYTES :: int where "DEFAULT_MESH_STORED_BYTES = 512 * 1024 * 1024"

definition resolveRuntimeConfig :: "bool \<Rightarrow> bool \<Rightarrow> string list option \<Rightarrow> 'b runtime_options \<Rightarrow> 'b worker_runtime" where
  "resolveRuntimeConfig relay files cors o' =
     \<lparr>wrResolver = roResolver o',
      wrGates = (case roGates o' of None \<Rightarrow> Some [] | Some gs \<Rightarrow> gs),
      wrMiddleware = (case roMiddleware o' of None \<Rightarrow> Some [] | Some ms \<Rightarrow> ms),
      wrScheduledMaintenance = (roScheduledMaintenance o' \<in> {JBool True, JStr ''1'', JNum (Num 1)}),
      wrPathTtlHours = Num (parsePositiveNumber (roPathTtlHours o') 0),
      wrMaxControlBytes = parsePositiveInt (roMaxControlBytes o') DEFAULT_CONTROL_BYTES,
      wrMaxChangeBytes = parsePositiveInt (roMaxChangeBytes o') DEFAULT_CHANGE_BYTES,
      wrMaxMainlineBytes = parsePositiveInt (roMaxMainlineBytes o') DEFAULT_MAINLINE_BYTES,
      wrMaxGenericFileBytes = parsePositiveInt (roMaxGenericFileBytes o') DEFAULT_GENERIC_FILE_BYTES,
      wrMaxStoredFileBytes = parsePositiveInt (roMaxStoredFileBytes o') DEFAULT_STORED_FILE_BYTES,
      wrMaxMeshStoredBytes = parsePositiveInt (roMaxMeshStoredBytes o') DEFAULT_MESH_STORED_BYTES,
      wrAuthorizeUpload = roAuthorizeUpload o', wrAudit = roAudit o',
      wrMeshSecret = (if roMeshSecret o' = '''' then DEFAULT_MESH_SECRET else roMeshSecret o'),
      wrRelay = relay, wrFiles = files, wrCors = cors\<rparr>"

definition fileSizeLimitForPathType :: "path_type \<Rightarrow> 'b worker_runtime \<Rightarrow> int" where
  "fileSizeLimitForPathType pathType rt =
     (if pathType \<in> {ManifestPointer, ManifestSnapshot, Head, DeviceHeartbeat} then wrMaxControlBytes rt
      else if pathType = ChangeFile then wrMaxChangeBytes rt
      else if pathType = MainlineSnapshot then wrMaxMainlineBytes rt
      else wrMaxGenericFileBytes rt)"

definition audit ::
  "'b worker_runtime \<Rightarrow> 'b io_request \<Rightarrow> string \<Rightarrow> string option \<Rightarrow> string \<Rightarrow> path_type option \<Rightarrow> int \<Rightarrow> string \<Rightarrow> int option \<Rightarrow> bool \<Rightarrow>
     'b server \<Rightarrow> 'b server"
where
  "audit rt rq op address path pathType status outcome bytes isSealed sv =
     (if wrAudit rt
      then sv\<lparr>svAudit := svAudit sv @
        [\<lparr>auOp = op, auAddress = address, auPath = path, auPathType = pathType, auStatus = status, auOutcome = outcome,
          auBytes = bytes, auSealed = isSealed, auRequestId = rqRequestId rq\<rparr>]\<rparr>
      else sv)"

definition broadcast :: "'b worker_runtime \<Rightarrow> string \<Rightarrow> string \<Rightarrow> string \<Rightarrow> path_type option \<Rightarrow> 'b server \<Rightarrow> 'b server" where
  "broadcast rt address op path pathType sv =
     (if wrRelay rt
      then sv\<lparr>svBroadcasts := svBroadcasts sv @ [\<lparr>bcAddress = address, bcOp = op, bcPath = path, bcPathType = pathType\<rparr>]\<rparr>
      else sv)"

section \<open>Mesh files\<close>

definition evictionJson :: "eviction_record \<Rightarrow> jsval" where
  "evictionJson r =
     JObj [(''evicted'', JBool True), (''meshAddress'', JStr (evMeshAddress r)), (''remotePath'', JStr (evRemotePath r)),
           (''evictedAt'', JStr (evEvictedAt r)), (''reason'', JStr (if evIdle r then ''idle'' else ''operator'')),
           (''idleSince'', case evIdleSince r of None \<Rightarrow> JNull | Some s \<Rightarrow> JStr s), (''fileBodiesRetained'', JBool True)]"

definition evictionRecordBytes :: "'b worker_env \<Rightarrow> string \<Rightarrow> string \<Rightarrow> path_type \<Rightarrow> 'b server \<Rightarrow> 'b option" where
  "evictionRecordBytes env mount path pathType sv =
     (if pathType \<noteq> EvictionRecord then None
      else (case meshRootForPath path pathType of
              None \<Rightarrow> None
            | Some root \<Rightarrow> map_option (weEncode env \<circ> evictionJson) (readEvictionRecord mount root (hoDb (svHost sv)))))"

definition bytesReply :: "string \<Rightarrow> (string \<times> string) list \<Rightarrow> 'b \<Rightarrow> 'b reply" where
  "bytesReply contentType headers b =
     withCors \<lparr>rpStatus = 200, rpHeaders = (''Content-Type'', contentType) # headers, rpBody = BytesBody b\<rparr>"

definition decimal :: "int \<Rightarrow> string" where
  "decimal n = toStringRadix 10 (Num n)"

definition handleGetFile ::
  "'b::size worker_env \<Rightarrow> 'b worker_runtime \<Rightarrow> string \<Rightarrow> string \<Rightarrow> 'b io_request \<Rightarrow> 'b server \<Rightarrow> 'b server \<times> 'b reply"
where
  "handleGetFile env rt mount path rq sv =
     (let pathType = classifyPath path;
          log = audit rt rq ''read'' (Some mount) (normalizePath path) (Some pathType)
      in case evictionRecordBytes env mount path pathType sv of
           Some b \<Rightarrow>
             (log 200 ''ok'' (Some (int (size b))) False sv,
              bytesReply ''application/json'' [(''Content-Length'', decimal (int (size b))), (''Cache-Control'', ''no-store'')] b)
         | None \<Rightarrow>
             (case opGetFile (weHost env) mount path pathType (svHost sv) of
                (h, None) \<Rightarrow> (log 404 ''not-found'' None False (sv\<lparr>svHost := h\<rparr>), withCors (textReply ''Not found'' 404))
              | (h, Some r) \<Rightarrow>
                  (log 200 ''ok'' (Some (grSize r)) False (sv\<lparr>svHost := h\<rparr>),
                   bytesReply ''application/octet-stream''
                     [(''Content-Length'', decimal (grSize r)), (''ETag'', grEtag r), (''Last-Modified'', grModifiedTime r)]
                     (grBytes r))))"

definition fileJson :: "string \<Rightarrow> int \<Rightarrow> jsval \<Rightarrow> jsval \<Rightarrow> jsval" where
  "fileJson path sz modifiedTime etag =
     JObj [(''file'', JObj [(''name'', JStr (fileNameFromPath path)), (''path'', JStr (normalizePath path)),
       (''size'', JNum (Num sz)), (''modifiedTime'', modifiedTime), (''etag'', etag)])]"

definition handleMetadata ::
  "'b::size worker_env \<Rightarrow> 'b worker_runtime \<Rightarrow> string \<Rightarrow> string \<Rightarrow> 'b io_request \<Rightarrow> 'b server \<Rightarrow> 'b server \<times> 'b reply"
where
  "handleMetadata env rt mount path rq sv =
     (let pathType = classifyPath path;
          log = audit rt rq ''metadata'' (Some mount) (normalizePath path) (Some pathType)
      in case evictionRecordBytes env mount path pathType sv of
           Some b \<Rightarrow>
             (log 200 ''ok'' (Some (int (size b))) False sv, jsonResponse (fileJson path (int (size b)) JNull JNull) 200)
         | None \<Rightarrow>
             (case opGetFile (weHost env) mount path pathType (svHost sv) of
                (h, None) \<Rightarrow> (log 404 ''not-found'' None False (sv\<lparr>svHost := h\<rparr>), jsonResponse (JObj [(''file'', JNull)]) 404)
              | (h, Some r) \<Rightarrow>
                  (log 200 ''ok'' (Some (grSize r)) False (sv\<lparr>svHost := h\<rparr>),
                   jsonResponse (fileJson path (grSize r) (JStr (grModifiedTime r)) (JStr (grEtag r))) 200)))"

text \<open>The operation a write goes to, by the role of its path.\<close>

definition putByType ::
  "'b::size host_env \<Rightarrow> string \<Rightarrow> string \<Rightarrow> 'b \<Rightarrow> 'b host \<Rightarrow> 'b host \<times> put_result"
where
  "putByType env mount path bytes h =
     (let pathType = classifyPath path; remoteRoot = meshRootForPath path pathType in
      if pathType = ManifestPointer \<or> pathType = Head then opPutSemantic env mount path bytes pathType remoteRoot h
      else if pathType = DeviceHeartbeat then opPutOverwrite env mount path bytes h
      else opPutImmutable env mount path bytes pathType remoteRoot h)"

definition handleWriteFile ::
  "'b::size worker_env \<Rightarrow> 'b worker_runtime \<Rightarrow> string \<Rightarrow> string \<Rightarrow> 'b io_request \<Rightarrow> 'b server \<Rightarrow> 'b server \<times> 'b reply"
where
  "handleWriteFile env rt mount path rq sv =
     (case rqBody rq of
        None \<Rightarrow> (sv, errorReply ''Invalid request body'' 400)
      | Some bytes \<Rightarrow>
          (let pathType = classifyPath path; limit = fileSizeLimitForPathType pathType rt in
           if pathType = EvictionRecord then (sv, errorReply ''Eviction record is read-only'' 405)
           else if int (size bytes) > limit then (sv, limitReply ''Payload too large'' limit)
           else
             (case putByType (weHost env) mount path bytes (svHost sv) of
                (h, result) \<Rightarrow>
                  (let status = prStatus result;
                       success = (200 \<le> status \<and> status < 300);
                       sv1 = audit rt rq ''write'' (Some mount) (normalizePath path) (Some pathType) status
                               (if success then ''ok'' else ''rejected'') (Some (int (size bytes))) False (sv\<lparr>svHost := h\<rparr>);
                       sv2 = (if pathType \<noteq> DeviceHeartbeat \<and> pathType \<noteq> ManifestSnapshot \<and> success
                              then broadcast rt mount ''write'' (normalizePath path) (Some pathType) sv1 else sv1)
                   in (sv2, emptyResponse status)))))"

definition handleDelete ::
  "'b::size worker_env \<Rightarrow> 'b worker_runtime \<Rightarrow> string \<Rightarrow> string \<Rightarrow> 'b io_request \<Rightarrow> 'b server \<Rightarrow> 'b server \<times> 'b reply"
where
  "handleDelete env rt mount path rq sv =
     (if classifyPath path = EvictionRecord then (sv, errorReply ''Eviction record is read-only'' 405)
      else
        (case opDeletePath (weHost env) mount path (meshRootForPath path (classifyPath path)) (svHost sv) of
           (h, deleted) \<Rightarrow>
             (let status = (if deleted then 204 else 404);
                  sv1 = audit rt rq ''delete'' (Some mount) (normalizePath path) None status
                          (if deleted then ''ok'' else ''not-found'') None False (sv\<lparr>svHost := h\<rparr>);
                  sv2 = (if deleted then broadcast rt mount ''delete'' (normalizePath path) None sv1 else sv1)
              in (sv2, emptyResponse status))))"

text \<open>\<open>String(body?.path || "/")\<close>; a body that is no JSON reads as an empty object.\<close>

definition bodyText :: "'b io_request \<Rightarrow> string \<Rightarrow> string \<Rightarrow> string" where
  "bodyText rq k fallback =
     (case rqJson rq of Inl _ \<Rightarrow> fallback
      | Inr v \<Rightarrow> (let x = optField v k in if truthy x then toText x else fallback))"

definition listedFileJson :: "listed_file \<Rightarrow> jsval" where
  "listedFileJson f = JObj [(''name'', JStr (lfName f)), (''path'', JStr (lfPath f)), (''size'', JNum (Num (lfSize f))),
     (''modifiedTime'', JStr (lfModifiedTime f)), (''etag'', JStr (lfEtag f))]"

definition handleListFiles ::
  "'b worker_runtime \<Rightarrow> string \<Rightarrow> 'b io_request \<Rightarrow> 'b server \<Rightarrow> 'b server \<times> 'b reply"
where
  "handleListFiles rt mount rq sv =
     (let path = normalizePath (bodyText rq ''path'' ''/'') in
      case opListChildren mount path (svHost sv) of
        (h, l) \<Rightarrow> (audit rt rq ''list'' (Some mount) path None 200 ''ok'' None False (sv\<lparr>svHost := h\<rparr>),
                  jsonResponse (JObj [(''files'', JArr (map listedFileJson (liFiles l)))]) 200))"

definition handleListFolders ::
  "'b worker_runtime \<Rightarrow> string \<Rightarrow> 'b io_request \<Rightarrow> 'b server \<Rightarrow> 'b server \<times> 'b reply"
where
  "handleListFolders rt mount rq sv =
     (let path = normalizePath (bodyText rq ''path'' ''/'') in
      case opListChildren mount path (svHost sv) of
        (h, l) \<Rightarrow> (audit rt rq ''list'' (Some mount) path None 200 ''ok'' None False (sv\<lparr>svHost := h\<rparr>),
                  jsonResponse (JObj [(''folders'', JArr (map JStr (liFolders l)))]) 200))"

section \<open>Durable file bodies\<close>

definition SEAL_GUARD_HEADER :: string where "SEAL_GUARD_HEADER = ''X-Interocitor-Seal-Guard''"

definition isSealGuard :: "string \<Rightarrow> bool" where
  "isSealGuard s = (length s = 64 \<and> list_all (\<lambda>c. c \<in> set ''0123456789abcdef'') s)"

definition presentedSealGuard :: "'b io_request \<Rightarrow> 'b reply + string option" where
  "presentedSealGuard rq =
     (let raw = jsTrim (case rqSealGuard rq of None \<Rightarrow> '''' | Some s \<Rightarrow> s) in
      if raw = '''' then Inr None
      else if \<not> isSealGuard raw then Inl (errorReply (''Invalid '' @ SEAL_GUARD_HEADER) 400)
      else Inr (Some raw))"

definition sealGuardMatches :: "string option \<Rightarrow> string option \<Rightarrow> bool" where
  "sealGuardMatches stored presented =
     (case stored of
        None \<Rightarrow> True
      | Some s \<Rightarrow>
          if s = '''' then True
          else (case presented of None \<Rightarrow> False | Some p \<Rightarrow> p \<noteq> '''' \<and> sameInConstantTime p s))"

definition sealedFileResponse :: "'b reply" where
  "sealedFileResponse = errorReply ''Sealed file requires its key'' 403"

definition storedFileKey :: "string \<Rightarrow> string \<Rightarrow> string" where
  "storedFileKey mount path =
     ''meshes/'' @ encodeURIComponent mount @ ''/files/'' @ encodeURIComponent (jsliceFrom (normalizePath path) 1)"

definition textMember :: "string \<Rightarrow> string \<Rightarrow> (string \<times> jsval) list" where
  "textMember k v = (if v = '''' then [] else [(k, JStr v)])"

definition storedFileMetadata :: "string \<Rightarrow> stored_file_row \<Rightarrow> jsval" where
  "storedFileMetadata path r =
     JObj ([(''name'', JStr (fileNameFromPath path)), (''path'', JStr path), (''size'', JNum (Num (srSize r))),
            (''modifiedTime'', JStr (if srModifiedTime r = '''' then srUploadedAt r else srModifiedTime r))]
           @ textMember ''etag'' (srEtag r)
           @ [(''uploadedByDeviceId'', JStr (srUploadedByDeviceId r)), (''uploadedAt'', JStr (srUploadedAt r))]
           @ (case srLastAccessedAt r of None \<Rightarrow> [] | Some t \<Rightarrow> textMember ''lastAccessedAt'' t)
           @ [(''useCount'', JNum (Num (srUseCount r))), (''storedSize'', JNum (Num (srSize r)))])"

definition storedRows :: "string \<Rightarrow> 'b server \<Rightarrow> (path_key \<times> stored_file_row) list" where
  "storedRows mount sv = filter (\<lambda>(k, r). fst k = mount) (dbStoredFiles (hoDb (svHost sv)))"

definition currentStoredUsage :: "string \<Rightarrow> 'b server \<Rightarrow> int \<times> nat" where
  "currentStoredUsage mount sv = ((\<Sum>(k, r) \<leftarrow> storedRows mount sv. srSize r), length (storedRows mount sv))"

definition storedRow :: "string \<Rightarrow> string \<Rightarrow> 'b server \<Rightarrow> stored_file_row option" where
  "storedRow mount path sv = map_of (dbStoredFiles (hoDb (svHost sv))) (mount, path)"

definition setStored :: "((path_key \<times> stored_file_row) list \<Rightarrow> (path_key \<times> stored_file_row) list) \<Rightarrow> 'b server \<Rightarrow> 'b server" where
  "setStored f sv = sv\<lparr>svHost := (svHost sv)\<lparr>hoDb := (hoDb (svHost sv))\<lparr>dbStoredFiles := f (dbStoredFiles (hoDb (svHost sv)))\<rparr>\<rparr>\<rparr>"

definition handleStoredFileMetadata ::
  "'b worker_runtime \<Rightarrow> string \<Rightarrow> string \<Rightarrow> 'b io_request \<Rightarrow> 'b server \<Rightarrow> 'b server \<times> 'b reply"
where
  "handleStoredFileMetadata rt mount path rq sv =
     (let normalized = normalizePath path; log = audit rt rq ''stored-file-metadata'' (Some mount) normalized None in
      case storedRow mount normalized sv of
        None \<Rightarrow> (log 404 ''not-found'' None False sv, jsonResponse (JObj [(''file'', JNull)]) 404)
      | Some r \<Rightarrow>
          (log 200 ''ok'' (Some (srSize r)) False sv, jsonResponse (JObj [(''file'', storedFileMetadata normalized r)]) 200))"

definition handleGetStoredFile ::
  "'b::size worker_env \<Rightarrow> 'b worker_runtime \<Rightarrow> string \<Rightarrow> string \<Rightarrow> 'b io_request \<Rightarrow> 'b server \<Rightarrow> 'b server \<times> 'b reply"
where
  "handleGetStoredFile env rt mount path rq sv =
     (if \<not> wrFiles rt then (sv, errorReply ''File body store not configured'' 501)
      else
        (let normalized = normalizePath path;
             log = audit rt rq ''stored-file-read'' (Some mount) normalized None;
             missing = (log 404 ''not-found'' None False sv, withCors (textReply ''Not found'' 404))
         in case storedRow mount normalized sv of
              None \<Rightarrow> missing
            | Some r \<Rightarrow>
                if srBodyKey r = '''' then missing
                else
                  (case map_of (svBodies sv) (srBodyKey r) of
                     None \<Rightarrow> missing
                   | Some b \<Rightarrow>
                       (log 200 ''ok'' (Some (srSize r)) False
                          (setStored (updateWhere (\<lambda>k. k = (mount, normalized))
                             (\<lambda>r. r\<lparr>srLastAccessedAt := Some (nowIso (weHost env)), srUseCount := srUseCount r + 1\<rparr>)) sv),
                        bytesReply ''application/octet-stream''
                          ((''Content-Length'', decimal (int (size b))) #
                           (let etag = (if weBodyEtag env (srBodyKey r) b \<noteq> '''' then weBodyEtag env (srBodyKey r) b else srEtag r)
                            in if etag = '''' then [] else [(''ETag'', etag)])) b))))"

text \<open>The application's verdict on an upload; none is asked for when no policy is configured.\<close>

definition uploadVerdict ::
  "'b worker_env \<Rightarrow> 'b worker_runtime \<Rightarrow> upload_request \<Rightarrow> int \<Rightarrow> nat \<Rightarrow> 'b server \<Rightarrow> 'b reply + unit"
where
  "uploadVerdict env rt ur bytes fileCount sv =
     (case wrAuthorizeUpload rt of
        None \<Rightarrow> Inr ()
      | Some None \<Rightarrow> Inl (errorReply ''Upload authorization unavailable'' 503)
      | Some (Some policy) \<Rightarrow>
          (case bind_result (policy ur (loadMeshInfo (weParseDate env) (weHost env) (urAddress ur) bytes fileCount (hoDb (svHost sv))))
                  normalizeAuthorization of
             Inl _ \<Rightarrow> Inl (errorReply ''Upload authorization unavailable'' 503)
           | Inr v \<Rightarrow>
               if vdAllowed v then Inr ()
               else Inl (errorReply (case vdReason v of None \<Rightarrow> ''Upload rejected'' | Some s \<Rightarrow> if s = '''' then ''Upload rejected'' else s)
                           (vdStatus v))))"

definition handlePutStoredFile ::
  "'b::size worker_env \<Rightarrow> 'b worker_runtime \<Rightarrow> mesh_route \<Rightarrow> string \<Rightarrow> 'b io_request \<Rightarrow> 'b server \<Rightarrow> 'b server \<times> 'b reply"
where
  "handlePutStoredFile env rt route path rq sv =
     (let mount = mrCanonicalAddress route; normalized = normalizePath path in
      if \<not> wrFiles rt then (sv, errorReply ''File body store not configured'' 501)
      else
        (case rqBody rq of
           None \<Rightarrow> (sv, errorReply ''Invalid request body'' 400)
         | Some bytes \<Rightarrow>
             if int (size bytes) > wrMaxStoredFileBytes rt then (sv, limitReply ''Payload too large'' (wrMaxStoredFileBytes rt))
             else
               (let device = jsTrim (case rqDeviceId rq of None \<Rightarrow> '''' | Some d \<Rightarrow> d) in
                if device = '''' then (sv, errorReply ''Missing X-Interocitor-Device-Id'' 401)
                else
                  (case presentedSealGuard rq of
                     Inl reply \<Rightarrow> (sv, reply)
                   | Inr guard \<Rightarrow>
                       (let existing = storedRow mount normalized sv;
                            existingGuard = Option.bind existing srSealGuard;
                            replaced = (case existing of None \<Rightarrow> 0 | Some r \<Rightarrow> srSize r);
                            usage = currentStoredUsage mount sv
                        in if \<not> sealGuardMatches existingGuard guard then (sv, sealedFileResponse)
                           else if fst usage - replaced + int (size bytes) > wrMaxMeshStoredBytes rt
                           then (sv, limitReply ''Mesh storage quota exceeded'' (wrMaxMeshStoredBytes rt))
                           else
                             (case uploadVerdict env rt
                                     \<lparr>urAddress = mount, urPresentedAddress = mrPresentedAddress route, urPath = normalized,
                                      urDeviceId = device, urSize = int (size bytes), urSealed = (guard \<noteq> None),
                                      urOverwritesSealed = (existingGuard \<noteq> None \<and> existingGuard \<noteq> Some ''''),
                                      urReplacedBytes = replaced, urCurrentMeshStoredBytes = fst usage,
                                      urMaxMeshStoredBytes = wrMaxMeshStoredBytes rt\<rparr>
                                     (fst usage) (snd usage) sv of
                                Inl reply \<Rightarrow> (sv, reply)
                              | Inr _ \<Rightarrow>
                                  (let key = (case existing of None \<Rightarrow> storedFileKey mount normalized
                                              | Some r \<Rightarrow> if srBodyKey r = '''' then storedFileKey mount normalized else srBodyKey r);
                                       now = nowIso (weHost env);
                                       row = \<lparr>srBodyKey = key, srSize = int (size bytes), srSealGuard = guard,
                                              srUploadedByDeviceId = device, srUploadedAt = now, srModifiedTime = now,
                                              srLastAccessedAt = None, srUseCount = 0, srEtag = weUuid env\<rparr>;
                                       status = (if existing = None then 201 else 200);
                                       sv1 = setStored (AList.update (mount, normalized) row)
                                               (sv\<lparr>svBodies := AList.update key bytes (svBodies sv)\<rparr>)
                                   in (audit rt rq ''stored-file-write'' (Some mount) normalized None status ''ok''
                                         (Some (int (size bytes))) (guard \<noteq> None) sv1,
                                       jsonResponse (JObj [(''file'', storedFileMetadata normalized row)]) status))))))))"

definition handleDeleteStoredFile ::
  "'b worker_runtime \<Rightarrow> string \<Rightarrow> string \<Rightarrow> 'b io_request \<Rightarrow> 'b server \<Rightarrow> 'b server \<times> 'b reply"
where
  "handleDeleteStoredFile rt mount path rq sv =
     (if \<not> wrFiles rt then (sv, errorReply ''File body store not configured'' 501)
      else
        (let normalized = normalizePath path;
             log = audit rt rq ''stored-file-delete'' (Some mount) normalized None;
             missing = (log 404 ''not-found'' None False sv, emptyResponse 404)
         in case storedRow mount normalized sv of
              None \<Rightarrow> missing
            | Some r \<Rightarrow>
                if srBodyKey r = '''' then missing
                else
                  (case presentedSealGuard rq of
                     Inl reply \<Rightarrow> (sv, reply)
                   | Inr guard \<Rightarrow>
                       if \<not> sealGuardMatches (srSealGuard r) guard then (sv, sealedFileResponse)
                       else
                         (log 204 ''ok'' (Some (srSize r)) (srSealGuard r \<noteq> None \<and> srSealGuard r \<noteq> Some '''')
                            (setStored (deleteWhere (\<lambda>k. k = (mount, normalized)))
                               (sv\<lparr>svBodies := AList.delete (srBodyKey r) (svBodies sv)\<rparr>)),
                          emptyResponse 204))))"

section \<open>Recovery wrappers\<close>

definition isRecoveryLocator :: "string \<Rightarrow> bool" where
  "isRecoveryLocator s = (length s = 43 \<and> list_all isUrlKeyChar s)"

definition recoveryPath :: "string \<Rightarrow> string" where
  "recoveryPath locator = ''/wrappers/'' @ locator @ ''.json''"

definition handleRecoveryRequest ::
  "'b::size worker_env \<Rightarrow> 'b worker_runtime \<Rightarrow> string \<Rightarrow> 'b io_request \<Rightarrow> 'b server \<Rightarrow> 'b server \<times> 'b reply"
where
  "handleRecoveryRequest env rt locator rq sv =
     (if \<not> isRecoveryLocator locator then (sv, errorReply ''Invalid recovery locator'' 400)
      else
        (let path = recoveryPath locator in
         if rqMethod rq = ''GET'' then
           (case opGetFile (weHost env) RECOVERY_STORAGE_PREFIX path OtherPath (svHost sv) of
              (h, None) \<Rightarrow>
                (audit rt rq ''recovery-read'' None path None 404 ''not-found'' None False (sv\<lparr>svHost := h\<rparr>),
                 withCors (textReply ''Not found'' 404))
            | (h, Some r) \<Rightarrow>
                (audit rt rq ''recovery-read'' None path None 200 ''ok'' (Some (grSize r)) False (sv\<lparr>svHost := h\<rparr>),
                 bytesReply ''application/json; charset=utf-8'' [] (grBytes r)))
         else if rqMethod rq = ''PUT'' then
           (case rqBody rq of
              None \<Rightarrow> (sv, errorReply ''Invalid request body'' 400)
            | Some bytes \<Rightarrow>
                if int (size bytes) > wrMaxControlBytes rt then (sv, limitReply ''Payload too large'' (wrMaxControlBytes rt))
                else
                  (case opPutImmutable (weHost env) RECOVERY_STORAGE_PREFIX path bytes OtherPath None (svHost sv) of
                     (h, result) \<Rightarrow>
                       (let status = (if prWrote result then 201 else 409) in
                        (audit rt rq ''recovery-write'' None path None status (if prWrote result then ''ok'' else ''rejected'')
                           (Some (int (size bytes))) False (sv\<lparr>svHost := h\<rparr>),
                         emptyResponse status))))
         else (sv, withCors (textReply ''Method not allowed'' 405))))"

section \<open>Dispatch\<close>

definition HEALTH_TEXT :: string where "HEALTH_TEXT = ''interocitor cloudflare worker'' @ [CHR 0x0A]"

definition queryPath :: "'b io_request \<Rightarrow> string" where
  "queryPath rq = normalizePath (case rqQueryPath rq of None \<Rightarrow> ''/'' | Some p \<Rightarrow> if p = '''' then ''/'' else p)"

definition ioTerminal ::
  "'b::size worker_env \<Rightarrow> 'b worker_runtime \<Rightarrow> mesh_route \<Rightarrow> string \<Rightarrow> string \<Rightarrow> 'b io_request \<Rightarrow> 'b server \<Rightarrow> 'b server \<times> 'b reply"
where
  "ioTerminal env rt route op m rq sv =
     (let mount = mrCanonicalAddress route; path = queryPath rq; notFound = (sv, withCors (textReply ''Not found'' 404)) in
      if op = ''health'' \<and> m = ''GET'' then (sv, withCors (textReply HEALTH_TEXT 200))
      else if op = ''file'' \<and> m = ''GET'' then handleGetFile env rt mount path rq sv
      else if op = ''file'' \<and> m = ''PUT'' then handleWriteFile env rt mount path rq sv
      else if op = ''file'' \<and> m = ''DELETE'' then handleDelete env rt mount path rq sv
      else if op = ''metadata'' \<and> m = ''POST'' then handleMetadata env rt mount (bodyText rq ''path'' ''/'') rq sv
      else if op = ''stored-file'' \<and> m = ''GET'' then handleGetStoredFile env rt mount path rq sv
      else if op = ''stored-file'' \<and> m = ''PUT'' then handlePutStoredFile env rt route path rq sv
      else if op = ''stored-file'' \<and> m = ''DELETE'' then handleDeleteStoredFile rt mount path rq sv
      else if op = ''stored-file-metadata'' \<and> m = ''POST'' then handleStoredFileMetadata rt mount (bodyText rq ''path'' ''/'') rq sv
      else if op = ''ensure-folder'' \<and> m = ''POST''
      then (sv\<lparr>svHost := fst (opListChildren mount (normalizePath (bodyText rq ''path'' ''/'')) (svHost sv))\<rparr>, emptyResponse 204)
      else if op = ''list-files'' \<and> m = ''POST'' then handleListFiles rt mount rq sv
      else if op = ''list-folders'' \<and> m = ''POST'' then handleListFolders rt mount rq sv
      else notFound)"

definition handleIoRequest ::
  "'b::size worker_env \<Rightarrow> 'b worker_runtime \<Rightarrow> 'b io_request \<Rightarrow> 'b server \<Rightarrow> 'b server \<times> 'b reply result"
where
  "handleIoRequest env rt rq sv =
     (let m = toUpperCase (rqMethod rq) in
      case parseIo (rqPathname rq) of
        Inl e \<Rightarrow> (sv, Inl e)
      | Inr (presented, op) \<Rightarrow>
          (case ioRequestAccess op m of
             None \<Rightarrow> (sv, Inr (withCors (textReply ''Not found'' 404)))
           | Some access \<Rightarrow>
               (case resolvePublicMeshRoute (weHmac env) (wrMeshSecret rt) (wrGates rt) (wrResolver rt) presented rq True access of
                  Inl reply \<Rightarrow> (sv, Inr reply)
                | Inr route \<Rightarrow>
                    runMeshMiddleware
                      \<lparr>mcPresentedAddress = mrPresentedAddress route, mcCanonicalAddress = mrCanonicalAddress route,
                       mcSurfaceIo = True, mcWrites = (access = WriteAccess)\<rparr>
                      rq (wrMiddleware rt)
                      (\<lambda>sv. case ioTerminal env rt route op m rq sv of (sv', reply) \<Rightarrow> (sv', Inr reply)) sv)))"

definition handleWsUpgrade ::
  "'b worker_env \<Rightarrow> 'b worker_runtime \<Rightarrow> string \<Rightarrow> 'b io_request \<Rightarrow> 'b server \<Rightarrow> 'b server \<times> 'b reply result"
where
  "handleWsUpgrade env rt presented rq sv =
     (case resolvePublicMeshRoute (weHmac env) (wrMeshSecret rt) (wrGates rt) (wrResolver rt) presented rq False ReadAccess of
        Inl reply \<Rightarrow> (sv, Inr reply)
      | Inr route \<Rightarrow>
          runMeshMiddleware
            \<lparr>mcPresentedAddress = mrPresentedAddress route, mcCanonicalAddress = mrCanonicalAddress route,
             mcSurfaceIo = False, mcWrites = False\<rparr>
            rq (wrMiddleware rt)
            (\<lambda>sv. (sv, Inr
               (if \<not> wrRelay rt then textReply ''WebSocket relay not configured'' 501
                else if toUpperCase (rqMethod rq) = ''GET'' \<and>
                        nthOr (filter (\<lambda>s. s \<noteq> '''') (jsplit (CHR ''/'') (rqPathname rq))) 2 '''' = ''health''
                then withCors (weRelay env (mrCanonicalAddress route) True)
                else if rqUpgrade rq \<noteq> Some ''websocket'' then textReply ''Expected WebSocket upgrade'' 426
                else weRelay env (mrCanonicalAddress route) False))) sv)"

definition optText :: "string option \<Rightarrow> jsval" where
  "optText t = (case t of None \<Rightarrow> JNull | Some s \<Rightarrow> JStr s)"

definition statusJson :: "path_key \<times> mesh_path_row \<Rightarrow> jsval" where
  "statusJson km =
     (let m = snd km in
      JObj [(''prefix'', JStr (fst (fst km))), (''remote_root'', JStr (snd (fst km))),
            (''last_operation_at'', optText (mpLastOperationAt m)), (''last_read_at'', optText (mpLastReadAt m)),
            (''last_write_at'', optText (mpLastWriteAt m)), (''deleted_at'', optText (mpDeletedAt m)),
            (''current_file_count'', JNum (Num (mpFileCount m))), (''current_total_bytes'', JNum (Num (mpTotalBytes m))),
            (''current_change_bytes'', JNum (Num (mpChangeBytes m))), (''current_mainline_bytes'', JNum (Num (mpMainlineBytes m)))])"

text \<open>The operations that need an admitted mesh.\<close>

definition meshSystemOp ::
  "'b::size worker_env \<Rightarrow> 'b worker_runtime \<Rightarrow> string \<Rightarrow> string \<Rightarrow> 'b io_request \<Rightarrow> 'b server \<Rightarrow> 'b server \<times> 'b reply"
where
  "meshSystemOp env rt storageKey op rq sv =
     (let remotePath = normalizePath (bodyText rq ''remotePath'' ''/'') in
      if op = ''reconcile-metrics'' then
        (case opReconcileMetrics (weHost env) storageKey remotePath (svHost sv) of
           (h, count, total') \<Rightarrow>
             (sv\<lparr>svHost := h\<rparr>, jsonResponse (JObj [(''fileCount'', JNum (Num count)), (''totalBytes'', JNum (Num total'))]) 200))
      else if op = ''run-maintenance'' then
        (case runMaintenance (weHost env) (wrPathTtlHours rt) (Some storageKey) (hoDb (svHost sv)) of
           (db, candidates, deleted) \<Rightarrow>
             (sv\<lparr>svHost := (svHost sv)\<lparr>hoDb := db\<rparr>\<rparr>,
              jsonResponse (JObj [(''ttlCandidates'', JNum (Num (int candidates))), (''ttlDeleted'', JNum (Num (int deleted)))]) 200))
      else if op = ''maintenance-status'' then
        (sv, jsonResponse (JObj [(''paths'',
               JArr (map statusJson (getMaintenanceStatus storageKey (Some remotePath) (hoDb (svHost sv)))))]) 200)
      else (sv, errorReply ''Unknown op'' 404))"

definition handleSystemOperation ::
  "'b::size worker_env \<Rightarrow> 'b worker_runtime \<Rightarrow> 'b io_request \<Rightarrow> 'b server \<Rightarrow> 'b server \<times> 'b reply result"
where
  "handleSystemOperation env rt rq sv =
     (let segments = filter (\<lambda>s. s \<noteq> '''') (jsplit (CHR ''/'') (jsliceFrom (rqPathname rq) (int (length (SYSTEM_PREFIX @ ''/''))))) in
      case decodeURIComponent (nthOr segments 0 '''') of
        Inl e \<Rightarrow> (sv, Inl e)
      | Inr mount \<Rightarrow>
          (let op = bodyText rq ''op'' '''' in
           if mount = '''' \<or> op = '''' then (sv, Inr (errorReply ''Missing prefix or op'' 400))
           else if op = ''issue-mesh-id'' then
             (sv, Inr (jsonResponse (JObj [(''meshId'',
                JStr (issueMeshId (weHmac env) (wrMeshSecret rt) (heNow (weHost env)) (weRandom env)))]) 200))
           else if op = ''validate-mesh-id'' then
             (let meshId = bodyText rq ''meshId'' '''' in
              if meshId = '''' then (sv, Inr (errorReply ''Missing meshId'' 400))
              else (sv, Inr (jsonResponse (JObj [(''valid'', JBool (validateMeshId (weHmac env) (wrMeshSecret rt) meshId))]) 200)))
           else
             (case admitCanonicalMesh (weHmac env) (wrMeshSecret rt) (wrGates rt) mount rq of
                Inl reply \<Rightarrow> (sv, Inr reply)
              | Inr storageKey \<Rightarrow> (case meshSystemOp env rt storageKey op rq sv of (sv', reply) \<Rightarrow> (sv', Inr reply)))))"

definition finishReply :: "'b worker_runtime \<Rightarrow> 'b io_request \<Rightarrow> 'b server \<times> 'b reply result \<Rightarrow> 'b server \<times> 'b reply result" where
  "finishReply rt rq r = (fst r, map_sum id (applyConfiguredCors (wrCors rt) (rqOrigin rq) (rqUpgrade rq)) (snd r))"

definition workerFetch ::
  "'b::size worker_env \<Rightarrow> 'b worker_runtime \<Rightarrow> 'b io_request \<Rightarrow> 'b server \<Rightarrow> 'b server \<times> 'b reply result"
where
  "workerFetch env rt rq sv =
     (let p = rqPathname rq in
      finishReply rt rq
        (if toUpperCase (rqMethod rq) = ''OPTIONS'' then (sv, Inr preflightResponse)
         else if p = ''/'' \<or> p = ''/health'' then (sv, Inr (withCors (textReply HEALTH_TEXT 200)))
         else if startsWith p (NOTIFY_PREFIX @ ''/'') then
           (case routeTarget NOTIFY_PREFIX p of Inl e \<Rightarrow> (sv, Inl e) | Inr presented \<Rightarrow> handleWsUpgrade env rt presented rq sv)
         else if startsWith p (IO_PREFIX @ ''/'') then handleIoRequest env rt rq sv
         else if startsWith p (RECOVERY_PREFIX @ ''/'') then
           (case routeTarget RECOVERY_PREFIX p of
              Inl e \<Rightarrow> (sv, Inl e)
            | Inr locator \<Rightarrow> (case handleRecoveryRequest env rt locator rq sv of (sv', reply) \<Rightarrow> (sv', Inr reply)))
         else (sv, Inr (withCors (textReply ''Not found'' 404)))))"

definition mountFetch ::
  "string \<Rightarrow> 'b::size worker_env \<Rightarrow> 'b worker_runtime \<Rightarrow> 'b io_request \<Rightarrow> 'b server \<Rightarrow> 'b server \<times> 'b reply result"
where
  "mountFetch mountPrefix env rt rq sv =
     (case stripMountPrefix (rqPathname rq) mountPrefix of
        None \<Rightarrow> (sv, Inr (textReply ''Not found'' 404))
      | Some p \<Rightarrow> workerFetch env rt (rq\<lparr>rqPathname := p\<rparr>) sv)"

definition systemFetch ::
  "string \<Rightarrow> 'b::size worker_env \<Rightarrow> 'b worker_runtime \<Rightarrow> 'b io_request \<Rightarrow> 'b server \<Rightarrow> 'b server \<times> 'b reply result"
where
  "systemFetch mountPrefix env rt rq sv =
     (case stripMountPrefix (rqPathname rq) mountPrefix of
        None \<Rightarrow> (sv, Inr (textReply ''Not found'' 404))
      | Some p \<Rightarrow>
          if \<not> startsWith p (SYSTEM_PREFIX @ ''/'') then (sv, Inr (textReply ''Not found'' 404))
          else if toUpperCase (rqMethod rq) = ''OPTIONS'' then finishReply rt rq (sv, Inr preflightResponse)
          else finishReply rt rq (handleSystemOperation env rt (rq\<lparr>rqPathname := p\<rparr>) sv))"

text \<open>\<open>withInterocitor\<close>: requests outside the mount go to the wrapped worker, an argument; so does the schedule.\<close>

definition withInterocitorFetch ::
  "string \<Rightarrow> ('b io_request \<Rightarrow> 'b server \<Rightarrow> 'b server \<times> 'b reply result) option \<Rightarrow> 'b::size worker_env \<Rightarrow> 'b worker_runtime \<Rightarrow>
     'b io_request \<Rightarrow> 'b server \<Rightarrow> 'b server \<times> 'b reply result"
where
  "withInterocitorFetch mountPrefix base env rt rq sv =
     (if mountMatches mountPrefix (rqPathname rq) then mountFetch mountPrefix env rt rq sv
      else (case base of Some f \<Rightarrow> f rq sv | None \<Rightarrow> (sv, Inr (textReply ''Not found'' 404))))"

definition withInterocitorScheduled ::
  "('b server \<Rightarrow> 'b server) option \<Rightarrow> 'b worker_env \<Rightarrow> 'b worker_runtime \<Rightarrow> 'b server \<Rightarrow> 'b server"
where
  "withInterocitorScheduled base env rt sv =
     (let sv1 = (case base of Some f \<Rightarrow> f sv | None \<Rightarrow> sv) in
      if wrScheduledMaintenance rt
      then sv1\<lparr>svHost := (svHost sv1)\<lparr>hoDb := fst (runMaintenance (weHost env) (wrPathTtlHours rt) None (hoDb (svHost sv1)))\<rparr>\<rparr>
      else sv1)"

end
