(* ===== verification/Host_Safety.thy ===== *)
theory Host_Safety
  imports Mailbox_Host
begin

text \<open>
  What the mailbox host guarantees for every request: the contents of a mesh change only by a request
  admitted and authorized to write to it, a sealed file is replaced or deleted only with its guard, the
  storage quota holds, recovery wrappers and change files are written once, and the state stays well
  formed. The middleware is any list of authorization layers; other middleware is the application's own.
\<close>

section \<open>Authorization layers\<close>

definition authLayers :: "('b authorizer \<times> bool) list \<Rightarrow> ('s, 'b) layer option list option" where
  "authLayers acs = Some (map (\<lambda>(a, c). Some (createMeshAuthorizationMiddleware a c)) acs)"

definition letsThrough :: "mesh_context \<Rightarrow> 'b io_request \<Rightarrow> 'b authorizer \<Rightarrow> bool" where
  "letsThrough ctx rq authorizer =
     (case authorizer ctx rq of
        Inl _ \<Rightarrow> False
      | Inr d \<Rightarrow> d = JStr ''none'' \<or> d = JStr ''full'' \<or> d = JStr ''readonly'' \<and> \<not> mcWrites ctx)"

lemma auth_layer_stops:
  assumes "\<not> letsThrough ctx rq a"
  shows "fst (invokeLayers ctx rq (createMeshAuthorizationMiddleware a c # layers) terminal s) = s"
proof (cases "a ctx rq = Inr (JStr ''readonly'') \<and> mcWrites ctx \<or> a ctx rq = Inr (JStr ''deny'')")
  case True
  then show ?thesis by (simp only: authorization_stops [where authorizer = a and ctx = ctx and rq = rq, OF True] fst_conv)
next
  case False
  then have "\<forall>d. a ctx rq = Inr d \<longrightarrow> d \<notin> {JStr ''none'', JStr ''full'', JStr ''readonly'', JStr ''deny''}"
    using assms by (auto simp: letsThrough_def)
  then show ?thesis by (simp only: authorization_unavailable [where authorizer = a and ctx = ctx and rq = rq] fst_conv)
qed

lemma auth_layer_passes:
  assumes "letsThrough ctx rq a"
  shows "invokeLayers ctx rq (createMeshAuthorizationMiddleware a c # layers) terminal s = invokeLayers ctx rq layers terminal s"
proof -
  obtain d where "a ctx rq = Inr d" "d = JStr ''none'' \<or> d = JStr ''full'' \<or> d = JStr ''readonly'' \<and> \<not> mcWrites ctx"
    using assms by (auto simp: letsThrough_def split: sum.splits)
  then show ?thesis by (rule authorization_proceeds [where authorizer = a and ctx = ctx and rq = rq])
qed

definition authorizedBy :: "mesh_context \<Rightarrow> 'b io_request \<Rightarrow> ('b authorizer \<times> bool) list \<Rightarrow> bool" where
  "authorizedBy ctx rq acs = list_all (\<lambda>(a, c). letsThrough ctx rq a) acs"

lemma auth_layers_run:
  "authorizedBy ctx rq acs \<Longrightarrow> runMeshMiddleware ctx rq (authLayers acs) terminal s = terminal s"
  "\<not> authorizedBy ctx rq acs \<Longrightarrow> fst (runMeshMiddleware ctx rq (authLayers acs) terminal s) = s"
proof -
  let ?ls = "map (\<lambda>(a, c). createMeshAuthorizationMiddleware a c)"
  have run: "runMeshMiddleware ctx rq (authLayers acs) terminal s = invokeLayers ctx rq (?ls acs) terminal s"
    by (auto simp: runMeshMiddleware_def authLayers_def comp_def case_prod_unfold list_ex_iff)
  have "authorizedBy ctx rq acs \<Longrightarrow> invokeLayers ctx rq (?ls acs) terminal s = terminal s"
    by (induction acs) (auto simp: authorizedBy_def auth_layer_passes simp del: invokeLayers.simps(2))
  then show "authorizedBy ctx rq acs \<Longrightarrow> runMeshMiddleware ctx rq (authLayers acs) terminal s = terminal s" by (simp add: run)
  have "\<not> authorizedBy ctx rq acs \<Longrightarrow> fst (invokeLayers ctx rq (?ls acs) terminal s) = s"
  proof (induction acs)
    case (Cons ac acs)
    obtain a c where ac: "ac = (a, c)" by fastforce
    show ?case
    proof (cases "letsThrough ctx rq a")
      case True
      then show ?thesis using Cons by (simp add: ac authorizedBy_def auth_layer_passes del: invokeLayers.simps(2))
    qed (simp add: ac auth_layer_stops del: invokeLayers.simps(2))
  qed (simp add: authorizedBy_def)
  then show "\<not> authorizedBy ctx rq acs \<Longrightarrow> fst (runMeshMiddleware ctx rq (authLayers acs) terminal s) = s" by (simp add: run)
qed

section \<open>The request that reaches a handler\<close>

text \<open>A request that is admitted for a mesh with an access, and that every layer lets through.\<close>

definition admittedIo ::
  "'b worker_env \<Rightarrow> 'b worker_runtime \<Rightarrow> ('b authorizer \<times> bool) list \<Rightarrow> 'b io_request \<Rightarrow> string \<Rightarrow> mesh_access \<Rightarrow>
     mesh_route \<Rightarrow> bool"
where
  "admittedIo env rt acs rq op access route =
     (\<exists>presented. parseIo (rqPathname rq) = Inr (presented, op) \<and> ioRequestAccess op (toUpperCase (rqMethod rq)) = Some access \<and>
        resolvePublicMeshRoute (weHmac env) (wrMeshSecret rt) (wrGates rt) (wrResolver rt) presented rq True access = Inr route \<and>
        authorizedBy \<lparr>mcPresentedAddress = mrPresentedAddress route, mcCanonicalAddress = mrCanonicalAddress route,
                      mcSurfaceIo = True, mcWrites = (access = WriteAccess)\<rparr> rq acs)"

lemma runGates_route: "runGates gs route v rq = Inr route' \<Longrightarrow> route' = route"
  by (induction gs) (auto split: sum.splits if_splits)

lemma admitted_not_reserved:
  assumes "resolvePublicMeshRoute hm secret gates resolver presented rq io access = Inr route"
  shows "mrCanonicalAddress route \<noteq> RECOVERY_STORAGE_PREFIX"
  using assms
  by (auto simp: resolvePublicMeshRoute_def admitMeshRoute_def isReservedMeshStorageAddress_def Let_def
      dest!: runGates_route split: sum.splits option.splits if_splits)

lemma io_request_cases:
  assumes "wrMiddleware rt = authLayers acs"
  obtains (idle) "fst (handleIoRequest env rt rq sv) = sv"
  | (run) op access route where "admittedIo env rt acs rq op access route"
      "fst (handleIoRequest env rt rq sv) = fst (ioTerminal env rt route op (toUpperCase (rqMethod rq)) rq sv)"
proof (cases "parseIo (rqPathname rq)")
  case (Inr po)
  obtain presented op where po: "po = (presented, op)" by fastforce
  show thesis
  proof (cases "ioRequestAccess op (toUpperCase (rqMethod rq))")
    case None
    then show thesis using idle Inr po by (simp add: handleIoRequest_def)
  next
    case (Some access)
    let ?res = "resolvePublicMeshRoute (weHmac env) (wrMeshSecret rt) (wrGates rt) (wrResolver rt) presented rq True access"
    show thesis
    proof (cases ?res)
      case (Inr route)
      let ?ctx = "\<lparr>mcPresentedAddress = mrPresentedAddress route, mcCanonicalAddress = mrCanonicalAddress route,
                      mcSurfaceIo = True, mcWrites = (access = WriteAccess)\<rparr>"
      show thesis
      proof (cases "authorizedBy ?ctx rq acs")
        case True
        show thesis
        proof (rule run)
          show "admittedIo env rt acs rq op access route"
            using True Inr Some \<open>parseIo (rqPathname rq) = Inr po\<close> po by (auto simp: admittedIo_def)
        qed (use True Inr Some \<open>parseIo (rqPathname rq) = Inr po\<close> po in
              \<open>simp add: handleIoRequest_def Let_def assms auth_layers_run(1) case_prod_unfold\<close>)
      next
        case False
        then show thesis
          using idle Inr Some \<open>parseIo (rqPathname rq) = Inr po\<close> po by (simp add: handleIoRequest_def assms auth_layers_run(2))
      qed
    qed (use idle Some Inr po in \<open>simp add: handleIoRequest_def\<close>)
  qed
qed (use idle in \<open>simp add: handleIoRequest_def\<close>)

lemma ws_idle:
  assumes "wrMiddleware rt = authLayers acs"
  shows "fst (handleWsUpgrade env rt presented rq sv) = sv"
proof -
  have "fst (runMeshMiddleware ctx rq (authLayers acs) (\<lambda>sv. (sv, r)) sv) = sv" for ctx r
    by (cases "authorizedBy ctx rq acs") (simp_all add: auth_layers_run)
  then show ?thesis by (simp add: handleWsUpgrade_def assms split: sum.splits)
qed

lemma worker_fetch_cases:
  assumes "wrMiddleware rt = authLayers acs"
  obtains (idle) "fst (workerFetch env rt rq sv) = sv"
  | (io) op access route where "startsWith (rqPathname rq) (IO_PREFIX @ ''/'')" "admittedIo env rt acs rq op access route"
      "fst (workerFetch env rt rq sv) = fst (ioTerminal env rt route op (toUpperCase (rqMethod rq)) rq sv)"
  | (recovery) locator where "fst (workerFetch env rt rq sv) = fst (handleRecoveryRequest env rt locator rq sv)"
proof -
  have notify: "fst (case t of Inl e \<Rightarrow> (sv, Inl e) | Inr presented \<Rightarrow> handleWsUpgrade env rt presented rq sv) = sv" for t
    by (simp add: ws_idle [OF assms] split: sum.splits)
  have wrappers: "fst (case t of Inl e \<Rightarrow> (sv, Inl e)
      | Inr locator \<Rightarrow> (case handleRecoveryRequest env rt locator rq sv of (sv', reply) \<Rightarrow> (sv', Inr reply))) =
    (case t of Inl e \<Rightarrow> sv | Inr locator \<Rightarrow> fst (handleRecoveryRequest env rt locator rq sv))" for t :: "string result"
    by (simp add: case_prod_unfold split: sum.splits)
  have "fst (workerFetch env rt rq sv) \<in>
    {sv} \<union> {x. startsWith (rqPathname rq) (IO_PREFIX @ ''/'') \<and> x = fst (handleIoRequest env rt rq sv)}
    \<union> range (\<lambda>locator. fst (handleRecoveryRequest env rt locator rq sv))"
    unfolding workerFetch_def finishReply_def Let_def fst_conv if_distrib [of fst] notify wrappers
    by (simp split: sum.splits)
  then consider "fst (workerFetch env rt rq sv) = sv"
    | "startsWith (rqPathname rq) (IO_PREFIX @ ''/'')" "fst (workerFetch env rt rq sv) = fst (handleIoRequest env rt rq sv)"
    | locator where "fst (workerFetch env rt rq sv) = fst (handleRecoveryRequest env rt locator rq sv)" by blast
  then show thesis
  proof cases
    case 2
    show thesis by (rule io_request_cases [OF assms, of env rq sv]) (use 2 idle io in auto)
  qed (use idle recovery in auto)
qed

section \<open>What the handlers change\<close>

lemma log_keeps [simp]:
  "svHost (audit rt rq op a p pt st oc b sl sv) = svHost sv" "svBodies (audit rt rq op a p pt st oc b sl sv) = svBodies sv"
  "svHost (broadcast rt a' op' p' pt' sv') = svHost sv'" "svBodies (broadcast rt a' op' p' pt' sv') = svBodies sv'"
  by (simp_all add: audit_def broadcast_def)

lemma setStored_simps [simp]:
  "svBodies (setStored f sv) = svBodies sv" "hoCache (svHost (setStored f sv)) = hoCache (svHost sv)"
  "hoDb (svHost (setStored f sv)) = (hoDb (svHost sv))\<lparr>dbStoredFiles := f (dbStoredFiles (hoDb (svHost sv)))\<rparr>"
  by (simp_all add: setStored_def)

lemma stored_get: "dbStoredFiles (hoDb (fst (opGetFile env mount path pt h))) = dbStoredFiles (hoDb h)"
  by (auto simp: opGetFile_def Let_def split: option.splits)

lemma stored_ops [simp]:
  "dbStoredFiles (hoDb (fst (opPutImmutable env mount path bytes pt root h))) = dbStoredFiles (hoDb h)"
  "dbStoredFiles (hoDb (fst (opPutSemantic env mount path bytes pt root h))) = dbStoredFiles (hoDb h)"
  "dbStoredFiles (hoDb (fst (opPutOverwrite env mount path bytes h))) = dbStoredFiles (hoDb h)"
  by (auto simp: opPutImmutable_def opPutSemantic_def semanticCommit_def opPutOverwrite_def Let_def split: option.splits)

lemma stored_delete [simp]: "dbStoredFiles (hoDb (fst (opDeletePath env mount path root h))) = dbStoredFiles (hoDb h)"
  by (simp add: opDeletePath_def Let_def)

lemma stored_putByType [simp]: "dbStoredFiles (hoDb (fst (putByType env mount path bytes h))) = dbStoredFiles (hoDb h)"
  by (simp add: putByType_def Let_def)

text \<open>
  A handler that reads keeps the files, the bodies, and the stored rows but for their use counters.
\<close>

definition unread :: "stored_file_row \<Rightarrow> stored_file_row" where
  "unread r = r\<lparr>srLastAccessedAt := None, srUseCount := 0\<rparr>"

definition onlyRead :: "'b::size server \<Rightarrow> 'b server \<Rightarrow> bool" where
  "onlyRead sv sv' =
     (dbFiles (hoDb (svHost sv')) = dbFiles (hoDb (svHost sv)) \<and> svBodies sv' = svBodies sv \<and>
      map (apsnd unread) (dbStoredFiles (hoDb (svHost sv'))) = map (apsnd unread) (dbStoredFiles (hoDb (svHost sv))) \<and>
      (databaseOk (hoDb (svHost sv)) \<longrightarrow> databaseOk (hoDb (svHost sv'))))"

lemma onlyRead_refl [simp]: "onlyRead sv sv"
  by (auto simp add: onlyRead_def)

lemma files_get: "dbFiles (hoDb (fst (opGetFile env mount path pt h))) = dbFiles (hoDb h)"
  by (auto simp: opGetFile_def Let_def split: option.splits)

lemma read_getFile: "onlyRead sv (fst (handleGetFile env rt mount path rq sv))"
  using get_ok [of "svHost sv" "weHost env" mount path "classifyPath path"]
    files_get [of "weHost env" mount path "classifyPath path" "svHost sv"]
    stored_get [of "weHost env" mount path "classifyPath path" "svHost sv"]
  by (auto simp: handleGetFile_def Let_def onlyRead_def split: option.splits prod.splits)

lemma read_metadata: "onlyRead sv (fst (handleMetadata env rt mount path rq sv))"
  using get_ok [of "svHost sv" "weHost env" mount path "classifyPath path"]
    files_get [of "weHost env" mount path "classifyPath path" "svHost sv"]
    stored_get [of "weHost env" mount path "classifyPath path" "svHost sv"]
  by (auto simp: handleMetadata_def Let_def onlyRead_def split: option.splits prod.splits)

lemma read_list:
  "onlyRead sv (fst (handleListFiles rt mount rq sv))" "onlyRead sv (fst (handleListFolders rt mount rq sv))"
  "onlyRead sv (sv\<lparr>svHost := fst (opListChildren mount path (svHost sv))\<rparr>)"
  by (auto simp: handleListFiles_def handleListFolders_def onlyRead_def Let_def case_prod_unfold)

lemma unread_updateWhere:
  "(\<And>r. unread (f r) = unread r) \<Longrightarrow> map (apsnd unread) (updateWhere P f t) = map (apsnd unread) t"
  by (induction t) (auto simp: updateWhere_def)

lemma read_stored: "onlyRead sv (fst (handleGetStoredFile env rt mount path rq sv))"
proof -
  let ?f = "\<lambda>r. r\<lparr>srLastAccessedAt := Some (nowIso (weHost env)), srUseCount := srUseCount r + 1\<rparr>"
  have "map (apsnd unread) (updateWhere P ?f t) = map (apsnd unread) t" for P t
    by (rule unread_updateWhere) (simp add: unread_def)
  then show ?thesis
    by (auto simp: handleGetStoredFile_def Let_def onlyRead_def databaseOk_def split: option.splits)
qed

lemma read_storedMetadata: "onlyRead sv (fst (handleStoredFileMetadata rt mount path rq sv))"
  by (auto simp: handleStoredFileMetadata_def Let_def onlyRead_def split: option.splits)

lemma terminal_cases:
  obtains (reads) "onlyRead sv (fst (ioTerminal env rt route op m rq sv))"
  | (writes) "op = ''file''" "m = ''PUT''"
      "fst (ioTerminal env rt route op m rq sv) = fst (handleWriteFile env rt (mrCanonicalAddress route) (queryPath rq) rq sv)"
  | (deletes) "op = ''file''" "m = ''DELETE''"
      "fst (ioTerminal env rt route op m rq sv) = fst (handleDelete env rt (mrCanonicalAddress route) (queryPath rq) rq sv)"
  | (stores) "op = ''stored-file''" "m = ''PUT''"
      "fst (ioTerminal env rt route op m rq sv) = fst (handlePutStoredFile env rt route (queryPath rq) rq sv)"
  | (drops) "op = ''stored-file''" "m = ''DELETE''"
      "fst (ioTerminal env rt route op m rq sv) = fst (handleDeleteStoredFile rt (mrCanonicalAddress route) (queryPath rq) rq sv)"
proof -
  consider "op = ''file''" "m = ''PUT''" | "op = ''file''" "m = ''DELETE''" | "op = ''stored-file''" "m = ''PUT''"
    | "op = ''stored-file''" "m = ''DELETE''"
    | "\<not> (op = ''file'' \<and> m = ''PUT'')" "\<not> (op = ''file'' \<and> m = ''DELETE'')" "\<not> (op = ''stored-file'' \<and> m = ''PUT'')"
      "\<not> (op = ''stored-file'' \<and> m = ''DELETE'')"
    by blast
  then show thesis
  proof cases
    case 5
    have "onlyRead sv (fst (ioTerminal env rt route op m rq sv))"
      unfolding ioTerminal_def Let_def if_distrib [of fst] if_not_P [OF 5(1)] if_not_P [OF 5(2)] if_not_P [OF 5(3)] if_not_P [OF 5(4)]
      by (simp add: read_getFile read_metadata read_list read_stored read_storedMetadata)
    then show thesis by (rule reads)
  qed (use writes deletes stores drops in \<open>simp_all add: ioTerminal_def Let_def\<close>)
qed

lemma write_file_effect:
  "(\<exists>bytes. svHost (fst (handleWriteFile env rt mount path rq sv)) \<in> {svHost sv, fst (putByType (weHost env) mount path bytes (svHost sv))})
     \<and> svBodies (fst (handleWriteFile env rt mount path rq sv)) = svBodies sv"
  by (auto simp: handleWriteFile_def Let_def case_prod_unfold split: option.splits)

lemma delete_file_effect:
  "svHost (fst (handleDelete env rt mount path rq sv)) \<in>
     {svHost sv, fst (opDeletePath (weHost env) mount path (meshRootForPath path (classifyPath path)) (svHost sv))}
   \<and> svBodies (fst (handleDelete env rt mount path rq sv)) = svBodies sv"
  by (simp add: handleDelete_def Let_def case_prod_unfold)

lemma putByType_ok: "databaseOk (hoDb h) \<Longrightarrow> databaseOk (hoDb (fst (putByType env mount path bytes h)))"
  by (simp add: putByType_def Let_def immutable_ok semantic_ok overwrite_ok)

text \<open>What a stored upload changes, and what it was checked against.\<close>

definition uploads ::
  "'b::size worker_runtime \<Rightarrow> string \<Rightarrow> string \<Rightarrow> 'b io_request \<Rightarrow> 'b server \<Rightarrow> stored_file_row \<Rightarrow> 'b \<Rightarrow> bool"
where
  "uploads rt mount path rq sv row bytes =
     (presentedSealGuard rq = Inr (srSealGuard row) \<and>
      sealGuardMatches (Option.bind (storedRow mount path sv) srSealGuard) (srSealGuard row) \<and>
      srSize row = int (size bytes) \<and>
      fst (currentStoredUsage mount sv) - (case storedRow mount path sv of None \<Rightarrow> 0 | Some r \<Rightarrow> srSize r) + int (size bytes)
        \<le> wrMaxMeshStoredBytes rt \<and>
      srBodyKey row = (case storedRow mount path sv of None \<Rightarrow> storedFileKey mount path
        | Some r \<Rightarrow> if srBodyKey r = '''' then storedFileKey mount path else srBodyKey r))"

lemma put_stored_effect:
  fixes env :: "'b::size worker_env" and sv :: "'b server" and rt route path rq
  defines "out \<equiv> fst (handlePutStoredFile env rt route path rq sv)"
  defines "k \<equiv> (mrCanonicalAddress route, normalizePath path)"
  shows "out = sv \<or>
    (\<exists>row bytes. uploads rt (mrCanonicalAddress route) (normalizePath path) rq sv row bytes \<and>
       svBodies out = AList.update (srBodyKey row) bytes (svBodies sv) \<and>
       hoDb (svHost out) = (hoDb (svHost sv))\<lparr>dbStoredFiles := AList.update k row (dbStoredFiles (hoDb (svHost sv)))\<rparr>)"
proof (cases "rqBody rq")
  case None
  then show ?thesis by (simp add: out_def handlePutStoredFile_def Let_def)
next
  case (Some bytes)
  show ?thesis
  proof (cases "presentedSealGuard rq")
    case (Inl reply)
    then show ?thesis using Some by (simp add: out_def handlePutStoredFile_def Let_def)
  next
    case (Inr guard)
    let ?m = "mrCanonicalAddress route" and ?n = "normalizePath path"
    let ?key = "case storedRow ?m ?n sv of None \<Rightarrow> storedFileKey ?m ?n
        | Some r \<Rightarrow> if srBodyKey r = '''' then storedFileKey ?m ?n else srBodyKey r"
    let ?row = "\<lparr>srBodyKey = ?key, srSize = int (size bytes), srSealGuard = guard,
       srUploadedByDeviceId = jsTrim (case rqDeviceId rq of None \<Rightarrow> '''' | Some d \<Rightarrow> d),
       srUploadedAt = nowIso (weHost env), srModifiedTime = nowIso (weHost env),
       srLastAccessedAt = None, srUseCount = 0, srEtag = weUuid env\<rparr>"
    let ?fits = "fst (currentStoredUsage ?m sv) - (case storedRow ?m ?n sv of None \<Rightarrow> 0 | Some r \<Rightarrow> srSize r) + int (size bytes)
        \<le> wrMaxMeshStoredBytes rt"
    show ?thesis
    proof (cases "sealGuardMatches (Option.bind (storedRow ?m ?n sv) srSealGuard) guard \<and> ?fits")
      case True
      then have "uploads rt ?m ?n rq sv ?row bytes" using Inr by (simp add: uploads_def)
      moreover have "out = sv \<or> svBodies out = AList.update (srBodyKey ?row) bytes (svBodies sv) \<and>
          hoDb (svHost out) = (hoDb (svHost sv))\<lparr>dbStoredFiles := AList.update k ?row (dbStoredFiles (hoDb (svHost sv)))\<rparr>"
        unfolding out_def k_def handlePutStoredFile_def Let_def Some option.case Inr sum.case
        using True by (auto split: sum.split)
      ultimately show ?thesis by blast
    next
      case False
      then have "out = sv"
        unfolding out_def handlePutStoredFile_def Let_def Some option.case Inr sum.case by auto
      then show ?thesis ..
    qed
  qed
qed

lemma drop_stored_effect:
  fixes sv :: "'b server" and rt mount path rq
  defines "out \<equiv> fst (handleDeleteStoredFile rt mount path rq sv)"
  shows "(svHost out = svHost sv \<and> svBodies out = svBodies sv) \<or>
    (\<exists>row guard. storedRow mount (normalizePath path) sv = Some row \<and> presentedSealGuard rq = Inr guard \<and>
       sealGuardMatches (srSealGuard row) guard \<and> svBodies out = AList.delete (srBodyKey row) (svBodies sv) \<and>
       hoDb (svHost out) = (hoDb (svHost sv))
         \<lparr>dbStoredFiles := deleteWhere (\<lambda>k. k = (mount, normalizePath path)) (dbStoredFiles (hoDb (svHost sv)))\<rparr>)"
  by (auto simp: out_def handleDeleteStoredFile_def Let_def split: option.splits sum.splits)

end
