(* ===== verification/Host_Properties.thy ===== *)
theory Host_Properties
  imports Host_Safety
begin

text \<open>
  The mailbox host over any sequence of events: requests below a mount, system requests and scheduled
  sweeps. The state stays well formed, and what the handlers promise one request at a time holds for
  the whole run.
\<close>

section \<open>Runs of the host\<close>

text \<open>
  An event is what the runtime calls the worker with; each carries its own clock, random values and
  environment. The wrapped worker of \<open>withInterocitor\<close> is absent.
\<close>

datatype 'b host_event =
  MountRequest string "'b worker_env" "'b io_request"
| SystemRequest string "'b worker_env" "'b io_request"
| Schedule "'b worker_env"

fun hostStep :: "'b::size worker_runtime \<Rightarrow> 'b host_event \<Rightarrow> 'b server \<Rightarrow> 'b server" where
  "hostStep rt (MountRequest mp env rq) sv = fst (withInterocitorFetch mp None env rt rq sv)"
| "hostStep rt (SystemRequest mp env rq) sv = fst (systemFetch mp env rt rq sv)"
| "hostStep rt (Schedule env) sv = withInterocitorScheduled None env rt sv"

fun runHost :: "'b::size worker_runtime \<Rightarrow> 'b host_event list \<Rightarrow> 'b server \<Rightarrow> 'b server" where
  "runHost rt [] sv = sv"
| "runHost rt (e # es) sv = runHost rt es (hostStep rt e sv)"

definition emptyServer :: "'b worker_cache option \<Rightarrow> 'b server" where
  "emptyServer c = \<lparr>svHost = \<lparr>hoDb = emptyDatabase, hoCache = c\<rparr>, svBodies = [], svAudit = [], svBroadcasts = []\<rparr>"

text \<open>The changes a step can make, apart from those a mount request makes through \<open>workerFetch\<close>.\<close>

lemma mount_request:
  obtains (idle) "fst (withInterocitorFetch mp None env rt rq sv) = sv"
  | (fetch) p where "stripMountPrefix (rqPathname rq) mp = Some p"
      "fst (withInterocitorFetch mp None env rt rq sv) = fst (workerFetch env rt (rq\<lparr>rqPathname := p\<rparr>) sv)"
proof (cases "stripMountPrefix (rqPathname rq) mp")
  case None
  then show thesis using idle by (simp add: withInterocitorFetch_def mountFetch_def)
next
  case (Some p)
  then show thesis
    using idle fetch [of p] by (cases "mountMatches mp (rqPathname rq)") (simp_all add: withInterocitorFetch_def mountFetch_def)
qed

definition sweptBy :: "'b worker_env \<Rightarrow> 'b worker_runtime \<Rightarrow> string option \<Rightarrow> 'b server \<Rightarrow> 'b server" where
  "sweptBy env rt scope sv =
     sv\<lparr>svHost := (svHost sv)\<lparr>hoDb := fst (runMaintenance (weHost env) (wrPathTtlHours rt) scope (hoDb (svHost sv)))\<rparr>\<rparr>"

lemma system_request:
  obtains (idle) "fst (systemFetch mp env rt rq sv) = sv"
  | (metrics) mount root where "fst (systemFetch mp env rt rq sv) =
      sv\<lparr>svHost := fst (opReconcileMetrics (weHost env) mount root (svHost sv))\<rparr>"
  | (sweep) mount where "fst (systemFetch mp env rt rq sv) = sweptBy env rt (Some mount) sv"
proof -
  have op: "fst (meshSystemOp env rt key op rq' sv) \<in> {sv, sweptBy env rt (Some key) sv} \<union>
      range (\<lambda>root. sv\<lparr>svHost := fst (opReconcileMetrics (weHost env) key root (svHost sv))\<rparr>)" for key op rq'
    by (auto simp: meshSystemOp_def sweptBy_def Let_def case_prod_unfold)
  have handled: "fst (handleSystemOperation env rt rq' sv) = sv \<or>
      (\<exists>key op. fst (handleSystemOperation env rt rq' sv) = fst (meshSystemOp env rt key op rq' sv))" for rq'
    by (auto simp: handleSystemOperation_def Let_def case_prod_unfold split: sum.splits)
  have "fst (systemFetch mp env rt rq sv) = sv \<or> (\<exists>rq'. fst (systemFetch mp env rt rq sv) = fst (handleSystemOperation env rt rq' sv))"
    by (auto simp: systemFetch_def finishReply_def split: option.splits)
  then consider "fst (systemFetch mp env rt rq sv) = sv"
    | key op' rq' where "fst (systemFetch mp env rt rq sv) = fst (meshSystemOp env rt key op' rq' sv)"
    using handled by metis
  then show thesis
  proof cases
    case 2
    then show thesis using op [of key op' rq'] idle metrics sweep by auto
  qed (rule idle)
qed

section \<open>Body keys\<close>

lemma normal_drop: "normalPath q \<Longrightarrow> \<exists>t. q = CHR ''/'' # t"
  by (auto simp: normalPath_def startsWith_slash)

lemma storedFileKey_inject:
  assumes "normalPath q" "normalPath q'"
  shows "storedFileKey m q = storedFileKey m' q' \<longleftrightarrow> m = m' \<and> q = q'"
proof -
  obtain t t' where "q = CHR ''/'' # t" "q' = CHR ''/'' # t'" using assms normal_drop by blast
  then show ?thesis
    using assms
    by (auto simp: storedFileKey_def normalize_id jsliceFrom_def clampIndex_def encode_inject
        first_separator [OF encode_no_slash encode_no_slash])
qed

lemma storedFileKey_not_Nil [simp]: "storedFileKey m q \<noteq> ''''"
  by (simp add: storedFileKey_def)

section \<open>Well-formed states\<close>

text \<open>
  The tables are well formed, and every stored file has its body, of the recorded size, under the key
  of its own mesh and path.
\<close>

definition storedOk :: "(string \<times> 'b::size) list \<Rightarrow> path_key \<Rightarrow> stored_file_row \<Rightarrow> bool" where
  "storedOk bodies k r =
     (normalPath (snd k) \<and> srBodyKey r = storedFileKey (fst k) (snd k) \<and>
      map_option (int \<circ> size) (map_of bodies (srBodyKey r)) = Some (srSize r))"

definition serverOk :: "'b::size server \<Rightarrow> bool" where
  "serverOk sv =
     (databaseOk (hoDb (svHost sv)) \<and>
      list_all (\<lambda>(k, r). storedOk (svBodies sv) k r) (dbStoredFiles (hoDb (svHost sv))))"

lemma serverOk_stored:
  "serverOk sv \<Longrightarrow> storedRow p q sv = Some r \<Longrightarrow> storedOk (svBodies sv) (p, q) r"
  by (auto simp: serverOk_def storedRow_def list_all_iff dest: map_of_SomeD)

lemma serverOk_host:
  assumes "serverOk sv" "svBodies sv' = svBodies sv" "databaseOk (hoDb (svHost sv'))"
    "dbStoredFiles (hoDb (svHost sv')) = dbStoredFiles (hoDb (svHost sv))"
  shows "serverOk sv'"
  using assms by (simp add: serverOk_def)

lemma fold_evict_keeps:
  "dbStoredFiles (fold (\<lambda>(k, m). evictMesh now (f k)) cs db) = dbStoredFiles db"
  by (induction cs arbitrary: db) (auto simp: evictMesh_def)

lemma maintenance_keeps [simp]:
  "dbStoredFiles (fst (runMaintenance env ttl mount db)) = dbStoredFiles db"
  by (auto simp: runMaintenance_def Let_def fold_evict_keeps split: jnum.splits)

lemma stored_reconcile [simp]: "dbStoredFiles (hoDb (fst (opReconcileMetrics env mount root h))) = dbStoredFiles (hoDb h)"
  by (simp add: opReconcileMetrics_def Let_def)

text \<open>Every change a step makes keeps the state well formed.\<close>

lemma mapped_list_all:
  "map (apsnd f) t = map (apsnd f) t' \<Longrightarrow> (\<And>k v. P k (f v) = P k v) \<Longrightarrow> list_all (\<lambda>(k, v). P k v) t = list_all (\<lambda>(k, v). P k v) t'"
proof -
  assume same: "map (apsnd f) t = map (apsnd f) t'" and P: "\<And>k v. P k (f v) = P k v"
  have "list_all (\<lambda>(k, v). P k v) u = list_all (\<lambda>(k, v). P k v) (map (apsnd f) u)" for u
    by (induction u) (auto simp: P)
  then show ?thesis using same by metis
qed

lemma storedOk_unread [simp]: "storedOk bodies k (unread r) = storedOk bodies k r"
  by (simp add: storedOk_def unread_def)

lemma read_ok:
  assumes "serverOk sv" "onlyRead sv sv'"
  shows "serverOk sv'"
proof -
  have same: "map (apsnd unread) (dbStoredFiles (hoDb (svHost sv'))) = map (apsnd unread) (dbStoredFiles (hoDb (svHost sv)))"
    using assms(2) by (simp add: onlyRead_def)
  have "list_all (\<lambda>(k, r). storedOk (svBodies sv) k r) (dbStoredFiles (hoDb (svHost sv')))"
    using assms(1) mapped_list_all [OF same, of "storedOk (svBodies sv)"] by (simp add: serverOk_def)
  then show ?thesis using assms by (auto simp: serverOk_def onlyRead_def)
qed

lemma write_ok:
  assumes "serverOk sv"
  shows "serverOk (fst (handleWriteFile env rt mount path rq sv))"
proof -
  obtain bytes where "svHost (fst (handleWriteFile env rt mount path rq sv)) \<in>
      {svHost sv, fst (putByType (weHost env) mount path bytes (svHost sv))}"
    using write_file_effect [of env rt mount path rq sv] by auto
  then show ?thesis
    using assms write_file_effect [of env rt mount path rq sv]
    by (auto simp: serverOk_def putByType_ok)
qed

lemma delete_path_ok:
  assumes "serverOk sv"
  shows "serverOk (fst (handleDelete env rt mount path rq sv))"
  using assms delete_file_effect [of env rt mount path rq sv]
  by (auto simp: serverOk_def delete_ok)

lemma update_entries:
  "distinct (map fst t) \<Longrightarrow> (k, v) \<in> set (AList.update k' v' t) \<longleftrightarrow> (k, v) = (k', v') \<or> (k, v) \<in> set t \<and> k \<noteq> k'"
  by (induction t) force+

lemma uploads_key:
  assumes "serverOk sv" "uploads rt mount path rq sv row bytes"
  shows "srBodyKey row = storedFileKey mount path"
  using assms serverOk_stored [of sv mount path] by (auto simp: uploads_def storedOk_def split: option.splits)

lemma storedOk_other:
  assumes "storedOk bodies k r" "normalPath q" "k \<noteq> (m, q)"
  shows "storedOk (AList.update (storedFileKey m q) b bodies) k r" "storedOk (AList.delete (storedFileKey m q) bodies) k r"
  using assms storedFileKey_inject [of "snd k" q "fst k" m] by (auto simp: storedOk_def update_conv' delete_conv' prod_eq_iff)

lemma store_ok:
  assumes "serverOk sv"
  shows "serverOk (fst (handlePutStoredFile env rt route path rq sv))" (is "serverOk ?out")
proof (cases "?out = sv")
  case False
  let ?m = "mrCanonicalAddress route" and ?n = "normalizePath path"
  obtain row bytes where up: "uploads rt ?m ?n rq sv row bytes"
    and bodies: "svBodies ?out = AList.update (srBodyKey row) bytes (svBodies sv)"
    and db: "hoDb (svHost ?out) = (hoDb (svHost sv))\<lparr>dbStoredFiles := AList.update (?m, ?n) row (dbStoredFiles (hoDb (svHost sv)))\<rparr>"
    using put_stored_effect [of env rt route path rq sv] False by blast
  have normal: "normalPath ?n" by (rule normalPath_normalizePath)
  have key: "srBodyKey row = storedFileKey ?m ?n" using uploads_key [OF assms up] .
  have dist: "distinct (map fst (dbStoredFiles (hoDb (svHost sv))))" using assms by (simp add: serverOk_def databaseOk_def)
  have "storedOk (svBodies ?out) (?m, ?n) row" using up normal by (simp add: storedOk_def key bodies uploads_def update_conv')
  moreover have "storedOk (svBodies ?out) k r" if "(k, r) \<in> set (dbStoredFiles (hoDb (svHost sv)))" "k \<noteq> (?m, ?n)" for k r
    using storedOk_other(1) [of "svBodies sv" k r ?n ?m bytes] that normal assms
    by (auto simp: bodies key serverOk_def list_all_iff)
  ultimately have "list_all (\<lambda>(k, r). storedOk (svBodies ?out) k r) (AList.update (?m, ?n) row (dbStoredFiles (hoDb (svHost sv))))"
    by (auto simp: list_all_iff update_entries [OF dist])
  then show ?thesis using assms by (simp add: serverOk_def db databaseOk_def distinct_update)
qed (simp add: assms)

lemma drop_ok:
  assumes "serverOk sv"
  shows "serverOk (fst (handleDeleteStoredFile rt mount path rq sv))" (is "serverOk ?out")
proof (cases "svHost ?out = svHost sv \<and> svBodies ?out = svBodies sv")
  case True
  then show ?thesis using assms by (simp add: serverOk_def)
next
  case False
  let ?n = "normalizePath path"
  obtain row where row: "storedRow mount ?n sv = Some row"
    and bodies: "svBodies ?out = AList.delete (srBodyKey row) (svBodies sv)"
    and db: "hoDb (svHost ?out) = (hoDb (svHost sv))\<lparr>dbStoredFiles := deleteWhere (\<lambda>k. k = (mount, ?n)) (dbStoredFiles (hoDb (svHost sv)))\<rparr>"
    using drop_stored_effect [of rt mount path rq sv] False by blast
  have key: "srBodyKey row = storedFileKey mount ?n" using serverOk_stored [OF assms row] by (simp add: storedOk_def)
  have "storedOk (svBodies ?out) k r" if "(k, r) \<in> set (dbStoredFiles (hoDb (svHost sv)))" "k \<noteq> (mount, ?n)" for k r
    using storedOk_other(2) [of "svBodies sv" k r ?n mount] that normalPath_normalizePath assms
    by (auto simp: bodies key serverOk_def list_all_iff)
  then show ?thesis
    using assms by (auto simp: serverOk_def db databaseOk_def list_all_iff deleteWhere_def distinct_map_filter)
qed

lemma recovery_ok:
  assumes "serverOk sv"
  shows "serverOk (fst (handleRecoveryRequest env rt locator rq sv))"
  using assms
  by (auto simp: handleRecoveryRequest_def Let_def serverOk_def case_prod_unfold stored_get get_ok immutable_ok split: option.splits)

lemma terminal_ok: "serverOk sv \<Longrightarrow> serverOk (fst (ioTerminal env rt route op m rq sv))"
  by (rule terminal_cases [of sv env rt route op m rq]) (simp_all add: read_ok write_ok delete_path_ok store_ok drop_ok)

lemma swept_ok: "serverOk sv \<Longrightarrow> serverOk (sweptBy env rt scope sv)"
  by (simp add: serverOk_def sweptBy_def maintenance_ok)

lemma metrics_ok: "serverOk sv \<Longrightarrow> serverOk (sv\<lparr>svHost := fst (opReconcileMetrics env mount root (svHost sv))\<rparr>)"
  by (simp add: serverOk_def reconcile_ok)

text \<open>What one step does, by the request that reaches a handler.\<close>

lemma step_cases:
  fixes rt :: "'b::size worker_runtime"
  assumes "wrMiddleware rt = authLayers acs"
  obtains (idle) "hostStep rt e sv = sv"
  | (io) mp env rq p op access route where "e = MountRequest mp env rq" "stripMountPrefix (rqPathname rq) mp = Some p" "startsWith p (IO_PREFIX @ ''/'')"
      "admittedIo env rt acs (rq\<lparr>rqPathname := p\<rparr>) op access route"
      "hostStep rt e sv = fst (ioTerminal env rt route op (toUpperCase (rqMethod rq)) (rq\<lparr>rqPathname := p\<rparr>) sv)"
  | (recovery) mp env rq p locator where "e = MountRequest mp env rq"
      "hostStep rt e sv = fst (handleRecoveryRequest env rt locator (rq\<lparr>rqPathname := p\<rparr>) sv)"
  | (metrics) env :: "'b worker_env" and mount root where "hostStep rt e sv = sv\<lparr>svHost := fst (opReconcileMetrics (weHost env) mount root (svHost sv))\<rparr>"
  | (sweep) env scope where "\<forall>mp env rq. e \<noteq> MountRequest mp env rq" "hostStep rt e sv = sweptBy env rt scope sv"
proof (cases e)
  case (MountRequest mp env rq)
  show thesis
  proof (rule mount_request [of mp env rt rq sv])
    fix p
    assume fetch: "stripMountPrefix (rqPathname rq) mp = Some p"
      "fst (withInterocitorFetch mp None env rt rq sv) = fst (workerFetch env rt (rq\<lparr>rqPathname := p\<rparr>) sv)"
    show thesis
      by (rule worker_fetch_cases [OF assms, of env "rq\<lparr>rqPathname := p\<rparr>" sv]) (use MountRequest fetch idle io recovery in auto)
  qed (use MountRequest idle in auto)
next
  case (SystemRequest mp env rq)
  show thesis by (rule system_request [of mp env rt rq sv]) (use SystemRequest idle metrics sweep in auto)
next
  case (Schedule env)
  then show thesis using idle sweep [of env None] by (cases "wrScheduledMaintenance rt") (auto simp: withInterocitorScheduled_def sweptBy_def)
qed

lemma step_ok:
  assumes "serverOk sv" "wrMiddleware rt = authLayers acs"
  shows "serverOk (hostStep rt e sv)"
  by (rule step_cases [OF assms(2), of e sv])
    (use assms(1) in \<open>auto simp: terminal_ok recovery_ok swept_ok metrics_ok\<close>)

lemma run_ok: "serverOk sv \<Longrightarrow> wrMiddleware rt = authLayers acs \<Longrightarrow> serverOk (runHost rt es sv)"
  by (induction es arbitrary: sv) (auto simp: step_ok)

lemma empty_ok: "serverOk (emptyServer c)"
  by (simp add: serverOk_def emptyServer_def emptyDatabase_def databaseOk_def)

lemma queryPath_normal [simp]: "normalizePath (queryPath rq) = queryPath rq"
  by (simp add: queryPath_def normalize_idem)

lemma queryPath_pathname [simp]: "queryPath (rq\<lparr>rqPathname := path\<rparr>) = queryPath rq"
  by (simp add: queryPath_def)

text \<open>The path lies at or below the one a request names.\<close>

definition namesPath :: "'b io_request \<Rightarrow> string \<Rightarrow> bool" where
  "namesPath rq q = (queryPath rq = ''/'' \<or> inSubtree (queryPath rq) q)"

lemma namesPath_self [simp]: "namesPath rq (queryPath rq)"
  by (simp add: namesPath_def inSubtree_def)

section \<open>Changes to stored files\<close>

definition storedContent :: "string \<Rightarrow> string \<Rightarrow> 'b server \<Rightarrow> (string option \<times> string \<times> 'b option) option" where
  "storedContent p q sv = map_option (\<lambda>r. (srSealGuard r, srEtag r, map_of (svBodies sv) (srBodyKey r))) (storedRow p q sv)"

lemma stored_same:
  "dbStoredFiles (hoDb (svHost sv')) = dbStoredFiles (hoDb (svHost sv)) \<Longrightarrow> svBodies sv' = svBodies sv \<Longrightarrow>
    storedContent p q sv' = storedContent p q sv"
  by (simp add: storedContent_def storedRow_def)

lemma unread_fields:
  "unread r = unread r' \<Longrightarrow>
    srSealGuard r = srSealGuard r' \<and> srEtag r = srEtag r' \<and> srBodyKey r = srBodyKey r' \<and> srSize r = srSize r'"
  by (cases r; cases r') (simp add: unread_def)

lemma stored_read:
  assumes "onlyRead sv sv'"
  shows "storedContent p q sv' = storedContent p q sv"
proof -
  let ?r = "storedRow p q"
  have "map_of (map (apsnd unread) t) k = map_option unread (map_of t k)" for t and k :: path_key by (induction t) auto
  then have "map_option unread (?r sv') = map_option unread (?r sv)"
    using assms unfolding onlyRead_def storedRow_def by metis
  then show ?thesis
    using assms by (cases "?r sv"; cases "?r sv'") (auto simp: storedContent_def onlyRead_def dest: unread_fields)
qed

lemma stored_write: "storedContent p q (fst (handleWriteFile env rt mount path rq sv)) = storedContent p q sv"
  by (rule stored_same) (use write_file_effect [of env rt mount path rq sv] in auto)

lemma stored_deletePath: "storedContent p q (fst (handleDelete env rt mount path rq sv)) = storedContent p q sv"
  by (rule stored_same) (use delete_file_effect [of env rt mount path rq sv] in auto)

lemma stored_elsewhere:
  assumes ok: "serverOk sv" and k: "(p, q) \<noteq> (m, n)" "normalPath n"
    and rows: "storedRow p q sv' = storedRow p q sv"
    and bodies: "svBodies sv' = AList.update (storedFileKey m n) b (svBodies sv) \<or> svBodies sv' = AList.delete (storedFileKey m n) (svBodies sv)"
  shows "storedContent p q sv' = storedContent p q sv"
proof (cases "storedRow p q sv")
  case (Some r)
  have "storedOk (svBodies sv) (p, q) r" using serverOk_stored [OF ok Some] .
  then have "srBodyKey r \<noteq> storedFileKey m n" using storedFileKey_inject [of q n p m] k by (auto simp: storedOk_def)
  then show ?thesis using bodies rows Some by (auto simp: storedContent_def update_conv' delete_conv')
qed (simp add: rows storedContent_def)

definition guardShown :: "'b io_request \<Rightarrow> string option \<Rightarrow> bool" where
  "guardShown rq stored = (case presentedSealGuard rq of Inl _ \<Rightarrow> False | Inr g \<Rightarrow> sealGuardMatches stored g)"

lemma stored_terminal:
  assumes ok: "serverOk sv" and changed: "storedContent p q (fst (ioTerminal env rt route op m rq sv)) \<noteq> storedContent p q sv"
  shows "p = mrCanonicalAddress route \<and> q = queryPath rq \<and> op = ''stored-file'' \<and> m \<in> {''PUT'', ''DELETE''} \<and>
    guardShown rq (Option.bind (storedRow p q sv) srSealGuard)"
proof (rule terminal_cases [of sv env rt route op m rq])
  let ?m = "mrCanonicalAddress route" and ?n = "normalizePath (queryPath rq)" and ?sv' = "fst (ioTerminal env rt route op m rq sv)"
  have normal: "normalPath ?n" by (rule normalPath_normalizePath)
  {
    assume h: "op = ''stored-file''" "m = ''PUT''" "?sv' = fst (handlePutStoredFile env rt route (queryPath rq) rq sv)"
    then obtain row bytes where up: "uploads rt ?m ?n rq sv row bytes"
      and bodies: "svBodies ?sv' = AList.update (srBodyKey row) bytes (svBodies sv)"
      and db: "hoDb (svHost ?sv') = (hoDb (svHost sv))\<lparr>dbStoredFiles := AList.update (?m, ?n) row (dbStoredFiles (hoDb (svHost sv)))\<rparr>"
      using put_stored_effect [of env rt route "queryPath rq" rq sv] changed by auto
    have "(p, q) = (?m, ?n)"
      using stored_elsewhere [OF ok _ normal, of p q ?m ?sv' bytes] changed
      by (cases "(p, q) = (?m, ?n)") (auto simp: bodies uploads_key [OF ok up] storedRow_def db update_conv')
    then show ?thesis using h up by (auto simp: uploads_def guardShown_def)
  next
    assume h: "op = ''stored-file''" "m = ''DELETE''" "?sv' = fst (handleDeleteStoredFile rt ?m (queryPath rq) rq sv)"
    then obtain row guard where row: "storedRow ?m ?n sv = Some row"
      and guard: "presentedSealGuard rq = Inr guard" "sealGuardMatches (srSealGuard row) guard"
      and bodies: "svBodies ?sv' = AList.delete (srBodyKey row) (svBodies sv)"
      and db: "hoDb (svHost ?sv') = (hoDb (svHost sv))
        \<lparr>dbStoredFiles := deleteWhere (\<lambda>k. k = (?m, ?n)) (dbStoredFiles (hoDb (svHost sv)))\<rparr>"
      using drop_stored_effect [of rt ?m "queryPath rq" rq sv] changed stored_same [of ?sv' sv p q] by auto
    have key: "srBodyKey row = storedFileKey ?m ?n" using serverOk_stored [OF ok row] by (simp add: storedOk_def)
    have "(p, q) = (?m, ?n)"
      using stored_elsewhere [OF ok _ normal, of p q ?m ?sv'] changed
      by (cases "(p, q) = (?m, ?n)") (auto simp: bodies key storedRow_def db)
    then show ?thesis using h guard row by (auto simp: guardShown_def)
  }
qed (use changed in \<open>simp_all add: stored_read stored_write stored_deletePath\<close>)

section \<open>Concrete hosts\<close>

definition demoWorkerEnv :: "string worker_env" where
  "demoWorkerEnv = \<lparr>weHost = demoHostEnv, weHmac = (\<lambda>_ _. []), weParseDate = (\<lambda>_. NaN), weUuid = ''u'', weRandom = [],
     weEncode = (\<lambda>_. ''''), weRelay = (\<lambda>_ _. textReply '''' 200), weBodyEtag = (\<lambda>_ _. '''')\<rparr>"

definition demoRuntime :: "string worker_runtime" where
  "demoRuntime = \<lparr>wrResolver = None, wrGates = Some [Some (\<lambda>_ _ _. Inr (JBool True))], wrMiddleware = authLayers [],
     wrScheduledMaintenance = True, wrPathTtlHours = Num 1, wrMaxControlBytes = 9, wrMaxChangeBytes = 9, wrMaxMainlineBytes = 9,
     wrMaxGenericFileBytes = 9, wrMaxStoredFileBytes = 9, wrMaxMeshStoredBytes = 9, wrAuthorizeUpload = None, wrAudit = False,
     wrMeshSecret = ''s'', wrRelay = False, wrFiles = True, wrCors = None\<rparr>"

definition demoRequest :: "string \<Rightarrow> string \<Rightarrow> string \<Rightarrow> string option \<Rightarrow> string io_request" where
  "demoRequest method pathname body guard =
     \<lparr>rqMethod = method, rqPathname = pathname, rqQueryPath = Some ''/f'', rqJson = Inr JNull, rqBody = Some body, rqDeviceId = Some ''d'',
      rqSealGuard = guard, rqOrigin = None, rqUpgrade = None, rqRequestId = None\<rparr>"

definition demoGuard :: string where
  "demoGuard = replicate 64 (CHR ''a'')"

definition demoStored :: stored_file_row where
  "demoStored = \<lparr>srBodyKey = storedFileKey ''m'' ''/f'', srSize = 1, srSealGuard = Some demoGuard, srUploadedByDeviceId = ''d'',
     srUploadedAt = '''', srModifiedTime = '''', srLastAccessedAt = None, srUseCount = 0, srEtag = ''e''\<rparr>"

definition demoServer :: "string server" where
  "demoServer = \<lparr>svHost = \<lparr>hoDb = emptyDatabase\<lparr>dbStoredFiles := [((''m'', ''/f''), demoStored)]\<rparr>, hoCache = None\<rparr>,
     svBodies = [(storedFileKey ''m'' ''/f'', ''x'')], svAudit = [], svBroadcasts = []\<rparr>"

lemma demo_ok: "serverOk demoServer"
  by code_simp

lemma demo_delete:
  "storedRow ''m'' ''/f'' (hostStep demoRuntime (MountRequest '''' demoWorkerEnv
     (demoRequest ''DELETE'' ''/io/m/stored-file'' '''' (Some demoGuard))) demoServer) = None"
  by code_simp

text \<open>C9: Starting from an empty host, whatever requests, system requests and sweeps arrive in whatever
  order, the state is well formed: primary keys are unique, every file has a normalised path and the
  recorded size of its content, no counter is negative, and every stored file has its body, of the
  recorded size, under the key of its own mesh and path.
\<close>

theorem host_state_well_formed:
  assumes "wrMiddleware rt = authLayers acs"
  shows "serverOk (runHost rt es (emptyServer c))"
  using run_ok [OF empty_ok assms] .

theorem host_state_well_formed_witness:
  "serverOk (runHost demoRuntime [MountRequest '''' demoWorkerEnv (demoRequest ''PUT'' ''/io/m/file'' ''x'' None), Schedule demoWorkerEnv]
     (emptyServer None))"
  by (rule host_state_well_formed [where acs = "[]"]) (simp add: demoRuntime_def)

lemma stored_step:
  assumes ok: "serverOk sv" and auth: "wrMiddleware rt = authLayers acs"
    and changed: "storedContent p q (hostStep rt e sv) \<noteq> storedContent p q sv"
  obtains mp env rq path route where "e = MountRequest mp env rq" "stripMountPrefix (rqPathname rq) mp = Some path" "startsWith path (IO_PREFIX @ ''/'')" "q = queryPath rq"
    "admittedIo env rt acs (rq\<lparr>rqPathname := path\<rparr>) ''stored-file'' WriteAccess route" "p = mrCanonicalAddress route"
    "guardShown rq (Option.bind (storedRow p q sv) srSealGuard)"
proof (rule step_cases [OF auth, of e sv])
  fix mp env rq path op access route
  assume h: "e = MountRequest mp env rq" "admittedIo env rt acs (rq\<lparr>rqPathname := path\<rparr>) op access route"
    and strip: "stripMountPrefix (rqPathname rq) mp = Some path" "startsWith path (IO_PREFIX @ ''/'')" and run: "hostStep rt e sv = fst (ioTerminal env rt route op (toUpperCase (rqMethod rq)) (rq\<lparr>rqPathname := path\<rparr>) sv)"
  note t = stored_terminal [OF ok, of p q env rt route op "toUpperCase (rqMethod rq)" "rq\<lparr>rqPathname := path\<rparr>"]
  from changed run have t': "p = mrCanonicalAddress route" "q = queryPath rq" "op = ''stored-file''" "toUpperCase (rqMethod rq) \<in> {''PUT'', ''DELETE''}"
    "guardShown (rq\<lparr>rqPathname := path\<rparr>) (Option.bind (storedRow p q sv) srSealGuard)" using t by auto
  have "access = WriteAccess" using h(2) t'(3,4) by (auto simp: admittedIo_def ioRequestAccess_def)
  then show thesis
    using that [OF h(1) strip] h(2) t' by (simp add: guardShown_def presentedSealGuard_def)
next
  fix mp env rq path locator
  assume "hostStep rt e sv = fst (handleRecoveryRequest env rt locator (rq\<lparr>rqPathname := path\<rparr>) sv)"
  moreover have "storedContent p q (fst (handleRecoveryRequest env rt locator rq' sv)) = storedContent p q sv" for rq'
    by (rule stored_same)
      (auto simp: handleRecoveryRequest_def Let_def case_prod_unfold stored_get split: option.splits)
  ultimately show thesis using changed by simp
qed (use changed in \<open>auto simp: sweptBy_def storedContent_def storedRow_def\<close>)

text \<open>C10: A sealed file is replaced or removed only by a request that presents its guard: whatever event
  reaches a well-formed host, if the guard, the entity tag or the bytes of a file stored with a guard
  change, the event is a request whose seal-guard header is that guard.
\<close>

theorem sealed_file_needs_guard:
  assumes "serverOk sv" "wrMiddleware rt = authLayers acs"
    and "storedRow p q sv = Some r" "srSealGuard r = Some g" "g \<noteq> ''''"
    and "storedContent p q (hostStep rt e sv) \<noteq> storedContent p q sv"
  shows "\<exists>mp env rq. e = MountRequest mp env rq \<and> presentedSealGuard rq = Inr (Some g)"
proof (rule stored_step [OF assms(1,2,6)])
  fix mp env rq path route
  assume h: "e = MountRequest mp env rq" "guardShown rq (Option.bind (storedRow p q sv) srSealGuard)"
  then have "presentedSealGuard rq = Inr (Some g)"
    using assms(3-5)
    by (auto simp: guardShown_def sealGuardMatches_def sameInConstantTime_iff split: sum.splits option.splits)
  then show ?thesis using h(1) by blast
qed

theorem sealed_file_needs_guard_witness:
  "\<exists>mp env rq. MountRequest '''' demoWorkerEnv (demoRequest ''DELETE'' ''/io/m/stored-file'' '''' (Some demoGuard)) = MountRequest mp env rq \<and>
     presentedSealGuard rq = Inr (Some demoGuard)"
proof (rule sealed_file_needs_guard [of demoServer demoRuntime "[]" "''m''" "''/f''" demoStored])
  show "storedContent ''m'' ''/f'' (hostStep demoRuntime (MountRequest '''' demoWorkerEnv
      (demoRequest ''DELETE'' ''/io/m/stored-file'' '''' (Some demoGuard))) demoServer) \<noteq> storedContent ''m'' ''/f'' demoServer"
    using demo_delete by (simp add: storedContent_def) (simp add: storedRow_def demoServer_def emptyDatabase_def)
qed (rule demo_ok, simp_all add: demoRuntime_def storedRow_def demoServer_def demoStored_def demoGuard_def emptyDatabase_def)

section \<open>Changes to files\<close>

definition rewritable :: "path_type \<Rightarrow> bool" where
  "rewritable pt = (pt \<in> {ManifestPointer, Head, DeviceHeartbeat})"

lemma putByType_row:
  "fileRow p q (fst (putByType env mount path bytes h)) = fileRow p q h \<or>
     p = mount \<and> q = normalizePath path \<and> (fileRow p q h = None \<or> rewritable (classifyPath path))"
  by (auto simp: putByType_def Let_def fileRow_semantic fileRow_overwrite fileRow_immutable rewritable_def)

lemma fileRow_same: "dbFiles (hoDb h') = dbFiles (hoDb h) \<Longrightarrow> fileRow p q h' = fileRow p q h"
  by (simp add: fileRow_def)

lemma file_terminal:
  assumes changed: "fileRow p q (svHost (fst (ioTerminal env rt route op m rq sv))) \<noteq> fileRow p q (svHost sv)"
  shows "p = mrCanonicalAddress route \<and> namesPath rq q \<and> op = ''file'' \<and>
    (m = ''PUT'' \<and> (fileRow p q (svHost sv) = None \<or> rewritable (classifyPath q)) \<or>
     m = ''DELETE'' \<and> fileRow p q (svHost (fst (ioTerminal env rt route op m rq sv))) = None)"
proof (rule terminal_cases [of sv env rt route op m rq])
  assume "op = ''file''" "m = ''PUT''"
    "fst (ioTerminal env rt route op m rq sv) = fst (handleWriteFile env rt (mrCanonicalAddress route) (queryPath rq) rq sv)"
  then show ?thesis
    using changed write_file_effect [of env rt "mrCanonicalAddress route" "queryPath rq" rq sv]
      putByType_row [of p q "weHost env" "mrCanonicalAddress route" "queryPath rq" _ "svHost sv"] by fastforce
next
  assume "op = ''file''" "m = ''DELETE''"
    "fst (ioTerminal env rt route op m rq sv) = fst (handleDelete env rt (mrCanonicalAddress route) (queryPath rq) rq sv)"
  then show ?thesis
    using changed delete_file_effect [of env rt "mrCanonicalAddress route" "queryPath rq" rq sv]
    by (auto simp: fileRow_delete namesPath_def split: if_splits)
next
  assume "fst (ioTerminal env rt route op m rq sv) = fst (handlePutStoredFile env rt route (queryPath rq) rq sv)"
  then show ?thesis using changed put_stored_effect [of env rt route "queryPath rq" rq sv] by (auto simp: fileRow_def)
next
  assume "fst (ioTerminal env rt route op m rq sv) = fst (handleDeleteStoredFile rt (mrCanonicalAddress route) (queryPath rq) rq sv)"
  then show ?thesis
    using changed drop_stored_effect [of rt "mrCanonicalAddress route" "queryPath rq" rq sv] by (auto simp: fileRow_def)
qed (use changed in \<open>auto simp: onlyRead_def fileRow_def\<close>)

text \<open>A recovery request writes a wrapper only where there is none, and only in the recovery storage.\<close>

lemma file_recovery:
  "fileRow p q (svHost (fst (handleRecoveryRequest env rt locator rq sv))) = fileRow p q (svHost sv) \<or>
     p = RECOVERY_STORAGE_PREFIX \<and> fileRow p q (svHost sv) = None"
  by (auto simp: handleRecoveryRequest_def Let_def case_prod_unfold fileRow_immutable split: option.splits)






lemma file_step:
  assumes auth: "wrMiddleware rt = authLayers acs"
    and changed: "fileRow p q (svHost (hostStep rt (MountRequest mp env rq) sv)) \<noteq> fileRow p q (svHost sv)"
  obtains (io) path route where "stripMountPrefix (rqPathname rq) mp = Some path" "startsWith path (IO_PREFIX @ ''/'')" "namesPath rq q"
    "admittedIo env rt acs (rq\<lparr>rqPathname := path\<rparr>) ''file'' WriteAccess route" "p = mrCanonicalAddress route"
  | (recovery) "p = RECOVERY_STORAGE_PREFIX" "fileRow p q (svHost sv) = None"
proof (rule step_cases [OF auth, of "MountRequest mp env rq" sv])
  fix mp' env' rq' path op access route
  assume h: "MountRequest mp env rq = MountRequest mp' env' rq'" "admittedIo env' rt acs (rq'\<lparr>rqPathname := path\<rparr>) op access route"
    and strip: "stripMountPrefix (rqPathname rq') mp' = Some path" "startsWith path (IO_PREFIX @ ''/'')" and run: "hostStep rt (MountRequest mp env rq) sv = fst (ioTerminal env' rt route op (toUpperCase (rqMethod rq')) (rq'\<lparr>rqPathname := path\<rparr>) sv)"
  have t: "p = mrCanonicalAddress route" "namesPath rq' q" "op = ''file''" "toUpperCase (rqMethod rq') = ''PUT'' \<or> toUpperCase (rqMethod rq') = ''DELETE''"
    using changed file_terminal [of p q env' rt route op "toUpperCase (rqMethod rq')" "rq'\<lparr>rqPathname := path\<rparr>" sv] unfolding run by (auto simp: namesPath_def)
  have "access = WriteAccess" using h(2) t(3,4) by (auto simp: admittedIo_def ioRequestAccess_def)
  then show thesis using io h(1,2) strip t by auto
next
  fix mp' env' rq' path locator
  assume "hostStep rt (MountRequest mp env rq) sv = fst (handleRecoveryRequest env' rt locator (rq'\<lparr>rqPathname := path\<rparr>) sv)"
  then show thesis using changed recovery file_recovery [of p q env' rt locator "rq'\<lparr>rqPathname := path\<rparr>" sv] by auto
qed (use changed in auto)

text \<open>C8: The contents of a mesh change by a request only if that very request was admitted for exactly that
  mesh with write access and every authorization layer, given the request, let the write through: the
  request's path below the mount is an operation on the mesh whose presented address, as it stands in
  the path, resolves to the mesh that changed, and the file that changed is at or below the path in the
  request's query. The recovery storage is no mesh.
\<close>

theorem mesh_change_is_authorized:
  assumes "serverOk sv" "wrMiddleware rt = authLayers acs" "p \<noteq> RECOVERY_STORAGE_PREFIX"
    and "fileRow p q (svHost (hostStep rt (MountRequest mp env rq) sv)) \<noteq> fileRow p q (svHost sv) \<or>
      storedContent p q (hostStep rt (MountRequest mp env rq) sv) \<noteq> storedContent p q sv"
  shows "\<exists>path op route. stripMountPrefix (rqPathname rq) mp = Some path \<and> startsWith path (IO_PREFIX @ ''/'')
    \<and> admittedIo env rt acs (rq\<lparr>rqPathname := path\<rparr>) op WriteAccess route \<and> mrCanonicalAddress route = p \<and> namesPath rq q"
  using assms(4)
proof
  assume "fileRow p q (svHost (hostStep rt (MountRequest mp env rq) sv)) \<noteq> fileRow p q (svHost sv)"
  from assms(2) this show ?thesis by (rule file_step) (use assms(3) in auto)
next
  assume "storedContent p q (hostStep rt (MountRequest mp env rq) sv) \<noteq> storedContent p q sv"
  from assms(1,2) this show ?thesis by (rule stored_step) auto
qed

definition deviceOnly :: "string authorizer" where
  "deviceOnly ctx rq = Inr (JStr (if rqDeviceId rq = Some ''d'' then ''full'' else ''readonly''))"

definition guardedRuntime :: "string worker_runtime" where
  "guardedRuntime = demoRuntime\<lparr>wrMiddleware := authLayers [(deviceOnly, True)]\<rparr>"

definition demoDelete :: "string io_request" where
  "demoDelete = demoRequest ''DELETE'' ''/mesh/io/m/stored-file'' '''' (Some demoGuard)"

lemma guarded_delete: "storedRow ''m'' ''/f'' (hostStep guardedRuntime (MountRequest ''/mesh'' demoWorkerEnv demoDelete) demoServer) = None"
  by code_simp

theorem mesh_change_is_authorized_witness:
  "\<exists>route. admittedIo demoWorkerEnv guardedRuntime [(deviceOnly, True)] (demoDelete\<lparr>rqPathname := ''/io/m/stored-file''\<rparr>)
     ''stored-file'' WriteAccess route \<and> mrCanonicalAddress route = ''m'' \<and> namesPath demoDelete ''/f''"
proof -
  have "storedContent ''m'' ''/f'' (hostStep guardedRuntime (MountRequest ''/mesh'' demoWorkerEnv demoDelete) demoServer)
      \<noteq> storedContent ''m'' ''/f'' demoServer"
    using guarded_delete by (simp add: storedContent_def) (simp add: storedRow_def demoServer_def emptyDatabase_def)
  then obtain path op route where h: "stripMountPrefix (rqPathname demoDelete) ''/mesh'' = Some path"
    "admittedIo demoWorkerEnv guardedRuntime [(deviceOnly, True)] (demoDelete\<lparr>rqPathname := path\<rparr>) op WriteAccess route"
    "mrCanonicalAddress route = ''m''" "namesPath demoDelete ''/f''"
    using mesh_change_is_authorized [of demoServer guardedRuntime "[(deviceOnly, True)]" "''m''" "''/f''" "''/mesh''" demoWorkerEnv demoDelete]
    by (auto simp: demo_ok guardedRuntime_def RECOVERY_STORAGE_PREFIX_def)
  moreover have "stripMountPrefix (rqPathname demoDelete) ''/mesh'' = Some ''/io/m/stored-file''" by code_simp
  moreover have "parseIo ''/io/m/stored-file'' = Inr (''m'', ''stored-file'')" by code_simp
  ultimately show ?thesis by (auto simp: admittedIo_def)
qed

section \<open>Recovery wrappers\<close>

fun isMountRequest :: "'b host_event \<Rightarrow> bool" where
  "isMountRequest (MountRequest mp env rq) = True"
| "isMountRequest e = False"

text \<open>No idle time is configured: sweeps delete nothing.\<close>

definition neverSweeps :: "'b worker_runtime \<Rightarrow> bool" where
  "neverSweeps rt = (case wrPathTtlHours rt of Num hours \<Rightarrow> hours \<le> 0 | NaN \<Rightarrow> True)"

lemma swept_nothing: "neverSweeps rt \<Longrightarrow> sweptBy env rt scope sv = sv"
  by (auto simp: neverSweeps_def sweptBy_def runMaintenance_def split: jnum.splits)

lemma recovery_step:
  assumes "wrMiddleware rt = authLayers acs" "isMountRequest e \<or> neverSweeps rt"
    "fileRow RECOVERY_STORAGE_PREFIX q (svHost sv) = Some row"
  shows "fileRow RECOVERY_STORAGE_PREFIX q (svHost (hostStep rt e sv)) = Some row"
proof (cases e)
  case (MountRequest mp env rq)
  show ?thesis
  proof (rule ccontr)
    assume "\<not> ?thesis"
    then have "fileRow RECOVERY_STORAGE_PREFIX q (svHost (hostStep rt e sv)) \<noteq> fileRow RECOVERY_STORAGE_PREFIX q (svHost sv)"
      using assms(3) by simp
    from assms(1) this [unfolded MountRequest] show False
      by (rule file_step) (use assms(3) in \<open>auto simp: admittedIo_def dest: admitted_not_reserved\<close>)
  qed
next
  case (SystemRequest mp env rq)
  then have "neverSweeps rt" using assms(2) by simp
  with SystemRequest assms(3) show ?thesis
    by (cases rule: system_request [of mp env rt rq sv]) (auto simp: swept_nothing)
next
  case (Schedule env)
  then have "neverSweeps rt" using assms(2) by simp
  with Schedule assms(3) swept_nothing [OF this, of env None sv] show ?thesis
    by (auto simp: withInterocitorScheduled_def sweptBy_def)
qed

lemma recovery_run:
  assumes "wrMiddleware rt = authLayers acs" "list_all isMountRequest es \<or> neverSweeps rt"
    "fileRow RECOVERY_STORAGE_PREFIX q (svHost sv) = Some row"
  shows "fileRow RECOVERY_STORAGE_PREFIX q (svHost (runHost rt es sv)) = Some row"
  using assms(2,3)
proof (induction es arbitrary: sv)
  case (Cons e es)
  have "fileRow RECOVERY_STORAGE_PREFIX q (svHost (hostStep rt e sv)) = Some row"
    by (rule recovery_step [OF assms(1)]) (use Cons.prems in auto)
  then show ?case using Cons by auto
qed simp

lemma emptyResponse_status [simp]: "rpStatus (emptyResponse s) = s"
  by (simp add: emptyResponse_def withCors_def)

lemma immutable_wrote: "prWrote (snd (opPutImmutable env mount path bytes pt root h)) \<longleftrightarrow> fileRow mount (normalizePath path) h = None"
  by (simp add: opPutImmutable_def Let_def)

lemma recovery_put:
  assumes "rqMethod rq = ''PUT''" "rqBody rq = Some bytes" "rpStatus (snd (handleRecoveryRequest env rt loc rq sv)) = 201"
  shows "isRecoveryLocator loc"
    "fileRow RECOVERY_STORAGE_PREFIX (normalizePath (recoveryPath loc)) (svHost (fst (handleRecoveryRequest env rt loc rq sv))) =
       Some (newFileRow (weHost env) bytes)"
  using assms
  by (auto simp: handleRecoveryRequest_def Let_def case_prod_unfold errorReply_def limitReply_def jsonResponse_def withCors_def
      fileRow_immutable immutable_wrote split: if_splits)

text \<open>C25: A recovery wrapper that was accepted is what every later reader of its locator gets. On a host
  without an idle time, which is the default, this holds whatever events come in between: requests to this
  mesh, to others and to the same locator, system requests and scheduled sweeps. On a host with an idle
  time it holds as long as only requests come in between, since a sweep, scheduled or asked for by a
  system request, can delete the wrappers.
\<close>

theorem recovery_wrapper_kept:
  assumes "wrMiddleware rt = authLayers acs"
    and "rqMethod put = ''PUT''" "rqBody put = Some bytes" "rpStatus (snd (handleRecoveryRequest env rt loc put sv)) = 201"
    and "list_all isMountRequest es \<or> neverSweeps rt" "rqMethod get = ''GET''"
  shows "snd (handleRecoveryRequest env' rt loc get (runHost rt es (fst (handleRecoveryRequest env rt loc put sv)))) =
    bytesReply ''application/json; charset=utf-8'' [] bytes"
  using recovery_put [OF assms(2-4)] recovery_run [OF assms(1,5) recovery_put(2) [OF assms(2-4)]] assms(6)
  by (simp add: handleRecoveryRequest_def opGetFile_def isCacheable_def newFileRow_def Let_def)

definition keepingRuntime :: "string worker_runtime" where
  "keepingRuntime = demoRuntime\<lparr>wrPathTtlHours := NaN\<rparr>"

theorem recovery_wrapper_kept_witness:
  "snd (handleRecoveryRequest demoWorkerEnv keepingRuntime (replicate 43 (CHR ''a'')) (demoRequest ''GET'' '''' '''' None)
     (runHost keepingRuntime [MountRequest '''' demoWorkerEnv (demoRequest ''PUT'' (''/recovery/'' @ replicate 43 (CHR ''a'')) ''y'' None),
          Schedule demoWorkerEnv, SystemRequest '''' demoWorkerEnv (demoRequest ''POST'' ''/system/m/run-maintenance'' '''' None)]
       (fst (handleRecoveryRequest demoWorkerEnv keepingRuntime (replicate 43 (CHR ''a'')) (demoRequest ''PUT'' '''' ''x'' None) demoServer)))) =
   bytesReply ''application/json; charset=utf-8'' [] ''x''"
proof (rule recovery_wrapper_kept [where acs = "[]"])
  show "rpStatus (snd (handleRecoveryRequest demoWorkerEnv keepingRuntime (replicate 43 (CHR ''a'')) (demoRequest ''PUT'' '''' ''x'' None)
      demoServer)) = 201" by code_simp
qed (simp_all add: keepingRuntime_def neverSweeps_def demoRuntime_def demoRequest_def)

text \<open>
  Reading a wrapper touches the bookkeeping row of the root \<open>/wrappers\<close>, which no write of a wrapper
  ever does, so the row counts as idle from the first read on: once the idle time has passed, a sweep
  of all meshes deletes the wrappers of every mesh.
\<close>

lemma noDoubleSlash_free: "CHR ''/'' \<notin> set s \<Longrightarrow> noDoubleSlash s"
  by (induction s) auto

lemma wrapper_path:
  assumes "isRecoveryLocator loc"
  shows "normalizePath (recoveryPath loc) = recoveryPath loc" "meshRootForPath (recoveryPath loc) OtherPath = Some ''/wrappers''"
proof -
  have "\<not> isUrlKeyChar (CHR ''/'')" by (simp add: isUrlKeyChar_def)
  then have slash: "CHR ''/'' \<notin> set loc" using assms by (auto simp: isRecoveryLocator_def list_all_iff)
  have ne: "loc \<noteq> ''''" using assms by (auto simp: isRecoveryLocator_def)
  have "noDoubleSlash (loc @ ''.json'')" using slash by (intro noDoubleSlash_free) auto
  moreover have "hd (loc @ ''.json'') \<noteq> CHR ''/''" using slash ne by (cases loc) auto
  ultimately have "normalPath (recoveryPath loc)"
    by (simp add: normalPath_def recoveryPath_def startsWith_slash)
  then show "normalizePath (recoveryPath loc) = recoveryPath loc" by (rule normalize_id)
  have "jsplit (CHR ''/'') (loc @ ''.json'') = [loc @ ''.json'']" using slash by (intro jsplit_no_sep) auto
  then show "meshRootForPath (recoveryPath loc) OtherPath = Some ''/wrappers''"
    by (simp add: recoveryPath_def meshRootForPath_def rootedPath_def startsWith_slash MESH_CHILD_TYPES_def Let_def)
qed

lemma wrapper_evicted: "evictedBy m ''/wrappers'' (m, recoveryPath loc)"
  using like_refl [of "''/wrappers/''" "loc @ ''.json''"] by (simp add: evictedBy_def recoveryPath_def)

lemma recovery_wrappers_swept:
  assumes loc: "isRecoveryLocator loc" and row: "fileRow RECOVERY_STORAGE_PREFIX (recoveryPath loc) h = Some row"
    and fresh: "map_of (dbMeshPaths (hoDb h)) (RECOVERY_STORAGE_PREFIX, ''/wrappers'') = None"
    and idle: "0 < hours" "nowIso env \<noteq> ''''" "nowIso env \<le> heIso env' (heNow env' - hours * 3600000)"
  defines "h' \<equiv> fst (opGetFile env RECOVERY_STORAGE_PREFIX (recoveryPath loc) OtherPath h)"
  shows "map_of (dbFiles (fst (runMaintenance env' (Num hours) None (hoDb h')))) (RECOVERY_STORAGE_PREFIX, recoveryPath loc') = None"
proof -
  let ?k = "(RECOVERY_STORAGE_PREFIX, ''/wrappers'')"
  let ?m = "touchMeshPath noMetrics (nowIso env) (Some (nowIso env)) None (Some (nowIso env)) (newMeshPath (nowIso env))"
  have "map_of (dbMeshPaths (hoDb h')) ?k = Some ?m"
    using row fresh by (simp add: h'_def opGetFile_def isCacheable_def wrapper_path [OF loc] meshDeltaStatements_def Let_def)
  then have "(?k, ?m) \<in> set (sweepCandidates env' hours None (hoDb h'))"
    using idle
    by (auto simp: sweepCandidates_def scopedTo_def ttlThreshold_def ttlCandidate_def idleSince_def touchMeshPath_def coalesce_def
        newMeshPath_def Let_def dest: map_of_SomeD)
  then show ?thesis
    using wrapper_evicted by (auto simp: sweep_fold [OF idle(1)] files_sweep)
qed

section \<open>The storage quota\<close>

definition usageOf :: "string \<Rightarrow> (path_key \<times> stored_file_row) list \<Rightarrow> int" where
  "usageOf mount t = (\<Sum>(k, r) \<leftarrow> t. if fst k = mount then srSize r else 0)"

lemma usage_fold: "fst (currentStoredUsage mount sv) = usageOf mount (dbStoredFiles (hoDb (svHost sv)))"
proof -
  have "(\<Sum>(k, r) \<leftarrow> filter (\<lambda>(k, r). fst k = mount) t. srSize r) = usageOf mount t" for t
    by (induction t) (auto simp: usageOf_def)
  then show ?thesis by (simp add: currentStoredUsage_def storedRows_def)
qed

lemma usage_update:
  "usageOf p (AList.update k v t) =
     usageOf p t + (if fst k = p then srSize v - (case map_of t k of None \<Rightarrow> 0 | Some r \<Rightarrow> srSize r) else 0)"
  by (induction t) (auto simp: usageOf_def)

lemma usage_delete: "list_all (\<lambda>(k, r). 0 \<le> srSize r) t \<Longrightarrow> usageOf p (deleteWhere P t) \<le> usageOf p t"
proof (induction t)
  case (Cons kr t)
  obtain k r where "kr = (k, r)" by fastforce
  then show ?case using Cons by (cases "P k"; cases "fst k = p") (auto simp: usageOf_def deleteWhere_def)
qed (simp add: deleteWhere_def)

lemma usage_read:
  assumes "onlyRead sv sv'"
  shows "fst (currentStoredUsage p sv') = fst (currentStoredUsage p sv)"
proof -
  have "usageOf p (map (apsnd unread) t) = usageOf p t" for t by (induction t) (auto simp: usageOf_def unread_def)
  then show ?thesis using assms unfolding onlyRead_def usage_fold by metis
qed

lemma usage_same:
  "dbStoredFiles (hoDb (svHost sv')) = dbStoredFiles (hoDb (svHost sv)) \<Longrightarrow>
    fst (currentStoredUsage p sv') = fst (currentStoredUsage p sv)"
  by (simp add: usage_fold)

lemma sizes_nonneg: "serverOk sv \<Longrightarrow> list_all (\<lambda>(k, r). 0 \<le> srSize r) (dbStoredFiles (hoDb (svHost sv)))"
  by (auto simp: serverOk_def storedOk_def list_all_iff)

lemma usage_terminal:
  assumes ok: "serverOk sv"
  shows "fst (currentStoredUsage p (fst (ioTerminal env rt route op m rq sv))) \<le> max (fst (currentStoredUsage p sv)) (wrMaxMeshStoredBytes rt)"
proof (rule terminal_cases [of sv env rt route op m rq])
  let ?sv' = "fst (ioTerminal env rt route op m rq sv)"
  assume "?sv' = fst (handlePutStoredFile env rt route (queryPath rq) rq sv)"
  then show ?thesis
    using put_stored_effect [of env rt route "queryPath rq" rq sv] by (auto simp: usage_fold usage_update uploads_def storedRow_def)
next
  assume "fst (ioTerminal env rt route op m rq sv) = fst (handleDeleteStoredFile rt (mrCanonicalAddress route) (queryPath rq) rq sv)"
  then show ?thesis
    using drop_stored_effect [of rt "mrCanonicalAddress route" "queryPath rq" rq sv] usage_delete [OF sizes_nonneg [OF ok]]
    by (auto simp: usage_fold le_max_iff_disj)
next
  assume "fst (ioTerminal env rt route op m rq sv) = fst (handleWriteFile env rt (mrCanonicalAddress route) (queryPath rq) rq sv)"
  then show ?thesis
    using write_file_effect [of env rt "mrCanonicalAddress route" "queryPath rq" rq sv] by (auto simp: usage_fold)
next
  assume "fst (ioTerminal env rt route op m rq sv) = fst (handleDelete env rt (mrCanonicalAddress route) (queryPath rq) rq sv)"
  then show ?thesis
    using delete_file_effect [of env rt "mrCanonicalAddress route" "queryPath rq" rq sv] by (auto simp: usage_fold)
qed (simp add: usage_read)

lemma usage_step:
  assumes ok: "serverOk sv" and auth: "wrMiddleware rt = authLayers acs"
  shows "fst (currentStoredUsage p (hostStep rt e sv)) \<le> max (fst (currentStoredUsage p sv)) (wrMaxMeshStoredBytes rt)"
proof (rule step_cases [OF auth, of e sv])
  fix mp env rq path locator
  assume "hostStep rt e sv = fst (handleRecoveryRequest env rt locator (rq\<lparr>rqPathname := path\<rparr>) sv)"
  moreover have "dbStoredFiles (hoDb (svHost (fst (handleRecoveryRequest env rt locator rq' sv)))) = dbStoredFiles (hoDb (svHost sv))" for rq'
    by (auto simp: handleRecoveryRequest_def Let_def case_prod_unfold stored_get split: option.splits)
  ultimately show ?thesis by (simp add: usage_fold)
qed (use usage_terminal [OF ok] in \<open>auto simp: usage_fold sweptBy_def\<close>)

text \<open>C24: The stored files of a mesh never exceed its quota: from an empty host, after any events, the
  total of the recorded sizes, which are the sizes of the bodies, is at most the configured maximum.
\<close>

theorem stored_usage_bounded:
  assumes "wrMiddleware rt = authLayers acs" "0 \<le> wrMaxMeshStoredBytes rt"
  shows "fst (currentStoredUsage p (runHost rt es (emptyServer c))) \<le> wrMaxMeshStoredBytes rt"
proof -
  have "fst (currentStoredUsage p (runHost rt es sv)) \<le> max (fst (currentStoredUsage p sv)) (wrMaxMeshStoredBytes rt)" if "serverOk sv" for sv
    using that
  proof (induction es arbitrary: sv)
    case (Cons e es)
    show ?case using Cons.IH [OF step_ok [OF Cons.prems assms(1)], of e] usage_step [OF Cons.prems assms(1), of p e] by simp
  qed simp
  from this [OF empty_ok, of c] show ?thesis
    using assms(2) by (simp add: currentStoredUsage_def storedRows_def emptyServer_def emptyDatabase_def)
qed

theorem stored_usage_bounded_witness:
  "fst (currentStoredUsage ''m'' (runHost demoRuntime
     [MountRequest '''' demoWorkerEnv (demoRequest ''PUT'' ''/io/m/stored-file'' ''xyz'' None)] (emptyServer None))) \<le> wrMaxMeshStoredBytes demoRuntime"
  by (rule stored_usage_bounded [where acs = "[]"]) (simp_all add: demoRuntime_def)

section \<open>The manifest pointer\<close>

fun putDocs :: "string \<Rightarrow> string \<Rightarrow> ('b::size host_env \<times> 'b) list \<Rightarrow> 'b host \<Rightarrow> 'b host" where
  "putDocs mount path [] h = h"
| "putDocs mount path ((env, bytes) # docs) h = putDocs mount path docs (fst (putByType env mount path bytes h))"

definition genOf :: "('b \<Rightarrow> jsval result) \<Rightarrow> 'b \<Rightarrow> int option" where
  "genOf parse b = (case parse b of Inl _ \<Rightarrow> None | Inr v \<Rightarrow> (case generationOf v of NaN \<Rightarrow> None | Num n \<Rightarrow> Some n))"

lemma pointer_put:
  assumes "classifyPath path = ManifestPointer" "heJson env = parse" "genOf parse bytes = Some g"
    and "fileRow mount (normalizePath path) h = Some row" "genOf parse (frContent row) = Some g0"
  shows "\<exists>row'. fileRow mount (normalizePath path) (fst (putByType env mount path bytes h)) = Some row' \<and>
    genOf parse (frContent row') = Some (max g0 g)"
  using assms
  by (auto simp: putByType_def Let_def fileRow_semantic semanticStale_def genOf_def newFileRow_def max_def
      split: sum.splits jnum.splits)

lemma pointer_puts:
  assumes "classifyPath path = ManifestPointer" "\<forall>(env, b) \<in> set docs. heJson env = parse \<and> genOf parse b \<noteq> None"
    and "fileRow mount (normalizePath path) h = Some row" "genOf parse (frContent row) = Some g0"
  shows "\<exists>row'. fileRow mount (normalizePath path) (putDocs mount path docs h) = Some row' \<and>
    genOf parse (frContent row') = Some (Max (insert g0 ((\<lambda>(env, b). the (genOf parse b)) ` set docs)))"
  using assms(2-4)
proof (induction docs arbitrary: h row g0)
  case (Cons d docs)
  obtain env b g where d: "d = (env, b)" "heJson env = parse" "genOf parse b = Some g" using Cons.prems(1) by (cases d) auto
  obtain row' where "fileRow mount (normalizePath path) (fst (putByType env mount path b h)) = Some row'"
    "genOf parse (frContent row') = Some (max g0 g)"
    using pointer_put [OF assms(1) d(2,3) Cons.prems(2,3)] by blast
  moreover have "Max (insert (max g0 g) S) = Max (insert g0 (insert g S))" if "finite S" for S
    using that by (cases "S = {}") (auto simp: max.assoc)
  ultimately show ?case using Cons.IH [of "fst (putByType env mount path b h)" row' "max g0 g"] Cons.prems(1) by (simp add: d)
qed simp

text \<open>C26: The manifest pointer ends at the newest generation: after any uploads of pointer documents to a
  mesh that had none, in any order, the stored document is one of the highest generation uploaded.
\<close>

theorem pointer_keeps_newest:
  assumes "classifyPath path = ManifestPointer" "docs \<noteq> []" "fileRow mount (normalizePath path) h = None"
    and "\<forall>(env, b) \<in> set docs. heJson env = parse \<and> genOf parse b \<noteq> None"
  shows "\<exists>row. fileRow mount (normalizePath path) (putDocs mount path docs h) = Some row \<and>
    genOf parse (frContent row) = Some (Max ((\<lambda>(env, b). the (genOf parse b)) ` set docs))"
proof -
  obtain env b rest where docs: "docs = (env, b) # rest" using assms(2) by (cases docs) auto
  have "fileRow mount (normalizePath path) (fst (putByType env mount path b h)) = Some (newFileRow env b)"
    using assms(1,3) by (simp add: putByType_def Let_def fileRow_semantic semanticStale_def)
  moreover obtain g where "genOf parse (frContent (newFileRow env b)) = Some g" "genOf parse b = Some g"
    using assms(4) docs by (auto simp: newFileRow_def)
  ultimately show ?thesis
    using pointer_puts [OF assms(1), of rest parse mount _ "newFileRow env b" g] assms(4) docs by auto
qed

definition demoDocEnv :: "string host_env" where
  "demoDocEnv = demoHostEnv\<lparr>heJson := \<lambda>s. Inr (JObj [(''currentGeneration'', JNum (Num (int (length s))))])\<rparr>"

theorem pointer_keeps_newest_witness:
  "\<exists>row. fileRow ''m'' (normalizePath ''/r/manifest.json'') (putDocs ''m'' ''/r/manifest.json'' [(demoDocEnv, ''bb''), (demoDocEnv, ''a'')]
       (svHost demoServer)) = Some row \<and>
     genOf (heJson demoDocEnv) (frContent row) =
       Some (Max ((\<lambda>(env, b). the (genOf (heJson demoDocEnv) b)) ` set [(demoDocEnv, ''bb''), (demoDocEnv, ''a'')]))"
proof (rule pointer_keeps_newest)
  show "classifyPath ''/r/manifest.json'' = ManifestPointer" by code_simp
  show "fileRow ''m'' (normalizePath ''/r/manifest.json'') (svHost demoServer) = None"
    by (simp add: fileRow_def demoServer_def emptyDatabase_def)
qed (simp_all add: genOf_def demoDocEnv_def generationOf_def nullishOr_def)

end
