(* ===== verification/Relay.thy ===== *)
theory Relay
  imports Js_Value
begin

text \<open>
  The invalidation relay (\<open>packages/workers/src/relay.ts\<close>): a durable object per mesh that accepts
  web sockets and sends them the last payload broadcast within a window of one second. A socket is a
  number and either takes a message or fails; the messages delivered are recorded. The field
  \<open>pendingBroadcastTimer\<close> of the object (\<open>ryHandle\<close>) and the timers that the runtime has armed
  (\<open>ryArmed\<close>) are kept apart: \<open>setTimeout\<close> arms a timer under a fresh number and answers it,
  \<open>clearTimeout\<close> disarms one, and a timer that fires is armed no longer but stays in the field until
  the code clears it. A request reaches the object by its internal path name.
\<close>

record relay =
  rySockets :: "nat list"
  ryPending :: "string option"
  ryHandle :: "nat option"
  ryArmed :: "nat list"
  ryFresh :: nat
  ryDelivered :: "(nat \<times> string) list"

definition newRelay :: relay where
  "newRelay = \<lparr>rySockets = [], ryPending = None, ryHandle = None, ryArmed = [], ryFresh = 1, ryDelivered = []\<rparr>"

definition RELAY_BROADCAST_BATCH_DELAY_MS :: int where "RELAY_BROADCAST_BATCH_DELAY_MS = 1000"

text \<open>\<open>setTimeout\<close> and the guarded \<open>clearTimeout\<close> of the object.\<close>

definition armTimer :: "relay \<Rightarrow> relay" where
  "armTimer r = r\<lparr>ryHandle := Some (ryFresh r), ryArmed := ryArmed r @ [ryFresh r], ryFresh := ryFresh r + 1\<rparr>"

definition clearTimer :: "relay \<Rightarrow> relay" where
  "clearTimer r =
     (case ryHandle r of
        None \<Rightarrow> r
      | Some t \<Rightarrow> r\<lparr>ryHandle := None, ryArmed := removeAll t (ryArmed r)\<rparr>)"

text \<open>\<open>alive\<close> says which sockets take a message; the answer counts connected, sent and failed.\<close>

definition flushPendingBroadcast :: "(nat \<Rightarrow> bool) \<Rightarrow> relay \<Rightarrow> relay \<times> nat \<times> nat \<times> nat" where
  "flushPendingBroadcast alive r =
     (let payload = ryPending r;
          r1 = clearTimer (r\<lparr>ryPending := None\<rparr>);
          sockets = rySockets r1 in
      case payload of
        None \<Rightarrow> (r1, length sockets, 0, 0)
      | Some text \<Rightarrow>
          if text = '''' then (r1, length sockets, 0, 0)
          else (r1\<lparr>ryDelivered := ryDelivered r1 @ map (\<lambda>ws. (ws, text)) (filter alive sockets)\<rparr>,
                length sockets, length (filter alive sockets), length (filter (\<lambda>ws. \<not> alive ws) sockets)))"

definition scheduleBroadcastFlush :: "relay \<Rightarrow> relay" where
  "scheduleBroadcastFlush r = (if ryHandle r \<noteq> None then r else armTimer r)"

datatype relay_request =
    RelayConnect bool nat
  | RelayBroadcast string
  | RelayStatus
  | RelayReset
  | RelayOther

datatype relay_reply =
    Upgraded
  | UpgradeRequired
  | Queued
  | Status nat bool
  | Cleared nat
  | RelayNotFound

text \<open>
  \<open>fetch\<close>: \<open>RelayConnect\<close> carries whether the request asks for a web socket, and the new socket.
  Closing the sockets of a reset is the runtime's; a socket leaves the list when it is closed.
\<close>

definition relayFetch :: "relay_request \<Rightarrow> relay \<Rightarrow> relay \<times> relay_reply" where
  "relayFetch rq r =
     (case rq of
        RelayConnect upgrade ws \<Rightarrow>
          if \<not> upgrade then (r, UpgradeRequired) else (r\<lparr>rySockets := rySockets r @ [ws]\<rparr>, Upgraded)
      | RelayBroadcast payload \<Rightarrow> (scheduleBroadcastFlush (r\<lparr>ryPending := Some payload\<rparr>), Queued)
      | RelayStatus \<Rightarrow> (r, Status (length (rySockets r)) (ryPending r \<noteq> None))
      | RelayReset \<Rightarrow> (clearTimer (r\<lparr>ryPending := None\<rparr>), Cleared (length (rySockets r)))
      | RelayOther \<Rightarrow> (r, RelayNotFound))"

text \<open>What can happen to the object: a request, an armed timer firing, a socket closing.\<close>

datatype relay_event =
    Serve relay_request
  | Fire nat
  | CloseSocket nat

definition fireTimer :: "(nat \<Rightarrow> bool) \<Rightarrow> nat \<Rightarrow> relay \<Rightarrow> relay" where
  "fireTimer alive t r =
     (if t \<in> set (ryArmed r) then fst (flushPendingBroadcast alive (r\<lparr>ryArmed := removeAll t (ryArmed r)\<rparr>))
      else r)"

fun relayEvent :: "(nat \<Rightarrow> bool) \<Rightarrow> relay_event \<Rightarrow> relay \<Rightarrow> relay" where
  "relayEvent alive (Serve rq) r = fst (relayFetch rq r)"
| "relayEvent alive (Fire t) r = fireTimer alive t r"
| "relayEvent alive (CloseSocket ws) r = r\<lparr>rySockets := removeAll ws (rySockets r)\<rparr>"

definition relayRun :: "(nat \<Rightarrow> bool) \<Rightarrow> relay_event list \<Rightarrow> relay \<Rightarrow> relay" where
  "relayRun alive es r = fold (relayEvent alive) es r"

text \<open>
  The invariant: the field holds a timer exactly while a payload waits, that timer is armed, and no
  other is.
\<close>

definition relayInv :: "relay \<Rightarrow> bool" where
  "relayInv r =
     (case ryHandle r of
        None \<Rightarrow> ryArmed r = [] \<and> ryPending r = None
      | Some t \<Rightarrow> ryArmed r = [t] \<and> ryPending r \<noteq> None)"

lemma relayInv_new: "relayInv newRelay"
  by (simp add: relayInv_def newRelay_def)

lemma flush_idle: "relayInv r \<Longrightarrow> t \<in> set (ryArmed r) \<Longrightarrow>
    let r' = fireTimer alive t r in ryHandle r' = None \<and> ryArmed r' = [] \<and> ryPending r' = None"
  by (auto simp: relayInv_def fireTimer_def flushPendingBroadcast_def clearTimer_def Let_def split: option.splits)

lemma relayInv_fetch: "relayInv r \<Longrightarrow> relayInv (fst (relayFetch rq r))"
  by (cases rq)
     (auto simp: relayInv_def relayFetch_def scheduleBroadcastFlush_def armTimer_def clearTimer_def split: option.splits)

lemma relayInv_event: "relayInv r \<Longrightarrow> relayInv (relayEvent alive e r)"
proof (cases e)
  case (Fire t)
  assume "relayInv r"
  then show ?thesis
    using Fire flush_idle [of r t alive]
    by (cases "t \<in> set (ryArmed r)") (auto simp: relayInv_def Let_def fireTimer_def)
next
  case (CloseSocket ws)
  assume "relayInv r"
  then show ?thesis using CloseSocket by (simp add: relayInv_def split: option.splits)
qed (simp add: relayInv_fetch)

lemma relayInv_run: "relayInv r \<Longrightarrow> relayInv (relayRun alive es r)"
  by (induction es arbitrary: r) (simp_all add: relayRun_def relayInv_event)

text \<open>An event that leaves the waiting payload waiting.\<close>

fun keepsWaiting :: "relay_event \<Rightarrow> bool" where
  "keepsWaiting (Serve RelayReset) = False"
| "keepsWaiting (Serve (RelayBroadcast p)) = False"
| "keepsWaiting (Fire t) = False"
| "keepsWaiting e = True"

lemma waiting_event:
  "keepsWaiting e \<Longrightarrow> ryPending (relayEvent alive e r) = ryPending r"
  by (cases e rule: keepsWaiting.cases) (auto simp: relayFetch_def)

lemma waiting_run:
  "list_all keepsWaiting es \<Longrightarrow> ryPending (relayRun alive es r) = ryPending r"
  by (induction es arbitrary: r) (simp_all add: relayRun_def waiting_event)

lemma fire_delivers:
  assumes "ryPending r = Some payload" "payload \<noteq> ''''" "t \<in> set (ryArmed r)" "ws \<in> set (rySockets r)" "alive ws"
  shows "(ws, payload) \<in> set (ryDelivered (fireTimer alive t r))"
  using assms by (auto simp: fireTimer_def flushPendingBroadcast_def clearTimer_def Let_def split: option.splits)

lemma broadcast_waits: "ryPending (fst (relayFetch (RelayBroadcast payload) r)) = Some payload"
  by (simp add: relayFetch_def scheduleBroadcastFlush_def armTimer_def)

text \<open>C31: The relay sends every payload it has accepted. Let the object have served any requests, fired
  any of its timers and lost any sockets before; then, after a broadcast and whatever follows that is
  no reset, no newer broadcast and no firing of the timer, exactly one timer is armed, and when it
  fires every socket that is connected by then and takes messages is sent the payload, and the object
  is ready to arm the next timer.\<close>

theorem broadcast_delivered:
  assumes "payload \<noteq> ''''" "list_all keepsWaiting later"
    and "r = relayRun alive (earlier @ Serve (RelayBroadcast payload) # later) newRelay"
  shows "\<exists>t. ryArmed r = [t]
    \<and> (\<forall>ws. ws \<in> set (rySockets r) \<and> alive ws \<longrightarrow> (ws, payload) \<in> set (ryDelivered (fireTimer alive t r)))
    \<and> ryHandle (fireTimer alive t r) = None \<and> ryArmed (fireTimer alive t r) = []"
proof -
  let ?r1 = "fst (relayFetch (RelayBroadcast payload) (relayRun alive earlier newRelay))"
  have r: "r = relayRun alive later ?r1" using assms(3) by (simp add: relayRun_def)
  have inv: "relayInv r" unfolding assms(3) by (intro relayInv_run relayInv_new)
  have pending: "ryPending r = Some payload"
    unfolding r using waiting_run [OF assms(2)] broadcast_waits by simp
  then obtain t where t: "ryArmed r = [t]" using inv by (auto simp: relayInv_def split: option.splits)
  then show ?thesis
    using fire_delivers [OF pending assms(1)] flush_idle [OF inv, of t alive] by (simp add: Let_def)
qed

text \<open>
  The witness fires a first timer, so that the second broadcast needs a timer of its own; a third
  socket fails and the one that is closed is not sent the payload.
\<close>

definition demoEarlier :: "relay_event list" where
  "demoEarlier = [Serve (RelayConnect True 4), Serve (RelayBroadcast ''old''), Fire 1, Serve (RelayConnect True 5)]"

theorem broadcast_delivered_witness:
  "let r = relayRun (\<lambda>ws. ws \<noteq> 6) (demoEarlier @ Serve (RelayBroadcast ''x'') # [Serve (RelayConnect True 6), CloseSocket 4]) newRelay
   in ryArmed r = [2] \<and> (5, ''x'') \<in> set (ryDelivered (fireTimer (\<lambda>ws. ws \<noteq> 6) 2 r))"
proof -
  let ?r = "relayRun (\<lambda>ws. ws \<noteq> 6) (demoEarlier @ Serve (RelayBroadcast ''x'') # [Serve (RelayConnect True 6), CloseSocket 4]) newRelay"
  have "5 \<in> set (rySockets ?r)" "ryArmed ?r = [2]" by code_simp+
  moreover from broadcast_delivered [of "''x''" "[Serve (RelayConnect True 6), CloseSocket 4]" ?r "\<lambda>ws. ws \<noteq> 6" demoEarlier]
  obtain t where "ryArmed ?r = [t]"
    "\<forall>ws. ws \<in> set (rySockets ?r) \<and> ws \<noteq> 6 \<longrightarrow> (ws, ''x'') \<in> set (ryDelivered (fireTimer (\<lambda>ws. ws \<noteq> 6) t ?r))"
    by auto
  ultimately show ?thesis by (simp add: Let_def)
qed

end
