(* ===== verification/Payload_Bytes.thy ===== *)
theory Payload_Bytes
  imports Codec Json_Text Envelope
begin

text \<open>
  Change and snapshot payloads down to the bytes of a remote file (\<open>packages/core/src/core/codec.ts\<close>): the
  payload object is written by \<open>JSON.stringify\<close>, encoded as UTF-8 and, when the engine encrypts and
  holds a key, sealed in an envelope; the other way the bytes are opened, decoded, parsed, and the
  members of the parsed value are looked at one by one. Entries and snapshots are JSON values here, as
  they are for the code, which returns the member of the parsed object. The theories of the engine use
  the codec of \<open>Codec\<close>, whose remote files are documents; this theory shows that the bytes between the
  two ends carry them.
\<close>

record byte_codec =
  bcKey :: "bytes option"
  bcEncrypted :: bool
  bcManifest :: "manifest option"

definition encodeForCloudBytes :: "crypto_env \<Rightarrow> bytes \<Rightarrow> byte_codec \<Rightarrow> string \<Rightarrow> bytes" where
  "encodeForCloudBytes cy iv state plaintext =
     (if \<not> bcEncrypted state then textBytes plaintext
      else (case bcKey state of None \<Rightarrow> textBytes plaintext | Some key \<Rightarrow> encryptEntry cy iv key plaintext))"

definition decodeFromCloudBytes :: "crypto_env \<Rightarrow> byte_codec \<Rightarrow> bytes \<Rightarrow> string result" where
  "decodeFromCloudBytes cy state data =
     (if \<not> bcEncrypted state then decodeText data
      else (case bcKey state of
              None \<Rightarrow> decodeText data
            | Some key \<Rightarrow>
                (case decryptEntry cy key data of
                   Inl e \<Rightarrow> Inl (Error ''Decryption failed: payload not decryptable with the active mesh key'')
                 | Inr text \<Rightarrow> Inr text)))"

text \<open>
  The two encoders differ in the kind and the name of the member, and so do the two decoders.
\<close>

definition encodePayloadBytes ::
  "string \<Rightarrow> string \<Rightarrow> crypto_env \<Rightarrow> (int \<Rightarrow> string) \<Rightarrow> bytes \<Rightarrow> byte_codec \<Rightarrow> jsval \<Rightarrow> bytes result"
where
  "encodePayloadBytes kind name cy dt iv state v =
     (case bcManifest state of
        None \<Rightarrow> Inl (Error ''Cannot encode payload before manifest is loaded'')
      | Some mf \<Rightarrow>
          if mfMeshId mf = '''' then Inl (Error ''Cannot encode payload before manifest is loaded'')
          else (case jsonText dt (JObj [(''meshId'', JStr (mfMeshId mf)), (''kind'', JStr kind), (name, v)]) of
                  None \<Rightarrow> Inl (TypeError ''JSON'')
                | Some text \<Rightarrow> Inr (encodeForCloudBytes cy iv state text)))"

definition encodeChangeBytes ::
  "crypto_env \<Rightarrow> (int \<Rightarrow> string) \<Rightarrow> bytes \<Rightarrow> byte_codec \<Rightarrow> jsval \<Rightarrow> bytes result"
where
  "encodeChangeBytes = encodePayloadBytes ''change'' ''entry''"

definition encodeSnapshotBytes ::
  "crypto_env \<Rightarrow> (int \<Rightarrow> string) \<Rightarrow> bytes \<Rightarrow> byte_codec \<Rightarrow> jsval \<Rightarrow> bytes result"
where
  "encodeSnapshotBytes = encodePayloadBytes ''snapshot'' ''snapshot''"

text \<open>\<open>String(payload.meshId || "")\<close>; a parsed value holds no date.\<close>

definition meshIdText :: "jsval \<Rightarrow> string" where
  "meshIdText v = (if truthy v then jsToStr (\<lambda>_. '''') v else '''')"

definition decodePayloadBytes ::
  "string \<Rightarrow> string \<Rightarrow> crypto_env \<Rightarrow> byte_codec \<Rightarrow> bytes \<Rightarrow> memory_store \<Rightarrow> memory_store \<times> jsval result"
where
  "decodePayloadBytes kind name cy state data local =
     (case bind_result (decodeFromCloudBytes cy state data) jsonParseText of
        Inl e \<Rightarrow> (local, Inl e)
      | Inr (JObj fs) \<Rightarrow>
          if map_of fs ''mesh'' \<noteq> None \<and> map_of fs ''meshId'' = None
          then (local, Inl (Error ''Remote payload has invalid shape''))
          else if jsonField fs ''kind'' \<noteq> JStr kind \<or> \<not> truthy (jsonField fs name)
          then (local, Inl (Error ''Remote payload has invalid shape''))
          else (case assertExpectedMeshId (bcManifest state) (meshIdText (jsonField fs ''meshId'')) local of
                  (local', Inl e) \<Rightarrow> (local', Inl e)
                | (local', Inr _) \<Rightarrow> (local', Inr (jsonField fs name)))
      | Inr (JArr xs) \<Rightarrow> (local, Inl (Error ''Remote payload has invalid shape''))
      | Inr v \<Rightarrow> (local, Inl (TypeError ''in'')))"

definition decodeChangeBytes ::
  "crypto_env \<Rightarrow> byte_codec \<Rightarrow> bytes \<Rightarrow> memory_store \<Rightarrow> memory_store \<times> jsval result"
where
  "decodeChangeBytes = decodePayloadBytes ''change'' ''entry''"

definition decodeSnapshotBytes ::
  "crypto_env \<Rightarrow> byte_codec \<Rightarrow> bytes \<Rightarrow> memory_store \<Rightarrow> memory_store \<times> jsval result"
where
  "decodeSnapshotBytes = decodePayloadBytes ''snapshot'' ''snapshot''"

section \<open>Round trip\<close>

lemma decrypt_encrypt_entry:
  assumes "gcmLaws cy" "deflateLaws cy" "length iv = IV_LENGTH"
  shows "decryptEntry cy key (encryptEntry cy iv key text) = Inr text"
  using sealed_opens [OF assms, of key "textBytes text"]
  by (simp add: decryptEntry_def encryptEntry_def encryptBytes_def decryptBytes_def decode_text)

lemma cloud_bytes_roundtrip:
  assumes "gcmLaws cy" "deflateLaws cy" "length iv = IV_LENGTH" "bcEncrypted b = bcEncrypted a" "bcKey b = bcKey a"
  shows "decodeFromCloudBytes cy b (encodeForCloudBytes cy iv a text) = Inr text"
  using assms decrypt_encrypt_entry [OF assms(1-3)]
  by (auto simp: decodeFromCloudBytes_def encodeForCloudBytes_def decode_text split: option.split)

lemma normal_object: "jsonNormal dt (JObj fs) = Some v \<Longrightarrow> \<exists>gs. v = JObj gs"
  by auto

lemma payload_bytes:
  assumes cipher: "gcmLaws cy" "deflateLaws cy" "length iv = IV_LENGTH"
    and same: "bcEncrypted b = bcEncrypted a" "bcKey b = bcKey a"
    and mesh: "bcManifest a = Some mf" "mfMeshId mf \<noteq> ''''" "\<forall>mf'. bcManifest b = Some mf' \<longrightarrow> mfMeshId mf' = mfMeshId mf"
    and bound: "boundTo (mfMeshId mf) local" and wf: "wfValue (JObj fs)" and name: "name \<notin> {''meshId'', ''kind'', ''mesh''}"
  shows "\<exists>data. encodePayloadBytes kind name cy dt iv a (JObj fs) = Inr data
    \<and> decodePayloadBytes kind name cy b data local
        = (storeSetMeta ''meshId'' (JStr (mfMeshId mf)) local, Inr (JObj (normalMembers dt fs)))"
proof -
  let ?p = "JObj [(''meshId'', JStr (mfMeshId mf)), (''kind'', JStr kind), (name, JObj fs)]"
  obtain tx where tx: "jsonText dt ?p = Some tx" by simp
  have "wfValue ?p" using wf name by auto
  from json_roundtrip [OF this tx]
  have parsed: "jsonParseText tx = Inr (JObj [(''meshId'', JStr (mfMeshId mf)), (''kind'', JStr kind), (name, JObj (normalMembers dt fs))])"
    by auto
  have enc: "encodePayloadBytes kind name cy dt iv a (JObj fs) = Inr (encodeForCloudBytes cy iv a tx)"
    using mesh tx by (simp add: encodePayloadBytes_def)
  have ok: "assertExpectedMeshId (bcManifest b) (mfMeshId mf) local = (storeSetMeta ''meshId'' (JStr (mfMeshId mf)) local, Inr ())"
    by (rule assertExpectedMeshId_ok) (use mesh bound in auto)
  have "decodePayloadBytes kind name cy b (encodeForCloudBytes cy iv a tx) local
      = (storeSetMeta ''meshId'' (JStr (mfMeshId mf)) local, Inr (JObj (normalMembers dt fs)))"
    using name mesh(2) ok
    by (auto simp: decodePayloadBytes_def cloud_bytes_roundtrip [OF cipher same] parsed jsonField_def meshIdText_def)
  with enc show ?thesis by blast
qed

text \<open>C35: What one engine of a mesh writes, another reads, byte for byte: the change or snapshot payload that an
  engine encodes, as JSON text in UTF-8, sealed under the mesh key when the mesh is encrypted, decodes at any
  engine of the same mesh and key to the JSON normal form of the entry or snapshot: members that are undefined
  are gone, \<open>NaN\<close> is null and a date is its ISO text, and all else, with every string and every nesting, is as
  before. The reader's store is bound to the mesh by it. Objects have distinct member names, strings code units
  below 256 and numbers are integers.\<close>

theorem payload_roundtrip:
  assumes "gcmLaws cy" "deflateLaws cy" "length iv = IV_LENGTH"
    and "bcEncrypted b = bcEncrypted a" "bcKey b = bcKey a"
    and "bcManifest a = Some mf" "mfMeshId mf \<noteq> ''''" "\<forall>mf'. bcManifest b = Some mf' \<longrightarrow> mfMeshId mf' = mfMeshId mf"
    and "boundTo (mfMeshId mf) local" "wfValue (JObj fs)"
  shows "\<exists>change snap v. encodeChangeBytes cy dt iv a (JObj fs) = Inr change
    \<and> encodeSnapshotBytes cy dt iv a (JObj fs) = Inr snap
    \<and> jsonNormal dt (JObj fs) = Some v
    \<and> decodeChangeBytes cy b change local = (storeSetMeta ''meshId'' (JStr (mfMeshId mf)) local, Inr v)
    \<and> decodeSnapshotBytes cy b snap local = (storeSetMeta ''meshId'' (JStr (mfMeshId mf)) local, Inr v)"
  using payload_bytes [OF assms, of "''entry''" "''change''" dt] payload_bytes [OF assms, of "''snapshot''" "''snapshot''" dt]
  by (auto simp: encodeChangeBytes_def encodeSnapshotBytes_def decodeChangeBytes_def decodeSnapshotBytes_def)

definition demoByteCodec :: byte_codec where
  "demoByteCodec = \<lparr>bcKey = Some [5], bcEncrypted = True, bcManifest = Some demoManifest\<rparr>"

definition demoFields :: "(string \<times> jsval) list" where
  "demoFields = [(''id'', JStr [CHR 0x22, CHR 0x0A, CHR 0xE9]), (''user'', JUndefined), (''ops'', JArr [JNum (Num (- 12)), JNum NaN, JDate 7])]"

theorem payload_roundtrip_witness:
  "\<exists>data. encodeChangeBytes demoCrypto (\<lambda>_. ''1970'') (replicate 12 0) demoByteCodec (JObj demoFields) = Inr data
    \<and> snd (decodeChangeBytes demoCrypto demoByteCodec data newMemoryStore)
        = Inr (JObj [(''id'', JStr [CHR 0x22, CHR 0x0A, CHR 0xE9]), (''ops'', JArr [JNum (Num (- 12)), JNull, JStr ''1970''])])"
proof -
  have "bcManifest demoByteCodec = Some demoManifest" "mfMeshId demoManifest \<noteq> ''''"
    "\<forall>mf'. bcManifest demoByteCodec = Some mf' \<longrightarrow> mfMeshId mf' = mfMeshId demoManifest"
    "boundTo (mfMeshId demoManifest) newMemoryStore" "wfValue (JObj demoFields)" "length (replicate 12 (0 :: 8 word)) = IV_LENGTH"
    using demoCodec_ok(3,4) by (simp_all add: demoByteCodec_def demoFields_def IV_LENGTH_def)
  from payload_roundtrip [OF demoCrypto_gcm demoCrypto_deflate this(6) refl refl this(1-5), of "\<lambda>_. ''1970''"]
  show ?thesis by (auto simp: demoFields_def)
qed

section \<open>What a payload that decodes is bound to\<close>













end
