(* ===== verification/Spec2Isabelle.thy ===== *)
theory Spec2Isabelle
  imports Store_Lock Compact_Flight Web_Credentials Connect_Properties Engine_Liveness Host_Properties Relay Payload_Bytes
begin

text \<open>
  A model of Interocitor, a local-first database that devices of one mesh share through a dumb remote:
  every device writes to its own store, publishes its changes as immutable encrypted files below the
  mesh's remote path, and merges the files of the others. File names below are relative to
  \<open>src/packages/\<close>.

  \<^bold>\<open>The parts and how they interact.\<close> The engine (\<open>core/src/core/sync-engine.ts\<close>) stamps writes with a
  hybrid logical clock (\<open>hlc.ts\<close>), keeps rows and a queue in a local store (\<open>storage/*.ts\<close>), publishes
  the queue (\<open>flush.ts\<close>), reads what others published (\<open>pull.ts\<close>) into rows by a last-writer-wins merge
  per column (\<open>crdt.ts\<close>), records which files it has read (\<open>change-observation.ts\<close>), and from time to
  time folds the files into a snapshot (\<open>compaction.ts\<close>) named by a manifest (\<open>manifest.ts\<close>). Payloads
  are sealed under the mesh key (\<open>codec.ts\<close>, \<open>crypto/encryption.ts\<close>), which a key source keeps in a
  credential store (\<open>crypto/key-source.ts\<close>, \<open>web/src/credential-store.ts\<close>). The remote is anything
  behind the \<open>StorageAdapter\<close> interface; the mailbox host (\<open>workers/src\<close>) is the one of the repository:
  a worker with a row store, admission of meshes, grants, stored files with seals and quota, recovery
  wrappers, a relay of invalidations and a sweep of idle meshes.

  \<^bold>\<open>Values and the library.\<close>
  \<^item> \<open>Js_Prelude\<close>: exceptions as the sum type \<open>'a result\<close>, numbers that may be \<open>NaN\<close>, strings with
    JavaScript's slicing and searching, the order of strings by code unit, and the locale
    \<open>js_comparator\<close> of comparison functions that a sort may use.
  \<^item> \<open>Js_Value\<close>: JSON values, truthiness and structural equality.
  \<^item> \<open>Json_Text\<close>: \<open>JSON.stringify\<close> and \<open>JSON.parse\<close> on characters; the parser gives back what the printer
    wrote. It runs on fuel, twice the length of the text and one, and no more fuel changes its answer.

  \<^bold>\<open>The merge.\<close>
  \<^item> \<open>Hlc\<close>: clocks progress, stay within the accepted skew, and their strings sort as the clocks do,
    as long as their numbers are ones that JavaScript adds exactly (\<open>safeHlc\<close>).
  \<^item> \<open>Crdt\<close>, \<open>Merge_Laws\<close>, \<open>Crdt_Convergence\<close>: \<open>applyOp\<close> and its merge strategies; the locale
    \<open>convergent_merge\<close> states what a merge function owes; replicas that applied the same operations
    agree, and a row is the closed form of its history.
  \<^item> \<open>Change_Effects\<close>: the effects reported to listeners are the exact difference of the tables.

  \<^bold>\<open>Local state.\<close>
  \<^item> \<open>Memory_Store\<close>: the store contract as the locale \<open>local_store\<close>, interpreted on the in-memory store;
    a queued entry stays queued until it is acknowledged, drained or the store is cleared or closed.
  \<^item> \<open>Store_Lock\<close>: the named lock as a step relation; mutual exclusion, order and progress.
  \<^item> \<open>Observation\<close>: the ledger of files read; its receipts are exact under interleaved persists.
  \<^item> \<open>Local_Writes\<close>, \<open>Local_Writes_Correct\<close>: puts and deletes refine the merge of the history followed by
    the queue, the abstract specification of a local write.

  \<^bold>\<open>The remote.\<close>
  \<^item> \<open>Storage_Adapter\<close>: the contract as the locale \<open>storage_adapter\<close>, interpreted on the in-memory adapter
    and on one that fails at will; \<open>cloud_adapter\<close> and \<open>document_adapter\<close> extend it.
  \<^item> \<open>Codec\<close>, \<open>Envelope\<close>, \<open>Mesh_Key\<close>: documents, paths and payloads; an envelope opens exactly when it was
    sealed under that key and format, passphrases are canonical encodings of keys. The cipher is an
    argument with the laws of authenticated encryption as hypotheses (that it decrypts only what was
    encrypted is stated over the list of encryptions made), which a concrete function satisfies.
  \<^item> \<open>Payload_Bytes\<close>: the payloads of \<open>codec.ts\<close> down to bytes, through the JSON text and the envelope; what one
    engine encodes another decodes, and what decodes was sealed under the key and is of the mesh.
    The engine's theories work on \<open>Codec\<close>, where the content of a remote file is the document itself.
  \<^item> \<open>Manifest\<close>, \<open>Flush\<close>, \<open>Pull\<close>, \<open>Pull_Convergence\<close>, \<open>Compaction\<close>, \<open>Sync_Properties\<close>: what is published
    is durable in the receipts first, a pull is complete and devices converge, compaction loses nothing
    wherever it fails.

  \<^bold>\<open>The engine.\<close>
  \<^item> \<open>Engine_Sync\<close>, \<open>Engine_Connect\<close>, \<open>Engine_Maintenance\<close>: flush, pull, rehydrate and compact with the
    pause after an access decision, connect with its fast path, joining and eviction, timers.
  \<^item> \<open>Engine_Safety\<close>, \<open>Engine_Properties\<close>, \<open>Connect_Safety\<close>, \<open>Connect_Properties\<close>, \<open>Engine_Liveness\<close>: a flush loses
    no queued write wherever it fails, a connect loses none unless it replaces the local state (the default
    policy of joining does, as documented), pulls return; a rehydrate while access is paused loses writes,
    which is proved.
  \<^item> \<open>Compact_Flight\<close>: concurrent calls of compact as an interleaving of promise continuations.
  \<^item> \<open>Key_Source\<close>, \<open>Credentials\<close>, \<open>Identity_Safety\<close>, \<open>Web_Credentials\<close>: which key a device ends with; the
    locale \<open>keeps_credentials\<close> is interpreted on the memory and the browser store. Credentials sealed by a
    wrap that cannot be opened stop the initialization and stay as they are.

  \<^bold>\<open>The mailbox host.\<close>
  \<^item> \<open>Host_Paths\<close>, \<open>Row_Store\<close>, \<open>Row_Store_Laws\<close>: roles of paths, the four tables, every operation of
    \<open>ops.ts\<close> with the documented meaning of its SQL, and the effect of each on the tables.
  \<^item> \<open>Host_Maintenance\<close>: the sweep, which roots it removes and which neighbours with it, and the eviction record.
  \<^item> \<open>Mesh_Grants\<close>, \<open>Mesh_Admission\<close>, \<open>Host_Http\<close>: grants, ids, gates, routes, middleware, URL encoding.
  \<^item> \<open>Upload_Policy\<close>, \<open>Mailbox_Host\<close>: every handler of \<open>worker.ts\<close>, dispatch, mounts and schedule.
  \<^item> \<open>Host_Safety\<close>, \<open>Host_Properties\<close>: over runs of any events the state stays well formed, the quota
    holds, files are written once, seals need their guard, and a mesh changes only by a request for a
    path of that mesh that its gate and its authorizer, who see the request, let through.
  \<^item> \<open>Relay\<close>: the batching relay with its timer handle and its armed timers; after any events an accepted broadcast
    is delivered to every socket that takes messages.

  \<^bold>\<open>Modelling decisions.\<close> State is passed explicitly, one record per class, and a thrown error is the
  left of a sum together with the state at the throw. Asynchronous methods run to completion, except
  where interleaving is the point: the store lock, the ledger, compaction runs and the relay are step
  relations; so a request of the host runs to completion, without a failing database and without
  another request between its check and its write. The clock, random values, ciphers, the platform's key store, the storage adapter and the
  application's callbacks are arguments. Strings are lists of characters below 256, so \<open>trim\<close> knows the white space
  below 256 only. Integers are exact, and the statements on clocks name the range where JavaScript's are; the
  hours of a maintenance policy are whole. The read of \<open>head.json\<close> in a pull, whose result is a hint
  and whose errors are swallowed, is left out. A pull that
  rehydrates and pulls again recurses through fuel; two levels are enough on a mesh whose snapshots are
  not older than their manifests, which is proved, and a mesh that breaks this makes a reader loop,
  which is proved too.

  \<^bold>\<open>Not modelled.\<close> The query, table and subscription API and the React bindings (views of the modelled
  rows); stored files and recovery on the client side; the handshake; the cloud adapters of the client
  and the IndexedDB stores (I/O behind the modelled contracts); WebAuthn and passphrase custody; the
  body stores of the host; deadlines of a connect stage; failures of the host's database; the ports to
  Python and Swift.
\<close>

end
